(* ===== verification/Go_Prelude.thy ===== *)
theory Go_Prelude
  imports Complex_Main "HOL-Library.Monad_Syntax" "HOL-Library.Code_Target_Nat"
begin

text \<open>
  The development's collections of facts and the generic lemmas that several components
  share: finding the first position of a list that satisfies a predicate, partial results
  threaded through \<^const>\<open>Option.bind\<close>, and association lists searched by key.
\<close>

named_theorems model_defs \<open>definitions a client unfolds to compute with an operation\<close>
named_theorems frame_facts \<open>what an operation leaves unchanged\<close>

section \<open>Partial results\<close>

lemma bind_eq_SomeE:
  assumes "Option.bind m f = Some r"
  obtains x where "m = Some x" and "f x = Some r"
  using assms by (cases m) auto

lemma bind_not_NoneI:
  assumes "m \<noteq> None" and "\<And>x. m = Some x \<Longrightarrow> f x \<noteq> None"
  shows "Option.bind m f \<noteq> None"
  using assms by (cases m) auto

lemma not_None_conv: "x \<noteq> None \<longleftrightarrow> (\<exists>y. x = Some y)"
  by (cases x) auto

section \<open>Finite iteration and indexing\<close>

lemma nth_drop_Cons: "i < length xs \<Longrightarrow> drop i xs = xs ! i # drop (Suc i) xs"
  by (rule Cons_nth_drop_Suc [symmetric])

lemma take_Suc_snoc: "i < length xs \<Longrightarrow> take (Suc i) xs = take i xs @ [xs ! i]"
  by (rule take_Suc_conv_app_nth)

lemma sorted_wrt_snoc:
  "sorted_wrt P (xs @ [x]) \<longleftrightarrow> sorted_wrt P xs \<and> (\<forall>y \<in> set xs. P y x)"
  by (auto simp: sorted_wrt_append)

end
