(* ===== verification/Dsl_Token.thy ===== *)
theory Dsl_Token
  imports Go_Prelude
begin

text \<open>
  Package \<open>token\<close> (\<open>pkg/dsl/token/token.go\<close>): the token types in their declared order, their
  printed names, the keyword table and the token itself with its source position.
\<close>

datatype (plugins only: size code) token_type =
    TkIllegal | TkEOF | TkNewline
  | TkInt | TkFloat | TkString | TkIdent | TkTrue | TkFalse | TkNa
  | TkPlus | TkMinus | TkStar | TkSlash | TkPercent
  | TkPlusEq | TkMinusEq | TkStarEq | TkSlashEq | TkPercentEq
  | TkEqEq | TkBangEq | TkLt | TkGt | TkLtEq | TkGtEq
  | TkAnd | TkOr | TkNot
  | TkEq | TkColonEq | TkPlusPlus | TkMinusMinus
  | TkQuestion | TkColon | TkLBracket | TkRBracket
  | TkLParen | TkRParen | TkLBrace | TkRBrace | TkComma | TkDot | TkArrow
  | KwStrategy | KwIndicator | KwLibrary | KwInput | KwVar | KwVarip | KwExport | KwMethod
  | KwIf | KwElse | KwFor | KwWhile | KwSwitch | KwFn | KwReturn | KwImport
  | KwIn | KwTo | KwBy | KwBreak | KwContinue
  | KwInt | KwFloat | KwBool | KwString | KwColor | KwSeries | KwSimple | KwConst

record token =
  tok_type :: token_type
  literal :: string
  tok_line :: nat
  tok_col :: nat

abbreviation mk_token :: "token_type \<Rightarrow> string \<Rightarrow> nat \<Rightarrow> nat \<Rightarrow> token" where
  "mk_token tt lit l c \<equiv> \<lparr>tok_type = tt, literal = lit, tok_line = l, tok_col = c\<rparr>"

text \<open>
  The table \<open>typeNames\<close>, indexed by the token type; its order is the order of the constants,
  so the position of a type in it is the constant's numeric value.
\<close>

definition type_names :: "(token_type \<times> string) list" where
  "type_names =
    [(TkIllegal, ''ILLEGAL''), (TkEOF, ''EOF''), (TkNewline, ''NEWLINE''),
     (TkInt, ''INT''), (TkFloat, ''FLOAT''), (TkString, ''STRING''), (TkIdent, ''IDENT''),
     (TkTrue, ''TRUE''), (TkFalse, ''FALSE''), (TkNa, ''NA''),
     (TkPlus, ''+''), (TkMinus, ''-''), (TkStar, ''*''), (TkSlash, ''/''), (TkPercent, ''%''),
     (TkPlusEq, ''+=''), (TkMinusEq, ''-=''), (TkStarEq, ''*=''), (TkSlashEq, ''/=''),
     (TkPercentEq, ''%=''),
     (TkEqEq, ''==''), (TkBangEq, ''!=''), (TkLt, ''<''), (TkGt, ''>''), (TkLtEq, ''<=''),
     (TkGtEq, ''>=''),
     (TkAnd, ''and''), (TkOr, ''or''), (TkNot, ''not''),
     (TkEq, ''=''), (TkColonEq, '':=''), (TkPlusPlus, ''++''), (TkMinusMinus, ''--''),
     (TkQuestion, ''?''), (TkColon, '':''), (TkLBracket, ''[''), (TkRBracket, '']''),
     (TkLParen, ''(''), (TkRParen, '')''), (TkLBrace, ''{''), (TkRBrace, ''}''),
     (TkComma, '',''), (TkDot, ''.''), (TkArrow, ''=>''),
     (KwStrategy, ''strategy''), (KwIndicator, ''indicator''), (KwLibrary, ''library''),
     (KwInput, ''input''), (KwVar, ''var''), (KwVarip, ''varip''), (KwExport, ''export''),
     (KwMethod, ''method''), (KwIf, ''if''), (KwElse, ''else''), (KwFor, ''for''),
     (KwWhile, ''while''), (KwSwitch, ''switch''), (KwFn, ''fn''), (KwReturn, ''return''),
     (KwImport, ''import''), (KwIn, ''in''), (KwTo, ''to''), (KwBy, ''by''),
     (KwBreak, ''break''), (KwContinue, ''continue''),
     (KwInt, ''int''), (KwFloat, ''float''), (KwBool, ''bool''), (KwString, ''string''),
     (KwColor, ''color''), (KwSeries, ''series''), (KwSimple, ''simple''),
     (KwConst, ''const'')]"

text \<open>\<open>Type.String\<close>.\<close>

definition type_string :: "token_type \<Rightarrow> string" where
  "type_string t = (case map_of type_names t of Some s \<Rightarrow> s | None \<Rightarrow> ''UNKNOWN'')"

fun index_of :: "'a \<Rightarrow> ('a \<times> 'b) list \<Rightarrow> nat" where
  "index_of x [] = 0"
| "index_of x ((y, _) # ys) = (if x = y then 0 else Suc (index_of x ys))"

definition type_code :: "token_type \<Rightarrow> nat" where
  "type_code t = index_of t type_names"

text \<open>\<open>Type.IsKeyword\<close>: the keyword constants are contiguous.\<close>

definition is_keyword :: "token_type \<Rightarrow> bool" where
  "is_keyword t = (type_code KwStrategy \<le> type_code t \<and> type_code t \<le> type_code KwConst)"

text \<open>The map \<open>keywords\<close>; no key occurs twice, so the order of the list does not matter.\<close>

definition keyword_table :: "(string \<times> token_type) list" where
  "keyword_table =
    [(''strategy'', KwStrategy), (''indicator'', KwIndicator), (''library'', KwLibrary),
     (''input'', KwInput), (''var'', KwVar), (''varip'', KwVarip), (''export'', KwExport),
     (''method'', KwMethod), (''if'', KwIf), (''else'', KwElse), (''for'', KwFor),
     (''while'', KwWhile), (''switch'', KwSwitch), (''fn'', KwFn), (''return'', KwReturn),
     (''import'', KwImport), (''in'', KwIn), (''to'', KwTo), (''by'', KwBy),
     (''break'', KwBreak), (''continue'', KwContinue),
     (''true'', TkTrue), (''false'', TkFalse), (''na'', TkNa),
     (''and'', TkAnd), (''or'', TkOr), (''not'', TkNot),
     (''int'', KwInt), (''float'', KwFloat), (''bool'', KwBool), (''string'', KwString),
     (''color'', KwColor), (''series'', KwSeries), (''simple'', KwSimple),
     (''const'', KwConst)]"

definition lookup_ident :: "string \<Rightarrow> token_type" where
  "lookup_ident s = (case map_of keyword_table s of Some t \<Rightarrow> t | None \<Rightarrow> TkIdent)"

section \<open>Which types the keyword table can yield\<close>

lemma keyword_table_types:
  "list_all (\<lambda>(s, t). t \<noteq> TkEOF \<and> t \<noteq> TkIllegal \<and> t \<noteq> TkNewline \<and> t \<noteq> TkIdent) keyword_table"
  by (simp add: keyword_table_def)

lemma lookup_ident_keyword:
  "lookup_ident s \<noteq> TkIdent \<Longrightarrow> (s, lookup_ident s) \<in> set keyword_table"
  by (auto simp: lookup_ident_def dest: map_of_SomeD split: option.splits)

lemma lookup_ident_not_special [simp]:
  "lookup_ident s \<noteq> TkEOF" "lookup_ident s \<noteq> TkIllegal" "lookup_ident s \<noteq> TkNewline"
  using keyword_table_types lookup_ident_keyword [of s]
  by (cases "lookup_ident s = TkIdent"; fastforce simp: list_all_iff)+

end
