(* ===== verification/Go_Strings.thy ===== *)
theory Go_Strings
  imports Go_Prelude
begin

text \<open>
  Go strings are byte sequences, modelled as lists of 8-bit characters, and runes are code
  points, modelled as natural numbers. The functions of \<open>unicode/utf8\<close>, \<open>strings\<close> and
  \<open>unicode\<close> that the program calls are written out. The Unicode tables beyond Latin-1 are a
  parameter (\<open>unicode\<close>), because they are data of the Go distribution.
\<close>

section \<open>UTF-8\<close>

abbreviation byte :: "char \<Rightarrow> nat" where
  "byte \<equiv> of_char"

definition rune_error :: nat where
  "rune_error = 65533"

definition is_cont :: "nat \<Rightarrow> bool" where
  "is_cont b = (128 \<le> b \<and> b \<le> 191)"

text \<open>The range the second byte must lie in, by the first byte.\<close>

definition second_range :: "nat \<Rightarrow> nat \<times> nat" where
  "second_range b =
     (if b = 224 then (160, 191) else if b = 237 then (128, 159)
      else if b = 240 then (144, 191) else if b = 244 then (128, 143)
      else (128, 191))"

text \<open>The length of the encoding a first byte announces, 0 for a byte that starts none.\<close>

definition lead_size :: "nat \<Rightarrow> nat" where
  "lead_size b =
     (if b < 128 then 1 else if b < 194 then 0 else if b \<le> 223 then 2
      else if b \<le> 239 then 3 else if b \<le> 244 then 4 else 0)"

text \<open>\<open>utf8.DecodeRune\<close>: the rune and its width; an invalid encoding is \<open>RuneError\<close> of width 1.\<close>

definition decode_rune :: "string \<Rightarrow> nat \<times> nat" where
  "decode_rune bs =
     (case bs of
        [] \<Rightarrow> (rune_error, 0)
      | c0 # rest \<Rightarrow>
         (let b0 = byte c0; sz = lead_size b0; (lo, hi) = second_range b0
          in if sz = 1 then (b0, 1)
             else if sz = 0 \<or> length bs < sz then (rune_error, 1)
             else let b1 = byte (rest ! 0)
                  in if b1 < lo \<or> hi < b1 then (rune_error, 1)
                     else if sz = 2 then ((b0 - 192) * 64 + (b1 - 128), 2)
                     else let b2 = byte (rest ! 1)
                          in if \<not> is_cont b2 then (rune_error, 1)
                             else if sz = 3
                             then ((b0 - 224) * 4096 + (b1 - 128) * 64 + (b2 - 128), 3)
                             else let b3 = byte (rest ! 2)
                                  in if \<not> is_cont b3 then (rune_error, 1)
                                     else ((b0 - 240) * 262144 + (b1 - 128) * 4096
                                             + (b2 - 128) * 64 + (b3 - 128), 4)))"

text \<open>\<open>utf8.AppendRune\<close>, which \<open>WriteRune\<close> and \<open>string(r)\<close> use.\<close>

definition encode_rune :: "nat \<Rightarrow> string" where
  "encode_rune r0 =
     (let r = (if 1114111 < r0 \<or> (55296 \<le> r0 \<and> r0 \<le> 57343) then rune_error else r0)
      in if r < 128 then [char_of r]
         else if r < 2048 then [char_of (192 + r div 64), char_of (128 + r mod 64)]
         else if r < 65536
         then [char_of (224 + r div 4096), char_of (128 + r div 64 mod 64),
               char_of (128 + r mod 64)]
         else [char_of (240 + r div 262144), char_of (128 + r div 4096 mod 64),
               char_of (128 + r div 64 mod 64), char_of (128 + r mod 64)])"

lemma decode_rune_width:
  "bs \<noteq> [] \<Longrightarrow> 1 \<le> snd (decode_rune bs) \<and> snd (decode_rune bs) \<le> length bs"
  by (cases bs) (auto simp: decode_rune_def Let_def lead_size_def Suc_le_eq split: prod.splits if_splits)

section \<open>Character classes\<close>

record unicode =
  u_letter :: "nat \<Rightarrow> bool"
  u_digit :: "nat \<Rightarrow> bool"

text \<open>\<open>unicode.IsLetter\<close> and \<open>unicode.IsDigit\<close>; up to \<open>0xFF\<close> from the Latin-1 property table.\<close>

definition is_letter :: "unicode \<Rightarrow> nat \<Rightarrow> bool" where
  "is_letter u r =
     (if r \<le> 255
      then (65 \<le> r \<and> r \<le> 90) \<or> (97 \<le> r \<and> r \<le> 122) \<or> r = 170 \<or> r = 181 \<or> r = 186
           \<or> (192 \<le> r \<and> r \<le> 214) \<or> (216 \<le> r \<and> r \<le> 246) \<or> 248 \<le> r
      else u_letter u r)"

definition is_digit :: "unicode \<Rightarrow> nat \<Rightarrow> bool" where
  "is_digit u r = (if r \<le> 255 then 48 \<le> r \<and> r \<le> 57 else u_digit u r)"

text \<open>Tables that classify no rune beyond Latin-1, for closed examples.\<close>

definition latin_unicode :: unicode where
  "latin_unicode = \<lparr>u_letter = (\<lambda>_. False), u_digit = (\<lambda>_. False)\<rparr>"

section \<open>strings.TrimSpace and strings.EqualFold\<close>

text \<open>The encodings of the runes \<open>unicode.IsSpace\<close> accepts.\<close>

definition space_runes :: "nat list" where
  "space_runes = [9, 10, 11, 12, 13, 32, 133, 160, 5760] @ [8192..<8203] @
     [8232, 8233, 8239, 8287, 12288]"

definition space_encodings :: "string list" where
  "space_encodings = map encode_rune space_runes"

definition strip_prefix :: "string \<Rightarrow> string \<Rightarrow> string option" where
  "strip_prefix e s = (if take (length e) s = e then Some (drop (length e) s) else None)"

fun first_strip :: "string list \<Rightarrow> string \<Rightarrow> string option" where
  "first_strip [] s = None"
| "first_strip (e # es) s =
     (case strip_prefix e s of None \<Rightarrow> first_strip es s | Some t \<Rightarrow> Some t)"

fun trim_left :: "nat \<Rightarrow> string list \<Rightarrow> string \<Rightarrow> string" where
  "trim_left 0 es s = s"
| "trim_left (Suc n) es s =
     (case first_strip es s of None \<Rightarrow> s | Some t \<Rightarrow> trim_left n es t)"

definition trim_space :: "string \<Rightarrow> string" where
  "trim_space s =
     (let l = trim_left (length s) space_encodings s
      in rev (trim_left (length l) (map rev space_encodings) (rev l)))"

definition is_ascii :: "string \<Rightarrow> bool" where
  "is_ascii s = (\<forall>c \<in> set s. byte c < 128)"

definition ascii_lower :: "char \<Rightarrow> char" where
  "ascii_lower c = (if 65 \<le> byte c \<and> byte c \<le> 90 then char_of (byte c + 32) else c)"

text \<open>
  On ASCII strings \<open>strings.EqualFold\<close> ignores case; beyond ASCII it consults the Unicode
  case-folding orbits, which are the parameter \<open>fold_eq\<close>.
\<close>

definition equal_fold :: "(string \<Rightarrow> string \<Rightarrow> bool) \<Rightarrow> string \<Rightarrow> string \<Rightarrow> bool" where
  "equal_fold fold_eq s t =
     (if is_ascii s \<and> is_ascii t then map ascii_lower s = map ascii_lower t
      else fold_eq s t)"

end
