(* ===== verification/Dsl_Lexer.thy ===== *)
theory Dsl_Lexer
  imports Dsl_Token Go_Strings
begin

text \<open>
  Package \<open>lexer\<close> (\<open>pkg/dsl/lexer/lexer.go\<close>). The scanner's state is the record below; every
  method of \<open>Lexer\<close> is a function that returns the next state, with the token it read where it
  reads one. The loops are total functions: each turn consumes a byte of the source
  (\<open>lex_measure\<close>), so the tokeniser returns for every input. The argument \<open>u\<close> holds the Unicode
  tables beyond Latin-1.
\<close>

record lexer =
  src :: string
  lx_pos :: nat
  lx_line :: nat
  lx_col :: nat
  lx_ch :: nat
  lx_width :: nat

section \<open>Moving through the source\<close>

definition advance :: "lexer \<Rightarrow> lexer" where
  "advance l =
     (if length (src l) \<le> lx_pos l then l\<lparr>lx_ch := 0, lx_width := 0\<rparr>
      else let (r, w) = decode_rune (drop (lx_pos l) (src l));
               l = (if lx_ch l = 10 then l\<lparr>lx_line := lx_line l + 1, lx_col := 0\<rparr> else l)
           in l\<lparr>lx_ch := r, lx_width := w, lx_pos := lx_pos l + w, lx_col := lx_col l + 1\<rparr>)"

definition new_lexer :: "string \<Rightarrow> lexer" where
  "new_lexer s =
     advance \<lparr>src = s, lx_pos = 0, lx_line = 1, lx_col = 0, lx_ch = 0, lx_width = 0\<rparr>"

definition lex_peek :: "lexer \<Rightarrow> nat" where
  "lex_peek l =
     (if length (src l) \<le> lx_pos l then 0 else fst (decode_rune (drop (lx_pos l) (src l))))"

text \<open>Bytes not yet read, and the current character when there is one.\<close>

definition lex_measure :: "lexer \<Rightarrow> nat" where
  "lex_measure l = length (src l) - lx_pos l + (if lx_ch l \<noteq> 0 then 1 else 0)"

lemma advance_measure_le: "lex_measure (advance l) \<le> lex_measure l"
proof (cases "length (src l) \<le> lx_pos l")
  case False
  then have "1 \<le> snd (decode_rune (drop (lx_pos l) (src l)))"
    using decode_rune_width [of "drop (lx_pos l) (src l)"] by simp
  then show ?thesis using False
    by (auto simp: advance_def lex_measure_def Let_def split: prod.splits)
qed (simp add: advance_def lex_measure_def)

lemma advance_measure: "lx_ch l \<noteq> 0 \<Longrightarrow> lex_measure (advance l) < lex_measure l"
proof (cases "length (src l) \<le> lx_pos l")
  case False
  assume "lx_ch l \<noteq> 0"
  moreover have "1 \<le> snd (decode_rune (drop (lx_pos l) (src l)))"
    using False decode_rune_width [of "drop (lx_pos l) (src l)"] by simp
  ultimately show ?thesis using False
    by (auto simp: advance_def lex_measure_def Let_def split: prod.splits)
qed (simp add: advance_def lex_measure_def)

lemma advance2_measure: "lx_ch l \<noteq> 0 \<Longrightarrow> lex_measure (advance (advance l)) < lex_measure l"
  using advance_measure advance_measure_le le_less_trans by blast

section \<open>Whitespace and comments\<close>

function skip_blanks :: "lexer \<Rightarrow> lexer" where
  "skip_blanks l =
     (if lx_ch l = 32 \<or> lx_ch l = 9 \<or> lx_ch l = 13 then skip_blanks (advance l) else l)"
  by pat_completeness auto
termination
  by (relation "measure lex_measure") (auto intro!: advance_measure)

function skip_line_comment :: "lexer \<Rightarrow> lexer" where
  "skip_line_comment l =
     (if lx_ch l \<noteq> 10 \<and> lx_ch l \<noteq> 0 then skip_line_comment (advance l) else l)"
  by pat_completeness auto
termination
  by (relation "measure lex_measure") (auto intro!: advance_measure)

function skip_block_comment :: "lexer \<Rightarrow> lexer" where
  "skip_block_comment l =
     (if lx_ch l = 0 then l
      else if lx_ch l = 42 \<and> lex_peek l = 47 then advance (advance l)
      else skip_block_comment (advance l))"
  by pat_completeness auto
termination
  by (relation "measure lex_measure") (auto intro!: advance_measure)

declare skip_blanks.simps [simp del] skip_line_comment.simps [simp del]
  skip_block_comment.simps [simp del]

lemma skip_blanks_le: "lex_measure (skip_blanks l) \<le> lex_measure l"
proof (induction l rule: skip_blanks.induct)
  case (1 l)
  then show ?case
    using advance_measure_le [of l] by (subst skip_blanks.simps) auto
qed

lemma skip_line_comment_le: "lex_measure (skip_line_comment l) \<le> lex_measure l"
proof (induction l rule: skip_line_comment.induct)
  case (1 l)
  then show ?case
    using advance_measure_le [of l] by (subst skip_line_comment.simps) auto
qed

lemma skip_block_comment_le: "lex_measure (skip_block_comment l) \<le> lex_measure l"
proof (induction l rule: skip_block_comment.induct)
  case (1 l)
  then show ?case
    using advance_measure_le [of l] advance_measure_le [of "advance l"]
    by (subst skip_block_comment.simps) auto
qed

text \<open>
  One turn of the outer loop of \<open>skipWhitespaceAndComments\<close>: the state after the blanks, and,
  when a continuation or a comment starts there, the state after it.
\<close>

definition skip_turn :: "lexer \<Rightarrow> lexer option" where
  "skip_turn l =
     (if lx_ch l = 92 \<and> lex_peek l = 10 then Some (advance (advance l))
      else if lx_ch l = 47 \<and> lex_peek l = 47 then Some (skip_line_comment l)
      else if lx_ch l = 47 \<and> lex_peek l = 42 then Some (skip_block_comment (advance (advance l)))
      else None)"

lemma skip_turn_measure: "skip_turn l = Some l' \<Longrightarrow> lex_measure l' < lex_measure l"
proof -
  assume "skip_turn l = Some l'"
  then consider (cont) "lx_ch l = 92" "l' = advance (advance l)"
    | (line) "lx_ch l = 47" "l' = skip_line_comment l"
    | (block) "lx_ch l = 47" "l' = skip_block_comment (advance (advance l))"
    by (auto simp: skip_turn_def split: if_splits)
  then show ?thesis
  proof cases
    case cont
    then show ?thesis by (auto intro: advance2_measure)
  next
    case line
    then have "l' = skip_line_comment (advance l)" by (subst (asm) skip_line_comment.simps) simp
    then show ?thesis
      using skip_line_comment_le [of "advance l"] advance_measure [of l] line by simp
  next
    case block
    then show ?thesis
      using skip_block_comment_le [of "advance (advance l)"] advance2_measure [of l] by simp
  qed
qed

function skip_ws :: "lexer \<Rightarrow> lexer" where
  "skip_ws l =
     (case skip_turn (skip_blanks l) of
        Some l' \<Rightarrow> skip_ws l'
      | None \<Rightarrow> skip_blanks l)"
  by pat_completeness auto
termination
proof (relation "measure lex_measure")
  fix l l'
  assume "skip_turn (skip_blanks l) = Some l'"
  then show "(l', l) \<in> measure lex_measure"
    using skip_turn_measure [of "skip_blanks l" l'] skip_blanks_le [of l] by simp
qed simp

declare skip_ws.simps [simp del]

lemma skip_ws_le: "lex_measure (skip_ws l) \<le> lex_measure l"
proof (induction l rule: skip_ws.induct)
  case (1 l)
  then show ?case
    using skip_blanks_le [of l] skip_turn_measure [of "skip_blanks l"]
    by (subst skip_ws.simps) (fastforce split: option.splits)
qed

section \<open>Strings, numbers, identifiers\<close>

definition string_escape :: "nat \<Rightarrow> string" where
  "string_escape c =
     (if c = byte (CHR ''n'') then [CHR 0x0A]
      else if c = byte (CHR ''t'') then [CHR 0x09]
      else if c = 92 then [CHR 0x5C]
      else if c = 39 then [CHR 0x27]
      else if c = 34 then [CHR 0x22]
      else CHR 0x5C # encode_rune c)"

text \<open>The loop of \<open>readString\<close>: whether the closing quote was found, the text, the state.\<close>

function read_string_loop :: "nat \<Rightarrow> lexer \<Rightarrow> string \<Rightarrow> bool \<times> string \<times> lexer" where
  "read_string_loop q l b =
     (if lx_ch l = q then (True, b, advance l)
      else if lx_ch l = 0 \<or> lx_ch l = 10 then (False, b, l)
      else if lx_ch l = 92
      then read_string_loop q (advance (advance l)) (b @ string_escape (lx_ch (advance l)))
      else read_string_loop q (advance l) (b @ encode_rune (lx_ch l)))"
  by pat_completeness auto
termination
  by (relation "measure (\<lambda>(q, l, b). lex_measure l)") (auto intro!: advance_measure advance2_measure)

declare read_string_loop.simps [simp del]

definition read_string :: "lexer \<Rightarrow> nat \<Rightarrow> nat \<Rightarrow> token \<times> lexer" where
  "read_string l line col =
     (let (closed, b, l') = read_string_loop (lx_ch l) (advance l) []
      in (mk_token (if closed then TkString else TkIllegal) b line col, l'))"

definition is_dec :: "nat \<Rightarrow> bool" where
  "is_dec c = (48 \<le> c \<and> c \<le> 57)"

function read_digits :: "lexer \<Rightarrow> string \<Rightarrow> string \<times> lexer" where
  "read_digits l b =
     (if is_dec (lx_ch l) then read_digits (advance l) (b @ encode_rune (lx_ch l)) else (b, l))"
  by pat_completeness auto
termination
  by (relation "measure (\<lambda>(l, b). lex_measure l)") (auto intro!: advance_measure simp: is_dec_def)

declare read_digits.simps [simp del]

definition read_fraction :: "string \<times> lexer \<Rightarrow> bool \<times> string \<times> lexer" where
  "read_fraction = (\<lambda>(b, l).
     if lx_ch l = byte (CHR ''.'') \<and> is_dec (lex_peek l)
     then (True, read_digits (advance l) (b @ encode_rune (lx_ch l)))
     else (False, b, l))"

definition read_exponent :: "string \<times> lexer \<Rightarrow> bool \<times> string \<times> lexer" where
  "read_exponent = (\<lambda>(b, l).
     if lx_ch l = byte (CHR ''e'') \<or> lx_ch l = byte (CHR ''E'')
     then let b = b @ encode_rune (lx_ch l); l = advance l;
              (b, l) = (if lx_ch l = byte (CHR ''+'') \<or> lx_ch l = byte (CHR ''-'')
                        then (b @ encode_rune (lx_ch l), advance l) else (b, l))
          in (True, read_digits l b)
     else (False, b, l))"

definition read_number :: "lexer \<Rightarrow> nat \<Rightarrow> nat \<Rightarrow> token \<times> lexer" where
  "read_number l line col =
     (let (f1, bl) = read_fraction (read_digits l []);
          (f2, b, l) = read_exponent bl;
          is_float = f1 \<or> f2;
          (f3, b, l) = (if \<not> is_float \<and> lx_ch l = byte (CHR ''.'') \<and> \<not> is_dec (lex_peek l)
                        then (True, b @ encode_rune (lx_ch l), advance l)
                        else (False, b, l))
      in (mk_token (if is_float \<or> f3 then TkFloat else TkInt) b line col, l))"

definition is_ident_start :: "unicode \<Rightarrow> nat \<Rightarrow> bool" where
  "is_ident_start u c = (c = byte (CHR ''_'') \<or> is_letter u c)"

definition is_ident_part :: "unicode \<Rightarrow> nat \<Rightarrow> bool" where
  "is_ident_part u c = (c = byte (CHR ''_'') \<or> is_letter u c \<or> is_digit u c)"

lemma ident_part_nonzero: "is_ident_part u c \<Longrightarrow> c \<noteq> 0"
  by (auto simp: is_ident_part_def is_letter_def is_digit_def split: if_splits)

lemma ident_start_part: "is_ident_start u c \<Longrightarrow> is_ident_part u c"
  by (auto simp: is_ident_part_def is_ident_start_def)

function read_ident_loop :: "unicode \<Rightarrow> lexer \<Rightarrow> string \<Rightarrow> string \<times> lexer" where
  "read_ident_loop u l b =
     (if is_ident_part u (lx_ch l)
      then read_ident_loop u (advance l) (b @ encode_rune (lx_ch l)) else (b, l))"
  by pat_completeness auto
termination
  by (relation "measure (\<lambda>(u, l, b). lex_measure l)")
    (auto intro!: advance_measure dest: ident_part_nonzero)

declare read_ident_loop.simps [simp del]

definition read_ident :: "unicode \<Rightarrow> lexer \<Rightarrow> nat \<Rightarrow> nat \<Rightarrow> token \<times> lexer" where
  "read_ident u l line col =
     (let (lit, l) = read_ident_loop u l []
      in (mk_token (lookup_ident lit) lit line col, l))"

section \<open>Operators and delimiters\<close>

text \<open>The two switches of the scanner, on the current and the next rune.\<close>

definition two_char :: "nat \<Rightarrow> nat \<Rightarrow> (token_type \<times> string) option" where
  "two_char c p =
     (if c = byte (CHR ''='') then
        (if p = byte (CHR ''='') then Some (TkEqEq, ''=='')
         else if p = byte (CHR ''>'') then Some (TkArrow, ''=>'') else None)
      else if c = byte (CHR ''!'') then
        (if p = byte (CHR ''='') then Some (TkBangEq, ''!='') else None)
      else if c = byte (CHR ''<'') then
        (if p = byte (CHR ''='') then Some (TkLtEq, ''<='') else None)
      else if c = byte (CHR ''>'') then
        (if p = byte (CHR ''='') then Some (TkGtEq, ''>='') else None)
      else if c = byte (CHR '':'') then
        (if p = byte (CHR ''='') then Some (TkColonEq, '':='') else None)
      else if c = byte (CHR ''+'') then
        (if p = byte (CHR ''+'') then Some (TkPlusPlus, ''++'')
         else if p = byte (CHR ''='') then Some (TkPlusEq, ''+='') else None)
      else if c = byte (CHR ''-'') then
        (if p = byte (CHR ''-'') then Some (TkMinusMinus, ''--'')
         else if p = byte (CHR ''='') then Some (TkMinusEq, ''-='') else None)
      else if c = byte (CHR ''*'') then
        (if p = byte (CHR ''='') then Some (TkStarEq, ''*='') else None)
      else if c = byte (CHR ''/'') then
        (if p = byte (CHR ''='') then Some (TkSlashEq, ''/='') else None)
      else if c = byte (CHR ''%'') then
        (if p = byte (CHR ''='') then Some (TkPercentEq, ''%='') else None)
      else None)"

definition single_char :: "nat \<Rightarrow> token_type \<times> string" where
  "single_char c =
     (if c = byte (CHR ''+'') then (TkPlus, ''+'')
      else if c = byte (CHR ''-'') then (TkMinus, ''-'')
      else if c = byte (CHR ''*'') then (TkStar, ''*'')
      else if c = byte (CHR ''/'') then (TkSlash, ''/'')
      else if c = byte (CHR ''%'') then (TkPercent, ''%'')
      else if c = byte (CHR ''='') then (TkEq, ''='')
      else if c = byte (CHR ''<'') then (TkLt, ''<'')
      else if c = byte (CHR ''>'') then (TkGt, ''>'')
      else if c = byte (CHR ''('') then (TkLParen, ''('')
      else if c = byte (CHR '')'') then (TkRParen, '')'')
      else if c = byte (CHR ''['') then (TkLBracket, ''['')
      else if c = byte (CHR '']'') then (TkRBracket, '']'')
      else if c = byte (CHR ''{'') then (TkLBrace, ''{'')
      else if c = byte (CHR ''}'') then (TkRBrace, ''}'')
      else if c = byte (CHR '','') then (TkComma, '','')
      else if c = byte (CHR ''.'') then (TkDot, ''.'')
      else if c = byte (CHR ''?'') then (TkQuestion, ''?'')
      else if c = byte (CHR '':'') then (TkColon, '':'')
      else if c = byte (CHR ''!'') then (TkNot, ''!'')
      else (TkIllegal, encode_rune c))"

definition try_two_char :: "lexer \<Rightarrow> nat \<Rightarrow> nat \<Rightarrow> (token \<times> lexer) option" where
  "try_two_char l line col =
     map_option (\<lambda>(tt, lit). (mk_token tt lit line col, advance (advance l)))
       (two_char (lx_ch l) (lex_peek l))"

definition read_single_char :: "lexer \<Rightarrow> nat \<Rightarrow> nat \<Rightarrow> token \<times> lexer" where
  "read_single_char l line col =
     (let (tt, lit) = single_char (lx_ch l) in (mk_token tt lit line col, advance l))"

section \<open>The next token, and all tokens\<close>

definition next_token :: "unicode \<Rightarrow> lexer \<Rightarrow> token \<times> lexer" where
  "next_token u l0 =
     (let l = skip_ws l0; line = lx_line l; col = lx_col l
      in if lx_ch l = 0 then (mk_token TkEOF [] line col, l)
         else if lx_ch l = 10 then (mk_token TkNewline [CHR 0x5C, CHR ''n''] line col, advance l)
         else if lx_ch l = 34 \<or> lx_ch l = 39 then read_string l line col
         else if is_dec (lx_ch l) then read_number l line col
         else if is_ident_start u (lx_ch l) then read_ident u l line col
         else case try_two_char l line col of
                Some r \<Rightarrow> r
              | None \<Rightarrow> read_single_char l line col)"

subsection \<open>Every reader consumes input\<close>

lemma read_string_loop_le: "lex_measure (snd (snd (read_string_loop q l b))) \<le> lex_measure l"
proof (induction q l b rule: read_string_loop.induct)
  case (1 q l b)
  then show ?case
    using advance_measure_le [of l] advance_measure_le [of "advance l"]
    by (subst read_string_loop.simps) auto
qed

lemma read_digits_le: "lex_measure (snd (read_digits l b)) \<le> lex_measure l"
proof (induction l b rule: read_digits.induct)
  case (1 l b)
  then show ?case using advance_measure_le [of l] by (subst read_digits.simps) auto
qed

lemma read_ident_loop_le: "lex_measure (snd (read_ident_loop u l b)) \<le> lex_measure l"
proof (induction u l b rule: read_ident_loop.induct)
  case (1 u l b)
  then show ?case using advance_measure_le [of l] by (subst read_ident_loop.simps) auto
qed

lemma read_fraction_le: "lex_measure (snd (snd (read_fraction bl))) \<le> lex_measure (snd bl)"
  using advance_measure_le [of "snd bl"]
    read_digits_le [of "advance (snd bl)" "fst bl @ encode_rune (lx_ch (snd bl))"]
  by (cases bl) (auto simp: read_fraction_def)

lemma read_exponent_le: "lex_measure (snd (snd (read_exponent bl))) \<le> lex_measure (snd bl)"
proof (cases bl)
  case (Pair b l)
  have "lex_measure (snd (read_digits (advance l) b')) \<le> lex_measure l"
    and "lex_measure (snd (read_digits (advance (advance l)) b')) \<le> lex_measure l" for b'
    using advance_measure_le [of l] advance_measure_le [of "advance l"]
      read_digits_le [of "advance l" b'] read_digits_le [of "advance (advance l)" b']
    by simp_all
  then show ?thesis by (simp add: Pair read_exponent_def Let_def)
qed

lemma read_string_measure:
  "lx_ch l \<noteq> 0 \<Longrightarrow> lex_measure (snd (read_string l line col)) < lex_measure l"
  using read_string_loop_le [of "lx_ch l" "advance l" "[]"] advance_measure [of l]
  by (simp add: read_string_def case_prod_beta)

lemma read_number_measure:
  assumes "is_dec (lx_ch l)"
  shows "lex_measure (snd (read_number l line col)) < lex_measure l"
proof -
  have nz: "lx_ch l \<noteq> 0" using assms by (auto simp: is_dec_def)
  obtain b1 l1 where r1: "read_digits l [] = (b1, l1)" by fastforce
  obtain f2 b2 l2 where r2: "read_fraction (b1, l1) = (f2, b2, l2)" by (cases "read_fraction (b1, l1)")
  obtain f3 b3 l3 where r3: "read_exponent (b2, l2) = (f3, b3, l3)" by (cases "read_exponent (b2, l2)")
  have "read_digits l [] = read_digits (advance l) (encode_rune (lx_ch l))"
    using assms by (subst read_digits.simps) simp
  then have "lex_measure l1 < lex_measure l"
    using r1 read_digits_le [of "advance l" "encode_rune (lx_ch l)"] advance_measure [OF nz]
    by (simp add: prod_eq_iff)
  moreover have "lex_measure l2 \<le> lex_measure l1" using read_fraction_le [of "(b1, l1)"] r2 by simp
  moreover have "lex_measure l3 \<le> lex_measure l2" using read_exponent_le [of "(b2, l2)"] r3 by simp
  ultimately show ?thesis
    using advance_measure_le [of l3] by (simp add: read_number_def r1 r2 r3 Let_def)
qed

lemma read_ident_measure:
  assumes "is_ident_part u (lx_ch l)"
  shows "lex_measure (snd (read_ident u l line col)) < lex_measure l"
proof -
  have "read_ident_loop u l [] = read_ident_loop u (advance l) (encode_rune (lx_ch l))"
    using assms by (subst read_ident_loop.simps) simp
  then show ?thesis
    using read_ident_loop_le [of u "advance l" "encode_rune (lx_ch l)"]
      advance_measure [OF ident_part_nonzero [OF assms]]
    by (simp add: read_ident_def case_prod_beta)
qed

lemma next_token_measure:
  assumes "tok_type (fst (next_token u l)) \<noteq> TkEOF"
  shows "lex_measure (snd (next_token u l)) < lex_measure l"
proof -
  let ?l = "skip_ws l"
  have nz: "lx_ch ?l \<noteq> 0"
    using assms by (cases "lx_ch ?l = 0") (simp_all add: next_token_def Let_def)
  have "lex_measure (snd (next_token u l)) < lex_measure ?l"
    using nz read_string_measure [OF nz] read_number_measure [of ?l]
      read_ident_measure [OF ident_start_part, of u ?l] advance_measure [OF nz] advance2_measure [OF nz]
    by (auto simp: next_token_def Let_def try_two_char_def read_single_char_def
        split: option.split prod.split)
  then show ?thesis using skip_ws_le [of l] by simp
qed

text \<open>
  \<open>Tokenize\<close>: the tokens in order, and the offending token when the scan stops at an illegal
  one (the error of the second result, whose message the token determines).
\<close>

function tokenize_loop :: "unicode \<Rightarrow> lexer \<Rightarrow> token list \<Rightarrow> token list \<times> token option" where
  "tokenize_loop u l acc =
     (let (tok, l') = next_token u l; acc = acc @ [tok]
      in if tok_type tok = TkEOF then (acc, None)
         else if tok_type tok = TkIllegal then (acc, Some tok)
         else tokenize_loop u l' acc)"
  by pat_completeness auto
termination
proof (relation "measure (\<lambda>(u, l, acc). lex_measure l)")
  fix u l acc x tok l' acc'
  assume "x = next_token u l" "(tok, l') = x" "tok_type tok \<noteq> TkEOF"
  then show "((u, l', acc'), u, l, acc) \<in> measure (\<lambda>(u, l, acc). lex_measure l)"
    using next_token_measure [of u l] by (metis case_prod_conv fst_conv in_measure snd_conv)
qed simp

declare tokenize_loop.simps [simp del]

definition tokenize :: "unicode \<Rightarrow> string \<Rightarrow> token list \<times> token option" where
  "tokenize u s = tokenize_loop u (new_lexer s) []"

end
