(* ===== verification/Go_Float64.thy ===== *)
theory Go_Float64
  imports Go_Prelude
begin

text \<open>
  Go's \<open>float64\<close>: IEEE 754 binary64 with rounding to nearest, ties to even. A value is
  NaN, an infinity, a signed zero or a non-zero rational. Every operation computes the exact
  rational result and rounds it once, as the hardware does. The boolean of \<open>FInf\<close> and
  \<open>FZero\<close> is the sign bit. The payload and the sign of NaN are not represented: no
  operation the program uses observes them.
\<close>

datatype f64 = FNaN | FInf bool | FZero bool | FFin rat

section \<open>Rounding\<close>

text \<open>The number of binary digits of a positive integer.\<close>

function nbits :: "int \<Rightarrow> int" where
  "nbits n = (if n \<le> 0 then 0 else 1 + nbits (n div 2))"
  by pat_completeness auto
termination
  by (relation "measure nat") auto

declare nbits.simps [simp del]

text \<open>\<open>rat_exp q\<close> is the binary exponent of \<open>q\<close>: \<open>2 ^ rat_exp q \<le> \<bar>q\<bar> < 2 ^ (rat_exp q + 1)\<close>.\<close>

definition rat_exp :: "rat \<Rightarrow> int" where
  "rat_exp q =
     (let (n, d) = quotient_of \<bar>q\<bar>;
          k = nbits n - nbits d
      in if 2 powi k \<le> \<bar>q\<bar> then k else k - 1)"

text \<open>Round half to even.\<close>

definition rhe :: "rat \<Rightarrow> int" where
  "rhe q =
     (let f = \<lfloor>q\<rfloor>; r = q - of_int f
      in if r < 1 / 2 then f
         else if 1 / 2 < r then f + 1
         else if even f then f else f + 1)"

text \<open>The exponent of the unit in the last place, never below that of the subnormals.\<close>

definition ulp_exp :: "rat \<Rightarrow> int" where
  "ulp_exp q = max (rat_exp q - 52) (- 1074)"

definition rnd_mag :: "rat \<Rightarrow> rat" where
  "rnd_mag a = of_int (rhe (a * 2 powi (- ulp_exp a))) * 2 powi (ulp_exp a)"

definition rnd :: "rat \<Rightarrow> f64" where
  "rnd q =
     (let v = rnd_mag \<bar>q\<bar>
      in if v = 0 then FZero (q < 0)
         else if 2 ^ 1024 \<le> v then FInf (q < 0)
         else FFin (if q < 0 then - v else v))"

text \<open>A value is well formed when it is one of the values rounding can produce.\<close>

definition wf_f64 :: "f64 \<Rightarrow> bool" where
  "wf_f64 x = (case x of FFin q \<Rightarrow> q \<noteq> 0 \<and> rnd q = FFin q | _ \<Rightarrow> True)"

section \<open>Classification, comparison and arithmetic\<close>

definition is_nan :: "f64 \<Rightarrow> bool" where
  "is_nan x = (x = FNaN)"

definition is_inf :: "f64 \<Rightarrow> bool" where
  "is_inf x = (case x of FInf _ \<Rightarrow> True | _ \<Rightarrow> False)"

definition fval :: "f64 \<Rightarrow> rat" where
  "fval x = (case x of FFin q \<Rightarrow> q | _ \<Rightarrow> 0)"

definition fneg_sign :: "f64 \<Rightarrow> bool" where
  "fneg_sign x = (case x of FInf s \<Rightarrow> s | FZero s \<Rightarrow> s | FFin q \<Rightarrow> q < 0 | FNaN \<Rightarrow> False)"

instantiation f64 :: ord
begin

fun less_f64 :: "f64 \<Rightarrow> f64 \<Rightarrow> bool" where
  "less_f64 FNaN _ = False"
| "less_f64 _ FNaN = False"
| "less_f64 (FInf s) (FInf t) = (s \<and> \<not> t)"
| "less_f64 (FInf s) _ = s"
| "less_f64 _ (FInf t) = (\<not> t)"
| "less_f64 x y = (fval x < fval y)"

fun less_eq_f64 :: "f64 \<Rightarrow> f64 \<Rightarrow> bool" where
  "less_eq_f64 FNaN _ = False"
| "less_eq_f64 _ FNaN = False"
| "less_eq_f64 (FInf s) (FInf t) = (s \<or> \<not> t)"
| "less_eq_f64 (FInf s) _ = s"
| "less_eq_f64 _ (FInf t) = (\<not> t)"
| "less_eq_f64 x y = (fval x \<le> fval y)"

instance ..

end

text \<open>Go's \<open>==\<close> on floats: NaN equals nothing and the two zeros are equal.\<close>

definition feq :: "f64 \<Rightarrow> f64 \<Rightarrow> bool" where
  "feq x y = (x \<le> y \<and> y \<le> x)"

instantiation f64 :: "{zero, one, uminus, plus, minus, times, inverse}"
begin

definition zero_f64 :: f64 where "0 = FZero False"

definition one_f64 :: f64 where "1 = FFin 1"

fun uminus_f64 :: "f64 \<Rightarrow> f64" where
  "- FNaN = FNaN"
| "- FInf s = FInf (\<not> s)"
| "- FZero s = FZero (\<not> s)"
| "- FFin q = FFin (- q)"

text \<open>An exact zero sum of non-zero operands is \<open>+0\<close> in this rounding mode.\<close>

definition radd :: "rat \<Rightarrow> rat \<Rightarrow> f64" where
  "radd p q = (if p + q = 0 then FZero False else rnd (p + q))"

fun plus_f64 :: "f64 \<Rightarrow> f64 \<Rightarrow> f64" where
  "FNaN + y = FNaN"
| "x + FNaN = FNaN"
| "FInf s + FInf t = (if s = t then FInf s else FNaN)"
| "FInf s + y = FInf s"
| "x + FInf t = FInf t"
| "FZero s + FZero t = FZero (s \<and> t)"
| "x + y = radd (fval x) (fval y)"

definition minus_f64 :: "f64 \<Rightarrow> f64 \<Rightarrow> f64" where
  "x - y = x + (- (y :: f64))"

fun times_f64 :: "f64 \<Rightarrow> f64 \<Rightarrow> f64" where
  "FNaN * y = FNaN"
| "x * FNaN = FNaN"
| "FInf s * FZero t = FNaN"
| "FZero s * FInf t = FNaN"
| "FInf s * y = FInf (s \<noteq> fneg_sign y)"
| "x * FInf t = FInf (fneg_sign x \<noteq> t)"
| "FZero s * y = FZero (s \<noteq> fneg_sign y)"
| "x * FZero t = FZero (fneg_sign x \<noteq> t)"
| "FFin p * FFin q = rnd (p * q)"

fun divide_f64 :: "f64 \<Rightarrow> f64 \<Rightarrow> f64" where
  "FNaN div y = FNaN"
| "x div FNaN = FNaN"
| "FInf s div FInf t = FNaN"
| "FZero s div FZero t = FNaN"
| "FInf s div y = FInf (s \<noteq> fneg_sign y)"
| "x div FInf t = FZero (fneg_sign x \<noteq> t)"
| "FZero s div y = FZero (s \<noteq> fneg_sign y)"
| "x div FZero t = FInf (fneg_sign x \<noteq> t)"
| "FFin p div FFin q = rnd (p / q)"

definition inverse_f64 :: "f64 \<Rightarrow> f64" where
  "inverse_f64 x = FFin 1 div x"

instance ..

end

text \<open>Conversion of an integer, and the constants the code writes.\<close>

definition f64_of_int :: "int \<Rightarrow> f64" where
  "f64_of_int n = (if n = 0 then FZero False else rnd (of_int n))"

abbreviation f64_half :: f64 where "f64_half \<equiv> FFin (1 / 2)"

text \<open>The builtin functions \<open>min\<close> and \<open>max\<close> of the language, and \<open>math.Abs\<close>.\<close>

definition go_min :: "f64 \<Rightarrow> f64 \<Rightarrow> f64" where
  "go_min x y =
     (if is_nan x \<or> is_nan y then FNaN
      else if x < y then x else if y < x then y
      else if fneg_sign x then x else y)"

definition go_max :: "f64 \<Rightarrow> f64 \<Rightarrow> f64" where
  "go_max x y =
     (if is_nan x \<or> is_nan y then FNaN
      else if x < y then y else if y < x then x
      else if fneg_sign x then y else x)"

fun math_abs :: "f64 \<Rightarrow> f64" where
  "math_abs FNaN = FNaN"
| "math_abs (FInf s) = FInf False"
| "math_abs (FZero s) = FZero False"
| "math_abs (FFin q) = FFin \<bar>q\<bar>"

section \<open>The rounding exponent\<close>

lemma nbits_pos: "0 < n \<Longrightarrow> 1 \<le> nbits n"
proof (induction n rule: nbits.induct)
  case (1 n)
  then have "0 \<le> nbits (n div 2)"
    by (cases "0 < n div 2") (auto simp: nbits.simps [of "n div 2"] nbits.simps [of 0])
  with 1 show ?case by (simp add: nbits.simps [of n])
qed

lemma nbits_bounds:
  "0 < n \<Longrightarrow> (2 :: rat) powi (nbits n - 1) \<le> of_int n \<and> of_int n < (2 :: rat) powi nbits n"
proof (induction n rule: nbits.induct)
  case (1 n)
  show ?case
  proof (cases "n = 1")
    case True
    then show ?thesis by (simp add: nbits.simps [of 1] nbits.simps [of 0])
  next
    case False
    with "1.prems" have h: "0 < n div 2" by simp
    define m where "m = n div 2"
    have m: "2 * m \<le> n" "n < 2 * m + 2" unfolding m_def by simp_all
    have e: "nbits n = nbits m + 1" using "1.prems" by (simp add: nbits.simps [of n] m_def)
    have ih: "(2 :: rat) powi (nbits m - 1) \<le> of_int m" "of_int m < (2 :: rat) powi nbits m"
      using 1 h by (simp_all add: m_def)
    have p: "(2 :: rat) powi nbits m = 2 * 2 powi (nbits m - 1)"
      by (simp add: power_int_diff)
    have b: "1 \<le> nbits m" using nbits_pos h m_def by simp
    have "(2 :: rat) powi nbits m = of_int (2 ^ nat (nbits m))"
      using b by (simp add: power_int_def)
    then have "m < 2 ^ nat (nbits m)" using ih(2) by (simp flip: of_int_power)
    then have "n < 2 * 2 ^ nat (nbits m)" using m by linarith
    then have "of_int n < (2 :: rat) * 2 powi nbits m"
      using b by (simp add: power_int_def flip: of_int_less_iff[where 'a = rat])
    moreover have "2 powi nbits m \<le> (of_int n :: rat)"
    proof -
      have "2 powi nbits m \<le> 2 * (of_int m :: rat)" using ih(1) p by simp
      also have "\<dots> = of_int (2 * m)" by simp
      also have "\<dots> \<le> of_int n" using m(1) by (simp only: of_int_le_iff)
      finally show ?thesis .
    qed
    ultimately show ?thesis by (simp add: e power_int_add)
  qed
qed

lemma rat_exp_bounds:
  assumes "q \<noteq> 0"
  shows "2 powi rat_exp q \<le> \<bar>q\<bar>" and "\<bar>q\<bar> < 2 powi (rat_exp q + 1)"
proof -
  obtain n d where nd: "quotient_of \<bar>q\<bar> = (n, d)" by fastforce
  then have q: "\<bar>q\<bar> = of_int n / of_int d" and d: "0 < d"
    by (auto dest: quotient_of_div quotient_of_denom_pos)
  have n: "0 < n" using assms q d proof -
    have "0 < \<bar>q\<bar>" using assms by simp
    then show ?thesis unfolding q using d by (simp add: zero_less_divide_iff)
  qed
  define k where "k = nbits n - nbits d"
  note bn = nbits_bounds [OF n] and bd = nbits_bounds [OF d]
  have d': "(0 :: rat) < of_int d" using d by simp
  have "\<bar>q\<bar> < 2 powi (k + 1)"
  proof -
    have "2 powi (k + 1) * (of_int d :: rat) \<ge> 2 powi (k + 1) * 2 powi (nbits d - 1)"
      using bd by (intro mult_left_mono) auto
    also have "2 powi (k + 1) * (2 :: rat) powi (nbits d - 1) = 2 powi nbits n"
      by (simp add: k_def flip: power_int_add)
    finally show ?thesis using bn d' by (simp add: q divide_less_eq)
  qed
  moreover have "2 powi (k - 1) \<le> \<bar>q\<bar>"
  proof -
    have "2 powi (k - 1) * (of_int d :: rat) \<le> 2 powi (k - 1) * 2 powi nbits d"
      using bd by (intro mult_left_mono) auto
    also have "2 powi (k - 1) * (2 :: rat) powi nbits d = 2 powi (nbits n - 1)"
      by (simp add: k_def flip: power_int_add)
    finally show ?thesis using bn d' by (simp add: q le_divide_eq)
  qed
  moreover have "rat_exp q = (if 2 powi k \<le> \<bar>q\<bar> then k else k - 1)"
    by (simp add: rat_exp_def nd k_def)
  ultimately show "2 powi rat_exp q \<le> \<bar>q\<bar>" and "\<bar>q\<bar> < 2 powi (rat_exp q + 1)"
    by (auto split: if_splits)
qed

lemma powi2_le_iff: "(2 :: rat) powi i \<le> 2 powi j \<longleftrightarrow> i \<le> j"
  by (metis linorder_not_less nle_le one_less_numeral_iff power_int_increasing power_int_strict_increasing semiring_norm(76) one_le_numeral)

lemma powi2_less_iff: "(2 :: rat) powi i < 2 powi j \<longleftrightarrow> i < j"
  by (meson linorder_not_less powi2_le_iff)

lemma le_rat_exp_iff: "q \<noteq> 0 \<Longrightarrow> k \<le> rat_exp q \<longleftrightarrow> 2 powi k \<le> \<bar>q\<bar>"
proof
  assume "q \<noteq> 0" and "k \<le> rat_exp q"
  then show "2 powi k \<le> \<bar>q\<bar>"
    by (meson rat_exp_bounds(1) order_trans powi2_le_iff)
next
  assume "q \<noteq> 0" and "2 powi k \<le> \<bar>q\<bar>"
  then have "(2 :: rat) powi k < 2 powi (rat_exp q + 1)"
    by (meson rat_exp_bounds(2) order_le_less_trans)
  then show "k \<le> rat_exp q" by (simp add: powi2_less_iff)
qed

lemma rat_exp_mono: "p \<noteq> 0 \<Longrightarrow> \<bar>p\<bar> \<le> \<bar>q\<bar> \<Longrightarrow> rat_exp p \<le> rat_exp q"
  by (metis abs_le_zero_iff le_rat_exp_iff order_trans rat_exp_bounds(1))

section \<open>Executable forms\<close>

text \<open>The same functions over integers, for evaluation.\<close>

function ipow2 :: "int \<Rightarrow> int" where
  "ipow2 k = (if k \<le> 0 then 1 else 2 * ipow2 (k - 1))"
  by pat_completeness auto
termination by (relation "measure nat") auto
declare ipow2.simps [simp del]

lemma ipow2_eq: "0 \<le> k \<Longrightarrow> ipow2 k = 2 ^ nat k"
proof (induction k rule: ipow2.induct)
  case (1 k)
  show ?case
  proof (cases "k \<le> 0")
    case False
    then have "nat k = Suc (nat (k - 1))" by simp
    then show ?thesis using 1 False by (simp add: ipow2.simps [of k])
  next
    case True
    with 1 have "k = 0" by simp
    then show ?thesis by (simp add: ipow2.simps [of 0])
  qed
qed

lemma powi_code: "(2 :: rat) powi k = (if 0 \<le> k then of_int (ipow2 k) else 1 / of_int (ipow2 (- k)))"
  by (simp add: power_int_def ipow2_eq inverse_eq_divide power_one_over)

definition rhe_div :: "int \<Rightarrow> int \<Rightarrow> int" where
  "rhe_div n d = (let f = n div d; r = 2 * (n mod d) in
     if r < d then f else if d < r then f + 1 else if even f then f else f + 1)"

lemma rhe_div_eq: 
  assumes "0 < d" shows "rhe (of_int n / of_int d) = rhe_div n d"
proof -
  have f: "\<lfloor>(of_int n :: rat) / of_int d\<rfloor> = n div d" by (rule floor_divide_of_int_eq)
  have n: "(of_int n :: rat) = of_int d * of_int (n div d) + of_int (n mod d)"
    by (metis mult_div_mod_eq of_int_add of_int_mult)
  have r: "(of_int n :: rat) / of_int d - of_int (n div d) = of_int (n mod d) / of_int d"
    using assms by (subst n) (simp add: add_divide_distrib)
  have c1: "(of_int (n mod d) / of_int d < (1 / 2 :: rat)) = (2 * (n mod d) < d)"
  proof -
    have "(of_int (n mod d) / of_int d < (1 / 2 :: rat)) = (of_int (n mod d) * 2 < (of_int d :: rat))"
      using assms by (simp add: divide_less_eq)
    also have "\<dots> = (of_int (n mod d * 2) < (of_int d :: rat))" by simp
    also have "\<dots> = (n mod d * 2 < d)" by (simp only: of_int_less_iff)
    finally show ?thesis by (simp add: mult.commute)
  qed
  have c2: "((1 / 2 :: rat) < of_int (n mod d) / of_int d) = (d < 2 * (n mod d))"
  proof -
    have "((1 / 2 :: rat) < of_int (n mod d) / of_int d) = ((of_int d :: rat) < of_int (n mod d) * 2)"
      using assms by (simp add: less_divide_eq)
    also have "\<dots> = ((of_int d :: rat) < of_int (n mod d * 2))" by simp
    also have "\<dots> = (d < n mod d * 2)" by (simp only: of_int_less_iff)
    finally show ?thesis by (simp add: mult.commute)
  qed
  show ?thesis unfolding rhe_def rhe_div_def Let_def f r c1 c2 by simp
qed

lemma rat_exp_code [code]:
  "rat_exp q = (let (n, d) = quotient_of \<bar>q\<bar>; k = nbits n - nbits d
     in if (if 0 \<le> k then ipow2 k * d \<le> n else d \<le> n * ipow2 (- k)) then k else k - 1)"
proof -
  obtain n d where nd: "quotient_of \<bar>q\<bar> = (n, d)" by fastforce
  then have q: "\<bar>q\<bar> = of_int n / of_int d" and d: "0 < d"
    by (auto dest: quotient_of_div quotient_of_denom_pos)
  have "(2 powi k \<le> \<bar>q\<bar>) = (if 0 \<le> k then ipow2 k * d \<le> n else d \<le> n * ipow2 (- k))" for k
  proof (cases "0 \<le> k")
    case True
    have "(2 powi k \<le> \<bar>q\<bar>) = (of_int (ipow2 k * d) \<le> (of_int n :: rat))"
      using True d by (simp add: q powi_code le_divide_eq)
    then show ?thesis using True by (simp only: of_int_le_iff if_True)
  next
    case False
    have p: "0 < ipow2 (- k)" using False by (simp add: ipow2_eq)
    have "(2 powi k \<le> \<bar>q\<bar>) = (of_int d \<le> (of_int (n * ipow2 (- k)) :: rat))"
      using False d p by (simp add: q powi_code le_divide_eq divide_le_eq field_simps)
    then show ?thesis using False by (simp only: of_int_le_iff if_False)
  qed
  then show ?thesis by (simp add: rat_exp_def nd)
qed

lemma rnd_mag_code [code]:
  "rnd_mag a =
     (let (n, d) = quotient_of a; e = ulp_exp a
      in if 0 \<le> e then of_int (rhe_div n (d * ipow2 e) * ipow2 e)
         else Rat.Fract (rhe_div (n * ipow2 (- e)) d) (ipow2 (- e)))"
proof -
  obtain n d where nd: "quotient_of a = (n, d)" by fastforce
  then have a: "a = of_int n / of_int d" and d: "0 < d"
    by (auto dest: quotient_of_div quotient_of_denom_pos)
  define e where "e = ulp_exp a"
  show ?thesis
  proof (cases "0 \<le> e")
    case True
    have p: "0 < ipow2 e" using True by (simp add: ipow2_eq)
    have "a * 2 powi (- e) = of_int n / of_int (d * ipow2 e)"
      using True p by (simp add: a powi_code power_int_minus inverse_eq_divide)
    moreover have "0 < d * ipow2 e" using d p by simp
    ultimately have "rhe (a * 2 powi (- e)) = rhe_div n (d * ipow2 e)"
      by (simp only: rhe_div_eq)
    then show ?thesis using True
      by (simp add: rnd_mag_def nd powi_code flip: e_def)
  next
    case False
    have p: "0 < ipow2 (- e)" using False by (simp add: ipow2_eq)
    have "a * 2 powi (- e) = of_int (n * ipow2 (- e)) / of_int d"
      using False by (simp add: a powi_code)
    then have "rhe (a * 2 powi (- e)) = rhe_div (n * ipow2 (- e)) d"
      using d by (simp only: rhe_div_eq)
    then show ?thesis using False p
      by (simp add: rnd_mag_def nd powi_code Fract_of_int_quotient flip: e_def)
  qed
qed

lemma rnd_code [code]:
  "rnd q =
     (let v = rnd_mag \<bar>q\<bar>
      in if v = 0 then FZero (q < 0)
         else if 0 < v \<and> 1024 \<le> rat_exp v then FInf (q < 0)
         else FFin (if q < 0 then - v else v))"
proof -
  have "v = 0 \<or> (2 ^ 1024 \<le> v) = (0 < v \<and> 1024 \<le> rat_exp v)" for v :: rat
  proof (cases "0 < v")
    case True
    then have "(1024 \<le> rat_exp v) = (2 powi 1024 \<le> v)"
      using le_rat_exp_iff [of v 1024] by simp
    then show ?thesis using True by simp
  next
    case False
    moreover have "(0 :: rat) < 2 ^ 1024" by (rule zero_less_power) simp
    ultimately show ?thesis by linarith
  qed
  from this [of "rnd_mag \<bar>q\<bar>"] show ?thesis by (auto simp: rnd_def Let_def)
qed

section \<open>Rounding to the nearest representable value\<close>

lemma rhe_of_int [simp]: "rhe (of_int m) = m"
  by (simp add: rhe_def)

lemma rhe_floor: "rhe x = \<lfloor>x\<rfloor> \<or> rhe x = \<lfloor>x\<rfloor> + 1"
  by (simp add: rhe_def Let_def)

lemma rhe_mono: "x \<le> y \<Longrightarrow> rhe x \<le> rhe y"
proof -
  assume le: "x \<le> y"
  then have f: "\<lfloor>x\<rfloor> \<le> \<lfloor>y\<rfloor>" by (rule floor_mono)
  show ?thesis
  proof (cases "\<lfloor>x\<rfloor> = \<lfloor>y\<rfloor>")
    case True
    then show ?thesis using le by (auto simp: rhe_def Let_def)
  next
    case False
    with f have "\<lfloor>x\<rfloor> + 1 \<le> \<lfloor>y\<rfloor>" by simp
    then show ?thesis using rhe_floor [of x] rhe_floor [of y] by linarith
  qed
qed

lemma le_rhe: "of_int m \<le> x \<Longrightarrow> m \<le> rhe x"
  using rhe_mono [of "of_int m" x] by simp

lemma rhe_le: "x \<le> of_int m \<Longrightarrow> rhe x \<le> m"
  using rhe_mono [of x "of_int m"] by simp

lemma powi2_int: "0 \<le> k \<Longrightarrow> (2 :: rat) powi k = of_int (2 ^ nat k)"
  by (simp add: power_int_def)

lemma powi2_split: "(2 :: rat) powi k = 2 powi (k - e) * 2 powi e"
  by (simp flip: power_int_add)

lemma rnd_mag_le_pow:
  assumes "a \<le> 2 powi k" and "ulp_exp a \<le> k"
  shows "rnd_mag a \<le> 2 powi k"
proof -
  let ?e = "ulp_exp a"
  have "a * 2 powi (- ?e) \<le> 2 powi (k - ?e)"
    using assms(1) by (simp add: power_int_diff power_int_minus field_simps)
  also have "\<dots> = of_int (2 ^ nat (k - ?e))" using assms(2) by (intro powi2_int) simp
  finally have "rhe (a * 2 powi (- ?e)) \<le> 2 ^ nat (k - ?e)" by (rule rhe_le)
  then have "(of_int (rhe (a * 2 powi (- ?e))) :: rat) \<le> of_int (2 ^ nat (k - ?e))"
    by (simp only: of_int_le_iff)
  also have "\<dots> = 2 powi (k - ?e)" using assms(2) by (intro powi2_int [symmetric]) simp
  finally show ?thesis unfolding rnd_mag_def by (subst powi2_split [of k ?e]) (intro mult_right_mono, auto)
qed

lemma rnd_mag_ge_pow:
  assumes "2 powi k \<le> a" and "ulp_exp a \<le> k"
  shows "2 powi k \<le> rnd_mag a"
proof -
  let ?e = "ulp_exp a"
  have i: "of_int (2 ^ nat (k - ?e)) = (2 :: rat) powi (k - ?e)"
    using assms(2) by (intro powi2_int [symmetric]) simp
  also have "\<dots> \<le> a * 2 powi (- ?e)"
    using assms(1) by (simp add: power_int_diff power_int_minus field_simps)
  finally have "2 ^ nat (k - ?e) \<le> rhe (a * 2 powi (- ?e))" by (rule le_rhe)
  then have "(of_int (2 ^ nat (k - ?e)) :: rat) \<le> of_int (rhe (a * 2 powi (- ?e)))"
    by (simp only: of_int_le_iff)
  then have "2 powi (k - ?e) \<le> (of_int (rhe (a * 2 powi (- ?e))) :: rat)"
    by (simp only: i)
  then show ?thesis
    unfolding rnd_mag_def by (subst powi2_split [of k ?e]) (intro mult_right_mono, auto)
qed

lemma rnd_mag_nonneg: "0 \<le> a \<Longrightarrow> 0 \<le> rnd_mag a"
  unfolding rnd_mag_def by (intro mult_nonneg_nonneg) (auto intro: le_rhe)

lemma rnd_mag_mono:
  assumes "0 < a" and "a \<le> b"
  shows "rnd_mag a \<le> rnd_mag b"
proof -
  have exp: "rat_exp a \<le> rat_exp b" using assms rat_exp_mono [of a b] by simp
  then have le: "ulp_exp a \<le> ulp_exp b" by (simp add: ulp_exp_def)
  show ?thesis
  proof (cases "ulp_exp a = ulp_exp b")
    case True
    have "a * 2 powi (- ulp_exp b) \<le> b * 2 powi (- ulp_exp b)"
      using assms by (intro mult_right_mono) auto
    then show ?thesis
      unfolding rnd_mag_def True
      by (intro mult_right_mono) (simp_all only: of_int_le_iff rhe_mono zero_le_power_int zero_le_numeral)
  next
    case False
    with le exp have k: "ulp_exp a \<le> rat_exp b" "ulp_exp b \<le> rat_exp b" "rat_exp a + 1 \<le> rat_exp b"
      by (auto simp: ulp_exp_def max_def split: if_splits)
    have "a \<le> 2 powi (rat_exp a + 1)" using rat_exp_bounds(2) [of a] assms by simp
    also have "\<dots> \<le> 2 powi rat_exp b" using k(3) by (simp only: powi2_le_iff)
    finally have "rnd_mag a \<le> 2 powi rat_exp b" using k(1) by (rule rnd_mag_le_pow)
    also have "\<dots> \<le> rnd_mag b"
      using k(2) rat_exp_bounds(1) [of b] assms by (intro rnd_mag_ge_pow) auto
    finally show ?thesis .
  qed
qed

lemma rnd_mag_grid: "v = of_int m * 2 powi e \<Longrightarrow> ulp_exp v \<le> e \<Longrightarrow> rnd_mag v = v"
proof -
  assume v: "v = of_int m * 2 powi e" and e: "ulp_exp v \<le> e"
  have "v * 2 powi (- ulp_exp v) = of_int m * 2 powi (e - ulp_exp v)"
    by (simp add: v power_int_diff power_int_minus field_simps)
  also have "\<dots> = of_int (m * 2 ^ nat (e - ulp_exp v))"
    using e by (simp add: powi2_int)
  finally have i: "v * 2 powi (- ulp_exp v) = of_int (m * 2 ^ nat (e - ulp_exp v))" .
  have "rnd_mag v = v * 2 powi (- ulp_exp v) * 2 powi ulp_exp v"
    unfolding rnd_mag_def i by (simp only: rhe_of_int)
  then show ?thesis by (simp add: power_int_minus field_simps)
qed

lemma rnd_mag_idem:
  assumes "0 < a" and "rnd_mag a \<noteq> 0"
  shows "rnd_mag (rnd_mag a) = rnd_mag a"
proof -
  define v where "v = rnd_mag a"
  define e where "e = ulp_exp a"
  have pos: "0 < v" using assms rnd_mag_nonneg [of a] by (simp add: v_def)
  have form: "v = of_int (rhe (a * 2 powi (- e))) * 2 powi e"
    by (simp add: v_def e_def rnd_mag_def)
  show ?thesis
  proof (cases "ulp_exp v \<le> e")
    case True
    then show ?thesis using rnd_mag_grid [OF form] by (simp add: v_def)
  next
    case False
    have ea: "rat_exp a + 1 \<le> e + 53" by (simp add: e_def ulp_exp_def)
    have "a \<le> 2 powi (rat_exp a + 1)" using rat_exp_bounds(2) [of a] assms by simp
    also have "\<dots> \<le> 2 powi (e + 53)" using ea by (simp only: powi2_le_iff)
    finally have up: "v \<le> 2 powi (e + 53)" unfolding v_def
      by (rule rnd_mag_le_pow) (simp add: e_def)
    have ge: "- 1074 \<le> e" by (simp add: e_def ulp_exp_def)
    with False have "e + 53 \<le> rat_exp v" by (simp add: ulp_exp_def max_def split: if_splits)
    then have "2 powi (e + 53) \<le> v" using pos le_rat_exp_iff [of v "e + 53"] by simp
    with up have v: "v = 2 powi (e + 53)" by simp
    have "2 powi rat_exp v \<le> v" using pos rat_exp_bounds(1) [of v] by simp
    also note v
    finally have "rat_exp v \<le> e + 53" by (simp only: powi2_le_iff)
    with \<open>e + 53 \<le> rat_exp v\<close> have "rat_exp v = e + 53" by simp
    then have "ulp_exp v \<le> e + 53" using ge by (simp add: ulp_exp_def)
    then have "rnd_mag v = v" by (intro rnd_mag_grid [of v 1 "e + 53"]) (simp add: v)
    then show ?thesis by (simp add: v_def)
  qed
qed

section \<open>Order\<close>

lemma f64_le_refl: "\<not> is_nan x \<Longrightarrow> x \<le> (x :: f64)"
  by (cases x) (auto simp: is_nan_def)

lemma f64_le_trans: "x \<le> y \<Longrightarrow> y \<le> z \<Longrightarrow> x \<le> (z :: f64)"
  by (cases x; cases y; cases z) (auto simp: fval_def)

lemma f64_less_le_trans: "x < y \<Longrightarrow> y \<le> z \<Longrightarrow> x < (z :: f64)"
  by (cases x; cases y; cases z) (auto simp: fval_def)

lemma f64_le_less_trans: "x \<le> y \<Longrightarrow> y < z \<Longrightarrow> x < (z :: f64)"
  by (cases x; cases y; cases z) (auto simp: fval_def)

lemma f64_less_imp_le: "x < y \<Longrightarrow> x \<le> (y :: f64)"
  by (cases x; cases y) (auto simp: fval_def)

lemma f64_less_irrefl [simp]: "\<not> x < (x :: f64)"
  by (cases x) auto

lemma f64_not_less: "\<not> is_nan x \<Longrightarrow> \<not> is_nan y \<Longrightarrow> \<not> x < y \<longleftrightarrow> y \<le> (x :: f64)"
  by (cases x; cases y) (auto simp: fval_def is_nan_def)

lemma f64_le_notnan: "x \<le> (y :: f64) \<Longrightarrow> \<not> is_nan x \<and> \<not> is_nan y"
  by (cases x; cases y) (auto simp: is_nan_def)

lemma f64_less_notnan: "x < (y :: f64) \<Longrightarrow> \<not> is_nan x \<and> \<not> is_nan y"
  by (cases x; cases y) (auto simp: is_nan_def)

lemma go_min_le1: "\<not> is_nan x \<Longrightarrow> \<not> is_nan y \<Longrightarrow> go_min x y \<le> x"
  by (cases x; cases y) (auto simp: go_min_def is_nan_def fval_def)

lemma go_min_le2: "\<not> is_nan x \<Longrightarrow> \<not> is_nan y \<Longrightarrow> go_min x y \<le> y"
  by (cases x; cases y) (auto simp: go_min_def is_nan_def fval_def)

lemma go_max_ge1: "\<not> is_nan x \<Longrightarrow> \<not> is_nan y \<Longrightarrow> x \<le> go_max x y"
  by (cases x; cases y) (auto simp: go_max_def is_nan_def fval_def)

lemma go_max_ge2: "\<not> is_nan x \<Longrightarrow> \<not> is_nan y \<Longrightarrow> y \<le> go_max x y"
  by (cases x; cases y) (auto simp: go_max_def is_nan_def fval_def)

lemma go_min_cases: "\<not> is_nan x \<Longrightarrow> \<not> is_nan y \<Longrightarrow> go_min x y = x \<or> go_min x y = y"
  by (simp add: go_min_def)

lemma go_max_cases: "\<not> is_nan x \<Longrightarrow> \<not> is_nan y \<Longrightarrow> go_max x y = x \<or> go_max x y = y"
  by (simp add: go_max_def)

section \<open>Rounding is monotone and arithmetic stays well formed\<close>

lemma rnd_mag_abs_nonneg [simp]: "0 \<le> rnd_mag \<bar>q\<bar>"
  by (rule rnd_mag_nonneg) simp

lemma rnd_notnan [simp]: "\<not> is_nan (rnd q)"
  by (simp add: rnd_def is_nan_def Let_def)

lemma rnd_minus: "q \<noteq> 0 \<Longrightarrow> rnd (- q) = - rnd q"
  by (auto simp: rnd_def Let_def)

lemma rnd_mono_pos:
  assumes "0 < p" and "p \<le> q"
  shows "rnd p \<le> rnd q"
proof -
  have m: "rnd_mag p \<le> rnd_mag q" using assms by (rule rnd_mag_mono)
  have "0 \<le> rnd_mag p" and "0 \<le> rnd_mag q" using assms by (auto intro: rnd_mag_nonneg)
  then show ?thesis using assms m by (auto simp: rnd_def Let_def fval_def)
qed

lemma rnd_pos: "0 < p \<Longrightarrow> FZero s \<le> rnd p"
  using rnd_mag_nonneg [of p] by (auto simp: rnd_def Let_def fval_def)

lemma f64_uminus_le: "- x \<le> - y \<longleftrightarrow> y \<le> (x :: f64)"
  by (cases x; cases y) (auto simp: fval_def)

lemma rnd_neg: "p < 0 \<Longrightarrow> rnd p \<le> FZero s"
  using rnd_pos [of "- p" "\<not> s"] rnd_minus [of p] f64_uminus_le [of "FZero (\<not> s)" "rnd p"]
  by (cases "rnd p") (auto simp: fval_def)

theorem rnd_mono:
  assumes "p \<noteq> 0" and "q \<noteq> 0" and "p \<le> q"
  shows "rnd p \<le> rnd q"
proof (cases "0 < p")
  case True
  then show ?thesis using assms(3) by (rule rnd_mono_pos)
next
  case False
  with assms have p: "p < 0" by simp
  show ?thesis
  proof (cases "0 < q")
    case True
    show ?thesis using rnd_neg [OF p] rnd_pos [OF True, of False] by (rule f64_le_trans)
  next
    case False
    with assms have "rnd (- q) \<le> rnd (- p)" by (intro rnd_mono_pos) auto
    then show ?thesis using assms by (simp add: rnd_minus f64_uminus_le)
  qed
qed

lemma rnd_idem:
  assumes "q \<noteq> 0" and "rnd q = FFin v"
  shows "v \<noteq> 0 \<and> rnd v = FFin v"
proof -
  let ?m = "rnd_mag \<bar>q\<bar>"
  have m: "?m \<noteq> 0" "\<not> 2 ^ 1024 \<le> ?m" and v: "v = (if q < 0 then - ?m else ?m)"
    using assms(2) by (auto simp: rnd_def Let_def split: if_splits)
  have pos: "0 < ?m" using m(1) rnd_mag_abs_nonneg [of q] by linarith
  have "rnd_mag ?m = ?m" using assms(1) m(1) by (intro rnd_mag_idem) auto
  then show ?thesis using m pos by (auto simp: v rnd_def Let_def)
qed

lemma wf_rnd [intro]: "q \<noteq> 0 \<Longrightarrow> wf_f64 (rnd q)"
  using rnd_idem [of q] by (auto simp: wf_f64_def split: f64.split)

lemma wf_simps [simp]: "wf_f64 FNaN" "wf_f64 (FInf s)" "wf_f64 (FZero s)"
  by (simp_all add: wf_f64_def)

lemma wf_FFinD: "wf_f64 (FFin q) \<Longrightarrow> q \<noteq> 0 \<and> rnd q = FFin q"
  by (simp add: wf_f64_def)

lemma wf_radd [intro]: "wf_f64 (radd p q)"
  by (auto simp: radd_def)

lemma wf_plus [intro]: "wf_f64 ((x :: f64) + y)"
  by (cases "(x, y)" rule: plus_f64.cases) (auto simp: fval_def)

lemma wf_uminus [intro]: "wf_f64 x \<Longrightarrow> wf_f64 (- x)"
  by (cases x) (auto simp: wf_f64_def rnd_minus)

lemma wf_minus [intro]: "wf_f64 ((x :: f64) - y)"
  by (auto simp: minus_f64_def)

lemma wf_times: "wf_f64 x \<Longrightarrow> wf_f64 y \<Longrightarrow> wf_f64 (x * y)"
  by (cases "(x, y)" rule: times_f64.cases) (auto dest!: wf_FFinD intro!: wf_rnd)

lemma wf_divide: "wf_f64 x \<Longrightarrow> wf_f64 y \<Longrightarrow> wf_f64 (x / y)"
  by (cases "(x, y)" rule: divide_f64.cases) (auto dest!: wf_FFinD intro!: wf_rnd)

lemma FFin_plus [simp]: "FFin p + FFin q = radd p q" "FFin p + FZero s = radd p 0" "FZero s + FFin q = radd 0 q"
  by (simp_all add: fval_def)

lemma radd_ge:
  assumes "rnd p = FFin p" and "p \<noteq> 0" and "0 \<le> q"
  shows "FFin p \<le> radd p q"
proof (cases "p + q = 0")
  case True
  then show ?thesis using assms by (simp add: radd_def fval_def)
next
  case False
  then have "rnd p \<le> rnd (p + q)" using assms by (intro rnd_mono) auto
  then show ?thesis using assms False by (simp add: radd_def)
qed

lemma radd_0_ge: "0 \<le> q \<Longrightarrow> FZero s \<le> radd 0 q"
  by (auto simp: radd_def fval_def intro: rnd_pos)

theorem f64_add_mono:
  assumes "wf_f64 x" and "FZero s \<le> y" and "\<not> is_nan (x + y)"
  shows "x \<le> x + y"
proof (cases x)
  case (FFin p)
  with assms have p: "p \<noteq> 0" "rnd p = FFin p" by (auto dest: wf_FFinD)
  show ?thesis
  proof (cases y)
    case (FFin q)
    with assms have "0 \<le> q" by (simp add: fval_def)
    then show ?thesis using p \<open>x = FFin p\<close> FFin by (simp add: radd_ge fval_def)
  next
    case (FZero t)
    then show ?thesis using p \<open>x = FFin p\<close> by (simp add: radd_ge fval_def)
  next
    case (FInf t)
    then show ?thesis using assms \<open>x = FFin p\<close> by simp
  next
    case FNaN
    then show ?thesis using assms by simp
  qed
next
  case (FZero t)
  show ?thesis
  proof (cases y)
    case (FFin q)
    with assms have "0 \<le> q" by (simp add: fval_def)
    then show ?thesis using FZero FFin by (simp add: radd_0_ge fval_def)
  qed (use assms FZero in \<open>simp_all add: fval_def\<close>)
next
  case (FInf t)
  then show ?thesis using assms by (cases y) (auto simp: is_nan_def)
next
  case FNaN
  then show ?thesis using assms by (simp add: is_nan_def)
qed

lemma radd_le:
  assumes "rnd p = FFin p" and "p \<noteq> 0" and "0 \<le> q"
  shows "radd p (- q) \<le> FFin p"
proof (cases "p = q")
  case True
  then show ?thesis using assms by (simp add: radd_def fval_def)
next
  case False
  then have "rnd (p - q) \<le> rnd p" using assms by (intro rnd_mono) auto
  then show ?thesis using assms False by (simp add: radd_def)
qed

lemma radd_0_le: "0 \<le> q \<Longrightarrow> radd 0 (- q) \<le> FZero s"
  by (auto simp: radd_def fval_def intro: rnd_neg)

theorem f64_sub_mono:
  assumes "wf_f64 x" and "FZero s \<le> y" and "\<not> is_nan (x - y)"
  shows "x - y \<le> x"
proof (cases x)
  case (FFin p)
  with assms have p: "p \<noteq> 0" "rnd p = FFin p" by (auto dest: wf_FFinD)
  show ?thesis
  proof (cases y)
    case (FFin q)
    with assms have "0 \<le> q" by (simp add: fval_def)
    then show ?thesis using p \<open>x = FFin p\<close> FFin by (simp add: radd_le fval_def minus_f64_def)
  next
    case (FZero t)
    then show ?thesis using p \<open>x = FFin p\<close> radd_le [of p 0] by (simp add: fval_def minus_f64_def)
  next
    case (FInf t)
    then show ?thesis using assms \<open>x = FFin p\<close> by (simp add: minus_f64_def)
  next
    case FNaN
    then show ?thesis using assms by simp
  qed
next
  case (FZero t)
  show ?thesis
  proof (cases y)
    case (FFin q)
    with assms have "0 \<le> q" by (simp add: fval_def)
    then show ?thesis using FZero FFin by (simp add: radd_0_le fval_def minus_f64_def)
  qed (use assms FZero in \<open>simp_all add: fval_def minus_f64_def\<close>)
next
  case (FInf t)
  then show ?thesis using assms by (cases y) (auto simp: is_nan_def minus_f64_def split: if_splits)
next
  case FNaN
  then show ?thesis using assms by (simp add: is_nan_def minus_f64_def)
qed

theorem f64_mult_nonneg:
  assumes "FZero s \<le> x" and "FZero t \<le> y" and "\<not> is_nan (x * y)" and "wf_f64 x" and "wf_f64 y"
  shows "FZero u \<le> x * y"
  using assms
  by (cases "(x, y)" rule: times_f64.cases)
    (auto simp: fval_def is_nan_def fneg_sign_def dest!: wf_FFinD intro!: rnd_pos split: f64.splits)

end
