(* ===== verification/Dsl_Ast.thy ===== *)
theory Dsl_Ast
  imports Dsl_Token Go_Float64
begin

text \<open>
  Package \<open>ast\<close> (\<open>pkg/dsl/ast/ast.go\<close>): one constructor per node type, with the fields in the
  order of the Go struct. A nil expression or block is \<open>None\<close>; a slice is a list. The node
  \<open>InputDecl\<close> is declared but never built by the parser.
\<close>

datatype expr =
    NumberLit token f64
  | StringLit token string
  | BoolLit token bool
  | NaLit token
  | IdentExpr token string
  | BinaryExpr token expr token_type expr
  | UnaryExpr token token_type expr
  | CallExpr token expr "call_arg list"
  | DotExpr token expr string
  | IndexExpr token expr expr
  | TernaryExpr token expr expr expr
  | ArrayLit token "expr list"
  | LambdaExpr token "fn_param list" expr
and call_arg = CallArg string expr
and fn_param = FnParam string "expr option"

datatype stmt =
    StrategyDecl token string "call_arg list"
  | InputDecl token string "call_arg list"
  | VarDecl token string string bool bool expr
  | AssignStmt token string token_type expr
  | IndexAssignStmt token expr expr expr
  | TupleAssign token "string list" expr
  | ExprStmt expr
  | IfStmt token expr block "else_if list" "block option"
  | ForStmt token string expr expr "expr option" block
  | ForInStmt token string expr block
  | WhileStmt token expr block
  | SwitchStmt token "expr option" "switch_case list" "block option"
  | FnDecl token string "fn_param list" block
  | ReturnStmt token "expr option"
  | BreakStmt token
  | ContinueStmt token
  | ImportStmt token string
and else_if = ElseIf token expr block
and switch_case = SwitchCase expr block
and block = Block token "stmt list"

text \<open>\<open>Program\<close> is a list of statements.\<close>

datatype program = Program "stmt list"

text \<open>The \<open>Pos\<close> methods.\<close>

fun expr_pos :: "expr \<Rightarrow> token" where
  "expr_pos (NumberLit t _) = t"
| "expr_pos (StringLit t _) = t"
| "expr_pos (BoolLit t _) = t"
| "expr_pos (NaLit t) = t"
| "expr_pos (IdentExpr t _) = t"
| "expr_pos (BinaryExpr t _ _ _) = t"
| "expr_pos (UnaryExpr t _ _) = t"
| "expr_pos (CallExpr t _ _) = t"
| "expr_pos (DotExpr t _ _) = t"
| "expr_pos (IndexExpr t _ _) = t"
| "expr_pos (TernaryExpr t _ _ _) = t"
| "expr_pos (ArrayLit t _) = t"
| "expr_pos (LambdaExpr t _ _) = t"

fun stmt_pos :: "stmt \<Rightarrow> token" where
  "stmt_pos (StrategyDecl t _ _) = t"
| "stmt_pos (InputDecl t _ _) = t"
| "stmt_pos (VarDecl t _ _ _ _ _) = t"
| "stmt_pos (AssignStmt t _ _ _) = t"
| "stmt_pos (IndexAssignStmt t _ _ _) = t"
| "stmt_pos (TupleAssign t _ _) = t"
| "stmt_pos (ExprStmt e) = expr_pos e"
| "stmt_pos (IfStmt t _ _ _ _) = t"
| "stmt_pos (ForStmt t _ _ _ _ _) = t"
| "stmt_pos (ForInStmt t _ _ _) = t"
| "stmt_pos (WhileStmt t _ _) = t"
| "stmt_pos (SwitchStmt t _ _ _) = t"
| "stmt_pos (FnDecl t _ _ _) = t"
| "stmt_pos (ReturnStmt t _) = t"
| "stmt_pos (BreakStmt t) = t"
| "stmt_pos (ContinueStmt t) = t"
| "stmt_pos (ImportStmt t _) = t"

fun block_pos :: "block \<Rightarrow> token" where
  "block_pos (Block t _) = t"

text \<open>The zero token, the position of an empty program.\<close>

definition zero_token :: token where
  "zero_token = mk_token TkIllegal [] 0 0"

definition program_pos :: "program \<Rightarrow> token" where
  "program_pos p = (case p of Program [] \<Rightarrow> zero_token | Program (s # _) \<Rightarrow> stmt_pos s)"

fun block_stmts :: "block \<Rightarrow> stmt list" where
  "block_stmts (Block _ ss) = ss"

end
