(* ===== verification/Go_Strconv.thy ===== *)
theory Go_Strconv
  imports Go_Float64 Go_Strings
begin

text \<open>
  \<open>strconv.ParseFloat\<close> with bit size 64 on decimal literals without sign, underscores, hexadecimal
  mantissa or the words \<open>inf\<close> and \<open>nan\<close>: the only strings the scanner can produce for a number
  begin with a digit and hold digits, one point and an exponent part. On a syntax error the
  value is 0, on overflow an infinity; callers that drop the error see the value.
\<close>

definition dec_char :: "char \<Rightarrow> bool" where
  "dec_char c = (48 \<le> byte c \<and> byte c \<le> 57)"

definition dec_span :: "string \<Rightarrow> string \<times> string" where
  "dec_span s = (takeWhile dec_char s, dropWhile dec_char s)"

definition dec_value :: "string \<Rightarrow> int" where
  "dec_value ds = foldl (\<lambda>a c. a * 10 + (int (byte c) - 48)) 0 ds"

text \<open>The exponent stops growing at 10000, as in \<open>readFloat\<close>.\<close>

definition exp_value :: "string \<Rightarrow> int" where
  "exp_value ds = foldl (\<lambda>e c. if e < 10000 then e * 10 + (int (byte c) - 48) else e) 0 ds"

definition parse_exponent :: "string \<Rightarrow> int option" where
  "parse_exponent s =
     (case s of
        [] \<Rightarrow> Some 0
      | c # r \<Rightarrow>
         if c = CHR ''e'' \<or> c = CHR ''E''
         then let (neg, r) = (case r of
                                [] \<Rightarrow> (False, r)
                              | d # r' \<Rightarrow> if d = CHR ''+'' then (False, r')
                                         else if d = CHR ''-'' then (True, r') else (False, r));
                  (ds, rest) = dec_span r
              in if ds = [] \<or> rest \<noteq> [] then None
                 else Some (if neg then - exp_value ds else exp_value ds)
         else None)"

definition parse_float :: "string \<Rightarrow> f64" where
  "parse_float s =
     (let (ip, r) = dec_span s;
          (fp, r) = (case r of
                       [] \<Rightarrow> ([], r)
                     | c # r' \<Rightarrow> if c = CHR ''.'' then dec_span r' else ([], r))
      in if ip = [] \<and> fp = [] then FZero False
         else case parse_exponent r of
                None \<Rightarrow> FZero False
              | Some e \<Rightarrow>
                 let m = dec_value (ip @ fp); k = e - int (length fp)
                 in if m = 0 then FZero False
                    else if 0 \<le> k then rnd (of_int (m * 10 ^ nat k))
                    else rnd (of_int m / of_int (10 ^ nat (- k))))"

end
