(* ===== verification/Dsl_Parser.thy ===== *)
theory Dsl_Parser
  imports Dsl_Lexer Dsl_Ast Go_Strconv
begin

text \<open>
  Package \<open>parser\<close> (\<open>pkg/dsl/parser/parser.go\<close>). The parser's state is the record below; a
  method of \<open>Parser\<close> is a function on it. Methods that cannot call back into the expression or
  statement parser return their result and the next state. The others return an option:
  \<open>None\<close> means that the call did not finish within the fuel. The two mutually recursive
  entry points \<open>parseExpr\<close> and \<open>parseStatement\<close> are the arguments \<open>pe\<close> and \<open>ps\<close> of the methods
  that call them, and \<open>parse_expr\<close> and \<open>parse_stmt\<close> tie the knot; \<open>n\<close> bounds the turns of the
  loops. \<open>Dsl_Parser_Laws\<close> proves how much fuel is enough.

  An error of the parser is a value that holds what the Go message prints.
\<close>

datatype parse_error =
    LexError token
  | Expected token_type token
  | UnexpectedToken token
  | ExpectedField token
  | ExpectedBlockAt token
  | ExpectedBlockAfter token

record pstate =
  p_tokens :: "token list"
  p_pos :: nat
  p_errors :: "parse_error list"

type_synonym 'a pres = "('a \<times> pstate) option"
type_synonym expr_parser = "nat \<Rightarrow> pstate \<Rightarrow> expr pres"
type_synonym stmt_parser = "pstate \<Rightarrow> stmt pres"

section \<open>Precedence\<close>

definition prec_or :: nat where "prec_or = 1"
definition prec_and :: nat where "prec_and = 2"
definition prec_equality :: nat where "prec_equality = 3"
definition prec_comparison :: nat where "prec_comparison = 4"
definition prec_addition :: nat where "prec_addition = 5"
definition prec_multiply :: nat where "prec_multiply = 6"
definition prec_unary :: nat where "prec_unary = 7"
definition prec_call :: nat where "prec_call = 8"

lemmas prec_defs = prec_or_def prec_and_def prec_equality_def prec_comparison_def
  prec_addition_def prec_multiply_def prec_unary_def prec_call_def

definition infix_prec :: "token_type \<Rightarrow> nat" where
  "infix_prec tt =
     (if tt = TkOr then prec_or
      else if tt = TkAnd then prec_and
      else if tt \<in> {TkEqEq, TkBangEq} then prec_equality
      else if tt \<in> {TkLt, TkGt, TkLtEq, TkGtEq} then prec_comparison
      else if tt \<in> {TkPlus, TkMinus} then prec_addition
      else if tt \<in> {TkStar, TkSlash, TkPercent} then prec_multiply
      else 0)"

section \<open>Helpers on the token stream\<close>

definition new_parser :: "unicode \<Rightarrow> string \<Rightarrow> pstate" where
  "new_parser u s =
     (let (toks, err) = tokenize u s
      in \<lparr>p_tokens = toks, p_pos = 0,
          p_errors = (case err of None \<Rightarrow> [] | Some t \<Rightarrow> [LexError t])\<rparr>)"

definition eof_token :: token where
  "eof_token = mk_token TkEOF [] 0 0"

definition cur :: "pstate \<Rightarrow> token" where
  "cur p = (if p_pos p < length (p_tokens p) then p_tokens p ! p_pos p else eof_token)"

abbreviation cur_type :: "pstate \<Rightarrow> token_type" where
  "cur_type p \<equiv> tok_type (cur p)"

definition peek :: "pstate \<Rightarrow> token" where
  "peek p =
     (case dropWhile (\<lambda>t. tok_type t = TkNewline) (drop (p_pos p + 1) (p_tokens p)) of
        [] \<Rightarrow> eof_token
      | t # _ \<Rightarrow> t)"

definition peek_raw :: "pstate \<Rightarrow> token" where
  "peek_raw p =
     (if p_pos p + 1 < length (p_tokens p) then p_tokens p ! (p_pos p + 1) else eof_token)"

definition adv :: "pstate \<Rightarrow> pstate" where
  "adv p = (if p_pos p < length (p_tokens p) then p\<lparr>p_pos := p_pos p + 1\<rparr> else p)"

definition errorf :: "parse_error \<Rightarrow> pstate \<Rightarrow> pstate" where
  "errorf e p = p\<lparr>p_errors := p_errors p @ [e]\<rparr>"

text \<open>\<open>expect\<close> returns the current token, and moves past it only if it has the wanted type.\<close>

definition expect :: "token_type \<Rightarrow> pstate \<Rightarrow> token \<times> pstate" where
  "expect tt p =
     (let tok = cur p
      in if tok_type tok \<noteq> tt then (tok, errorf (Expected tt tok) p) else (tok, adv p))"

definition match_tok :: "token_type \<Rightarrow> pstate \<Rightarrow> bool \<times> pstate" where
  "match_tok tt p = (if cur_type p = tt then (True, adv p) else (False, p))"

definition remaining :: "pstate \<Rightarrow> nat" where
  "remaining p = length (p_tokens p) - p_pos p"

lemma adv_remaining: "cur_type p \<noteq> TkEOF \<Longrightarrow> remaining (adv p) < remaining p"
  by (auto simp: adv_def remaining_def cur_def eof_token_def split: if_splits)

lemma adv_remaining_le: "remaining (adv p) \<le> remaining p"
  by (auto simp: adv_def remaining_def)

function skip_newlines :: "pstate \<Rightarrow> pstate" where
  "skip_newlines p = (if cur_type p = TkNewline then skip_newlines (adv p) else p)"
  by pat_completeness auto
termination
  by (relation "measure remaining") (auto intro!: adv_remaining)

declare skip_newlines.simps [simp del]

definition is_type_qualifier :: "token_type \<Rightarrow> bool" where
  "is_type_qualifier tt =
     (tt \<in> {KwInt, KwFloat, KwBool, KwString, KwColor, KwSeries, KwSimple})"

function skip_qualifiers :: "pstate \<Rightarrow> pstate" where
  "skip_qualifiers p = (if is_type_qualifier (cur_type p) then skip_qualifiers (adv p) else p)"
  by pat_completeness auto
termination
  by (relation "measure remaining") (auto intro!: adv_remaining simp: is_type_qualifier_def)

text \<open>The loop that collects a type hint: the qualifiers' literals separated by blanks.\<close>

function type_hint_loop :: "string \<Rightarrow> pstate \<Rightarrow> string \<times> pstate" where
  "type_hint_loop h p =
     (if is_type_qualifier (cur_type p)
      then type_hint_loop ((if h \<noteq> [] then h @ '' '' else h) @ literal (cur p)) (adv p)
      else (h, p))"
  by pat_completeness auto
termination
  by (relation "measure (\<lambda>(h, p). remaining p)")
    (auto intro!: adv_remaining simp: is_type_qualifier_def)

declare skip_qualifiers.simps [simp del] type_hint_loop.simps [simp del]

section \<open>Lookahead\<close>

text \<open>
  These methods restore the position before they return, so they are functions of the state
  to a truth value.
\<close>

function skip_parens_loop :: "int \<Rightarrow> pstate \<Rightarrow> pstate" where
  "skip_parens_loop depth p =
     (if cur_type p = TkEOF then p
      else if cur_type p = TkLParen then skip_parens_loop (depth + 1) (adv p)
      else if cur_type p = TkRParen
      then (if depth - 1 = 0 then adv p else skip_parens_loop (depth - 1) (adv p))
      else skip_parens_loop depth (adv p))"
  by pat_completeness auto
termination
  by (relation "measure (\<lambda>(d, p). remaining p)") (auto intro!: adv_remaining)

declare skip_parens_loop.simps [simp del]

definition skip_balanced_parens :: "pstate \<Rightarrow> pstate" where
  "skip_balanced_parens p = (if cur_type p \<noteq> TkLParen then p else skip_parens_loop 0 p)"

definition is_pine_arrow_fn_decl :: "pstate \<Rightarrow> bool" where
  "is_pine_arrow_fn_decl p =
     (if cur_type p \<noteq> TkIdent \<or> tok_type (peek_raw p) \<noteq> TkLParen then False
      else cur_type (skip_balanced_parens (adv p)) = TkArrow)"

definition is_typed_pine_arrow_fn_decl :: "pstate \<Rightarrow> bool" where
  "is_typed_pine_arrow_fn_decl p = is_pine_arrow_fn_decl (skip_qualifiers p)"

function tuple_bracket_loop :: "nat \<Rightarrow> pstate \<Rightarrow> pstate" where
  "tuple_bracket_loop depth p =
     (if depth > 0 \<and> cur_type p \<noteq> TkEOF
      then tuple_bracket_loop
             (if cur_type p = TkLBracket then depth + 1
              else if cur_type p = TkRBracket then depth - 1 else depth) (adv p)
      else p)"
  by pat_completeness auto
termination
  by (relation "measure (\<lambda>(d, p). remaining p)") (auto intro!: adv_remaining)

declare tuple_bracket_loop.simps [simp del]

definition is_tuple_assign :: "pstate \<Rightarrow> bool" where
  "is_tuple_assign p =
     (if cur_type p \<noteq> TkLBracket then False
      else cur_type (tuple_bracket_loop 1 (adv p)) = TkEq)"

text \<open>The inner loop of \<open>isLambdaParams\<close>, which skips a default value.\<close>

function skip_default :: "nat \<Rightarrow> pstate \<Rightarrow> pstate" where
  "skip_default depth p =
     (if cur_type p = TkEOF then p
      else if cur_type p = TkLParen then skip_default (depth + 1) (adv p)
      else if cur_type p = TkRParen
      then (if depth = 0 then p else skip_default (depth - 1) (adv p))
      else if cur_type p = TkComma \<and> depth = 0 then p
      else skip_default depth (adv p))"
  by pat_completeness auto
termination
  by (relation "measure (\<lambda>(d, p). remaining p)") (auto intro!: adv_remaining)

declare skip_default.simps [simp del]

lemma skip_default_remaining: "remaining (skip_default d p) \<le> remaining p"
proof (induction d p rule: skip_default.induct)
  case (1 d p)
  then show ?case using adv_remaining_le [of p] by (subst skip_default.simps) auto
qed

text \<open>The state after a parameter and its default value.\<close>

definition after_lambda_param :: "pstate \<Rightarrow> pstate" where
  "after_lambda_param p =
     (let p = adv p in if cur_type p = TkEq then skip_default 0 (adv p) else p)"

lemma after_lambda_param_remaining:
  "cur_type p = TkIdent \<Longrightarrow> remaining (after_lambda_param p) < remaining p"
  using adv_remaining [of p] adv_remaining_le [of "adv p"] skip_default_remaining [of 0 "adv (adv p)"]
  by (auto simp: after_lambda_param_def Let_def)

function is_lambda_params :: "pstate \<Rightarrow> bool" where
  "is_lambda_params p =
     (if cur_type p \<noteq> TkIdent then False
      else if cur_type (after_lambda_param p) = TkRParen
      then cur_type (adv (after_lambda_param p)) = TkArrow
      else if cur_type (after_lambda_param p) \<noteq> TkComma then False
      else is_lambda_params (adv (after_lambda_param p)))"
  by pat_completeness auto
termination
proof (relation "measure remaining")
  fix p
  assume "\<not> cur_type p \<noteq> TkIdent"
  then show "(adv (after_lambda_param p), p) \<in> measure remaining"
    using after_lambda_param_remaining [of p] adv_remaining_le [of "after_lambda_param p"] by simp
qed simp

declare is_lambda_params.simps [simp del]

definition starts_block_statement :: "token_type \<Rightarrow> bool" where
  "starts_block_statement tt =
     (tt \<in> {KwIf, KwFor, KwWhile, KwSwitch, KwReturn, KwBreak, KwContinue, TkLBrace})"

section \<open>Call arguments and parameters\<close>

definition parse_call_arg :: "expr_parser \<Rightarrow> pstate \<Rightarrow> call_arg pres" where
  "parse_call_arg pe p =
     (if cur_type p = TkIdent \<and> tok_type (peek_raw p) = TkEq
      then do {
        (val, q) \<leftarrow> pe 0 (adv (adv p));
        Some (CallArg (literal (cur p)) val, q)
      }
      else do {
        (val, q) \<leftarrow> pe 0 p;
        Some (CallArg [] val, q)
      })"

fun call_args_loop ::
  "expr_parser \<Rightarrow> nat \<Rightarrow> call_arg list \<Rightarrow> pstate \<Rightarrow> call_arg list pres" where
  "call_args_loop pe 0 args p = None"
| "call_args_loop pe (Suc n) args p =
     (if cur_type p = TkRParen \<or> cur_type p = TkEOF then Some (args, p)
      else let p = skip_newlines p
           in if cur_type p = TkRParen then Some (args, p)
              else do {
                (arg, p) \<leftarrow> parse_call_arg pe p;
                let args = args @ [arg];
                let (more, p) = match_tok TkComma (skip_newlines p);
                if more then call_args_loop pe n args p else Some (args, p)
              })"

definition parse_call_args :: "expr_parser \<Rightarrow> nat \<Rightarrow> pstate \<Rightarrow> call_arg list pres" where
  "parse_call_args pe n p = call_args_loop pe n [] p"

fun fn_params_loop ::
  "expr_parser \<Rightarrow> nat \<Rightarrow> fn_param list \<Rightarrow> pstate \<Rightarrow> fn_param list pres" where
  "fn_params_loop pe 0 params p = None"
| "fn_params_loop pe (Suc n) params p =
     (if cur_type p = TkRParen \<or> cur_type p = TkEOF then Some (params, p)
      else let (name, p) = expect TkIdent (skip_qualifiers p);
               (has_default, p) = match_tok TkEq p
           in do {
             (def, p) \<leftarrow> (if has_default then map_option (\<lambda>(e, q). (Some e, q)) (pe 0 p)
                        else Some (None, p));
             let params = params @ [FnParam (literal name) def];
             let (more, p) = match_tok TkComma p;
             if more then fn_params_loop pe n params p else Some (params, p)
           })"

definition parse_fn_params :: "expr_parser \<Rightarrow> nat \<Rightarrow> pstate \<Rightarrow> fn_param list pres" where
  "parse_fn_params pe n p = fn_params_loop pe n [] p"

section \<open>Blocks\<close>

fun brace_loop :: "stmt_parser \<Rightarrow> nat \<Rightarrow> stmt list \<Rightarrow> pstate \<Rightarrow> stmt list pres" where
  "brace_loop ps 0 stmts p = None"
| "brace_loop ps (Suc n) stmts p =
     (if cur_type p = TkRBrace \<or> cur_type p = TkEOF then Some (stmts, p)
      else do {
        (s, p) \<leftarrow> ps p;
        let p = (if cur_type p \<noteq> TkRBrace then snd (match_tok TkNewline p) else p);
        brace_loop ps n (stmts @ [s]) (skip_newlines p)
      })"

fun indented_loop :: "stmt_parser \<Rightarrow> nat \<Rightarrow> nat \<Rightarrow> stmt list \<Rightarrow> pstate \<Rightarrow> stmt list pres" where
  "indented_loop ps indent 0 stmts p = None"
| "indented_loop ps indent (Suc n) stmts p =
     (if cur_type p = TkEOF \<or> cur_type p = TkRBrace then Some (stmts, p)
      else if cur_type p = TkNewline then indented_loop ps indent n stmts (skip_newlines p)
      else if tok_col (cur p) < indent then Some (stmts, p)
      else do {
        (s, p) \<leftarrow> ps p;
        indented_loop ps indent n (stmts @ [s])
          (if cur_type p = TkNewline then skip_newlines p else p)
      })"

definition parse_indented_block :: "stmt_parser \<Rightarrow> nat \<Rightarrow> token \<Rightarrow> pstate \<Rightarrow> block pres" where
  "parse_indented_block ps n tok p =
     (if cur_type p = TkEOF \<or> cur_type p = TkRBrace
      then Some (Block tok [], errorf (ExpectedBlockAt tok) p)
      else let indent = tok_col (cur p)
           in if indent \<le> tok_col tok
              then Some (Block tok [], errorf (ExpectedBlockAfter tok) p)
              else do {
                (stmts, p) \<leftarrow> indented_loop ps indent n [] p;
                Some (Block tok stmts, p)
              })"

definition parse_block_after :: "stmt_parser \<Rightarrow> nat \<Rightarrow> token \<Rightarrow> pstate \<Rightarrow> block pres" where
  "parse_block_after ps n parent p =
     (let tok = cur p
      in if tok_type tok = TkLBrace
         then do {
           (stmts, p) \<leftarrow> brace_loop ps n [] (skip_newlines (adv p));
           Some (Block tok stmts, snd (expect TkRBrace p))
         }
         else if tok_type tok = TkNewline
         then parse_indented_block ps n parent (skip_newlines p)
         else do {
           (s, p) \<leftarrow> ps p;
           Some (Block tok [s], p)
         })"

definition parse_block :: "stmt_parser \<Rightarrow> nat \<Rightarrow> pstate \<Rightarrow> block pres" where
  "parse_block ps n p = parse_block_after ps n (cur p) p"

definition parse_arrow_body ::
  "expr_parser \<Rightarrow> stmt_parser \<Rightarrow> nat \<Rightarrow> token \<Rightarrow> pstate \<Rightarrow> block pres" where
  "parse_arrow_body pe ps n tok p =
     (if cur_type p = TkNewline then parse_indented_block ps n tok (skip_newlines p)
      else if cur_type p = TkLBrace then parse_block ps n p
      else if starts_block_statement (cur_type p)
      then do {
        (s, p) \<leftarrow> ps p;
        Some (Block tok [s], p)
      }
      else do {
        (e, p) \<leftarrow> pe 0 p;
        Some (Block tok [ReturnStmt tok (Some e)], p)
      })"

section \<open>Declarations\<close>

definition parse_strategy_decl :: "expr_parser \<Rightarrow> nat \<Rightarrow> pstate \<Rightarrow> stmt pres" where
  "parse_strategy_decl pe n p =
     (let tok = cur p
      in do {
        (args, p) \<leftarrow> parse_call_args pe n (snd (expect TkLParen (adv p)));
        Some (StrategyDecl tok (literal tok) args, snd (expect TkRParen p))
      })"

fun extract_call_args :: "expr \<Rightarrow> call_arg list" where
  "extract_call_args (CallExpr _ _ args) = args"
| "extract_call_args _ = []"

definition parse_input_decl :: "expr_parser \<Rightarrow> pstate \<Rightarrow> stmt pres" where
  "parse_input_decl pe p =
     (let tok = cur p
      in do {
        (e, p) \<leftarrow> pe 0 p;
        Some (ExprStmt (CallExpr tok (IdentExpr tok ''input'') (extract_call_args e)), p)
      })"

definition parse_var_decl_with_qualifier :: "expr_parser \<Rightarrow> string \<Rightarrow> pstate \<Rightarrow> stmt pres" where
  "parse_var_decl_with_qualifier pe extra p =
     (let tok = cur p;
          (hint, p) = type_hint_loop (trim_space extra) (adv p);
          (name, p) = expect TkIdent p;
          (_, p) = expect TkEq p
      in do {
        (val, p) \<leftarrow> pe 0 p;
        Some (VarDecl tok (literal name) hint (tok_type tok = KwVarip) (tok_type tok = KwVar) val, p)
      })"

definition parse_var_decl :: "expr_parser \<Rightarrow> pstate \<Rightarrow> stmt pres" where
  "parse_var_decl pe p = parse_var_decl_with_qualifier pe [] p"

definition parse_typed_var_decl :: "expr_parser \<Rightarrow> string \<Rightarrow> pstate \<Rightarrow> stmt pres" where
  "parse_typed_var_decl pe leading p =
     (let tok = cur p;
          (hint, p) = type_hint_loop (trim_space leading) p;
          (name, p) = expect TkIdent p;
          (_, p) = expect TkEq p
      in do {
        (val, p) \<leftarrow> pe 0 p;
        Some (VarDecl tok (literal name) hint False False val, p)
      })"

definition parse_pine_arrow_fn_decl ::
  "expr_parser \<Rightarrow> stmt_parser \<Rightarrow> nat \<Rightarrow> pstate \<Rightarrow> stmt pres" where
  "parse_pine_arrow_fn_decl pe ps n p =
     (let tok = cur p;
          (name, p) = expect TkIdent p;
          (_, p) = expect TkLParen p
      in do {
        (params, p) \<leftarrow> parse_fn_params pe n p;
        (body, p) \<leftarrow> parse_arrow_body pe ps n tok (snd (expect TkArrow (snd (expect TkRParen p))));
        Some (FnDecl tok (literal name) params body, p)
      })"

definition parse_typed_decl_or_fn_decl ::
  "expr_parser \<Rightarrow> stmt_parser \<Rightarrow> nat \<Rightarrow> pstate \<Rightarrow> stmt pres" where
  "parse_typed_decl_or_fn_decl pe ps n p =
     (if is_typed_pine_arrow_fn_decl p
      then parse_pine_arrow_fn_decl pe ps n (skip_qualifiers p)
      else parse_typed_var_decl pe [] p)"

text \<open>The switch of \<open>parseQualifiedDeclOrStatement\<close>, after the qualifier (and \<open>method\<close>).\<close>

definition parse_qualified_switch ::
  "expr_parser \<Rightarrow> stmt_parser \<Rightarrow> nat \<Rightarrow> token \<Rightarrow> pstate \<Rightarrow> stmt pres" where
  "parse_qualified_switch pe ps n qualifier p =
     (let fn_like = tok_type qualifier = KwMethod \<or> tok_type qualifier = KwExport
      in if cur_type p = KwVar \<or> cur_type p = KwVarip
         then parse_var_decl_with_qualifier pe (literal qualifier) p
         else if is_type_qualifier (cur_type p)
         then (if fn_like then parse_typed_decl_or_fn_decl pe ps n p
               else parse_typed_var_decl pe (literal qualifier) p)
         else if cur_type p = TkIdent \<and> fn_like then parse_pine_arrow_fn_decl pe ps n p
         else if cur_type p = TkIdent \<and> tok_type (peek_raw p) = TkEq
         then do {
           (val, q) \<leftarrow> pe 0 (adv (adv p));
           Some (VarDecl qualifier (literal (cur p)) (literal qualifier) False False val, q)
         }
         else Some (ExprStmt (IdentExpr qualifier (literal qualifier)), p))"

definition parse_qualified_decl_or_statement ::
  "expr_parser \<Rightarrow> stmt_parser \<Rightarrow> nat \<Rightarrow> pstate \<Rightarrow> stmt pres" where
  "parse_qualified_decl_or_statement pe ps n p =
     (let qualifier = cur p; p = adv p
      in if tok_type qualifier = KwExport \<and> cur_type p = KwMethod
         then let p = adv p
              in if cur_type p = TkIdent then parse_pine_arrow_fn_decl pe ps n p
                 else if is_type_qualifier (cur_type p)
                 then parse_typed_decl_or_fn_decl pe ps n p
                 else parse_qualified_switch pe ps n qualifier p
         else parse_qualified_switch pe ps n qualifier p)"

section \<open>Control flow\<close>

fun else_loop ::
  "expr_parser \<Rightarrow> stmt_parser \<Rightarrow> nat \<Rightarrow> token \<Rightarrow> bool \<Rightarrow> nat \<Rightarrow> else_if list \<Rightarrow> pstate
     \<Rightarrow> (else_if list \<times> block option) pres" where
  "else_loop pe ps m tok brace 0 eifs p = None"
| "else_loop pe ps m tok brace (Suc n) eifs p =
     (if cur_type p = KwElse \<and> (brace \<or> tok_col (cur p) = tok_col tok)
      then let else_tok = cur p; p = adv p
           in if cur_type p = KwIf
              then do {
                (cond, p) \<leftarrow> pe 0 (adv p);
                (body, p) \<leftarrow> parse_block_after ps m else_tok p;
                else_loop pe ps m tok brace n (eifs @ [ElseIf else_tok cond body]) p
              }
              else do {
                (body, p) \<leftarrow> parse_block_after ps m else_tok p;
                Some ((eifs, Some body), p)
              }
      else Some ((eifs, None), p))"

definition parse_if_stmt :: "expr_parser \<Rightarrow> stmt_parser \<Rightarrow> nat \<Rightarrow> pstate \<Rightarrow> stmt pres" where
  "parse_if_stmt pe ps n p =
     (let (tok, p) = expect KwIf p
      in do {
        (cond, p) \<leftarrow> pe 0 p;
        let brace = (cur_type p = TkLBrace);
        (body, p) \<leftarrow> parse_block_after ps n tok p;
        ((eifs, els), p) \<leftarrow> else_loop pe ps n tok brace n [] p;
        Some (IfStmt tok cond body eifs els, p)
      })"

definition parse_for_in :: "expr_parser \<Rightarrow> stmt_parser \<Rightarrow> nat \<Rightarrow> token \<Rightarrow> pstate \<Rightarrow> stmt pres" where
  "parse_for_in pe ps n tok p =
     (let name = cur p
      in do {
        (coll, p) \<leftarrow> pe 0 (snd (expect KwIn (adv p)));
        (body, p) \<leftarrow> parse_block_after ps n tok p;
        Some (ForInStmt tok (literal name) coll body, p)
      })"

definition parse_for_stmt :: "expr_parser \<Rightarrow> stmt_parser \<Rightarrow> nat \<Rightarrow> pstate \<Rightarrow> stmt pres" where
  "parse_for_stmt pe ps n p =
     (let (tok, p) = expect KwFor p
      in if cur_type p = TkIdent \<and> tok_type (peek p) = KwIn
         then parse_for_in pe ps n tok p
         else let (name, p) = expect TkIdent p
              in do {
                (start, p) \<leftarrow> pe 0 (snd (expect TkEq p));
                (end_expr, p) \<leftarrow> pe 0 (snd (expect KwTo p));
                let (has_step, p) = match_tok KwBy p;
                (step, p) \<leftarrow> (if has_step then map_option (\<lambda>(e, q). (Some e, q)) (pe 0 p)
                            else Some (None, p));
                (body, p) \<leftarrow> parse_block_after ps n tok p;
                Some (ForStmt tok (literal name) start end_expr step body, p)
              })"

definition parse_while_stmt :: "expr_parser \<Rightarrow> stmt_parser \<Rightarrow> nat \<Rightarrow> pstate \<Rightarrow> stmt pres" where
  "parse_while_stmt pe ps n p =
     (let (tok, p) = expect KwWhile p
      in do {
        (cond, p) \<leftarrow> pe 0 p;
        (body, p) \<leftarrow> parse_block_after ps n tok p;
        Some (WhileStmt tok cond body, p)
      })"

fun switch_loop ::
  "expr_parser \<Rightarrow> stmt_parser \<Rightarrow> nat \<Rightarrow> nat \<Rightarrow> switch_case list \<Rightarrow> block option \<Rightarrow> pstate
     \<Rightarrow> (switch_case list \<times> block option) pres" where
  "switch_loop pe ps m 0 cases def p = None"
| "switch_loop pe ps m (Suc n) cases def p =
     (if cur_type p = TkEOF \<or> cur_type p = TkRBrace then Some ((cases, def), p)
      else let p = skip_newlines p; case_tok = cur p
           in if cur_type p = TkEOF then Some ((cases, def), p)
              else if (cur_type p = TkIdent \<and> literal (cur p) = ''default'') \<or> cur_type p = KwElse
              then do {
                (body, p) \<leftarrow> parse_block_after ps m case_tok (snd (expect TkArrow (adv p)));
                switch_loop pe ps m n cases (Some body) p
              }
              else do {
                (val, p) \<leftarrow> pe 0 p;
                (body, p) \<leftarrow> parse_block_after ps m case_tok (snd (expect TkArrow p));
                switch_loop pe ps m n (cases @ [SwitchCase val body]) def p
              })"

definition parse_switch_stmt :: "expr_parser \<Rightarrow> stmt_parser \<Rightarrow> nat \<Rightarrow> pstate \<Rightarrow> stmt pres" where
  "parse_switch_stmt pe ps n p =
     (let (tok, p) = expect KwSwitch p
      in do {
        (tag, p) \<leftarrow> (if cur_type p \<noteq> TkNewline \<and> cur_type p \<noteq> TkLBrace
                   then map_option (\<lambda>(e, q). (Some e, q)) (pe 0 p)
                   else Some (None, p));
        ((cases, def), p) \<leftarrow> switch_loop pe ps n n [] None (skip_newlines p);
        Some (SwitchStmt tok tag cases def, p)
      })"

definition parse_fn_decl :: "expr_parser \<Rightarrow> stmt_parser \<Rightarrow> nat \<Rightarrow> pstate \<Rightarrow> stmt pres" where
  "parse_fn_decl pe ps n p =
     (let (tok, p) = expect KwFn p;
          (name, p) = expect TkIdent p;
          (_, p) = expect TkLParen p
      in do {
        (params, p) \<leftarrow> parse_fn_params pe n p;
        (body, p) \<leftarrow> parse_block_after ps n tok (snd (expect TkRParen p));
        Some (FnDecl tok (literal name) params body, p)
      })"

definition parse_return_stmt :: "expr_parser \<Rightarrow> pstate \<Rightarrow> stmt pres" where
  "parse_return_stmt pe p =
     (let (tok, p) = expect KwReturn p
      in do {
        (val, p) \<leftarrow> (if cur_type p \<noteq> TkNewline \<and> cur_type p \<noteq> TkEOF \<and> cur_type p \<noteq> TkRBrace
                   then map_option (\<lambda>(e, q). (Some e, q)) (pe 0 p)
                   else Some (None, p));
        Some (ReturnStmt tok val, p)
      })"

definition parse_import_stmt :: "pstate \<Rightarrow> stmt \<times> pstate" where
  "parse_import_stmt p =
     (let (tok, p) = expect KwImport p; (path, p) = expect TkString p
      in (ImportStmt tok (literal path), p))"

text \<open>
  The loop that reads the names of a tuple assignment. It moves only past identifiers and
  commas: on any other token before the closing bracket it never ends.
\<close>

fun tuple_names_loop :: "nat \<Rightarrow> string list \<Rightarrow> pstate \<Rightarrow> string list pres" where
  "tuple_names_loop 0 names p = None"
| "tuple_names_loop (Suc n) names p =
     (if cur_type p = TkRBracket \<or> cur_type p = TkEOF then Some (names, p)
      else let (name, p) = expect TkIdent p; (_, p) = match_tok TkComma p
           in tuple_names_loop n (names @ [literal name]) p)"

definition parse_tuple_assign :: "expr_parser \<Rightarrow> nat \<Rightarrow> pstate \<Rightarrow> stmt pres" where
  "parse_tuple_assign pe n p =
     (let (tok, p) = expect TkLBracket p
      in do {
        (names, p) \<leftarrow> tuple_names_loop n [] p;
        (val, p) \<leftarrow> pe 0 (snd (expect TkEq (snd (expect TkRBracket p))));
        Some (TupleAssign tok names val, p)
      })"

section \<open>Statements\<close>

definition is_assign_op :: "token_type \<Rightarrow> bool" where
  "is_assign_op tt =
     (tt \<in> {TkColonEq, TkPlusEq, TkMinusEq, TkStarEq, TkSlashEq, TkPercentEq})"

definition parse_expr_or_index_assign :: "expr_parser \<Rightarrow> pstate \<Rightarrow> stmt pres" where
  "parse_expr_or_index_assign pe p =
     do {
       (e, p) \<leftarrow> pe 0 p;
       (case e of
          IndexExpr tok left idx \<Rightarrow>
            if cur_type p = TkEq
            then do {
              (val, p) \<leftarrow> pe 0 (adv p);
              Some (IndexAssignStmt tok left idx val, p)
            }
            else Some (ExprStmt e, p)
        | _ \<Rightarrow> Some (ExprStmt e, p))
     }"

definition parse_expr_or_assign_stmt :: "expr_parser \<Rightarrow> pstate \<Rightarrow> stmt pres" where
  "parse_expr_or_assign_stmt pe p =
     (let tok = cur p; op = peek_raw p; next = tok_type op
      in if cur_type p = TkIdent \<and> next = TkEq
         then do {
           (val, p) \<leftarrow> pe 0 (adv (adv p));
           Some (VarDecl tok (literal tok) [] False False val, p)
         }
         else if cur_type p = TkIdent \<and> is_assign_op next
         then do {
           (val, p) \<leftarrow> pe 0 (adv (adv p));
           Some (AssignStmt tok (literal tok) next val, p)
         }
         else if cur_type p = TkIdent \<and> (next = TkPlusPlus \<or> next = TkMinusMinus)
         then Some (AssignStmt tok (literal tok) next (NumberLit op 1), adv (adv p))
         else parse_expr_or_index_assign pe p)"

definition parse_statement_body ::
  "expr_parser \<Rightarrow> stmt_parser \<Rightarrow> nat \<Rightarrow> pstate \<Rightarrow> stmt pres" where
  "parse_statement_body pe ps n p =
     (let t = cur_type p
      in if t \<in> {KwStrategy, KwIndicator, KwLibrary}
         then (if tok_type (peek_raw p) = TkLParen then parse_strategy_decl pe n p
               else parse_expr_or_assign_stmt pe p)
         else if t = KwInput then parse_input_decl pe p
         else if t \<in> {KwConst, KwExport, KwMethod} then parse_qualified_decl_or_statement pe ps n p
         else if t = KwVar \<or> t = KwVarip then parse_var_decl pe p
         else if is_type_qualifier t then parse_typed_decl_or_fn_decl pe ps n p
         else if t = KwIf then parse_if_stmt pe ps n p
         else if t = KwFor then parse_for_stmt pe ps n p
         else if t = KwWhile then parse_while_stmt pe ps n p
         else if t = KwSwitch then parse_switch_stmt pe ps n p
         else if t = KwFn then parse_fn_decl pe ps n p
         else if t = KwReturn then parse_return_stmt pe p
         else if t = KwBreak then Some (BreakStmt (cur p), adv p)
         else if t = KwContinue then Some (ContinueStmt (cur p), adv p)
         else if t = KwImport then Some (parse_import_stmt p)
         else if t = TkLBracket
         then (if is_tuple_assign p then parse_tuple_assign pe n p
               else parse_expr_or_assign_stmt pe p)
         else if t = TkIdent
         then (if is_pine_arrow_fn_decl p then parse_pine_arrow_fn_decl pe ps n p
               else parse_expr_or_assign_stmt pe p)
         else parse_expr_or_assign_stmt pe p)"

section \<open>Expressions\<close>

definition parse_paren_or_lambda :: "expr_parser \<Rightarrow> nat \<Rightarrow> pstate \<Rightarrow> expr pres" where
  "parse_paren_or_lambda pe n p =
     (let tok = cur p; p = adv p
      in if cur_type p = TkRParen
         then let p = adv p
              in if cur_type p = TkArrow
                 then do {
                   (body, p) \<leftarrow> pe 0 (adv p);
                   Some (LambdaExpr tok [] body, p)
                 }
                 else Some (NaLit tok, p)
         else if is_lambda_params p
         then do {
           (params, p) \<leftarrow> parse_fn_params pe n p;
           (body, p) \<leftarrow> pe 0 (snd (expect TkArrow (snd (expect TkRParen p))));
           Some (LambdaExpr tok params body, p)
         }
         else do {
           (e, p) \<leftarrow> pe 0 p;
           Some (e, snd (expect TkRParen p))
         })"

fun array_loop :: "expr_parser \<Rightarrow> nat \<Rightarrow> expr list \<Rightarrow> pstate \<Rightarrow> expr list pres" where
  "array_loop pe 0 elems p = None"
| "array_loop pe (Suc n) elems p =
     (if cur_type p = TkRBracket \<or> cur_type p = TkEOF then Some (elems, p)
      else do {
        (e, p) \<leftarrow> pe 0 p;
        let elems = elems @ [e];
        let (more, p) = match_tok TkComma p;
        if more then array_loop pe n elems p else Some (elems, p)
      })"

definition parse_array_lit :: "expr_parser \<Rightarrow> nat \<Rightarrow> pstate \<Rightarrow> expr pres" where
  "parse_array_lit pe n p =
     (let tok = cur p
      in do {
        (elems, p) \<leftarrow> array_loop pe n [] (adv p);
        Some (ArrayLit tok elems, snd (expect TkRBracket p))
      })"

definition parse_if_expr :: "expr_parser \<Rightarrow> stmt_parser \<Rightarrow> nat \<Rightarrow> pstate \<Rightarrow> expr pres" where
  "parse_if_expr pe ps n p =
     do {
       (s, p) \<leftarrow> parse_if_stmt pe ps n p;
       Some (IdentExpr (stmt_pos s) ''__if_expr__'', p)
     }"

definition is_namespace_keyword :: "token_type \<Rightarrow> bool" where
  "is_namespace_keyword tt =
     (tt \<in> {KwStrategy, KwInput, KwString, KwInt, KwFloat, KwBool, KwColor, KwSeries, KwSimple,
            KwConst})"

definition parse_prefix :: "expr_parser \<Rightarrow> stmt_parser \<Rightarrow> nat \<Rightarrow> pstate \<Rightarrow> expr pres" where
  "parse_prefix pe ps n p =
     (let tok = cur p; t = tok_type tok
      in if t = TkInt \<or> t = TkFloat then Some (NumberLit tok (parse_float (literal tok)), adv p)
         else if t = TkString then Some (StringLit tok (literal tok), adv p)
         else if t = TkTrue then Some (BoolLit tok True, adv p)
         else if t = TkFalse then Some (BoolLit tok False, adv p)
         else if t = TkNa
         then (if tok_type (peek_raw p) = TkLParen then Some (IdentExpr tok (literal tok), adv p)
               else Some (NaLit tok, adv p))
         else if t = TkIdent \<or> is_namespace_keyword t
         then Some (IdentExpr tok (literal tok), adv p)
         else if t = TkMinus \<or> t = TkNot
         then do {
           (operand, p) \<leftarrow> pe prec_unary (adv p);
           Some (UnaryExpr tok t operand, p)
         }
         else if t = TkLParen then parse_paren_or_lambda pe n p
         else if t = TkLBracket then parse_array_lit pe n p
         else if t = KwIf then parse_if_expr pe ps n p
         else Some (NaLit tok, errorf (UnexpectedToken tok) (adv p)))"

definition parse_call_suffix :: "expr_parser \<Rightarrow> nat \<Rightarrow> expr \<Rightarrow> pstate \<Rightarrow> expr pres" where
  "parse_call_suffix pe n callee p =
     (let tok = cur p
      in do {
        (args, p) \<leftarrow> parse_call_args pe n (adv p);
        Some (CallExpr tok callee args, snd (expect TkRParen p))
      })"

definition parse_index_suffix :: "expr_parser \<Rightarrow> expr \<Rightarrow> pstate \<Rightarrow> expr pres" where
  "parse_index_suffix pe left p =
     (let tok = cur p
      in do {
        (idx, p) \<leftarrow> pe 0 (adv p);
        Some (IndexExpr tok left idx, snd (expect TkRBracket p))
      })"

definition parse_dot_suffix :: "expr \<Rightarrow> pstate \<Rightarrow> expr \<times> pstate" where
  "parse_dot_suffix left p =
     (let tok = cur p; p = adv p; field = cur p
      in if tok_type field \<noteq> TkIdent \<and> \<not> is_keyword (tok_type field)
         then (DotExpr tok left [], errorf (ExpectedField field) p)
         else (DotExpr tok left (literal field), adv p))"

definition parse_ternary_suffix :: "expr_parser \<Rightarrow> expr \<Rightarrow> pstate \<Rightarrow> expr pres" where
  "parse_ternary_suffix pe cond p =
     (let tok = cur p
      in do {
        (then_expr, p) \<leftarrow> pe 0 (adv p);
        (else_expr, p) \<leftarrow> pe 0 (snd (expect TkColon p));
        Some (TernaryExpr tok cond then_expr else_expr, p)
      })"

text \<open>The loop of \<open>parseExpr\<close>: infix operators that bind tighter than \<open>min_prec\<close>, and suffixes.\<close>

fun expr_loop :: "expr_parser \<Rightarrow> nat \<Rightarrow> nat \<Rightarrow> nat \<Rightarrow> expr \<Rightarrow> pstate \<Rightarrow> expr pres" where
  "expr_loop pe m 0 min_prec left p = None"
| "expr_loop pe m (Suc n) min_prec left p =
     (let t = cur_type p; prec = infix_prec t
      in if prec \<le> min_prec
         then (if t = TkLParen \<and> min_prec < prec_call
               then do {
                 (l, p) \<leftarrow> parse_call_suffix pe m left p;
                 expr_loop pe m n min_prec l p
               }
               else if t = TkLBracket \<and> min_prec < prec_call
               then do {
                 (l, p) \<leftarrow> parse_index_suffix pe left p;
                 expr_loop pe m n min_prec l p
               }
               else if t = TkDot \<and> min_prec < prec_call
               then (let (l, p) = parse_dot_suffix left p in expr_loop pe m n min_prec l p)
               else if t = TkQuestion \<and> min_prec < prec_or
               then do {
                 (l, p) \<leftarrow> parse_ternary_suffix pe left p;
                 expr_loop pe m n min_prec l p
               }
               else Some (left, p))
         else do {
           (right, p') \<leftarrow> pe prec (adv p);
           expr_loop pe m n min_prec (BinaryExpr (cur p) left t right) p'
         })"

definition parse_expr_body ::
  "expr_parser \<Rightarrow> stmt_parser \<Rightarrow> nat \<Rightarrow> nat \<Rightarrow> pstate \<Rightarrow> expr pres" where
  "parse_expr_body pe ps n min_prec p =
     do {
       (left, p) \<leftarrow> parse_prefix pe ps n p;
       expr_loop pe n n min_prec left p
     }"

section \<open>The two entry points and the program\<close>

fun parse_expr :: "nat \<Rightarrow> expr_parser" and parse_stmt :: "nat \<Rightarrow> stmt_parser" where
  "parse_expr 0 = (\<lambda>min_prec p. None)"
| "parse_expr (Suc n) = parse_expr_body (parse_expr n) (parse_stmt n) n"
| "parse_stmt 0 = (\<lambda>p. None)"
| "parse_stmt (Suc n) = parse_statement_body (parse_expr n) (parse_stmt n) n"

fun program_loop :: "stmt_parser \<Rightarrow> nat \<Rightarrow> stmt list \<Rightarrow> pstate \<Rightarrow> program pres" where
  "program_loop ps 0 stmts p = None"
| "program_loop ps (Suc n) stmts p =
     (if cur_type p = TkEOF then Some (Program stmts, p)
      else do {
        (s, p) \<leftarrow> ps p;
        let p = (if cur_type p \<noteq> TkEOF \<and> cur_type p \<noteq> TkRBrace
                 then (let (ok, q) = match_tok TkNewline p in if ok then q else skip_newlines q)
                 else p);
        program_loop ps n (stmts @ [s]) (skip_newlines p)
      })"

definition parse_program :: "nat \<Rightarrow> pstate \<Rightarrow> program pres" where
  "parse_program n p = program_loop (parse_stmt n) n [] (skip_newlines p)"

text \<open>\<open>Parse\<close>: the program and the errors.\<close>

definition parse_source :: "nat \<Rightarrow> unicode \<Rightarrow> string \<Rightarrow> (program \<times> parse_error list) option" where
  "parse_source n u s =
     map_option (\<lambda>(prog, p). (prog, p_errors p)) (parse_program n (new_parser u s))"

end
