(* ===== verification/Dsl_Parser_Laws.thy ===== *)
theory Dsl_Parser_Laws
  imports Dsl_Parser "HOL-Library.Sublist"
begin

text \<open>
  What every method of the parser does to the parser's state, proved once for all of them. The
  locale \<open>parser_calls\<close> is the contract the methods rely on when they call back into the
  expression and the statement parser: a call that returns has moved on in an unchanged token
  list and has only added errors; and, when the flag \<open>t\<close> is set, a call within its budget
  returns. The methods are proved against the contract, and the two interpretations at the end
  discharge it for \<open>parse_expr\<close> and \<open>parse_stmt\<close>: with the flag unset (progress, for every input and
  fuel) and with the flag set (termination).
\<close>

section \<open>Moving on\<close>

definition step :: "pstate \<Rightarrow> pstate \<Rightarrow> bool" where
  "step p q = (p_tokens q = p_tokens p \<and> p_pos p \<le> p_pos q \<and> prefix (p_errors p) (p_errors q))"

text \<open>Strictly, unless all tokens are consumed already.\<close>

definition step1 :: "pstate \<Rightarrow> pstate \<Rightarrow> bool" where
  "step1 p q = (step p q \<and> (p_pos p < length (p_tokens p) \<longrightarrow> p_pos p < p_pos q))"

lemma step_refl [simp, intro]: "step p p"
  by (simp add: step_def)

lemma step_trans: "step p q \<Longrightarrow> step q r \<Longrightarrow> step p r"
  by (auto simp: step_def intro: prefix_order.trans)

lemma step1_step: "step1 p q \<Longrightarrow> step p q"
  by (simp add: step1_def)

lemma step1_trans: "step1 p q \<Longrightarrow> step q r \<Longrightarrow> step1 p r"
  by (auto simp: step1_def step_def intro: prefix_order.trans)

lemma step_trans1: "step p q \<Longrightarrow> step1 q r \<Longrightarrow> step1 p r"
  by (auto simp: step1_def step_def intro: prefix_order.trans)

lemma adv_step: "step1 p (adv p)"
  by (simp add: step1_def step_def adv_def)

lemma errorf_step: "step p (errorf er p)"
  by (simp add: step_def errorf_def)

lemma expect_step: "step p (snd (expect tt p))"
  using adv_step [of p] errorf_step [of p] by (auto simp: expect_def Let_def step1_def)

lemma expect_step1: "cur_type p = tt \<Longrightarrow> step1 p (snd (expect tt p))"
  using adv_step [of p] by (simp add: expect_def Let_def)

lemma match_tok_step: "step p (snd (match_tok tt p))"
  using adv_step [of p] by (simp add: match_tok_def step1_def)

lemma skip_newlines_step: "step p (skip_newlines p)"
proof (induction p rule: skip_newlines.induct)
  case (1 p)
  then show ?case
    using adv_step [of p] by (subst skip_newlines.simps) (auto intro: step_trans step1_step)
qed

lemma skip_qualifiers_step: "step p (skip_qualifiers p)"
proof (induction p rule: skip_qualifiers.induct)
  case (1 p)
  then show ?case
    using adv_step [of p] by (subst skip_qualifiers.simps) (auto intro: step_trans step1_step)
qed

lemma skip_qualifiers_step1: "is_type_qualifier (cur_type p) \<Longrightarrow> step1 p (skip_qualifiers p)"
  using step1_trans [OF adv_step skip_qualifiers_step [of "adv p"]]
  by (subst skip_qualifiers.simps) simp

lemma type_hint_loop_step: "step p (snd (type_hint_loop h p))"
proof (induction h p rule: type_hint_loop.induct)
  case (1 h p)
  then show ?case
    using adv_step [of p] by (subst type_hint_loop.simps) (auto intro: step_trans step1_step)
qed

lemma type_hint_loop_step1: "is_type_qualifier (cur_type p) \<Longrightarrow> step1 p (snd (type_hint_loop h p))"
  using step1_trans [OF adv_step type_hint_loop_step [of "adv p"]]
  by (subst type_hint_loop.simps) simp

text \<open>The same facts as rules that peel the last operation off a chain.\<close>

lemma step_chain:
  "step p q \<Longrightarrow> step p (adv q)" "step p q \<Longrightarrow> step p (errorf er q)"
  "step p q \<Longrightarrow> step p (snd (expect tt q))" "step p q \<Longrightarrow> step p (snd (match_tok tt q))"
  "step p q \<Longrightarrow> step p (skip_newlines q)" "step p q \<Longrightarrow> step p (skip_qualifiers q)"
  "step p q \<Longrightarrow> step p (snd (type_hint_loop h q))"
  by (blast intro: step_trans adv_step step1_step errorf_step expect_step match_tok_step
      skip_newlines_step skip_qualifiers_step type_hint_loop_step)+

lemma step1_chain:
  "step p q \<Longrightarrow> step1 p (adv q)" "step1 p q \<Longrightarrow> step1 p (errorf er q)"
  "step1 p q \<Longrightarrow> step1 p (snd (expect tt q))" "step1 p q \<Longrightarrow> step1 p (snd (match_tok tt q))"
  "step1 p q \<Longrightarrow> step1 p (skip_newlines q)" "step1 p q \<Longrightarrow> step1 p (skip_qualifiers q)"
  "step1 p q \<Longrightarrow> step1 p (snd (type_hint_loop h q))"
  by (blast intro: step1_trans step_trans1 adv_step step1_step errorf_step expect_step match_tok_step
      skip_newlines_step skip_qualifiers_step type_hint_loop_step)+

lemma expect_here: "cur_type p = tt \<Longrightarrow> expect tt p = (cur p, adv p)"
  by (simp add: expect_def Let_def)

section \<open>Budgets\<close>

text \<open>
  With the flag set, a state fits a budget when it is over the given tokens and fewer tokens
  than the budget remain.
\<close>

definition fits :: "bool \<Rightarrow> token list \<Rightarrow> nat \<Rightarrow> pstate \<Rightarrow> bool" where
  "fits t toks k p = (t \<longrightarrow> p_tokens p = toks \<and> remaining p < k)"

lemma cur_not_eof: "cur_type p \<noteq> TkEOF \<Longrightarrow> p_pos p < length (p_tokens p)"
  by (auto simp: cur_def eof_token_def split: if_splits)

lemma fits_step: "fits t toks k p \<Longrightarrow> step p q \<Longrightarrow> fits t toks k q"
  by (auto simp: fits_def step_def remaining_def)

lemma fits_mono: "fits t toks k p \<Longrightarrow> (t \<Longrightarrow> k \<le> k') \<Longrightarrow> fits t toks k' p"
  by (auto simp: fits_def)

lemma fits_step1:
  "fits t toks (Suc k) p \<Longrightarrow> cur_type p \<noteq> TkEOF \<Longrightarrow> step1 p q \<Longrightarrow> fits t toks k q"
  using cur_not_eof [of p] by (auto simp: fits_def step_def step1_def remaining_def)

section \<open>Results\<close>

definition ok :: "bool \<Rightarrow> pstate \<Rightarrow> ('a \<times> pstate) option \<Rightarrow> bool" where
  "ok t p r = (case r of None \<Rightarrow> \<not> t | Some (_, q) \<Rightarrow> step p q)"

definition ok1 :: "bool \<Rightarrow> pstate \<Rightarrow> ('a \<times> pstate) option \<Rightarrow> bool" where
  "ok1 t p r = (case r of None \<Rightarrow> \<not> t | Some (_, q) \<Rightarrow> step1 p q)"

lemma ok_Some [intro]: "step p q \<Longrightarrow> ok t p (Some (x, q))"
  by (simp add: ok_def)

lemma ok1_Some [intro]: "step1 p q \<Longrightarrow> ok1 t p (Some (x, q))"
  by (simp add: ok1_def)

lemma ok1_ok: "ok1 t p r \<Longrightarrow> ok t p r"
  by (auto simp: ok_def ok1_def step1_step split: option.splits)

lemma ok_trans: "ok t q r \<Longrightarrow> step p q \<Longrightarrow> ok t p r"
  by (auto simp: ok_def split: option.splits intro: step_trans)

lemma ok1_trans: "ok1 t q r \<Longrightarrow> step p q \<Longrightarrow> ok1 t p r"
  by (auto simp: ok1_def split: option.splits intro: step_trans1)

lemma ok1_trans': "ok t q r \<Longrightarrow> step1 p q \<Longrightarrow> ok1 t p r"
  by (auto simp: ok_def ok1_def split: option.splits intro: step1_trans)

lemma ok_bind:
  assumes "ok t q r" "step p q" "\<And>x q'. step p q' \<Longrightarrow> step q q' \<Longrightarrow> ok t p (f (x, q'))"
  shows "ok t p (Option.bind r f)"
  using assms by (cases r) (auto simp: ok_def intro: step_trans)

lemma ok1_bind:
  assumes "ok t q r" "step1 p q" "\<And>x q'. step1 p q' \<Longrightarrow> ok1 t p (f (x, q'))"
  shows "ok1 t p (Option.bind r f)"
  using assms by (cases r) (auto simp: ok_def ok1_def intro: step1_trans)

lemma ok1_bind1:
  assumes "ok1 t q r" "step p q" "\<And>x q'. step1 p q' \<Longrightarrow> ok1 t p (f (x, q'))"
  shows "ok1 t p (Option.bind r f)"
  using assms by (cases r) (auto simp: ok1_def intro: step_trans1)

text \<open>A first call that makes progress lets the rest of a loop run on a smaller budget.\<close>

lemma ok_bind1:
  assumes "ok1 t q r" "step p q" "\<And>x q'. step p q' \<Longrightarrow> step1 q q' \<Longrightarrow> ok t p (f (x, q'))"
  shows "ok t p (Option.bind r f)"
  using assms step_trans [OF assms(2) step1_step]
  by (cases r) (auto simp: ok_def ok1_def)

lemma ok_map: "ok t p (map_option (\<lambda>(x, q). (g x, q)) r) = ok t p r"
  by (cases r) (auto simp: ok_def)

lemma ok_map_fst: "ok t p (map_option (\<lambda>r. (g (fst r), snd r)) r) = ok t p r"
  by (cases r) (auto simp: ok_def)

lemma ok1_map: "ok1 t p (map_option (\<lambda>(x, q). (g x, q)) r) = ok1 t p r"
  by (cases r) (auto simp: ok1_def)

lemma ok_if [intro!]: "(b \<Longrightarrow> ok t p x) \<Longrightarrow> (\<not> b \<Longrightarrow> ok t p y) \<Longrightarrow> ok t p (if b then x else y)"
  by simp

lemma ok1_if [intro!]: "(b \<Longrightarrow> ok1 t p x) \<Longrightarrow> (\<not> b \<Longrightarrow> ok1 t p y) \<Longrightarrow> ok1 t p (if b then x else y)"
  by simp

section \<open>Tuple assignments that never end\<close>

text \<open>
  A statement that \<open>is_tuple_assign\<close> takes for a tuple assignment has a bracket, up to the first
  closing one, with something other than identifiers and commas in it.
\<close>

definition name_or_comma :: "token \<Rightarrow> bool" where
  "name_or_comma t = (tok_type t = TkIdent \<or> tok_type t = TkComma)"

definition not_bracket_end :: "token \<Rightarrow> bool" where
  "not_bracket_end t = (tok_type t \<noteq> TkRBracket \<and> tok_type t \<noteq> TkEOF)"

definition names_only :: "pstate \<Rightarrow> bool" where
  "names_only p = list_all name_or_comma (takeWhile not_bracket_end (drop (p_pos p) (p_tokens p)))"

definition stuck_tuple :: "pstate \<Rightarrow> bool" where
  "stuck_tuple p = (is_tuple_assign p \<and> \<not> names_only (adv p))"

definition no_stuck :: "token list \<Rightarrow> bool" where
  "no_stuck toks = list_all (\<lambda>i. \<not> stuck_tuple \<lparr>p_tokens = toks, p_pos = i, p_errors = []\<rparr>)
     [0..<length toks]"

lemma cur_errors [simp]: "cur (p\<lparr>p_errors := es\<rparr>) = cur p"
  by (simp add: cur_def)

lemma cur_errorf [simp]: "cur (errorf er p) = cur p"
  by (simp add: errorf_def)

lemma adv_errors: "adv (p\<lparr>p_errors := es\<rparr>) = (adv p)\<lparr>p_errors := es\<rparr>"
  by (simp add: adv_def)

lemma tuple_bracket_loop_errors:
  "tuple_bracket_loop d (p\<lparr>p_errors := es\<rparr>) = (tuple_bracket_loop d p)\<lparr>p_errors := es\<rparr>"
proof (induction d p rule: tuple_bracket_loop.induct)
  case (1 d p)
  show ?case
    by (subst (1 2) tuple_bracket_loop.simps) (simp add: "1.IH" [symmetric] adv_errors)
qed

lemma stuck_tuple_errors: "stuck_tuple (p\<lparr>p_errors := es\<rparr>) = stuck_tuple p"
  by (simp add: stuck_tuple_def is_tuple_assign_def adv_errors tuple_bracket_loop_errors
      names_only_def)

lemma no_stuckD:
  assumes "no_stuck (p_tokens p)" "is_tuple_assign p"
  shows "names_only (adv p)"
proof -
  have "p_pos p < length (p_tokens p)"
    using assms(2) cur_not_eof [of p] by (auto simp: is_tuple_assign_def split: if_splits)
  then have "\<not> stuck_tuple \<lparr>p_tokens = p_tokens p, p_pos = p_pos p, p_errors = []\<rparr>"
    using assms(1) by (simp add: no_stuck_def list_all_iff)
  moreover have "\<lparr>p_tokens = p_tokens p, p_pos = p_pos p, p_errors = []\<rparr> = p\<lparr>p_errors := []\<rparr>"
    by (cases p) simp
  ultimately have "\<not> stuck_tuple p" using stuck_tuple_errors [where p = p and es = "[]"] by simp
  then show ?thesis using assms(2) by (simp add: stuck_tuple_def)
qed

text \<open>The name loop makes progress as long as the bracket holds only names and commas.\<close>

lemma names_only_adv: "names_only p \<Longrightarrow> not_bracket_end (cur p) \<Longrightarrow> names_only (adv p)"
  by (cases "p_pos p < length (p_tokens p)")
    (simp_all add: names_only_def adv_def cur_def nth_drop_Cons)

lemma names_only_cur:
  "names_only p \<Longrightarrow> not_bracket_end (cur p) \<Longrightarrow> name_or_comma (cur p)"
  by (cases "p_pos p < length (p_tokens p)")
    (simp_all add: names_only_def cur_def nth_drop_Cons not_bracket_end_def eof_token_def)

lemma tuple_names_loop_ok:
  "(t \<longrightarrow> names_only p) \<Longrightarrow> fits t toks n p \<Longrightarrow> ok t p (tuple_names_loop n names p)"
proof (induction n arbitrary: names p)
  case 0
  then show ?case by (simp add: ok_def fits_def)
next
  case (Suc n)
  show ?case
  proof (cases "cur_type p = TkRBracket \<or> cur_type p = TkEOF")
    case True
    then show ?thesis by auto
  next
    case False
    define q where "q = snd (match_tok TkComma (snd (expect TkIdent p)))"
    have run: "tuple_names_loop (Suc n) names p
        = tuple_names_loop n (names @ [literal (fst (expect TkIdent p))]) q"
      using False by (simp add: q_def case_prod_beta)
    have st: "step p q" unfolding q_def by (intro step_chain step_refl)
    show ?thesis
    proof (cases t)
      case True
      have "\<exists>q'. q = q' \<and> step1 p q' \<and> names_only q'"
      proof (cases "cur_type p = TkIdent")
        case ident: True
        have "names_only (adv p)"
          using names_only_adv [of p] Suc.prems(1) True False by (simp add: not_bracket_end_def)
        moreover have "q = adv p \<or> (q = adv (adv p) \<and> cur_type (adv p) = TkComma)"
          using ident by (auto simp: q_def expect_def match_tok_def Let_def)
        ultimately show ?thesis
          using names_only_adv [of "adv p"] adv_step [of p] adv_step [of "adv p"]
          by (auto simp: not_bracket_end_def intro: step1_trans step1_step)
      next
        case no: False
        then have "cur_type p = TkComma"
          using names_only_cur [of p] Suc.prems(1) True False
          by (auto simp: not_bracket_end_def name_or_comma_def)
        then have "q = adv (errorf (Expected TkIdent (cur p)) p)"
          by (simp add: q_def expect_def match_tok_def Let_def)
        moreover have "names_only (adv (errorf (Expected TkIdent (cur p)) p))"
          using names_only_adv [of p] Suc.prems(1) True False
          by (simp add: not_bracket_end_def errorf_def adv_errors names_only_def)
        moreover have "step1 p (adv (errorf (Expected TkIdent (cur p)) p))"
          using step_trans1 [OF errorf_step adv_step] .
        ultimately show ?thesis by blast
      qed
      then have "names_only q" "fits t toks n q"
        using fits_step1 [OF Suc.prems(2)] False by blast+
      then show ?thesis unfolding run using Suc.IH ok_trans st by blast
    next
      case False
      then have "ok t q (tuple_names_loop n (names @ [literal (fst (expect TkIdent p))]) q)"
        using Suc.IH by (simp add: fits_def)
      then show ?thesis unfolding run using ok_trans st by blast
    qed
  qed
qed

section \<open>The contract of the two entry points\<close>

locale parser_calls =
  fixes t :: bool and toks :: "token list" and e s N :: nat
    and pe :: expr_parser and ps :: stmt_parser
  assumes budget: "s \<le> e" "e \<le> Suc s" "t \<Longrightarrow> s < N"
    and pe_ok: "fits t toks e p \<Longrightarrow> ok1 t p (pe k p)"
    and ps_ok: "fits t toks s p \<Longrightarrow> ok1 t p (ps p)"
    and tuples: "t \<Longrightarrow> no_stuck toks"
begin

lemma fits_e: "fits t toks s p \<Longrightarrow> fits t toks e p"
  using budget(1) by (auto intro: fits_mono)

lemma fits_N: "fits t toks (Suc s) p \<Longrightarrow> fits t toks N p"
  using budget(3) by (auto intro: fits_mono)

lemma fits_sN: "fits t toks s p \<Longrightarrow> fits t toks N p"
  using budget(3) by (auto intro: fits_mono)

lemma pe_ok0: "fits t toks e p \<Longrightarrow> ok t p (pe k p)"
  using pe_ok ok1_ok by blast

lemma ps_ok0: "fits t toks s p \<Longrightarrow> ok t p (ps p)"
  using ps_ok ok1_ok by blast

subsection \<open>Arguments and parameters\<close>

lemma parse_call_arg_ok: "fits t toks e p \<Longrightarrow> ok1 t p (parse_call_arg pe p)"
  unfolding parse_call_arg_def
  by (auto intro!: ok1_bind [OF pe_ok0] ok1_bind1 [OF pe_ok] step1_chain adv_step
      intro: fits_step step1_step)

lemma call_args_loop_ok:
  "fits t toks e p \<Longrightarrow> fits t toks n p \<Longrightarrow> ok t p (call_args_loop pe n args p)"
proof (induction n arbitrary: args p)
  case 0
  then show ?case by (simp add: ok_def fits_def)
next
  case (Suc n)
  let ?q = "skip_newlines p"
  have q: "step p ?q" by (rule skip_newlines_step)
  show ?case
  proof (cases "cur_type p = TkRParen \<or> cur_type p = TkEOF \<or> cur_type ?q = TkRParen")
    case True
    then show ?thesis using q by (auto simp: Let_def)
  next
    case False
    have next_fits: "fits t toks n r" if "step1 p r" for r
      using fits_step1 [OF Suc.prems(2) _ that] False by blast
    then show ?thesis
      using False
      by (auto simp: Let_def case_prod_beta
          intro!: ok_bind1 [OF parse_call_arg_ok q] fits_step [OF Suc.prems(1)] step_chain q
            ok_trans [OF Suc.IH] next_fits step1_chain intro: step_trans1 [OF q])
  qed
qed

lemma parse_call_args_ok: "fits t toks s p \<Longrightarrow> ok t p (parse_call_args pe N p)"
  unfolding parse_call_args_def by (intro call_args_loop_ok fits_e fits_sN)

lemma fn_params_loop_ok:
  "fits t toks e p \<Longrightarrow> fits t toks n p \<Longrightarrow> ok t p (fn_params_loop pe n params p)"
proof (induction n arbitrary: params p)
  case 0
  then show ?case by (simp add: ok_def fits_def)
next
  case (Suc n)
  show ?case
  proof (cases "cur_type p = TkRParen \<or> cur_type p = TkEOF")
    case True
    then show ?thesis by auto
  next
    case False
    have next_fits: "fits t toks n (adv r)" if "step p r" for r
      using fits_step1 [OF Suc.prems(2) _ step_trans1 [OF that adv_step]] False by blast
    let ?q = "snd (match_tok TkEq (snd (expect TkIdent (skip_qualifiers p))))"
    have q: "step p ?q" by (intro step_chain step_refl)
    have def_ok: "ok t ?q (if b then map_option (\<lambda>r. (Some (fst r), snd r)) (pe 0 ?q)
                        else Some (None, ?q))" for b
      using fits_step [OF Suc.prems(1) q] by (auto simp: ok_map_fst intro: pe_ok0)
    show ?thesis
      unfolding fn_params_loop.simps Let_def case_prod_beta if_not_P [OF False]
      by (rule ok_bind [OF def_ok q])
        (auto simp: match_tok_def intro!: ok_trans [OF Suc.IH] next_fits
          fits_step [OF Suc.prems(1)] step_chain)
  qed
qed

lemma parse_fn_params_ok: "fits t toks s p \<Longrightarrow> ok t p (parse_fn_params pe N p)"
  unfolding parse_fn_params_def by (intro fn_params_loop_ok fits_e fits_sN)

subsection \<open>Blocks\<close>

lemma brace_loop_ok:
  "fits t toks s p \<Longrightarrow> fits t toks n p \<Longrightarrow> ok t p (brace_loop ps n stmts p)"
proof (induction n arbitrary: stmts p)
  case 0
  then show ?case by (simp add: ok_def fits_def)
next
  case (Suc n)
  show ?case
  proof (cases "cur_type p = TkRBrace \<or> cur_type p = TkEOF")
    case True
    then show ?thesis by auto
  next
    case False
    have next_fits: "fits t toks n r" if "step1 p r" for r
      using fits_step1 [OF Suc.prems(2) _ that] False by blast
    show ?thesis
      using False
      by (auto simp: Let_def case_prod_beta intro!: ok_bind1 [OF ps_ok [OF Suc.prems(1)]]
          ok_trans [OF Suc.IH] next_fits fits_step [OF Suc.prems(1)] step_chain step1_chain)
  qed
qed

lemma indented_loop_ok:
  "fits t toks s p \<Longrightarrow> fits t toks n p \<Longrightarrow> ok t p (indented_loop ps ind n stmts p)"
proof (induction n arbitrary: stmts p)
  case 0
  then show ?case by (simp add: ok_def fits_def)
next
  case (Suc n)
  have next_fits: "fits t toks n r" if "step1 p r" "cur_type p \<noteq> TkEOF" for r
    using fits_step1 [OF Suc.prems(2) _ that(1)] that(2) by blast
  have nl: "skip_newlines p = skip_newlines (adv p)" if "cur_type p = TkNewline"
    using that by (subst skip_newlines.simps) simp
  show ?case
    by (auto simp: nl case_prod_beta intro!: ok_bind1 [OF ps_ok [OF Suc.prems(1)]]
        ok_trans [OF Suc.IH] next_fits fits_step [OF Suc.prems(1)] step_chain step1_chain adv_step)
qed

lemma parse_indented_block_ok: "fits t toks s p \<Longrightarrow> ok t p (parse_indented_block ps N tok p)"
  unfolding parse_indented_block_def Let_def
  by (auto intro!: step_chain ok_bind [OF indented_loop_ok] fits_sN)

lemma parse_block_after_ok: "fits t toks s p \<Longrightarrow> ok t p (parse_block_after ps N parent p)"
  unfolding parse_block_after_def Let_def
  by (auto intro!: step_chain ok_bind [OF brace_loop_ok] ok_bind [OF ps_ok0]
      ok_trans [OF parse_indented_block_ok] intro: fits_step fits_sN)

lemma parse_block_ok: "fits t toks s p \<Longrightarrow> ok t p (parse_block ps N p)"
  unfolding parse_block_def by (rule parse_block_after_ok)

lemma parse_arrow_body_ok: "fits t toks s p \<Longrightarrow> ok t p (parse_arrow_body pe ps N tok p)"
  unfolding parse_arrow_body_def
  by (auto intro!: step_chain ok_bind [OF pe_ok0] ok_bind [OF ps_ok0] parse_block_ok
      ok_trans [OF parse_indented_block_ok] intro: fits_step fits_e)

subsection \<open>Declarations\<close>

text \<open>
  The state after the first token of a construct fits the smaller budget; the expression parser
  and the blocks are called there.
\<close>

lemma fits_after:
  "fits t toks (Suc s) p \<Longrightarrow> cur_type p \<noteq> TkEOF \<Longrightarrow> step1 p q \<Longrightarrow> fits t toks s q"
  by (rule fits_step1)

lemma parse_strategy_decl_ok:
  assumes "fits t toks (Suc s) p" "cur_type p \<noteq> TkEOF"
  shows "ok1 t p (parse_strategy_decl pe N p)"
  unfolding parse_strategy_decl_def Let_def
  by (auto intro!: ok1_bind [OF parse_call_args_ok] step1_chain fits_after [OF assms])

lemma parse_input_decl_ok: "fits t toks e p \<Longrightarrow> ok1 t p (parse_input_decl pe p)"
  unfolding parse_input_decl_def Let_def by (auto intro!: ok1_bind1 [OF pe_ok])

lemma parse_var_decl_with_qualifier_ok:
  assumes "fits t toks e p"
  shows "ok1 t p (parse_var_decl_with_qualifier pe x p)"
  unfolding parse_var_decl_with_qualifier_def Let_def case_prod_beta
  by (auto intro!: ok1_bind [OF pe_ok0] step1_chain step_chain fits_step [OF assms])

lemma parse_var_decl_ok: "fits t toks e p \<Longrightarrow> ok1 t p (parse_var_decl pe p)"
  unfolding parse_var_decl_def by (rule parse_var_decl_with_qualifier_ok)

lemma parse_typed_var_decl_ok:
  assumes "fits t toks e p"
  shows "ok1 t p (parse_typed_var_decl pe x p)"
  unfolding parse_typed_var_decl_def Let_def case_prod_beta
  by (auto intro!: ok1_bind1 [OF pe_ok] step_chain fits_step [OF assms])

lemma parse_pine_arrow_fn_decl_ok:
  assumes "fits t toks s p"
  shows "ok t p (parse_pine_arrow_fn_decl pe ps N p)"
  unfolding parse_pine_arrow_fn_decl_def Let_def case_prod_beta
  by (auto intro!: ok_bind [OF parse_fn_params_ok] ok_bind [OF parse_arrow_body_ok]
      step_chain fits_step [OF assms])

lemma parse_pine_arrow_fn_decl_ok1:
  assumes "fits t toks (Suc s) p" "cur_type p = TkIdent"
  shows "ok1 t p (parse_pine_arrow_fn_decl pe ps N p)"
proof -
  have f: "fits t toks s q" if "step1 p q" for q using fits_after [OF assms(1) _ that] assms(2) by simp
  show ?thesis
    unfolding parse_pine_arrow_fn_decl_def Let_def case_prod_beta
    by (auto simp: expect_here [OF assms(2)] intro!: ok1_bind [OF parse_fn_params_ok]
        ok1_bind [OF parse_arrow_body_ok] step1_chain f)
qed

lemma parse_typed_decl_or_fn_decl_ok1:
  assumes "fits t toks (Suc s) p" "fits t toks e p" "is_type_qualifier (cur_type p)"
  shows "ok1 t p (parse_typed_decl_or_fn_decl pe ps N p)"
proof -
  have ne: "cur_type p \<noteq> TkEOF" using assms(3) by (auto simp: is_type_qualifier_def)
  note q = skip_qualifiers_step1 [OF assms(3)]
  show ?thesis
    unfolding parse_typed_decl_or_fn_decl_def
    using ok1_trans' [OF parse_pine_arrow_fn_decl_ok [OF fits_after [OF assms(1) ne q]] q]
      parse_typed_var_decl_ok [OF assms(2)]
    by simp
qed

lemma parse_typed_decl_or_fn_decl_ok:
  assumes "fits t toks s p"
  shows "ok t p (parse_typed_decl_or_fn_decl pe ps N p)"
  unfolding parse_typed_decl_or_fn_decl_def
  using ok_trans [OF parse_pine_arrow_fn_decl_ok [OF fits_step [OF assms skip_qualifiers_step]]
      skip_qualifiers_step] ok1_ok [OF parse_typed_var_decl_ok [OF fits_e [OF assms]]]
  by simp

lemma parse_qualified_switch_ok:
  assumes "fits t toks s p"
  shows "ok t p (parse_qualified_switch pe ps N qualifier p)"
proof -
  have "ok t p (Option.bind (pe 0 (adv (adv p)))
      (\<lambda>(val, q). Some (VarDecl qualifier (literal (cur p)) (literal qualifier) False False val, q)))"
    by (auto intro!: ok_bind [OF pe_ok0] step_chain fits_e fits_step [OF assms])
  then show ?thesis
    unfolding parse_qualified_switch_def Let_def
    using ok1_ok [OF parse_var_decl_with_qualifier_ok [OF fits_e [OF assms]]]
      ok1_ok [OF parse_typed_var_decl_ok [OF fits_e [OF assms]]]
      parse_typed_decl_or_fn_decl_ok [OF assms] parse_pine_arrow_fn_decl_ok [OF assms]
    by auto
qed

lemma parse_qualified_decl_or_statement_ok:
  assumes "fits t toks (Suc s) p" "cur_type p \<noteq> TkEOF"
  shows "ok1 t p (parse_qualified_decl_or_statement pe ps N p)"
proof -
  have one: "step1 p (adv p)" and two: "step1 p (adv (adv p))" by (intro step1_chain step_chain step_refl)+
  note f = fits_after [OF assms]
  show ?thesis
    unfolding parse_qualified_decl_or_statement_def Let_def
    using ok1_trans' [OF parse_pine_arrow_fn_decl_ok [OF f [OF two]] two]
      ok1_trans' [OF parse_typed_decl_or_fn_decl_ok [OF f [OF two]] two]
      ok1_trans' [OF parse_qualified_switch_ok [OF f [OF one]] one]
      ok1_trans' [OF parse_qualified_switch_ok [OF f [OF two]] two]
    by simp
qed

subsection \<open>Control flow\<close>

lemma else_loop_ok:
  "fits t toks s p \<Longrightarrow> fits t toks n p \<Longrightarrow> ok t p (else_loop pe ps N tok brace n eifs p)"
proof (induction n arbitrary: eifs p)
  case 0
  then show ?case by (simp add: ok_def fits_def)
next
  case (Suc n)
  note f = fits_step [OF Suc.prems(1)]
  have pe': "ok t (adv (adv p)) (pe 0 (adv (adv p)))"
    by (intro pe_ok0 fits_e f step_chain step_refl)
  have block: "ok t q (parse_block_after ps N tk q)" if "step1 p q" for q tk
    using parse_block_after_ok f step1_step that by blast
  have loop: "ok1 t p (else_loop pe ps N tok brace n x q)" if "step1 p q" "cur_type p = KwElse" for q x
    using ok1_trans' [OF Suc.IH that(1)] f [OF step1_step [OF that(1)]]
      fits_step1 [OF Suc.prems(2) _ that(1)] that(2) by simp
  have "ok1 t p (else_loop pe ps N tok brace (Suc n) eifs p)" if "cur_type p = KwElse"
      "brace \<or> tok_col (cur p) = tok_col tok"
    using that
    by (auto simp: Let_def intro!: ok1_bind [OF pe'] ok1_bind [OF block] loop step1_chain step_chain)
  then show ?case
    by (cases "cur_type p = KwElse \<and> (brace \<or> tok_col (cur p) = tok_col tok)")
      (auto intro: ok1_ok)
qed

lemma parse_if_stmt_ok:
  assumes "fits t toks (Suc s) p" "cur_type p = KwIf"
  shows "ok1 t p (parse_if_stmt pe ps N p)"
proof -
  have f: "fits t toks s q" if "step1 p q" for q using fits_after [OF assms(1) _ that] assms(2) by simp
  show ?thesis
    unfolding parse_if_stmt_def Let_def case_prod_beta
    by (auto simp: expect_here [OF assms(2)] intro!: ok1_bind [OF pe_ok0] ok1_bind [OF parse_block_after_ok] ok1_bind [OF else_loop_ok]
        step1_chain fits_e fits_sN f)
qed

lemma parse_for_in_ok:
  assumes "fits t toks s p"
  shows "ok t p (parse_for_in pe ps N tok p)"
  unfolding parse_for_in_def Let_def
  by (auto intro!: ok_bind [OF pe_ok0] ok_bind [OF parse_block_after_ok] step_chain fits_e
      fits_step [OF assms])

lemma parse_for_stmt_ok:
  assumes "fits t toks (Suc s) p" "cur_type p = KwFor"
  shows "ok1 t p (parse_for_stmt pe ps N p)"
proof -
  have f: "fits t toks s q" if "step1 p q" for q using fits_after [OF assms(1) _ that] assms(2) by simp
  have by_ok: "ok t q (if b then map_option (\<lambda>r. (Some (fst r), snd r)) (pe 0 q) else Some (None, q))"
    if "step1 p q" for q b
    using that by (auto simp: ok_map_fst intro!: pe_ok0 fits_e f)
  show ?thesis
    unfolding parse_for_stmt_def Let_def case_prod_beta expect_here [OF assms(2)] fst_conv snd_conv
    by (intro ok1_if ok1_trans' [OF parse_for_in_ok] ok1_bind [OF pe_ok0]
        ok1_bind [OF parse_block_after_ok] ok1_bind [OF by_ok] ok1_Some)
      (auto intro!: step1_chain fits_e f)
qed

lemma parse_while_stmt_ok:
  assumes "fits t toks (Suc s) p" "cur_type p = KwWhile"
  shows "ok1 t p (parse_while_stmt pe ps N p)"
proof -
  have f: "fits t toks s q" if "step1 p q" for q using fits_after [OF assms(1) _ that] assms(2) by simp
  show ?thesis
    unfolding parse_while_stmt_def Let_def case_prod_beta
    by (auto simp: expect_here [OF assms(2)] intro!: ok1_bind [OF pe_ok0] ok1_bind [OF parse_block_after_ok]
        step1_chain fits_e fits_sN f)
qed

lemma switch_loop_ok:
  "fits t toks s p \<Longrightarrow> fits t toks n p \<Longrightarrow> ok t p (switch_loop pe ps N n cases def p)"
proof (induction n arbitrary: cases def p)
  case 0
  then show ?case by (simp add: ok_def fits_def)
next
  case (Suc n)
  let ?q = "skip_newlines p"
  have q: "step p ?q" by (rule skip_newlines_step)
  note f = fits_step [OF Suc.prems(1)]
  have next_fits: "fits t toks n r" if "step1 p r" "cur_type p \<noteq> TkEOF" for r
    using fits_step1 [OF Suc.prems(2) _ that(1)] that(2) by blast
  have block: "ok t r (parse_block_after ps N tk r)" if "step1 p r" for r tk
    using parse_block_after_ok f [OF step1_step [OF that]] by blast
  have val: "ok1 t ?q (pe 0 ?q)" using pe_ok fits_e f [OF q] by blast
  have loop: "ok1 t p (switch_loop pe ps N n cs d r)" if "step1 p r" "cur_type p \<noteq> TkEOF" for cs d r
    using ok1_trans' [OF Suc.IH that(1)] f [OF step1_step [OF that(1)]] next_fits that by blast
  have "ok1 t p (switch_loop pe ps N (Suc n) cases def p)"
    if "cur_type p \<noteq> TkEOF" "cur_type p \<noteq> TkRBrace" "cur_type ?q \<noteq> TkEOF"
    using that
    by (auto simp: Let_def intro!: ok1_bind [OF block] ok1_bind1 [OF val] loop q
        step1_chain)
  then show ?case using q by (cases "cur_type p = TkEOF \<or> cur_type p = TkRBrace \<or> cur_type ?q = TkEOF")
      (auto simp: Let_def intro: ok1_ok)
qed

lemma parse_switch_stmt_ok:
  assumes "fits t toks (Suc s) p" "cur_type p = KwSwitch"
  shows "ok1 t p (parse_switch_stmt pe ps N p)"
proof -
  have f: "fits t toks s q" if "step1 p q" for q using fits_after [OF assms(1) _ that] assms(2) by simp
  have tag: "ok t q (if b then map_option (\<lambda>r. (Some (fst r), snd r)) (pe 0 q) else Some (None, q))"
    if "step1 p q" for q b
    using that by (auto simp: ok_map_fst intro!: pe_ok0 fits_e f)
  show ?thesis
    unfolding parse_switch_stmt_def Let_def case_prod_beta expect_here [OF assms(2)] fst_conv snd_conv
    by (intro ok1_bind [OF tag] ok1_bind [OF switch_loop_ok] ok1_Some)
      (auto intro!: step1_chain fits_e fits_sN f)
qed

lemma parse_fn_decl_ok:
  assumes "fits t toks (Suc s) p" "cur_type p = KwFn"
  shows "ok1 t p (parse_fn_decl pe ps N p)"
proof -
  have f: "fits t toks s q" if "step1 p q" for q using fits_after [OF assms(1) _ that] assms(2) by simp
  show ?thesis
    unfolding parse_fn_decl_def Let_def case_prod_beta
    by (auto simp: expect_here [OF assms(2)] intro!: ok1_bind [OF parse_fn_params_ok] ok1_bind [OF parse_block_after_ok]
        step1_chain fits_e fits_sN f)
qed

lemma parse_return_stmt_ok:
  assumes "fits t toks (Suc s) p" "cur_type p = KwReturn"
  shows "ok1 t p (parse_return_stmt pe p)"
proof -
  have f: "fits t toks s q" if "step1 p q" for q using fits_after [OF assms(1) _ that] assms(2) by simp
  have val: "ok t q (if b then map_option (\<lambda>r. (Some (fst r), snd r)) (pe 0 q) else Some (None, q))"
    if "step1 p q" for q b
    using that by (auto simp: ok_map_fst intro!: pe_ok0 fits_e f)
  show ?thesis
    unfolding parse_return_stmt_def Let_def case_prod_beta expect_here [OF assms(2)] fst_conv snd_conv
    by (intro ok1_bind [OF val] ok1_Some) (auto intro!: step1_chain)
qed

lemma parse_tuple_assign_ok:
  assumes "fits t toks (Suc s) p" "is_tuple_assign p"
  shows "ok1 t p (parse_tuple_assign pe N p)"
proof -
  have br: "cur_type p = TkLBracket" using assms(2) by (auto simp: is_tuple_assign_def split: if_splits)
  then have ex: "snd (expect TkLBracket p) = adv p" by (simp add: expect_def Let_def)
  have f: "fits t toks s q" if "step1 p q" for q using fits_after [OF assms(1) _ that] br by simp
  have "t \<longrightarrow> names_only (adv p)"
    using no_stuckD [OF _ assms(2)] tuples assms(1) by (auto simp: fits_def)
  then have "ok t (adv p) (tuple_names_loop N [] (adv p))"
    using tuple_names_loop_ok fits_sN f adv_step by blast
  then show ?thesis
    unfolding parse_tuple_assign_def Let_def case_prod_beta ex
    by (auto intro!: ok1_bind [where q = "adv p"] ok1_bind [OF pe_ok0] step1_chain fits_e f)
qed

subsection \<open>Statements\<close>

lemma parse_expr_or_index_assign_ok:
  assumes "fits t toks e p"
  shows "ok1 t p (parse_expr_or_index_assign pe p)"
  unfolding parse_expr_or_index_assign_def
proof (rule ok1_bind1 [OF pe_ok [OF assms] step_refl], unfold prod.case)
  fix x :: expr and q
  assume q: "step1 p q"
  have "ok1 t p (Option.bind (pe 0 (adv q)) (\<lambda>(val, p). Some (IndexAssignStmt tk l i val, p)))" for tk l i
    using q by (auto intro!: ok1_bind [OF pe_ok0] step1_chain fits_step [OF assms] step_chain
        intro: step1_step)
  then show "ok1 t p (case x of
      IndexExpr tok left idx \<Rightarrow>
        if cur_type q = TkEq
        then Option.bind (pe 0 (adv q)) (\<lambda>(val, p). Some (IndexAssignStmt tok left idx val, p))
        else Some (ExprStmt x, q)
    | _ \<Rightarrow> Some (ExprStmt x, q))"
    using q by (cases x) auto
qed

lemma parse_expr_or_assign_stmt_ok:
  assumes "fits t toks e p"
  shows "ok1 t p (parse_expr_or_assign_stmt pe p)"
  unfolding parse_expr_or_assign_stmt_def Let_def
  by (auto intro!: ok1_bind [OF pe_ok0] parse_expr_or_index_assign_ok assms step1_chain step_chain
      fits_step [OF assms])

lemma fits_Suc_s: "fits t toks e p \<Longrightarrow> fits t toks (Suc s) p"
  using budget(2) by (auto intro: fits_mono)

lemma parse_statement_body_ok:
  assumes "fits t toks e p"
  shows "ok1 t p (parse_statement_body pe ps N p)"
proof -
  note f = fits_Suc_s [OF assms]
  have imp: "ok1 t p (Some (parse_import_stmt p))" if "cur_type p = KwImport"
    by (auto simp: parse_import_stmt_def case_prod_beta expect_here [OF that] intro!: step1_chain)
  show ?thesis
    unfolding parse_statement_body_def Let_def
    by (intro ok1_if imp parse_strategy_decl_ok [OF f] parse_input_decl_ok [OF assms]
        parse_qualified_decl_or_statement_ok [OF f] parse_var_decl_ok [OF assms]
        parse_typed_decl_or_fn_decl_ok1 [OF f assms] parse_if_stmt_ok [OF f]
        parse_for_stmt_ok [OF f] parse_while_stmt_ok [OF f] parse_switch_stmt_ok [OF f]
        parse_fn_decl_ok [OF f] parse_return_stmt_ok [OF f] parse_tuple_assign_ok [OF f]
        parse_pine_arrow_fn_decl_ok1 [OF f] parse_expr_or_assign_stmt_ok [OF assms] ok1_Some
        adv_step) auto
qed

subsection \<open>Expressions\<close>

lemma parse_paren_or_lambda_ok:
  assumes "fits t toks (Suc s) p" "cur_type p \<noteq> TkEOF"
  shows "ok1 t p (parse_paren_or_lambda pe N p)"
  unfolding parse_paren_or_lambda_def Let_def
  by (auto intro!: ok1_bind [OF pe_ok0] ok1_bind [OF parse_fn_params_ok] step1_chain step_chain
      fits_e fits_after [OF assms])

lemma array_loop_ok:
  "fits t toks e p \<Longrightarrow> fits t toks n p \<Longrightarrow> ok t p (array_loop pe n elems p)"
proof (induction n arbitrary: elems p)
  case 0
  then show ?case by (simp add: ok_def fits_def)
next
  case (Suc n)
  have next_fits: "fits t toks n r" if "step1 p r" "cur_type p \<noteq> TkEOF" for r
    using fits_step1 [OF Suc.prems(2) _ that(1)] that(2) by blast
  show ?case
    by (auto simp: Let_def case_prod_beta intro!: ok_bind1 [OF pe_ok [OF Suc.prems(1)]]
        ok_trans [OF Suc.IH] next_fits fits_step [OF Suc.prems(1)] step_chain step1_chain)
qed

lemma parse_array_lit_ok:
  assumes "fits t toks (Suc s) p" "cur_type p \<noteq> TkEOF"
  shows "ok1 t p (parse_array_lit pe N p)"
  unfolding parse_array_lit_def Let_def
  by (auto intro!: ok1_bind [OF array_loop_ok] step1_chain fits_e fits_sN fits_after [OF assms])

lemma parse_if_expr_ok:
  "fits t toks (Suc s) p \<Longrightarrow> cur_type p = KwIf \<Longrightarrow> ok1 t p (parse_if_expr pe ps N p)"
  unfolding parse_if_expr_def by (auto intro!: ok1_bind1 [OF parse_if_stmt_ok])

lemma parse_prefix_ok:
  assumes "fits t toks (Suc s) p"
  shows "ok1 t p (parse_prefix pe ps N p)"
proof -
  have un: "ok1 t p (Option.bind (pe prec_unary (adv p)) (\<lambda>(x, q). Some (UnaryExpr tok tt x, q)))"
    if "cur_type p \<noteq> TkEOF" for tok tt
    by (auto intro!: ok1_bind [OF pe_ok0] step1_chain fits_e fits_after [OF assms that])
  show ?thesis
    unfolding parse_prefix_def Let_def
    by (intro ok1_if un parse_paren_or_lambda_ok [OF assms] parse_array_lit_ok [OF assms]
        parse_if_expr_ok [OF assms] ok1_Some step1_chain) auto
qed

lemma parse_call_suffix_ok:
  assumes "fits t toks (Suc s) p" "cur_type p \<noteq> TkEOF"
  shows "ok1 t p (parse_call_suffix pe N callee p)"
  unfolding parse_call_suffix_def Let_def
  by (auto intro!: ok1_bind [OF parse_call_args_ok] step1_chain fits_after [OF assms])

lemma parse_index_suffix_ok:
  assumes "fits t toks (Suc s) p" "cur_type p \<noteq> TkEOF"
  shows "ok1 t p (parse_index_suffix pe left p)"
  unfolding parse_index_suffix_def Let_def
  by (auto intro!: ok1_bind [OF pe_ok0] step1_chain fits_e fits_after [OF assms])

lemma parse_dot_suffix_ok: "step1 p (snd (parse_dot_suffix left p))"
  by (auto simp: parse_dot_suffix_def Let_def intro!: step1_chain step_chain)

lemma parse_ternary_suffix_ok:
  assumes "fits t toks (Suc s) p" "cur_type p \<noteq> TkEOF"
  shows "ok1 t p (parse_ternary_suffix pe c p)"
  unfolding parse_ternary_suffix_def Let_def
  by (auto intro!: ok1_bind [OF pe_ok0] step1_chain fits_e fits_after [OF assms])

lemma expr_loop_ok:
  "fits t toks (Suc s) p \<Longrightarrow> fits t toks n p \<Longrightarrow> ok t p (expr_loop pe N n mp left p)"
proof (induction n arbitrary: left p)
  case 0
  then show ?case by (simp add: ok_def fits_def)
next
  case (Suc n)
  have ne: "cur_type p \<noteq> TkEOF" if "infix_prec (cur_type p) \<noteq> 0"
    using that by (auto simp: infix_prec_def)
  have loop: "ok1 t p (expr_loop pe N n mp x q)" if "step1 p q" "cur_type p \<noteq> TkEOF" for q x
    using ok1_trans' [OF Suc.IH that(1)] fits_step [OF Suc.prems(1) step1_step [OF that(1)]]
      fits_step1 [OF Suc.prems(2) _ that(1)] that(2) by simp
  have right: "ok1 t p (Option.bind (pe k (adv p)) (\<lambda>(r, p'). expr_loop pe N n mp (g r) p'))"
    if "cur_type p \<noteq> TkEOF" for k g
    using that
    by (auto intro!: ok1_bind [OF pe_ok0] loop step1_chain fits_e fits_after [OF Suc.prems(1)])
  have "ok1 t p (expr_loop pe N (Suc n) mp left p)"
    if "\<not> (infix_prec (cur_type p) \<le> mp) \<or> (cur_type p = TkLParen \<and> mp < prec_call)
        \<or> (cur_type p = TkLBracket \<and> mp < prec_call) \<or> (cur_type p = TkDot \<and> mp < prec_call)
        \<or> (cur_type p = TkQuestion \<and> mp < prec_or)"
    using that ne
    by (auto simp: Let_def case_prod_beta [of _ "parse_dot_suffix left p"] not_le
        intro!: right loop parse_dot_suffix_ok
          ok1_bind1 [OF parse_call_suffix_ok [OF Suc.prems(1)]]
          ok1_bind1 [OF parse_index_suffix_ok [OF Suc.prems(1)]]
          ok1_bind1 [OF parse_ternary_suffix_ok [OF Suc.prems(1)]])
  then show ?case by (auto simp: Let_def intro: ok1_ok split: if_splits)
qed

lemma parse_expr_body_ok:
  assumes "fits t toks (Suc s) p"
  shows "ok1 t p (parse_expr_body pe ps N mp p)"
  unfolding parse_expr_body_def
proof (rule ok1_bind1 [OF parse_prefix_ok [OF assms] step_refl], unfold prod.case)
  fix x q
  assume q: "step1 p q"
  have "fits t toks (Suc s) q" using fits_step [OF assms step1_step [OF q]] .
  then show "ok1 t p (expr_loop pe N N mp x q)"
    using ok1_trans' [OF expr_loop_ok q] fits_N by blast
qed

subsection \<open>The program\<close>

lemma program_loop_ok:
  "fits t toks s p \<Longrightarrow> fits t toks n p \<Longrightarrow> ok t p (program_loop ps n stmts p)"
proof (induction n arbitrary: stmts p)
  case 0
  then show ?case by (simp add: ok_def fits_def)
next
  case (Suc n)
  have loop: "ok1 t p (program_loop ps n x q)" if "step1 p q" "cur_type p \<noteq> TkEOF" for q x
    using ok1_trans' [OF Suc.IH that(1)] fits_step [OF Suc.prems(1) step1_step [OF that(1)]]
      fits_step1 [OF Suc.prems(2) _ that(1)] that(2) by simp
  have "ok1 t p (program_loop ps (Suc n) stmts p)" if "cur_type p \<noteq> TkEOF"
    using that
    by (auto simp: Let_def case_prod_beta intro!: ok1_bind1 [OF ps_ok [OF Suc.prems(1)]] loop step1_chain)
  then show ?case by (cases "cur_type p = TkEOF") (auto intro: ok1_ok)
qed

end

section \<open>The model satisfies the contract\<close>

lemma entry_points_ok:
  assumes "t \<Longrightarrow> no_stuck toks"
  shows "fits t toks (n div 2) p \<Longrightarrow> ok1 t p (parse_expr n k p)"
    and "fits t toks ((n - 1) div 2) p \<Longrightarrow> ok1 t p (parse_stmt n p)"
proof (induction n arbitrary: k p)
  case 0
  {
    case 1
    then show ?case by (simp add: ok1_def fits_def)
  next
    case 2
    then show ?case by (simp add: ok1_def fits_def)
  }
next
  case (Suc n)
  have calls: "parser_calls t toks (n div 2) ((n - 1) div 2) n (parse_expr n) (parse_stmt n)" if "0 < n"
    using that Suc.IH assms by unfold_locales auto
  {
    case 1
    show ?case
    proof (cases "0 < n")
      case True
      then have "Suc n div 2 = Suc ((n - 1) div 2)" by (cases n) auto
      then show ?thesis
        using parser_calls.parse_expr_body_ok [OF calls [OF True]] 1 by simp
    next
      case False
      then have "\<not> t" using 1 by (simp add: fits_def)
      have "parser_calls False toks 0 0 0 (parse_expr n) (parse_stmt n)"
        using False Suc.IH \<open>\<not> t\<close> by unfold_locales (auto simp: fits_def)
      then show ?thesis
        using parser_calls.parse_expr_body_ok [of False toks] False \<open>\<not> t\<close>
        by (simp add: fits_def)
    qed
  next
    case 2
    show ?case
    proof (cases "0 < n")
      case True
      then show ?thesis
        using parser_calls.parse_statement_body_ok [OF calls [OF True]] 2 by simp
    next
      case False
      then have "\<not> t" using 2 by (simp add: fits_def)
      have "parser_calls False toks 0 0 0 (parse_expr n) (parse_stmt n)"
        using False Suc.IH \<open>\<not> t\<close> by unfold_locales (auto simp: fits_def)
      then show ?thesis
        using parser_calls.parse_statement_body_ok [of False toks] False \<open>\<not> t\<close>
        by (simp add: fits_def)
    qed
  }
qed

interpretation progress: parser_calls False toks 0 0 0 "parse_expr n" "parse_stmt n"
  for toks n
  using entry_points_ok [of False] by unfold_locales (auto simp: fits_def)

interpretation total: parser_calls "no_stuck toks" toks "Suc n div 2" "n div 2" "Suc n"
    "parse_expr (Suc n)" "parse_stmt (Suc n)"
  for toks n
  using entry_points_ok [of "no_stuck toks" toks "Suc n"] by unfold_locales auto

end
