(* ===== verification/Dsl_Parser_Fuel.thy ===== *)
theory Dsl_Parser_Fuel
  imports Dsl_Parser
begin

text \<open>
  More fuel never changes a result: a method that returns with some entry points and some loop
  bound returns the same with better ones. The locale \<open>better_calls\<close> holds what the methods need
  of the two pairs of entry points; its interpretation says that \<open>parse_expr\<close> and \<open>parse_stmt\<close>
  with more fuel are better. So the parser is a partial function of the source alone.
\<close>

section \<open>Less defined results\<close>

definition below :: "'a option \<Rightarrow> 'a option \<Rightarrow> bool" where
  "below a b = (a = None \<or> a = b)"

lemma below_refl [simp, intro]: "below a a"
  by (simp add: below_def)

lemma below_None [simp, intro]: "below None b"
  by (simp add: below_def)

lemma below_SomeD: "below a b \<Longrightarrow> a = Some x \<Longrightarrow> b = Some x"
  by (auto simp: below_def)

lemma below_bind:
  "below a b \<Longrightarrow> (\<And>x. below (f x) (g x)) \<Longrightarrow> below (Option.bind a f) (Option.bind b g)"
  unfolding below_def by (cases a) (simp_all, metis bind.bind_lunit)

lemma below_map: "below a b \<Longrightarrow> below (map_option f a) (map_option f b)"
  by (auto simp: below_def)

lemma below_if: "(c \<Longrightarrow> below a a') \<Longrightarrow> (\<not> c \<Longrightarrow> below b b') \<Longrightarrow> below (if c then a else b) (if c then a' else b')"
  by simp

lemma below_prod: "(\<And>x y. below (f x y) (g x y)) \<Longrightarrow> below (case r of (x, y) \<Rightarrow> f x y) (case r of (x, y) \<Rightarrow> g x y)"
  by (cases r) simp

lemma below_Let: "(\<And>x. below (f x) (g x)) \<Longrightarrow> below (Let r f) (Let r g)"
  by simp

lemmas below_intros = below_refl below_bind below_map below_if below_prod below_Let

section \<open>Better entry points\<close>

locale better_calls =
  fixes N N' :: nat and pe pe' :: expr_parser and ps ps' :: stmt_parser
  assumes bound: "N \<le> N'"
    and pe_below: "below (pe k p) (pe' k p)"
    and ps_below: "below (ps p) (ps' p)"
begin

lemmas calls = pe_below ps_below

lemma parse_call_arg_below: "below (parse_call_arg pe p) (parse_call_arg pe' p)"
  unfolding parse_call_arg_def by (intro below_intros calls)

lemma call_args_loop_below:
  "n \<le> n' \<Longrightarrow> below (call_args_loop pe n args p) (call_args_loop pe' n' args p)"
proof (induction n arbitrary: n' args p)
  case (Suc n)
  then obtain m where "n' = Suc m" "n \<le> m" by (cases n') auto
  then show ?case
    unfolding \<open>n' = Suc m\<close> call_args_loop.simps
    by (intro below_intros parse_call_arg_below Suc.IH)
qed simp

lemma parse_call_args_below: "below (parse_call_args pe N p) (parse_call_args pe' N' p)"
  unfolding parse_call_args_def by (rule call_args_loop_below [OF bound])

lemma fn_params_loop_below:
  "n \<le> n' \<Longrightarrow> below (fn_params_loop pe n ss p) (fn_params_loop pe' n' ss p)"
proof (induction n arbitrary: n' ss p)
  case (Suc n)
  then obtain m where "n' = Suc m" "n \<le> m" by (cases n') auto
  then show ?case
    unfolding \<open>n' = Suc m\<close> fn_params_loop.simps by (intro below_intros calls Suc.IH)
qed simp

lemma parse_fn_params_below: "below (parse_fn_params pe N p) (parse_fn_params pe' N' p)"
  unfolding parse_fn_params_def by (rule fn_params_loop_below [OF bound])

lemma brace_loop_below:
  "n \<le> n' \<Longrightarrow> below (brace_loop ps n ss p) (brace_loop ps' n' ss p)"
proof (induction n arbitrary: n' ss p)
  case (Suc n)
  then obtain m where "n' = Suc m" "n \<le> m" by (cases n') auto
  then show ?case
    unfolding \<open>n' = Suc m\<close> brace_loop.simps by (intro below_intros calls Suc.IH)
qed simp

lemma indented_loop_below:
  "n \<le> n' \<Longrightarrow> below (indented_loop ps ind n ss p) (indented_loop ps' ind n' ss p)"
proof (induction n arbitrary: n' ss p)
  case (Suc n)
  then obtain m where "n' = Suc m" "n \<le> m" by (cases n') auto
  then show ?case
    unfolding \<open>n' = Suc m\<close> indented_loop.simps by (intro below_intros calls Suc.IH)
qed simp

lemma parse_indented_block_below:
  "below (parse_indented_block ps N tok p) (parse_indented_block ps' N' tok p)"
  unfolding parse_indented_block_def by (intro below_intros indented_loop_below [OF bound])

lemma parse_block_after_below:
  "below (parse_block_after ps N tok p) (parse_block_after ps' N' tok p)"
  unfolding parse_block_after_def
  by (intro below_intros calls brace_loop_below [OF bound] parse_indented_block_below)

lemma parse_block_below: "below (parse_block ps N p) (parse_block ps' N' p)"
  unfolding parse_block_def by (rule parse_block_after_below)

lemma parse_arrow_body_below:
  "below (parse_arrow_body pe ps N tok p) (parse_arrow_body pe' ps' N' tok p)"
  unfolding parse_arrow_body_def
  by (intro below_intros calls parse_indented_block_below parse_block_below)

lemma parse_strategy_decl_below:
  "below (parse_strategy_decl pe N p) (parse_strategy_decl pe' N' p)"
  unfolding parse_strategy_decl_def by (intro below_intros parse_call_args_below)

lemma parse_input_decl_below: "below (parse_input_decl pe p) (parse_input_decl pe' p)"
  unfolding parse_input_decl_def by (intro below_intros calls)

lemma parse_var_decl_with_qualifier_below:
  "below (parse_var_decl_with_qualifier pe x p) (parse_var_decl_with_qualifier pe' x p)"
  unfolding parse_var_decl_with_qualifier_def by (intro below_intros calls)

lemma parse_var_decl_below: "below (parse_var_decl pe p) (parse_var_decl pe' p)"
  unfolding parse_var_decl_def by (rule parse_var_decl_with_qualifier_below)

lemma parse_typed_var_decl_below:
  "below (parse_typed_var_decl pe x p) (parse_typed_var_decl pe' x p)"
  unfolding parse_typed_var_decl_def by (intro below_intros calls)

lemma parse_pine_arrow_fn_decl_below:
  "below (parse_pine_arrow_fn_decl pe ps N p) (parse_pine_arrow_fn_decl pe' ps' N' p)"
  unfolding parse_pine_arrow_fn_decl_def
  by (intro below_intros parse_fn_params_below parse_arrow_body_below)

lemma parse_typed_decl_or_fn_decl_below:
  "below (parse_typed_decl_or_fn_decl pe ps N p) (parse_typed_decl_or_fn_decl pe' ps' N' p)"
  unfolding parse_typed_decl_or_fn_decl_def
  by (intro below_intros parse_pine_arrow_fn_decl_below parse_typed_var_decl_below)

lemma parse_qualified_switch_below:
  "below (parse_qualified_switch pe ps N q p) (parse_qualified_switch pe' ps' N' q p)"
  unfolding parse_qualified_switch_def
  by (intro below_intros calls parse_var_decl_with_qualifier_below parse_typed_var_decl_below
      parse_typed_decl_or_fn_decl_below parse_pine_arrow_fn_decl_below)

lemma parse_qualified_decl_or_statement_below:
  "below (parse_qualified_decl_or_statement pe ps N p) (parse_qualified_decl_or_statement pe' ps' N' p)"
  unfolding parse_qualified_decl_or_statement_def
  by (intro below_intros parse_pine_arrow_fn_decl_below parse_typed_decl_or_fn_decl_below
      parse_qualified_switch_below)

lemma else_loop_below:
  "n \<le> n' \<Longrightarrow> below (else_loop pe ps N tok br n x p) (else_loop pe' ps' N' tok br n' x p)"
proof (induction n arbitrary: n' x p)
  case (Suc n)
  then obtain m where "n' = Suc m" "n \<le> m" by (cases n') auto
  then show ?case
    unfolding \<open>n' = Suc m\<close> else_loop.simps
    by (intro below_intros calls parse_block_after_below Suc.IH)
qed simp

lemma parse_if_stmt_below: "below (parse_if_stmt pe ps N p) (parse_if_stmt pe' ps' N' p)"
  unfolding parse_if_stmt_def
  by (intro below_intros calls parse_block_after_below else_loop_below [OF bound])

lemma parse_for_in_below: "below (parse_for_in pe ps N tok p) (parse_for_in pe' ps' N' tok p)"
  unfolding parse_for_in_def by (intro below_intros calls parse_block_after_below)

lemma parse_for_stmt_below: "below (parse_for_stmt pe ps N p) (parse_for_stmt pe' ps' N' p)"
  unfolding parse_for_stmt_def
  by (intro below_intros calls parse_block_after_below parse_for_in_below)

lemma parse_while_stmt_below: "below (parse_while_stmt pe ps N p) (parse_while_stmt pe' ps' N' p)"
  unfolding parse_while_stmt_def by (intro below_intros calls parse_block_after_below)

lemma switch_loop_below:
  "n \<le> n' \<Longrightarrow> below (switch_loop pe ps N n x d p) (switch_loop pe' ps' N' n' x d p)"
proof (induction n arbitrary: n' x d p)
  case (Suc n)
  then obtain m where "n' = Suc m" "n \<le> m" by (cases n') auto
  then show ?case
    unfolding \<open>n' = Suc m\<close> switch_loop.simps
    by (intro below_intros calls parse_block_after_below Suc.IH)
qed simp

lemma parse_switch_stmt_below: "below (parse_switch_stmt pe ps N p) (parse_switch_stmt pe' ps' N' p)"
  unfolding parse_switch_stmt_def
  by (intro below_intros calls switch_loop_below [OF bound])

lemma parse_fn_decl_below: "below (parse_fn_decl pe ps N p) (parse_fn_decl pe' ps' N' p)"
  unfolding parse_fn_decl_def by (intro below_intros parse_fn_params_below parse_block_after_below)

lemma parse_return_stmt_below: "below (parse_return_stmt pe p) (parse_return_stmt pe' p)"
  unfolding parse_return_stmt_def by (intro below_intros calls)

lemma tuple_names_loop_below:
  "n \<le> n' \<Longrightarrow> below (tuple_names_loop n ss p) (tuple_names_loop n' ss p)"
proof (induction n arbitrary: n' ss p)
  case (Suc n)
  then obtain m where "n' = Suc m" "n \<le> m" by (cases n') auto
  then show ?case
    unfolding \<open>n' = Suc m\<close> tuple_names_loop.simps by (intro below_intros Suc.IH)
qed simp

lemma parse_tuple_assign_below: "below (parse_tuple_assign pe N p) (parse_tuple_assign pe' N' p)"
  unfolding parse_tuple_assign_def by (intro below_intros calls tuple_names_loop_below [OF bound])

lemma parse_expr_or_index_assign_below:
  "below (parse_expr_or_index_assign pe p) (parse_expr_or_index_assign pe' p)"
proof -
  have "below
      (case e of IndexExpr tok left idx \<Rightarrow>
         if cur_type q = TkEq
         then Option.bind (pe 0 (adv q)) (\<lambda>(val, p). Some (IndexAssignStmt tok left idx val, p))
         else Some (ExprStmt e, q) | _ \<Rightarrow> Some (ExprStmt e, q))
      (case e of IndexExpr tok left idx \<Rightarrow>
         if cur_type q = TkEq
         then Option.bind (pe' 0 (adv q)) (\<lambda>(val, p). Some (IndexAssignStmt tok left idx val, p))
         else Some (ExprStmt e, q) | _ \<Rightarrow> Some (ExprStmt e, q))" for e q
    by (cases e) (simp_all add: below_bind calls)
  then show ?thesis
    unfolding parse_expr_or_index_assign_def by (intro below_bind calls below_prod)
qed

lemma parse_expr_or_assign_stmt_below:
  "below (parse_expr_or_assign_stmt pe p) (parse_expr_or_assign_stmt pe' p)"
  unfolding parse_expr_or_assign_stmt_def
  by (intro below_intros calls parse_expr_or_index_assign_below)

lemma parse_statement_body_below:
  "below (parse_statement_body pe ps N p) (parse_statement_body pe' ps' N' p)"
  unfolding parse_statement_body_def
  by (intro below_Let below_if parse_strategy_decl_below parse_expr_or_assign_stmt_below
      parse_input_decl_below parse_qualified_decl_or_statement_below parse_var_decl_below
      parse_typed_decl_or_fn_decl_below parse_if_stmt_below parse_for_stmt_below
      parse_while_stmt_below parse_switch_stmt_below parse_fn_decl_below parse_return_stmt_below
      parse_tuple_assign_below parse_pine_arrow_fn_decl_below below_refl)

lemma parse_paren_or_lambda_below:
  "below (parse_paren_or_lambda pe N p) (parse_paren_or_lambda pe' N' p)"
  unfolding parse_paren_or_lambda_def by (intro below_intros calls parse_fn_params_below)

lemma array_loop_below:
  "n \<le> n' \<Longrightarrow> below (array_loop pe n ss p) (array_loop pe' n' ss p)"
proof (induction n arbitrary: n' ss p)
  case (Suc n)
  then obtain m where "n' = Suc m" "n \<le> m" by (cases n') auto
  then show ?case
    unfolding \<open>n' = Suc m\<close> array_loop.simps by (intro below_intros calls Suc.IH)
qed simp

lemma parse_array_lit_below: "below (parse_array_lit pe N p) (parse_array_lit pe' N' p)"
  unfolding parse_array_lit_def by (intro below_intros array_loop_below [OF bound])

lemma parse_if_expr_below: "below (parse_if_expr pe ps N p) (parse_if_expr pe' ps' N' p)"
  unfolding parse_if_expr_def by (intro below_intros parse_if_stmt_below)

lemma parse_prefix_below: "below (parse_prefix pe ps N p) (parse_prefix pe' ps' N' p)"
  unfolding parse_prefix_def
  by (intro below_intros calls parse_paren_or_lambda_below parse_array_lit_below parse_if_expr_below)

lemma parse_call_suffix_below: "below (parse_call_suffix pe N c p) (parse_call_suffix pe' N' c p)"
  unfolding parse_call_suffix_def by (intro below_intros parse_call_args_below)

lemma parse_index_suffix_below: "below (parse_index_suffix pe l p) (parse_index_suffix pe' l p)"
  unfolding parse_index_suffix_def by (intro below_intros calls)

lemma parse_ternary_suffix_below: "below (parse_ternary_suffix pe c p) (parse_ternary_suffix pe' c p)"
  unfolding parse_ternary_suffix_def by (intro below_intros calls)

lemma expr_loop_below:
  "n \<le> n' \<Longrightarrow> below (expr_loop pe N n k l p) (expr_loop pe' N' n' k l p)"
proof (induction n arbitrary: n' l p)
  case (Suc n)
  then obtain m where "n' = Suc m" "n \<le> m" by (cases n') auto
  then show ?case
    unfolding \<open>n' = Suc m\<close> expr_loop.simps
    by (intro below_intros calls parse_call_suffix_below parse_index_suffix_below
        parse_ternary_suffix_below Suc.IH)
qed simp

lemma parse_expr_body_below: "below (parse_expr_body pe ps N k p) (parse_expr_body pe' ps' N' k p)"
  unfolding parse_expr_body_def
  by (intro below_intros parse_prefix_below expr_loop_below [OF bound])

lemma program_loop_below:
  "n \<le> n' \<Longrightarrow> below (program_loop ps n ss p) (program_loop ps' n' ss p)"
proof (induction n arbitrary: n' ss p)
  case (Suc n)
  then obtain m where "n' = Suc m" "n \<le> m" by (cases n') auto
  then show ?case
    unfolding \<open>n' = Suc m\<close> program_loop.simps by (intro below_intros calls Suc.IH)
qed simp

end

section \<open>More fuel is better\<close>

lemma entry_points_below:
  "below (parse_expr n k p) (parse_expr (n + d) k p) \<and> below (parse_stmt n p) (parse_stmt (n + d) p)"
proof (induction n arbitrary: k p)
  case (Suc n)
  have "better_calls n (n + d) (parse_expr n) (parse_expr (n + d)) (parse_stmt n) (parse_stmt (n + d))"
    using Suc.IH by unfold_locales auto
  then show ?case
    using better_calls.parse_expr_body_below better_calls.parse_statement_body_below by fastforce
qed simp

interpretation fuel: better_calls n "n + d" "parse_expr n" "parse_expr (n + d)" "parse_stmt n" "parse_stmt (n + d)"
  for n d
  using entry_points_below by unfold_locales auto

lemma parse_expr_fuel: "parse_expr n k p = Some r \<Longrightarrow> n \<le> m \<Longrightarrow> parse_expr m k p = Some r"
  using fuel.pe_below [of n k p "m - n"] by (auto dest: below_SomeD)

lemma parse_stmt_fuel: "parse_stmt n p = Some r \<Longrightarrow> n \<le> m \<Longrightarrow> parse_stmt m p = Some r"
  using fuel.ps_below [of n p "m - n"] by (auto dest: below_SomeD)

lemma parse_program_fuel: "parse_program n p = Some r \<Longrightarrow> n \<le> m \<Longrightarrow> parse_program m p = Some r"
  using fuel.program_loop_below [where n = n and d = "m - n" and na = n and n' = m and ss = "[]"
      and p = "skip_newlines p"]
  by (auto simp: parse_program_def dest: below_SomeD)

end
