(* ===== verification/Dsl_Lexer_Laws.thy ===== *)
theory Dsl_Lexer_Laws
  imports Dsl_Lexer
begin

text \<open>
  What the scanner promises, stated on the decoded source. \<open>gap\<close> describes the text between
  two tokens, \<open>lexeme\<close> the text of a token, and \<open>scans\<close> a whole run: every rune of the source
  belongs to a gap or to the lexeme of one token, in order, and a token carries the line and
  the column of its first rune. \<open>tokenize_scans\<close> shows that the model of \<open>Tokenize\<close> meets this
  specification; the other lemmas follow from it by rule induction.
\<close>

section \<open>The decoded source and positions in it\<close>

function runes :: "string \<Rightarrow> nat list" where
  "runes bs =
     (if bs = [] then []
      else fst (decode_rune bs) # runes (drop (snd (decode_rune bs)) bs))"
  by pat_completeness auto
termination
proof (relation "measure length")
  fix bs :: string
  assume "bs \<noteq> []"
  then show "(drop (snd (decode_rune bs)) bs, bs) \<in> measure length"
    using decode_rune_width [of bs] by simp
qed simp

declare runes.simps [simp del]

lemma runes_Nil [simp]: "runes [] = []"
  by (simp add: runes.simps)

lemma runes_cons:
  "bs \<noteq> [] \<Longrightarrow> runes bs = fst (decode_rune bs) # runes (drop (snd (decode_rune bs)) bs)"
  by (simp add: runes.simps)

text \<open>The line and the column of the rune that follows the prefix \<open>pre\<close>, both from 1.\<close>

definition line_after :: "nat list \<Rightarrow> nat" where
  "line_after pre = 1 + count_list pre 10"

definition col_after :: "nat list \<Rightarrow> nat" where
  "col_after pre = 1 + length (takeWhile (\<lambda>c. c \<noteq> 10) (rev pre))"

definition enc :: "nat list \<Rightarrow> string" where
  "enc rs = concat (map encode_rune rs)"

lemma enc_simps [simp]: "enc [] = []" "enc (c # rs) = encode_rune c @ enc rs"
  "enc (rs @ rs') = enc rs @ enc rs'"
  by (simp_all add: enc_def)

text \<open>
  The scanner stands before \<open>rest\<close> after having consumed \<open>pre\<close>. At the end of the source the
  line and the column are no longer those of a rune.
\<close>

definition stands :: "nat list \<Rightarrow> nat list \<Rightarrow> lexer \<Rightarrow> bool" where
  "stands pre rest l =
     (case rest of
        [] \<Rightarrow> lx_ch l = 0 \<and> length (src l) \<le> lx_pos l
      | c # cs \<Rightarrow> lx_ch l = c \<and> runes (drop (lx_pos l) (src l)) = cs
                 \<and> lx_line l = line_after pre \<and> lx_col l = col_after pre)"

lemma stands_advance: "stands pre (c # cs) l \<Longrightarrow> stands (pre @ [c]) cs (advance l)"
proof (cases cs)
  case Nil
  assume s: "stands pre (c # cs) l"
  then have "length (src l) \<le> lx_pos l"
    using Nil runes_cons [of "drop (lx_pos l) (src l)"]
    by (auto simp: stands_def)
  then show ?thesis using Nil by (simp add: stands_def advance_def)
next
  case (Cons d ds)
  assume s: "stands pre (c # cs) l"
  let ?bs = "drop (lx_pos l) (src l)"
  have ne: "?bs \<noteq> []" using s Cons by (auto simp: stands_def)
  then have lt: "\<not> length (src l) \<le> lx_pos l" by simp
  obtain r w where rw: "decode_rune ?bs = (r, w)" by fastforce
  have "runes ?bs = r # runes (drop w ?bs)" using runes_cons [OF ne] rw by simp
  moreover have "runes ?bs = d # ds" using s Cons by (simp add: stands_def)
  ultimately have "r = d" "runes (drop (lx_pos l + w) (src l)) = ds"
    by (simp_all add: add.commute)
  then show ?thesis
    using s Cons lt rw
    by (auto simp: stands_def advance_def Let_def line_after_def col_after_def)
qed

lemma stands_advance_end: "stands pre [] l \<Longrightarrow> stands pre [] (advance l)"
  by (simp add: stands_def advance_def)

lemma stands_ch: "stands pre rest l \<Longrightarrow> lx_ch l = (case rest of [] \<Rightarrow> 0 | c # _ \<Rightarrow> c)"
  by (auto simp: stands_def split: list.splits)

lemma stands_peek: "stands pre (c # cs) l \<Longrightarrow> lex_peek l = (case cs of [] \<Rightarrow> 0 | d # _ \<Rightarrow> d)"
  using runes_cons [of "drop (lx_pos l) (src l)"]
  by (auto simp: stands_def lex_peek_def split: list.splits)

lemma stands_pos:
  "stands pre (c # cs) l \<Longrightarrow> lx_line l = line_after pre \<and> lx_col l = col_after pre"
  by (simp add: stands_def)

lemma stands_nonzero:
  assumes "stands pre rest l" "lx_ch l \<noteq> 0"
  obtains cs where "rest = lx_ch l # cs" "stands (pre @ [lx_ch l]) cs (advance l)"
  using assms stands_ch [OF assms(1)] stands_advance by (cases rest) auto

lemma stands_new: "stands [] (runes s) (new_lexer s)"
proof (cases "s = []")
  case False
  then show ?thesis
    using runes_cons [of s]
    by (simp add: stands_def new_lexer_def advance_def Let_def line_after_def col_after_def
        split: prod.split)
qed (simp add: stands_def new_lexer_def advance_def)

section \<open>The text between two tokens\<close>

definition ends_with_nul :: "nat list \<Rightarrow> bool" where
  "ends_with_nul rest = (rest = [] \<or> hd rest = 0)"

inductive gap :: "nat list \<Rightarrow> nat list \<Rightarrow> bool" where
  none: "gap [] rest"
| blank: "c \<in> {32, 9, 13} \<Longrightarrow> gap g rest \<Longrightarrow> gap (c # g) rest"
| continuation: "gap g rest \<Longrightarrow> gap (92 # 10 # g) rest"
| line_comment: "10 \<notin> set b \<Longrightarrow> 0 \<notin> set b \<Longrightarrow> g @ rest = [] \<or> hd (g @ rest) \<in> {10, 0}
    \<Longrightarrow> gap g rest \<Longrightarrow> gap (47 # 47 # b @ g) rest"
| block_comment: "0 \<notin> set b \<Longrightarrow> (\<forall>x y. b @ [42] \<noteq> x @ 42 # 47 # y) \<Longrightarrow> gap g rest
    \<Longrightarrow> gap (47 # 42 # b @ 42 # 47 # g) rest"
| open_comment: "0 \<notin> set b \<Longrightarrow> ends_with_nul rest \<Longrightarrow> gap (47 # 42 # b) rest"

lemma skip_blanks_gap:
  "stands pre rest l \<Longrightarrow>
     \<exists>g rest'. rest = g @ rest' \<and> set g \<subseteq> {32, 9, 13} \<and> stands (pre @ g) rest' (skip_blanks l)"
proof (induction l arbitrary: pre rest rule: skip_blanks.induct)
  case (1 l)
  show ?case
  proof (cases "lx_ch l = 32 \<or> lx_ch l = 9 \<or> lx_ch l = 13")
    case True
    then have "lx_ch l \<noteq> 0" by auto
    then obtain cs where cs: "rest = lx_ch l # cs" "stands (pre @ [lx_ch l]) cs (advance l)"
      using stands_nonzero [OF "1.prems"] by blast
    from "1.IH" [OF True cs(2)] obtain g rest' where
      "cs = g @ rest'" "set g \<subseteq> {32, 9, 13}"
      "stands ((pre @ [lx_ch l]) @ g) rest' (skip_blanks (advance l))" by blast
    then show ?thesis
      using cs True
      by (intro exI [of _ "lx_ch l # g"] exI [of _ rest']) (auto simp: skip_blanks.simps [of l])
  next
    case False
    then show ?thesis
      using "1.prems"
      by (intro exI [of _ "[]"] exI [of _ rest]) (simp add: skip_blanks.simps [of l])
  qed
qed

lemma skip_line_comment_text:
  "stands pre rest l \<Longrightarrow>
     \<exists>b rest'. rest = b @ rest' \<and> 10 \<notin> set b \<and> 0 \<notin> set b \<and> (rest' = [] \<or> hd rest' \<in> {10, 0})
       \<and> stands (pre @ b) rest' (skip_line_comment l)"
proof (induction l arbitrary: pre rest rule: skip_line_comment.induct)
  case (1 l)
  show ?case
  proof (cases "lx_ch l \<noteq> 10 \<and> lx_ch l \<noteq> 0")
    case True
    then have "lx_ch l \<noteq> 0" by auto
    then obtain cs where cs: "rest = lx_ch l # cs" "stands (pre @ [lx_ch l]) cs (advance l)"
      using stands_nonzero [OF "1.prems"] by blast
    from "1.IH" [OF True cs(2)] obtain b rest' where
      "cs = b @ rest'" "10 \<notin> set b" "0 \<notin> set b" "rest' = [] \<or> hd rest' \<in> {10, 0}"
      "stands ((pre @ [lx_ch l]) @ b) rest' (skip_line_comment (advance l))" by blast
    then show ?thesis
      using cs True
      by (intro exI [of _ "lx_ch l # b"] exI [of _ rest'])
        (auto simp: skip_line_comment.simps [of l])
  next
    case False
    then have "rest = [] \<or> hd rest \<in> {10, 0}"
      using stands_ch [OF "1.prems"] by (cases rest) auto
    then show ?thesis
      using False "1.prems"
      by (intro exI [of _ "[]"] exI [of _ rest]) (auto simp: skip_line_comment.simps [of l])
  qed
qed

text \<open>A closed block comment, or an open one that runs to the end.\<close>

lemma skip_block_comment_text:
  "stands pre rest l \<Longrightarrow>
     \<exists>b rest'. rest = b @ rest' \<and> stands (pre @ b) rest' (skip_block_comment l) \<and>
       ((\<exists>d. b = d @ [42, 47] \<and> 0 \<notin> set d \<and> (\<forall>x y. d @ [42] \<noteq> x @ 42 # 47 # y))
        \<or> (0 \<notin> set b \<and> ends_with_nul rest'))"
proof (induction l arbitrary: pre rest rule: skip_block_comment.induct)
  case (1 l)
  consider (nul) "lx_ch l = 0" | (close) "lx_ch l = 42 \<and> lex_peek l = 47"
    | (go) "lx_ch l \<noteq> 0" "\<not> (lx_ch l = 42 \<and> lex_peek l = 47)" by auto
  then show ?case
  proof cases
    case nul
    then have "ends_with_nul rest"
      using stands_ch [OF "1.prems"] by (cases rest) (auto simp: ends_with_nul_def)
    then show ?thesis
      using "1.prems" nul
      by (intro exI [of _ "[]"] exI [of _ rest]) (auto simp: skip_block_comment.simps [of l])
  next
    case close
    then have "lx_ch l \<noteq> 0" by simp
    then obtain cs where cs: "rest = lx_ch l # cs" "stands (pre @ [lx_ch l]) cs (advance l)"
      using stands_nonzero [OF "1.prems"] by blast
    moreover have "lex_peek l = (case cs of [] \<Rightarrow> 0 | d # _ \<Rightarrow> d)"
      using stands_peek "1.prems" cs(1) by blast
    ultimately obtain ds where ds: "cs = 47 # ds" using close by (cases cs) auto
    then have "stands (pre @ [42, 47]) ds (skip_block_comment l)"
      using stands_advance [of "pre @ [lx_ch l]" 47 ds "advance l"] cs(2) close
      by (simp add: skip_block_comment.simps [of l])
    then show ?thesis
      using cs(1) ds close
      by (intro exI [of _ "[42, 47]"] exI [of _ ds]) (auto simp: Cons_eq_append_conv)
  next
    case go
    then obtain cs where cs: "rest = lx_ch l # cs" "stands (pre @ [lx_ch l]) cs (advance l)"
      using stands_nonzero [OF "1.prems"] by blast
    have pk: "lex_peek l = (case cs of [] \<Rightarrow> 0 | d # _ \<Rightarrow> d)"
      using stands_peek "1.prems" cs(1) by blast
    from "1.IH" [OF go cs(2)] obtain b rest' where b: "cs = b @ rest'"
      "stands ((pre @ [lx_ch l]) @ b) rest' (skip_block_comment (advance l))"
      "(\<exists>d. b = d @ [42, 47] \<and> 0 \<notin> set d \<and> (\<forall>x y. d @ [42] \<noteq> x @ 42 # 47 # y))
        \<or> (0 \<notin> set b \<and> ends_with_nul rest')" by blast
    have step: "skip_block_comment l = skip_block_comment (advance l)"
      using go skip_block_comment.simps [of l] by auto
    from b(3) show ?thesis
    proof (elim disjE exE conjE)
      fix d
      assume d: "b = d @ [42, 47]" "0 \<notin> set d" "\<forall>x y. d @ [42] \<noteq> x @ 42 # 47 # y"
      have "\<not> (lx_ch l = 42 \<and> hd (d @ [42]) = 47)"
        using go(2) pk b(1) d(1) by (cases d) auto
      then have "\<forall>x y. (lx_ch l # d) @ [42] \<noteq> x @ 42 # 47 # y"
        using d(3) by (auto simp: Cons_eq_append_conv)
      then show ?thesis
        using cs(1) b d step go
        by (intro exI [of _ "lx_ch l # b"] exI [of _ rest']) auto
    next
      assume "0 \<notin> set b" "ends_with_nul rest'"
      then show ?thesis
        using cs(1) b step go
        by (intro exI [of _ "lx_ch l # b"] exI [of _ rest']) auto
    qed
  qed
qed

lemma blanks_gap: "set b \<subseteq> {32, 9, 13} \<Longrightarrow> gap g rest \<Longrightarrow> gap (b @ g) rest"
  by (induction b) (auto intro: gap.blank)

text \<open>Two runes ahead.\<close>

lemma stands_two:
  assumes "stands pre rest l" "lx_ch l = c" "lex_peek l = d" "c \<noteq> 0" "d \<noteq> 0"
  obtains cs where "rest = c # d # cs" "stands (pre @ [c, d]) cs (advance (advance l))"
proof -
  obtain xs where xs: "rest = c # xs" "stands (pre @ [c]) xs (advance l)"
    using stands_nonzero [OF assms(1)] assms(2,4) by blast
  have "lex_peek l = (case xs of [] \<Rightarrow> 0 | d # _ \<Rightarrow> d)" using stands_peek assms(1) xs(1) by blast
  then obtain cs where "xs = d # cs" using assms(3,5) by (cases xs) auto
  then show ?thesis
    using that [of cs] xs stands_advance [of "pre @ [c]" d cs "advance l"] by simp
qed

text \<open>One turn of the outer loop prefixes a piece of a gap to whatever gap follows.\<close>

lemma skip_turn_gap:
  assumes "stands pre rest l" "skip_turn l = Some l'"
  shows "\<exists>g rest'. rest = g @ rest' \<and> stands (pre @ g) rest' l'
           \<and> (\<forall>g' r. rest' = g' @ r \<longrightarrow> gap g' r \<longrightarrow> gap (g @ g') r)"
proof -
  consider (cont) "lx_ch l = 92" "lex_peek l = 10" "l' = advance (advance l)"
    | (line) "lx_ch l = 47" "lex_peek l = 47" "l' = skip_line_comment l"
    | (block) "lx_ch l = 47" "lex_peek l = 42" "l' = skip_block_comment (advance (advance l))"
    using assms(2) by (auto simp: skip_turn_def split: if_splits)
  then show ?thesis
  proof cases
    case cont
    then obtain cs where "rest = 92 # 10 # cs" "stands (pre @ [92, 10]) cs l'"
      using stands_two [OF assms(1), of 92 10] by auto
    then show ?thesis
      by (intro exI [of _ "[92, 10]"] exI [of _ cs]) (auto intro: gap.continuation)
  next
    case line
    then obtain cs where cs: "rest = 47 # 47 # cs"
        "stands (pre @ [47, 47]) cs (advance (advance l))"
      using stands_two [OF assms(1), of 47 47] by auto
    have "lx_ch (advance l) = 47"
      using stands_advance [of pre 47 "47 # cs" l] assms(1) cs(1) by (simp add: stands_def)
    then have "l' = skip_line_comment (advance (advance l))"
      using line skip_line_comment.simps [of l] skip_line_comment.simps [of "advance l"] by simp
    then obtain b rest' where b: "cs = b @ rest'" "10 \<notin> set b" "0 \<notin> set b"
        "rest' = [] \<or> hd rest' \<in> {10, 0}" "stands ((pre @ [47, 47]) @ b) rest' l'"
      using skip_line_comment_text [OF cs(2)] by blast
    then show ?thesis
      using cs(1)
      by (intro exI [of _ "47 # 47 # b"] exI [of _ rest']) (auto intro!: gap.line_comment)
  next
    case block
    then obtain cs where cs: "rest = 47 # 42 # cs"
        "stands (pre @ [47, 42]) cs (advance (advance l))"
      using stands_two [OF assms(1), of 47 42] by auto
    from skip_block_comment_text [OF cs(2)] obtain b rest' where
      b: "cs = b @ rest'" "stands ((pre @ [47, 42]) @ b) rest' l'" and
      alt: "(\<exists>d. b = d @ [42, 47] \<and> 0 \<notin> set d \<and> (\<forall>x y. d @ [42] \<noteq> x @ 42 # 47 # y))
            \<or> (0 \<notin> set b \<and> ends_with_nul rest')"
      using block(3) by blast
    have "\<forall>g' r. rest' = g' @ r \<longrightarrow> gap g' r \<longrightarrow> gap (47 # 42 # b @ g') r"
      using alt
    proof (elim disjE exE conjE)
      fix d
      assume d: "b = d @ [42, 47]" "0 \<notin> set d" "\<forall>x y. d @ [42] \<noteq> x @ 42 # 47 # y"
      then show ?thesis using gap.block_comment [OF d(2,3)] by auto
    next
      assume "0 \<notin> set b" "ends_with_nul rest'"
      show ?thesis
      proof (intro allI impI)
        fix g' r
        assume g': "rest' = g' @ r" "gap g' r"
        have "g' = []"
          using g'(2,1) \<open>ends_with_nul rest'\<close>
          by (cases rule: gap.cases) (auto simp: ends_with_nul_def)
        then show "gap (47 # 42 # b @ g') r"
          using g' \<open>0 \<notin> set b\<close> \<open>ends_with_nul rest'\<close> by (auto intro: gap.open_comment)
      qed
    qed
    then show ?thesis
      using b cs(1) by (intro exI [of _ "47 # 42 # b"] exI [of _ rest']) auto
  qed
qed

lemma skip_ws_gap:
  "stands pre rest l \<Longrightarrow>
     \<exists>g rest'. rest = g @ rest' \<and> gap g rest' \<and> stands (pre @ g) rest' (skip_ws l)"
proof (induction l arbitrary: pre rest rule: skip_ws.induct)
  case (1 l)
  obtain b r1 where b: "rest = b @ r1" "set b \<subseteq> {32, 9, 13}"
      "stands (pre @ b) r1 (skip_blanks l)"
    using skip_blanks_gap [OF "1.prems"] by blast
  show ?case
  proof (cases "skip_turn (skip_blanks l)")
    case None
    then show ?thesis
      using b blanks_gap [OF b(2) gap.none, of r1]
      by (intro exI [of _ b] exI [of _ r1]) (simp add: skip_ws.simps [of l])
  next
    case (Some l')
    obtain g r2 where g: "r1 = g @ r2" "stands ((pre @ b) @ g) r2 l'"
        "\<forall>g' r. r2 = g' @ r \<longrightarrow> gap g' r \<longrightarrow> gap (g @ g') r"
      using skip_turn_gap [OF b(3) Some] by blast
    obtain g' r3 where g': "r2 = g' @ r3" "gap g' r3" "stands (((pre @ b) @ g) @ g') r3 (skip_ws l')"
      using "1.IH" [OF Some g(2)] by blast
    then have "gap (b @ g @ g') r3" using blanks_gap [OF b(2)] g(3) by blast
    then show ?thesis
      using b(1) g(1) g' Some
      by (intro exI [of _ "b @ g @ g'"] exI [of _ r3]) (simp add: skip_ws.simps [of l])
  qed
qed

section \<open>The text of a token\<close>

text \<open>The text a string literal denotes, from the runes between the quotes.\<close>

fun unescape :: "nat list \<Rightarrow> string" where
  "unescape [] = []"
| "unescape (c # cs) =
     (if c = 92
      then (case cs of [] \<Rightarrow> [] | d # ds \<Rightarrow> string_escape d @ unescape ds)
      else encode_rune c @ unescape cs)"

text \<open>The runes that can stand between the quotes \<open>q\<close>.\<close>

fun string_body :: "nat \<Rightarrow> nat list \<Rightarrow> bool" where
  "string_body q [] = True"
| "string_body q (c # cs) =
     (if c = 92 then (case cs of [] \<Rightarrow> False | d # ds \<Rightarrow> string_body q ds)
      else c \<noteq> q \<and> c \<noteq> 0 \<and> c \<noteq> 10 \<and> string_body q cs)"

definition number_rune :: "nat \<Rightarrow> bool" where
  "number_rune c = (is_dec c \<or> c \<in> {byte (CHR ''.''), byte (CHR ''e''), byte (CHR ''E''),
                                   byte (CHR ''+''), byte (CHR ''-'')})"

definition string_lexeme :: "token \<Rightarrow> nat list \<Rightarrow> bool" where
  "string_lexeme t s =
     (tok_type t = TkString
      \<and> (\<exists>q body. q \<in> {34, 39} \<and> s = q # body @ [q] \<and> string_body q body
          \<and> literal t = unescape body))"

definition number_lexeme :: "token \<Rightarrow> nat list \<Rightarrow> bool" where
  "number_lexeme t s =
     (tok_type t \<in> {TkInt, TkFloat} \<and> literal t = enc s \<and> s \<noteq> [] \<and> is_dec (hd s)
      \<and> list_all number_rune s \<and> (tok_type t = TkInt \<longleftrightarrow> list_all is_dec s))"

definition ident_lexeme :: "unicode \<Rightarrow> token \<Rightarrow> nat list \<Rightarrow> nat list \<Rightarrow> bool" where
  "ident_lexeme u t s rest =
     (tok_type t = lookup_ident (literal t) \<and> literal t = enc s
      \<and> s \<noteq> [] \<and> is_ident_start u (hd s) \<and> list_all (is_ident_part u) s
      \<and> (rest \<noteq> [] \<longrightarrow> \<not> is_ident_part u (hd rest)))"

definition operator_lexeme :: "token \<Rightarrow> nat list \<Rightarrow> nat list \<Rightarrow> bool" where
  "operator_lexeme t s rest =
     (literal t = enc s \<and> tok_type t \<noteq> TkIllegal
      \<and> ((\<exists>c d. s = [c, d] \<and> two_char c d = Some (tok_type t, literal t))
         \<or> (\<exists>c. s = [c] \<and> single_char c = (tok_type t, literal t)
              \<and> (\<forall>d. rest \<noteq> [] \<longrightarrow> hd rest = d \<longrightarrow> two_char c d = None))))"

section \<open>Each reader takes the text of its token\<close>

lemma read_string_loop_text:
  "stands pre rest l \<Longrightarrow> q \<in> {34, 39} \<Longrightarrow> read_string_loop q l b = (True, b', l') \<Longrightarrow>
     \<exists>body rest'. rest = body @ q # rest' \<and> string_body q body \<and> b' = b @ unescape body
       \<and> stands (pre @ body @ [q]) rest' l'"
proof (induction q l b arbitrary: pre rest rule: read_string_loop.induct)
  case (1 q l b)
  consider (close) "lx_ch l = q" | (stop) "lx_ch l \<noteq> q" "lx_ch l = 0 \<or> lx_ch l = 10"
    | (esc) "lx_ch l \<noteq> q" "\<not> (lx_ch l = 0 \<or> lx_ch l = 10)" "lx_ch l = 92"
    | (plain) "lx_ch l \<noteq> q" "\<not> (lx_ch l = 0 \<or> lx_ch l = 10)" "lx_ch l \<noteq> 92" by blast
  then show ?case
  proof cases
    case close
    then have "lx_ch l \<noteq> 0" using "1.prems"(2) by auto
    then obtain cs where "rest = lx_ch l # cs" "stands (pre @ [lx_ch l]) cs (advance l)"
      using stands_nonzero [OF "1.prems"(1)] by blast
    then show ?thesis
      using close "1.prems"(3)
      by (intro exI [of _ "[]"] exI [of _ cs]) (simp add: read_string_loop.simps [of q l])
  next
    case stop
    then show ?thesis using "1.prems"(3) by (auto simp: read_string_loop.simps [of q l])
  next
    case esc
    then obtain cs where cs: "rest = 92 # cs" "stands (pre @ [92]) cs (advance l)"
      using stands_nonzero [OF "1.prems"(1)] by metis
    have run: "read_string_loop q (advance (advance l)) (b @ string_escape (lx_ch (advance l)))
        = (True, b', l')"
      using esc "1.prems"(3) by (simp add: read_string_loop.simps [of q l])
    show ?thesis
    proof (cases cs)
      case Nil
      then have "stands (pre @ [92]) [] (advance (advance l))" using cs(2) stands_advance_end by blast
      from "1.IH"(1) [OF esc this "1.prems"(2) run] show ?thesis by simp
    next
      case (Cons d ds)
      then have "stands (pre @ [92, d]) ds (advance (advance l))" and ch: "lx_ch (advance l) = d"
        using cs(2) stands_advance [of "pre @ [92]" d ds "advance l"] stands_ch [OF cs(2)] by auto
      from "1.IH"(1) [OF esc this(1) "1.prems"(2) run] obtain body rest' where
        "ds = body @ q # rest'" "string_body q body"
        "b' = (b @ string_escape d) @ unescape body"
        "stands ((pre @ [92, d]) @ body @ [q]) rest' l'" by (auto simp: ch)
      then show ?thesis
        using cs(1) Cons by (intro exI [of _ "92 # d # body"] exI [of _ rest']) simp
    qed
  next
    case plain
    then obtain cs where cs: "rest = lx_ch l # cs" "stands (pre @ [lx_ch l]) cs (advance l)"
      using stands_nonzero [OF "1.prems"(1)] by metis
    have run: "read_string_loop q (advance l) (b @ encode_rune (lx_ch l)) = (True, b', l')"
      using plain "1.prems"(3) by (simp add: read_string_loop.simps [of q l])
    from "1.IH"(2) [OF plain cs(2) "1.prems"(2) run] obtain body rest' where
      "cs = body @ q # rest'" "string_body q body"
      "b' = (b @ encode_rune (lx_ch l)) @ unescape body"
      "stands ((pre @ [lx_ch l]) @ body @ [q]) rest' l'" by auto
    then show ?thesis
      using cs(1) plain by (intro exI [of _ "lx_ch l # body"] exI [of _ rest']) simp
  qed
qed

lemma read_digits_text:
  "stands pre rest l \<Longrightarrow> read_digits l b = (b', l') \<Longrightarrow>
     \<exists>s rest'. rest = s @ rest' \<and> list_all is_dec s \<and> b' = b @ enc s \<and> stands (pre @ s) rest' l'
       \<and> (is_dec (lx_ch l) \<longrightarrow> s \<noteq> [] \<and> hd s = lx_ch l)"
proof (induction l b arbitrary: pre rest rule: read_digits.induct)
  case (1 l b)
  show ?case
  proof (cases "is_dec (lx_ch l)")
    case True
    then have "lx_ch l \<noteq> 0" by (auto simp: is_dec_def)
    then obtain cs where cs: "rest = lx_ch l # cs" "stands (pre @ [lx_ch l]) cs (advance l)"
      using stands_nonzero [OF "1.prems"(1)] by blast
    have "read_digits (advance l) (b @ encode_rune (lx_ch l)) = (b', l')"
      using True "1.prems"(2) by (simp add: read_digits.simps [of l])
    from "1.IH" [OF True cs(2) this] obtain s rest' where
      "cs = s @ rest'" "list_all is_dec s" "b' = (b @ encode_rune (lx_ch l)) @ enc s"
      "stands ((pre @ [lx_ch l]) @ s) rest' l'" by blast
    then show ?thesis
      using cs(1) True by (intro exI [of _ "lx_ch l # s"] exI [of _ rest']) simp
  next
    case False
    then show ?thesis
      using "1.prems" by (intro exI [of _ "[]"] exI [of _ rest]) (simp add: read_digits.simps [of l])
  qed
qed

lemma read_ident_loop_text:
  "stands pre rest l \<Longrightarrow> read_ident_loop u l b = (b', l') \<Longrightarrow>
     \<exists>s rest'. rest = s @ rest' \<and> list_all (is_ident_part u) s \<and> b' = b @ enc s
       \<and> stands (pre @ s) rest' l' \<and> (rest' \<noteq> [] \<longrightarrow> \<not> is_ident_part u (hd rest'))
       \<and> (is_ident_part u (lx_ch l) \<longrightarrow> s \<noteq> [] \<and> hd s = lx_ch l)"
proof (induction u l b arbitrary: pre rest rule: read_ident_loop.induct)
  case (1 u l b)
  show ?case
  proof (cases "is_ident_part u (lx_ch l)")
    case True
    then obtain cs where cs: "rest = lx_ch l # cs" "stands (pre @ [lx_ch l]) cs (advance l)"
      using stands_nonzero [OF "1.prems"(1)] ident_part_nonzero by blast
    have "read_ident_loop u (advance l) (b @ encode_rune (lx_ch l)) = (b', l')"
      using True "1.prems"(2) by (simp add: read_ident_loop.simps [of u l])
    from "1.IH" [OF True cs(2) this] obtain s rest' where
      "cs = s @ rest'" "list_all (is_ident_part u) s" "b' = (b @ encode_rune (lx_ch l)) @ enc s"
      "stands ((pre @ [lx_ch l]) @ s) rest' l'" "rest' \<noteq> [] \<longrightarrow> \<not> is_ident_part u (hd rest')" by blast
    then show ?thesis
      using cs(1) True by (intro exI [of _ "lx_ch l # s"] exI [of _ rest']) simp
  next
    case False
    then show ?thesis
      using "1.prems" stands_ch [OF "1.prems"(1)]
      by (intro exI [of _ "[]"] exI [of _ rest])
        (auto simp: read_ident_loop.simps [of u l] split: list.splits)
  qed
qed

lemma digits_number: "list_all is_dec s \<Longrightarrow> list_all number_rune s"
  by (auto simp: list_all_iff number_rune_def)

lemma read_fraction_text:
  assumes "stands pre rest l" "read_fraction (b, l) = (f, b', l')"
  shows "\<exists>s rest'. rest = s @ rest' \<and> list_all number_rune s \<and> b' = b @ enc s
           \<and> stands (pre @ s) rest' l' \<and> (f \<longleftrightarrow> \<not> list_all is_dec s) \<and> (\<not> f \<longrightarrow> s = [])"
proof (cases "lx_ch l = 46 \<and> is_dec (lex_peek l)")
  case True
  then obtain cs where cs: "rest = 46 # cs" "stands (pre @ [46]) cs (advance l)"
    using stands_nonzero [OF assms(1)] by auto
  obtain b1 l1 where r: "read_digits (advance l) (b @ encode_rune 46) = (b1, l1)" by fastforce
  from read_digits_text [OF cs(2) r] obtain s rest' where
    "cs = s @ rest'" "list_all is_dec s" "b1 = (b @ encode_rune 46) @ enc s"
    "stands ((pre @ [46]) @ s) rest' l1" by blast
  then show ?thesis
    using assms(2) True r cs(1) digits_number [of s]
    by (intro exI [of _ "46 # s"] exI [of _ rest'])
      (auto simp: read_fraction_def number_rune_def is_dec_def)
next
  case False
  then show ?thesis
    using assms by (intro exI [of _ "[]"] exI [of _ rest]) (auto simp: read_fraction_def)
qed

lemma read_exponent_text:
  assumes "stands pre rest l" "read_exponent (b, l) = (f, b', l')"
  shows "\<exists>s rest'. rest = s @ rest' \<and> list_all number_rune s \<and> b' = b @ enc s
           \<and> stands (pre @ s) rest' l' \<and> (f \<longleftrightarrow> \<not> list_all is_dec s) \<and> (\<not> f \<longrightarrow> s = [])"
proof (cases "lx_ch l = 101 \<or> lx_ch l = 69")
  case True
  define c where "c = lx_ch l"
  have "c \<noteq> 0" using True c_def by auto
  then obtain cs where cs: "rest = c # cs" "stands (pre @ [c]) cs (advance l)"
    using stands_nonzero [OF assms(1)] c_def by blast
  have c: "number_rune c" "\<not> is_dec c" using True by (auto simp: c_def number_rune_def is_dec_def)
  show ?thesis
  proof (cases "lx_ch (advance l) = 43 \<or> lx_ch (advance l) = 45")
    case sign: True
    define d where "d = lx_ch (advance l)"
    have "d \<noteq> 0" using sign d_def by auto
    then obtain ds where ds: "cs = d # ds" "stands ((pre @ [c]) @ [d]) ds (advance (advance l))"
      using stands_nonzero [OF cs(2)] d_def by blast
    have r: "read_digits (advance (advance l)) ((b @ encode_rune c) @ encode_rune d) = (b', l')"
      and f: "f" using assms(2) True sign by (auto simp: read_exponent_def c_def d_def Let_def)
    from read_digits_text [OF ds(2) r] obtain s rest' where
      "ds = s @ rest'" "list_all is_dec s" "b' = ((b @ encode_rune c) @ encode_rune d) @ enc s"
      "stands (((pre @ [c]) @ [d]) @ s) rest' l'" by blast
    moreover have "number_rune d" using sign by (auto simp: d_def number_rune_def)
    ultimately show ?thesis
      using c f cs(1) ds(1) digits_number [of s]
      by (intro exI [of _ "c # d # s"] exI [of _ rest']) simp
  next
    case False
    then have r: "read_digits (advance l) (b @ encode_rune c) = (b', l')"
      and f: "f" using assms(2) True by (auto simp: read_exponent_def c_def Let_def)
    from read_digits_text [OF cs(2) r] obtain s rest' where
      "cs = s @ rest'" "list_all is_dec s" "b' = (b @ encode_rune c) @ enc s"
      "stands ((pre @ [c]) @ s) rest' l'" by blast
    then show ?thesis
      using c f cs(1) digits_number [of s] by (intro exI [of _ "c # s"] exI [of _ rest']) simp
  qed
next
  case False
  then show ?thesis
    using assms by (intro exI [of _ "[]"] exI [of _ rest]) (auto simp: read_exponent_def)
qed

lemma read_number_text:
  assumes "stands pre rest l" "is_dec (lx_ch l)" "read_number l line col = (t, l')"
  shows "\<exists>s rest'. rest = s @ rest' \<and> number_lexeme t s \<and> stands (pre @ s) rest' l'
           \<and> tok_line t = line \<and> tok_col t = col"
proof -
  obtain b1 l1 where r1: "read_digits l [] = (b1, l1)" by fastforce
  obtain f2 b2 l2 where r2: "read_fraction (b1, l1) = (f2, b2, l2)" by (cases "read_fraction (b1, l1)")
  obtain f3 b3 l3 where r3: "read_exponent (b2, l2) = (f3, b3, l3)" by (cases "read_exponent (b2, l2)")
  obtain s1 q1 where s1: "rest = s1 @ q1" "list_all is_dec s1" "b1 = enc s1"
      "stands (pre @ s1) q1 l1" "s1 \<noteq> []" "hd s1 = lx_ch l"
    using read_digits_text [OF assms(1) r1] assms(2) by auto
  obtain s2 q2 where s2: "q1 = s2 @ q2" "list_all number_rune s2" "b2 = b1 @ enc s2"
      "stands ((pre @ s1) @ s2) q2 l2" "f2 \<longleftrightarrow> \<not> list_all is_dec s2"
    using read_fraction_text [OF s1(4) r2] by blast
  obtain s3 q3 where s3: "q2 = s3 @ q3" "list_all number_rune s3" "b3 = b2 @ enc s3"
      "stands (((pre @ s1) @ s2) @ s3) q3 l3" "f3 \<longleftrightarrow> \<not> list_all is_dec s3"
    using read_exponent_text [OF s2(4) r3] by blast
  let ?dot = "\<not> (f2 \<or> f3) \<and> lx_ch l3 = 46 \<and> \<not> is_dec (lex_peek l3)"
  have t: "t = mk_token (if f2 \<or> f3 \<or> ?dot then TkFloat else TkInt)
             (if ?dot then b3 @ encode_rune 46 else b3) line col"
    and l': "l' = (if ?dot then advance l3 else l3)"
    using assms(3) by (auto simp: read_number_def r1 r2 r3 Let_def)
  have hd: "is_dec (hd (s1 @ x))" for x using s1(5,6) assms(2) by simp
  show ?thesis
  proof (cases ?dot)
    case True
    then obtain cs where "q3 = 46 # cs" "stands ((((pre @ s1) @ s2) @ s3) @ [46]) cs (advance l3)"
      using stands_nonzero [OF s3(4)] by auto
    then show ?thesis
      using True s1 s2 s3 t l' hd digits_number [OF s1(2)]
      by (intro exI [of _ "s1 @ s2 @ s3 @ [46]"] exI [of _ cs])
        (simp add: number_lexeme_def number_rune_def is_dec_def)
  next
    case False
    then show ?thesis
      using s1 s2 s3 t l' hd digits_number [OF s1(2)]
      by (intro exI [of _ "s1 @ s2 @ s3"] exI [of _ q3]) (auto simp: number_lexeme_def)
  qed
qed

lemma read_ident_text:
  assumes "stands pre rest l" "is_ident_start u (lx_ch l)" "read_ident u l line col = (t, l')"
  shows "\<exists>s rest'. rest = s @ rest' \<and> ident_lexeme u t s rest' \<and> stands (pre @ s) rest' l'
           \<and> tok_line t = line \<and> tok_col t = col"
proof -
  obtain b' where r: "read_ident_loop u l [] = (b', l')"
    and t: "t = mk_token (lookup_ident b') b' line col"
    using assms(3) by (auto simp: read_ident_def Let_def split: prod.splits)
  from read_ident_loop_text [OF assms(1) r] obtain s rest' where
    "rest = s @ rest'" "list_all (is_ident_part u) s" "b' = enc s" "stands (pre @ s) rest' l'"
    "rest' \<noteq> [] \<longrightarrow> \<not> is_ident_part u (hd rest')"
    "is_ident_part u (lx_ch l) \<longrightarrow> s \<noteq> [] \<and> hd s = lx_ch l" by auto
  then show ?thesis
    using assms(2) ident_start_part [OF assms(2)] t
    by (intro exI [of _ s] exI [of _ rest']) (simp add: ident_lexeme_def)
qed

lemma read_string_text:
  assumes "stands pre rest l" "lx_ch l = 34 \<or> lx_ch l = 39" "read_string l line col = (t, l')"
    and "tok_type t \<noteq> TkIllegal"
  shows "\<exists>s rest'. rest = s @ rest' \<and> string_lexeme t s \<and> stands (pre @ s) rest' l'
           \<and> tok_line t = line \<and> tok_col t = col"
proof -
  define q where "q = lx_ch l"
  have q: "q \<in> {34, 39}" "lx_ch l \<noteq> 0" using assms(2) by (auto simp: q_def)
  obtain cs where cs: "rest = q # cs" "stands (pre @ [q]) cs (advance l)"
    using stands_nonzero [OF assms(1) q(2)] q_def by blast
  obtain b' where r: "read_string_loop q (advance l) [] = (True, b', l')"
    and t: "t = mk_token TkString b' line col"
    using assms(3,4) by (auto simp: read_string_def q_def Let_def split: prod.splits if_splits)
  from read_string_loop_text [OF cs(2) q(1) r] obtain body rest' where
    "cs = body @ q # rest'" "string_body q body" "b' = unescape body"
    "stands ((pre @ [q]) @ body @ [q]) rest' l'" by auto
  then show ?thesis
    using cs(1) q(1) t
    by (intro exI [of _ "q # body @ [q]"] exI [of _ rest']) (auto simp: string_lexeme_def)
qed

lemma two_char_text:
  "two_char c p = Some (tt, lit) \<Longrightarrow> lit = enc [c, p] \<and> c \<noteq> 0 \<and> p \<noteq> 0 \<and> tt \<noteq> TkIllegal \<and> tt \<noteq> TkEOF"
  by (simp only: two_char_def split: if_splits)
    (auto simp: encode_rune_def char_of_def bit_Suc_0_iff)

lemma single_char_text: "snd (single_char c) = enc [c]"
  by (simp add: single_char_def encode_rune_def char_of_def bit_Suc_0_iff)

lemma single_char_not_eof: "fst (single_char c) \<noteq> TkEOF"
  by (simp add: single_char_def)

lemma two_char_none_zero: "two_char c 0 = None"
  by (simp add: two_char_def)

section \<open>A whole run\<close>

definition lexeme :: "unicode \<Rightarrow> token \<Rightarrow> nat list \<Rightarrow> nat list \<Rightarrow> bool" where
  "lexeme u t s rest =
     ((tok_type t = TkNewline \<and> literal t = [CHR 0x5C, CHR ''n''] \<and> s = [10])
      \<or> string_lexeme t s \<or> number_lexeme t s \<or> ident_lexeme u t s rest \<or> operator_lexeme t s rest)"

inductive scans :: "unicode \<Rightarrow> nat list \<Rightarrow> nat list \<Rightarrow> token list \<Rightarrow> token option \<Rightarrow> bool"
  for u :: unicode where
  scans_end: "gap g rest \<Longrightarrow> ends_with_nul rest \<Longrightarrow> tok_type t = TkEOF \<Longrightarrow> literal t = []
    \<Longrightarrow> scans u pre (g @ rest) [t] None"
| scans_illegal: "gap g rest \<Longrightarrow> \<not> ends_with_nul rest \<Longrightarrow> tok_type t = TkIllegal
    \<Longrightarrow> tok_line t = line_after (pre @ g) \<Longrightarrow> tok_col t = col_after (pre @ g)
    \<Longrightarrow> scans u pre (g @ rest) [t] (Some t)"
| scans_token: "gap g (s @ rest) \<Longrightarrow> lexeme u t s rest
    \<Longrightarrow> tok_line t = line_after (pre @ g) \<Longrightarrow> tok_col t = col_after (pre @ g)
    \<Longrightarrow> scans u (pre @ g @ s) rest ts e \<Longrightarrow> scans u pre (g @ s @ rest) (t # ts) e"

lemma operator_lexeme_proper:
  assumes "operator_lexeme t s rest"
  shows "tok_type t \<noteq> TkEOF \<and> tok_type t \<noteq> TkIllegal"
proof -
  from assms consider (two) c d where "two_char c d = Some (tok_type t, literal t)"
    | (one) c where "single_char c = (tok_type t, literal t)"
    by (auto simp: operator_lexeme_def)
  then have "tok_type t \<noteq> TkEOF"
  proof cases
    case two
    then show ?thesis using two_char_text by blast
  next
    case one
    then show ?thesis using single_char_not_eof [of c] by simp
  qed
  then show ?thesis using assms by (simp add: operator_lexeme_def)
qed

lemma lexeme_proper:
  assumes "lexeme u t s rest"
  shows "tok_type t \<noteq> TkEOF \<and> tok_type t \<noteq> TkIllegal"
proof -
  from assms consider "tok_type t \<in> {TkNewline, TkString, TkInt, TkFloat}"
    | "tok_type t = lookup_ident (literal t)" | "operator_lexeme t s rest"
    by (auto simp: lexeme_def string_lexeme_def number_lexeme_def ident_lexeme_def)
  then show ?thesis by cases (auto dest: operator_lexeme_proper)
qed

lemma lexeme_nonempty: "lexeme u t s rest \<Longrightarrow> s \<noteq> []"
  by (auto simp: lexeme_def string_lexeme_def number_lexeme_def ident_lexeme_def
      operator_lexeme_def)

lemma next_token_scans:
  assumes "stands pre rest l" "next_token u l = (t, l')"
  shows "\<exists>g rest'. rest = g @ rest' \<and> gap g rest' \<and>
           ((tok_type t = TkEOF \<and> literal t = [] \<and> ends_with_nul rest')
            \<or> (\<not> ends_with_nul rest' \<and> tok_line t = line_after (pre @ g)
               \<and> tok_col t = col_after (pre @ g)
               \<and> (tok_type t = TkIllegal
                  \<or> (\<exists>s r. rest' = s @ r \<and> lexeme u t s r \<and> stands (pre @ g @ s) r l'))))"
proof -
  obtain g rest' where g: "rest = g @ rest'" "gap g rest'" and st: "stands (pre @ g) rest' (skip_ws l)"
    using skip_ws_gap [OF assms(1)] by blast
  define k where "k = skip_ws l"
  note st = st [folded k_def]
  have nt: "(t, l') = (if lx_ch k = 0 then (mk_token TkEOF [] (lx_line k) (lx_col k), k)
         else if lx_ch k = 10
         then (mk_token TkNewline [CHR 0x5C, CHR ''n''] (lx_line k) (lx_col k), advance k)
         else if lx_ch k = 34 \<or> lx_ch k = 39 then read_string k (lx_line k) (lx_col k)
         else if is_dec (lx_ch k) then read_number k (lx_line k) (lx_col k)
         else if is_ident_start u (lx_ch k) then read_ident u k (lx_line k) (lx_col k)
         else case try_two_char k (lx_line k) (lx_col k) of
                Some r \<Rightarrow> r
              | None \<Rightarrow> read_single_char k (lx_line k) (lx_col k))"
    using assms(2) [symmetric] unfolding next_token_def Let_def k_def .
  show ?thesis
  proof (cases "lx_ch k = 0")
    case True
    then have "ends_with_nul rest'" using stands_ch [OF st] by (cases rest') (auto simp: ends_with_nul_def)
    then show ?thesis using True nt g by auto
  next
    case nz: False
    then obtain cs where cs: "rest' = lx_ch k # cs" "stands ((pre @ g) @ [lx_ch k]) cs (advance k)"
      using stands_nonzero [OF st] by blast
    have pos: "lx_line k = line_after (pre @ g)" "lx_col k = col_after (pre @ g)"
      using st cs(1) by (auto simp: stands_def)
    have notend: "\<not> ends_with_nul rest'" using cs(1) nz by (simp add: ends_with_nul_def)
    have "tok_line t = line_after (pre @ g) \<and> tok_col t = col_after (pre @ g) \<and>
        (tok_type t = TkIllegal
         \<or> (\<exists>s r. rest' = s @ r \<and> lexeme u t s r \<and> stands ((pre @ g) @ s) r l'))"
    proof -
      consider (nl) "lx_ch k = 10" | (str) "lx_ch k = 34 \<or> lx_ch k = 39"
        | (num) "is_dec (lx_ch k)" "lx_ch k \<noteq> 10" "\<not> (lx_ch k = 34 \<or> lx_ch k = 39)"
        | (ident) "is_ident_start u (lx_ch k)" "\<not> is_dec (lx_ch k)" "lx_ch k \<noteq> 10"
            "\<not> (lx_ch k = 34 \<or> lx_ch k = 39)"
        | (oper) "\<not> is_ident_start u (lx_ch k)" "\<not> is_dec (lx_ch k)" "lx_ch k \<noteq> 10"
            "\<not> (lx_ch k = 34 \<or> lx_ch k = 39)" by blast
      then show ?thesis
      proof cases
        case nl
        then show ?thesis
          using nt pos cs
          by (intro conjI disjI2 exI [of _ "[10]"] exI [of _ cs]) (simp_all add: lexeme_def)
      next
        case str
        then have r: "read_string k (lx_line k) (lx_col k) = (t, l')" using nt nz by auto
        have "tok_line t = lx_line k" "tok_col t = lx_col k"
          using r by (auto simp: read_string_def Let_def split: prod.splits)
        then show ?thesis using read_string_text [OF st str r] pos by (auto simp: lexeme_def)
      next
        case num
        then have r: "read_number k (lx_line k) (lx_col k) = (t, l')" using nt nz by auto
        show ?thesis using read_number_text [OF st num(1) r] pos by (auto simp: lexeme_def)
      next
        case ident
        then have r: "read_ident u k (lx_line k) (lx_col k) = (t, l')" using nt nz by auto
        show ?thesis using read_ident_text [OF st ident(1) r] pos by (auto simp: lexeme_def)
      next
        case oper
        have pk: "lex_peek k = (case cs of [] \<Rightarrow> 0 | d # _ \<Rightarrow> d)"
          using stands_peek st cs(1) by blast
        show ?thesis
        proof (cases "two_char (lx_ch k) (lex_peek k)")
          case None
          then have t: "tok_type t = fst (single_char (lx_ch k))"
            "literal t = snd (single_char (lx_ch k))" "tok_line t = lx_line k"
            "tok_col t = lx_col k" "l' = advance k"
            using nt oper nz
            by (auto simp: try_two_char_def read_single_char_def Let_def split: prod.splits)
          have "single_char (lx_ch k) = (tok_type t, literal t)" using t by simp
          moreover have "literal t = enc [lx_ch k]"
            using t(2) single_char_text [of "lx_ch k"] by simp
          moreover have "\<forall>d. cs \<noteq> [] \<longrightarrow> hd cs = d \<longrightarrow> two_char (lx_ch k) d = None"
            using None pk by (cases cs) auto
          ultimately have "lexeme u t [lx_ch k] cs" if "tok_type t \<noteq> TkIllegal"
            using that by (simp add: lexeme_def operator_lexeme_def)
          then show ?thesis
            using t(3-5) pos cs
            by (cases "tok_type t = TkIllegal")
              (simp, intro conjI disjI2 exI [of _ "[lx_ch k]"] exI [of _ cs], simp_all)
        next
          case (Some r)
          obtain tt lit where r: "r = (tt, lit)" by (cases r)
          note tx = two_char_text [OF Some [unfolded r]]
          have t: "t = mk_token tt lit (lx_line k) (lx_col k)" "l' = advance (advance k)"
            using nt oper nz Some r by (auto simp: try_two_char_def)
          obtain ds where ds: "cs = lex_peek k # ds" using pk tx by (cases cs) auto
          then have "stands ((pre @ g) @ [lx_ch k, lex_peek k]) ds l'"
            using stands_advance [of "(pre @ g) @ [lx_ch k]" "lex_peek k" ds "advance k"] cs(2) t(2)
            by simp
          moreover have "lexeme u t [lx_ch k, lex_peek k] ds"
            using t(1) tx Some r by (auto simp: lexeme_def operator_lexeme_def)
          ultimately show ?thesis
            using cs(1) ds t(1) pos
            by (intro conjI disjI2 exI [of _ "[lx_ch k, lex_peek k]"] exI [of _ ds]) simp_all
        qed
      qed
    qed
    then show ?thesis using g notend by (intro exI [of _ g] exI [of _ rest']) simp
  qed
qed

lemma tokenize_loop_scans:
  "stands pre rest l \<Longrightarrow>
     \<exists>ts. fst (tokenize_loop u l acc) = acc @ ts
          \<and> scans u pre rest ts (snd (tokenize_loop u l acc))"
proof (induction u l acc arbitrary: pre rest rule: tokenize_loop.induct)
  case (1 u l acc)
  obtain t l' where nt: "next_token u l = (t, l')" by fastforce
  from next_token_scans [OF "1.prems" nt] obtain g rest' where
    g: "rest = g @ rest'" "gap g rest'" and
    alt: "(tok_type t = TkEOF \<and> literal t = [] \<and> ends_with_nul rest')
          \<or> (\<not> ends_with_nul rest' \<and> tok_line t = line_after (pre @ g)
             \<and> tok_col t = col_after (pre @ g)
             \<and> (tok_type t = TkIllegal
                \<or> (\<exists>s r. rest' = s @ r \<and> lexeme u t s r \<and> stands (pre @ g @ s) r l')))"
    by blast
  from alt consider (eof) "tok_type t = TkEOF" "literal t = []" "ends_with_nul rest'"
    | (ill) "\<not> ends_with_nul rest'" "tok_type t = TkIllegal"
        "tok_line t = line_after (pre @ g)" "tok_col t = col_after (pre @ g)"
    | (tok) s r where "rest' = s @ r" "lexeme u t s r" "stands (pre @ g @ s) r l'"
        "tok_line t = line_after (pre @ g)" "tok_col t = col_after (pre @ g)" by blast
  then show ?case
  proof cases
    case eof
    then show ?thesis
      using nt g by (auto simp: tokenize_loop.simps [of u l] intro: scans.scans_end)
  next
    case ill
    then show ?thesis
      using nt g by (auto simp: tokenize_loop.simps [of u l] intro: scans.scans_illegal)
  next
    case tok
    note p = lexeme_proper [OF tok(2)]
    have run: "tokenize_loop u l acc = tokenize_loop u l' (acc @ [t])"
      using nt p by (simp add: tokenize_loop.simps [of u l])
    obtain ts where "fst (tokenize_loop u l' (acc @ [t])) = (acc @ [t]) @ ts"
        "scans u (pre @ g @ s) r ts (snd (tokenize_loop u l' (acc @ [t])))"
      using "1.IH" [of "(t, l')" t l' "acc @ [t]" "pre @ g @ s" r] nt p tok(3) by auto
    then show ?thesis
      using run g tok by (auto intro!: exI [of _ "t # ts"] scans.scans_token)
  qed
qed

lemma tokenize_scan:
  "scans u [] (runes s) (fst (tokenize u s)) (snd (tokenize u s))"
  using tokenize_loop_scans [OF stands_new, where u = u and acc = "[]"]
  by (auto simp: tokenize_def)

section \<open>Consequences of the specification\<close>

lemma scans_shape:
  "scans u pre rest ts e \<Longrightarrow>
     \<exists>front t. ts = front @ [t]
       \<and> list_all (\<lambda>t. tok_type t \<noteq> TkEOF \<and> tok_type t \<noteq> TkIllegal) front
       \<and> (tok_type t = TkEOF \<and> e = None \<or> tok_type t = TkIllegal \<and> e = Some t)"
proof (induction rule: scans.induct)
  case (scans_token g s rest t pre ts e)
  then obtain front t' where
    "ts = front @ [t']" "list_all (\<lambda>t. tok_type t \<noteq> TkEOF \<and> tok_type t \<noteq> TkIllegal) front"
    "tok_type t' = TkEOF \<and> e = None \<or> tok_type t' = TkIllegal \<and> e = Some t'" by blast
  then show ?case
    using lexeme_proper [OF scans_token.hyps(2)]
    by (intro exI [of _ "t # front"] exI [of _ t']) simp
qed (simp_all)

text \<open>Keywords and identifiers are told apart by the keyword table alone.\<close>

definition operator_types :: "token_type list" where
  "operator_types =
     [TkIllegal, TkNewline, TkString, TkInt, TkFloat, TkPlus, TkMinus, TkStar, TkSlash, TkPercent,
      TkPlusEq, TkMinusEq, TkStarEq, TkSlashEq, TkPercentEq, TkEqEq, TkBangEq, TkLt, TkGt, TkLtEq,
      TkGtEq, TkNot, TkEq, TkColonEq, TkPlusPlus, TkMinusMinus, TkQuestion, TkColon, TkLBracket,
      TkRBracket, TkLParen, TkRParen, TkLBrace, TkRBrace, TkComma, TkDot, TkArrow]"

definition word_type :: "token_type \<Rightarrow> bool" where
  "word_type tt = (is_keyword tt \<or> tt \<in> {TkIdent, TkTrue, TkFalse, TkNa, TkAnd, TkOr})"

lemma index_of_less: "x \<in> fst ` set (take n xs) \<Longrightarrow> index_of x xs < n"
proof (induction xs arbitrary: n)
  case (Cons y ys)
  then show ?case by (cases y; cases n) auto
qed simp

lemma keyword_start: "type_code KwStrategy = 44"
  by (simp add: type_code_def type_names_def)

lemma early_types_no_keyword:
  "list_all (\<lambda>p. \<not> is_keyword (fst p)) (take 44 type_names)"
proof -
  have "type_code (fst p) < 44" if "p \<in> set (take 44 type_names)" for p
    unfolding type_code_def using that by (intro index_of_less) simp
  then show ?thesis by (simp add: list_all_iff is_keyword_def keyword_start not_le)
qed

lemma operator_types_no_word: "list_all (\<lambda>tt. \<not> word_type tt) operator_types"
  using early_types_no_keyword by (simp add: operator_types_def word_type_def type_names_def)

lemma eof_no_word: "\<not> word_type TkEOF"
  using early_types_no_keyword by (simp add: word_type_def type_names_def)

lemma two_char_types: "two_char c p = Some (tt, lit) \<Longrightarrow> tt \<in> set operator_types"
  by (simp only: two_char_def split: if_splits) (auto simp: operator_types_def)

lemma single_char_types: "fst (single_char c) \<in> set operator_types"
  by (simp add: single_char_def operator_types_def)

lemma operator_lexeme_types:
  assumes "operator_lexeme t s rest"
  shows "tok_type t \<in> set operator_types"
proof -
  from assms consider (two) c d where "two_char c d = Some (tok_type t, literal t)"
    | (one) c where "single_char c = (tok_type t, literal t)"
    by (auto simp: operator_lexeme_def)
  then show ?thesis
  proof cases
    case two
    then show ?thesis by (rule two_char_types)
  next
    case one
    then show ?thesis using single_char_types [of c] by simp
  qed
qed

lemma lexeme_word:
  assumes "lexeme u t s rest" "word_type (tok_type t)"
  shows "tok_type t = lookup_ident (literal t)"
proof -
  have no: "tok_type t \<notin> set operator_types"
    using assms(2) operator_types_no_word by (auto simp: list_all_iff)
  have "\<not> operator_lexeme t s rest"
    using no operator_lexeme_types by blast
  moreover have "{TkNewline, TkString, TkInt, TkFloat} \<subseteq> set operator_types"
    by (simp add: operator_types_def)
  with no have "tok_type t \<notin> {TkNewline, TkString, TkInt, TkFloat}" by blast
  ultimately show ?thesis
    using assms(1) by (auto simp: lexeme_def string_lexeme_def number_lexeme_def ident_lexeme_def)
qed

lemma scans_words:
  "scans u pre rest ts e \<Longrightarrow>
     list_all (\<lambda>t. word_type (tok_type t) \<longrightarrow> tok_type t = lookup_ident (literal t)) ts"
proof (induction rule: scans.induct)
  case (scans_illegal g rest t pre)
  then have "\<not> word_type (tok_type t)"
    using operator_types_no_word by (simp add: operator_types_def)
  then show ?case by simp
qed (auto simp: eof_no_word dest: lexeme_word)

subsection \<open>Positions\<close>

definition before :: "nat \<times> nat \<Rightarrow> nat \<times> nat \<Rightarrow> bool" where
  "before a b = (fst a < fst b \<or> fst a = fst b \<and> snd a < snd b)"

definition tok_pos :: "token \<Rightarrow> nat \<times> nat" where
  "tok_pos t = (tok_line t, tok_col t)"

abbreviation pos_after :: "nat list \<Rightarrow> nat \<times> nat" where
  "pos_after pre \<equiv> (line_after pre, col_after pre)"

lemma before_trans: "before a b \<Longrightarrow> before b c \<Longrightarrow> before a c"
  by (auto simp: before_def)

lemma pos_after_step: "before (pos_after pre) (pos_after (pre @ [c]))"
  by (simp add: before_def line_after_def col_after_def)

lemma pos_after_mono: "s \<noteq> [] \<Longrightarrow> before (pos_after pre) (pos_after (pre @ s))"
proof (induction s rule: rev_induct)
  case (snoc c s)
  then show ?case
    using pos_after_step [of pre c] pos_after_step [of "pre @ s" c]
    by (cases "s = []") (auto intro: before_trans)
qed simp

lemma scans_positions:
  "scans u pre rest ts e \<Longrightarrow>
     sorted_wrt before (map tok_pos (filter (\<lambda>t. tok_type t \<noteq> TkEOF) ts))
     \<and> (\<forall>t \<in> set ts. tok_type t \<noteq> TkEOF \<longrightarrow> tok_pos t = pos_after pre \<or> before (pos_after pre) (tok_pos t))"
proof (induction rule: scans.induct)
  case (scans_token g s rest t pre ts e)
  have t: "tok_pos t = pos_after (pre @ g)"
    using scans_token.hyps by (simp add: tok_pos_def)
  have "before (tok_pos t) (pos_after (pre @ g @ s))"
    using pos_after_mono [OF lexeme_nonempty [OF scans_token.hyps(2)], of "pre @ g"] t by simp
  moreover have from_pre: "pos_after pre = tok_pos t \<or> before (pos_after pre) (tok_pos t)"
    using pos_after_mono [of g pre] t by (cases "g = []") auto
  ultimately have "before (tok_pos t) (tok_pos x)" "before (pos_after pre) (tok_pos x)"
    if "x \<in> set ts" "tok_type x \<noteq> TkEOF" for x
    using that scans_token.IH by (metis before_trans)+
  then show ?case
    using scans_token.IH from_pre by auto
next
  case (scans_illegal g rest t pre)
  then show ?case
    using pos_after_mono [of g pre] by (cases "g = []") (auto simp: tok_pos_def)
qed (auto)

section \<open>Properties of the tokeniser\<close>

text \<open>
  C7. The tokens account for the whole source: for every source and whatever the Unicode tables,
  the result of \<open>Tokenize\<close> satisfies the lexical specification \<open>scans\<close>. Between two tokens stand
  only blanks, line continuations and comments; every rune outside them belongs to the lexeme of
  exactly one token, whose type, literal, line and column are those of the lexeme; the scan ends
  at the end of the source (or a NUL) without an error, or at the first illegal token with it.
\<close>

theorem tokenize_accounts:
  "scans u [] (runes s) (fst (tokenize u s)) (snd (tokenize u s))"
  by (rule tokenize_scan)

text \<open>
  C40. The token list always has exactly one end: it is not empty, no token before the last is
  \<open>EOF\<close> or \<open>ILLEGAL\<close>, and the last one is \<open>EOF\<close> with no error or \<open>ILLEGAL\<close> with the error naming it.
\<close>

theorem tokenize_one_end:
  "\<exists>front t. fst (tokenize u s) = front @ [t]
     \<and> list_all (\<lambda>t. tok_type t \<noteq> TkEOF \<and> tok_type t \<noteq> TkIllegal) front
     \<and> (tok_type t = TkEOF \<and> snd (tokenize u s) = None
        \<or> tok_type t = TkIllegal \<and> snd (tokenize u s) = Some t)"
  by (rule scans_shape [OF tokenize_scan])

text \<open>
  The positions of the tokens of a source strictly increase in the order line, then column
  (the \<open>EOF\<close> token apart, which repeats the position of the last rune). The parser's layout rule
  compares these columns.
\<close>

theorem tokenize_positions_increase:
  "sorted_wrt before (map tok_pos (filter (\<lambda>t. tok_type t \<noteq> TkEOF) (fst (tokenize u s))))"
  using scans_positions [OF tokenize_scan] by blast

text \<open>
  A token whose type is a keyword, a literal word or an identifier has exactly the type that
  the keyword table gives its literal: no keyword is read as an identifier, and no identifier as
  a keyword.
\<close>

theorem tokenize_words_by_table:
  "list_all (\<lambda>t. word_type (tok_type t) \<longrightarrow> tok_type t = lookup_ident (literal t))
     (fst (tokenize u s))"
  by (rule scans_words [OF tokenize_scan])

definition words_example :: string where
  "words_example = ''if iff''"

lemma words_example_tokens:
  "fst (tokenize latin_unicode words_example)
     = [mk_token KwIf ''if'' 1 1, mk_token TkIdent ''iff'' 1 4, mk_token TkEOF [] 1 6]"
  by code_simp

theorem tokenize_words_by_table_witness:
  "word_type KwIf \<and> KwIf = lookup_ident ''if'' \<and> word_type TkIdent \<and> TkIdent = lookup_ident ''iff''"
proof -
  have "word_type KwIf" "word_type TkIdent"
    by (simp_all add: word_type_def is_keyword_def keyword_start type_code_def type_names_def)
  then show ?thesis
    using tokenize_words_by_table [of latin_unicode words_example] words_example_tokens by simp
qed

text \<open>A NUL byte ends the token stream without an error; what follows it is not read.\<close>

lemma nul_ends_source:
  "tokenize latin_unicode [CHR ''a'', CHR 0x00, CHR ''b'']
     = ([mk_token TkIdent ''a'' 1 1, mk_token TkEOF [] 1 2], None)"
  by code_simp

end
