(* ===== verification/Dsl_Parser_Props.thy ===== *)
theory Dsl_Parser_Props
  imports Dsl_Parser_Laws Dsl_Parser_Fuel Dsl_Lexer_Laws
begin

text \<open>
  The properties of the parser as a whole: when it returns, how it fails to, and what a result
  says of the source. They rest on the interpretations of \<open>Dsl_Parser_Laws\<close> and \<open>Dsl_Parser_Fuel\<close>.
\<close>

section \<open>The program loop\<close>

lemma program_loop_at_end:
  "program_loop ps n ss p = Some (prog, q) \<Longrightarrow> cur_type q = TkEOF"
proof (induction n arbitrary: ss p)
  case (Suc n)
  then show ?case
    by (auto simp: Let_def case_prod_beta bind_eq_Some_conv split: if_splits)
qed simp

lemma program_step: "parse_program n p = Some (prog, q) \<Longrightarrow> step p q"
  using progress.program_loop_ok [where p = "skip_newlines p" and n = n and na = n and stmts = "[]"]
    skip_newlines_step [of p]
  by (auto simp: fits_def ok_def parse_program_def intro: step_trans)

lemma new_parser_tokens: "p_tokens (new_parser u s) = fst (tokenize u s)"
  by (simp add: new_parser_def case_prod_beta Let_def)

lemma new_parser_errors:
  "p_errors (new_parser u s) = (case snd (tokenize u s) of None \<Rightarrow> [] | Some t \<Rightarrow> [LexError t])"
  by (simp add: new_parser_def case_prod_beta Let_def)

lemma new_parser_pos: "p_pos (new_parser u s) = 0"
  by (simp add: new_parser_def case_prod_beta Let_def)

lemma parse_program_returns:
  assumes "no_stuck (p_tokens p)" "2 * remaining p + 3 \<le> n"
  shows "parse_program n p \<noteq> None"
proof -
  obtain m where n: "n = Suc m" using assms(2) by (cases n) auto
  have "step p (skip_newlines p)" by (rule skip_newlines_step)
  then have "remaining (skip_newlines p) \<le> remaining p" "p_tokens (skip_newlines p) = p_tokens p"
    by (auto simp: step_def remaining_def)
  then have "fits (no_stuck (p_tokens p)) (p_tokens p) (m div 2) (skip_newlines p)"
    "fits (no_stuck (p_tokens p)) (p_tokens p) n (skip_newlines p)"
    using assms(2) n by (auto simp: fits_def)
  then have "ok (no_stuck (p_tokens p)) (skip_newlines p) (parse_program n p)"
    unfolding parse_program_def n by (rule total.program_loop_ok)
  then show ?thesis using assms(1) by (auto simp: ok_def split: option.splits)
qed

lemma parse_source_returns:
  "no_stuck (fst (tokenize u s)) \<Longrightarrow> 2 * length (fst (tokenize u s)) + 3 \<le> n
     \<Longrightarrow> parse_source n u s \<noteq> None"
  using parse_program_returns [of "new_parser u s" n]
  by (simp add: parse_source_def new_parser_tokens new_parser_pos remaining_def)

section \<open>A tuple assignment that never ends\<close>

lemma names_stuck:
  "\<not> names_only p \<Longrightarrow> tuple_names_loop n names p = None"
proof (induction n arbitrary: names p)
  case (Suc n)
  have more: "not_bracket_end (cur p)"
    using Suc.prems
    by (cases "p_pos p < length (p_tokens p)")
      (auto simp: names_only_def cur_def nth_drop_Cons split: if_splits)
  have behind: "name_or_comma (cur q) \<Longrightarrow> names_only (adv q) \<Longrightarrow> names_only q" for q
    by (cases "p_pos q < length (p_tokens q)")
      (auto simp: names_only_def cur_def adv_def nth_drop_Cons)
  have same: "names_only (errorf er q) = names_only q" for er q
    by (simp add: names_only_def errorf_def)
  have "\<not> names_only (snd (match_tok TkComma (snd (expect TkIdent p))))"
    using Suc.prems behind [of p] behind [of "adv p"] behind [of "errorf (Expected TkIdent (cur p)) p"]
    by (auto simp: match_tok_def expect_def Let_def name_or_comma_def same)
  then show ?case
    using more Suc.IH by (auto simp: case_prod_beta not_bracket_end_def)
qed simp

lemma tuple_assign_stuck: "stuck_tuple p \<Longrightarrow> parse_tuple_assign pe n p = None"
proof -
  assume s: "stuck_tuple p"
  then have "cur_type p = TkLBracket"
    by (auto simp: stuck_tuple_def is_tuple_assign_def split: if_splits)
  then show ?thesis
    using s names_stuck [of "adv p" n "[]"]
    by (simp add: parse_tuple_assign_def expect_here stuck_tuple_def)
qed

section \<open>Properties\<close>

text \<open>
  C17. The parser returns: for every source none of whose statements can be a tuple assignment
  with something other than names and commas in its brackets, \<open>Parse\<close> returns a program and its
  errors, however malformed the source is otherwise, and a fuel of twice the number of tokens
  plus three is enough.
\<close>

theorem parse_terminates:
  assumes "no_stuck (fst (tokenize u s))" "2 * length (fst (tokenize u s)) + 3 \<le> n"
  shows "\<exists>prog errs. parse_source n u s = Some (prog, errs)"
  using parse_source_returns [OF assms] by auto

definition bad_source :: string where
  "bad_source = '') if [ = =>''"

theorem parse_terminates_witness:
  "no_stuck (fst (tokenize latin_unicode bad_source))
   \<and> (\<exists>prog errs. parse_source 25 latin_unicode bad_source = Some (prog, errs))"
proof -
  have a: "no_stuck (fst (tokenize latin_unicode bad_source))" by code_simp
  have b: "2 * length (fst (tokenize latin_unicode bad_source)) + 3 \<le> 25" by code_simp
  from a parse_terminates [OF a b] show ?thesis by blast
qed

text \<open>
  C38. The other side: a statement that starts at such a bracket never returns, whatever the fuel.
  The loop of \<open>parseTupleAssign\<close> stops only at the closing bracket or the end and moves only past
  identifiers and commas, so on any other token it turns for ever, adding an error each time.
\<close>

theorem stuck_tuple_diverges:
  assumes "stuck_tuple p"
  shows "parse_stmt n p = None"
proof (cases n)
  case (Suc m)
  have "cur_type p = TkLBracket"
    using assms by (auto simp: stuck_tuple_def is_tuple_assign_def split: if_splits)
  then show ?thesis
    using assms tuple_assign_stuck [OF assms] Suc
    by (simp add: parse_statement_body_def stuck_tuple_def is_type_qualifier_def Let_def)
qed simp

definition hang_source :: string where
  "hang_source = ''[1] = 2''"

theorem stuck_tuple_diverges_witness:
  "stuck_tuple (new_parser latin_unicode hang_source)
   \<and> parse_stmt 100 (new_parser latin_unicode hang_source) = None"
proof -
  have "stuck_tuple (new_parser latin_unicode hang_source)" by code_simp
  with stuck_tuple_diverges [OF this] show ?thesis by simp
qed

text \<open>On the source \<open>[1] = 2\<close> the parser as a whole never returns.\<close>

lemma hang_source_hangs: "parse_source n latin_unicode hang_source = None"
proof (cases n)
  case (Suc m)
  let ?p = "new_parser latin_unicode hang_source"
  have "skip_newlines ?p = ?p" by code_simp
  moreover have "cur_type ?p \<noteq> TkEOF" by code_simp
  moreover have "stuck_tuple ?p" by code_simp
  ultimately show ?thesis
    using Suc stuck_tuple_diverges [of ?p n] by (simp add: parse_source_def parse_program_def)
qed (simp add: parse_source_def parse_program_def)

text \<open>
  Fuel is not part of the answer: when two amounts of fuel both let the parser return, the
  programs and the errors are the same.
\<close>

theorem parse_deterministic:
  assumes "parse_source n u s = Some r" "parse_source m u s = Some r'"
  shows "r = r'"
proof -
  have "parse_source (max n m) u s = Some x" if "parse_source k u s = Some x" "k \<le> max n m" for k x
    using that parse_program_fuel [of k "new_parser u s" _ "max n m"]
    by (auto simp: parse_source_def)
  from this [OF assms(1)] this [OF assms(2)] show ?thesis by simp
qed

lemma short_source: "no_stuck (fst (tokenize latin_unicode ''a }''))"
  "length (fst (tokenize latin_unicode ''a }'')) \<le> 3"
  by code_simp+

theorem parse_deterministic_witness:
  "\<exists>r. parse_source 9 latin_unicode ''a }'' = Some r \<and> parse_source 20 latin_unicode ''a }'' = Some r"
proof -
  obtain r r' where "parse_source 9 latin_unicode ''a }'' = Some r"
    "parse_source 20 latin_unicode ''a }'' = Some r'"
    using parse_source_returns [OF short_source(1), of 9] short_source(2)
      parse_source_returns [OF short_source(1), of 20] by auto
  with parse_deterministic [OF this] show ?thesis by blast
qed

text \<open>
  C30. Every statement makes progress: a call of \<open>parseStatement\<close> that returns leaves the tokens as
  they are, has consumed at least one token unless none was left, and keeps every error recorded
  before it. This is what makes every loop of the parser end.
\<close>

theorem statement_progress:
  assumes "parse_stmt n p = Some (st, q)"
  shows "p_tokens q = p_tokens p \<and> prefix (p_errors p) (p_errors q)
         \<and> (p_pos p < p_pos q \<or> p_pos q = p_pos p \<and> length (p_tokens p) \<le> p_pos p)"
  using progress.ps_ok [of _ p n] assms
  by (auto simp: fits_def ok1_def step1_def step_def)

definition paren_state :: pstate where
  "paren_state = \<lparr>p_tokens = [mk_token TkRParen '')'' 1 1, mk_token TkEOF [] 1 1], p_pos = 0,
                  p_errors = []\<rparr>"

theorem statement_progress_witness:
  "\<exists>st q. parse_stmt 9 paren_state = Some (st, q) \<and> 0 < p_pos q"
proof -
  have "parse_stmt 9 paren_state \<noteq> None" by code_simp
  then obtain st q where r: "parse_stmt 9 paren_state = Some (st, q)" by fastforce
  with statement_progress [OF r] show ?thesis by (auto simp: paren_state_def)
qed

text \<open>
  The parser reads the whole source: when \<open>parseProgram\<close> returns, the current token is the end
  of the input. No suffix of a source is dropped without a statement or an error for it.
\<close>

theorem program_consumes_all:
  assumes "parse_program n p = Some (prog, q)"
  shows "cur_type q = TkEOF \<and> p_tokens q = p_tokens p \<and> p_pos p \<le> p_pos q"
  using program_loop_at_end [of "parse_stmt n" n "[]" "skip_newlines p" prog q]
    program_step [OF assms] assms
  by (auto simp: parse_program_def step_def)

theorem program_consumes_all_witness:
  "\<exists>prog q. parse_program 9 (new_parser latin_unicode ''a }'') = Some (prog, q) \<and> cur_type q = TkEOF"
proof -
  obtain prog q where "parse_program 9 (new_parser latin_unicode ''a }'') = Some (prog, q)"
    using parse_source_returns [OF short_source(1), of 9] short_source(2)
    by (auto simp: parse_source_def)
  with program_consumes_all [OF this] show ?thesis by blast
qed

text \<open>
  C39. A lexical error is never lost: if the scanner stops at an illegal token, it is the first
  error that \<open>Parse\<close> reports.
\<close>

theorem lexical_error_reported:
  assumes "snd (tokenize u s) = Some t" "parse_source n u s = Some (prog, errs)"
  shows "\<exists>es. errs = LexError t # es"
proof -
  obtain q where "parse_program n (new_parser u s) = Some (prog, q)" "errs = p_errors q"
    using assms(2) by (auto simp: parse_source_def)
  then have "prefix (p_errors (new_parser u s)) errs" using program_step by (auto simp: step_def)
  then show ?thesis using assms(1) by (auto simp: new_parser_errors prefix_def)
qed

theorem lexical_error_reported_witness:
  "\<exists>prog t es. parse_source 20 latin_unicode ''a $'' = Some (prog, LexError t # es)"
proof -
  have tk: "tokenize latin_unicode ''a $''
      = ([mk_token TkIdent ''a'' 1 1, mk_token TkIllegal ''$'' 1 3], Some (mk_token TkIllegal ''$'' 1 3))"
    by code_simp
  have "no_stuck [mk_token TkIdent ''a'' 1 1, mk_token TkIllegal ''$'' 1 3]" by code_simp
  then obtain prog errs where "parse_source 20 latin_unicode ''a $'' = Some (prog, errs)"
    using parse_source_returns [of latin_unicode "''a $''" 20] tk by auto
  with lexical_error_reported [OF _ this] tk show ?thesis by fastforce
qed

end
