(* ===== verification/Dsl_Roundtrip.thy ===== *)
theory Dsl_Roundtrip
  imports Dsl_Parser_Fuel
begin

text \<open>
  Printing and parsing expressions. \<open>show_expr\<close> prints an expression tree with the parentheses
  that the precedence levels of the parser require and no others; the theorem at the end says
  that \<open>parseExpr\<close> reads the tree back. It fixes what the precedence table and the loop of
  \<open>parseExpr\<close> mean: which operator binds tighter, that binary operators associate to the left,
  that suffixes bind tightest, that a unary operator takes a suffixed operand, and that a
  conditional binds loosest.
\<close>

section \<open>Results for some fuel\<close>

definition reads :: "nat \<Rightarrow> pstate \<Rightarrow> expr \<Rightarrow> pstate \<Rightarrow> bool" where
  "reads k p e q = (\<exists>n. parse_expr n k p = Some (e, q))"

definition reads_prefix :: "pstate \<Rightarrow> expr \<Rightarrow> pstate \<Rightarrow> bool" where
  "reads_prefix p e q = (\<exists>n. parse_prefix (parse_expr n) (parse_stmt n) n p = Some (e, q))"

definition extends :: "nat \<Rightarrow> expr \<Rightarrow> pstate \<Rightarrow> expr \<Rightarrow> pstate \<Rightarrow> bool" where
  "extends k l p e q = (\<exists>n. expr_loop (parse_expr n) n n k l p = Some (e, q))"

definition reads_args :: "call_arg list \<Rightarrow> pstate \<Rightarrow> call_arg list \<Rightarrow> pstate \<Rightarrow> bool" where
  "reads_args acc p args q = (\<exists>n. call_args_loop (parse_expr n) n acc p = Some (args, q))"

definition reads_elems :: "expr list \<Rightarrow> pstate \<Rightarrow> expr list \<Rightarrow> pstate \<Rightarrow> bool" where
  "reads_elems acc p es q = (\<exists>n. array_loop (parse_expr n) n acc p = Some (es, q))"

lemma fuel_up:
  assumes "n \<le> m"
  shows "parse_prefix (parse_expr n) (parse_stmt n) n p = Some r
           \<Longrightarrow> parse_prefix (parse_expr m) (parse_stmt m) m p = Some r"
    and "c \<le> d \<Longrightarrow> expr_loop (parse_expr n) n c k l p = Some r
           \<Longrightarrow> expr_loop (parse_expr m) m d k l p = Some r"
    and "c \<le> d \<Longrightarrow> call_args_loop (parse_expr n) c acc p = Some ra
           \<Longrightarrow> call_args_loop (parse_expr m) d acc p = Some ra"
    and "c \<le> d \<Longrightarrow> array_loop (parse_expr n) c es p = Some re
           \<Longrightarrow> array_loop (parse_expr m) d es p = Some re"
proof -
  have m: "n + (m - n) = m" using assms by simp
  note f = fuel.parse_prefix_below [where n = n and d = "m - n", unfolded m]
    fuel.expr_loop_below [where na = n and d = "m - n", unfolded m]
    fuel.call_args_loop_below [where na = n and d = "m - n", unfolded m]
    fuel.array_loop_below [where na = n and d = "m - n", unfolded m]
  show "parse_prefix (parse_expr n) (parse_stmt n) n p = Some r
           \<Longrightarrow> parse_prefix (parse_expr m) (parse_stmt m) m p = Some r"
    by (rule below_SomeD [OF f(1)])
  show "c \<le> d \<Longrightarrow> expr_loop (parse_expr n) n c k l p = Some r
           \<Longrightarrow> expr_loop (parse_expr m) m d k l p = Some r"
    by (rule below_SomeD [OF f(2)])
  show "c \<le> d \<Longrightarrow> call_args_loop (parse_expr n) c acc p = Some ra
           \<Longrightarrow> call_args_loop (parse_expr m) d acc p = Some ra"
    by (rule below_SomeD [OF f(3)])
  show "c \<le> d \<Longrightarrow> array_loop (parse_expr n) c es p = Some re
           \<Longrightarrow> array_loop (parse_expr m) d es p = Some re"
    by (rule below_SomeD [OF f(4)])
qed

lemma readsI: "reads_prefix p l q \<Longrightarrow> extends k l q e r \<Longrightarrow> reads k p e r"
proof -
  assume "reads_prefix p l q" "extends k l q e r"
  then obtain a b where "parse_prefix (parse_expr a) (parse_stmt a) a p = Some (l, q)"
    "expr_loop (parse_expr b) b b k l q = Some (e, r)"
    by (auto simp: reads_prefix_def extends_def)
  then have "parse_expr (Suc (max a b)) k p = Some (e, r)"
    using fuel_up(1) [of a "max a b" p "(l, q)"]
      fuel_up(2) [of b "max a b" b "max a b" k l q "(e, r)"]
    by (simp add: parse_expr_body_def)
  then show ?thesis unfolding reads_def by blast
qed

section \<open>The loop of \<open>parseExpr\<close>\<close>

lemma extends_stop:
  assumes "infix_prec (cur_type p) \<le> k" "cur_type p \<notin> {TkLParen, TkLBracket, TkDot}"
    "cur_type p = TkQuestion \<longrightarrow> prec_or \<le> k"
  shows "extends k l p l p"
  unfolding extends_def using assms by (intro exI [of _ 1]) (auto simp: Let_def not_less)

lemma extends_binary:
  assumes "k < infix_prec (cur_type p)" "reads (infix_prec (cur_type p)) (adv p) r q"
    "extends k (BinaryExpr (cur p) l (cur_type p) r) q e q'"
  shows "extends k l p e q'"
proof -
  obtain a b where
    a: "parse_expr a (infix_prec (cur_type p)) (adv p) = Some (r, q)" and
    b: "expr_loop (parse_expr b) b b k (BinaryExpr (cur p) l (cur_type p) r) q = Some (e, q')"
    using assms(2,3) by (auto simp: reads_def extends_def)
  have "parse_expr (Suc (max a b)) (infix_prec (cur_type p)) (adv p) = Some (r, q)"
    using parse_expr_fuel [OF a, of "Suc (max a b)"] by simp
  moreover have "expr_loop (parse_expr (Suc (max a b))) (Suc (max a b)) (max a b) k
      (BinaryExpr (cur p) l (cur_type p) r) q = Some (e, q')"
    using fuel_up(2) [OF _ _ b, of "Suc (max a b)" "max a b"] by simp
  ultimately have "expr_loop (parse_expr (Suc (max a b))) (Suc (max a b)) (Suc (max a b)) k l p = Some (e, q')"
    using assms(1) by (simp add: Let_def)
  then show ?thesis unfolding extends_def by blast
qed

lemma suffix_not_infix: "infix_prec TkLParen = 0" "infix_prec TkLBracket = 0" "infix_prec TkDot = 0"
  "infix_prec TkQuestion = 0"
  by (simp_all add: infix_prec_def)

lemma extends_call:
  assumes "cur_type p = TkLParen" "k < prec_call" "reads_args [] (adv p) args q"
    "cur_type q = TkRParen" "extends k (CallExpr (cur p) l args) (adv q) e q'"
  shows "extends k l p e q'"
proof -
  obtain a b where
    a: "call_args_loop (parse_expr a) a [] (adv p) = Some (args, q)" and
    b: "expr_loop (parse_expr b) b b k (CallExpr (cur p) l args) (adv q) = Some (e, q')"
    using assms(3,5) by (auto simp: reads_args_def extends_def)
  have "call_args_loop (parse_expr (Suc (max a b))) (Suc (max a b)) [] (adv p) = Some (args, q)"
    using fuel_up(3) [OF _ _ a, of "Suc (max a b)" "Suc (max a b)"] by simp
  moreover have "expr_loop (parse_expr (Suc (max a b))) (Suc (max a b)) (max a b) k
      (CallExpr (cur p) l args) (adv q) = Some (e, q')"
    using fuel_up(2) [OF _ _ b, of "Suc (max a b)" "max a b"] by simp
  ultimately have "expr_loop (parse_expr (Suc (max a b))) (Suc (max a b)) (Suc (max a b)) k l p = Some (e, q')"
    using assms(1,2,4)
    by (simp add: Let_def suffix_not_infix parse_call_suffix_def parse_call_args_def expect_def
        del: call_args_loop.simps)
  then show ?thesis unfolding extends_def by blast
qed

lemma extends_index:
  assumes "cur_type p = TkLBracket" "k < prec_call" "reads 0 (adv p) i q"
    "cur_type q = TkRBracket" "extends k (IndexExpr (cur p) l i) (adv q) e q'"
  shows "extends k l p e q'"
proof -
  obtain a b where
    a: "parse_expr a 0 (adv p) = Some (i, q)" and
    b: "expr_loop (parse_expr b) b b k (IndexExpr (cur p) l i) (adv q) = Some (e, q')"
    using assms(3,5) by (auto simp: reads_def extends_def)
  have "parse_expr (Suc (max a b)) 0 (adv p) = Some (i, q)"
    using parse_expr_fuel [OF a, of "Suc (max a b)"] by simp
  moreover have "expr_loop (parse_expr (Suc (max a b))) (Suc (max a b)) (max a b) k
      (IndexExpr (cur p) l i) (adv q) = Some (e, q')"
    using fuel_up(2) [OF _ _ b, of "Suc (max a b)" "max a b"] by simp
  ultimately have "expr_loop (parse_expr (Suc (max a b))) (Suc (max a b)) (Suc (max a b)) k l p = Some (e, q')"
    using assms(1,2,4)
    by (simp add: Let_def suffix_not_infix parse_index_suffix_def expect_def del: parse_expr.simps)
  then show ?thesis unfolding extends_def by blast
qed

lemma extends_dot:
  assumes "cur_type p = TkDot" "k < prec_call" "cur_type (adv p) = TkIdent"
    "extends k (DotExpr (cur p) l (literal (cur (adv p)))) (adv (adv p)) e q'"
  shows "extends k l p e q'"
proof -
  obtain b where
    b: "expr_loop (parse_expr b) b b k (DotExpr (cur p) l (literal (cur (adv p)))) (adv (adv p))
          = Some (e, q')"
    using assms(4) by (auto simp: extends_def)
  have "expr_loop (parse_expr (Suc b)) (Suc b) b k (DotExpr (cur p) l (literal (cur (adv p))))
      (adv (adv p)) = Some (e, q')"
    using fuel_up(2) [OF _ _ b, of "Suc b" b] by simp
  then have "expr_loop (parse_expr (Suc b)) (Suc b) (Suc b) k l p = Some (e, q')"
    using assms(1,2,3) by (simp add: Let_def suffix_not_infix parse_dot_suffix_def)
  then show ?thesis unfolding extends_def by blast
qed

lemma extends_ternary:
  assumes "cur_type p = TkQuestion" "k < prec_or" "reads 0 (adv p) x q" "cur_type q = TkColon"
    "reads 0 (adv q) y r" "extends k (TernaryExpr (cur p) l x y) r e q'"
  shows "extends k l p e q'"
proof -
  obtain a b c where
    a: "parse_expr a 0 (adv p) = Some (x, q)" and b: "parse_expr b 0 (adv q) = Some (y, r)" and
    c: "expr_loop (parse_expr c) c c k (TernaryExpr (cur p) l x y) r = Some (e, q')"
    using assms(3,5,6) by (auto simp: reads_def extends_def)
  define n where "n = max a (max b c)"
  have "parse_expr (Suc n) 0 (adv p) = Some (x, q)" "parse_expr (Suc n) 0 (adv q) = Some (y, r)"
    using parse_expr_fuel [OF a, of "Suc n"] parse_expr_fuel [OF b, of "Suc n"] by (simp_all add: n_def)
  moreover have "expr_loop (parse_expr (Suc n)) (Suc n) n k (TernaryExpr (cur p) l x y) r = Some (e, q')"
    using fuel_up(2) [OF _ _ c, of "Suc n" n] by (simp add: n_def)
  ultimately have "expr_loop (parse_expr (Suc n)) (Suc n) (Suc n) k l p = Some (e, q')"
    using assms(1,2,4)
    by (simp add: Let_def suffix_not_infix parse_ternary_suffix_def expect_def del: parse_expr.simps)
  then show ?thesis unfolding extends_def by blast
qed

section \<open>Prefixes, arguments and elements\<close>

lemma reads_prefix_one:
  assumes "\<And>pe ps n. parse_prefix pe ps n p = Some (e, adv p)"
  shows "reads_prefix p e (adv p)"
  using assms by (auto simp: reads_prefix_def)

lemma reads_prefix_unary:
  assumes "cur_type p = TkMinus \<or> cur_type p = TkNot" "reads prec_unary (adv p) e q"
  shows "reads_prefix p (UnaryExpr (cur p) (cur_type p) e) q"
proof -
  obtain n where "parse_expr n prec_unary (adv p) = Some (e, q)" using assms(2) by (auto simp: reads_def)
  then have "parse_prefix (parse_expr n) (parse_stmt n) n p
      = Some (UnaryExpr (cur p) (cur_type p) e, q)"
    using assms(1) by (auto simp: parse_prefix_def Let_def is_namespace_keyword_def)
  then show ?thesis unfolding reads_prefix_def by blast
qed

lemma reads_prefix_paren:
  assumes "cur_type p = TkLParen" "cur_type (adv p) \<noteq> TkRParen" "\<not> is_lambda_params (adv p)"
    "reads 0 (adv p) e q" "cur_type q = TkRParen"
  shows "reads_prefix p e (adv q)"
proof -
  obtain n where "parse_expr n 0 (adv p) = Some (e, q)" using assms(4) by (auto simp: reads_def)
  then have "parse_prefix (parse_expr n) (parse_stmt n) n p = Some (e, adv q)"
    using assms
    by (simp add: parse_prefix_def parse_paren_or_lambda_def Let_def expect_def
        is_namespace_keyword_def)
  then show ?thesis unfolding reads_prefix_def by blast
qed

lemma reads_prefix_array:
  assumes "cur_type p = TkLBracket" "reads_elems [] (adv p) es q" "cur_type q = TkRBracket"
  shows "reads_prefix p (ArrayLit (cur p) es) (adv q)"
proof -
  obtain n where "array_loop (parse_expr n) n [] (adv p) = Some (es, q)"
    using assms(2) by (auto simp: reads_elems_def)
  then have "parse_prefix (parse_expr n) (parse_stmt n) n p = Some (ArrayLit (cur p) es, adv q)"
    using assms(1,3)
    by (simp add: parse_prefix_def parse_array_lit_def Let_def expect_def is_namespace_keyword_def)
  then show ?thesis unfolding reads_prefix_def by blast
qed

lemma reads_elems_end: "cur_type p = TkRBracket \<Longrightarrow> reads_elems acc p acc p"
  unfolding reads_elems_def by (intro exI [of _ 1]) simp

lemma reads_elems_last:
  assumes "cur_type p \<notin> {TkRBracket, TkEOF}" "reads 0 p e q" "cur_type q \<noteq> TkComma"
  shows "reads_elems acc p (acc @ [e]) q"
proof -
  obtain n where n: "parse_expr n 0 p = Some (e, q)" using assms(2) by (auto simp: reads_def)
  have "array_loop (parse_expr (Suc n)) (Suc n) acc p = Some (acc @ [e], q)"
    using assms(1,3) parse_expr_fuel [OF n, of "Suc n"]
    by (simp add: match_tok_def del: parse_expr.simps)
  then show ?thesis unfolding reads_elems_def by blast
qed

lemma reads_elems_more:
  assumes "cur_type p \<notin> {TkRBracket, TkEOF}" "reads 0 p e q" "cur_type q = TkComma"
    "reads_elems (acc @ [e]) (adv q) es r"
  shows "reads_elems acc p es r"
proof -
  obtain a b where a: "parse_expr a 0 p = Some (e, q)"
    and b: "array_loop (parse_expr b) b (acc @ [e]) (adv q) = Some (es, r)"
    using assms(2,4) by (auto simp: reads_def reads_elems_def)
  have "parse_expr (Suc (max a b)) 0 p = Some (e, q)"
    using parse_expr_fuel [OF a, of "Suc (max a b)"] by simp
  moreover have "array_loop (parse_expr (Suc (max a b))) (max a b) (acc @ [e]) (adv q) = Some (es, r)"
    using fuel_up(4) [OF _ _ b, of "Suc (max a b)" "max a b"] by simp
  ultimately have "array_loop (parse_expr (Suc (max a b))) (Suc (max a b)) acc p = Some (es, r)"
    using assms(1,3) by (simp add: match_tok_def del: parse_expr.simps)
  then show ?thesis unfolding reads_elems_def by blast
qed

definition reads_arg :: "pstate \<Rightarrow> call_arg \<Rightarrow> pstate \<Rightarrow> bool" where
  "reads_arg p a q = (\<exists>n. parse_call_arg (parse_expr n) p = Some (a, q))"

lemma reads_arg_plain:
  assumes "\<not> (cur_type p = TkIdent \<and> tok_type (peek_raw p) = TkEq)" "reads 0 p e q"
  shows "reads_arg p (CallArg [] e) q"
proof -
  obtain n where "parse_expr n 0 p = Some (e, q)" using assms(2) by (auto simp: reads_def)
  then have "parse_call_arg (parse_expr n) p = Some (CallArg [] e, q)"
    using assms(1) by (auto simp: parse_call_arg_def)
  then show ?thesis unfolding reads_arg_def by blast
qed

lemma reads_arg_named:
  assumes "cur_type p = TkIdent" "tok_type (peek_raw p) = TkEq" "reads 0 (adv (adv p)) e q"
  shows "reads_arg p (CallArg (literal (cur p)) e) q"
proof -
  obtain n where "parse_expr n 0 (adv (adv p)) = Some (e, q)" using assms(3) by (auto simp: reads_def)
  then have "parse_call_arg (parse_expr n) p = Some (CallArg (literal (cur p)) e, q)"
    using assms(1,2) by (simp add: parse_call_arg_def)
  then show ?thesis unfolding reads_arg_def by blast
qed

lemma parse_call_arg_fuel:
  "parse_call_arg (parse_expr n) p = Some r \<Longrightarrow> n \<le> m \<Longrightarrow> parse_call_arg (parse_expr m) p = Some r"
  using fuel.parse_call_arg_below [of n p "m - n"] by (auto dest: below_SomeD)

lemma skip_newlines_here: "cur_type p \<noteq> TkNewline \<Longrightarrow> skip_newlines p = p"
  by (subst skip_newlines.simps) simp

lemma reads_args_end: "cur_type p = TkRParen \<Longrightarrow> reads_args acc p acc p"
  unfolding reads_args_def by (intro exI [of _ 1]) simp

lemma reads_args_last:
  assumes "cur_type p \<notin> {TkRParen, TkEOF, TkNewline}" "reads_arg p a q"
    "cur_type q \<notin> {TkComma, TkNewline}"
  shows "reads_args acc p (acc @ [a]) q"
proof -
  obtain n where n: "parse_call_arg (parse_expr n) p = Some (a, q)"
    using assms(2) by (auto simp: reads_arg_def)
  have "call_args_loop (parse_expr (Suc n)) (Suc n) acc p = Some (acc @ [a], q)"
    using assms(1,3) parse_call_arg_fuel [OF n, of "Suc n"]
    by (simp add: match_tok_def skip_newlines_here Let_def del: parse_expr.simps)
  then show ?thesis unfolding reads_args_def by blast
qed

lemma reads_args_more:
  assumes "cur_type p \<notin> {TkRParen, TkEOF, TkNewline}" "reads_arg p a q" "cur_type q = TkComma"
    "reads_args (acc @ [a]) (adv q) as r"
  shows "reads_args acc p as r"
proof -
  obtain n m where n: "parse_call_arg (parse_expr n) p = Some (a, q)"
    and m: "call_args_loop (parse_expr m) m (acc @ [a]) (adv q) = Some (as, r)"
    using assms(2,4) by (auto simp: reads_arg_def reads_args_def)
  have "parse_call_arg (parse_expr (Suc (max n m))) p = Some (a, q)"
    using parse_call_arg_fuel [OF n, of "Suc (max n m)"] by simp
  moreover have "call_args_loop (parse_expr (Suc (max n m))) (max n m) (acc @ [a]) (adv q) = Some (as, r)"
    using fuel_up(3) [OF _ _ m, of "Suc (max n m)" "max n m"] by simp
  ultimately have "call_args_loop (parse_expr (Suc (max n m))) (Suc (max n m)) acc p = Some (as, r)"
    using assms(1,3) by (simp add: match_tok_def skip_newlines_here Let_def del: parse_expr.simps)
  then show ?thesis unfolding reads_args_def by blast
qed

section \<open>Printing\<close>

definition sym :: "token_type \<Rightarrow> string \<Rightarrow> token" where
  "sym tt s = mk_token tt s 0 0"

definition level :: "expr \<Rightarrow> nat" where
  "level e = (case e of BinaryExpr _ _ op _ \<Rightarrow> infix_prec op | UnaryExpr _ _ _ \<Rightarrow> prec_unary
      | TernaryExpr _ _ _ _ \<Rightarrow> 0 | _ \<Rightarrow> prec_call)"

definition parens :: "bool \<Rightarrow> token list \<Rightarrow> token list" where
  "parens b ts = (if b then ts else sym TkLParen ''('' # ts @ [sym TkRParen '')''])"

text \<open>\<open>show_expr m e\<close> prints \<open>e\<close> where the grammar wants an expression of level \<open>m\<close> or tighter.\<close>

fun show_expr :: "nat \<Rightarrow> expr \<Rightarrow> token list"
  and show_arg :: "call_arg \<Rightarrow> token list"
  and show_args :: "call_arg list \<Rightarrow> token list"
  and show_elems :: "expr list \<Rightarrow> token list" where
  "show_expr m (NumberLit t _) = [t]"
| "show_expr m (StringLit t _) = [t]"
| "show_expr m (BoolLit t _) = [t]"
| "show_expr m (NaLit t) = [t]"
| "show_expr m (IdentExpr t _) = [t]"
| "show_expr m (BinaryExpr t l op r) =
     parens (m \<le> infix_prec op)
       (show_expr (infix_prec op) l @ t # show_expr (Suc (infix_prec op)) r)"
| "show_expr m (UnaryExpr t op e) = parens (m \<le> prec_unary) (t # show_expr prec_unary e)"
| "show_expr m (CallExpr t c as) = show_expr prec_call c @ t # show_args as @ [sym TkRParen '')'']"
| "show_expr m (DotExpr t e f) = show_expr prec_call e @ [t, sym TkIdent f]"
| "show_expr m (IndexExpr t e i) =
     show_expr prec_call e @ t # show_expr 0 i @ [sym TkRBracket '']'']"
| "show_expr m (TernaryExpr t c x y) =
     parens (m = 0) (show_expr prec_or c @ t # show_expr 0 x @ sym TkColon '':'' # show_expr 0 y)"
| "show_expr m (ArrayLit t es) = t # show_elems es @ [sym TkRBracket '']'']"
| "show_expr m (LambdaExpr t ps e) = []"
| "show_arg (CallArg nm e) =
     (if nm = [] then [] else [sym TkIdent nm, sym TkEq ''='']) @ show_expr 0 e"
| "show_args [] = []"
| "show_args [a] = show_arg a"
| "show_args (a # b # as) = show_arg a @ sym TkComma '','' # show_args (b # as)"
| "show_elems [] = []"
| "show_elems [e] = show_expr 0 e"
| "show_elems (e # f # es) = show_expr 0 e @ sym TkComma '','' # show_elems (f # es)"

text \<open>
  The trees the printer is for: the tokens they hold are those of their construct. Lambdas are
  left out, and a literal \<open>na\<close> as the callee, which the parser reads as a name.
\<close>

definition is_na :: "expr \<Rightarrow> bool" where
  "is_na e = (case e of NaLit _ \<Rightarrow> True | _ \<Rightarrow> False)"

fun well_formed :: "expr \<Rightarrow> bool"
  and well_formed_arg :: "call_arg \<Rightarrow> bool"
  and well_formed_args :: "call_arg list \<Rightarrow> bool"
  and well_formed_elems :: "expr list \<Rightarrow> bool" where
  "well_formed (NumberLit t v) = (tok_type t \<in> {TkInt, TkFloat} \<and> v = parse_float (literal t))"
| "well_formed (StringLit t s) = (tok_type t = TkString \<and> s = literal t)"
| "well_formed (BoolLit t b) = (tok_type t = (if b then TkTrue else TkFalse))"
| "well_formed (NaLit t) = (tok_type t = TkNa)"
| "well_formed (IdentExpr t s) =
     ((tok_type t = TkIdent \<or> is_namespace_keyword (tok_type t)) \<and> s = literal t)"
| "well_formed (BinaryExpr t l op r) =
     (tok_type t = op \<and> infix_prec op \<noteq> 0 \<and> well_formed l \<and> well_formed r)"
| "well_formed (UnaryExpr t op e) = (tok_type t = op \<and> op \<in> {TkMinus, TkNot} \<and> well_formed e)"
| "well_formed (CallExpr t c as) =
     (tok_type t = TkLParen \<and> \<not> is_na c \<and> well_formed c \<and> well_formed_args as)"
| "well_formed (DotExpr t e f) = (tok_type t = TkDot \<and> well_formed e)"
| "well_formed (IndexExpr t e i) = (tok_type t = TkLBracket \<and> well_formed e \<and> well_formed i)"
| "well_formed (TernaryExpr t c x y) =
     (tok_type t = TkQuestion \<and> well_formed c \<and> well_formed x \<and> well_formed y)"
| "well_formed (ArrayLit t es) = (tok_type t = TkLBracket \<and> well_formed_elems es)"
| "well_formed (LambdaExpr t ps e) = False"
| "well_formed_arg (CallArg nm e) = well_formed e"
| "well_formed_args [] = True"
| "well_formed_args (a # as) = (well_formed_arg a \<and> well_formed_args as)"
| "well_formed_elems [] = True"
| "well_formed_elems (e # es) = (well_formed e \<and> well_formed_elems es)"

section \<open>Positions in the token list\<close>

definition sits :: "pstate \<Rightarrow> token list \<Rightarrow> bool" where
  "sits p ts = (drop (p_pos p) (p_tokens p) = ts)"

definition mv :: "pstate \<Rightarrow> nat \<Rightarrow> pstate" where
  "mv p k = p\<lparr>p_pos := p_pos p + k\<rparr>"

lemma mv_simps [simp]: "mv p 0 = p" "mv (mv p a) b = mv p (a + b)"
  by (simp_all add: mv_def add.assoc)

lemma sits_pos: "sits p (t # ts) \<Longrightarrow> p_pos p < length (p_tokens p)"
  unfolding sits_def by (rule ccontr) simp

lemma sits_cur: "sits p (t # ts) \<Longrightarrow> cur p = t"
  using sits_pos [of p t ts] by (simp add: sits_def cur_def nth_drop_Cons)

lemma sits_adv: "sits p (t # ts) \<Longrightarrow> adv p = mv p 1"
  using sits_pos [of p t ts] by (simp add: adv_def mv_def)

lemma sits_mv1: "sits p (t # ts) \<Longrightarrow> sits (mv p (Suc 0)) ts"
  using sits_pos [of p t ts] by (simp add: sits_def mv_def nth_drop_Cons)

lemma sits_mv: "sits p (xs @ ys) \<Longrightarrow> sits (mv p (length xs)) ys"
proof (induction xs arbitrary: p)
  case (Cons x xs)
  then show ?case using Cons.IH [OF sits_mv1] by fastforce
qed simp

lemma sits_peek: "sits p (t # u # ts) \<Longrightarrow> peek_raw p = u"
  using sits_pos [OF sits_mv1, of p t u ts] sits_cur [OF sits_mv1, of p t u ts]
  by (simp add: peek_raw_def cur_def mv_def)

section \<open>How a printed expression begins\<close>

definition good_start :: "token list \<Rightarrow> bool" where
  "good_start ts = (case ts of [] \<Rightarrow> False
     | t # us \<Rightarrow> tok_type t \<notin> {TkRParen, TkRBracket, TkEOF, TkNewline, TkComma}
        \<and> (tok_type t = TkIdent \<longrightarrow> (case us of [] \<Rightarrow> True
             | u # _ \<Rightarrow> tok_type u \<notin> {TkEq, TkRParen, TkComma})))"

lemma good_start_append:
  "good_start xs \<Longrightarrow> tok_type u \<notin> {TkEq, TkRParen, TkComma} \<Longrightarrow> good_start (xs @ u # ys)"
  by (auto simp: good_start_def split: list.splits)

lemma good_start_unary: "tok_type t \<in> {TkMinus, TkNot} \<Longrightarrow> good_start (t # ts)"
  by (auto simp: good_start_def)

lemma infix_no_delimiter:
  "infix_prec tt \<noteq> 0 \<Longrightarrow> tt \<notin> {TkEq, TkRParen, TkComma, TkLParen, TkLBracket, TkDot, TkQuestion,
     TkEOF, TkNewline, TkRBracket, TkColon}"
  by (auto simp: infix_prec_def)

lemma infix_prec_le: "infix_prec tt \<le> prec_multiply"
  by (simp add: infix_prec_def prec_defs)

lemma good_start_parens: "good_start (parens False ts)"
  by (simp add: parens_def good_start_def sym_def)

lemma good_start_parens': "(b \<Longrightarrow> good_start ts) \<Longrightarrow> good_start (parens b ts)"
  using good_start_parens by (cases b) (auto simp: parens_def)

lemma show_good_start:
  "well_formed e \<Longrightarrow> good_start (show_expr m e)" and "(a :: call_arg) = a" and "(as :: call_arg list) = as"
    and "(es :: expr list) = es"
proof (induction m e and a and as and es rule: show_expr_show_arg_show_args_show_elems.induct)
  case (5 m t s)
  then show ?case by (auto simp: good_start_def is_namespace_keyword_def)
next
  case (6 m t l op r)
  then show ?case
    using infix_no_delimiter [of op] good_start_append [of "show_expr (infix_prec op) l" t]
    by (auto intro!: good_start_parens')
next
  case (7 m t op e)
  then show ?case using good_start_unary [of t] by (auto intro!: good_start_parens')
next
  case (8 m t c as)
  then show ?case using good_start_append [of "show_expr prec_call c" t] by auto
next
  case (9 m t e f)
  then show ?case using good_start_append [of "show_expr prec_call e" t] by auto
next
  case (10 m t e i)
  then show ?case using good_start_append [of "show_expr prec_call e" t] by auto
next
  case (11 m t c x y)
  then show ?case
    using good_start_append [of "show_expr prec_or c" t] by (auto intro!: good_start_parens')
qed (auto simp: good_start_def)

lemma good_start_no_lambda:
  assumes "good_start ts" "sits p (ts @ sym TkRParen '')'' # us)" "tl ts \<noteq> []"
  shows "\<not> is_lambda_params p"
proof (cases "cur_type p = TkIdent")
  case True
  obtain t v vs where ts: "ts = t # v # vs"
    using assms(1,3) by (cases ts; cases "tl ts") (auto simp: good_start_def)
  have "cur p = t" using sits_cur assms(2) ts by simp
  then have v: "tok_type v \<notin> {TkEq, TkRParen, TkComma}"
    using assms(1) ts True by (simp add: good_start_def)
  have "adv p = mv p 1" "cur (mv p 1) = v"
    using sits_adv [of p t] sits_cur [OF sits_mv1, of p t v] assms(2) ts by simp_all
  then have "cur (after_lambda_param p) = v"
    using v by (simp add: after_lambda_param_def)
  then show ?thesis using v True by (subst is_lambda_params.simps) simp
next
  case False
  then show ?thesis by (subst is_lambda_params.simps) simp
qed

section \<open>What may follow an expression\<close>

definition hdt :: "token list \<Rightarrow> token_type" where
  "hdt ts = (case ts of [] \<Rightarrow> TkEOF | t # _ \<Rightarrow> tok_type t)"

lemma hdt_Cons [simp]: "hdt (t # ts) = tok_type t"
  by (simp add: hdt_def)

lemma sits_hdt: "sits p ts \<Longrightarrow> cur_type p = hdt ts"
proof (cases ts)
  case Nil
  then show "sits p ts \<Longrightarrow> ?thesis" by (simp add: sits_def cur_def eof_token_def hdt_def)
next
  case (Cons t us)
  then show "sits p ts \<Longrightarrow> ?thesis" using sits_cur [of p t us] by simp
qed

definition stops :: "nat \<Rightarrow> token list \<Rightarrow> bool" where
  "stops k ts = (infix_prec (hdt ts) \<le> k \<and> hdt ts \<notin> {TkLParen, TkLBracket, TkDot}
     \<and> (hdt ts = TkQuestion \<longrightarrow> prec_or \<le> k))"

definition ok_after :: "nat \<Rightarrow> expr \<Rightarrow> token list \<Rightarrow> bool" where
  "ok_after m e ts =
     (case e of
        BinaryExpr _ _ op _ \<Rightarrow> m \<le> infix_prec op \<longrightarrow> stops (infix_prec op) ts
      | UnaryExpr _ _ _ \<Rightarrow> m \<le> prec_unary \<longrightarrow> stops prec_unary ts
      | TernaryExpr _ _ _ _ \<Rightarrow> m = 0 \<longrightarrow> stops 0 ts
      | NaLit _ \<Rightarrow> hdt ts \<noteq> TkLParen
      | _ \<Rightarrow> True)"

lemma stops_mono: "stops j ts \<Longrightarrow> j \<le> k \<Longrightarrow> stops k ts"
  by (auto simp: stops_def)

lemma stops_ok_after: "stops j ts \<Longrightarrow> j \<le> m \<Longrightarrow> ok_after m e ts"
  by (auto simp: ok_after_def stops_def split: expr.splits)

lemma infix_ok_after:
  "infix_prec (tok_type t) \<noteq> 0 \<Longrightarrow> ok_after (infix_prec (tok_type t)) e (t # ts)"
  using infix_no_delimiter [of "tok_type t"] infix_prec_le [of "tok_type t"]
  by (auto simp: ok_after_def stops_def prec_multiply_def prec_unary_def split: expr.splits)

lemma base_ok_after:
  "\<not> is_na e \<or> tok_type t \<noteq> TkLParen \<Longrightarrow> ok_after prec_call e (t # ts)"
  using infix_prec_le
  by (auto simp: ok_after_def is_na_def prec_defs dest: order_trans split: expr.splits)
    (metis Suc_n_not_le_n infix_prec_le le_trans numeral_le_iff prec_multiply_def semiring_norm)+

lemma stop_extends: "sits p ts \<Longrightarrow> stops k ts \<Longrightarrow> extends k e p e p"
  using sits_hdt [of p ts] extends_stop [of p k e] by (auto simp: stops_def)

section \<open>The parser reads back what the printer prints\<close>

text \<open>The conditions under which a bare operand can be read by a loop at level \<open>k\<close>.\<close>

abbreviation fits_level :: "nat \<Rightarrow> nat \<Rightarrow> bool" where
  "fits_level k m \<equiv> k < prec_call \<and> (k = 0 \<or> k < m \<or> prec_unary \<le> m)"

definition reads_back :: "nat \<Rightarrow> expr \<Rightarrow> token list \<Rightarrow> bool" where
  "reads_back m e s =
     (\<forall>k p ts e' q. fits_level k m \<longrightarrow> sits p (s @ ts) \<longrightarrow> ok_after m e ts
        \<longrightarrow> extends k e (mv p (length s)) e' q \<longrightarrow> reads k p e' q)"

lemma reads_backD:
  "reads_back m e s \<Longrightarrow> fits_level k m \<Longrightarrow> sits p (s @ ts) \<Longrightarrow> ok_after m e ts
     \<Longrightarrow> extends k e (mv p (length s)) e' q \<Longrightarrow> reads k p e' q"
  by (auto simp: reads_back_def)

text \<open>A whole expression at level \<open>k\<close>, when what follows stops the loop.\<close>

lemma reads_back_whole:
  assumes "reads_back m e s" "fits_level k m" "k \<le> m" "sits p (s @ ts)" "stops k ts"
  shows "reads k p e (mv p (length s))"
  using reads_backD [OF assms(1,2,4) stops_ok_after [OF assms(5,3)]
      stop_extends [OF sits_mv [OF assms(4)] assms(5)]] .

lemma reads_back_parens:
  assumes bare: "\<And>k p ts e' q. k = 0 \<or> b \<and> fits_level k m \<Longrightarrow> sits p (body @ ts) \<Longrightarrow> stops lvl ts \<Longrightarrow> extends k e (mv p (length body)) e' q \<Longrightarrow> reads k p e' q"
    and after: "\<And>ts. b \<Longrightarrow> ok_after m e ts \<Longrightarrow> stops lvl ts"
    and start: "good_start body" "tl body \<noteq> []"
  shows "reads_back m e (parens b body)"
  unfolding reads_back_def
proof (intro allI impI)
  fix k p ts e' q
  assume k: "fits_level k m" and p: "sits p (parens b body @ ts)" and ok: "ok_after m e ts"
    and ex: "extends k e (mv p (length (parens b body))) e' q"
  show "reads k p e' q"
  proof (cases b)
    case True
    then show ?thesis using bare [of k p ts e' q] k p ok ex after by (simp add: parens_def)
  next
    case False
    let ?p = "adv p" and ?rp = "sym TkRParen '')''"
    have p0: "sits p (sym TkLParen ''('' # body @ ?rp # ts)" using p False by (simp add: parens_def)
    then have adv: "?p = mv p 1" and p1: "sits ?p (body @ ?rp # ts)"
      using sits_adv sits_mv1 by fastforce+
    have q: "sits (mv ?p (length body)) (?rp # ts)" using sits_mv [OF p1] .
    have stop: "stops n (?rp # ts)" for n by (simp add: stops_def sym_def infix_prec_def)
    have "reads 0 ?p e (mv ?p (length body))"
      using bare [OF _ p1 stop] stop_extends [OF q stop] by simp
    moreover have "cur_type p = TkLParen" using sits_cur [OF p0] by (simp add: sym_def)
    moreover have "cur_type ?p \<noteq> TkRParen"
      using sits_hdt [OF p1] start by (cases body) (auto simp: good_start_def)
    moreover have "\<not> is_lambda_params ?p" using good_start_no_lambda [OF start(1) p1 start(2)] .
    moreover have "cur_type (mv ?p (length body)) = TkRParen" using sits_cur [OF q] by (simp add: sym_def)
    ultimately have "reads_prefix p e (adv (mv ?p (length body)))"
      using reads_prefix_paren by blast
    moreover have "adv (mv ?p (length body)) = mv p (length (parens b body))"
      using sits_adv [OF q] adv False by (simp add: parens_def)
    ultimately show ?thesis using readsI ex by simp
  qed
qed

lemma reads_back_one:
  assumes "\<And>p pe ps n ts. sits p (t # ts) \<Longrightarrow> ok_after m e ts
             \<Longrightarrow> parse_prefix pe ps n p = Some (e, adv p)"
  shows "reads_back m e [t]"
  unfolding reads_back_def
proof (intro allI impI)
  fix k p ts e' q
  assume p: "sits p ([t] @ ts)" and ok: "ok_after m e ts" and ex: "extends k e (mv p (length [t])) e' q"
  have "reads_prefix p e (adv p)" using assms p ok by (intro reads_prefix_one) auto
  then show "reads k p e' q" using readsI ex sits_adv [of p t ts] p by simp
qed

lemma hdt_peek:
  assumes p: "sits p (t # ts)"
  shows "tok_type (peek_raw p) = hdt ts"
proof (cases ts)
  case Nil
  then have "length (drop (p_pos p) (p_tokens p)) = 1" using p unfolding sits_def by (simp only:) simp
  then have "\<not> p_pos p + 1 < length (p_tokens p)" by simp
  then show ?thesis using Nil by (simp add: peek_raw_def eof_token_def hdt_def)
next
  case (Cons u us)
  then show ?thesis using sits_peek [of p t u us] p by simp
qed

lemma number_reads_back: "well_formed (NumberLit t v) \<Longrightarrow> reads_back m (NumberLit t v) [t]"
  by (rule reads_back_one) (auto simp: parse_prefix_def Let_def dest: sits_cur)

lemma string_reads_back: "well_formed (StringLit t s) \<Longrightarrow> reads_back m (StringLit t s) [t]"
  by (rule reads_back_one) (auto simp: parse_prefix_def Let_def dest: sits_cur)

lemma bool_reads_back: "well_formed (BoolLit t b) \<Longrightarrow> reads_back m (BoolLit t b) [t]"
  by (rule reads_back_one) (auto simp: parse_prefix_def Let_def dest: sits_cur split: if_splits)

lemma na_reads_back: "well_formed (NaLit t) \<Longrightarrow> reads_back m (NaLit t) [t]"
  by (rule reads_back_one)
    (auto simp: parse_prefix_def Let_def ok_after_def dest: sits_cur hdt_peek)

lemma ident_reads_back: "well_formed (IdentExpr t s) \<Longrightarrow> reads_back m (IdentExpr t s) [t]"
proof (rule reads_back_one)
  fix p pe ps n ts
  assume w: "well_formed (IdentExpr t s)" and p: "sits p (t # ts)"
  have c: "cur p = t" using sits_cur [OF p] .
  have n: "tok_type t \<notin> {TkInt, TkFloat, TkString, TkTrue, TkFalse, TkNa}" and s: "s = literal t"
    using w by (auto simp: is_namespace_keyword_def)
  show "parse_prefix pe ps n p = Some (IdentExpr t s, adv p)"
    using w n by (simp add: parse_prefix_def Let_def c)
qed

text \<open>Operators and suffixes.\<close>

lemma binary_reads_back:
  assumes "tok_type t = op" "infix_prec op \<noteq> 0"
    and l: "reads_back (infix_prec op) l sl" and r: "reads_back (Suc (infix_prec op)) r sr"
    and start: "good_start (sl @ t # sr)" "sl \<noteq> []"
  shows "reads_back m (BinaryExpr t l op r) (parens (m \<le> infix_prec op) (sl @ t # sr))"
proof (rule reads_back_parens [where lvl = "infix_prec op"])
  fix k p ts e' q
  assume k: "k = 0 \<or> m \<le> infix_prec op \<and> fits_level k m" and p: "sits p ((sl @ t # sr) @ ts)"
    and st: "stops (infix_prec op) ts"
    and ex: "extends k (BinaryExpr t l op r) (mv p (length (sl @ t # sr))) e' q"
  have op6: "infix_prec op < prec_unary" "prec_unary < prec_call"
    using infix_prec_le [of op] by (simp_all add: prec_defs)
  have kop: "k < infix_prec op" "fits_level k (infix_prec op)"
    using k assms(2) op6 by auto
  have p1: "sits p (sl @ t # sr @ ts)" using p by simp
  let ?q = "mv p (length sl)"
  have q: "sits ?q (t # sr @ ts)" using sits_mv [OF p1] .
  then have adv: "adv ?q = mv p (Suc (length sl))" and q1: "sits (adv ?q) (sr @ ts)"
    using sits_adv sits_mv1 by fastforce+
  have "reads (infix_prec op) (adv ?q) r (mv (adv ?q) (length sr))"
    using reads_back_whole [OF r _ _ q1 st] op6 by simp
  then have "extends k l ?q e' q"
    using extends_binary [of k ?q r "mv (adv ?q) (length sr)" l e' q] sits_cur [OF q] assms(1) kop ex adv
    by simp
  then show "reads k p e' q"
    using reads_backD [OF l kop(2) p1] infix_ok_after [of t l "sr @ ts"] assms(1,2) by simp
next
  show "ok_after m (BinaryExpr t l op r) ts \<Longrightarrow> m \<le> infix_prec op \<Longrightarrow> stops (infix_prec op) ts" for ts
    by (simp add: ok_after_def)
  show "tl (sl @ t # sr) \<noteq> []" using start(2) by (cases sl) auto
qed (use start in auto)

lemma unary_reads_back:
  assumes "tok_type t = op" "op \<in> {TkMinus, TkNot}" and x: "reads_back prec_unary x sx"
    and start: "good_start sx"
  shows "reads_back m (UnaryExpr t op x) (parens (m \<le> prec_unary) (t # sx))"
proof (rule reads_back_parens [where lvl = prec_unary])
  fix k p ts e' q
  assume p: "sits p ((t # sx) @ ts)" and st: "stops prec_unary ts"
    and ex: "extends k (UnaryExpr t op x) (mv p (length (t # sx))) e' q"
  have p1: "sits p (t # sx @ ts)" using p by simp
  then have adv: "adv p = mv p 1" and q1: "sits (adv p) (sx @ ts)"
    using sits_adv sits_mv1 by fastforce+
  have "reads prec_unary (adv p) x (mv (adv p) (length sx))"
    using reads_back_whole [OF x _ _ q1 st] by (simp add: prec_defs)
  then have "reads_prefix p (UnaryExpr t op x) (mv (adv p) (length sx))"
    using reads_prefix_unary [of p x] sits_cur [OF p1] assms(1,2) by auto
  then show "reads k p e' q" using readsI ex adv by simp
next
  show "ok_after m (UnaryExpr t op x) ts \<Longrightarrow> m \<le> prec_unary \<Longrightarrow> stops prec_unary ts" for ts
    by (simp add: ok_after_def)
  show "good_start (t # sx)" using assms(1,2) good_start_unary by blast
  show "tl (t # sx) \<noteq> []" using start by (auto simp: good_start_def)
qed

lemma ternary_reads_back:
  assumes t: "tok_type t = TkQuestion" and c: "reads_back prec_or c sc"
    and x: "reads_back 0 x sx" and y: "reads_back 0 y sy" and start: "good_start sc"
  shows "reads_back m (TernaryExpr t c x y) (parens (m = 0) (sc @ t # sx @ sym TkColon '':'' # sy))"
proof (rule reads_back_parens [where lvl = 0])
  let ?co = "sym TkColon '':''"
  fix k p ts e' q
  assume k: "k = 0 \<or> m = 0 \<and> fits_level k m" and p: "sits p ((sc @ t # sx @ ?co # sy) @ ts)"
    and st: "stops 0 ts"
    and ex: "extends k (TernaryExpr t c x y) (mv p (length (sc @ t # sx @ ?co # sy))) e' q"
  have k0: "k = 0" using k by (auto simp: prec_defs)
  have p1: "sits p (sc @ t # sx @ ?co # sy @ ts)" using p by simp
  let ?q = "mv p (length sc)"
  have q: "sits ?q (t # sx @ ?co # sy @ ts)" using sits_mv [OF p1] .
  then have adv: "adv ?q = mv p (Suc (length sc))" and q1: "sits (adv ?q) (sx @ ?co # sy @ ts)"
    using sits_adv sits_mv1 by fastforce+
  have colon: "stops 0 (?co # us)" for us by (simp add: stops_def sym_def infix_prec_def)
  have rx: "reads 0 (adv ?q) x (mv (adv ?q) (length sx))"
    using reads_back_whole [OF x _ _ q1 colon] by (simp add: prec_defs)
  let ?r = "mv (adv ?q) (length sx)"
  have r: "sits ?r (?co # sy @ ts)" using sits_mv [OF q1] .
  then have adv2: "adv ?r = mv ?r 1" and r1: "sits (adv ?r) (sy @ ts)"
    using sits_adv sits_mv1 by fastforce+
  have ry: "reads 0 (adv ?r) y (mv (adv ?r) (length sy))"
    using reads_back_whole [OF y _ _ r1 st] by (simp add: prec_defs)
  have "cur_type ?r = TkColon" using sits_cur [OF r] by (simp add: sym_def)
  moreover have "mv (adv ?r) (length sy) = mv p (length (sc @ t # sx @ ?co # sy))"
    using adv adv2 by (simp add: ac_simps)
  ultimately have "extends k c ?q e' q"
    using extends_ternary [OF _ _ rx _ ry, of k c e' q] sits_cur [OF q] t ex k0 by (simp add: prec_defs)
  moreover have "ok_after prec_or c (t # sx @ ?co # sy @ ts)"
    using stops_ok_after [of prec_or "t # sx @ ?co # sy @ ts" prec_or c] t
    by (simp add: stops_def infix_prec_def)
  ultimately show "reads k p e' q"
    using reads_backD [OF c _ p1] k0 by (simp add: prec_defs)
next
  show "ok_after m (TernaryExpr t c x y) ts \<Longrightarrow> m = 0 \<Longrightarrow> stops 0 ts" for ts
    by (simp add: ok_after_def)
  show "good_start (sc @ t # sx @ sym TkColon '':'' # sy)" using start t good_start_append by simp
  show "tl (sc @ t # sx @ sym TkColon '':'' # sy) \<noteq> []"
    using start by (cases sc) (auto simp: good_start_def)
qed

text \<open>The suffixes extend a base that is printed at the tightest level.\<close>

lemma suffix_reads_back:
  assumes base: "reads_back prec_call c sc" and "\<not> is_na c \<or> tok_type t \<noteq> TkLParen"
    and ext: "\<And>k q ts e' q'. k < prec_call \<Longrightarrow> sits q (t # s @ ts)
        \<Longrightarrow> extends k e (mv q (Suc (length s))) e' q' \<Longrightarrow> extends k c q e' q'"
  shows "reads_back m e (sc @ t # s)"
  unfolding reads_back_def
proof (intro allI impI)
  fix k p ts e' q
  assume k: "fits_level k m" and p: "sits p ((sc @ t # s) @ ts)"
    and ex: "extends k e (mv p (length (sc @ t # s))) e' q"
  have p1: "sits p (sc @ t # s @ ts)" using p by simp
  have "extends k c (mv p (length sc)) e' q"
    using ext [OF _ sits_mv [OF p1]] k ex by simp
  then show "reads k p e' q"
    using reads_backD [OF base _ p1 base_ok_after [OF assms(2)]] k by (simp add: prec_defs)
qed

lemma dot_reads_back:
  assumes "tok_type t = TkDot" "reads_back prec_call c sc"
  shows "reads_back m (DotExpr t c f) (sc @ [t, sym TkIdent f])"
proof (rule suffix_reads_back [OF assms(2)])
  fix k q ts e' q'
  assume k: "k < prec_call" and q: "sits q (t # [sym TkIdent f] @ ts)"
    and ex: "extends k (DotExpr t c f) (mv q (Suc (length [sym TkIdent f]))) e' q'"
  have q1: "sits (mv q 1) (sym TkIdent f # ts)" using sits_mv1 [of q t "sym TkIdent f # ts"] q by simp
  then show "extends k c q e' q'"
    using extends_dot [of q k c e' q'] sits_cur [of q t] sits_adv [of q t] sits_adv [OF q1]
      sits_cur [OF q1] q assms(1) k ex
    by (simp add: sym_def)
qed (use assms in simp)

lemma index_reads_back:
  assumes "tok_type t = TkLBracket" "reads_back prec_call c sc" and i: "reads_back 0 i si"
  shows "reads_back m (IndexExpr t c i) (sc @ t # si @ [sym TkRBracket '']''])"
proof (rule suffix_reads_back [OF assms(2)])
  let ?rb = "sym TkRBracket '']''"
  fix k q ts e' q'
  assume k: "k < prec_call" and q: "sits q (t # (si @ [?rb]) @ ts)"
    and ex: "extends k (IndexExpr t c i) (mv q (Suc (length (si @ [?rb])))) e' q'"
  have adv: "adv q = mv q 1" and q1: "sits (adv q) (si @ ?rb # ts)"
    using sits_adv sits_mv1 q by fastforce+
  have "stops 0 (?rb # ts)" by (simp add: stops_def sym_def infix_prec_def)
  then have ri: "reads 0 (adv q) i (mv (adv q) (length si))"
    using reads_back_whole [OF i _ _ q1] by (simp add: prec_defs)
  have r: "sits (mv (adv q) (length si)) (?rb # ts)" using sits_mv [OF q1] .
  show "extends k c q e' q'"
    using extends_index [OF _ k ri, of c e' q'] sits_cur [OF q] sits_cur [OF r] sits_adv [OF r]
      assms(1) ex adv
    by (simp add: sym_def)
qed (use assms in simp)

text \<open>Argument lists and array elements.\<close>

definition arg_reads_back :: "call_arg \<Rightarrow> token list \<Rightarrow> bool" where
  "arg_reads_back a s = (\<forall>p ts. sits p (s @ ts) \<longrightarrow> hdt ts \<in> {TkComma, TkRParen}
     \<longrightarrow> reads_arg p a (mv p (length s)))"

definition args_read_back :: "call_arg list \<Rightarrow> token list \<Rightarrow> bool" where
  "args_read_back as s = (\<forall>p ts acc. sits p (s @ ts) \<longrightarrow> hdt ts = TkRParen
     \<longrightarrow> reads_args acc p (acc @ as) (mv p (length s)))"

definition elems_read_back :: "expr list \<Rightarrow> token list \<Rightarrow> bool" where
  "elems_read_back es s = (\<forall>p ts acc. sits p (s @ ts) \<longrightarrow> hdt ts = TkRBracket
     \<longrightarrow> reads_elems acc p (acc @ es) (mv p (length s)))"

lemma args_read_backD:
  "args_read_back as s \<Longrightarrow> sits p (s @ ts) \<Longrightarrow> hdt ts = TkRParen
     \<Longrightarrow> reads_args acc p (acc @ as) (mv p (length s))"
  by (auto simp: args_read_back_def)

lemma elems_read_backD:
  "elems_read_back es s \<Longrightarrow> sits p (s @ ts) \<Longrightarrow> hdt ts = TkRBracket
     \<Longrightarrow> reads_elems acc p (acc @ es) (mv p (length s))"
  by (auto simp: elems_read_back_def)

lemma comma_stops: "hdt ts \<in> {TkComma, TkRParen, TkRBracket} \<Longrightarrow> stops 0 ts"
  by (auto simp: stops_def infix_prec_def)

lemma good_start_hdt: "good_start s \<Longrightarrow> hdt (s @ ts) \<notin> {TkRParen, TkRBracket, TkEOF, TkNewline, TkComma}"
  by (auto simp: good_start_def hdt_def split: list.splits)

lemma arg_back:
  assumes e: "reads_back 0 e s" and start: "good_start s"
  shows "arg_reads_back (CallArg nm e) ((if nm = [] then [] else [sym TkIdent nm, sym TkEq ''='']) @ s)"
  unfolding arg_reads_back_def
proof (intro allI impI)
  fix p ts
  assume p: "sits p (((if nm = [] then [] else [sym TkIdent nm, sym TkEq ''='']) @ s) @ ts)"
    and ts: "hdt ts \<in> {TkComma, TkRParen}"
  have st: "stops 0 ts" using comma_stops ts by blast
  have whole: "reads 0 q e (mv q (length s))" if "sits q (s @ ts)" for q
    using reads_back_whole [OF e _ _ that st] by (simp add: prec_defs)
  show "reads_arg p (CallArg nm e) (mv p (length ((if nm = [] then [] else [sym TkIdent nm, sym TkEq ''='']) @ s)))"
  proof (cases "nm = []")
    case True
    then have p1: "sits p (s @ ts)" using p by simp
    obtain t us where s: "s = t # us" using start by (cases s) (auto simp: good_start_def)
    have "cur_type p = TkIdent \<Longrightarrow> tok_type (peek_raw p) \<noteq> TkEq"
      using start s ts hdt_peek [of p t "us @ ts"] sits_cur [of p t "us @ ts"] p1
      by (auto simp: good_start_def hdt_def split: list.splits)
    then show ?thesis using reads_arg_plain [OF _ whole [OF p1]] True by auto
  next
    case False
    then have p1: "sits p (sym TkIdent nm # sym TkEq ''='' # s @ ts)" using p by simp
    have p2: "sits (mv p 1) (sym TkEq ''='' # s @ ts)" using sits_mv1 [OF p1] by simp
    have "adv (adv p) = mv p 2" "sits (mv p 2) (s @ ts)"
      using sits_adv [OF p1] sits_adv [OF p2] sits_mv1 [OF p2] by (simp_all add: numeral_2_eq_2)
    then show ?thesis
      using reads_arg_named [of p e "mv (mv p 2) (length s)"] whole [of "mv p 2"] False
        sits_cur [OF p1] sits_peek [OF p1]
      by (simp add: sym_def)
  qed
qed

lemma args_back_more:
  assumes a: "arg_reads_back a s" and as: "args_read_back as s'"
    and start: "hdt s \<notin> {TkRParen, TkEOF, TkNewline}" "s \<noteq> []"
  shows "args_read_back (a # as) (s @ sym TkComma '','' # s')"
  unfolding args_read_back_def
proof (intro allI impI)
  fix p ts acc
  assume p: "sits p ((s @ sym TkComma '','' # s') @ ts)" and ts: "hdt ts = TkRParen"
  have p1: "sits p (s @ sym TkComma '','' # s' @ ts)" using p by simp
  have q: "sits (mv p (length s)) (sym TkComma '','' # s' @ ts)" using sits_mv [OF p1] .
  have r: "reads_arg p a (mv p (length s))"
    using a p1 by (auto simp: arg_reads_back_def sym_def)
  have "reads_args (acc @ [a]) (adv (mv p (length s))) ((acc @ [a]) @ as) (mv (adv (mv p (length s))) (length s'))"
    using args_read_backD [OF as sits_mv1 [OF q] ts, of "acc @ [a]"] sits_adv [OF q] by simp
  moreover have "cur_type p \<notin> {TkRParen, TkEOF, TkNewline}"
    using sits_hdt [OF p1] start by (cases s) auto
  moreover have "cur_type (mv p (length s)) = TkComma" using sits_cur [OF q] by (simp add: sym_def)
  ultimately show "reads_args acc p (acc @ a # as) (mv p (length (s @ sym TkComma '','' # s')))"
    using reads_args_more [OF _ r] sits_adv [OF q] by simp
qed

lemma args_back_last:
  assumes a: "arg_reads_back a s" and start: "hdt s \<notin> {TkRParen, TkEOF, TkNewline}" "s \<noteq> []"
  shows "args_read_back [a] s"
  unfolding args_read_back_def
proof (intro allI impI)
  fix p ts acc
  assume p: "sits p (s @ ts)" and ts: "hdt ts = TkRParen"
  have r: "reads_arg p a (mv p (length s))" using a p ts by (auto simp: arg_reads_back_def)
  have "cur_type p \<notin> {TkRParen, TkEOF, TkNewline}" using sits_hdt [OF p] start by (cases s) auto
  moreover have "cur_type (mv p (length s)) = TkRParen" using sits_hdt [OF sits_mv [OF p]] ts by simp
  ultimately show "reads_args acc p (acc @ [a]) (mv p (length s))"
    using reads_args_last [OF _ r] by simp
qed

lemma args_back_none: "args_read_back [] []"
  unfolding args_read_back_def using reads_args_end sits_hdt by auto

lemma elems_back_more:
  assumes a: "reads_back 0 e s" and as: "elems_read_back es s'" and start: "good_start s"
  shows "elems_read_back (e # es) (s @ sym TkComma '','' # s')"
  unfolding elems_read_back_def
proof (intro allI impI)
  fix p ts acc
  assume p: "sits p ((s @ sym TkComma '','' # s') @ ts)" and ts: "hdt ts = TkRBracket"
  have p1: "sits p (s @ sym TkComma '','' # s' @ ts)" using p by simp
  have q: "sits (mv p (length s)) (sym TkComma '','' # s' @ ts)" using sits_mv [OF p1] .
  have "stops 0 (sym TkComma '','' # s' @ ts)" by (intro comma_stops) (simp add: sym_def)
  then have r: "reads 0 p e (mv p (length s))"
    using reads_back_whole [OF a _ _ p1] by (simp add: prec_defs)
  have "reads_elems (acc @ [e]) (adv (mv p (length s))) ((acc @ [e]) @ es) (mv (adv (mv p (length s))) (length s'))"
    using elems_read_backD [OF as sits_mv1 [OF q] ts, of "acc @ [e]"] sits_adv [OF q] by simp
  moreover have "cur_type p \<notin> {TkRBracket, TkEOF}"
    using sits_hdt [OF p1] good_start_hdt [OF start] by auto
  moreover have "cur_type (mv p (length s)) = TkComma" using sits_cur [OF q] by (simp add: sym_def)
  ultimately show "reads_elems acc p (acc @ e # es) (mv p (length (s @ sym TkComma '','' # s')))"
    using reads_elems_more [OF _ r] sits_adv [OF q] by simp
qed

lemma elems_back_last:
  assumes a: "reads_back 0 e s" and start: "good_start s"
  shows "elems_read_back [e] s"
  unfolding elems_read_back_def
proof (intro allI impI)
  fix p ts acc
  assume p: "sits p (s @ ts)" and ts: "hdt ts = TkRBracket"
  have "stops 0 ts" using comma_stops ts by blast
  then have r: "reads 0 p e (mv p (length s))"
    using reads_back_whole [OF a _ _ p] by (simp add: prec_defs)
  have "cur_type p \<notin> {TkRBracket, TkEOF}" using sits_hdt [OF p] good_start_hdt [OF start] by auto
  moreover have "cur_type (mv p (length s)) = TkRBracket" using sits_hdt [OF sits_mv [OF p]] ts by simp
  ultimately show "reads_elems acc p (acc @ [e]) (mv p (length s))"
    using reads_elems_last [OF _ r] by simp
qed

lemma elems_back_none: "elems_read_back [] []"
  unfolding elems_read_back_def using reads_elems_end sits_hdt by auto

lemma call_reads_back:
  assumes "tok_type t = TkLParen" "\<not> is_na c" "reads_back prec_call c sc" and as: "args_read_back as sa"
  shows "reads_back m (CallExpr t c as) (sc @ t # sa @ [sym TkRParen '')''])"
proof (rule suffix_reads_back [OF assms(3)])
  let ?rp = "sym TkRParen '')''"
  fix k q ts e' q'
  assume k: "k < prec_call" and q: "sits q (t # (sa @ [?rp]) @ ts)"
    and ex: "extends k (CallExpr t c as) (mv q (Suc (length (sa @ [?rp])))) e' q'"
  have adv: "adv q = mv q 1" and q1: "sits (adv q) (sa @ ?rp # ts)"
    using sits_adv sits_mv1 q by fastforce+
  have ra: "reads_args [] (adv q) as (mv (adv q) (length sa))"
    using args_read_backD [OF as q1, of "[]"] by (simp add: sym_def)
  have r: "sits (mv (adv q) (length sa)) (?rp # ts)" using sits_mv [OF q1] .
  show "extends k c q e' q'"
    using extends_call [OF _ k ra, of c e' q'] sits_cur [OF q] sits_cur [OF r] sits_adv [OF r]
      assms(1) ex adv
    by (simp add: sym_def)
qed (use assms in simp)

lemma array_reads_back:
  assumes "tok_type t = TkLBracket" and es: "elems_read_back es s"
  shows "reads_back m (ArrayLit t es) (t # s @ [sym TkRBracket '']''])"
  unfolding reads_back_def
proof (intro allI impI)
  let ?rb = "sym TkRBracket '']''"
  fix k p ts e' q
  assume p: "sits p ((t # s @ [?rb]) @ ts)"
    and ex: "extends k (ArrayLit t es) (mv p (length (t # s @ [?rb]))) e' q"
  have p1: "sits p (t # s @ ?rb # ts)" using p by simp
  have adv: "adv p = mv p 1" and q1: "sits (adv p) (s @ ?rb # ts)"
    using sits_adv sits_mv1 p1 by fastforce+
  have re: "reads_elems [] (adv p) es (mv (adv p) (length s))"
    using elems_read_backD [OF es q1, of "[]"] by (simp add: sym_def)
  have r: "sits (mv (adv p) (length s)) (?rb # ts)" using sits_mv [OF q1] .
  have "reads_prefix p (ArrayLit t es) (adv (mv (adv p) (length s)))"
    using reads_prefix_array [OF _ re] sits_cur [OF p1] sits_cur [OF r] assms(1) by (simp add: sym_def)
  then show "reads k p e' q" using readsI ex adv sits_adv [OF r] by simp
qed

lemma show_nonempty: "well_formed e \<Longrightarrow> show_expr m e \<noteq> []"
  using show_good_start(1) [of e m] by (auto simp: good_start_def)

lemma show_arg_start:
  assumes "well_formed_arg a"
  shows "hdt (show_arg a) \<notin> {TkRParen, TkEOF, TkNewline} \<and> show_arg a \<noteq> []"
proof (cases a)
  case (CallArg nm e)
  have g: "good_start (show_expr 0 e)" using assms CallArg by (intro show_good_start(1)) simp
  then have "hdt (show_expr 0 e) \<notin> {TkRParen, TkEOF, TkNewline}" "show_expr 0 e \<noteq> []"
    using good_start_hdt [OF g, of "[]"] by (auto simp: good_start_def)
  then show ?thesis by (simp add: CallArg sym_def)
qed

lemma show_reads_back:
  "well_formed e \<Longrightarrow> reads_back m e (show_expr m e)"
  and "well_formed_arg a \<Longrightarrow> arg_reads_back a (show_arg a)"
  and "well_formed_args as \<Longrightarrow> args_read_back as (show_args as)"
  and "well_formed_elems es \<Longrightarrow> elems_read_back es (show_elems es)"
proof (induction m e and a and as and es rule: show_expr_show_arg_show_args_show_elems.induct)
  case (1 m t v)
  then show ?case using number_reads_back by simp
next
  case (2 m t v)
  then show ?case using string_reads_back by simp
next
  case (3 m t b)
  then show ?case using bool_reads_back by simp
next
  case (4 m t)
  then show ?case using na_reads_back by simp
next
  case (5 m t s)
  then show ?case using ident_reads_back by simp
next
  case (6 m t l op r)
  have "good_start (show_expr (infix_prec op) l @ t # show_expr (Suc (infix_prec op)) r)"
    using 6 show_good_start(1) [of l] good_start_append infix_no_delimiter [of op] by auto
  then show ?case using 6 binary_reads_back show_nonempty by simp
next
  case (7 m t op e)
  then show ?case using unary_reads_back show_good_start(1) by simp
next
  case (8 m t c as)
  then show ?case using call_reads_back by simp
next
  case (9 m t e f)
  then show ?case using dot_reads_back by simp
next
  case (10 m t e i)
  then show ?case using index_reads_back by simp
next
  case (11 m t c x y)
  then show ?case using ternary_reads_back show_good_start(1) by simp
next
  case (12 m t es)
  then show ?case using array_reads_back by simp
next
  case (14 nm e)
  then show ?case using arg_back show_good_start(1) by simp
next
  case 15
  then show ?case using args_back_none by simp
next
  case (16 a)
  then show ?case using args_back_last show_arg_start by simp
next
  case (17 a b as)
  then show ?case using args_back_more show_arg_start by simp
next
  case 18
  then show ?case using elems_back_none by simp
next
  case (19 e)
  then show ?case using elems_back_last show_good_start(1) by simp
next
  case (20 e f es)
  then show ?case using elems_back_more show_good_start(1) by simp
qed simp_all

section \<open>Properties\<close>

text \<open>
  C8. Printing and parsing an expression is the identity: for every well-formed tree \<open>e\<close> without
  lambdas, printed with the fewest parentheses the precedence levels allow, and whatever tokens
  follow as long as they do not continue an expression, \<open>parseExpr\<close> returns exactly \<open>e\<close>, stands
  right after its last token and reports no error.
\<close>

theorem parse_show_expr:
  assumes "well_formed e" "drop (p_pos p) (p_tokens p) = show_expr 0 e @ rest" "stops 0 rest"
  shows "\<exists>N. \<forall>n\<ge>N. parse_expr n 0 p = Some (e, p\<lparr>p_pos := p_pos p + length (show_expr 0 e)\<rparr>)"
proof -
  have "reads 0 p e (mv p (length (show_expr 0 e)))"
    using reads_back_whole [OF show_reads_back(1) [OF assms(1), of 0], of 0 p rest] assms(2,3)
    by (simp add: sits_def prec_defs)
  then show ?thesis using parse_expr_fuel unfolding reads_def mv_def by blast
qed

definition shown_example :: expr where
  "shown_example =
     BinaryExpr (sym TkMinus ''-'')
       (BinaryExpr (sym TkMinus ''-'') (IdentExpr (sym TkIdent ''a'') ''a'') TkMinus
          (BinaryExpr (sym TkStar ''*'') (IdentExpr (sym TkIdent ''b'') ''b'') TkStar
             (IdentExpr (sym TkIdent ''c'') ''c'')))
       TkMinus
       (BinaryExpr (sym TkPlus ''+'') (IdentExpr (sym TkIdent ''d'') ''d'') TkPlus
          (IdentExpr (sym TkIdent ''e'') ''e''))"

lemma shown_example_text:
  "map literal (show_expr 0 shown_example)
     = [''a'', ''-'', ''b'', ''*'', ''c'', ''-'', ''('', ''d'', ''+'', ''e'', '')'']"
  by code_simp

theorem parse_show_expr_witness:
  "\<exists>n q. parse_expr n 0 \<lparr>p_tokens = show_expr 0 shown_example, p_pos = 0, p_errors = []\<rparr>
     = Some (shown_example, q) \<and> p_errors q = []"
proof -
  have w: "well_formed shown_example" by code_simp
  have st: "stops 0 []" by (simp add: stops_def hdt_def infix_prec_def)
  have "\<exists>N. \<forall>n\<ge>N. parse_expr n 0 \<lparr>p_tokens = show_expr 0 shown_example, p_pos = 0, p_errors = []\<rparr>
      = Some (shown_example, \<lparr>p_tokens = show_expr 0 shown_example, p_pos = 0, p_errors = []\<rparr>
          \<lparr>p_pos := 0 + length (show_expr 0 shown_example)\<rparr>)"
    using parse_show_expr [OF w _ st, of "\<lparr>p_tokens = show_expr 0 shown_example, p_pos = 0, p_errors = []\<rparr>"]
    by simp
  then obtain n where "parse_expr n 0 \<lparr>p_tokens = show_expr 0 shown_example, p_pos = 0, p_errors = []\<rparr>
      = Some (shown_example, \<lparr>p_tokens = show_expr 0 shown_example, p_pos = 0, p_errors = []\<rparr>
          \<lparr>p_pos := 0 + length (show_expr 0 shown_example)\<rparr>)" by blast
  then show ?thesis by fastforce
qed

end
