(* ===== verification/Go_Format.thy ===== *)
theory Go_Format
  imports Go_Float64
begin

text \<open>
  The texts the program makes of numbers and instants: \<open>%d\<close> of an integer, \<open>strconv.FormatFloat\<close>
  with the format \<open>'f'\<close> and a given number of decimals, and \<open>Time.Format\<close> of a UTC instant with
  the layout \<open>RFC3339Nano\<close>. An instant is the number of nanoseconds since 1970.
\<close>

section \<open>Decimal digits\<close>

definition digit_char :: "int \<Rightarrow> char" where
  "digit_char d = char_of (48 + nat d)"

function dec_digits :: "int \<Rightarrow> string" where
  "dec_digits n =
     (if n < 10 then [digit_char n] else dec_digits (n div 10) @ [digit_char (n mod 10)])"
  by pat_completeness auto
termination
  by (relation "measure nat") auto

declare dec_digits.simps [simp del]

definition itoa :: "int \<Rightarrow> string" where
  "itoa n = (if n < 0 then ''-'' @ dec_digits (- n) else dec_digits n)"

definition pad_digits :: "nat \<Rightarrow> int \<Rightarrow> string" where
  "pad_digits w n = (let s = dec_digits n in replicate (w - length s) (CHR ''0'') @ s)"

section \<open>Floats with a fixed number of decimals\<close>

definition format_fixed :: "nat \<Rightarrow> f64 \<Rightarrow> string" where
  "format_fixed d x =
     (case x of
        FNaN \<Rightarrow> ''NaN''
      | FInf s \<Rightarrow> if s then ''-Inf'' else ''+Inf''
      | _ \<Rightarrow>
          let n = rhe (\<bar>fval x\<bar> * 10 ^ d)
          in (if fneg_sign x then ''-'' else []) @ dec_digits (n div 10 ^ d)
             @ (if d = 0 then [] else ''.'' @ pad_digits d (n mod 10 ^ d)))"

section \<open>Instants\<close>

text \<open>Year, month and day of a number of days since 1970-01-01 in the Gregorian calendar.\<close>

definition civil_date :: "int \<Rightarrow> int \<times> int \<times> int" where
  "civil_date days =
     (let z = days + 719468;
          era = z div 146097;
          doe = z mod 146097;
          yoe = (doe - doe div 1460 + doe div 36524 - doe div 146096) div 365;
          doy = doe - (365 * yoe + yoe div 4 - yoe div 100);
          mp = (5 * doy + 2) div 153;
          d = doy - (153 * mp + 2) div 5 + 1;
          m = (if mp < 10 then mp + 3 else mp - 9);
          y = yoe + era * 400 + (if m \<le> 2 then 1 else 0)
      in (y, m, d))"

fun strip_zeros :: "string \<Rightarrow> string" where
  "strip_zeros [] = []"
| "strip_zeros (c # s) = (if c = CHR ''0'' then strip_zeros s else c # s)"

definition rfc3339_nano :: "int \<Rightarrow> string" where
  "rfc3339_nano t =
     (let secs = t div 1000000000; nanos = t mod 1000000000;
          (y, m, d) = civil_date (secs div 86400); sod = secs mod 86400;
          frac = rev (strip_zeros (rev (pad_digits 9 nanos)))
      in (if y < 0 then ''-'' @ pad_digits 4 (- y) else pad_digits 4 y)
         @ ''-'' @ pad_digits 2 m @ ''-'' @ pad_digits 2 d
         @ ''T'' @ pad_digits 2 (sod div 3600) @ '':'' @ pad_digits 2 (sod div 60 mod 60)
         @ '':'' @ pad_digits 2 (sod mod 60) @ (if frac = [] then [] else ''.'' @ frac) @ ''Z'')"

lemma format_examples:
  "itoa (- 305) = ''-305''"
  "format_fixed 4 (FFin (- 1 / 32)) = ''-0.0312''"
  "rfc3339_nano (- 62135596800000000000) = ''0001-01-01T00:00:00Z''"
  "rfc3339_nano 1709251200500000000 = ''2024-03-01T00:00:00.5Z''"
  by code_simp+

end
