(* ===== verification/Go_Format_Short.thy ===== *)
theory Go_Format_Short
  imports Go_Format
begin

text \<open>
  The verb \<open>%g\<close> of package \<open>fmt\<close>, with which the runtime prints a number: the shortest decimal
  that rounds to the float, in the exponent form when the exponent is below \<open>-4\<close> or at least 6
  for a shortest conversion.
\<close>

text \<open>\<open>dec_exp q\<close> is the decimal exponent of a positive \<open>q\<close>: \<open>10 ^ dec_exp q \<le> q < 10 ^ (dec_exp q + 1)\<close>.\<close>

definition dec_exp :: "rat \<Rightarrow> int" where
  "dec_exp q =
     (let (n, d) = quotient_of q;
          k = int (length (dec_digits n)) - int (length (dec_digits d))
      in if 10 powi k \<le> q then k else k - 1)"

text \<open>The decimals with \<open>n\<close> digits next to \<open>q\<close>, the nearest first.\<close>

definition near_decimals :: "nat \<Rightarrow> rat \<Rightarrow> int list" where
  "near_decimals n q =
     (let s = q / 10 powi (dec_exp q - int n + 1) in [rhe s, \<lfloor>s\<rfloor>, \<lfloor>s\<rfloor> + 1])"

definition rounds_to :: "nat \<Rightarrow> rat \<Rightarrow> int \<Rightarrow> bool" where
  "rounds_to n q m = (rnd (of_int m * 10 powi (dec_exp q - int n + 1)) = FFin q)"

text \<open>Digits and the position of the decimal point, as in the type \<open>decimalSlice\<close> of \<open>strconv\<close>.\<close>

definition decimal_slice :: "nat \<Rightarrow> rat \<Rightarrow> int \<Rightarrow> string \<times> int" where
  "decimal_slice n q m =
     (let s = dec_digits m
      in (rev (strip_zeros (rev s)), dec_exp q + 1 + (int (length s) - int n)))"

primrec shortest_from :: "nat \<Rightarrow> nat \<Rightarrow> rat \<Rightarrow> string \<times> int" where
  "shortest_from 0 n q = decimal_slice n q (rhe (q / 10 powi (dec_exp q - int n + 1)))"
| "shortest_from (Suc k) n q =
     (case filter (rounds_to n q) (near_decimals n q) of
        m # _ \<Rightarrow> decimal_slice n q m
      | [] \<Rightarrow> shortest_from k (Suc n) q)"

text \<open>Seventeen digits always tell two floats apart.\<close>

definition shortest_digits :: "rat \<Rightarrow> string \<times> int" where
  "shortest_digits q = shortest_from 16 1 q"

definition exponent_text :: "int \<Rightarrow> string" where
  "exponent_text e = (if e < 0 then ''-'' else ''+'') @ pad_digits 2 \<bar>e\<bar>"

definition digits_e :: "string \<times> int \<Rightarrow> string" where
  "digits_e d =
     (let (s, dp) = d
      in take 1 s @ (if 1 < length s then ''.'' @ drop 1 s else [])
         @ ''e'' @ exponent_text (dp - 1))"

definition digits_f :: "string \<times> int \<Rightarrow> string" where
  "digits_f d =
     (let (s, dp) = d; n = int (length s)
      in (if 0 < dp then take (nat dp) s @ replicate (nat (dp - n)) (CHR ''0'') else ''0'')
         @ (if dp < n then ''.'' @ replicate (nat (- dp)) (CHR ''0'') @ drop (nat dp) s else []))"

definition format_g :: "f64 \<Rightarrow> string" where
  "format_g x =
     (case x of
        FNaN \<Rightarrow> ''NaN''
      | FInf s \<Rightarrow> if s then ''-Inf'' else ''+Inf''
      | FZero s \<Rightarrow> if s then ''-0'' else ''0''
      | FFin q \<Rightarrow>
          let d = shortest_digits \<bar>q\<bar>; e = snd d - 1
          in (if q < 0 then ''-'' else [])
             @ (if e < - 4 \<or> 6 \<le> e then digits_e d else digits_f d))"

lemma format_g_examples:
  "format_g (FFin 1000000) = ''1e+06''"
  "format_g (FFin (- 5 / 4)) = ''-1.25''"
  "format_g (FFin 400) = ''400''"
  by code_simp+

end
