(* ===== verification/Dsl_Value.thy ===== *)
theory Dsl_Value
  imports Dsl_Ast Go_Format_Short Go_Strings
begin

text \<open>
  The values and the store of the script interpreter (\<open>pkg/dsl/runtime/value.go\<close>, \<open>scope.go\<close>,
  \<open>series.go\<close>, \<open>pkg/dsl/diagnostics\<close> and the types at the head of \<open>interpreter.go\<close>).

  What the Go code shares through a pointer lives in the state of the interpreter and is named
  by an address: the frames of variables, the series, the backing arrays of array values and
  the functions. A \<open>*Scope\<close> is the list of the addresses of its frames, the innermost first:
  the \<open>parent\<close> field of a scope is set once, when the scope is made. A native function is named
  by the name it was registered under. The type \<open>'o\<close> holds the opaque objects of builtins other
  than the candidate collections and the market context, and \<open>'b\<close> the state behind the interface \<open>Bridge\<close>.
\<close>

section \<open>Values\<close>

text \<open>The \<open>MarketContext\<close> of \<open>builtins_market.go\<close>.\<close>

record market_context =
  mx_trend :: string
  mx_hv :: string
  mx_iv :: string
  mx_valuation :: string
  mx_scenario :: string
  mx_risk :: string
  mx_reasons :: "string list"
  mx_warnings :: "string list"

datatype 'o rvalue =
    VNa
  | VFloat f64
  | VBool bool
  | VString string
  | VSeries nat
  | VArray nat
  | VObject "'o robject"
  | VFn nat
  | VExpr expr
and 'o robject =
    NilObject
  | Candidate string f64 f64 "'o rvalue"
  | Market market_context
  | Opaque 'o

datatype fn_body = Native string | BodyBlock "stmt list" | BodyExpr expr

type_synonym scope = "nat list"

record rfn =
  fn_name :: string
  fn_params :: "string list"
  fn_body :: fn_body
  fn_closure :: scope

section \<open>Diagnostics\<close>

datatype severity = SevNone | SevInfo | SevWarning | SevError

record diagnostic =
  dg_severity :: severity
  dg_code :: string
  dg_message :: string
  dg_function :: string
  dg_bar :: "int option"
  dg_hint :: string

definition list_add :: "diagnostic \<Rightarrow> diagnostic list \<Rightarrow> diagnostic list" where
  "list_add d l =
     (if dg_message d = [] then l
      else l @ [if dg_severity d = SevNone then d\<lparr>dg_severity := SevWarning\<rparr> else d])"

definition diagnostic_string :: "diagnostic \<Rightarrow> string" where
  "diagnostic_string d =
     (if dg_code d \<noteq> [] then dg_code d @ '': '' @ dg_message d else dg_message d)"

definition list_strings :: "diagnostic list \<Rightarrow> string list" where
  "list_strings l = map diagnostic_string l"

definition has_errors :: "diagnostic list \<Rightarrow> bool" where
  "has_errors l = list_ex (\<lambda>d. dg_severity d = SevError) l"

section \<open>The interpreter\<close>

datatype signal = SigNone | SigReturn | SigBreak | SigContinue

record 'o plot_spec =
  pl_source :: string
  pl_title :: string
  pl_decimals :: int
  pl_overlay :: bool
  pl_series :: nat
  pl_last :: "'o rvalue"

record ('o, 'b) interp =
  ip_program :: "stmt list"
  ip_bar_index :: int
  ip_persist :: "string \<Rightarrow> 'o rvalue option"
  ip_varip :: "string \<Rightarrow> 'o rvalue option"
  ip_series_map :: "string \<Rightarrow> nat option"
  ip_builtins :: "string \<Rightarrow> 'o rvalue option"
  ip_property_fns :: "string \<Rightarrow> bool"
  ip_plots :: "'o plot_spec list"
  ip_queued :: "(string \<times> f64) list"
  ip_trace_keys :: "string list"
  ip_unresolved :: "string list"
  ip_failures :: "string list"
  ip_warnings :: "string list"
  ip_budget :: int
  ip_left :: int
  ip_halted :: bool
  ip_inputs :: "string \<Rightarrow> f64 option"
  ip_input_strings :: "string \<Rightarrow> string option"
  ip_bridge :: "'b option"
  ip_diagnostics :: "diagnostic list option"
  ip_read_only :: int
  ip_sig :: signal
  ip_ret :: "'o rvalue"
  ip_frames :: "(string \<Rightarrow> 'o rvalue option) list"
  ip_series :: "f64 list list"
  ip_arrays :: "'o rvalue list list"
  ip_fns :: "rfn list"

text \<open>The field \<open>Global\<close> is the frame made first.\<close>

definition global_scope :: scope where
  "global_scope = [0]"

section \<open>Series\<close>

definition series_append :: "f64 \<Rightarrow> f64 list \<Rightarrow> f64 list" where
  "series_append v s = s @ [v]"

definition series_set :: "f64 \<Rightarrow> f64 list \<Rightarrow> f64 list" where
  "series_set v s = (if s = [] then [v] else s[length s - 1 := v])"

definition series_current :: "f64 list \<Rightarrow> f64" where
  "series_current s = (if s = [] then FNaN else s ! (length s - 1))"

definition series_at :: "f64 list \<Rightarrow> int \<Rightarrow> f64" where
  "series_at s n =
     (let idx = int (length s) - 1 - n
      in if idx < 0 \<or> int (length s) \<le> idx then FNaN else s ! nat idx)"

text \<open>\<open>Last\<close> with a negative count makes a slice of negative length, which panics.\<close>

definition series_last :: "f64 list \<Rightarrow> int \<Rightarrow> f64 list option" where
  "series_last s n =
     (let n = (if int (length s) < n then int (length s) else n)
      in if n < 0 then None else Some (drop (length s - nat n) s))"

definition series_of :: "('o, 'b) interp \<Rightarrow> nat \<Rightarrow> f64 list" where
  "series_of st a = (if a < length (ip_series st) then ip_series st ! a else [])"

definition array_of :: "('o, 'b) interp \<Rightarrow> nat \<Rightarrow> 'o rvalue list" where
  "array_of st a = (if a < length (ip_arrays st) then ip_arrays st ! a else [])"

definition new_series :: "f64 list \<Rightarrow> ('o, 'b) interp \<Rightarrow> nat \<times> ('o, 'b) interp" where
  "new_series xs st = (length (ip_series st), st\<lparr>ip_series := ip_series st @ [xs]\<rparr>)"

definition update_series ::
  "nat \<Rightarrow> (f64 list \<Rightarrow> f64 list) \<Rightarrow> ('o, 'b) interp \<Rightarrow> ('o, 'b) interp" where
  "update_series a f st = st\<lparr>ip_series := (ip_series st)[a := f (series_of st a)]\<rparr>"

definition new_array ::
  "'o rvalue list \<Rightarrow> ('o, 'b) interp \<Rightarrow> 'o rvalue \<times> ('o, 'b) interp" where
  "new_array vs st = (VArray (length (ip_arrays st)), st\<lparr>ip_arrays := ip_arrays st @ [vs]\<rparr>)"

definition new_fn :: "rfn \<Rightarrow> ('o, 'b) interp \<Rightarrow> 'o rvalue \<times> ('o, 'b) interp" where
  "new_fn f st = (VFn (length (ip_fns st)), st\<lparr>ip_fns := ip_fns st @ [f]\<rparr>)"

section \<open>Accessors of a value\<close>

text \<open>\<open>Float\<close>, \<open>Bool\<close>, \<open>String\<close>, \<open>Str\<close>, \<open>SeriesPtr\<close> and \<open>Array\<close>.\<close>

definition float_of :: "('o, 'b) interp \<Rightarrow> 'o rvalue \<Rightarrow> f64" where
  "float_of st v =
     (case v of
        VFloat x \<Rightarrow> x
      | VBool b \<Rightarrow> if b then 1 else 0
      | VSeries a \<Rightarrow> series_current (series_of st a)
      | _ \<Rightarrow> FNaN)"

definition bool_of :: "('o, 'b) interp \<Rightarrow> 'o rvalue \<Rightarrow> bool" where
  "bool_of st v =
     (case v of
        VBool b \<Rightarrow> b
      | VFloat x \<Rightarrow> \<not> feq x 0 \<and> \<not> is_nan x
      | VString s \<Rightarrow> s \<noteq> []
      | VNa \<Rightarrow> False
      | VSeries a \<Rightarrow> (let c = series_current (series_of st a) in \<not> is_nan c \<and> \<not> feq c 0)
      | VArray a \<Rightarrow> array_of st a \<noteq> []
      | VObject b \<Rightarrow> (case b of NilObject \<Rightarrow> False | _ \<Rightarrow> True)
      | _ \<Rightarrow> False)"

definition fn_of :: "('o, 'b) interp \<Rightarrow> nat \<Rightarrow> rfn" where
  "fn_of st a =
     (if a < length (ip_fns st) then ip_fns st ! a
      else \<lparr>fn_name = [], fn_params = [], fn_body = Native [], fn_closure = []\<rparr>)"

definition string_of :: "('o, 'b) interp \<Rightarrow> 'o rvalue \<Rightarrow> string" where
  "string_of st v =
     (case v of
        VNa \<Rightarrow> ''na''
      | VFloat x \<Rightarrow> format_g x
      | VBool b \<Rightarrow> if b then ''true'' else ''false''
      | VString s \<Rightarrow> s
      | VSeries a \<Rightarrow> ''series('' @ format_g (series_current (series_of st a)) @ '')''
      | VArray a \<Rightarrow> ''array['' @ itoa (int (length (array_of st a))) @ '']''
      | VObject b \<Rightarrow> ''object''
      | VFn a \<Rightarrow> ''fn('' @ fn_name (fn_of st a) @ '')''
      | VExpr e \<Rightarrow> ''expr'')"

definition str_of :: "'o rvalue \<Rightarrow> string" where
  "str_of v = (case v of VString s \<Rightarrow> s | _ \<Rightarrow> [])"

definition series_ptr :: "'o rvalue \<Rightarrow> nat option" where
  "series_ptr v = (case v of VSeries a \<Rightarrow> Some a | _ \<Rightarrow> None)"

definition elements :: "('o, 'b) interp \<Rightarrow> 'o rvalue \<Rightarrow> 'o rvalue list" where
  "elements st v = (case v of VArray a \<Rightarrow> array_of st a | _ \<Rightarrow> [])"

definition is_string :: "'o rvalue \<Rightarrow> bool" where
  "is_string v = (case v of VString _ \<Rightarrow> True | _ \<Rightarrow> False)"

definition is_array :: "'o rvalue \<Rightarrow> bool" where
  "is_array v = (case v of VArray _ \<Rightarrow> True | _ \<Rightarrow> False)"

definition is_na_value :: "'o rvalue \<Rightarrow> bool" where
  "is_na_value v = (case v of VNa \<Rightarrow> True | _ \<Rightarrow> False)"

definition is_numeric_like :: "'o rvalue \<Rightarrow> bool" where
  "is_numeric_like v =
     (case v of VFloat _ \<Rightarrow> True | VBool _ \<Rightarrow> True | VNa \<Rightarrow> True | VSeries _ \<Rightarrow> True | _ \<Rightarrow> False)"

section \<open>Scopes\<close>

definition frame_of :: "('o, 'b) interp \<Rightarrow> nat \<Rightarrow> string \<Rightarrow> 'o rvalue option" where
  "frame_of st a = (if a < length (ip_frames st) then ip_frames st ! a else (\<lambda>_. None))"

definition set_in_frame ::
  "nat \<Rightarrow> string \<Rightarrow> 'o rvalue \<Rightarrow> ('o, 'b) interp \<Rightarrow> ('o, 'b) interp" where
  "set_in_frame a x v st = st\<lparr>ip_frames := (ip_frames st)[a := (frame_of st a)(x := Some v)]\<rparr>"

definition scope_child :: "scope \<Rightarrow> ('o, 'b) interp \<Rightarrow> scope \<times> ('o, 'b) interp" where
  "scope_child sc st =
     (length (ip_frames st) # sc, st\<lparr>ip_frames := ip_frames st @ [\<lambda>_. None]\<rparr>)"

primrec scope_get :: "('o, 'b) interp \<Rightarrow> scope \<Rightarrow> string \<Rightarrow> 'o rvalue option" where
  "scope_get st [] x = None"
| "scope_get st (a # sc) x =
     (case frame_of st a x of Some v \<Rightarrow> Some v | None \<Rightarrow> scope_get st sc x)"

definition scope_set ::
  "scope \<Rightarrow> string \<Rightarrow> 'o rvalue \<Rightarrow> ('o, 'b) interp \<Rightarrow> ('o, 'b) interp" where
  "scope_set sc x v st = (case sc of [] \<Rightarrow> st | a # _ \<Rightarrow> set_in_frame a x v st)"

primrec scope_update ::
  "scope \<Rightarrow> string \<Rightarrow> 'o rvalue \<Rightarrow> ('o, 'b) interp \<Rightarrow> bool \<times> ('o, 'b) interp" where
  "scope_update [] x v st = (False, st)"
| "scope_update (a # sc) x v st =
     (case frame_of st a x of
        Some _ \<Rightarrow> (True, set_in_frame a x v st)
      | None \<Rightarrow> scope_update sc x v st)"

text \<open>The idiom \<open>if !scope.Update(x, v) { scope.Set(x, v) }\<close>.\<close>

definition scope_assign ::
  "scope \<Rightarrow> string \<Rightarrow> 'o rvalue \<Rightarrow> ('o, 'b) interp \<Rightarrow> ('o, 'b) interp" where
  "scope_assign sc x v st =
     (let (found, st') = scope_update sc x v st in if found then st' else scope_set sc x v st')"

end
