(* ===== verification/Dsl_Interp.thy ===== *)
theory Dsl_Interp
  imports Dsl_Value "HOL-Library.AList"
begin

text \<open>
  The script interpreter (\<open>pkg/dsl/runtime/interpreter.go\<close>). A method of \<open>Interpreter\<close> is a
  function on its state. The methods that walk the syntax tree return an option: \<open>None\<close> means
  that the walk did not finish within the fuel. They take the walk one level down as their
  argument \<open>r\<close>, and \<open>run\<close> ties the knot. \<open>Dsl_Exec_Returns\<close> proves that the execution budget of a
  bar always leaves enough fuel.

  What the interpreter calls through an interface or a function value is the record \<open>renv\<close>: the
  registered native functions, the bar fields of the bridge, the bridge's special forms, the
  order in which a map is visited, equality of opaque objects, and what the Go language leaves
  to the implementation (the conversion of an out-of-range float to an integer) or takes from
  the Unicode tables (\<open>%q\<close> beyond ASCII).
\<close>

type_synonym ('o, 'b) rres = "('o rvalue \<times> ('o, 'b) interp) option"
type_synonym ('o, 'b) eval_fn = "expr \<Rightarrow> scope \<Rightarrow> ('o, 'b) interp \<Rightarrow> ('o, 'b) rres"

record ('o, 'b) renv =
  re_int :: "f64 \<Rightarrow> int"
  re_quote :: "string \<Rightarrow> string"
  re_same :: "'o \<Rightarrow> 'o \<Rightarrow> bool"
  re_order :: "(string \<times> f64) list \<Rightarrow> (string \<times> f64) list"
  re_native :: "string \<Rightarrow> 'o rvalue list \<Rightarrow> ('o, 'b) interp \<Rightarrow> 'o rvalue \<times> ('o, 'b) interp"
  re_special :: "('o, 'b) eval_fn \<Rightarrow> expr \<Rightarrow> scope \<Rightarrow> ('o, 'b) interp \<Rightarrow> ('o, 'b) rres option"
  re_bar_index :: "'b \<Rightarrow> int"
  re_open :: "'b \<Rightarrow> f64"
  re_high :: "'b \<Rightarrow> f64"
  re_low :: "'b \<Rightarrow> f64"
  re_close :: "'b \<Rightarrow> f64"
  re_volume :: "'b \<Rightarrow> f64"

section \<open>Conversions\<close>

text \<open>\<open>beyond\<close> is the conversion of a float that is no 64-bit integer after truncation.\<close>

definition int_of_float :: "(f64 \<Rightarrow> int) \<Rightarrow> f64 \<Rightarrow> int" where
  "int_of_float beyond x =
     (let t = (if fval x < 0 then - \<lfloor>- fval x\<rfloor> else \<lfloor>fval x\<rfloor>)
      in case x of
           FZero _ \<Rightarrow> 0
         | FFin _ \<Rightarrow> if - (2 ^ 63) \<le> t \<and> t < 2 ^ 63 then t else beyond x
         | _ \<Rightarrow> beyond x)"

text \<open>\<open>math.Mod\<close> is exact; the result has the sign of the dividend.\<close>

definition math_mod :: "f64 \<Rightarrow> f64 \<Rightarrow> f64" where
  "math_mod x y =
     (if is_nan x \<or> is_nan y \<or> is_inf x \<or> feq y 0 then FNaN
      else if is_inf y then x
      else let q = \<bar>fval x\<bar> / \<bar>fval y\<bar>; r = \<bar>fval x\<bar> - \<bar>fval y\<bar> * of_int \<lfloor>q\<rfloor>
           in if r = 0 then FZero (fneg_sign x) else FFin (if fval x < 0 then - r else r))"

definition quote_char :: "char \<Rightarrow> string" where
  "quote_char c =
     (if c = CHR 0x22 \<or> c = CHR 0x5C then [CHR 0x5C, c]
      else if 32 \<le> byte c \<and> byte c < 127 then [c]
      else if c = CHR 0x07 then [CHR 0x5C, CHR ''a'']
      else if c = CHR 0x08 then [CHR 0x5C, CHR ''b'']
      else if c = CHR 0x0C then [CHR 0x5C, CHR ''f'']
      else if c = CHR 0x0A then [CHR 0x5C, CHR ''n'']
      else if c = CHR 0x0D then [CHR 0x5C, CHR ''r'']
      else if c = CHR 0x09 then [CHR 0x5C, CHR ''t'']
      else if c = CHR 0x0B then [CHR 0x5C, CHR ''v'']
      else [CHR 0x5C, CHR ''x'', ''0123456789abcdef'' ! (byte c div 16),
            ''0123456789abcdef'' ! (byte c mod 16)])"

definition go_quote :: "('o, 'b) renv \<Rightarrow> string \<Rightarrow> string" where
  "go_quote E s =
     (if is_ascii s then [CHR 0x22] @ concat (map quote_char s) @ [CHR 0x22] else re_quote E s)"

section \<open>Diagnostics\<close>

definition bar_diagnostic ::
  "severity \<Rightarrow> string \<Rightarrow> string \<Rightarrow> string \<Rightarrow> string \<Rightarrow> ('o, 'b) interp \<Rightarrow> diagnostic" where
  "bar_diagnostic sev code msg func hint st =
     \<lparr>dg_severity = sev, dg_code = code, dg_message = msg, dg_function = func,
      dg_bar = Some (ip_bar_index st), dg_hint = hint\<rparr>"

definition add_diagnostic :: "diagnostic \<Rightarrow> ('o, 'b) interp \<Rightarrow> ('o, 'b) interp" where
  "add_diagnostic d st = st\<lparr>ip_diagnostics := map_option (list_add d) (ip_diagnostics st)\<rparr>"

definition unresolved_hint :: string where
  "unresolved_hint =
     ''Check for typos in variable or builtin names; undeclared identifiers evaluate to na and silently break conditions.''"

definition report_unresolved ::
  "('o, 'b) renv \<Rightarrow> string \<Rightarrow> ('o, 'b) interp \<Rightarrow> ('o, 'b) interp" where
  "report_unresolved E x st =
     (if ip_diagnostics st = None \<or> x \<in> set (ip_unresolved st) then st
      else add_diagnostic
             (bar_diagnostic SevError ''dsl.unresolved_identifier''
                (''identifier '' @ go_quote E x @ '' is not defined'') [] unresolved_hint st)
             (st\<lparr>ip_unresolved := x # ip_unresolved st\<rparr>))"

definition builtin_failure_hint :: string where
  "builtin_failure_hint =
     ''Check that the bridge/backtest configuration supports this call and that arguments (legs, qty, scope) are valid.''"

definition report_builtin_failure :: "string \<Rightarrow> string \<Rightarrow> ('o, 'b) interp \<Rightarrow> ('o, 'b) interp" where
  "report_builtin_failure func reason st =
     (let key = func @ '':'' @ reason
      in if ip_diagnostics st = None \<or> key \<in> set (ip_failures st) then st
         else add_diagnostic
                (bar_diagnostic SevError ''dsl.builtin_call_failed''
                   (func @ '' failed: '' @ reason) func builtin_failure_hint st)
                (st\<lparr>ip_failures := key # ip_failures st\<rparr>))"

definition compound_hint :: string where
  "compound_hint =
     ''Compound assignment operators (+=, -=, *=, /=, %=, ++, --) require numeric operands; += also allows string concatenation.''"

definition report_compound :: "string \<Rightarrow> string \<Rightarrow> ('o, 'b) interp \<Rightarrow> ('o, 'b) interp" where
  "report_compound x op st =
     (let key = ''compound:'' @ x @ '':'' @ op
      in if ip_diagnostics st = None \<or> key \<in> set (ip_failures st) then st
         else add_diagnostic
                (bar_diagnostic SevError ''dsl.compound_assign_type_error''
                   (x @ op @ '' applied to a non-numeric operand'') [] compound_hint st)
                (st\<lparr>ip_failures := key # ip_failures st\<rparr>))"

definition report_warning ::
  "string \<Rightarrow> string \<Rightarrow> string \<Rightarrow> string \<Rightarrow> ('o, 'b) interp \<Rightarrow> ('o, 'b) interp" where
  "report_warning code key msg hint st =
     (let k = code @ '':'' @ key
      in if ip_diagnostics st = None \<or> k \<in> set (ip_warnings st) then st
         else add_diagnostic (bar_diagnostic SevWarning code msg [] hint st)
                (st\<lparr>ip_warnings := k # ip_warnings st\<rparr>))"

definition allow_side_effect :: "string \<Rightarrow> ('o, 'b) interp \<Rightarrow> bool \<times> ('o, 'b) interp" where
  "allow_side_effect func st =
     (if ip_read_only st = 0 then (True, st)
      else (False, add_diagnostic
              (bar_diagnostic SevError ''dsl.readonly_side_effect''
                 ''side-effecting DSL calls are not allowed inside read-only expressions'' func
                 ''Move trading, spread, group, or scheduling calls out of request.security expression arguments.'' st)
              st))"

section \<open>The execution budget\<close>

definition default_execution_budget :: int where
  "default_execution_budget = 100000"

definition execution_budget :: "('o, 'b) interp \<Rightarrow> int" where
  "execution_budget st = (if 0 < ip_budget st then ip_budget st else default_execution_budget)"

definition consume :: "('o, 'b) interp \<Rightarrow> bool \<times> ('o, 'b) interp" where
  "consume st =
     (if ip_halted st then (False, st)
      else let st = st\<lparr>ip_left := ip_left st - 1\<rparr>
           in if 0 \<le> ip_left st then (True, st)
              else (False, add_diagnostic
                (bar_diagnostic SevError ''dsl.execution_budget_exceeded''
                   ''DSL execution budget exceeded for bar'' []
                   ''Reduce loop work, simplify nested function calls, or raise the execution budget for this trusted strategy.'' st)
                (st\<lparr>ip_halted := True\<rparr>)))"

section \<open>Bar fields and series\<close>

definition set_bar_field :: "string \<Rightarrow> f64 \<Rightarrow> ('o, 'b) interp \<Rightarrow> ('o, 'b) interp" where
  "set_bar_field x v st =
     (let (a, st) = (case ip_series_map st x of
                       Some a \<Rightarrow> (a, st)
                     | None \<Rightarrow> let (a, st) = new_series [] st
                               in (a, st\<lparr>ip_series_map := (ip_series_map st)(x := Some a)\<rparr>))
      in scope_set global_scope x (VSeries a) (update_series a (series_append v) st))"

definition set_named_field :: "string \<Rightarrow> f64 \<Rightarrow> ('o, 'b) interp \<Rightarrow> ('o, 'b) interp" where
  "set_named_field x v st =
     (if trim_space x = [] then st else st\<lparr>ip_queued := AList.update x v (ip_queued st)\<rparr>)"

definition capture_series ::
  "string \<Rightarrow> f64 \<Rightarrow> ('o, 'b) interp \<Rightarrow> 'o rvalue \<times> ('o, 'b) interp" where
  "capture_series x v st =
     (let x = trim_space x
      in if x = [] then (VFloat v, st)
         else let (a, st) =
                (case ip_series_map st x of
                   Some a \<Rightarrow> (a, st)
                 | None \<Rightarrow>
                     let (a, st) = new_series (replicate (nat (ip_bar_index st - 1)) FNaN) st
                     in (a, st\<lparr>ip_series_map := (ip_series_map st)(x := Some a)\<rparr>));
              st = update_series a
                     (if int (length (series_of st a)) < ip_bar_index st then series_append v
                      else series_set v) st
              in (VSeries a, scope_set global_scope x (VSeries a) st))"

text \<open>The padding loop of \<open>promoteScalarSeries\<close>.\<close>

definition pad_series :: "int \<Rightarrow> f64 list \<Rightarrow> f64 list" where
  "pad_series n s = s @ replicate (nat (n - int (length s))) FNaN"

definition promote ::
  "string \<Rightarrow> 'o rvalue \<Rightarrow> scope \<Rightarrow> ('o, 'b) interp \<Rightarrow> 'o rvalue \<times> ('o, 'b) interp" where
  "promote x v sc st =
     (if \<not> is_numeric_like v then (v, scope_set sc x v st)
      else let (a, st) = (case ip_series_map st x of
                            Some a \<Rightarrow> (a, st)
                          | None \<Rightarrow> let (a, st) = new_series [] st
                                    in (a, st\<lparr>ip_series_map := (ip_series_map st)(x := Some a)\<rparr>));
               st = update_series a (pad_series (ip_bar_index st - 1)) st;
               f = float_of st v;
               st = update_series a
                      (if int (length (series_of st a)) < ip_bar_index st then series_append f
                       else series_set f) st
           in (VSeries a, scope_set sc x (VSeries a) st))"

section \<open>Plots\<close>

primrec plot_named :: "string \<Rightarrow> 'o plot_spec list \<Rightarrow> nat \<Rightarrow> nat option" where
  "plot_named t [] i = None"
| "plot_named t (p # ps) i = (if pl_title p = t then Some i else plot_named t ps (Suc i))"

definition register_plot ::
  "string \<Rightarrow> int \<Rightarrow> bool \<Rightarrow> ('o, 'b) interp \<Rightarrow> nat \<times> ('o, 'b) interp" where
  "register_plot title decimals overlay st =
     (let n = length (ip_plots st);
          t = trim_space title;
          t = (if t = [] then ''plot_'' @ itoa (int n + 1) else t)
      in case plot_named t (ip_plots st) 0 of
           Some i \<Rightarrow>
             (i, st\<lparr>ip_plots := (ip_plots st)
                [i := (ip_plots st ! i)\<lparr>pl_decimals := decimals, pl_overlay := overlay\<rparr>]\<rparr>)
         | None \<Rightarrow>
             let (a, st) = new_series (replicate (nat (ip_bar_index st)) FNaN) st
             in (n, st\<lparr>ip_plots := ip_plots st @
                  [\<lparr>pl_source = ''plot.'' @ itoa (int n + 1), pl_title = t, pl_decimals = decimals,
                    pl_overlay = overlay, pl_series = a, pl_last = VNa\<rparr>]\<rparr>))"

definition set_plot_value ::
  "string \<Rightarrow> 'o rvalue \<Rightarrow> int \<Rightarrow> bool \<Rightarrow> ('o, 'b) interp \<Rightarrow> 'o rvalue \<times> ('o, 'b) interp" where
  "set_plot_value title v decimals overlay st =
     (let (i, st) = register_plot title decimals overlay st;
          p = ip_plots st ! i;
          st = st\<lparr>ip_plots := (ip_plots st)[i := p\<lparr>pl_last := v\<rparr>]\<rparr>
      in (v, update_series (pl_series p) (series_set (float_of st v)) st))"

definition plot_columns :: "('o, 'b) interp \<Rightarrow> (string \<times> string \<times> int \<times> bool) list" where
  "plot_columns st =
     map (\<lambda>p. (pl_source p, pl_title p, pl_decimals p, pl_overlay p)) (ip_plots st)"

definition plot_series :: "('o, 'b) interp \<Rightarrow> string \<Rightarrow> f64 list option" where
  "plot_series st = map_of (map (\<lambda>p. (pl_source p, series_of st (pl_series p))) (rev (ip_plots st)))"

section \<open>Containers and equality\<close>

text \<open>
  The fuel of the two recursions into arrays is more than the number of arrays in the store, so
  only an array that contains itself exhausts it.
\<close>

primrec snapshot_list ::
  "('o rvalue \<Rightarrow> ('o, 'b) interp \<Rightarrow> ('o, 'b) rres) \<Rightarrow> 'o rvalue list \<Rightarrow> ('o, 'b) interp
     \<Rightarrow> ('o rvalue list \<times> ('o, 'b) interp) option" where
  "snapshot_list f [] st = Some ([], st)"
| "snapshot_list f (v # vs) st =
     do { (w, st) \<leftarrow> f v st; (ws, st) \<leftarrow> snapshot_list f vs st; Some (w # ws, st) }"

primrec snapshot_upto :: "nat \<Rightarrow> 'o rvalue \<Rightarrow> ('o, 'b) interp \<Rightarrow> ('o, 'b) rres" where
  "snapshot_upto 0 v st = None"
| "snapshot_upto (Suc n) v st =
     (case v of
        VSeries a \<Rightarrow> Some (VFloat (float_of st v), st)
      | VArray a \<Rightarrow>
          do { (ws, st) \<leftarrow> snapshot_list (snapshot_upto n) (array_of st a) st;
               Some (new_array ws st) }
      | _ \<Rightarrow> Some (v, st))"

definition snapshot :: "'o rvalue \<Rightarrow> ('o, 'b) interp \<Rightarrow> ('o, 'b) rres" where
  "snapshot v st = snapshot_upto (Suc (length (ip_arrays st))) v st"

definition objects_equal :: "('o \<Rightarrow> 'o \<Rightarrow> bool) \<Rightarrow> 'o robject \<Rightarrow> 'o robject \<Rightarrow> bool" where
  "objects_equal same x y =
     (case (x, y) of
        (NilObject, NilObject) \<Rightarrow> True
      | (Opaque o1, Opaque o2) \<Rightarrow> same o1 o2
      | _ \<Rightarrow> False)"

primrec equal_lists ::
  "('o rvalue \<Rightarrow> 'o rvalue \<Rightarrow> bool option) \<Rightarrow> 'o rvalue list \<Rightarrow> 'o rvalue list \<Rightarrow> bool option" where
  "equal_lists f [] ys = Some True"
| "equal_lists f (x # xs) ys =
     (case ys of
        [] \<Rightarrow> Some True
      | y # ys \<Rightarrow> do { b \<leftarrow> f x y; if b then equal_lists f xs ys else Some False })"

primrec val_equal_upto ::
  "('o \<Rightarrow> 'o \<Rightarrow> bool) \<Rightarrow> ('o, 'b) interp \<Rightarrow> nat \<Rightarrow> 'o rvalue \<Rightarrow> 'o rvalue \<Rightarrow> bool option" where
  "val_equal_upto same st 0 x y = None"
| "val_equal_upto same st (Suc n) x y =
     (if is_na_value x \<or> is_na_value y then Some (is_na_value x \<and> is_na_value y)
      else if series_ptr x \<noteq> None \<or> series_ptr y \<noteq> None
      then Some (feq (float_of st x) (float_of st y))
      else case x of
        VFloat u \<Rightarrow> Some (feq u (float_of st y))
      | VBool b \<Rightarrow> Some (b = bool_of st y)
      | VString s \<Rightarrow> Some (s = str_of y)
      | VArray a \<Rightarrow>
          (case y of
             VArray b \<Rightarrow>
               if length (array_of st a) \<noteq> length (array_of st b) then Some False
               else equal_lists (val_equal_upto same st n) (array_of st a) (array_of st b)
           | _ \<Rightarrow> Some False)
      | VFn a \<Rightarrow> Some (case y of VFn b \<Rightarrow> a = b | _ \<Rightarrow> False)
      | VObject u \<Rightarrow> Some (case y of VObject w \<Rightarrow> objects_equal same u w | _ \<Rightarrow> False)
      | VExpr e \<Rightarrow> Some (case y of VExpr e' \<Rightarrow> e = e' | _ \<Rightarrow> False)
      | _ \<Rightarrow> Some False)"

definition val_equal ::
  "('o \<Rightarrow> 'o \<Rightarrow> bool) \<Rightarrow> 'o rvalue \<Rightarrow> 'o rvalue \<Rightarrow> ('o, 'b) interp \<Rightarrow> bool option" where
  "val_equal same x y st = val_equal_upto same st (Suc (length (ip_arrays st))) x y"

end
