(* ===== verification/Dsl_Exec.thy ===== *)
theory Dsl_Exec
  imports Dsl_Interp
begin

text \<open>
  The walk over the syntax tree: \<open>evalExpr\<close>, \<open>execBlock\<close> and the methods they call, and the
  entry points \<open>Init\<close> and \<open>OnBar\<close> (\<open>pkg/dsl/runtime/interpreter.go\<close>). The work still to be done
  by a recursive call is a value: an expression, the statements of a block, or the rest of a
  numeric \<open>for\<close> or of a \<open>while\<close> loop.
\<close>

datatype 'o work =
    WExpr expr
  | WBlock "stmt list"
  | WFor string f64 f64 f64 "stmt list" "'o rvalue"
  | WWhile expr "stmt list" int "'o rvalue"

type_synonym ('o, 'b) walk = "'o work \<Rightarrow> scope \<Rightarrow> ('o, 'b) interp \<Rightarrow> ('o, 'b) rres"

section \<open>Expressions\<close>

primrec eval_list ::
  "('o, 'b) walk \<Rightarrow> expr list \<Rightarrow> scope \<Rightarrow> ('o, 'b) interp
     \<Rightarrow> ('o rvalue list \<times> ('o, 'b) interp) option" where
  "eval_list r [] sc st = Some ([], st)"
| "eval_list r (e # es) sc st =
     do { (v, st) \<leftarrow> r (WExpr e) sc st; (vs, st) \<leftarrow> eval_list r es sc st; Some (v # vs, st) }"

primrec eval_elements ::
  "('o, 'b) walk \<Rightarrow> expr list \<Rightarrow> scope \<Rightarrow> ('o, 'b) interp
     \<Rightarrow> ('o rvalue list \<times> ('o, 'b) interp) option" where
  "eval_elements r [] sc st = Some ([], st)"
| "eval_elements r (e # es) sc st =
     do { (v, st) \<leftarrow> r (WExpr e) sc st;
          (v, st) \<leftarrow> snapshot v st;
          (vs, st) \<leftarrow> eval_elements r es sc st;
          Some (v # vs, st) }"

definition eval_ident :: "('o, 'b) renv \<Rightarrow> string \<Rightarrow> scope \<Rightarrow> ('o, 'b) interp \<Rightarrow> ('o, 'b) rres" where
  "eval_ident E x sc st =
     (case scope_get st sc x of
        Some v \<Rightarrow> Some (v, st)
      | None \<Rightarrow> Some (VNa, report_unresolved E x st))"

definition numeric_value :: "token_type \<Rightarrow> f64 \<Rightarrow> f64 \<Rightarrow> 'o rvalue" where
  "numeric_value op x y =
     (case op of
        TkPlus \<Rightarrow> VFloat (x + y)
      | TkMinus \<Rightarrow> VFloat (x - y)
      | TkStar \<Rightarrow> VFloat (x * y)
      | TkSlash \<Rightarrow> if feq y 0 then VNa else VFloat (x / y)
      | TkPercent \<Rightarrow> if feq y 0 then VNa else VFloat (math_mod x y)
      | TkLt \<Rightarrow> VBool (x < y)
      | TkGt \<Rightarrow> VBool (y < x)
      | TkLtEq \<Rightarrow> VBool (x \<le> y)
      | TkGtEq \<Rightarrow> VBool (y \<le> x)
      | _ \<Rightarrow> VNa)"

definition binary_value ::
  "('o, 'b) renv \<Rightarrow> token_type \<Rightarrow> 'o rvalue \<Rightarrow> 'o rvalue \<Rightarrow> ('o, 'b) interp \<Rightarrow> ('o, 'b) rres" where
  "binary_value E op x y st =
     (if op = TkPlus \<and> (is_string x \<or> is_string y)
      then Some (VString (string_of st x @ string_of st y), st)
      else if op = TkPlus \<and> is_array x \<and> is_array y
      then Some (new_array (elements st x @ elements st y) st)
      else if op = TkEqEq then do { b \<leftarrow> val_equal (re_same E) x y st; Some (VBool b, st) }
      else if op = TkBangEq then do { b \<leftarrow> val_equal (re_same E) x y st; Some (VBool (\<not> b), st) }
      else Some (numeric_value op (float_of st x) (float_of st y), st))"

definition eval_binary ::
  "('o, 'b) renv \<Rightarrow> ('o, 'b) walk \<Rightarrow> expr \<Rightarrow> token_type \<Rightarrow> expr \<Rightarrow> scope \<Rightarrow> ('o, 'b) interp
     \<Rightarrow> ('o, 'b) rres" where
  "eval_binary E r left op right sc st =
     do { (x, st) \<leftarrow> r (WExpr left) sc st;
          if op = TkAnd
          then if \<not> bool_of st x then Some (VBool False, st)
               else do { (y, st) \<leftarrow> r (WExpr right) sc st; Some (VBool (bool_of st y), st) }
          else if op = TkOr
          then if bool_of st x then Some (VBool True, st)
               else do { (y, st) \<leftarrow> r (WExpr right) sc st; Some (VBool (bool_of st y), st) }
          else do { (y, st) \<leftarrow> r (WExpr right) sc st; binary_value E op x y st } }"

definition eval_unary ::
  "('o, 'b) walk \<Rightarrow> token_type \<Rightarrow> expr \<Rightarrow> scope \<Rightarrow> ('o, 'b) interp \<Rightarrow> ('o, 'b) rres" where
  "eval_unary r op e sc st =
     do { (v, st) \<leftarrow> r (WExpr e) sc st;
          Some (case op of
                  TkMinus \<Rightarrow> VFloat (- float_of st v)
                | TkNot \<Rightarrow> VBool (\<not> bool_of st v)
                | _ \<Rightarrow> VNa, st) }"

fun arg_name :: "call_arg \<Rightarrow> string" where
  "arg_name (CallArg n e) = n"

fun arg_value :: "call_arg \<Rightarrow> expr" where
  "arg_value (CallArg n e) = e"

definition has_named_args :: "call_arg list \<Rightarrow> bool" where
  "has_named_args args = list_ex (\<lambda>a. arg_name a \<noteq> []) args"

text \<open>The map \<open>paramIdx\<close>: a name that occurs twice keeps its out position.\<close>

definition param_index :: "string list \<Rightarrow> string \<Rightarrow> nat option" where
  "param_index ps x = map_of (rev (zip ps [0..<length ps])) x"

primrec place_args ::
  "string list \<Rightarrow> (string \<times> 'o rvalue) list \<Rightarrow> nat \<Rightarrow> 'o rvalue list \<Rightarrow> 'o rvalue list" where
  "place_args ps [] pos slots = slots"
| "place_args ps (a # as) pos slots =
     (if fst a \<noteq> []
      then place_args ps as pos
             (case param_index ps (fst a) of Some i \<Rightarrow> slots[i := snd a] | None \<Rightarrow> slots)
      else place_args ps as (Suc pos)
             (if pos < length slots then slots[pos := snd a] else slots))"

definition map_args :: "string list \<Rightarrow> call_arg list \<Rightarrow> 'o rvalue list \<Rightarrow> 'o rvalue list" where
  "map_args ps cargs vs =
     (if ps \<noteq> [] \<and> has_named_args cargs
      then place_args ps (zip (map arg_name cargs) vs) 0 (replicate (length ps) VNa)
      else vs)"

primrec bind_params ::
  "string list \<Rightarrow> 'o rvalue list \<Rightarrow> nat \<Rightarrow> scope \<Rightarrow> ('o, 'b) interp \<Rightarrow> ('o, 'b) interp" where
  "bind_params [] vs i sc st = st"
| "bind_params (p # ps) vs i sc st =
     bind_params ps vs (Suc i) sc (scope_set sc p (if i < length vs then vs ! i else VNa) st)"

definition call_scope ::
  "rfn \<Rightarrow> 'o rvalue list \<Rightarrow> ('o, 'b) interp \<Rightarrow> scope \<times> ('o, 'b) interp" where
  "call_scope f vs st =
     (let (sc, st) = scope_child (fn_closure f) st in (sc, bind_params (fn_params f) vs 0 sc st))"

definition call_user ::
  "('o, 'b) walk \<Rightarrow> rfn \<Rightarrow> 'o rvalue list \<Rightarrow> ('o, 'b) interp \<Rightarrow> ('o, 'b) rres" where
  "call_user r f vs st =
     (let (sc, st) = call_scope f vs st
      in case fn_body f of
           BodyBlock ss \<Rightarrow>
             do { (v, st) \<leftarrow> r (WBlock ss) sc st;
                  Some (if ip_sig st = SigReturn then (ip_ret st, st\<lparr>ip_sig := SigNone\<rparr>)
                        else (v, st)) }
         | BodyExpr e \<Rightarrow> r (WExpr e) sc st
         | Native x \<Rightarrow> Some (VNa, st))"

definition call_fn ::
  "('o, 'b) renv \<Rightarrow> ('o, 'b) walk \<Rightarrow> rfn \<Rightarrow> 'o rvalue list \<Rightarrow> ('o, 'b) interp \<Rightarrow> ('o, 'b) rres" where
  "call_fn E r f vs st =
     (case fn_body f of
        Native x \<Rightarrow> Some (re_native E x vs st)
      | _ \<Rightarrow> (let (ok, st) = consume st in if ok then call_user r f vs st else Some (VNa, st)))"

definition special_form ::
  "('o, 'b) renv \<Rightarrow> ('o, 'b) walk \<Rightarrow> expr \<Rightarrow> scope \<Rightarrow> ('o, 'b) interp \<Rightarrow> ('o, 'b) rres option" where
  "special_form E r call sc st =
     (if ip_bridge st = None then None else re_special E (\<lambda>e. r (WExpr e)) call sc st)"

definition eval_call ::
  "('o, 'b) renv \<Rightarrow> ('o, 'b) walk \<Rightarrow> token \<Rightarrow> expr \<Rightarrow> call_arg list \<Rightarrow> scope \<Rightarrow> ('o, 'b) interp
     \<Rightarrow> ('o, 'b) rres" where
  "eval_call E r t callee cargs sc st =
     (case special_form E r (CallExpr t callee cargs) sc st of
        Some res \<Rightarrow> res
      | None \<Rightarrow>
          do { (c, st) \<leftarrow> r (WExpr callee) sc st;
               case c of
                 VFn a \<Rightarrow>
                   do { (vs, st) \<leftarrow> eval_list r (map arg_value cargs) sc st;
                        call_fn E r (fn_of st a) (map_args (fn_params (fn_of st a)) cargs vs) st }
               | _ \<Rightarrow> Some (VNa, st) })"

definition eval_dot ::
  "('o, 'b) renv \<Rightarrow> expr \<Rightarrow> string \<Rightarrow> scope \<Rightarrow> ('o, 'b) interp \<Rightarrow> ('o, 'b) rres" where
  "eval_dot E obj fld sc st =
     (case obj of
        IdentExpr t x \<Rightarrow>
          let dotted = x @ ''.'' @ fld
          in if ip_property_fns st dotted then Some (re_native E dotted [] st)
             else (case scope_get st sc dotted of
                     Some v \<Rightarrow> Some (v, st)
                   | None \<Rightarrow>
                       (case scope_get st sc (x @ ''_'' @ fld) of
                          Some v \<Rightarrow> Some (v, st)
                        | None \<Rightarrow>
                            Some (VNa, report_warning ''dsl.unknown_field'' dotted
                              (''field '' @ go_quote E dotted @ '' is not defined'')
                              ''Check for typos or unsupported nested field access; unresolved fields evaluate to na.''
                              st)))
      | _ \<Rightarrow>
          Some (VNa, report_warning ''dsl.unknown_field'' fld
            (''field '' @ go_quote E fld @ '' cannot be resolved on this expression'')
            ''Nested field access is not supported; unresolved fields evaluate to na.'' st))"

definition index_value ::
  "('o, 'b) renv \<Rightarrow> 'o rvalue \<Rightarrow> 'o rvalue \<Rightarrow> ('o, 'b) interp \<Rightarrow> 'o rvalue \<times> ('o, 'b) interp" where
  "index_value E left idx st =
     (let i = int_of_float (re_int E) (float_of st idx)
      in case left of
           VSeries a \<Rightarrow> (VFloat (series_at (series_of st a) i), st)
         | VArray a \<Rightarrow>
             let n = int (length (array_of st a))
             in if 0 \<le> i \<and> i < n then (array_of st a ! nat i, st)
                else (VNa, report_warning ''dsl.index_out_of_range'' (itoa i @ '':'' @ itoa n)
                       (''array index '' @ itoa i @ '' is out of range for length '' @ itoa n)
                       ''Check array bounds before indexing; out-of-range access evaluates to na.'' st)
         | _ \<Rightarrow> (VNa, st))"

definition eval_index ::
  "('o, 'b) renv \<Rightarrow> ('o, 'b) walk \<Rightarrow> expr \<Rightarrow> expr \<Rightarrow> scope \<Rightarrow> ('o, 'b) interp \<Rightarrow> ('o, 'b) rres" where
  "eval_index E r left idx sc st =
     do { (x, st) \<leftarrow> r (WExpr left) sc st;
          (i, st) \<leftarrow> r (WExpr idx) sc st;
          Some (index_value E x i st) }"

fun param_name :: "fn_param \<Rightarrow> string" where
  "param_name (FnParam n d) = n"

definition eval_expr ::
  "('o, 'b) renv \<Rightarrow> ('o, 'b) walk \<Rightarrow> expr \<Rightarrow> scope \<Rightarrow> ('o, 'b) interp \<Rightarrow> ('o, 'b) rres" where
  "eval_expr E r e sc st =
     (case e of
        NumberLit t x \<Rightarrow> Some (VFloat x, st)
      | StringLit t s \<Rightarrow> Some (VString s, st)
      | BoolLit t b \<Rightarrow> Some (VBool b, st)
      | NaLit t \<Rightarrow> Some (VNa, st)
      | IdentExpr t x \<Rightarrow> eval_ident E x sc st
      | BinaryExpr t left op right \<Rightarrow> eval_binary E r left op right sc st
      | UnaryExpr t op x \<Rightarrow> eval_unary r op x sc st
      | CallExpr t callee cargs \<Rightarrow> eval_call E r t callee cargs sc st
      | DotExpr t obj fld \<Rightarrow> eval_dot E obj fld sc st
      | IndexExpr t left idx \<Rightarrow> eval_index E r left idx sc st
      | TernaryExpr t c x y \<Rightarrow>
          do { (b, st) \<leftarrow> r (WExpr c) sc st;
               if bool_of st b then r (WExpr x) sc st else r (WExpr y) sc st }
      | ArrayLit t es \<Rightarrow> do { (vs, st) \<leftarrow> eval_elements r es sc st; Some (new_array vs st) }
      | LambdaExpr t ps body \<Rightarrow>
          Some (new_fn \<lparr>fn_name = ''<lambda>'', fn_params = map param_name ps,
                        fn_body = BodyExpr body, fn_closure = sc\<rparr> st))"

section \<open>Declarations and assignments\<close>

definition exec_var_decl ::
  "('o, 'b) walk \<Rightarrow> string \<Rightarrow> bool \<Rightarrow> bool \<Rightarrow> expr \<Rightarrow> scope \<Rightarrow> ('o, 'b) interp \<Rightarrow> ('o, 'b) rres" where
  "exec_var_decl r x varip persist e sc st =
     (if \<not> persist \<and> \<not> varip \<and> ip_persist st x \<noteq> None
      then do { (v, st) \<leftarrow> r (WExpr e) sc st;
                Some (promote x v sc (st\<lparr>ip_persist := (ip_persist st)(x := Some v)\<rparr>)) }
      else if \<not> persist \<and> \<not> varip \<and> ip_varip st x \<noteq> None
      then do { (v, st) \<leftarrow> r (WExpr e) sc st;
                Some (promote x v sc (st\<lparr>ip_varip := (ip_varip st)(x := Some v)\<rparr>)) }
      else if persist
      then (case ip_persist st x of
              Some v \<Rightarrow> Some (promote x v sc st)
            | None \<Rightarrow>
                do { (v, st) \<leftarrow> r (WExpr e) sc st;
                     Some (promote x v sc (st\<lparr>ip_persist := (ip_persist st)(x := Some v)\<rparr>)) })
      else if varip
      then (case ip_varip st x of
              Some v \<Rightarrow> Some (promote x v sc st)
            | None \<Rightarrow>
                do { (v, st) \<leftarrow> r (WExpr e) sc st;
                     Some (promote x v sc (st\<lparr>ip_varip := (ip_varip st)(x := Some v)\<rparr>)) })
      else do { (v, st) \<leftarrow> r (WExpr e) sc st; Some (promote x v sc st) })"

definition compound_numeric ::
  "string \<Rightarrow> string \<Rightarrow> 'o rvalue \<Rightarrow> 'o rvalue \<Rightarrow> ('o, 'b) interp \<Rightarrow> 'o rvalue \<times> ('o, 'b) interp" where
  "compound_numeric x op old rhs st =
     (if is_numeric_like old \<and> is_numeric_like rhs then (rhs, st)
      else (VNa, report_compound x op st))"

text \<open>The value the switch on the operator computes; \<open>old\<close> is the current value of the target.\<close>

definition compound_value ::
  "token_type \<Rightarrow> string \<Rightarrow> 'o rvalue \<Rightarrow> 'o rvalue \<Rightarrow> ('o, 'b) interp \<Rightarrow> 'o rvalue \<times> ('o, 'b) interp" where
  "compound_value op x old v st =
     (case op of
        TkPlusEq \<Rightarrow>
          if is_string old \<or> is_string v then (VString (string_of st old @ string_of st v), st)
          else let (rhs, st) = compound_numeric x ''+='' old v st
               in (if is_na_value rhs then VNa else VFloat (float_of st old + float_of st rhs), st)
      | TkMinusEq \<Rightarrow>
          let (rhs, st) = compound_numeric x ''-='' old v st
          in (if is_na_value rhs then VNa else VFloat (float_of st old - float_of st rhs), st)
      | TkStarEq \<Rightarrow>
          let (rhs, st) = compound_numeric x ''*='' old v st
          in (if is_na_value rhs then VNa else VFloat (float_of st old * float_of st rhs), st)
      | TkSlashEq \<Rightarrow>
          let (rhs, st) = compound_numeric x ''/='' old v st
          in (if is_na_value rhs \<or> feq (float_of st rhs) 0 then VNa
              else VFloat (float_of st old / float_of st rhs), st)
      | TkPercentEq \<Rightarrow>
          let (rhs, st) = compound_numeric x ''%='' old v st
          in (if is_na_value rhs \<or> feq (float_of st rhs) 0 then VNa
              else VFloat (math_mod (float_of st old) (float_of st rhs)), st)
      | TkPlusPlus \<Rightarrow>
          if is_numeric_like old then (VFloat (float_of st old + 1), st)
          else (VNa, report_compound x ''++'' st)
      | TkMinusMinus \<Rightarrow>
          if is_numeric_like old then (VFloat (float_of st old - 1), st)
          else (VNa, report_compound x ''--'' st)
      | _ \<Rightarrow> (v, st))"

definition is_compound :: "token_type \<Rightarrow> bool" where
  "is_compound op =
     (op \<in> {TkPlusEq, TkMinusEq, TkStarEq, TkSlashEq, TkPercentEq, TkPlusPlus, TkMinusMinus})"

definition assign_target ::
  "token_type \<Rightarrow> string \<Rightarrow> 'o rvalue \<Rightarrow> scope \<Rightarrow> ('o, 'b) interp \<Rightarrow> 'o rvalue \<times> ('o, 'b) interp" where
  "assign_target op x v sc st =
     (if op = TkEq \<or> op = TkColonEq then (v, scope_assign sc x v st)
      else if is_compound op
      then let old = (case scope_get st sc x of Some w \<Rightarrow> w | None \<Rightarrow> VNa);
               (v, st) = compound_value op x old v st
           in (v, snd (scope_update sc x v st))
      else (v, st))"

text \<open>What follows the switch: the storage of \<open>var\<close> and \<open>varip\<close> names and the series of the name.\<close>

definition assign_storage ::
  "string \<Rightarrow> 'o rvalue \<Rightarrow> scope \<Rightarrow> ('o, 'b) interp \<Rightarrow> ('o, 'b) interp" where
  "assign_storage x v sc st =
     (let st = (if ip_persist st x = None then st
                else st\<lparr>ip_persist := (ip_persist st)(x := Some v)\<rparr>);
          st = (if ip_varip st x = None then st
                else st\<lparr>ip_varip := (ip_varip st)(x := Some v)\<rparr>)
      in if is_numeric_like v
         then (case ip_series_map st x of
                 Some a \<Rightarrow> scope_assign sc x (VSeries a) (update_series a (series_set (float_of st v)) st)
               | None \<Rightarrow> st)
         else st)"

definition exec_assign ::
  "('o, 'b) walk \<Rightarrow> string \<Rightarrow> token_type \<Rightarrow> expr \<Rightarrow> scope \<Rightarrow> ('o, 'b) interp \<Rightarrow> ('o, 'b) rres" where
  "exec_assign r x op e sc st =
     do { (v, st) \<leftarrow> r (WExpr e) sc st;
          let (v, st) = assign_target op x v sc st
          in Some (v, assign_storage x v sc st) }"

text \<open>
  The left-hand side is a slice whose length \<open>n\<close> was fixed when it was evaluated.
\<close>

definition store_element ::
  "'o rvalue \<Rightarrow> nat \<Rightarrow> int \<Rightarrow> 'o rvalue \<Rightarrow> ('o, 'b) interp \<Rightarrow> ('o, 'b) interp" where
  "store_element left n i v st =
     (case left of
        VArray a \<Rightarrow>
          if 0 \<le> i \<and> i < int n
          then st\<lparr>ip_arrays := (ip_arrays st)[a := (array_of st a)[nat i := v]]\<rparr>
          else st
      | _ \<Rightarrow> st)"

definition exec_index_assign ::
  "('o, 'b) renv \<Rightarrow> ('o, 'b) walk \<Rightarrow> expr \<Rightarrow> expr \<Rightarrow> expr \<Rightarrow> scope \<Rightarrow> ('o, 'b) interp
     \<Rightarrow> ('o, 'b) rres" where
  "exec_index_assign E r left idx e sc st =
     do { (x, st) \<leftarrow> r (WExpr left) sc st;
          let n = length (elements st x)
          in do { (i, st) \<leftarrow> r (WExpr idx) sc st;
                  let i = int_of_float (re_int E) (float_of st i)
                  in do { (v, st) \<leftarrow> r (WExpr e) sc st;
                          (v, st) \<leftarrow> snapshot v st;
                          Some (v, store_element x n i v st) } } }"

definition exec_tuple_assign ::
  "('o, 'b) walk \<Rightarrow> string list \<Rightarrow> expr \<Rightarrow> scope \<Rightarrow> ('o, 'b) interp \<Rightarrow> ('o, 'b) rres" where
  "exec_tuple_assign r xs e sc st =
     do { (v, st) \<leftarrow> r (WExpr e) sc st; Some (v, bind_params xs (elements st v) 0 sc st) }"

definition exec_fn_decl ::
  "string \<Rightarrow> fn_param list \<Rightarrow> stmt list \<Rightarrow> scope \<Rightarrow> ('o, 'b) interp \<Rightarrow> 'o rvalue \<times> ('o, 'b) interp" where
  "exec_fn_decl x ps body sc st =
     (let (f, st) = new_fn \<lparr>fn_name = x, fn_params = map param_name ps, fn_body = BodyBlock body,
                            fn_closure = sc\<rparr> st
      in (VNa, scope_set sc x f st))"

section \<open>Control flow\<close>

primrec exec_else_ifs ::
  "('o, 'b) walk \<Rightarrow> else_if list \<Rightarrow> block option \<Rightarrow> scope \<Rightarrow> ('o, 'b) interp \<Rightarrow> ('o, 'b) rres" where
  "exec_else_ifs r [] els sc st =
     (case els of None \<Rightarrow> Some (VNa, st) | Some b \<Rightarrow> r (WBlock (block_stmts b)) sc st)"
| "exec_else_ifs r (ei # eis) els sc st =
     (case ei of ElseIf t c b \<Rightarrow>
        do { (v, st) \<leftarrow> r (WExpr c) sc st;
             if bool_of st v then r (WBlock (block_stmts b)) sc st
             else exec_else_ifs r eis els sc st })"

definition exec_if ::
  "('o, 'b) walk \<Rightarrow> expr \<Rightarrow> block \<Rightarrow> else_if list \<Rightarrow> block option \<Rightarrow> scope \<Rightarrow> ('o, 'b) interp
     \<Rightarrow> ('o, 'b) rres" where
  "exec_if r c b eis els sc st =
     do { (v, st) \<leftarrow> r (WExpr c) sc st;
          if bool_of st v then r (WBlock (block_stmts b)) sc st
          else exec_else_ifs r eis els sc st }"

definition for_loop ::
  "('o, 'b) walk \<Rightarrow> string \<Rightarrow> f64 \<Rightarrow> f64 \<Rightarrow> f64 \<Rightarrow> stmt list \<Rightarrow> 'o rvalue \<Rightarrow> scope
     \<Rightarrow> ('o, 'b) interp \<Rightarrow> ('o, 'b) rres" where
  "for_loop r x i stop step body out sc st =
     (if 0 < step \<and> i \<le> stop \<or> step < 0 \<and> stop \<le> i
      then let (ok, st) = consume st
           in if \<not> ok then Some (out, st)
              else do { (v, st) \<leftarrow> r (WBlock body) sc (scope_assign sc x (VFloat i) st);
                        if ip_sig st = SigBreak then Some (v, st\<lparr>ip_sig := SigNone\<rparr>)
                        else if ip_sig st = SigReturn then Some (v, st)
                        else r (WFor x (i + step) stop step body v) sc
                               (if ip_sig st = SigContinue then st\<lparr>ip_sig := SigNone\<rparr> else st) }
      else Some (out, st))"

definition exec_for ::
  "('o, 'b) walk \<Rightarrow> string \<Rightarrow> expr \<Rightarrow> expr \<Rightarrow> expr option \<Rightarrow> stmt list \<Rightarrow> scope \<Rightarrow> ('o, 'b) interp
     \<Rightarrow> ('o, 'b) rres" where
  "exec_for r x start stop step body sc st =
     do { (a, st) \<leftarrow> r (WExpr start) sc st;
          let a = float_of st a
          in do { (b, st) \<leftarrow> r (WExpr stop) sc st;
                  let b = float_of st b
                  in do { (d, st) \<leftarrow> (case step of None \<Rightarrow> Some (VFloat 1, st) | Some e \<Rightarrow> r (WExpr e) sc st);
                          let d = float_of st d
                          in if feq d 0 then Some (VNa, st)
                             else r (WFor x a b d body VNa) sc st } } }"

text \<open>\<open>range\<close> fixes the length of the slice and reads each element when its turn comes.\<close>

primrec for_in_loop ::
  "('o, 'b) walk \<Rightarrow> string \<Rightarrow> 'o rvalue \<Rightarrow> nat list \<Rightarrow> stmt list \<Rightarrow> 'o rvalue \<Rightarrow> scope
     \<Rightarrow> ('o, 'b) interp \<Rightarrow> ('o, 'b) rres" where
  "for_in_loop r x coll [] body out sc st = Some (out, st)"
| "for_in_loop r x coll (i # is) body out sc st =
     (let (ok, st) = consume st
      in if \<not> ok then Some (out, st)
         else let elem = (if i < length (elements st coll) then elements st coll ! i else VNa)
              in do { (v, st) \<leftarrow> r (WBlock body) sc (scope_assign sc x elem st);
                      if ip_sig st = SigBreak then Some (v, st\<lparr>ip_sig := SigNone\<rparr>)
                      else if ip_sig st = SigReturn then Some (v, st)
                      else for_in_loop r x coll is body v sc
                             (if ip_sig st = SigContinue then st\<lparr>ip_sig := SigNone\<rparr> else st) })"

definition exec_for_in ::
  "('o, 'b) walk \<Rightarrow> string \<Rightarrow> expr \<Rightarrow> stmt list \<Rightarrow> scope \<Rightarrow> ('o, 'b) interp \<Rightarrow> ('o, 'b) rres" where
  "exec_for_in r x coll body sc st =
     do { (v, st) \<leftarrow> r (WExpr coll) sc st;
          for_in_loop r x v [0..<length (elements st v)] body VNa sc st }"

definition while_limit :: int where
  "while_limit = 100000"

definition while_loop ::
  "('o, 'b) walk \<Rightarrow> expr \<Rightarrow> stmt list \<Rightarrow> int \<Rightarrow> 'o rvalue \<Rightarrow> scope \<Rightarrow> ('o, 'b) interp
     \<Rightarrow> ('o, 'b) rres" where
  "while_loop r c body i out sc st =
     (if while_limit \<le> i
      then Some (out, add_diagnostic
             (bar_diagnostic SevWarning ''dsl.while_iteration_cap''
                ''while loop reached the interpreter iteration cap'' []
                ''Check loop conditions and prefer bounded for loops when possible.'' st) st)
      else let (ok, st) = consume st
           in if \<not> ok then Some (out, st)
              else do { (b, st) \<leftarrow> r (WExpr c) sc st;
                        if \<not> bool_of st b then Some (out, st)
                        else do { (v, st) \<leftarrow> r (WBlock body) sc st;
                                  if ip_sig st = SigBreak then Some (v, st\<lparr>ip_sig := SigNone\<rparr>)
                                  else if ip_sig st = SigReturn then Some (v, st)
                                  else r (WWhile c body (i + 1) v) sc
                                         (if ip_sig st = SigContinue then st\<lparr>ip_sig := SigNone\<rparr>
                                          else st) } })"

text \<open>The body of a case runs in a new scope.\<close>

definition exec_in_child ::
  "('o, 'b) walk \<Rightarrow> block \<Rightarrow> scope \<Rightarrow> ('o, 'b) interp \<Rightarrow> ('o, 'b) rres" where
  "exec_in_child r b sc st =
     (let (sc, st) = scope_child sc st in r (WBlock (block_stmts b)) sc st)"

primrec exec_cases ::
  "('o, 'b) renv \<Rightarrow> ('o, 'b) walk \<Rightarrow> 'o rvalue option \<Rightarrow> switch_case list \<Rightarrow> block option \<Rightarrow> scope
     \<Rightarrow> ('o, 'b) interp \<Rightarrow> ('o, 'b) rres" where
  "exec_cases E r tag [] dflt sc st =
     (case dflt of None \<Rightarrow> Some (VNa, st) | Some b \<Rightarrow> exec_in_child r b sc st)"
| "exec_cases E r tag (c # cs) dflt sc st =
     (case c of SwitchCase e b \<Rightarrow>
        do { (v, st) \<leftarrow> r (WExpr e) sc st;
             hit \<leftarrow> (case tag of Some t \<Rightarrow> val_equal (re_same E) t v st | None \<Rightarrow> Some (bool_of st v));
             if hit then exec_in_child r b sc st else exec_cases E r tag cs dflt sc st })"

definition exec_switch ::
  "('o, 'b) renv \<Rightarrow> ('o, 'b) walk \<Rightarrow> expr option \<Rightarrow> switch_case list \<Rightarrow> block option \<Rightarrow> scope
     \<Rightarrow> ('o, 'b) interp \<Rightarrow> ('o, 'b) rres" where
  "exec_switch E r tag cs dflt sc st =
     (case tag of
        None \<Rightarrow> exec_cases E r None cs dflt sc st
      | Some e \<Rightarrow> do { (v, st) \<leftarrow> r (WExpr e) sc st; exec_cases E r (Some v) cs dflt sc st })"

definition exec_return ::
  "('o, 'b) walk \<Rightarrow> expr option \<Rightarrow> scope \<Rightarrow> ('o, 'b) interp \<Rightarrow> ('o, 'b) rres" where
  "exec_return r e sc st =
     do { (v, st) \<leftarrow> (case e of None \<Rightarrow> Some (VNa, st) | Some e \<Rightarrow> r (WExpr e) sc st);
          Some (v, st\<lparr>ip_ret := v, ip_sig := SigReturn\<rparr>) }"

section \<open>Statements and blocks\<close>

definition exec_stmt ::
  "('o, 'b) renv \<Rightarrow> ('o, 'b) walk \<Rightarrow> stmt \<Rightarrow> scope \<Rightarrow> ('o, 'b) interp \<Rightarrow> ('o, 'b) rres" where
  "exec_stmt E r s sc st =
     (case s of
        StrategyDecl t k as \<Rightarrow> Some (VNa, st)
      | VarDecl t x hint varip persist e \<Rightarrow> exec_var_decl r x varip persist e sc st
      | AssignStmt t x op e \<Rightarrow> exec_assign r x op e sc st
      | IndexAssignStmt t left idx e \<Rightarrow> exec_index_assign E r left idx e sc st
      | TupleAssign t xs e \<Rightarrow> exec_tuple_assign r xs e sc st
      | ExprStmt e \<Rightarrow> r (WExpr e) sc st
      | IfStmt t c b eis els \<Rightarrow> exec_if r c b eis els sc st
      | ForStmt t x a b d body \<Rightarrow> exec_for r x a b d (block_stmts body) sc st
      | ForInStmt t x coll body \<Rightarrow> exec_for_in r x coll (block_stmts body) sc st
      | WhileStmt t c body \<Rightarrow> r (WWhile c (block_stmts body) 0 VNa) sc st
      | SwitchStmt t tag cs dflt \<Rightarrow> exec_switch E r tag cs dflt sc st
      | FnDecl t x ps body \<Rightarrow> Some (exec_fn_decl x ps (block_stmts body) sc st)
      | ReturnStmt t e \<Rightarrow> exec_return r e sc st
      | BreakStmt t \<Rightarrow> Some (VNa, st\<lparr>ip_sig := SigBreak\<rparr>)
      | ContinueStmt t \<Rightarrow> Some (VNa, st\<lparr>ip_sig := SigContinue\<rparr>)
      | _ \<Rightarrow> Some (VNa, st))"

primrec exec_block ::
  "('o, 'b) renv \<Rightarrow> ('o, 'b) walk \<Rightarrow> stmt list \<Rightarrow> 'o rvalue \<Rightarrow> scope \<Rightarrow> ('o, 'b) interp
     \<Rightarrow> ('o, 'b) rres" where
  "exec_block E r [] out sc st = Some (out, st)"
| "exec_block E r (s # ss) out sc st =
     (let (ok, st) = consume st
      in if \<not> ok then Some (out, st)
         else do { (v, st) \<leftarrow> exec_stmt E r s sc st;
                   if ip_sig st \<noteq> SigNone then Some (v, st) else exec_block E r ss v sc st })"

section \<open>The knot\<close>

definition walk_step :: "('o, 'b) renv \<Rightarrow> ('o, 'b) walk \<Rightarrow> ('o, 'b) walk" where
  "walk_step E r w sc st =
     (case w of
        WExpr e \<Rightarrow> eval_expr E r e sc st
      | WBlock ss \<Rightarrow> exec_block E r ss VNa sc st
      | WFor x i stop step body out \<Rightarrow> for_loop r x i stop step body out sc st
      | WWhile c body i out \<Rightarrow> while_loop r c body i out sc st)"

primrec run :: "('o, 'b) renv \<Rightarrow> nat \<Rightarrow> ('o, 'b) walk" where
  "run E 0 w sc st = None"
| "run E (Suc n) w sc st = walk_step E (run E n) w sc st"

section \<open>Entry points\<close>

text \<open>\<open>EvalExpression\<close> and \<open>EvalReadOnlyExpression\<close>.\<close>

definition eval_expression ::
  "('o, 'b) renv \<Rightarrow> nat \<Rightarrow> expr \<Rightarrow> scope \<Rightarrow> ('o, 'b) interp \<Rightarrow> ('o, 'b) rres" where
  "eval_expression E n e sc st = run E n (WExpr e) sc st"

definition eval_read_only ::
  "('o, 'b) renv \<Rightarrow> nat \<Rightarrow> expr \<Rightarrow> scope \<Rightarrow> ('o, 'b) interp \<Rightarrow> ('o, 'b) rres" where
  "eval_read_only E n e sc st =
     do { (v, st) \<leftarrow> run E n (WExpr e) sc (st\<lparr>ip_read_only := ip_read_only st + 1\<rparr>);
          Some (v, st\<lparr>ip_read_only := ip_read_only st - 1\<rparr>) }"

definition blank_interp :: "stmt list \<Rightarrow> ('o, 'b) interp" where
  "blank_interp prog =
     \<lparr>ip_program = prog, ip_bar_index = 0, ip_persist = (\<lambda>_. None), ip_varip = (\<lambda>_. None),
      ip_series_map = (\<lambda>_. None), ip_builtins = (\<lambda>_. None), ip_property_fns = (\<lambda>_. False),
      ip_plots = [], ip_queued = [], ip_trace_keys = [], ip_unresolved = [], ip_failures = [],
      ip_warnings = [], ip_budget = 0, ip_left = 0, ip_halted = False,
      ip_inputs = (\<lambda>_. None), ip_input_strings = (\<lambda>_. None), ip_bridge = None,
      ip_diagnostics = None, ip_read_only = 0, ip_sig = SigNone, ip_ret = VNa,
      ip_frames = [\<lambda>_. None], ip_series = [], ip_arrays = [], ip_fns = []\<rparr>"

definition register_builtin ::
  "string \<Rightarrow> string list \<Rightarrow> ('o, 'b) interp \<Rightarrow> ('o, 'b) interp" where
  "register_builtin x params st =
     (let (f, st) = new_fn \<lparr>fn_name = x, fn_params = params, fn_body = Native x, fn_closure = []\<rparr> st
      in st\<lparr>ip_builtins := (ip_builtins st)(x := Some f)\<rparr>)"

definition register_namespace :: "string \<Rightarrow> 'o rvalue \<Rightarrow> ('o, 'b) interp \<Rightarrow> ('o, 'b) interp" where
  "register_namespace x v st = st\<lparr>ip_builtins := (ip_builtins st)(x := Some v)\<rparr>"

definition register_property :: "string \<Rightarrow> ('o, 'b) interp \<Rightarrow> ('o, 'b) interp" where
  "register_property x st = st\<lparr>ip_property_fns := (ip_property_fns st)(x := True)\<rparr>"

definition math_pi :: f64 where "math_pi = FFin (884279719003555 / 281474976710656)"
definition math_e :: f64 where "math_e = FFin (6121026514868073 / 2251799813685248)"
definition math_phi :: f64 where "math_phi = FFin (910872158600853 / 562949953421312)"

definition interp_init :: "('o, 'b) interp \<Rightarrow> ('o, 'b) interp" where
  "interp_init st =
     (let st = st\<lparr>ip_frames := (ip_frames st)[0 := frame_of st 0 ++ ip_builtins st]\<rparr>
      in scope_set global_scope ''math_phi'' (VFloat math_phi)
           (scope_set global_scope ''math_e'' (VFloat math_e)
             (scope_set global_scope ''math_pi'' (VFloat math_pi) st)))"

text \<open>\<open>OnBar\<close> up to the execution of the program.\<close>

definition bridge_fields :: "('o, 'b) renv \<Rightarrow> 'b \<Rightarrow> ('o, 'b) interp \<Rightarrow> ('o, 'b) interp" where
  "bridge_fields E b st =
     (let c = re_close E b; op = re_open E b; h = re_high E b; l = re_low E b;
          st = set_bar_field ''close'' c st;
          st = set_bar_field ''open'' op st;
          st = set_bar_field ''high'' h st;
          st = set_bar_field ''low'' l st;
          st = set_bar_field ''hl2'' ((h + l) / FFin 2) st;
          st = set_bar_field ''hlc3'' ((h + l + c) / FFin 3) st;
          st = set_bar_field ''ohlc4'' ((op + h + l + c) / FFin 4) st;
          st = set_bar_field ''volume'' (re_volume E b) st
      in scope_set global_scope ''bar_index'' (VFloat (f64_of_int (re_bar_index E b))) st)"

definition queued_fields :: "('o, 'b) renv \<Rightarrow> ('o, 'b) interp \<Rightarrow> ('o, 'b) interp" where
  "queued_fields E st =
     (fold (\<lambda>f. set_bar_field (fst f) (snd f)) (re_order E (ip_queued st)) st)\<lparr>ip_queued := []\<rparr>"

definition reset_plot :: "'o plot_spec \<Rightarrow> ('o, 'b) interp \<Rightarrow> ('o, 'b) interp" where
  "reset_plot p st = update_series (pl_series p) (series_append FNaN) st"

definition reset_plots :: "('o, 'b) interp \<Rightarrow> ('o, 'b) interp" where
  "reset_plots st =
     (fold reset_plot (ip_plots st) st)\<lparr>ip_plots := map (pl_last_update (\<lambda>_. VNa)) (ip_plots st)\<rparr>"

definition open_bar :: "('o, 'b) renv \<Rightarrow> ('o, 'b) interp \<Rightarrow> ('o, 'b) interp" where
  "open_bar E st =
     (let st = st\<lparr>ip_bar_index := ip_bar_index st + 1, ip_left := execution_budget st,
                  ip_halted := False\<rparr>;
          st = (case ip_bridge st of None \<Rightarrow> st | Some b \<Rightarrow> bridge_fields E b st)
      in reset_plots (queued_fields E st))"

definition on_bar ::
  "('o, 'b) renv \<Rightarrow> nat \<Rightarrow> ('o, 'b) interp \<Rightarrow> ('o, 'b) interp option" where
  "on_bar E n st =
     (let st = open_bar E st
      in map_option snd (run E n (WBlock (ip_program st)) global_scope st))"

end
