(* ===== verification/Bt_Position.thy ===== *)
theory Bt_Position
  imports Go_Float64
begin

text \<open>
  Orders, trades and positions of the backtest engine (\<open>internal/backtest/order.go\<close>,
  \<open>position.go\<close>, and \<open>SecurityRef\<close> of \<open>context.go\<close>). Prices and quantities are IEEE doubles.
  A \<open>time.Time\<close> is its instant as an integer. The integer types \<open>Side\<close> and \<open>OrderType\<close> can hold
  other values than their constants, in particular the zero value of an order whose side was
  never set; they are the constructors \<open>OtherSide\<close> and \<open>OtherType\<close>.
\<close>

section \<open>Orders and trades\<close>

record secref =
  sr_market :: string
  sr_symbol :: string
  sr_interval :: string
  sr_index :: int

datatype side = Buy | Sell | OtherSide int

datatype order_type =
  MarketOrder | TWAPMarketOrder | LimitOrder | StopOrder | StopLimitOrder | OtherType int

definition side_string :: "side \<Rightarrow> string" where
  "side_string s = (if s = Buy then ''buy'' else ''sell'')"

fun order_type_string :: "order_type \<Rightarrow> string" where
  "order_type_string MarketOrder = ''market''"
| "order_type_string TWAPMarketOrder = ''twap_market''"
| "order_type_string LimitOrder = ''limit''"
| "order_type_string StopOrder = ''stop''"
| "order_type_string StopLimitOrder = ''stop_limit''"
| "order_type_string (OtherType _) = ''unknown''"

record order =
  o_id :: int
  o_entry :: string
  o_reduce :: bool
  o_sec :: secref
  o_side :: side
  o_type :: order_type
  o_note :: string
  o_qty :: f64
  o_notional :: f64
  o_price :: f64
  o_stop :: f64
  o_twap :: int
  o_bar :: int
  o_time :: int

record trade =
  t_id :: int
  t_order :: int
  t_entry :: string
  t_reduce :: bool
  t_sec :: secref
  t_side :: side
  t_note :: string
  t_qty :: f64
  t_price :: f64
  t_commission :: f64
  t_slippage :: f64
  t_bar :: int
  t_time :: int

definition net_amount :: "trade \<Rightarrow> f64" where
  "net_amount t =
     (let amount = t_qty t * t_price t
      in if t_side t = Buy then - (amount + t_commission t) else amount - t_commission t)"

section \<open>A position\<close>

record position =
  p_sec :: secref
  p_qty :: f64
  p_avg :: f64
  p_realized :: f64
  p_cost :: f64

definition flat :: "secref \<Rightarrow> position" where
  "flat r = \<lparr>p_sec = r, p_qty = 0, p_avg = 0, p_realized = 0, p_cost = 0\<rparr>"

definition go_abs :: "f64 \<Rightarrow> f64" where
  "go_abs x = (if x < 0 then - x else x)"

definition unrealized_pnl :: "position \<Rightarrow> f64 \<Rightarrow> f64" where
  "unrealized_pnl p price = (if feq (p_qty p) 0 then 0 else p_qty p * (price - p_avg p))"

definition market_value :: "position \<Rightarrow> f64 \<Rightarrow> f64" where
  "market_value p price = (if p_qty p < 0 then - p_qty p * price else p_qty p * price)"

text \<open>The quantity of a trade with the sign of its side.\<close>

definition signed_qty :: "trade \<Rightarrow> f64" where
  "signed_qty t = (if t_side t = Sell then - t_qty t else t_qty t)"

text \<open>The three cases of \<open>updatePosition\<close>.\<close>

definition open_position :: "position \<Rightarrow> trade \<Rightarrow> f64 \<Rightarrow> position" where
  "open_position p t fill =
     p\<lparr>p_qty := fill, p_avg := t_price t, p_cost := t_price t * go_abs fill\<rparr>"

definition add_position :: "position \<Rightarrow> trade \<Rightarrow> f64 \<Rightarrow> position" where
  "add_position p t fill =
     (let cost = p_cost p + t_price t * go_abs fill; qty = p_qty p + fill
      in p\<lparr>p_cost := cost, p_qty := qty, p_avg := cost / go_abs qty\<rparr>)"

definition reduce_position :: "position \<Rightarrow> trade \<Rightarrow> f64 \<Rightarrow> position" where
  "reduce_position p t fill =
     (let close = (if go_abs (p_qty p) < go_abs fill then go_abs (p_qty p) else go_abs fill);
          p' = p\<lparr>p_realized :=
                 p_realized p + close * (if 0 < p_qty p then t_price t - p_avg p
                                         else p_avg p - t_price t)\<rparr>;
          old = go_abs (p_qty p) - close;
          new = go_abs fill - close
      in if 0 < old
         then p'\<lparr>p_qty := (if 0 < p_qty p then old else - old), p_cost := p_avg p * old\<rparr>
         else if 0 < new
         then p'\<lparr>p_qty := (if 0 < fill then new else - new), p_avg := t_price t,
                 p_cost := t_price t * new\<rparr>
         else p'\<lparr>p_qty := 0, p_avg := 0, p_cost := 0\<rparr>)"

definition update_position :: "position \<Rightarrow> trade \<Rightarrow> position" where
  "update_position p t =
     (let fill = signed_qty t
      in if feq (p_qty p) 0 then open_position p t fill
         else if (0 < p_qty p \<and> 0 < fill) \<or> (p_qty p < 0 \<and> fill < 0) then add_position p t fill
         else reduce_position p t fill)"

section \<open>The position tracker\<close>

type_synonym tracker = "secref \<Rightarrow> position option"

definition new_tracker :: tracker where
  "new_tracker = (\<lambda>_. None)"

definition tracker_update :: "tracker \<Rightarrow> trade \<Rightarrow> tracker" where
  "tracker_update pt t =
     (let pos = (case pt (t_sec t) of None \<Rightarrow> flat (t_sec t) | Some p \<Rightarrow> p)
      in pt(t_sec t := Some (update_position pos t)))"

definition tracker_get :: "tracker \<Rightarrow> secref \<Rightarrow> position" where
  "tracker_get pt r = (case pt r of Some p \<Rightarrow> p | None \<Rightarrow> flat r)"

text \<open>
  A Go map is ranged over in an unspecified order. The order is the argument \<open>refs\<close>, a list of
  the keys.
\<close>

definition tracker_all :: "secref list \<Rightarrow> tracker \<Rightarrow> position list" where
  "tracker_all refs pt =
     filter (\<lambda>p. \<not> feq (p_qty p) 0) (List.map_filter pt refs)"

definition total_unrealized_pnl :: "secref list \<Rightarrow> tracker \<Rightarrow> (secref \<Rightarrow> f64) \<Rightarrow> f64" where
  "total_unrealized_pnl refs pt price =
     foldl (\<lambda>total r. case pt r of
         Some p \<Rightarrow> if \<not> feq (p_qty p) 0 then total + unrealized_pnl p (price r) else total
       | None \<Rightarrow> total) 0 refs"

definition total_realized_pnl :: "secref list \<Rightarrow> tracker \<Rightarrow> f64" where
  "total_realized_pnl refs pt =
     foldl (\<lambda>total p. total + p_realized p) 0 (List.map_filter pt refs)"

definition is_enumeration :: "secref list \<Rightarrow> tracker \<Rightarrow> bool" where
  "is_enumeration refs pt = (distinct refs \<and> set refs = dom pt)"

end
