(* ===== verification/Bt_Broker.thy ===== *)
theory Bt_Broker
  imports Bt_Position Go_Strings
begin

text \<open>
  The simulated broker (\<open>internal/backtest/broker.go\<close>). The record below is the struct \<open>Broker\<close>;
  a method is a function on it that returns the next broker where the method changes it. The
  argument \<open>fe\<close> is the case folding of \<open>strings.EqualFold\<close> beyond ASCII, and \<open>refs\<close> the order in
  which the map of positions is ranged over. Order and trade numbers are unbounded integers (an
  \<open>int\<close> of Go wraps after \<open>2 ^ 63\<close> orders). Products and sums are rounded one by one, as the Go
  compiler does on amd64.
\<close>

section \<open>Configuration and prices\<close>

datatype execution_mode = ExecutionPriceCanonical | ExecutionPriceBidAsk
datatype valuation_mode = ValuationPriceClose | ValuationPriceMid | ValuationPriceExit
datatype trigger_mode = TriggerPriceCanonical | TriggerPriceBidAskEnvelope
datatype commission_model = CommissionNone | CommissionFlat | CommissionPercent | CommissionPerUnit

record config =
  c_capital :: f64
  c_unit :: string
  c_commission :: commission_model
  c_commission_value :: f64
  c_slippage :: f64
  c_execution :: execution_mode
  c_valuation :: valuation_mode
  c_trigger :: trigger_mode

record bar_prices =
  b_open :: f64
  b_high :: f64
  b_low :: f64
  b_close :: f64
  b_bid_open :: f64
  b_bid_close :: f64
  b_ask_open :: f64
  b_ask_close :: f64

definition is_valid_price :: "f64 \<Rightarrow> bool" where
  "is_valid_price v = (0 < v \<and> \<not> is_nan v \<and> \<not> is_inf v)"

definition is_valid_quantity :: "f64 \<Rightarrow> bool" where
  "is_valid_quantity v = (0 < v \<and> \<not> is_nan v \<and> \<not> is_inf v)"

definition fallback_price :: "f64 \<Rightarrow> f64 \<Rightarrow> f64" where
  "fallback_price primary secondary = (if is_valid_price primary then primary else secondary)"

definition min_available :: "f64 list \<Rightarrow> f64" where
  "min_available vs =
     foldl (\<lambda>best v. if \<not> is_valid_price v then best
                    else if is_nan best \<or> v < best then v else best) FNaN vs"

definition max_available :: "f64 list \<Rightarrow> f64" where
  "max_available vs =
     foldl (\<lambda>best v. if \<not> is_valid_price v then best
                    else if is_nan best \<or> best < v then v else best) FNaN vs"

definition execution_open :: "bar_prices \<Rightarrow> side \<Rightarrow> execution_mode \<Rightarrow> f64" where
  "execution_open bp s mode =
     (if mode = ExecutionPriceBidAsk
      then (if s = Buy then fallback_price (b_ask_open bp) (b_open bp)
            else fallback_price (b_bid_open bp) (b_open bp))
      else b_open bp)"

definition execution_close :: "bar_prices \<Rightarrow> side \<Rightarrow> execution_mode \<Rightarrow> f64" where
  "execution_close bp s mode =
     (if mode = ExecutionPriceBidAsk
      then (if s = Buy then fallback_price (b_ask_close bp) (b_close bp)
            else fallback_price (b_bid_close bp) (b_close bp))
      else b_close bp)"

text \<open>\<open>triggerRange\<close>: the low and the high that trigger an order.\<close>

definition trigger_range :: "bar_prices \<Rightarrow> side \<Rightarrow> trigger_mode \<Rightarrow> f64 \<times> f64" where
  "trigger_range bp s mode =
     (if mode = TriggerPriceBidAskEnvelope
      then (if s = Buy
            then (min_available [b_ask_open bp, b_ask_close bp, b_open bp, b_close bp],
                  max_available [b_ask_open bp, b_ask_close bp, b_open bp, b_close bp])
            else (min_available [b_bid_open bp, b_bid_close bp, b_open bp, b_close bp],
                  max_available [b_bid_open bp, b_bid_close bp, b_open bp, b_close bp]))
      else (b_low bp, b_high bp))"

section \<open>The broker\<close>

type_synonym price_func = "secref \<Rightarrow> bar_prices"
type_synonym entry_key = "secref \<times> string"

record broker =
  br_config :: config
  br_cash :: f64
  br_positions :: tracker
  br_entries :: "entry_key \<Rightarrow> position option"
  br_pending :: "order list"
  br_trades :: "trade list"
  br_next_oid :: int
  br_next_tid :: int
  br_price_func :: "price_func option"

definition new_broker :: "config \<Rightarrow> broker" where
  "new_broker cfg =
     \<lparr>br_config = cfg, br_cash = c_capital cfg, br_positions = new_tracker,
      br_entries = (\<lambda>_. None), br_pending = [], br_trades = [], br_next_oid = 1,
      br_next_tid = 1, br_price_func = None\<rparr>"

definition set_price_func :: "price_func \<Rightarrow> broker \<Rightarrow> broker" where
  "set_price_func pf b = b\<lparr>br_price_func := Some pf\<rparr>"

definition adjust_cash :: "f64 \<Rightarrow> broker \<Rightarrow> broker" where
  "adjust_cash amount b = b\<lparr>br_cash := br_cash b + amount\<rparr>"

definition entry_position :: "broker \<Rightarrow> secref \<Rightarrow> string \<Rightarrow> position" where
  "entry_position b r entry = (case br_entries b (r, entry) of Some p \<Rightarrow> p | None \<Rightarrow> flat r)"

definition reducible_entry_quantity :: "broker \<Rightarrow> order \<Rightarrow> f64 option" where
  "reducible_entry_quantity b od =
     (if o_entry od = [] then None
      else case br_entries b (o_sec od, o_entry od) of
             None \<Rightarrow> None
           | Some p \<Rightarrow>
               if feq (p_qty p) 0 then None
               else if (0 < p_qty p \<and> o_side od \<noteq> Sell) \<or> (p_qty p < 0 \<and> o_side od \<noteq> Buy) then None
               else Some (go_abs (p_qty p)))"

text \<open>The sizing of a reduce-only order; \<open>None\<close> when it has nothing to reduce.\<close>

definition size_reduce_only :: "broker \<Rightarrow> order \<Rightarrow> order option" where
  "size_reduce_only b od =
     (if o_reduce od
      then map_option (\<lambda>q. od\<lparr>o_qty := q, o_notional := 0\<rparr>) (reducible_entry_quantity b od)
      else Some od)"

text \<open>\<open>SubmitOrder\<close>: the number of the order, 0 when it is rejected, and the broker.\<close>

definition submit_order :: "order \<Rightarrow> broker \<Rightarrow> int \<times> broker" where
  "submit_order od b =
     (case size_reduce_only b od of
        None \<Rightarrow> (0, b)
      | Some od \<Rightarrow>
          (case (if o_reduce od
                then find (\<lambda>p. o_reduce p \<and> o_sec p = o_sec od \<and> o_entry p = o_entry od) (br_pending b)
                else None) of
            Some p \<Rightarrow> (o_id p, b)
          | None \<Rightarrow>
              let od = od\<lparr>o_id := br_next_oid b\<rparr>
              in (o_id od, b\<lparr>br_next_oid := br_next_oid b + 1, br_pending := br_pending b @ [od]\<rparr>)))"

definition cancel_orders :: "secref \<Rightarrow> broker \<Rightarrow> broker" where
  "cancel_orders r b = b\<lparr>br_pending := filter (\<lambda>od. o_sec od \<noteq> r) (br_pending b)\<rparr>"

section \<open>Commission, slippage and sizing\<close>

definition calc_commission_for_notional :: "config \<Rightarrow> f64 \<Rightarrow> f64 \<Rightarrow> f64 \<Rightarrow> f64" where
  "calc_commission_for_notional cfg qty price notional =
     (if \<not> is_valid_quantity qty \<or> \<not> is_valid_price price then 0
      else case c_commission cfg of
             CommissionFlat \<Rightarrow> c_commission_value cfg
           | CommissionPercent \<Rightarrow> notional * c_commission_value cfg
           | CommissionPerUnit \<Rightarrow> qty * c_commission_value cfg
           | CommissionNone \<Rightarrow> 0)"

definition calc_commission :: "config \<Rightarrow> f64 \<Rightarrow> f64 \<Rightarrow> f64" where
  "calc_commission cfg qty price =
     (if \<not> is_valid_quantity qty \<or> \<not> is_valid_price price then 0
      else calc_commission_for_notional cfg qty price (qty * price))"

definition apply_slippage :: "config \<Rightarrow> f64 \<Rightarrow> side \<Rightarrow> f64" where
  "apply_slippage cfg price s =
     (let slip = price * c_slippage cfg in if s = Buy then price + slip else price - slip)"

definition apply_slippage_with_extra :: "f64 \<Rightarrow> side \<Rightarrow> f64 \<Rightarrow> f64 \<Rightarrow> f64" where
  "apply_slippage_with_extra price s base extra =
     (let total = (if 0 < extra then base + extra else base)
      in if total \<le> 0 then price
         else let slip = price * total in if s = Buy then price + slip else price - slip)"

definition resolve_order_qty :: "order \<Rightarrow> f64 \<Rightarrow> f64" where
  "resolve_order_qty od ref =
     (if 0 < o_qty od then o_qty od
      else if 0 < o_notional od \<and> is_valid_price ref then o_notional od / ref
      else 0)"

section \<open>The cash effect of a trade\<close>

definition uses_base_asset :: "(string \<Rightarrow> string \<Rightarrow> bool) \<Rightarrow> config \<Rightarrow> secref \<Rightarrow> bool" where
  "uses_base_asset fe cfg r =
     (let unit = trim_space (c_unit cfg)
      in if unit = [] \<or> equal_fold fe unit ''USD'' then False
         else equal_fold fe (trim_space (sr_symbol r)) unit)"

definition same_sign :: "f64 \<Rightarrow> f64 \<Rightarrow> bool" where
  "same_sign x y = ((0 < x \<and> 0 < y) \<or> (x < 0 \<and> y < 0))"

definition base_asset_commission :: "trade \<Rightarrow> f64" where
  "base_asset_commission t =
     (if \<not> is_valid_price (t_price t) then t_commission t else t_commission t / t_price t)"

definition base_asset_unrealized_pnl :: "position \<Rightarrow> f64 \<Rightarrow> f64" where
  "base_asset_unrealized_pnl p mark =
     (if feq (p_qty p) 0 \<or> \<not> is_valid_price mark then 0 else unrealized_pnl p mark / mark)"

definition trade_cash_delta :: "(string \<Rightarrow> string \<Rightarrow> bool) \<Rightarrow> config \<Rightarrow> tracker \<Rightarrow> trade \<Rightarrow> f64" where
  "trade_cash_delta fe cfg pt t =
     (if \<not> uses_base_asset fe cfg (t_sec t) then net_amount t
      else let pos = tracker_get pt (t_sec t);
               commission = base_asset_commission t;
               fill = signed_qty t;
               close = go_min (math_abs (p_qty pos)) (math_abs fill)
           in if feq (p_qty pos) 0 \<or> feq fill 0 \<or> same_sign (p_qty pos) fill then - commission
              else if close \<le> 0 \<or> \<not> is_valid_price (p_avg pos) \<or> \<not> is_valid_price (t_price t)
              then - commission
              else let pnl = (if 0 < p_qty pos then close * (t_price t - p_avg pos)
                              else close * (p_avg pos - t_price t))
                   in pnl / t_price t - commission)"

section \<open>Booking a fill\<close>

definition entries_update ::
  "(entry_key \<Rightarrow> position option) \<Rightarrow> trade \<Rightarrow> (entry_key \<Rightarrow> position option)" where
  "entries_update es t =
     (if t_entry t = [] then es
      else let key = (t_sec t, t_entry t);
               p = update_position (case es key of None \<Rightarrow> flat (t_sec t) | Some p \<Rightarrow> p) t
           in es(key := (if feq (p_qty p) 0 then None else Some p)))"

definition apply_trade :: "trade \<Rightarrow> broker \<Rightarrow> broker" where
  "apply_trade t b =
     b\<lparr>br_positions := tracker_update (br_positions b) t,
       br_entries := entries_update (br_entries b) t\<rparr>"

text \<open>
  The end of the three execution methods: number the order if it has no number, make the trade,
  book its cash effect and its position. \<open>ref\<close> is the price the slippage is measured from.
\<close>

definition book_fill ::
  "(string \<Rightarrow> string \<Rightarrow> bool) \<Rightarrow> order \<Rightarrow> f64 \<Rightarrow> f64 \<Rightarrow> f64 \<Rightarrow> int \<Rightarrow> int \<Rightarrow> broker \<Rightarrow> trade \<times> broker" where
  "book_fill fe od qty price ref bar time b =
     (let (oid, b) = (if o_id od = 0
                      then (br_next_oid b, b\<lparr>br_next_oid := br_next_oid b + 1\<rparr>) else (o_id od, b));
          t = \<lparr>t_id = br_next_tid b, t_order = oid, t_entry = o_entry od, t_reduce = o_reduce od,
               t_sec = o_sec od, t_side = o_side od, t_note = o_note od, t_qty = qty,
               t_price = price, t_commission = calc_commission (br_config b) qty price,
               t_slippage = go_abs (price - ref), t_bar = bar, t_time = time\<rparr>;
          b = b\<lparr>br_next_tid := br_next_tid b + 1\<rparr>;
          b = b\<lparr>br_cash := br_cash b + trade_cash_delta fe (br_config b) (br_positions b) t\<rparr>
      in (t, apply_trade t b))"

section \<open>Executing an order on a bar\<close>

text \<open>
  The switch of \<open>executeOrderOnBar\<close>: the price and the quantity of the fill, or \<open>None\<close> when the
  order does not fill on this bar.
\<close>

definition limit_fill :: "order \<Rightarrow> f64 \<Rightarrow> f64 \<times> f64 \<Rightarrow> (f64 \<times> f64) option" where
  "limit_fill od opn rng =
     (let (low, high) = rng
      in if o_side od = Buy \<and> is_valid_price low \<and> low \<le> o_price od
         then let p = go_min opn (o_price od) in Some (p, resolve_order_qty od p)
         else if o_side od = Sell \<and> is_valid_price high \<and> o_price od \<le> high
         then let p = go_max opn (o_price od) in Some (p, resolve_order_qty od p)
         else None)"

definition stop_triggered :: "order \<Rightarrow> f64 \<times> f64 \<Rightarrow> bool" where
  "stop_triggered od rng =
     (let (low, high) = rng
      in (o_side od = Buy \<and> is_valid_price high \<and> o_stop od \<le> high)
         \<or> (o_side od = Sell \<and> is_valid_price low \<and> low \<le> o_stop od))"

definition stop_fill :: "config \<Rightarrow> order \<Rightarrow> f64 \<Rightarrow> f64 \<times> f64 \<Rightarrow> (f64 \<times> f64) option" where
  "stop_fill cfg od opn rng =
     (if stop_triggered od rng
      then let base = (if o_side od = Buy then go_max opn (o_stop od) else go_min opn (o_stop od));
               p = apply_slippage cfg base (o_side od)
           in Some (p, resolve_order_qty od p)
      else None)"

definition twap_fill :: "config \<Rightarrow> order \<Rightarrow> f64 \<Rightarrow> (f64 \<times> f64) option" where
  "twap_fill cfg od opn =
     (let total = (if o_qty od \<le> 0 \<and> 0 < o_notional od then resolve_order_qty od opn else o_qty od);
          slices = (if o_twap od \<le> 0 then 1 else o_twap od)
      in if total \<le> 0 then None
         else Some (apply_slippage cfg opn (o_side od), total / f64_of_int slices))"

definition fill_terms :: "config \<Rightarrow> order \<Rightarrow> f64 \<Rightarrow> f64 \<times> f64 \<Rightarrow> (f64 \<times> f64) option" where
  "fill_terms cfg od opn rng =
     (case o_type od of
        MarketOrder \<Rightarrow>
          let qty = resolve_order_qty od opn
          in if qty \<le> 0 then None else Some (apply_slippage cfg opn (o_side od), qty)
      | TWAPMarketOrder \<Rightarrow> twap_fill cfg od opn
      | LimitOrder \<Rightarrow> limit_fill od opn rng
      | StopOrder \<Rightarrow> stop_fill cfg od opn rng
      | StopLimitOrder \<Rightarrow> if stop_triggered od rng then limit_fill od opn rng else None
      | OtherType _ \<Rightarrow> None)"

text \<open>The three results of \<open>executeOrderOnBar\<close>: filled, valid but not filled, not valid.\<close>

datatype outcome = Filled trade | Unfilled | Invalid

definition execute_order_on_bar ::
  "(string \<Rightarrow> string \<Rightarrow> bool) \<Rightarrow> price_func \<Rightarrow> order \<Rightarrow> int \<Rightarrow> int \<Rightarrow> broker \<Rightarrow> outcome \<times> broker" where
  "execute_order_on_bar fe pf od bar time b =
     (case size_reduce_only b od of
        None \<Rightarrow> (Unfilled, b)
      | Some od \<Rightarrow>
          let prices = pf (o_sec od);
              opn = execution_open prices (o_side od) (c_execution (br_config b))
          in if \<not> is_valid_price opn then (Invalid, b)
             else (case fill_terms (br_config b) od opn
                         (trigger_range prices (o_side od) (c_trigger (br_config b))) of
                    None \<Rightarrow> (Unfilled, b)
                  | Some (price, qty) \<Rightarrow>
                      (if \<not> is_valid_quantity qty then (Unfilled, b)
                       else if \<not> is_valid_price price then (Invalid, b)
                       else let (t, b) = book_fill fe od qty price opn bar time b in (Filled t, b))))"

text \<open>What is left of a TWAP order after a slice.\<close>

definition twap_rest :: "order \<Rightarrow> trade \<Rightarrow> order option" where
  "twap_rest od t =
     (if o_type od \<noteq> TWAPMarketOrder then None
      else let slices = (if o_twap od \<le> 0 then 1 else o_twap od);
               od = (if o_qty od \<le> 0 \<and> 0 < o_notional od
                     then od\<lparr>o_qty := t_qty t * f64_of_int slices, o_notional := 0\<rparr> else od);
               qty = o_qty od - t_qty t;
               bars = o_twap od - 1
           in if 0 < qty \<and> 0 < bars then Some (od\<lparr>o_qty := qty, o_twap := bars\<rparr>) else None)"

fun process_loop ::
  "(string \<Rightarrow> string \<Rightarrow> bool) \<Rightarrow> price_func \<Rightarrow> int \<Rightarrow> int \<Rightarrow> order list \<Rightarrow> trade list \<Rightarrow> order list \<Rightarrow> broker
     \<Rightarrow> trade list \<times> order list \<times> broker" where
  "process_loop fe pf bar time [] fills rest b = (fills, rest, b)"
| "process_loop fe pf bar time (od # ods) fills rest b =
     (case execute_order_on_bar fe pf od bar time b of
        (Filled t, b) \<Rightarrow>
          process_loop fe pf bar time ods (fills @ [t])
            (case twap_rest od t of None \<Rightarrow> rest | Some od \<Rightarrow> rest @ [od]) b
      | (_, b) \<Rightarrow> process_loop fe pf bar time ods fills (rest @ [od]) b)"

definition process_pending ::
  "(string \<Rightarrow> string \<Rightarrow> bool) \<Rightarrow> int \<Rightarrow> int \<Rightarrow> broker \<Rightarrow> trade list \<times> broker" where
  "process_pending fe bar time b =
     (case br_price_func b of
        None \<Rightarrow> ([], b)
      | Some pf \<Rightarrow>
          if br_pending b = [] then ([], b)
          else let (fills, rest, b) = process_loop fe pf bar time (br_pending b) [] [] b
               in (fills, b\<lparr>br_pending := rest, br_trades := br_trades b @ fills\<rparr>))"

section \<open>Immediate execution\<close>

definition record_fill :: "trade \<times> broker \<Rightarrow> trade option \<times> broker" where
  "record_fill = (\<lambda>(t, b). (Some t, b\<lparr>br_trades := br_trades b @ [t]\<rparr>))"

definition execute_order_now ::
  "(string \<Rightarrow> string \<Rightarrow> bool) \<Rightarrow> order \<Rightarrow> int \<Rightarrow> int \<Rightarrow> broker \<Rightarrow> trade option \<times> broker" where
  "execute_order_now fe od bar time b =
     (case br_price_func b of
        None \<Rightarrow> (None, b)
      | Some pf \<Rightarrow>
          (case size_reduce_only b od of
             None \<Rightarrow> (None, b)
           | Some od \<Rightarrow>
               (case execute_order_on_bar fe pf od bar time b of
                  (Filled t, b) \<Rightarrow> record_fill (t, b)
                | (_, b) \<Rightarrow> (None, b))))"

definition execute_order_at_close_now ::
  "(string \<Rightarrow> string \<Rightarrow> bool) \<Rightarrow> order \<Rightarrow> int \<Rightarrow> int \<Rightarrow> broker \<Rightarrow> trade option \<times> broker" where
  "execute_order_at_close_now fe od bar time b =
     (case br_price_func b of
        None \<Rightarrow> (None, b)
      | Some pf \<Rightarrow>
          (case size_reduce_only b od of
             None \<Rightarrow> (None, b)
           | Some od \<Rightarrow>
              let cls = execution_close (pf (o_sec od)) (o_side od) (c_execution (br_config b));
                  qty = resolve_order_qty od cls;
                  price = apply_slippage (br_config b) cls (o_side od)
              in if \<not> is_valid_price cls \<or> \<not> is_valid_quantity qty \<or> \<not> is_valid_price price
                 then (None, b)
                 else record_fill (book_fill fe od qty price cls bar time b)))"

definition execute_stop_order_now ::
  "(string \<Rightarrow> string \<Rightarrow> bool) \<Rightarrow> order \<Rightarrow> int \<Rightarrow> int \<Rightarrow> f64 \<Rightarrow> broker \<Rightarrow> trade option \<times> broker" where
  "execute_stop_order_now fe od bar time extra b =
     (case br_price_func b of
        None \<Rightarrow> (None, b)
      | Some pf \<Rightarrow>
          let prices = pf (o_sec od);
              opn = execution_open prices (o_side od) (c_execution (br_config b));
              (low, high) = trigger_range prices (o_side od) (c_trigger (br_config b));
              triggered = (if o_side od = Buy then is_valid_price high \<and> o_stop od \<le> high
                           else is_valid_price low \<and> low \<le> o_stop od);
              base = (if o_side od = Buy then go_max opn (o_stop od) else go_min opn (o_stop od));
              qty = resolve_order_qty od base;
              price = apply_slippage_with_extra base (o_side od) (c_slippage (br_config b)) extra
          in if o_type od \<noteq> StopOrder \<or> \<not> is_valid_price opn \<or> \<not> is_valid_price (o_stop od)
                \<or> \<not> triggered \<or> \<not> is_valid_quantity qty \<or> \<not> is_valid_price price
             then (None, b)
             else record_fill (book_fill fe od qty price base bar time b))"

section \<open>Valuation\<close>

definition mark_price_for_position :: "config \<Rightarrow> f64 \<Rightarrow> bar_prices \<Rightarrow> f64" where
  "mark_price_for_position cfg qty bp =
     (case c_valuation cfg of
        ValuationPriceExit \<Rightarrow>
          if 0 \<le> qty then fallback_price (b_bid_close bp) (b_close bp)
          else fallback_price (b_ask_close bp) (b_close bp)
      | ValuationPriceMid \<Rightarrow>
          if is_valid_price (b_bid_close bp) \<and> is_valid_price (b_ask_close bp)
          then (b_bid_close bp + b_ask_close bp) / FFin 2 else b_close bp
      | ValuationPriceClose \<Rightarrow> b_close bp)"

definition position_unrealized_pnl :: "(string \<Rightarrow> string \<Rightarrow> bool) \<Rightarrow> broker \<Rightarrow> secref \<Rightarrow> f64" where
  "position_unrealized_pnl fe b r =
     (let pos = tracker_get (br_positions b) r
      in case br_price_func b of
           None \<Rightarrow> 0
         | Some pf \<Rightarrow>
             if feq (p_qty pos) 0 then 0
             else let mark = mark_price_for_position (br_config b) (p_qty pos) (pf r)
                  in if \<not> is_valid_price mark then 0
                     else if uses_base_asset fe (br_config b) r then base_asset_unrealized_pnl pos mark
                     else unrealized_pnl pos mark)"

definition broker_unrealized_pnl ::
  "(string \<Rightarrow> string \<Rightarrow> bool) \<Rightarrow> secref list \<Rightarrow> broker \<Rightarrow> f64" where
  "broker_unrealized_pnl fe refs b =
     foldl (\<lambda>total pos. case br_price_func b of
         None \<Rightarrow> total
       | Some pf \<Rightarrow>
           let mark = mark_price_for_position (br_config b) (p_qty pos) (pf (p_sec pos))
           in if \<not> is_valid_price mark then total
              else if uses_base_asset fe (br_config b) (p_sec pos)
              then total + base_asset_unrealized_pnl pos mark
              else total + unrealized_pnl pos mark)
       0 (tracker_all refs (br_positions b))"

definition position_market_value ::
  "(string \<Rightarrow> string \<Rightarrow> bool) \<Rightarrow> secref list \<Rightarrow> broker \<Rightarrow> f64" where
  "position_market_value fe refs b =
     foldl (\<lambda>total pos. case br_price_func b of
         None \<Rightarrow> total
       | Some pf \<Rightarrow>
           let mark = mark_price_for_position (br_config b) (p_qty pos) (pf (p_sec pos))
           in if \<not> is_valid_price mark then total
              else if uses_base_asset fe (br_config b) (p_sec pos)
              then total + base_asset_unrealized_pnl pos mark
              else total + p_qty pos * mark)
       0 (tracker_all refs (br_positions b))"

definition equity :: "(string \<Rightarrow> string \<Rightarrow> bool) \<Rightarrow> secref list \<Rightarrow> broker \<Rightarrow> f64" where
  "equity fe refs b = br_cash b + position_market_value fe refs b"

definition realized_pnl :: "secref list \<Rightarrow> broker \<Rightarrow> f64" where
  "realized_pnl refs b = total_realized_pnl refs (br_positions b)"

definition total_pnl :: "(string \<Rightarrow> string \<Rightarrow> bool) \<Rightarrow> secref list \<Rightarrow> broker \<Rightarrow> f64" where
  "total_pnl fe refs b = equity fe refs b - c_capital (br_config b)"

end
