(* ===== verification/Bt_Option.thy ===== *)
theory Bt_Option
  imports Bt_Broker
begin

text \<open>
  Option contracts, their prices and their look-up keys (\<open>internal/backtest/options.go\<close>). Times
  are instants in nanoseconds. What \<open>strings.ToLower\<close>, \<open>strings.ToUpper\<close> and \<open>strings.EqualFold\<close>
  do beyond ASCII is data of the Go distribution and is the parameter \<open>text_case\<close>.
\<close>

section \<open>Case of strings\<close>

record text_case =
  tc_lower :: "string \<Rightarrow> string"
  tc_upper :: "string \<Rightarrow> string"
  tc_fold :: "string \<Rightarrow> string \<Rightarrow> bool"

definition ascii_upper :: "char \<Rightarrow> char" where
  "ascii_upper c = (if 97 \<le> byte c \<and> byte c \<le> 122 then char_of (byte c - 32) else c)"

definition lower :: "text_case \<Rightarrow> string \<Rightarrow> string" where
  "lower tc s = (if is_ascii s then map ascii_lower s else tc_lower tc s)"

definition upper :: "text_case \<Rightarrow> string \<Rightarrow> string" where
  "upper tc s = (if is_ascii s then map ascii_upper s else tc_upper tc s)"

definition has_prefix :: "string \<Rightarrow> string \<Rightarrow> bool" where
  "has_prefix s p = (take (length p) s = p)"

text \<open>A case that leaves other strings alone, for closed examples.\<close>

definition ascii_case :: text_case where
  "ascii_case = \<lparr>tc_lower = (\<lambda>s. s), tc_upper = (\<lambda>s. s), tc_fold = (\<lambda>_ _. False)\<rparr>"

section \<open>Contracts\<close>

datatype option_type = OptCall | OptPut | OptOther string

record contract =
  oc_symbol :: string
  oc_underlying :: string
  oc_market :: string
  oc_underlying_market :: string
  oc_type :: option_type
  oc_strike :: f64
  oc_expiration :: int
  oc_delta :: f64
  oc_bid :: f64
  oc_ask :: f64
  oc_mark :: f64
  oc_iv :: f64
  oc_underlying_price :: f64
  oc_volume :: f64

text \<open>The zero value of \<open>time.Time\<close>, the first instant of year 1.\<close>

definition zero_time :: int where
  "zero_time = - 62135596800000000000"

section \<open>Prices\<close>

datatype option_price_mode =
  OptionPriceModeUnspecified | OptionPriceMarkClose | OptionPriceBidAsk | OptionPriceOther int

record spread_pricing =
  pr_entry :: option_price_mode
  pr_exit :: option_price_mode
  pr_valuation :: option_price_mode

definition default_spread_pricing :: spread_pricing where
  "default_spread_pricing =
     \<lparr>pr_entry = OptionPriceBidAsk, pr_exit = OptionPriceMarkClose,
      pr_valuation = OptionPriceMarkClose\<rparr>"

definition with_defaults :: "spread_pricing \<Rightarrow> spread_pricing" where
  "with_defaults cfg =
     (let d = default_spread_pricing;
          cfg = (if pr_entry cfg = OptionPriceModeUnspecified then cfg\<lparr>pr_entry := pr_entry d\<rparr> else cfg);
          cfg = (if pr_exit cfg = OptionPriceModeUnspecified then cfg\<lparr>pr_exit := pr_exit d\<rparr> else cfg)
      in if pr_valuation cfg = OptionPriceModeUnspecified
         then cfg\<lparr>pr_valuation := pr_valuation d\<rparr> else cfg)"

definition option_price_valid :: "f64 \<Rightarrow> bool" where
  "option_price_valid v = (\<not> is_nan v \<and> \<not> is_inf v \<and> 0 < v)"

definition option_price_valid_or_zero :: "f64 \<Rightarrow> bool" where
  "option_price_valid_or_zero v = (\<not> is_nan v \<and> \<not> is_inf v \<and> 0 \<le> v)"

fun option_price_fallback :: "f64 list \<Rightarrow> f64" where
  "option_price_fallback [] = FNaN"
| "option_price_fallback (v # vs) = (if option_price_valid v then v else option_price_fallback vs)"

definition option_mid_price :: "contract \<Rightarrow> f64" where
  "option_mid_price c =
     (if option_price_valid (oc_bid c) \<and> option_price_valid (oc_ask c)
      then (oc_bid c + oc_ask c) / FFin 2 else FNaN)"

definition option_entry_price :: "option_price_mode \<Rightarrow> side \<Rightarrow> contract \<Rightarrow> f64" where
  "option_entry_price mode s c =
     (if mode = OptionPriceBidAsk
      then (if s = Buy
            then option_price_fallback [oc_ask c, oc_mark c, option_mid_price c, oc_bid c]
            else option_price_fallback [oc_bid c, oc_mark c, option_mid_price c, oc_ask c])
      else option_price_fallback [oc_mark c, option_mid_price c, oc_bid c, oc_ask c])"

definition exit_side :: "side \<Rightarrow> side" where
  "exit_side entry = (if entry = Sell then Buy else Sell)"

definition option_exit_price :: "option_price_mode \<Rightarrow> side \<Rightarrow> contract \<Rightarrow> f64" where
  "option_exit_price mode entry c = option_entry_price mode (exit_side entry) c"

definition option_intrinsic_value :: "contract \<Rightarrow> f64" where
  "option_intrinsic_value c =
     (if \<not> is_valid_price (oc_underlying_price c) \<or> \<not> is_valid_price (oc_strike c) then FNaN
      else case oc_type c of
             OptCall \<Rightarrow> go_max (oc_underlying_price c - oc_strike c) 0
           | OptPut \<Rightarrow> go_max (oc_strike c - oc_underlying_price c) 0
           | OptOther _ \<Rightarrow> FNaN)"

text \<open>The bid-ask spread of a contract relative to its middle.\<close>

definition spread_ratio :: "contract \<Rightarrow> f64" where
  "spread_ratio c =
     (if oc_ask c \<le> 0 \<or> oc_bid c \<le> 0 \<or> feq (oc_ask c + oc_bid c) 0 then FInf False
      else (oc_ask c - oc_bid c) / (oc_ask c + oc_bid c))"

section \<open>Keys\<close>

definition chain_underlying :: "contract \<Rightarrow> string" where
  "chain_underlying c = trim_space (oc_underlying c)"

definition chain_market :: "contract \<Rightarrow> string" where
  "chain_market c =
     (let m = trim_space (oc_underlying_market c) in if m \<noteq> [] then m else trim_space (oc_market c))"

definition is_us_chain_market :: "text_case \<Rightarrow> string \<Rightarrow> bool" where
  "is_us_chain_market tc market =
     (lower tc (trim_space market)
        \<in> {''us'', ''us-options'', ''us-stocks'', ''us-stock'', ''us-underlying'', ''stocks''})"

definition multiplier :: "text_case \<Rightarrow> contract \<Rightarrow> f64" where
  "multiplier tc c =
     (let market = lower tc (trim_space (chain_market c))
      in if is_us_chain_market tc market \<or> has_prefix (upper tc (trim_space (oc_symbol c))) ''O:''
         then FFin 100 else 1)"

definition chain_market_matches :: "text_case \<Rightarrow> string \<Rightarrow> string \<Rightarrow> bool" where
  "chain_market_matches tc provider requested =
     (let p = lower tc (trim_space provider); r = lower tc (trim_space requested)
      in if r = [] \<or> p = r then True else is_us_chain_market tc p \<and> is_us_chain_market tc r)"

definition chain_lookup_key :: "text_case \<Rightarrow> string \<Rightarrow> string \<Rightarrow> string" where
  "chain_lookup_key tc market underlying =
     lower tc (trim_space market) @ ''|'' @ upper tc (trim_space underlying)"

definition contract_lookup_key :: "text_case \<Rightarrow> string \<Rightarrow> string \<Rightarrow> string \<Rightarrow> string" where
  "contract_lookup_key tc market underlying symbol =
     chain_lookup_key tc market underlying @ ''|'' @ trim_space symbol"

definition contract_lookup_keys :: "text_case \<Rightarrow> contract \<Rightarrow> string list" where
  "contract_lookup_keys tc c =
     (let symbol = trim_space (oc_symbol c)
      in contract_lookup_key tc (chain_market c) (chain_underlying c) (oc_symbol c)
           # (if symbol \<noteq> [] then [symbol] else []))"

type_synonym contract_map = "string \<Rightarrow> contract option"

text \<open>The map the replay builds on every bar from the contracts of the provider.\<close>

definition contract_map_of :: "text_case \<Rightarrow> contract list \<Rightarrow> contract_map" where
  "contract_map_of tc cs =
     foldl (\<lambda>m c. m(contract_lookup_key tc (chain_market c) (chain_underlying c) (oc_symbol c) \<mapsto> c))
       (\<lambda>_. None) cs"

fun first_contract :: "contract_map \<Rightarrow> string list \<Rightarrow> contract option" where
  "first_contract m [] = None"
| "first_contract m (k # ks) = (case m k of Some c \<Rightarrow> Some c | None \<Rightarrow> first_contract m ks)"

definition resolve_spread_contract :: "text_case \<Rightarrow> contract_map \<Rightarrow> contract \<Rightarrow> contract" where
  "resolve_spread_contract tc m c =
     (case first_contract m (contract_lookup_keys tc c) of Some c' \<Rightarrow> c' | None \<Rightarrow> c)"

end
