(* ===== verification/Go_Math.thy ===== *)
theory Go_Math
  imports Go_Float64
begin

text \<open>
  What the program uses of the packages \<open>math\<close>, \<open>sort\<close> and \<open>time\<close> on floats and durations.
\<close>

section \<open>Package math\<close>

text \<open>\<open>floor\<close> of the square root of an integer, one base-4 digit at a time.\<close>

function isqrt :: "int \<Rightarrow> int" where
  "isqrt n =
     (if n \<le> 0 then 0
      else let r = 2 * isqrt (n div 4) in if (r + 1) * (r + 1) \<le> n then r + 1 else r)"
  by pat_completeness auto
termination by (relation "measure nat") auto

declare isqrt.simps [simp del]

text \<open>
  The correctly rounded square root: 55 bits of the root and a sticky bit determine the rounding.
\<close>

definition math_sqrt :: "f64 \<Rightarrow> f64" where
  "math_sqrt x =
     (case x of
        FNaN \<Rightarrow> FNaN
      | FInf s \<Rightarrow> if s then FNaN else FInf False
      | FZero s \<Rightarrow> FZero s
      | FFin q \<Rightarrow>
          if q < 0 then FNaN
          else let e = 55 - rat_exp q div 2;
                   a = q * 2 powi (2 * e); n = isqrt \<lfloor>a\<rfloor>
               in if of_int (n * n) = a then rnd (of_int n / 2 powi e)
                  else rnd (of_int (2 * n + 1) / 2 powi (e + 1)))"

definition math_floor :: "f64 \<Rightarrow> f64" where
  "math_floor x = (case x of FFin q \<Rightarrow> f64_of_int \<lfloor>q\<rfloor> | _ \<Rightarrow> x)"

text \<open>\<open>Ceil\<close> is \<open>-Floor(-x)\<close>; a zero keeps the sign of the argument.\<close>

definition math_ceil :: "f64 \<Rightarrow> f64" where
  "math_ceil x = - math_floor (- x)"

text \<open>\<open>Round\<close> rounds half away from zero and keeps the sign of a zero.\<close>

definition math_round :: "f64 \<Rightarrow> f64" where
  "math_round x =
     (case x of
        FFin q \<Rightarrow> let n = \<lfloor>\<bar>q\<bar> + 1 / 2\<rfloor>
                  in if n = 0 then FZero (q < 0) else f64_of_int (if q < 0 then - n else n)
      | _ \<Rightarrow> x)"

definition math_trunc :: "f64 \<Rightarrow> f64" where
  "math_trunc x =
     (case x of
        FFin q \<Rightarrow> let n = \<lfloor>\<bar>q\<bar>\<rfloor>
                  in if n = 0 then FZero (q < 0) else f64_of_int (if q < 0 then - n else n)
      | _ \<Rightarrow> x)"

text \<open>Unlike the builtins of the language, \<open>math.Max\<close> and \<open>math.Min\<close> prefer an infinity to NaN.\<close>

definition float_max :: "f64 \<Rightarrow> f64 \<Rightarrow> f64" where
  "float_max x y =
     (if x = FInf False \<or> y = FInf False then FInf False else go_max x y)"

definition float_min :: "f64 \<Rightarrow> f64 \<Rightarrow> f64" where
  "float_min x y = (if x = FInf True \<or> y = FInf True then FInf True else go_min x y)"

section \<open>Lists of floats\<close>

primrec insert_float :: "f64 \<Rightarrow> f64 list \<Rightarrow> f64 list" where
  "insert_float x [] = [x]"
| "insert_float x (y # ys) = (if x < y then x # y # ys else y # insert_float x ys)"

definition sort_floats :: "f64 list \<Rightarrow> f64 list" where
  "sort_floats xs = fold insert_float xs []"

definition is_finite :: "f64 \<Rightarrow> bool" where
  "is_finite x \<longleftrightarrow> \<not> is_nan x \<and> \<not> is_inf x"

text \<open>Sums from the left.\<close>

definition float_sum :: "f64 list \<Rightarrow> f64" where
  "float_sum xs = foldl (+) 0 xs"

definition f64_of_nat :: "nat \<Rightarrow> f64" where
  "f64_of_nat n = f64_of_int (int n)"

section \<open>Durations\<close>

text \<open>\<open>Time.Sub\<close> saturates at the range of an \<open>int64\<close> of nanoseconds.\<close>

definition time_sub :: "int \<Rightarrow> int \<Rightarrow> int" where
  "time_sub t u = max (- (2 ^ 63)) (min (2 ^ 63 - 1) (t - u))"

text \<open>\<open>Duration.Hours\<close>: whole hours, truncated, plus the rest.\<close>

definition hours :: "int \<Rightarrow> f64" where
  "hours d =
     (let h = 3600000000000; n = \<bar>d\<bar> div h; r = \<bar>d\<bar> mod h
      in f64_of_int (sgn d * n) + f64_of_int (sgn d * r) / FFin (of_int h))"

end
