(* ===== verification/Dsl_Builtins.thy ===== *)
theory Dsl_Builtins
  imports Dsl_Exec Bt_Option Go_Math "HOL-Library.Char_ord" "HOL-Library.List_Lexorder"
begin

text \<open>
  The native functions every profile registers: \<open>builtins_core.go\<close>, \<open>builtins_candidates.go\<close>,
  \<open>builtins_math.go\<close>, \<open>builtins_str.go\<close>, \<open>builtins_input.go\<close>, \<open>builtins_ref.go\<close> and
  \<open>builtins_trace.go\<close> of \<open>pkg/dsl/runtime\<close>. A native function takes its arguments and the state
  and returns its value and the next state.

  The record \<open>native_env\<close> holds what the functions take from outside: the transcendental functions
  of package \<open>math\<close>, \<open>Sprintf\<close> with a format computed at run time, the text of a pointer (\<open>%p\<close>),
  the case mappings of strings, equality and the method \<open>Len\<close> of opaque objects, and the
  conversion of an out-of-range float to an integer.
\<close>

record 'o native_env =
  ne_int :: "f64 \<Rightarrow> int"
  ne_case :: text_case
  ne_same :: "'o \<Rightarrow> 'o \<Rightarrow> bool"
  ne_length :: "'o \<Rightarrow> int option"
  ne_pow :: "f64 \<Rightarrow> f64 \<Rightarrow> f64"
  ne_log :: "f64 \<Rightarrow> f64"
  ne_log10 :: "f64 \<Rightarrow> f64"
  ne_exp :: "f64 \<Rightarrow> f64"
  ne_sprintf :: "string \<Rightarrow> (string + f64) list \<Rightarrow> string"
  ne_pointer :: "nat \<Rightarrow> string"
  ne_parse :: "string \<Rightarrow> f64 option"

type_synonym ('o, 'b) native_fn = "'o rvalue list \<Rightarrow> ('o, 'b) interp \<Rightarrow> 'o rvalue \<times> ('o, 'b) interp"

section \<open>Helpers of builtins\_order.go\<close>

definition arg_float :: "('o, 'b) interp \<Rightarrow> 'o rvalue list \<Rightarrow> nat \<Rightarrow> f64 \<Rightarrow> f64" where
  "arg_float st args i d =
     (if length args \<le> i then d
      else let v = float_of st (args ! i) in if is_nan v then d else v)"

definition arg_str :: "'o rvalue list \<Rightarrow> nat \<Rightarrow> string \<Rightarrow> string" where
  "arg_str args i d =
     (if length args \<le> i then d else let s = str_of (args ! i) in if s = [] then d else s)"

text \<open>A native function that only computes a value.\<close>

definition pure_native ::
  "(('o, 'b) interp \<Rightarrow> 'o rvalue list \<Rightarrow> 'o rvalue) \<Rightarrow> ('o, 'b) native_fn" where
  "pure_native f args st = (f st args, st)"

section \<open>builtins\_math.go\<close>

definition math1 :: "(f64 \<Rightarrow> f64) \<Rightarrow> ('o, 'b) interp \<Rightarrow> 'o rvalue list \<Rightarrow> 'o rvalue" where
  "math1 f st args = (if args = [] then VNa else VFloat (f (float_of st (args ! 0))))"

definition math2 :: "(f64 \<Rightarrow> f64 \<Rightarrow> f64) \<Rightarrow> ('o, 'b) interp \<Rightarrow> 'o rvalue list \<Rightarrow> 'o rvalue" where
  "math2 f st args =
     (if length args < 2 then VNa
      else VFloat (f (float_of st (args ! 0)) (float_of st (args ! 1))))"

definition math_sign :: "f64 \<Rightarrow> f64" where
  "math_sign v = (if 0 < v then 1 else if v < 0 then -1 else 0)"

definition math_avg :: "('o, 'b) interp \<Rightarrow> 'o rvalue list \<Rightarrow> 'o rvalue" where
  "math_avg st args =
     (if args = [] then VNa
      else VFloat (foldl (+) 0 (map (float_of st) args) / f64_of_int (int (length args))))"

definition nz_value :: "('o, 'b) interp \<Rightarrow> 'o rvalue list \<Rightarrow> 'o rvalue" where
  "nz_value st args =
     (if args = [] then VNa
      else if is_na_value (args ! 0) \<or> is_nan (float_of st (args ! 0))
      then if 2 \<le> length args then args ! 1 else VFloat 0
      else args ! 0)"

definition na_value :: "('o, 'b) interp \<Rightarrow> 'o rvalue list \<Rightarrow> 'o rvalue" where
  "na_value st args =
     (if args = [] then VBool True
      else case args ! 0 of
             VNa \<Rightarrow> VBool True
           | VFloat x \<Rightarrow> VBool (is_nan (float_of st (args ! 0)))
           | VSeries a \<Rightarrow> VBool (is_nan (float_of st (args ! 0)))
           | _ \<Rightarrow> VBool False)"

definition math_native :: "'o native_env \<Rightarrow> string \<Rightarrow> ('o, 'b) native_fn option" where
  "math_native N x =
     (if x = ''math.abs'' then Some (pure_native (math1 math_abs))
      else if x = ''math.ceil'' then Some (pure_native (math1 math_ceil))
      else if x = ''math.floor'' then Some (pure_native (math1 math_floor))
      else if x = ''math.round'' then Some (pure_native (math1 math_round))
      else if x = ''math.sqrt'' then Some (pure_native (math1 math_sqrt))
      else if x = ''math.pow'' then Some (pure_native (math2 (ne_pow N)))
      else if x = ''math.log'' then Some (pure_native (math1 (ne_log N)))
      else if x = ''math.log10'' then Some (pure_native (math1 (ne_log10 N)))
      else if x = ''math.exp'' then Some (pure_native (math1 (ne_exp N)))
      else if x = ''math.max'' then Some (pure_native (math2 float_max))
      else if x = ''math.min'' then Some (pure_native (math2 float_min))
      else if x = ''math.sign'' then Some (pure_native (math1 math_sign))
      else if x = ''math.avg'' then Some (pure_native math_avg)
      else if x = ''nz'' then Some (pure_native nz_value)
      else if x = ''na'' then Some (pure_native na_value)
      else None)"

section \<open>builtins\_core.go\<close>

definition snapshot_value :: "('o, 'b) interp \<Rightarrow> 'o rvalue list \<Rightarrow> 'o rvalue" where
  "snapshot_value st args =
     (if args = [] then VNa
      else let v = args ! 0
           in case v of
                VFloat x \<Rightarrow> if is_nan x then VNa else VFloat x
              | VBool b \<Rightarrow> VFloat (float_of st v)
              | VSeries a \<Rightarrow> if is_nan (float_of st v) then VNa else VFloat (float_of st v)
              | _ \<Rightarrow> v)"

text \<open>An element whose comparison does not end would not be found either.\<close>

definition array_contains :: "('o \<Rightarrow> 'o \<Rightarrow> bool) \<Rightarrow> ('o, 'b) interp \<Rightarrow> 'o rvalue list \<Rightarrow> 'o rvalue" where
  "array_contains same st args =
     (if length args < 2 then VBool False
      else VBool (list_ex (\<lambda>item. val_equal same item (args ! 1) st = Some True)
                    (elements st (args ! 0))))"

text \<open>The value at a fractional position of a sorted list.\<close>

definition interpolate :: "f64 list \<Rightarrow> f64 \<Rightarrow> f64" where
  "interpolate values position =
     (let lower = nat \<lfloor>fval position\<rfloor>; upper = nat \<lceil>fval position\<rceil>
      in if lower = upper then values ! lower
         else values ! lower + (values ! upper - values ! lower) * (position - f64_of_int (int lower)))"

definition array_percentile :: "('o, 'b) interp \<Rightarrow> 'o rvalue list \<Rightarrow> 'o rvalue" where
  "array_percentile st args =
     (if length args < 2 then VNa
      else let p = float_of st (args ! 1)
           in if \<not> is_finite p \<or> p < 0 \<or> FFin 100 < p then VNa
              else let values = sort_floats (filter is_finite (map (float_of st) (elements st (args ! 0))))
                   in if values = [] then VNa
                      else VFloat (interpolate values
                             (f64_of_int (int (length values) - 1) * p / FFin 100)))"

definition len_value :: "('o \<Rightarrow> int option) \<Rightarrow> ('o, 'b) interp \<Rightarrow> 'o rvalue list \<Rightarrow> 'o rvalue" where
  "len_value olen st args =
     (if args = [] then VFloat 0
      else case args ! 0 of
             VArray a \<Rightarrow> VFloat (f64_of_int (int (length (array_of st a))))
           | VObject (Opaque x) \<Rightarrow> VFloat (case olen x of Some n \<Rightarrow> f64_of_int n | None \<Rightarrow> 0)
           | VString s \<Rightarrow> VFloat (f64_of_int (int (length s)))
           | _ \<Rightarrow> VFloat 0)"

section \<open>builtins\_candidates.go\<close>

type_synonym 'o candidate = "string \<times> f64 \<times> f64 \<times> 'o rvalue"

definition candidate_value :: "'o rvalue \<Rightarrow> 'o candidate option" where
  "candidate_value v = (case v of VObject (Candidate s x y p) \<Rightarrow> Some (s, x, y, p) | _ \<Rightarrow> None)"

definition candidate_object :: "'o candidate \<Rightarrow> 'o rvalue" where
  "candidate_object c = (case c of (s, x, y, p) \<Rightarrow> VObject (Candidate s x y p))"

definition candidate_values :: "'o rvalue list \<Rightarrow> 'o candidate list option" where
  "candidate_values vs = those (map candidate_value vs)"

definition candidate_diagnostic :: "string \<Rightarrow> string \<Rightarrow> ('o, 'b) interp \<Rightarrow> ('o, 'b) interp" where
  "candidate_diagnostic func msg st =
     add_diagnostic (bar_diagnostic SevError ''dsl.invalid_candidate_argument'' msg func [] st) st"

definition candidates_new :: "text_case \<Rightarrow> ('o, 'b) native_fn" where
  "candidates_new tc args st =
     (let fail = \<lambda>msg. (VNa, candidate_diagnostic ''candidates.new'' msg st)
      in if length args < 2 then fail ''requires symbol and score''
         else let symbol = upper tc (trim_space (str_of (args ! 0))); score = float_of st (args ! 1)
              in if symbol = [] \<or> \<not> is_finite score
                 then fail ''requires a non-empty symbol and finite score''
                 else let second = (if 3 \<le> length args then float_of st (args ! 2) else 0)
                      in if \<not> is_finite second then fail ''secondary_score must be finite''
                         else (VObject (Candidate symbol score second
                                 (if 4 \<le> length args then args ! 3 else VNa)), st))"

definition candidates_add :: "('o, 'b) native_fn" where
  "candidates_add args st =
     (if length args < 2 then new_array [] st
      else case candidate_value (args ! 1) of
             None \<Rightarrow> new_array (elements st (args ! 0)) st
           | Some c \<Rightarrow> new_array (elements st (args ! 0) @ [candidate_object c]) st)"

definition candidate_less :: "bool \<Rightarrow> 'o candidate \<Rightarrow> 'o candidate \<Rightarrow> bool" where
  "candidate_less descending x y =
     (case (x, y) of ((s1, x1, y1, p1), (s2, x2, y2, p2)) \<Rightarrow>
        if \<not> feq x1 x2 then if descending then x2 < x1 else x1 < x2
        else if \<not> feq y1 y2 then y1 < y2
        else s1 < s2)"

text \<open>
  \<open>sort.SliceStable\<close>. The scores of a candidate are finite, so the order is a strict weak order
  and all stable sorts agree.
\<close>

primrec insert_by :: "('a \<Rightarrow> 'a \<Rightarrow> bool) \<Rightarrow> 'a \<Rightarrow> 'a list \<Rightarrow> 'a list" where
  "insert_by lt x [] = [x]"
| "insert_by lt x (y # ys) = (if lt x y then x # y # ys else y # insert_by lt x ys)"

definition stable_sort :: "('a \<Rightarrow> 'a \<Rightarrow> bool) \<Rightarrow> 'a list \<Rightarrow> 'a list" where
  "stable_sort lt xs = fold (insert_by lt) xs []"

definition candidates_sort :: "text_case \<Rightarrow> ('o, 'b) native_fn" where
  "candidates_sort tc args st =
     (if args = [] then new_array [] st
      else let direction = (if 2 \<le> length args then lower tc (trim_space (str_of (args ! 1))) else ''asc'')
           in if direction \<noteq> ''asc'' \<and> direction \<noteq> ''desc''
              then (VNa, candidate_diagnostic ''candidates.sort'' ''direction must be asc or desc'' st)
              else case candidate_values (elements st (args ! 0)) of
                     None \<Rightarrow> (VNa, candidate_diagnostic ''candidates.sort''
                                ''items must contain only candidates'' st)
                   | Some cs \<Rightarrow>
                       new_array (map candidate_object
                         (stable_sort (candidate_less (direction = ''desc'')) cs)) st)"

definition candidates_take :: "(f64 \<Rightarrow> int) \<Rightarrow> ('o, 'b) native_fn" where
  "candidates_take conv args st =
     (if length args < 2 then new_array [] st
      else let c = float_of st (args ! 1)
           in if \<not> is_finite c \<or> \<not> feq c (math_trunc c)
              then (VNa, candidate_diagnostic ''candidates.take'' ''count must be a finite integer'' st)
              else let n = int_of_float conv c
                   in if n \<le> 0 then new_array [] st
                      else new_array (take (nat n) (elements st (args ! 0))) st)"

definition candidates_contains :: "text_case \<Rightarrow> ('o, 'b) native_fn" where
  "candidates_contains tc args st =
     (if length args < 2 then (VBool False, st)
      else let symbol = upper tc (trim_space (str_of (args ! 1)))
           in case candidate_values (elements st (args ! 0)) of
                None \<Rightarrow> (VNa, candidate_diagnostic ''candidates.contains_symbol''
                           ''items must contain only candidates'' st)
              | Some cs \<Rightarrow> (VBool (list_ex (\<lambda>c. fst c = symbol) cs), st))"

definition candidate_field ::
  "('o candidate \<Rightarrow> 'o rvalue) \<Rightarrow> ('o, 'b) interp \<Rightarrow> 'o rvalue list \<Rightarrow> 'o rvalue" where
  "candidate_field f st args =
     (if args = [] then VNa
      else case candidate_value (args ! 0) of None \<Rightarrow> VNa | Some c \<Rightarrow> f c)"

definition core_native :: "'o native_env \<Rightarrow> string \<Rightarrow> ('o, 'b) native_fn option" where
  "core_native N x =
     (if x = ''snapshot'' then Some (pure_native snapshot_value)
      else if x = ''array.contains'' then Some (pure_native (array_contains (ne_same N)))
      else if x = ''array.percentile'' then Some (pure_native array_percentile)
      else if x = ''len'' then Some (pure_native (len_value (ne_length N)))
      else if x = ''candidates.new'' then Some (candidates_new (ne_case N))
      else if x = ''candidates.add'' then Some candidates_add
      else if x = ''candidates.sort'' then Some (candidates_sort (ne_case N))
      else if x = ''candidates.take'' then Some (candidates_take (ne_int N))
      else if x = ''candidates.contains_symbol'' then Some (candidates_contains (ne_case N))
      else if x = ''candidates.symbol'' then Some (pure_native (candidate_field (\<lambda>(s, x, y, p). VString s)))
      else if x = ''candidates.score'' then Some (pure_native (candidate_field (\<lambda>(s, x, y, p). VFloat x)))
      else if x = ''candidates.secondary_score''
      then Some (pure_native (candidate_field (\<lambda>(s, x, y, p). VFloat y)))
      else if x = ''candidates.payload'' then Some (pure_native (candidate_field (\<lambda>(s, x, y, p). p)))
      else None)"

section \<open>builtins\_str.go\<close>

fun contains_text :: "string \<Rightarrow> string \<Rightarrow> bool" where
  "contains_text [] sub = (sub = [])"
| "contains_text (c # s) sub = (has_prefix (c # s) sub \<or> contains_text s sub)"

text \<open>
  \<open>strings.Split\<close> with a separator that is not empty: the pieces between its occurrences from
  left to right. \<open>cut\<close> is the text before and after the first occurrence.
\<close>

fun cut :: "string \<Rightarrow> string \<Rightarrow> (string \<times> string) option" where
  "cut sep [] = None"
| "cut sep (c # s) =
     (if has_prefix (c # s) sep then Some ([], drop (length sep) (c # s))
      else map_option (\<lambda>(l, r). (c # l, r)) (cut sep s))"

primrec split_upto :: "nat \<Rightarrow> string \<Rightarrow> string \<Rightarrow> string list" where
  "split_upto 0 sep s = [s]"
| "split_upto (Suc n) sep s =
     (case cut sep s of None \<Rightarrow> [s] | Some (l, r) \<Rightarrow> l # split_upto n sep r)"

definition split_text :: "string \<Rightarrow> string \<Rightarrow> string list" where
  "split_text sep s = split_upto (length s) sep s"

primrec join_text :: "string \<Rightarrow> string list \<Rightarrow> string" where
  "join_text sep [] = []"
| "join_text sep (s # ss) = (if ss = [] then s else s @ sep @ join_text sep ss)"

definition str_contains :: "('o, 'b) interp \<Rightarrow> 'o rvalue list \<Rightarrow> 'o rvalue" where
  "str_contains st args =
     (if length args < 2 then VBool False
      else VBool (contains_text (str_of (args ! 0)) (str_of (args ! 1))))"

definition str_length :: "('o, 'b) interp \<Rightarrow> 'o rvalue list \<Rightarrow> 'o rvalue" where
  "str_length st args =
     (if args = [] then VFloat 0 else VFloat (f64_of_int (int (length (str_of (args ! 0))))))"

definition str_case :: "(string \<Rightarrow> string) \<Rightarrow> ('o, 'b) interp \<Rightarrow> 'o rvalue list \<Rightarrow> 'o rvalue" where
  "str_case f st args = (if args = [] then VString [] else VString (f (str_of (args ! 0))))"

definition str_split :: "('o, 'b) native_fn" where
  "str_split args st =
     (if args = [] then new_array [] st
      else new_array (map VString (split_text (arg_str args 1 '','') (str_of (args ! 0)))) st)"

definition str_join :: "('o, 'b) interp \<Rightarrow> 'o rvalue list \<Rightarrow> 'o rvalue" where
  "str_join st args =
     (if args = [] \<or> \<not> is_array (args ! 0) then VString []
      else VString (join_text (arg_str args 1 '','') (map (string_of st) (elements st (args ! 0)))))"

definition str_tostring :: "('o, 'b) interp \<Rightarrow> 'o rvalue list \<Rightarrow> 'o rvalue" where
  "str_tostring st args = (if args = [] then VString [] else VString (string_of st (args ! 0)))"

definition str_format ::
  "(string \<Rightarrow> (string + f64) list \<Rightarrow> string) \<Rightarrow> ('o, 'b) interp \<Rightarrow> 'o rvalue list \<Rightarrow> 'o rvalue" where
  "str_format sprintf st args =
     (case args of
        [] \<Rightarrow> VString []
      | f # vs \<Rightarrow>
          VString (sprintf (str_of f)
            (map (\<lambda>v. if series_ptr v \<noteq> None then Inr (float_of st v) else Inl (string_of st v)) vs)))"

definition str_native :: "'o native_env \<Rightarrow> string \<Rightarrow> ('o, 'b) native_fn option" where
  "str_native N x =
     (if x = ''str.contains'' then Some (pure_native str_contains)
      else if x = ''str.length'' then Some (pure_native str_length)
      else if x = ''str.upper'' then Some (pure_native (str_case (upper (ne_case N))))
      else if x = ''str.lower'' then Some (pure_native (str_case (lower (ne_case N))))
      else if x = ''str.split'' then Some str_split
      else if x = ''str.join'' then Some (pure_native str_join)
      else if x = ''str.tostring'' then Some (pure_native str_tostring)
      else if x = ''str.format'' then Some (pure_native (str_format (ne_sprintf N)))
      else None)"

section \<open>builtins\_input.go\<close>

text \<open>The default value and the title, the first two arguments of every input function.\<close>

definition input_default :: "'o rvalue \<Rightarrow> 'o rvalue list \<Rightarrow> 'o rvalue" where
  "input_default d args = (if args = [] then d else args ! 0)"

definition input_override :: "(string \<Rightarrow> 'a option) \<Rightarrow> 'o rvalue list \<Rightarrow> 'a option" where
  "input_override inputs args =
     (if length args < 2 \<or> str_of (args ! 1) = [] then None else inputs (str_of (args ! 1)))"

definition input_number :: "('o, 'b) interp \<Rightarrow> 'o rvalue list \<Rightarrow> 'o rvalue" where
  "input_number st args =
     (case input_override (ip_inputs st) args of
        Some v \<Rightarrow> VFloat v
      | None \<Rightarrow> input_default VNa args)"

definition input_int :: "(f64 \<Rightarrow> int) \<Rightarrow> ('o, 'b) interp \<Rightarrow> 'o rvalue list \<Rightarrow> 'o rvalue" where
  "input_int conv st args =
     (case input_override (ip_inputs st) args of
        Some v \<Rightarrow> VFloat (f64_of_int (int_of_float conv v))
      | None \<Rightarrow>
          let d = input_default VNa args
          in if is_na_value d then d else VFloat (f64_of_int (int_of_float conv (float_of st d))))"

definition input_bool :: "('o, 'b) interp \<Rightarrow> 'o rvalue list \<Rightarrow> 'o rvalue" where
  "input_bool st args =
     (case input_override (ip_inputs st) args of
        Some v \<Rightarrow> VBool (\<not> feq v 0)
      | None \<Rightarrow> input_default (VBool False) args)"

definition input_string :: "('o, 'b) interp \<Rightarrow> 'o rvalue list \<Rightarrow> 'o rvalue" where
  "input_string st args =
     (case input_override (ip_input_strings st) args of
        Some s \<Rightarrow> VString s
      | None \<Rightarrow>
          (case input_override (ip_inputs st) args of
             Some v \<Rightarrow> VFloat v
           | None \<Rightarrow> input_default (VString []) args))"

definition input_native :: "'o native_env \<Rightarrow> string \<Rightarrow> ('o, 'b) native_fn option" where
  "input_native N x =
     (if x = ''input'' \<or> x = ''input.float'' then Some (pure_native input_number)
      else if x = ''input.int'' then Some (pure_native (input_int (ne_int N)))
      else if x = ''input.bool'' then Some (pure_native input_bool)
      else if x = ''input.string'' then Some (pure_native input_string)
      else None)"

section \<open>builtins\_ref.go\<close>

definition ref_key :: "string \<Rightarrow> string" where
  "ref_key name = ''_ref_'' @ name"

definition store_varip :: "string \<Rightarrow> 'o rvalue option \<Rightarrow> ('o, 'b) interp \<Rightarrow> ('o, 'b) interp" where
  "store_varip x v st = st\<lparr>ip_varip := (ip_varip st)(x := v)\<rparr>"

definition ref_set :: "('o, 'b) native_fn" where
  "ref_set args st =
     (let name = arg_str args 0 []; v = (if 2 \<le> length args then args ! 1 else VNa)
      in if name = [] then (VNa, st) else (v, store_varip (ref_key name) (Some v) st))"

definition ref_get :: "('o, 'b) interp \<Rightarrow> 'o rvalue list \<Rightarrow> 'o rvalue" where
  "ref_get st args =
     (let name = arg_str args 0 []
      in if name = [] then VNa
         else case ip_varip st (ref_key name) of Some v \<Rightarrow> v | None \<Rightarrow> VNa)"

definition ref_has :: "('o, 'b) interp \<Rightarrow> 'o rvalue list \<Rightarrow> 'o rvalue" where
  "ref_has st args =
     (let name = arg_str args 0 []
      in if name = [] then VFloat 0
         else VFloat (if ip_varip st (ref_key name) \<noteq> None then 1 else 0))"

definition ref_clear :: "('o, 'b) native_fn" where
  "ref_clear args st =
     (let name = arg_str args 0 []
      in if name = [] \<or> ip_varip st (ref_key name) = None then (VFloat 0, st)
         else (VFloat 1, store_varip (ref_key name) None st))"

definition ref_add :: "f64 \<Rightarrow> ('o, 'b) native_fn" where
  "ref_add d args st =
     (let name = arg_str args 0 []
      in if name = [] then (VNa, st)
         else let cur = (case ip_varip st (ref_key name) of Some v \<Rightarrow> float_of st v | None \<Rightarrow> 0)
              in (VFloat (cur + d), store_varip (ref_key name) (Some (VFloat (cur + d))) st))"

definition ref_native :: "string \<Rightarrow> ('o, 'b) native_fn option" where
  "ref_native x =
     (if x = ''ref.set'' then Some ref_set
      else if x = ''ref.get'' then Some (pure_native ref_get)
      else if x = ''ref.has'' then Some (pure_native ref_has)
      else if x = ''ref.clear'' then Some ref_clear
      else if x = ''ref.inc'' then Some (ref_add 1)
      else if x = ''ref.dec'' then Some (ref_add (-1))
      else None)"

section \<open>builtins\_trace.go\<close>

definition max_trace_diagnostics :: nat where
  "max_trace_diagnostics = 10000"

definition trace_truncated_key :: string where
  "trace_truncated_key = ''__trace_truncated__''"

definition trace_emit :: "text_case \<Rightarrow> ('o, 'b) native_fn" where
  "trace_emit tc args st =
     (if ip_diagnostics st = None \<or> length args < 3 then (VNa, st)
      else if max_trace_diagnostics \<le> length (ip_trace_keys st)
      then if trace_truncated_key \<in> set (ip_trace_keys st) then (VNa, st)
           else (VNa, add_diagnostic
                   (bar_diagnostic SevWarning ''dsl.trace.truncated''
                      ''trace diagnostics exceeded the configured limit'' ''trace.emit'' [] st)
                   (st\<lparr>ip_trace_keys := trace_truncated_key # ip_trace_keys st\<rparr>))
      else let stage = trim_space (str_of (args ! 0));
               symbol = upper tc (trim_space (str_of (args ! 1)));
               reason = trim_space (str_of (args ! 2));
               key = itoa (ip_bar_index st) @ ''|'' @ stage @ ''|'' @ symbol @ ''|'' @ reason
           in if stage = [] \<or> reason = [] \<or> key \<in> set (ip_trace_keys st) then (VNa, st)
              else (VNa, add_diagnostic
                      (bar_diagnostic SevInfo (''dsl.trace.'' @ stage)
                         (trim_space (stage @ '' '' @ symbol @ '': '' @ reason)) ''trace.emit'' [] st)
                      (st\<lparr>ip_trace_keys := key # ip_trace_keys st\<rparr>)))"

end
