(* ===== verification/Dsl_Builtins_Ta.thy ===== *)
theory Dsl_Builtins_Ta
  imports Dsl_Builtins
begin

text \<open>
  The technical indicators of the script language (\<open>pkg/dsl/runtime/builtins_ta.go\<close>). Each one reads
  the history of its source series and stores its value in a series of its own, whose name is
  computed from the function and its arguments.
\<close>

section \<open>Names of captured series\<close>

text \<open>The verb \<open>%.12g\<close>.\<close>

definition format_g12 :: "f64 \<Rightarrow> string" where
  "format_g12 x =
     (case x of
        FFin q \<Rightarrow>
          let d = decimal_slice 12 \<bar>q\<bar> (rhe (\<bar>q\<bar> / 10 powi (dec_exp \<bar>q\<bar> - 11))); e = snd d - 1
          in (if q < 0 then ''-'' else [])
             @ (if e < - 4 \<or> 12 \<le> e then digits_e d else digits_f d)
      | _ \<Rightarrow> format_g x)"

definition key_part :: "'o native_env \<Rightarrow> 'o rvalue \<Rightarrow> string" where
  "key_part N v =
     (case v of
        VSeries a \<Rightarrow> '':s:'' @ ne_pointer N a
      | VFloat x \<Rightarrow> '':f:'' @ format_g12 x
      | VBool b \<Rightarrow> '':b:'' @ (if b then ''true'' else ''false'')
      | VString s \<Rightarrow> '':str:'' @ s
      | VNa \<Rightarrow> '':tag:0''
      | VArray a \<Rightarrow> '':tag:5''
      | VObject b \<Rightarrow> '':tag:6''
      | VFn a \<Rightarrow> '':tag:7''
      | VExpr e \<Rightarrow> '':tag:8'')"

definition ta_series_key :: "'o native_env \<Rightarrow> string \<Rightarrow> 'o rvalue list \<Rightarrow> string" where
  "ta_series_key N name args = ''__ta__:'' @ name @ concat (map (key_part N) args)"

definition ta_series_value :: "'o native_env \<Rightarrow> string \<Rightarrow> f64 \<Rightarrow> ('o, 'b) native_fn" where
  "ta_series_value N name v args st = capture_series (ta_series_key N name args) v st"

definition previous_captured :: "('o, 'b) interp \<Rightarrow> string \<Rightarrow> f64" where
  "previous_captured st key =
     (case ip_series_map st key of
        None \<Rightarrow> FNaN
      | Some a \<Rightarrow> if series_of st a = [] then FNaN else series_current (series_of st a))"

definition current_captured :: "('o, 'b) interp \<Rightarrow> string \<Rightarrow> 'o rvalue option" where
  "current_captured st key =
     (if ip_bar_index st \<le> 0 then None
      else case ip_series_map st key of
             None \<Rightarrow> None
           | Some a \<Rightarrow> if int (length (series_of st a)) < ip_bar_index st then None else Some (VSeries a))"

definition capture_rsi :: "'o native_env \<Rightarrow> f64 \<Rightarrow> f64 \<Rightarrow> f64 \<Rightarrow> ('o, 'b) native_fn" where
  "capture_rsi N v gain loss args st =
     ta_series_value N ''ta.rsi'' v args
       (snd (ta_series_value N ''ta.rsi.avgLoss'' loss args
         (snd (ta_series_value N ''ta.rsi.avgGain'' gain args st))))"

section \<open>Windows\<close>

text \<open>The last \<open>n\<close> values, the newest first.\<close>

definition last_window :: "f64 list \<Rightarrow> nat \<Rightarrow> f64 list" where
  "last_window s n = map (\<lambda>i. series_at s (int i)) [0..<n]"

definition arg_length :: "'o native_env \<Rightarrow> ('o, 'b) interp \<Rightarrow> 'o rvalue list \<Rightarrow> nat \<Rightarrow> int" where
  "arg_length N st args i = int_of_float (ne_int N) (float_of st (args ! i))"

text \<open>
  The guard most indicators share: enough arguments, a series that is long enough and a positive
  length.
\<close>

definition source_window ::
  "'o native_env \<Rightarrow> nat \<Rightarrow> ('o, 'b) interp \<Rightarrow> 'o rvalue list \<Rightarrow> f64 list option" where
  "source_window N arity st args =
     (if length args < arity then None
      else let n = arg_length N st args 1
           in case series_ptr (args ! 0) of
                None \<Rightarrow> None
              | Some a \<Rightarrow> if n \<le> 0 \<or> int (length (series_of st a)) < n then None
                          else Some (last_window (series_of st a) (nat n)))"

definition ta_windowed ::
  "'o native_env \<Rightarrow> string \<Rightarrow> (f64 list \<Rightarrow> f64) \<Rightarrow> ('o, 'b) native_fn" where
  "ta_windowed N name f args st =
     (case source_window N 2 st args of
        None \<Rightarrow> (VNa, st)
      | Some xs \<Rightarrow> ta_series_value N name (f xs) args st)"

definition window_mean :: "f64 list \<Rightarrow> f64" where
  "window_mean xs = float_sum xs / f64_of_nat (length xs)"

definition window_stdev :: "f64 list \<Rightarrow> f64" where
  "window_stdev xs =
     (let m = window_mean xs
      in math_sqrt (float_sum (map (\<lambda>x. (x - m) * (x - m)) xs) / f64_of_nat (length xs)))"

definition window_highest :: "f64 list \<Rightarrow> f64" where
  "window_highest xs = foldl (\<lambda>m v. if m < v then v else m) (FInf True) xs"

definition window_lowest :: "f64 list \<Rightarrow> f64" where
  "window_lowest xs = foldl (\<lambda>m v. if v < m then v else m) (FInf False) xs"

definition window_wma :: "f64 list \<Rightarrow> f64" where
  "window_wma xs =
     (let n = length xs; ws = map (\<lambda>i. f64_of_nat (n - i)) [0..<n]
      in float_sum (map2 (*) xs ws) / float_sum ws)"

definition window_percentrank :: "f64 list \<Rightarrow> f64" where
  "window_percentrank xs =
     f64_of_nat (length (filter (\<lambda>v. v \<le> hd xs) (tl xs)))
       / f64_of_int (int (length xs) - 1) * FFin 100"

section \<open>Moving averages and oscillators\<close>

definition ema_of :: "int \<Rightarrow> f64 list \<Rightarrow> f64" where
  "ema_of n xs =
     (let k = FFin 2 / f64_of_int (n + 1)
      in foldl (\<lambda>ema x. x * k + ema * (1 - k)) (hd xs) (tl xs))"

definition ta_ema :: "'o native_env \<Rightarrow> ('o, 'b) native_fn" where
  "ta_ema N args st =
     (if length args < 2 then (VNa, st)
      else let n = arg_length N st args 1
           in case series_ptr (args ! 0) of
                None \<Rightarrow> (VNa, st)
              | Some a \<Rightarrow>
                  if n \<le> 0 \<or> series_of st a = [] then (VNa, st)
                  else ta_series_value N ''ta.ema'' (ema_of n (series_of st a)) args st)"

text \<open>The changes of the first \<open>n + 1\<close> values that are numbers: gains, losses and their count.\<close>

definition ta_rsi_seed :: "f64 list \<Rightarrow> nat \<Rightarrow> f64 \<times> f64 \<times> nat" where
  "ta_rsi_seed data n =
     foldl (\<lambda>(g, l, k) i.
         if is_nan (data ! i) \<or> is_nan (data ! (i - 1)) then (g, l, k)
         else let d = data ! i - data ! (i - 1)
              in if 0 < d then (g + d, l, Suc k) else (g, l - d, Suc k))
       (0, 0, 0) [1..<Suc n]"

definition rsi_of :: "f64 \<Rightarrow> f64 \<Rightarrow> f64" where
  "rsi_of gain loss =
     (if feq loss 0 then FFin 100 else FFin 100 - FFin 100 / (1 + gain / loss))"

definition rsi_smooth :: "nat \<Rightarrow> f64 \<Rightarrow> f64 \<Rightarrow> f64" where
  "rsi_smooth n avg x = (avg * f64_of_int (int n - 1) + x) / f64_of_nat n"

definition rsi_step :: "'o native_env \<Rightarrow> f64 list \<Rightarrow> nat \<Rightarrow> ('o, 'b) native_fn" where
  "rsi_step N data n args st =
     (let gain = previous_captured st (ta_series_key N ''ta.rsi.avgGain'' args);
          loss = previous_captured st (ta_series_key N ''ta.rsi.avgLoss'' args);
          m = length data
      in if m = n + 1 \<or> is_nan gain \<or> is_nan loss
         then case ta_rsi_seed data n of
                (g, l, k) \<Rightarrow>
                  if k < n then capture_rsi N FNaN FNaN FNaN args st
                  else let g = g / f64_of_nat n; l = l / f64_of_nat n
                       in capture_rsi N (rsi_of g l) g l args st
         else if is_nan (data ! (m - 1)) \<or> is_nan (data ! (m - 2))
         then capture_rsi N (previous_captured st (ta_series_key N ''ta.rsi'' args)) gain loss args st
         else let d = data ! (m - 1) - data ! (m - 2);
                  g = rsi_smooth n gain (if 0 < d then d else 0);
                  l = rsi_smooth n loss (if 0 < d then 0 else - d)
              in capture_rsi N (rsi_of g l) g l args st)"

definition ta_rsi :: "'o native_env \<Rightarrow> ('o, 'b) native_fn" where
  "ta_rsi N args st =
     (if length args < 2 then (VNa, st)
      else let n = arg_length N st args 1
           in (case series_ptr (args ! 0) of
                 None \<Rightarrow> capture_rsi N FNaN FNaN FNaN args st
               | Some a \<Rightarrow>
                   if n \<le> 0 \<or> int (length (series_of st a)) < n + 1
                   then capture_rsi N FNaN FNaN FNaN args st
                   else (case current_captured st (ta_series_key N ''ta.rsi'' args) of
                           Some v \<Rightarrow> (v, st)
                         | None \<Rightarrow> rsi_step N (series_of st a) (nat n) args st)))"

section \<open>Indicators of a bar\<close>

text \<open>
  The series of the highs, the lows and the closes and the length: four arguments, or the
  series of the bar and one argument.
\<close>

definition bar_sources ::
  "'o native_env \<Rightarrow> ('o, 'b) interp \<Rightarrow> 'o rvalue list
     \<Rightarrow> nat option \<times> nat option \<times> nat option \<times> int" where
  "bar_sources N st args =
     (if 4 \<le> length args
      then (series_ptr (args ! 0), series_ptr (args ! 1), series_ptr (args ! 2), arg_length N st args 3)
      else (ip_series_map st ''high'', ip_series_map st ''low'', ip_series_map st ''close'',
            arg_length N st args 0))"

definition long_enough :: "('o, 'b) interp \<Rightarrow> int \<Rightarrow> nat option \<Rightarrow> bool" where
  "long_enough st n p = (case p of None \<Rightarrow> False | Some a \<Rightarrow> n \<le> int (length (series_of st a)))"

definition value_at :: "('o, 'b) interp \<Rightarrow> nat option \<Rightarrow> nat \<Rightarrow> f64" where
  "value_at st p i = (case p of None \<Rightarrow> FNaN | Some a \<Rightarrow> series_at (series_of st a) (int i))"

definition true_range_of :: "f64 \<Rightarrow> f64 \<Rightarrow> f64 \<Rightarrow> f64" where
  "true_range_of h l c = float_max (h - l) (float_max (math_abs (h - c)) (math_abs (l - c)))"

definition ta_atr :: "'o native_env \<Rightarrow> ('o, 'b) native_fn" where
  "ta_atr N args st =
     (if args = [] then (VNa, st)
      else case bar_sources N st args of
        (h, l, c, n) \<Rightarrow>
          if n \<le> 0 \<or> \<not> long_enough st (n + 1) h \<or> \<not> long_enough st (n + 1) l
             \<or> \<not> long_enough st (n + 1) c
          then (VNa, st)
          else ta_series_value N ''ta.atr''
                 (float_sum (map (\<lambda>i. true_range_of (value_at st h i) (value_at st l i)
                                         (value_at st c (Suc i))) [0..<nat n])
                  / f64_of_int n) args st)"

definition typical_window ::
  "('o, 'b) interp \<Rightarrow> nat option \<times> nat option \<times> nat option \<times> int \<Rightarrow> f64 list option" where
  "typical_window st src =
     (case src of
        (h, l, c, n) \<Rightarrow>
          if n \<le> 0 \<or> \<not> long_enough st n h \<or> \<not> long_enough st n l \<or> \<not> long_enough st n c then None
          else Some (map (\<lambda>i. (value_at st h i + value_at st l i + value_at st c i) / FFin 3)
                       [0..<nat n]))"

definition cci_of :: "f64 list \<Rightarrow> f64 option" where
  "cci_of xs =
     (let n = f64_of_nat (length xs);
          m = float_sum xs / n;
          d = float_sum (map (\<lambda>x. math_abs (x - m)) xs) / n
      in if feq d 0 then None else Some ((hd xs - m) / (rnd (15 / 1000) * d)))"

definition ta_cci :: "'o native_env \<Rightarrow> ('o, 'b) native_fn" where
  "ta_cci N args st =
     (case (if args = [] then None
            else if length args = 1 \<or> 4 \<le> length args then typical_window st (bar_sources N st args)
            else source_window N 2 st args) of
        None \<Rightarrow> (VNa, st)
      | Some xs \<Rightarrow>
          (case cci_of xs of
             None \<Rightarrow> (VNa, st)
           | Some v \<Rightarrow> ta_series_value N ''ta.cci'' v args st))"

section \<open>Comparisons and history\<close>

definition ta_cross ::
  "(f64 \<Rightarrow> f64 \<Rightarrow> bool) \<Rightarrow> (f64 \<Rightarrow> f64 \<Rightarrow> bool) \<Rightarrow> ('o, 'b) interp \<Rightarrow> 'o rvalue list \<Rightarrow> 'o rvalue" where
  "ta_cross now earlier st args =
     (if length args < 2 then VNa
      else (case (series_ptr (args ! 0), series_ptr (args ! 1)) of
              (Some a, Some b) \<Rightarrow>
                let s = series_of st a; t = series_of st b
                in VBool (2 \<le> length s \<and> 2 \<le> length t \<and> now (series_at s 0) (series_at t 0)
                     \<and> earlier (series_at s 1) (series_at t 1))
            | _ \<Rightarrow> VBool False))"

definition ta_change :: "'o native_env \<Rightarrow> ('o, 'b) native_fn" where
  "ta_change N args st =
     (if args = [] then (VNa, st)
      else let n = (if 2 \<le> length args then arg_length N st args 1 else 1)
           in case series_ptr (args ! 0) of
                None \<Rightarrow> (VNa, st)
              | Some a \<Rightarrow>
                  let s = series_of st a
                  in if int (length s) \<le> n then (VNa, st)
                     else ta_series_value N ''ta.change'' (series_at s 0 - series_at s n) args st)"

definition ta_cum :: "'o native_env \<Rightarrow> ('o, 'b) native_fn" where
  "ta_cum N args st =
     (case args of
        [] \<Rightarrow> (VNa, st)
      | v # vs \<Rightarrow>
          (case series_ptr v of
             None \<Rightarrow> (VNa, st)
           | Some a \<Rightarrow>
               if series_of st a = [] then (VNa, st)
               else ta_series_value N ''ta.cum'' (float_sum (series_of st a)) args st))"

definition truthy :: "f64 \<Rightarrow> bool" where
  "truthy v \<longleftrightarrow> \<not> is_nan v \<and> \<not> feq v 0"

definition ta_barssince :: "('o, 'b) interp \<Rightarrow> 'o rvalue list \<Rightarrow> 'o rvalue" where
  "ta_barssince st args =
     (case args of
        [] \<Rightarrow> VNa
      | v # vs \<Rightarrow>
          (case series_ptr v of
             None \<Rightarrow> VNa
           | Some a \<Rightarrow>
               let s = series_of st a
               in (case filter (\<lambda>i. truthy (series_at s (int i))) [0..<length s] of
                     [] \<Rightarrow> VNa
                   | i # is \<Rightarrow> VFloat (f64_of_nat i))))"

definition ta_valuewhen :: "'o native_env \<Rightarrow> ('o, 'b) interp \<Rightarrow> 'o rvalue list \<Rightarrow> 'o rvalue" where
  "ta_valuewhen N st args =
     (if length args < 3 then VNa
      else let k = arg_length N st args 2
           in case (series_ptr (args ! 0), series_ptr (args ! 1)) of
                (Some a, Some b) \<Rightarrow>
                  let s = series_of st a; t = series_of st b;
                      hits = filter (\<lambda>i. truthy (series_at s (int i))) [0..<min (length s) (length t)]
                  in if 0 \<le> k \<and> k < int (length hits) then VFloat (series_at t (int (hits ! nat k)))
                     else VNa
              | _ \<Rightarrow> VNa)"

definition ta_percentrank_valid :: "'o native_env \<Rightarrow> ('o, 'b) native_fn" where
  "ta_percentrank_valid N args st =
     (case source_window N 3 st args of
        None \<Rightarrow> (VNa, st)
      | Some xs \<Rightarrow>
          let need = arg_length N st args 2; vs = filter (\<lambda>v. \<not> is_nan v) (tl xs)
          in if need < 2 \<or> is_nan (hd xs) \<or> 1 + int (length vs) < need then (VNa, st)
             else ta_series_value N ''ta.percentrank_valid''
                    (f64_of_nat (length (filter (\<lambda>v. v \<le> hd xs) vs)) / f64_of_nat (length vs)
                     * FFin 100) args st)"

section \<open>Bollinger bands\<close>

text \<open>The multiplier, the basis and the deviation; the guard includes the multiplier.\<close>

definition band_parts ::
  "'o native_env \<Rightarrow> ('o, 'b) interp \<Rightarrow> 'o rvalue list \<Rightarrow> (f64 \<times> f64 \<times> f64) option" where
  "band_parts N st args =
     (case source_window N 3 st args of
        None \<Rightarrow> None
      | Some xs \<Rightarrow>
          if is_nan (float_of st (args ! 2)) then None
          else Some (float_of st (args ! 2), window_mean xs, window_stdev xs))"

definition ta_bb :: "'o native_env \<Rightarrow> ('o, 'b) native_fn" where
  "ta_bb N args st =
     (case band_parts N st args of
        None \<Rightarrow> (VNa, st)
      | Some (m, b, d) \<Rightarrow> new_array [VFloat (b + m * d), VFloat b, VFloat (b - m * d)] st)"

definition ta_band :: "'o native_env \<Rightarrow> string \<Rightarrow> (f64 \<Rightarrow> f64 \<Rightarrow> f64) \<Rightarrow> ('o, 'b) native_fn" where
  "ta_band N name f args st =
     (case band_parts N st args of
        None \<Rightarrow> (VNa, st)
      | Some (m, b, d) \<Rightarrow> ta_series_value N name (f b (m * d)) args st)"

section \<open>The names\<close>

definition ta_native :: "'o native_env \<Rightarrow> string \<Rightarrow> ('o, 'b) native_fn option" where
  "ta_native N x =
     (if x = ''ta.sma'' then Some (ta_windowed N x window_mean)
      else if x = ''ta.ema'' then Some (ta_ema N)
      else if x = ''ta.rsi'' then Some (ta_rsi N)
      else if x = ''ta.atr'' then Some (ta_atr N)
      else if x = ''ta.highest'' then Some (ta_windowed N x window_highest)
      else if x = ''ta.lowest'' then Some (ta_windowed N x window_lowest)
      else if x = ''ta.stdev'' then Some (ta_windowed N x window_stdev)
      else if x = ''ta.cci'' then Some (ta_cci N)
      else if x = ''ta.crossover'' then Some (pure_native (ta_cross (\<lambda>a b. b < a) (\<lambda>a b. a \<le> b)))
      else if x = ''ta.crossunder'' then Some (pure_native (ta_cross (\<lambda>a b. a < b) (\<lambda>a b. b \<le> a)))
      else if x = ''ta.change'' then Some (ta_change N)
      else if x = ''ta.cum'' then Some (ta_cum N)
      else if x = ''ta.wma'' then Some (ta_windowed N x window_wma)
      else if x = ''ta.bb'' then Some (ta_bb N)
      else if x = ''ta.bb_upper'' then Some (ta_band N x (+))
      else if x = ''ta.bb_lower'' then Some (ta_band N x (-))
      else if x = ''ta.barssince'' then Some (pure_native ta_barssince)
      else if x = ''ta.valuewhen'' then Some (pure_native (ta_valuewhen N))
      else if x = ''ta.percentrank'' then Some (ta_windowed N x window_percentrank)
      else if x = ''ta.percentrank_valid'' then Some (ta_percentrank_valid N)
      else None)"

end
