(* ===== verification/Dsl_Builtins_Alpha.thy ===== *)
theory Dsl_Builtins_Alpha
  imports Dsl_Builtins_Ta
begin

text \<open>
  The alpha operators of the script language (\<open>pkg/dsl/runtime/builtins_alpha.go\<close>): ranks, moments
  and extremes of the last values of a series, leaving out the values that are not numbers. A
  window too large for a slice, which panics in Go, is the whole series here.
\<close>

section \<open>Windows\<close>

definition series_arg :: "'o rvalue list \<Rightarrow> nat \<Rightarrow> ('o, 'b) interp \<Rightarrow> f64 list option" where
  "series_arg args i st = map_option (series_of st) (series_ptr (args ! i))"

definition raw_last_n :: "f64 list \<Rightarrow> int \<Rightarrow> f64 list" where
  "raw_last_n s n = map (\<lambda>i. series_at s (int i)) [0..<min (nat n) (length s)]"

definition numbers :: "f64 list \<Rightarrow> f64 list" where
  "numbers xs = filter (\<lambda>v. \<not> is_nan v) xs"

definition last_n :: "f64 list \<Rightarrow> int \<Rightarrow> f64 list" where
  "last_n s n = numbers (raw_last_n s n)"

definition paired_last_n :: "f64 list \<Rightarrow> f64 list \<Rightarrow> int \<Rightarrow> f64 list \<times> f64 list" where
  "paired_last_n sx sy w =
     (let ps = filter (\<lambda>(x, y). \<not> is_nan x \<and> \<not> is_nan y) (zip (raw_last_n sx w) (raw_last_n sy w))
      in (map fst ps, map snd ps))"

section \<open>Statistics\<close>

definition min_of :: "f64 list \<Rightarrow> f64" where
  "min_of xs = foldl (\<lambda>m v. if v < m then v else m) (hd xs) (tl xs)"

definition max_of :: "f64 list \<Rightarrow> f64" where
  "max_of xs = foldl (\<lambda>m v. if m < v then v else m) (hd xs) (tl xs)"

definition median_of :: "f64 list \<Rightarrow> f64" where
  "median_of xs =
     (let s = sort_floats xs; n = length s
      in if even n then (s ! (n div 2 - 1) + s ! (n div 2)) / FFin 2 else s ! (n div 2))"

definition mean_of :: "f64 list \<Rightarrow> f64" where
  "mean_of xs =
     (let ns = numbers xs in if ns = [] then FNaN else float_sum ns / f64_of_nat (length ns))"

definition stddev_of :: "f64 list \<Rightarrow> f64 \<Rightarrow> f64" where
  "stddev_of xs m =
     (let ns = numbers xs
      in if length ns < 2 then 0
         else math_sqrt (float_sum (map (\<lambda>v. (v - m) * (v - m)) ns) / f64_of_nat (length ns - 1)))"

definition skewness_of :: "f64 list \<Rightarrow> f64" where
  "skewness_of xs =
     (let m = mean_of xs; sd = stddev_of xs m
      in if feq sd 0 then 0
         else float_sum (map (\<lambda>v. let d = (v - m) / sd in d * d * d) xs) / f64_of_nat (length xs))"

definition kurtosis_of :: "f64 list \<Rightarrow> f64" where
  "kurtosis_of xs =
     (let m = mean_of xs; sd = stddev_of xs m
      in if feq sd 0 then 0
         else float_sum (map (\<lambda>v. let d = (v - m) / sd in d * d * d * d) xs) / f64_of_nat (length xs)
                - FFin 3)"

definition pearson_of :: "f64 list \<Rightarrow> f64 list \<Rightarrow> f64" where
  "pearson_of xs ys =
     (if length xs < 2 \<or> length xs \<noteq> length ys then FNaN
      else let mx = mean_of xs; my = mean_of ys;
               dx = map (\<lambda>x. x - mx) xs; dy = map (\<lambda>y. y - my) ys;
               d = math_sqrt (float_sum (map2 (*) dx dx) * float_sum (map2 (*) dy dy))
           in if feq d 0 then 0 else float_sum (map2 (*) dx dy) / d)"

definition cov_of :: "f64 list \<Rightarrow> f64 list \<Rightarrow> f64" where
  "cov_of xs ys =
     (if length xs < 2 \<or> length xs \<noteq> length ys then FNaN
      else let mx = mean_of xs; my = mean_of ys
           in float_sum (map2 (\<lambda>x y. (x - mx) * (y - my)) xs ys) / f64_of_nat (length xs - 1))"

section \<open>Operators\<close>

definition alpha_rank :: "('o, 'b) interp \<Rightarrow> 'o rvalue list \<Rightarrow> 'o rvalue" where
  "alpha_rank st args =
     (if args = [] then VNa
      else case series_arg args 0 st of
             None \<Rightarrow> VFloat (FFin (1 / 2))
           | Some s \<Rightarrow>
               let cur = series_current s; vs = numbers s
               in if is_nan cur \<or> vs = [] then VNa
                  else VFloat (f64_of_nat (length (filter (\<lambda>v. v < cur) vs)) / f64_of_nat (length vs)))"

text \<open>The guard the operators on one window share.\<close>

definition alpha_window ::
  "'o native_env \<Rightarrow> (f64 list \<Rightarrow> int \<Rightarrow> f64 option) \<Rightarrow> ('o, 'b) interp \<Rightarrow> 'o rvalue list
     \<Rightarrow> 'o rvalue" where
  "alpha_window N f st args =
     (if length args < 2 then VNa
      else case series_arg args 0 st of
             None \<Rightarrow> VNa
           | Some s \<Rightarrow>
               let w = arg_length N st args 1
               in if w \<le> 0 then VNa
                  else (case f s w of None \<Rightarrow> VNa | Some x \<Rightarrow> VFloat x))"

definition zscore :: "f64 list \<Rightarrow> int \<Rightarrow> f64 option" where
  "zscore s w =
     (let cur = series_current s; vs = last_n s w
      in if is_nan cur \<or> length vs < 2 then None
         else let m = mean_of vs; sd = stddev_of vs m
              in Some (if feq sd 0 then 0 else (cur - m) / sd))"

definition decay_linear :: "f64 list \<Rightarrow> int \<Rightarrow> f64 option" where
  "decay_linear s w =
     (let raw = raw_last_n s w; n = length raw;
          ws = filter (\<lambda>(v, k). \<not> is_nan v) (zip raw (map (\<lambda>i. f64_of_nat (n - i)) [0..<n]));
          total = float_sum (map snd ws)
      in if n = 0 \<or> feq total 0 then None
         else Some (float_sum (map (\<lambda>(v, k). v * k) ws) / total))"

definition ts_rank :: "f64 list \<Rightarrow> int \<Rightarrow> f64 option" where
  "ts_rank s w =
     (let cur = series_current s; vs = last_n s w
      in if is_nan cur \<or> vs = [] then None
         else Some (f64_of_nat (length (filter (\<lambda>v. v < cur) vs)) / f64_of_nat (length vs)))"

definition ts_delta :: "f64 list \<Rightarrow> int \<Rightarrow> f64 option" where
  "ts_delta s p =
     (let cur = series_current s; prev = series_at s p
      in if int (length s) \<le> p \<or> is_nan cur \<or> is_nan prev then None else Some (cur - prev))"

definition log_return :: "(f64 \<Rightarrow> f64) \<Rightarrow> f64 list \<Rightarrow> int \<Rightarrow> f64 option" where
  "log_return lg s p =
     (let cur = series_current s; prev = series_at s p
      in if int (length s) \<le> p \<or> is_nan cur \<or> is_nan prev \<or> feq prev 0 then None
         else Some (lg (cur / prev)))"

definition window_reducer :: "nat \<Rightarrow> (f64 list \<Rightarrow> f64) \<Rightarrow> f64 list \<Rightarrow> int \<Rightarrow> f64 option" where
  "window_reducer k f s w = (let vs = last_n s w in if length vs < k then None else Some (f vs))"

text \<open>The first index of an extreme value among the values that are numbers.\<close>

definition extreme_index :: "(f64 \<Rightarrow> f64 \<Rightarrow> bool) \<Rightarrow> f64 list \<Rightarrow> nat option" where
  "extreme_index better vs =
     foldl (\<lambda>best i.
       if is_nan (vs ! i) then best
       else case best of
              None \<Rightarrow> Some i
            | Some j \<Rightarrow> if better (vs ! i) (vs ! j) then Some i else best) None [0..<length vs]"

definition window_index_reducer ::
  "(f64 \<Rightarrow> f64 \<Rightarrow> bool) \<Rightarrow> f64 list \<Rightarrow> int \<Rightarrow> f64 option" where
  "window_index_reducer better s w = map_option f64_of_nat (extreme_index better (raw_last_n s w))"

definition alpha_pair ::
  "'o native_env \<Rightarrow> (f64 list \<Rightarrow> f64 list \<Rightarrow> f64) \<Rightarrow> ('o, 'b) interp \<Rightarrow> 'o rvalue list
     \<Rightarrow> 'o rvalue" where
  "alpha_pair N f st args =
     (if length args < 3 then VNa
      else let w = arg_length N st args 2
           in case (series_arg args 0 st, series_arg args 1 st) of
                (Some sx, Some sy) \<Rightarrow>
                  if w \<le> 0 then VNa
                  else let (xs, ys) = paired_last_n sx sy w
                       in if length xs < 2 then VNa else VFloat (f xs ys)
              | _ \<Rightarrow> VNa)"

definition math_copysign :: "f64 \<Rightarrow> f64 \<Rightarrow> f64" where
  "math_copysign x y = (if fneg_sign y then - go_abs x else go_abs x)"

definition signed_power :: "'o native_env \<Rightarrow> ('o, 'b) interp \<Rightarrow> 'o rvalue list \<Rightarrow> 'o rvalue" where
  "signed_power N st args =
     (if length args < 2 then VNa
      else let x = float_of st (args ! 0)
           in if is_nan x then VNa
              else VFloat (math_copysign (ne_pow N (go_abs x) (float_of st (args ! 1))) x))"

definition alpha_scale :: "('o, 'b) interp \<Rightarrow> 'o rvalue list \<Rightarrow> 'o rvalue" where
  "alpha_scale st args =
     (if args = [] then VNa
      else let x = float_of st (args ! 0);
               target = (if 2 \<le> length args then float_of st (args ! 1) else 1)
           in if is_nan x \<or> feq x 0 then VNa else VFloat (x / go_abs x * target))"

definition alpha_native :: "'o native_env \<Rightarrow> string \<Rightarrow> ('o, 'b) native_fn option" where
  "alpha_native N x =
     (let win = (\<lambda>f. Some (pure_native (alpha_window N f)))
      in if x = ''alpha.rank'' then Some (pure_native alpha_rank)
      else if x = ''alpha.zscore'' then win zscore
      else if x = ''alpha.decay_linear'' then win decay_linear
      else if x = ''alpha.ts_rank'' then win ts_rank
      else if x = ''alpha.ts_corr'' then Some (pure_native (alpha_pair N pearson_of))
      else if x = ''alpha.ts_cov'' then Some (pure_native (alpha_pair N cov_of))
      else if x = ''alpha.ts_delta'' then win ts_delta
      else if x = ''alpha.log_return'' then win (log_return (ne_log N))
      else if x = ''alpha.signed_power'' then Some (pure_native (signed_power N))
      else if x = ''alpha.scale'' then Some (pure_native alpha_scale)
      else if x = ''alpha.ts_sum'' then win (window_reducer 1 float_sum)
      else if x = ''alpha.ts_mean'' then win (window_reducer 1 mean_of)
      else if x = ''alpha.ts_std'' then win (window_reducer 2 (\<lambda>xs. stddev_of xs (mean_of xs)))
      else if x = ''alpha.ts_min'' then win (window_reducer 1 min_of)
      else if x = ''alpha.ts_max'' then win (window_reducer 1 max_of)
      else if x = ''alpha.ts_median'' then win (window_reducer 1 median_of)
      else if x = ''alpha.ts_skewness'' then win (window_reducer 3 skewness_of)
      else if x = ''alpha.ts_kurtosis'' then win (window_reducer 4 kurtosis_of)
      else if x = ''alpha.ts_argmin'' then win (window_index_reducer (<))
      else if x = ''alpha.ts_argmax'' then win (window_index_reducer (\<lambda>a b. b < a))
      else None)"

section \<open>No window sees more than it may\<close>

lemma raw_last_n_length: "length (raw_last_n s n) = min (nat n) (length s)"
  by (simp add: raw_last_n_def)

lemma raw_last_n_rev: "raw_last_n s n = take (nat n) (rev s)"
  by (rule nth_equalityI)
    (auto simp: raw_last_n_length raw_last_n_def series_at_def Let_def rev_nth nat_diff_distrib)

end
