(* ===== verification/Dsl_Builtins_Bridge.thy ===== *)
theory Dsl_Builtins_Bridge
  imports Dsl_Builtins_Ta
begin

text \<open>
  The native functions that talk to the interface \<open>Bridge\<close>: \<open>builtins_strategy.go\<close>,
  \<open>builtins_order.go\<close> with \<open>order_intent.go\<close>, \<open>builtins_config.go\<close>, \<open>builtins_signal.go\<close>,
  \<open>builtins_event.go\<close>, \<open>builtins_portfolio.go\<close>, \<open>builtins_universe.go\<close> and \<open>builtins_request.go\<close>. The record \<open>bridge_ops\<close> lists the methods of the
  interface; the interfaces a bridge may implement besides (\<open>OrderBridge\<close>, \<open>ConfigBridge\<close>,
  \<open>SignalBridge\<close>, \<open>UniverseBridge\<close>) are optional fields.
\<close>

section \<open>Order intents\<close>

datatype intent_type = IntentMarket | IntentLimit | IntentStop | IntentStopLimit | IntentTwap

datatype intent_side = IntentBuy | IntentSell

record order_intent =
  oi_id :: string
  oi_entry :: string
  oi_side :: intent_side
  oi_qty :: f64
  oi_notional :: f64
  oi_type :: intent_type
  oi_limit :: f64
  oi_stop :: f64
  oi_twap :: int
  oi_note :: string
  oi_ref :: string
  oi_immediate :: bool
  oi_schedule :: int
  oi_group :: string

definition new_intent :: "intent_side \<Rightarrow> intent_type \<Rightarrow> order_intent" where
  "new_intent side ty =
     \<lparr>oi_id = [], oi_entry = [], oi_side = side, oi_qty = 0, oi_notional = 0, oi_type = ty,
      oi_limit = 0, oi_stop = 0, oi_twap = 0, oi_note = [], oi_ref = [], oi_immediate = False,
      oi_schedule = 0, oi_group = []\<rparr>"

section \<open>The bridge\<close>

text \<open>The fields of a \<open>SignalEvent\<close> (\<open>internal/signals/event.go\<close>) that scripts can see, and its time.\<close>

record signal_event =
  sg_id :: string
  sg_time :: int
  sg_name :: string
  sg_direction :: string
  sg_action :: string
  sg_qty :: f64
  sg_remarks :: string
  sg_source :: string
  sg_group_ref :: string
  sg_ref :: string
  sg_priority :: int

text \<open>
  What a function \<open>request.*\<close> finds for its arguments: too few of them, a request that was not
  preloaded (the function and the message to report), or the name of a series and its value.
\<close>

datatype 'b request_target =
  TargetNone | TargetMissing string string | TargetAt string "'b \<Rightarrow> f64"

record 'b bridge_ops =
  bo_bar_index :: "'b \<Rightarrow> int"
  bo_close :: "'b \<Rightarrow> f64"
  bo_open :: "'b \<Rightarrow> f64"
  bo_high :: "'b \<Rightarrow> f64"
  bo_low :: "'b \<Rightarrow> f64"
  bo_volume :: "'b \<Rightarrow> f64"
  bo_buy :: "f64 \<Rightarrow> 'b \<Rightarrow> 'b"
  bo_sell :: "f64 \<Rightarrow> 'b \<Rightarrow> 'b"
  bo_close_entry :: "string \<Rightarrow> 'b \<Rightarrow> bool \<times> 'b"
  bo_position_size :: "'b \<Rightarrow> f64"
  bo_position_price :: "'b \<Rightarrow> f64"
  bo_equity :: "'b \<Rightarrow> f64"
  bo_cash :: "'b \<Rightarrow> f64"
  bo_submit :: "(order_intent \<Rightarrow> 'b \<Rightarrow> int \<times> 'b) option"
  bo_config :: "('b \<Rightarrow> (string \<Rightarrow> f64 \<Rightarrow> f64) \<times> (string \<Rightarrow> string \<Rightarrow> string)) option"
  bo_signals :: "('b \<Rightarrow> signal_event list) option"
  bo_universe :: "('b \<Rightarrow> string \<Rightarrow> string list) option"
  bo_request :: "string \<Rightarrow> string list \<Rightarrow> 'b request_target"

definition set_bridge :: "'b \<Rightarrow> ('o, 'b) interp \<Rightarrow> ('o, 'b) interp" where
  "set_bridge b st = st\<lparr>ip_bridge := map_option (\<lambda>_. b) (ip_bridge st)\<rparr>"

section \<open>Submitting orders\<close>

definition fallback_order :: "'b bridge_ops \<Rightarrow> order_intent \<Rightarrow> 'b \<Rightarrow> 'b" where
  "fallback_order B oi b =
     (let qty = (if feq (oi_qty oi) 0 then 1 else oi_qty oi)
      in case oi_side oi of IntentBuy \<Rightarrow> bo_buy B qty b | IntentSell \<Rightarrow> bo_sell B qty b)"

definition submit_intent ::
  "'b bridge_ops \<Rightarrow> order_intent \<Rightarrow> ('o, 'b) interp \<Rightarrow> int \<times> ('o, 'b) interp" where
  "submit_intent B oi st =
     (let (ok, st) = allow_side_effect ''order.submit'' st
      in if \<not> ok then (0, st)
         else case ip_bridge st of
                None \<Rightarrow> (0, st)
              | Some b \<Rightarrow>
                  (case bo_submit B of
                     None \<Rightarrow> (0, set_bridge (fallback_order B oi b) st)
                   | Some f \<Rightarrow> (fst (f oi b), set_bridge (snd (f oi b)) st)))"

definition submit_native ::
  "'b bridge_ops \<Rightarrow> (('o, 'b) interp \<Rightarrow> 'o rvalue list \<Rightarrow> order_intent) \<Rightarrow> ('o, 'b) native_fn" where
  "submit_native B f args st =
     (let (n, st) = submit_intent B (f st args) st in (VFloat (f64_of_int n), st))"

definition parse_side :: "('o, 'b) interp \<Rightarrow> 'o rvalue list \<Rightarrow> nat \<Rightarrow> intent_side" where
  "parse_side st args i = (if arg_float st args i 1 < 0 then IntentSell else IntentBuy)"

definition parse_order_type :: "string \<Rightarrow> intent_type" where
  "parse_order_type s =
     (if s = ''limit'' then IntentLimit
      else if s = ''stop'' then IntentStop
      else if s = ''stop_limit'' then IntentStopLimit
      else if s = ''twap'' then IntentTwap
      else IntentMarket)"

definition arg_int :: "(f64 \<Rightarrow> int) \<Rightarrow> ('o, 'b) interp \<Rightarrow> 'o rvalue list \<Rightarrow> nat \<Rightarrow> f64 \<Rightarrow> int" where
  "arg_int conv st args i d = int_of_float conv (arg_float st args i d)"

definition market_intent :: "('o, 'b) interp \<Rightarrow> 'o rvalue list \<Rightarrow> order_intent" where
  "market_intent st args =
     (new_intent (parse_side st args 0) IntentMarket)
       \<lparr>oi_qty := arg_float st args 1 1, oi_note := arg_str args 2 []\<rparr>"

definition market_notional_intent :: "('o, 'b) interp \<Rightarrow> 'o rvalue list \<Rightarrow> order_intent" where
  "market_notional_intent st args =
     (new_intent (parse_side st args 0) IntentMarket)
       \<lparr>oi_notional := arg_float st args 1 0, oi_note := arg_str args 2 []\<rparr>"

definition limit_intent :: "('o, 'b) interp \<Rightarrow> 'o rvalue list \<Rightarrow> order_intent" where
  "limit_intent st args =
     (new_intent (parse_side st args 0) IntentLimit)
       \<lparr>oi_qty := arg_float st args 1 1, oi_limit := arg_float st args 2 0, oi_note := arg_str args 3 []\<rparr>"

definition stop_intent :: "('o, 'b) interp \<Rightarrow> 'o rvalue list \<Rightarrow> order_intent" where
  "stop_intent st args =
     (new_intent (parse_side st args 0) IntentStop)
       \<lparr>oi_qty := arg_float st args 1 1, oi_stop := arg_float st args 2 0, oi_note := arg_str args 3 []\<rparr>"

definition stop_limit_intent :: "('o, 'b) interp \<Rightarrow> 'o rvalue list \<Rightarrow> order_intent" where
  "stop_limit_intent st args =
     (new_intent (parse_side st args 0) IntentStopLimit)
       \<lparr>oi_qty := arg_float st args 1 1, oi_stop := arg_float st args 2 0,
        oi_limit := arg_float st args 3 0, oi_note := arg_str args 4 []\<rparr>"

definition twap_intent :: "(f64 \<Rightarrow> int) \<Rightarrow> ('o, 'b) interp \<Rightarrow> 'o rvalue list \<Rightarrow> order_intent" where
  "twap_intent conv st args =
     (new_intent (parse_side st args 0) IntentTwap)
       \<lparr>oi_qty := arg_float st args 1 1, oi_twap := arg_int conv st args 2 (FFin 5),
        oi_note := arg_str args 3 []\<rparr>"

definition immediate_intent :: "('o, 'b) interp \<Rightarrow> 'o rvalue list \<Rightarrow> order_intent" where
  "immediate_intent st args = (market_intent st args)\<lparr>oi_immediate := True\<rparr>"

definition submit_args_intent ::
  "(f64 \<Rightarrow> int) \<Rightarrow> ('o, 'b) interp \<Rightarrow> 'o rvalue list \<Rightarrow> order_intent" where
  "submit_args_intent conv st args =
     (let ty = parse_order_type (arg_str args 4 ''market'');
          oi_note' = arg_str args 9 []; twap = arg_int conv st args 7 0
      in \<lparr>oi_id = arg_str args 0 oi_note', oi_entry = [], oi_side = parse_side st args 1,
          oi_qty = arg_float st args 2 0, oi_notional = arg_float st args 3 0, oi_type = ty,
          oi_limit = arg_float st args 5 0, oi_stop = arg_float st args 6 0,
          oi_twap = (if ty = IntentTwap \<and> twap \<le> 0 then 1 else twap), oi_note = oi_note',
          oi_ref = arg_str args 10 [],
          oi_immediate = (9 \<le> length args \<and> bool_of st (args ! 8)),
          oi_schedule = arg_int conv st args 12 0, oi_group = arg_str args 11 []\<rparr>)"

definition order_native ::
  "'o native_env \<Rightarrow> 'b bridge_ops \<Rightarrow> string \<Rightarrow> ('o, 'b) native_fn option" where
  "order_native N B x =
     (if x = ''order.market'' then Some (submit_native B market_intent)
      else if x = ''order.market_notional'' then Some (submit_native B market_notional_intent)
      else if x = ''order.limit'' then Some (submit_native B limit_intent)
      else if x = ''order.stop'' then Some (submit_native B stop_intent)
      else if x = ''order.stop_limit'' then Some (submit_native B stop_limit_intent)
      else if x = ''order.twap'' then Some (submit_native B (twap_intent (ne_int N)))
      else if x = ''order.immediate'' then Some (submit_native B immediate_intent)
      else if x = ''order.submit'' then Some (submit_native B (submit_args_intent (ne_int N)))
      else None)"

section \<open>builtins\_strategy.go\<close>

definition entry_kind :: "f64 \<Rightarrow> f64 \<Rightarrow> int \<Rightarrow> order_intent \<Rightarrow> order_intent" where
  "entry_kind limit stop twap oi =
     (if 0 < stop \<and> 0 < limit
      then oi\<lparr>oi_type := IntentStopLimit, oi_stop := stop, oi_limit := limit\<rparr>
      else if 0 < limit then oi\<lparr>oi_type := IntentLimit, oi_limit := limit\<rparr>
      else if 0 < stop then oi\<lparr>oi_type := IntentStop, oi_stop := stop\<rparr>
      else if 0 < twap then oi\<lparr>oi_type := IntentTwap, oi_twap := twap\<rparr>
      else oi)"

definition entry_intent :: "(f64 \<Rightarrow> int) \<Rightarrow> ('o, 'b) interp \<Rightarrow> 'o rvalue list \<Rightarrow> order_intent" where
  "entry_intent conv st args =
     (let eid = str_of (args ! 0); dir = float_of st (args ! 1); notional = arg_float st args 8 0;
          oi = (new_intent (if 0 \<le> dir then IntentBuy else IntentSell) IntentMarket)
                 \<lparr>oi_id := eid, oi_entry := eid, oi_note := arg_str args 7 eid,
                  oi_qty := (if 0 < notional then 0 else arg_float st args 2 1),
                  oi_notional := notional,
                  oi_immediate := (7 \<le> length args \<and> bool_of st (args ! 6))\<rparr>
      in entry_kind (arg_float st args 3 0) (arg_float st args 4 0) (arg_int conv st args 5 0) oi)"

definition strategy_entry :: "(f64 \<Rightarrow> int) \<Rightarrow> 'b bridge_ops \<Rightarrow> ('o, 'b) native_fn" where
  "strategy_entry conv B args st =
     (let (ok, st) = allow_side_effect ''strategy.entry'' st
      in if \<not> ok \<or> ip_bridge st = None \<or> length args < 2 then (VNa, st)
         else (VNa, snd (submit_intent B (entry_intent conv st args) st)))"

definition strategy_close :: "'b bridge_ops \<Rightarrow> string \<Rightarrow> ('o, 'b) native_fn" where
  "strategy_close B name args st =
     (let (ok, st) = allow_side_effect name st
      in case ip_bridge st of
           None \<Rightarrow> (VNa, st)
         | Some b \<Rightarrow>
             if \<not> ok \<or> args = [] then (VNa, st)
             else let eid = str_of (args ! 0); (closed, b) = bo_close_entry B eid b;
                      st = set_bridge b st
                  in (VNa, if closed then st
                           else report_builtin_failure name
                                  (''entry not found or close already pending: '' @ eid) st))"

definition plot_native :: "(f64 \<Rightarrow> int) \<Rightarrow> ('o, 'b) native_fn" where
  "plot_native conv args st =
     set_plot_value
       (if 2 \<le> length args then str_of (args ! 1) else [])
       (if args = [] then VNa else args ! 0)
       (if 4 \<le> length args then max 0 (int_of_float conv (float_of st (args ! 3))) else 0)
       (3 \<le> length args \<and> bool_of st (args ! 2)) st"

definition trade_native :: "(f64 \<Rightarrow> 'b \<Rightarrow> 'b) \<Rightarrow> string \<Rightarrow> ('o, 'b) native_fn" where
  "trade_native f name args st =
     (let (ok, st) = allow_side_effect name st
      in case ip_bridge st of
           None \<Rightarrow> (VNa, st)
         | Some b \<Rightarrow>
             if \<not> ok then (VNa, st)
             else (VNa, set_bridge (f (if args = [] then 1 else float_of st (args ! 0)) b) st))"

definition account_value :: "('b \<Rightarrow> f64) \<Rightarrow> ('o, 'b) interp \<Rightarrow> 'o rvalue list \<Rightarrow> 'o rvalue" where
  "account_value f st args = VFloat (case ip_bridge st of None \<Rightarrow> 0 | Some b \<Rightarrow> f b)"

definition strategy_native ::
  "'o native_env \<Rightarrow> 'b bridge_ops \<Rightarrow> string \<Rightarrow> ('o, 'b) native_fn option" where
  "strategy_native N B x =
     (if x = ''strategy.entry'' then Some (strategy_entry (ne_int N) B)
      else if x = ''strategy.close'' \<or> x = ''strategy.exit'' then Some (strategy_close B x)
      else if x = ''plot'' then Some (plot_native (ne_int N))
      else if x = ''buy'' then Some (trade_native (bo_buy B) x)
      else if x = ''sell'' then Some (trade_native (bo_sell B) x)
      else if x = ''strategy.position_size'' then Some (pure_native (account_value (bo_position_size B)))
      else if x = ''strategy.position_avg_price''
      then Some (pure_native (account_value (bo_position_price B)))
      else if x = ''strategy.equity'' then Some (pure_native (account_value (bo_equity B)))
      else if x = ''strategy.cash'' then Some (pure_native (account_value (bo_cash B)))
      else None)"

section \<open>builtins\_request.go\<close>

text \<open>
  The functions are closures of \<open>pkg/dsl/bridge/bridge.go\<close>. A request that was not preloaded is reported once:
  the closures keep a set of what they reported, which is the set of these diagnostics.
\<close>

definition not_preloaded :: "string \<Rightarrow> string \<Rightarrow> diagnostic" where
  "not_preloaded func msg =
     \<lparr>dg_severity = SevError, dg_code = ''dsl.request_not_preloaded'', dg_message = msg, dg_function = func,
      dg_bar = None,
      dg_hint = ''Use static request arguments or provide a preloaded universe/runtime request provider.''\<rparr>"

definition add_missing_request :: "string \<Rightarrow> string \<Rightarrow> ('o, 'b) interp \<Rightarrow> ('o, 'b) interp" where
  "add_missing_request func msg st =
     (case ip_diagnostics st of
        Some ds \<Rightarrow> if not_preloaded func msg \<in> set ds then st else add_diagnostic (not_preloaded func msg) st
      | None \<Rightarrow> st)"

definition request_native :: "'b bridge_ops \<Rightarrow> string \<Rightarrow> ('o, 'b) native_fn" where
  "request_native B x args st =
     (case bo_request B x (map str_of args) of
        TargetNone \<Rightarrow> (VNa, st)
      | TargetMissing func msg \<Rightarrow> (VNa, add_missing_request func msg st)
      | TargetAt name f \<Rightarrow>
          (case ip_bridge st of None \<Rightarrow> (VNa, st) | Some b \<Rightarrow> capture_series name (f b) st))"

definition request_natives :: "'b bridge_ops \<Rightarrow> string \<Rightarrow> ('o, 'b) native_fn option" where
  "request_natives B x =
     (if x = ''request.security'' \<or> x = ''request.factor'' \<or> x = ''request.fundamental''
      then Some (request_native B x) else None)"

section \<open>builtins\_config.go, builtins\_portfolio.go and builtins\_universe.go\<close>

definition config_float ::
  "'b bridge_ops \<Rightarrow> ('o, 'b) interp \<Rightarrow> string \<Rightarrow> f64 \<Rightarrow> f64" where
  "config_float B st name d =
     (case (ip_bridge st, bo_config B) of (Some b, Some f) \<Rightarrow> fst (f b) name d | _ \<Rightarrow> d)"

definition config_string ::
  "'b bridge_ops \<Rightarrow> ('o, 'b) interp \<Rightarrow> string \<Rightarrow> string \<Rightarrow> string" where
  "config_string B st name d =
     (case (ip_bridge st, bo_config B) of (Some b, Some f) \<Rightarrow> snd (f b) name d | _ \<Rightarrow> d)"

definition config_get_value :: "'b bridge_ops \<Rightarrow> ('o, 'b) interp \<Rightarrow> 'o rvalue list \<Rightarrow> 'o rvalue" where
  "config_get_value B st args =
     (let name = (if args = [] then [] else str_of (args ! 0));
          d = (if 2 \<le> length args then float_of st (args ! 1) else 0)
      in VFloat (if name = [] then d else config_float B st name d))"

definition config_string_value :: "'b bridge_ops \<Rightarrow> ('o, 'b) interp \<Rightarrow> 'o rvalue list \<Rightarrow> 'o rvalue" where
  "config_string_value B st args =
     (let name = (if args = [] then [] else str_of (args ! 0));
          d = (if 2 \<le> length args then str_of (args ! 1) else [])
      in VString (if name = [] then d else config_string B st name d))"

definition read_csv :: "'b bridge_ops \<Rightarrow> ('o, 'b) interp \<Rightarrow> string \<Rightarrow> string list" where
  "read_csv B st name =
     (let raw = trim_space (config_string B st name [])
      in if raw = [] then []
         else filter (\<lambda>s. s \<noteq> []) (map trim_space (split_text '','' raw)))"

definition portfolio_symbols :: "'b bridge_ops \<Rightarrow> ('o, 'b) interp \<Rightarrow> string list" where
  "portfolio_symbols B st = read_csv B st ''portfolio_symbols''"

definition portfolio_weights ::
  "'o native_env \<Rightarrow> 'b bridge_ops \<Rightarrow> ('o, 'b) interp \<Rightarrow> f64 list" where
  "portfolio_weights N B st = List.map_filter (ne_parse N) (read_csv B st ''portfolio_weights'')"

definition portfolio_symbol ::
  "'o native_env \<Rightarrow> 'b bridge_ops \<Rightarrow> ('o, 'b) interp \<Rightarrow> 'o rvalue list \<Rightarrow> 'o rvalue" where
  "portfolio_symbol N B st args =
     (let i = arg_int (ne_int N) st args 0 (-1); symbols = portfolio_symbols B st
      in VString (if i < 0 \<or> int (length symbols) \<le> i then arg_str args 1 [] else symbols ! nat i))"

primrec position_fold :: "text_case \<Rightarrow> string \<Rightarrow> string list \<Rightarrow> nat \<Rightarrow> nat option" where
  "position_fold tc s [] i = None"
| "position_fold tc s (x # xs) i =
     (if equal_fold (tc_fold tc) x s then Some i else position_fold tc s xs (Suc i))"

definition portfolio_weight ::
  "'o native_env \<Rightarrow> 'b bridge_ops \<Rightarrow> ('o, 'b) interp \<Rightarrow> 'o rvalue list \<Rightarrow> 'o rvalue" where
  "portfolio_weight N B st args =
     (let symbol = upper (ne_case N) (trim_space (arg_str args 0 [])); d = arg_float st args 1 0;
          weights = portfolio_weights N B st
      in VFloat
           (if symbol = [] then d
            else case position_fold (ne_case N) symbol (portfolio_symbols B st) 0 of
                   None \<Rightarrow> d
                 | Some i \<Rightarrow> if i < length weights then weights ! i else d))"

text \<open>The loop of \<open>portfolio.items\<close> makes a pair of each symbol and its weight.\<close>

primrec portfolio_pairs ::
  "string list \<Rightarrow> f64 list \<Rightarrow> nat \<Rightarrow> ('o, 'b) interp \<Rightarrow> 'o rvalue list \<times> ('o, 'b) interp" where
  "portfolio_pairs [] ws i st = ([], st)"
| "portfolio_pairs (s # ss) ws i st =
     (let (v, st) = new_array [VString s, VFloat (if i < length ws then ws ! i else 0)] st;
          (vs, st) = portfolio_pairs ss ws (Suc i) st
      in (v # vs, st))"

definition portfolio_items :: "'o native_env \<Rightarrow> 'b bridge_ops \<Rightarrow> ('o, 'b) native_fn" where
  "portfolio_items N B args st =
     (let (vs, st) = portfolio_pairs (portfolio_symbols B st) (portfolio_weights N B st) 0 st
      in new_array vs st)"

definition portfolio_native ::
  "'o native_env \<Rightarrow> 'b bridge_ops \<Rightarrow> string \<Rightarrow> ('o, 'b) native_fn option" where
  "portfolio_native N B x =
     (if x = ''config.get'' then Some (pure_native (config_get_value B))
      else if x = ''config.string'' then Some (pure_native (config_string_value B))
      else if x = ''portfolio.symbols''
      then Some (\<lambda>args st. new_array (map VString (portfolio_symbols B st)) st)
      else if x = ''portfolio.weights''
      then Some (\<lambda>args st. new_array (map VFloat (portfolio_weights N B st)) st)
      else if x = ''portfolio.len''
      then Some (pure_native (\<lambda>st args. VFloat (f64_of_nat (length (portfolio_symbols B st)))))
      else if x = ''portfolio.symbol'' then Some (pure_native (portfolio_symbol N B))
      else if x = ''portfolio.weight'' then Some (pure_native (portfolio_weight N B))
      else if x = ''portfolio.items'' then Some (portfolio_items N B)
      else None)"

definition universe_char :: "char \<Rightarrow> char" where
  "universe_char c =
     (if c \<in> {CHR ''-'', CHR ''.'', CHR '':'', CHR ''/''} then CHR ''_'' else c)"

definition universe_symbols :: "'o native_env \<Rightarrow> 'b bridge_ops \<Rightarrow> ('o, 'b) native_fn" where
  "universe_symbols N B args st =
     (let code = lower (ne_case N) (trim_space (arg_str args 0 []))
      in new_array (map VString
           (case (ip_bridge st, bo_universe B) of
              (Some b, Some f) \<Rightarrow> f b code
            | _ \<Rightarrow> read_csv B st (''universe_'' @ map universe_char code @ ''_symbols''))) st)"

section \<open>builtins\_signal.go and builtins\_event.go\<close>

definition current_events :: "'b bridge_ops \<Rightarrow> ('o, 'b) interp \<Rightarrow> signal_event list" where
  "current_events B st =
     (case (ip_bridge st, bo_signals B) of (Some b, Some f) \<Rightarrow> f b | _ \<Rightarrow> [])"

definition direction_float :: "string \<Rightarrow> f64" where
  "direction_float d = (if d = ''long'' then 1 else if d = ''short'' then -1 else 0)"

definition action_float :: "string \<Rightarrow> f64" where
  "action_float a =
     (if a = ''init'' then 1 else if a = ''add'' then FFin 2 else if a = ''close'' then FFin 3
      else if a = ''roll'' then FFin 4 else 0)"

text \<open>A property of the first event of a list, with the value for no event.\<close>

definition first_event :: "'a \<Rightarrow> (signal_event \<Rightarrow> 'a) \<Rightarrow> signal_event list \<Rightarrow> 'a" where
  "first_event d f es = (case es of [] \<Rightarrow> d | e # _ \<Rightarrow> f e)"

definition event_qty :: "signal_event \<Rightarrow> 'o rvalue" where
  "event_qty e = (if feq (sg_qty e) 0 then VNa else VFloat (sg_qty e))"

definition consumed_key :: "signal_event list \<Rightarrow> string" where
  "consumed_key es = first_event [] (\<lambda>e. ''_signal_consumed_'' @ sg_id e) es"

definition signal_consumed :: "'b bridge_ops \<Rightarrow> ('o, 'b) interp \<Rightarrow> 'o rvalue list \<Rightarrow> 'o rvalue" where
  "signal_consumed B st args =
     (let key = consumed_key (current_events B st)
      in VFloat (if key \<noteq> [] \<and> ip_varip st key \<noteq> None then 1 else 0))"

definition signal_consume :: "'b bridge_ops \<Rightarrow> ('o, 'b) native_fn" where
  "signal_consume B args st =
     (let key = consumed_key (current_events B st)
      in if key = [] then (VFloat 0, st) else (VFloat 1, store_varip key (Some (VFloat 1)) st))"

definition event_key :: "signal_event \<Rightarrow> string" where
  "event_key e = ''_event_consumed_'' @ sg_id e"

definition pending_events :: "'b bridge_ops \<Rightarrow> ('o, 'b) interp \<Rightarrow> signal_event list" where
  "pending_events B st = filter (\<lambda>e. ip_varip st (event_key e) = None) (current_events B st)"

definition mark_consumed :: "signal_event \<Rightarrow> ('o, 'b) interp \<Rightarrow> ('o, 'b) interp" where
  "mark_consumed e st = store_varip (event_key e) (Some (VFloat 1)) st"

definition event_next ::
  "'b bridge_ops \<Rightarrow> (signal_event \<Rightarrow> f64) \<Rightarrow> ('o, 'b) native_fn" where
  "event_next B f args st =
     (case pending_events B st of
        [] \<Rightarrow> (VFloat 0, st)
      | e # _ \<Rightarrow> (VFloat (f e), mark_consumed e st))"

definition event_consume_all :: "'b bridge_ops \<Rightarrow> ('o, 'b) native_fn" where
  "event_consume_all B args st =
     (let es = pending_events B st
      in (VFloat (f64_of_nat (length es)), fold mark_consumed es st))"

definition event_is :: "'b bridge_ops \<Rightarrow> string \<Rightarrow> ('o, 'b) interp \<Rightarrow> 'o rvalue list \<Rightarrow> 'o rvalue" where
  "event_is B a st args =
     VFloat (first_event 0 (\<lambda>e. if sg_action e = a then 1 else 0) (pending_events B st))"

definition events_native ::
  "(('o, 'b) interp \<Rightarrow> signal_event list) \<Rightarrow> (signal_event list \<Rightarrow> 'o rvalue) \<Rightarrow> ('o, 'b) native_fn" where
  "events_native g f = pure_native (\<lambda>st args. f (g st))"

definition signal_native :: "'b bridge_ops \<Rightarrow> string \<Rightarrow> ('o, 'b) native_fn option" where
  "signal_native B x =
     (let now = events_native (current_events B)
      in if x = ''signal.active'' then Some (now (\<lambda>es. VFloat (if es \<noteq> [] then 1 else 0)))
         else if x = ''signal.count'' then Some (now (\<lambda>es. VFloat (f64_of_nat (length es))))
         else if x = ''signal.direction''
         then Some (now (first_event (VFloat 0) (\<lambda>e. VFloat (direction_float (sg_direction e)))))
         else if x = ''signal.action''
         then Some (now (first_event (VFloat 0) (\<lambda>e. VFloat (action_float (sg_action e)))))
         else if x = ''signal.qty'' then Some (now (first_event VNa event_qty))
         else if x = ''signal.name'' then Some (now (first_event (VString []) (\<lambda>e. VString (sg_name e))))
         else if x = ''signal.source''
         then Some (now (first_event (VString []) (\<lambda>e. VString (sg_source e))))
         else if x = ''signal.remarks''
         then Some (now (first_event (VString []) (\<lambda>e. VString (sg_remarks e))))
         else if x = ''signal.ref'' then Some (now (first_event (VString []) (\<lambda>e. VString (sg_ref e))))
         else if x = ''signal.group_ref''
         then Some (now (first_event (VString []) (\<lambda>e. VString (sg_group_ref e))))
         else if x = ''signal.consumed'' then Some (pure_native (signal_consumed B))
         else if x = ''signal.consume'' then Some (signal_consume B)
         else None)"

definition event_native :: "'b bridge_ops \<Rightarrow> string \<Rightarrow> ('o, 'b) native_fn option" where
  "event_native B x =
     (let pending = events_native (pending_events B)
      in if x = ''event.pending'' then Some (pending (\<lambda>es. VFloat (f64_of_nat (length es))))
         else if x = ''event.peek''
         then Some (pending (first_event (VFloat 0) (\<lambda>e. VFloat (direction_float (sg_direction e)))))
         else if x = ''event.peek_action''
         then Some (pending (first_event (VFloat 0) (\<lambda>e. VFloat (action_float (sg_action e)))))
         else if x = ''event.peek_name''
         then Some (pending (first_event (VString []) (\<lambda>e. VString (sg_name e))))
         else if x = ''event.peek_qty'' then Some (pending (first_event VNa event_qty))
         else if x = ''event.next'' then Some (event_next B (\<lambda>e. direction_float (sg_direction e)))
         else if x = ''event.next_action'' then Some (event_next B (\<lambda>e. action_float (sg_action e)))
         else if x = ''event.consume_all'' then Some (event_consume_all B)
         else if x = ''event.is_init'' then Some (pure_native (event_is B ''init''))
         else if x = ''event.is_add'' then Some (pure_native (event_is B ''add''))
         else if x = ''event.is_close'' then Some (pure_native (event_is B ''close''))
         else if x = ''event.is_roll'' then Some (pure_native (event_is B ''roll''))
         else None)"

end
