(* ===== verification/Dsl_Exec_Laws.thy ===== *)
theory Dsl_Exec_Laws
  imports Dsl_Exec
begin

text \<open>
  Every walk of the interpreter is a sequence of elementary changes of its state. The relation
  \<open>micro\<close> lists them; the locale \<open>runtime\<close> states what the walk relies on from the native
  functions and the special forms of the bridge, namely that they too change the state only in
  these ways; \<open>run_steps\<close> is the theorem. An invariant of the interpreter is then proved once
  per elementary change. The number \<open>D\<close> bounds the size of the function bodies made on the way.
\<close>

section \<open>Sizes\<close>

text \<open>The size of a statement counts its expressions too.\<close>

primrec opt_size :: "('a \<Rightarrow> nat) \<Rightarrow> 'a option \<Rightarrow> nat" where
  "opt_size f None = 0"
| "opt_size f (Some x) = f x"

primrec stmt_size :: "stmt \<Rightarrow> nat" and else_if_size :: "else_if \<Rightarrow> nat"
  and case_size :: "switch_case \<Rightarrow> nat" and block_size :: "block \<Rightarrow> nat" where
  "stmt_size (StrategyDecl t k as) = 1"
| "stmt_size (InputDecl t k as) = 1"
| "stmt_size (VarDecl t x h vi pe e) = size e + 1"
| "stmt_size (AssignStmt t x op e) = size e + 1"
| "stmt_size (IndexAssignStmt t a b e) = size a + size b + size e + 1"
| "stmt_size (TupleAssign t xs e) = size e + 1"
| "stmt_size (ExprStmt e) = size e + 1"
| "stmt_size (IfStmt t c b eis els) =
     size c + block_size b + sum_list (map else_if_size eis)
     + (case map_option block_size els of None \<Rightarrow> 0 | Some n \<Rightarrow> n) + 1"
| "stmt_size (ForStmt t x a b d body) = size a + size b + opt_size size d + block_size body + 2"
| "stmt_size (ForInStmt t x e body) = size e + block_size body + 2"
| "stmt_size (WhileStmt t c body) = size c + block_size body + 3"
| "stmt_size (SwitchStmt t tag cs dflt) =
     opt_size size tag + sum_list (map case_size cs)
     + (case map_option block_size dflt of None \<Rightarrow> 0 | Some n \<Rightarrow> n) + 1"
| "stmt_size (FnDecl t x ps b) = block_size b + 2"
| "stmt_size (ReturnStmt t e) = opt_size size e + 1"
| "stmt_size (BreakStmt t) = 1"
| "stmt_size (ContinueStmt t) = 1"
| "stmt_size (ImportStmt t x) = 1"
| "else_if_size (ElseIf t c b) = size c + block_size b + 1"
| "case_size (SwitchCase e b) = size e + block_size b + 1"
| "block_size (Block t ss) = sum_list (map stmt_size ss) + 1"

abbreviation stmts_size :: "stmt list \<Rightarrow> nat" where
  "stmts_size ss \<equiv> sum_list (map stmt_size ss)"

primrec fn_body_size :: "fn_body \<Rightarrow> nat" where
  "fn_body_size (Native x) = 0"
| "fn_body_size (BodyBlock ss) = stmts_size ss + 1"
| "fn_body_size (BodyExpr e) = size e + 1"

primrec work_size :: "'o work \<Rightarrow> nat" where
  "work_size (WExpr e) = size e + 1"
| "work_size (WBlock ss) = stmts_size ss + 1"
| "work_size (WFor x i stop step body v) = stmts_size body + 2"
| "work_size (WWhile c body i v) = size c + stmts_size body + 3"

section \<open>Elementary changes\<close>

text \<open>An array may be made of values that already exist.\<close>

definition refs_ok :: "('o, 'b) interp \<Rightarrow> 'o rvalue list \<Rightarrow> bool" where
  "refs_ok st ws \<longleftrightarrow>
     (\<forall>b. VArray b \<in> set ws \<longrightarrow>
        b < length (ip_arrays st) \<or> (\<exists>xs \<in> set (ip_arrays st). VArray b \<in> set xs))"

inductive micro ::
  "('o, 'b) renv \<Rightarrow> nat \<Rightarrow> ('b \<Rightarrow> 'b \<Rightarrow> bool) \<Rightarrow> ('o, 'b) interp \<Rightarrow> ('o, 'b) interp \<Rightarrow> bool"
  for E :: "('o, 'b) renv" and D :: nat and R :: "'b \<Rightarrow> 'b \<Rightarrow> bool" where
  m_consume: "micro E D R st (snd (consume st))"
| m_frame: "micro E D R st (set_in_frame a x v st)"
| m_child: "micro E D R st (snd (scope_child sc st))"
| m_fn: "fn_body_size (fn_body f) \<le> D \<Longrightarrow> micro E D R st (snd (new_fn f st))"
| m_array: "refs_ok st ws \<Longrightarrow> micro E D R st (snd (new_array ws st))"
| m_store: "snapshot v st = Some (w, st') \<Longrightarrow> (\<forall>a. left = VArray a \<longrightarrow> a < length (ip_arrays st))
    \<Longrightarrow> micro E D R st (store_element left n i w st')"
| m_snapshot: "snapshot v st = Some (w, st') \<Longrightarrow> micro E D R st st'"
| m_persist: "micro E D R st (st\<lparr>ip_persist := (ip_persist st)(x := Some v)\<rparr>)"
| m_varip: "micro E D R st (st\<lparr>ip_varip := (ip_varip st)(x := v)\<rparr>)"
| m_promote: "micro E D R st (snd (promote x v sc st))"
| m_capture: "micro E D R st (snd (capture_series x f st))"
| m_series_set:
    "ip_series_map st x = Some a \<Longrightarrow> micro E D R st (update_series a (series_set f) st)"
| m_plot: "micro E D R st (snd (set_plot_value t v d ov st))"
| m_unresolved: "micro E D R st (report_unresolved E x st)"
| m_failure: "micro E D R st (report_builtin_failure f reason st)"
| m_compound: "micro E D R st (report_compound x op st)"
| m_warning: "code \<noteq> ''dsl.unresolved_identifier'' \<Longrightarrow> micro E D R st (report_warning code key msg hint st)"
| m_diagnostic: "dg_code d \<noteq> ''dsl.unresolved_identifier'' \<Longrightarrow> micro E D R st (add_diagnostic d st)"
| m_sig: "micro E D R st (st\<lparr>ip_sig := s\<rparr>)"
| m_ret: "micro E D R st (st\<lparr>ip_ret := v\<rparr>)"
| m_bridge: "ip_read_only st = 0 \<Longrightarrow> ip_bridge st = Some b \<Longrightarrow> R b b'
    \<Longrightarrow> micro E D R st (st\<lparr>ip_bridge := Some b'\<rparr>)"
| m_trace: "micro E D R st (st\<lparr>ip_trace_keys := ks\<rparr>)"

abbreviation steps ::
  "('o, 'b) renv \<Rightarrow> nat \<Rightarrow> ('b \<Rightarrow> 'b \<Rightarrow> bool) \<Rightarrow> ('o, 'b) interp \<Rightarrow> ('o, 'b) interp \<Rightarrow> bool" where
  "steps E D R \<equiv> (micro E D R)\<^sup>*\<^sup>*"

named_theorems step_facts \<open>an operation is a sequence of elementary changes\<close>

lemma steps_trans [trans]: "steps E D R s t \<Longrightarrow> steps E D R t u \<Longrightarrow> steps E D R s u"
  by (rule rtranclp_trans)

lemmas one_step = r_into_rtranclp [of "micro E D R" for E D R]

lemma steps_consume [step_facts]: "consume st = (ok, st') \<Longrightarrow> steps E D R st st'"
  using m_consume [of E D R st] by (auto intro: one_step)

lemma steps_child [step_facts]: "scope_child sc st = (sc', st') \<Longrightarrow> steps E D R st st'"
  using m_child [of E D R st sc] by (auto intro: one_step)

lemma steps_scope_set [step_facts]: "steps E D R st (scope_set sc x v st)"
  by (cases sc) (auto simp: scope_set_def intro: one_step m_frame)

lemma steps_scope_update [step_facts]: "steps E D R st (snd (scope_update sc x v st))"
  by (induction sc) (auto split: option.splits intro: one_step m_frame)

lemma steps_scope_assign [step_facts]: "steps E D R st (scope_assign sc x v st)"
proof -
  obtain b st' where u: "scope_update sc x v st = (b, st')" by fastforce
  then have "steps E D R st st'" using steps_scope_update [of E D R st sc x v] by simp
  then show ?thesis using steps_scope_set [of E D R st' sc x v]
    by (auto simp: scope_assign_def u intro: steps_trans)
qed

lemma steps_bind_params [step_facts]: "steps E D R st (bind_params ps vs i sc st)"
  by (induction ps arbitrary: i st) (auto intro: steps_trans [OF steps_scope_set])

lemma steps_call_scope [step_facts]: "call_scope f vs st = (sc, s) \<Longrightarrow> steps E D R st s"
  by (auto simp: call_scope_def split: prod.splits
      intro: steps_trans [OF steps_child steps_bind_params])

lemma steps_promote [step_facts]: "promote x v sc st = (w, st') \<Longrightarrow> steps E D R st st'"
  using m_promote [of E D R st x v sc] by (auto intro: one_step)

lemma steps_assign_storage [step_facts]: "steps E D R st (assign_storage x v sc st)"
proof -
  let ?p = "if ip_persist st x = None then st
            else st\<lparr>ip_persist := (ip_persist st)(x := Some v)\<rparr>"
  let ?q = "if ip_varip ?p x = None then ?p
            else ?p\<lparr>ip_varip := (ip_varip ?p)(x := Some v)\<rparr>"
  have p: "steps E D R st ?p" using m_persist [of E D R st x v] by (auto intro: one_step)
  have q: "steps E D R ?p ?q" using m_varip [of E D R ?p x "Some v"] by (auto intro: one_step)
  have eq: "assign_storage x v sc st =
      (if is_numeric_like v
       then case ip_series_map ?q x of
              Some a \<Rightarrow> scope_assign sc x (VSeries a) (update_series a (series_set (float_of ?q v)) ?q)
            | None \<Rightarrow> ?q
       else ?q)"
    by (simp only: assign_storage_def Let_def)
  have "steps E D R ?q (assign_storage x v sc st)"
    unfolding eq
    by (auto split: option.split intro: steps_trans [OF one_step [OF m_series_set] steps_scope_assign])
  then show ?thesis using p q by (blast intro: steps_trans)
qed

lemma steps_compound_numeric [step_facts]:
  "compound_numeric x op old v st = (w, st') \<Longrightarrow> steps E D R st st'"
  by (auto simp: compound_numeric_def intro: one_step m_compound split: if_splits)

lemma steps_compound_value [step_facts]:
  "compound_value op x old v st = (w, st') \<Longrightarrow> steps E D R st st'"
  by (auto simp: compound_value_def intro: one_step m_compound steps_compound_numeric
      split: token_type.splits if_splits prod.splits)

lemma steps_assign_target [step_facts]:
  assumes "assign_target op x v sc st = (w, st')"
  shows "steps E D R st st'"
proof (cases "is_compound op \<and> op \<noteq> TkEq \<and> op \<noteq> TkColonEq")
  case True
  define old where "old = (case scope_get st sc x of Some w \<Rightarrow> w | None \<Rightarrow> VNa)"
  obtain u s where c: "compound_value op x old v st = (u, s)" by fastforce
  have "st' = snd (scope_update sc x u s)"
    using assms True by (auto simp: assign_target_def c simp flip: old_def)
  then show ?thesis using steps_compound_value [OF c] steps_scope_update
    by (metis steps_trans)
next
  case False
  then show ?thesis using assms steps_scope_assign [of E D R st sc x v]
    by (auto simp: assign_target_def split: if_splits)
qed

lemma steps_warning [step_facts]:
  "code \<noteq> ''dsl.unresolved_identifier'' \<Longrightarrow> steps E D R st (report_warning code key msg hint st)"
  by (intro one_step m_warning)

lemma steps_index_value [step_facts]: "steps E D R st (snd (index_value E left idx st))"
  by (auto simp: index_value_def Let_def split: rvalue.split intro!: steps_warning)

lemma steps_assign [step_facts]:
  "assign_target op x v sc st = (u, s) \<Longrightarrow> steps E D R st (assign_storage x u sc s)"
  by (blast intro: rtranclp_trans steps_assign_target steps_assign_storage)

lemma steps_new_fn [step_facts]:
  "fn_body_size (fn_body f) \<le> D \<Longrightarrow> new_fn f st = (v, st') \<Longrightarrow> steps E D R st st'"
  using m_fn [of f D E R st] by (auto intro: one_step)

lemma steps_exec_fn_decl [step_facts]:
  assumes "stmts_size body + 1 \<le> D" and "exec_fn_decl x ps body sc st = (v, st')"
  shows "steps E D R st st'"
proof -
  define f where
    "f = \<lparr>fn_name = x, fn_params = map param_name ps, fn_body = BodyBlock body, fn_closure = sc\<rparr>"
  obtain w s where n: "new_fn f st = (w, s)" by fastforce
  have "steps E D R st s" using n assms(1) by (intro steps_new_fn [of f]) (auto simp: f_def)
  moreover have "st' = scope_set sc x w s"
    using assms(2) n by (auto simp: exec_fn_decl_def simp flip: f_def)
  ultimately show ?thesis by (auto intro: steps_trans steps_scope_set)
qed

section \<open>What the operations leave alone\<close>

definition same_code :: "('o, 'b) interp \<Rightarrow> ('o, 'b) interp \<Rightarrow> bool" where
  "same_code st st' \<longleftrightarrow>
     ip_program st' = ip_program st \<and> ip_bar_index st' = ip_bar_index st \<and>
     ip_budget st' = ip_budget st \<and> ip_queued st' = ip_queued st"

lemmas op_defs = consume_def set_in_frame_def scope_child_def new_fn_def new_array_def new_series_def
  update_series_def promote_def capture_series_def set_plot_value_def register_plot_def
  add_diagnostic_def report_unresolved_def report_builtin_failure_def report_compound_def
  report_warning_def scope_set_def Let_def

text \<open>
  A snapshot makes new arrays only, each of which holds no array but ones made just before it.
\<close>

definition fresh_arrays :: "nat \<Rightarrow> 'o rvalue list list \<Rightarrow> bool" where
  "fresh_arrays k new \<longleftrightarrow>
     (\<forall>i < length new. \<forall>b. VArray b \<in> set (new ! i) \<longrightarrow> k \<le> b \<and> b < k + i)"

definition fresh_value :: "nat \<Rightarrow> nat \<Rightarrow> 'o rvalue \<Rightarrow> bool" where
  "fresh_value k n w \<longleftrightarrow> (\<forall>b. w = VArray b \<longrightarrow> k \<le> b \<and> b < k + n)"

lemma fresh_arrays_append:
  assumes x: "fresh_arrays k xs" and y: "fresh_arrays (k + length xs) ys"
  shows "fresh_arrays k (xs @ ys)"
  unfolding fresh_arrays_def
proof (intro allI impI)
  fix i b assume i: "i < length (xs @ ys)" and b: "VArray b \<in> set ((xs @ ys) ! i)"
  show "k \<le> b \<and> b < k + i"
  proof (cases "i < length xs")
    case True
    then show ?thesis using x b by (auto simp: fresh_arrays_def nth_append)
  next
    case False
    with i b have "i - length xs < length ys" "VArray b \<in> set (ys ! (i - length xs))"
      by (auto simp: nth_append)
    with y have "k + length xs \<le> b" "b < k + length xs + (i - length xs)"
      unfolding fresh_arrays_def by blast+
    with False show ?thesis by linarith
  qed
qed

lemma fresh_value_mono: "fresh_value k n w \<Longrightarrow> n \<le> m \<Longrightarrow> fresh_value k m w"
  by (auto simp: fresh_value_def)

lemma fresh_value_shift: "fresh_value (k + n) m w \<Longrightarrow> fresh_value k (n + m) w"
  by (auto simp: fresh_value_def)

lemma snapshot_upto_fresh:
  fixes st :: "('o, 'b) interp"
  assumes "snapshot_upto n v st = Some (w, st')"
  shows "\<exists>new. st' = st\<lparr>ip_arrays := ip_arrays st @ new\<rparr> \<and> fresh_arrays (length (ip_arrays st)) new
           \<and> fresh_value (length (ip_arrays st)) (length new) w"
  using assms
proof (induction n arbitrary: v st w st')
  case (Suc n)
  have list: "\<exists>new. st' = st\<lparr>ip_arrays := ip_arrays st @ new\<rparr> \<and>
        fresh_arrays (length (ip_arrays st)) new \<and>
        list_all (fresh_value (length (ip_arrays st)) (length new)) ws"
    if "snapshot_list (snapshot_upto n) vs st = Some (ws, st')"
    for vs ws and st st' :: "('o, 'b) interp"
    using that
  proof (induction vs arbitrary: st ws)
    case Nil
    then show ?case by (auto simp: fresh_arrays_def intro!: exI [of _ "[]"])
  next
    case (Cons v vs)
    from Cons.prems obtain u s us
      where f: "snapshot_upto n v st = Some (u, s)"
        and g: "snapshot_list (snapshot_upto n) vs s = Some (us, st')" and ws: "ws = u # us"
      by (auto elim!: bind_eq_SomeE)
    from Suc.IH [OF f] obtain n1 where 1: "s = st\<lparr>ip_arrays := ip_arrays st @ n1\<rparr>"
        "fresh_arrays (length (ip_arrays st)) n1" "fresh_value (length (ip_arrays st)) (length n1) u"
      by blast
    from Cons.IH [OF g] obtain n2 where 2: "st' = s\<lparr>ip_arrays := ip_arrays s @ n2\<rparr>"
        "fresh_arrays (length (ip_arrays s)) n2"
        "list_all (fresh_value (length (ip_arrays s)) (length n2)) us"
      by blast
    have "list_all (fresh_value (length (ip_arrays st)) (length (n1 @ n2))) ws"
      using 1(3) 2(3) by (auto simp: ws 1(1) list_all_iff intro: fresh_value_mono fresh_value_shift)
    then show ?case using 1 2 by (auto intro!: exI [of _ "n1 @ n2"] fresh_arrays_append)
  qed
  show ?case
  proof (cases v)
    case (VArray a)
    from Suc.prems obtain us s
      where g: "snapshot_list (snapshot_upto n) (array_of st a) st = Some (us, s)"
        and r: "(w, st') = new_array us s"
      by (auto simp: VArray elim!: bind_eq_SomeE)
    from list [OF g] obtain new where 1: "s = st\<lparr>ip_arrays := ip_arrays st @ new\<rparr>"
        "fresh_arrays (length (ip_arrays st)) new"
        "list_all (fresh_value (length (ip_arrays st)) (length new)) us"
      by blast
    have "fresh_arrays (length (ip_arrays st)) (new @ [us])"
      using 1(2,3) by (auto simp: fresh_arrays_def fresh_value_def list_all_iff nth_append
          less_Suc_eq)
    then show ?thesis using r 1(1)
      by (auto simp: new_array_def fresh_value_def intro!: exI [of _ "new @ [us]"])
  qed (use Suc.prems in \<open>auto simp: fresh_arrays_def fresh_value_def intro!: exI [of _ "[]"]\<close>)
qed simp

lemma snapshot_fresh:
  assumes "snapshot v st = Some (w, st')"
  shows "\<exists>new. st' = st\<lparr>ip_arrays := ip_arrays st @ new\<rparr> \<and> fresh_arrays (length (ip_arrays st)) new
           \<and> fresh_value (length (ip_arrays st)) (length new) w"
  using assms unfolding snapshot_def by (rule snapshot_upto_fresh)

lemma snapshot_arrays:
  "snapshot v st = Some (w, st') \<Longrightarrow> \<exists>new. st' = st\<lparr>ip_arrays := ip_arrays st @ new\<rparr>"
  by (blast dest: snapshot_fresh)

lemma store_element_sel [simp]:
  "ip_program (store_element x n i v st) = ip_program st"
  "ip_bar_index (store_element x n i v st) = ip_bar_index st"
  "ip_budget (store_element x n i v st) = ip_budget st"
  "ip_queued (store_element x n i v st) = ip_queued st"
  "ip_fns (store_element x n i v st) = ip_fns st"
  "ip_left (store_element x n i v st) = ip_left st"
  "ip_halted (store_element x n i v st) = ip_halted st"
  "ip_unresolved (store_element x n i v st) = ip_unresolved st"
  "ip_diagnostics (store_element x n i v st) = ip_diagnostics st"
  "ip_series (store_element x n i v st) = ip_series st"
  "ip_series_map (store_element x n i v st) = ip_series_map st"
  "ip_plots (store_element x n i v st) = ip_plots st"
  "ip_read_only (store_element x n i v st) = ip_read_only st"
  "ip_bridge (store_element x n i v st) = ip_bridge st"
  by (auto simp: store_element_def split: rvalue.splits)

lemma micro_same_code: "micro E D R st st' \<Longrightarrow> same_code st st'"
  by (induction rule: micro.induct)
    (auto simp: same_code_def op_defs dest!: snapshot_arrays split: option.splits prod.splits list.splits)

lemma steps_same_code: "steps E D R st st' \<Longrightarrow> same_code st st'"
  by (induction rule: rtranclp_induct) (auto simp: same_code_def dest!: micro_same_code)

text \<open>The depth of read-only evaluations stays, and while it is not zero the bridge stays too.\<close>

definition same_host :: "('o, 'b) interp \<Rightarrow> ('o, 'b) interp \<Rightarrow> bool" where
  "same_host st st' \<longleftrightarrow>
     ip_read_only st' = ip_read_only st \<and>
     (ip_read_only st \<noteq> 0 \<longrightarrow> ip_bridge st' = ip_bridge st)"

lemma micro_same_host: "micro E D R st st' \<Longrightarrow> same_host st st'"
  by (induction rule: micro.induct)
    (auto simp: same_host_def op_defs dest!: snapshot_arrays split: option.splits prod.splits list.splits)

lemma steps_same_host: "steps E D R st st' \<Longrightarrow> same_host st st'"
  by (induction rule: rtranclp_induct) (auto simp: same_host_def dest!: micro_same_host)

text \<open>What happens to the bridge is a sequence of steps of its relation.\<close>

lemma micro_bridge: "micro E D R st st' \<Longrightarrow> rel_option R\<^sup>*\<^sup>* (ip_bridge st) (ip_bridge st')"
  by (induction rule: micro.induct)
    (auto simp: op_defs option.rel_refl dest!: snapshot_arrays split: option.splits prod.splits list.splits)

lemma steps_bridge: "steps E D R st st' \<Longrightarrow> rel_option R\<^sup>*\<^sup>* (ip_bridge st) (ip_bridge st')"
proof (induction rule: rtranclp_induct)
  case base
  then show ?case by (simp add: option.rel_refl)
next
  case (step s t)
  from step.IH micro_bridge [OF step.hyps(2)] show ?case
    by (auto simp: option.rel_sel intro: rtranclp_trans)
qed

definition fns_small :: "nat \<Rightarrow> ('o, 'b) interp \<Rightarrow> bool" where
  "fns_small D st \<longleftrightarrow> (\<forall>f \<in> set (ip_fns st). fn_body_size (fn_body f) \<le> D)"

lemma micro_fns: "micro E D R st st' \<Longrightarrow> fns_small D st \<Longrightarrow> fns_small D st'"
  by (induction rule: micro.induct)
    (auto simp: fns_small_def op_defs dest!: snapshot_arrays split: option.splits prod.splits list.splits)

lemma steps_fns: "steps E D R st st' \<Longrightarrow> fns_small D st \<Longrightarrow> fns_small D st'"
  by (induction rule: rtranclp_induct) (auto dest: micro_fns)

lemma fn_of_small: "fns_small D st \<Longrightarrow> fn_body_size (fn_body (fn_of st a)) \<le> D"
  by (auto simp: fns_small_def fn_of_def)

text \<open>The budget that is left, as a number that no operation raises.\<close>

definition budget_left :: "('o, 'b) interp \<Rightarrow> nat" where
  "budget_left st = (if ip_halted st then 0 else Suc (nat (ip_left st)))"

lemma micro_budget: "micro E D R st st' \<Longrightarrow> budget_left st' \<le> budget_left st"
  by (induction rule: micro.induct)
    (auto simp: budget_left_def op_defs dest!: snapshot_arrays split: option.splits prod.splits list.splits)

lemma steps_budget: "steps E D R st st' \<Longrightarrow> budget_left st' \<le> budget_left st"
  by (induction rule: rtranclp_induct) (auto dest!: micro_budget)

lemma consume_budget: "consume st = (True, st') \<Longrightarrow> budget_left st' < budget_left st"
  by (auto simp: consume_def budget_left_def Let_def split: if_splits)

section \<open>The contract of natives and special forms\<close>

definition walks_by_steps ::
  "('o, 'b) renv \<Rightarrow> nat \<Rightarrow> ('b \<Rightarrow> 'b \<Rightarrow> bool) \<Rightarrow> ('o, 'b) walk \<Rightarrow> bool" where
  "walks_by_steps E D R r \<longleftrightarrow>
     (\<forall>w sc st v st'. work_size w \<le> D \<longrightarrow> fns_small D st \<longrightarrow> r w sc st = Some (v, st')
        \<longrightarrow> steps E D R st st')"

lemma walks_by_stepsD:
  "walks_by_steps E D R r \<Longrightarrow> work_size w \<le> D \<Longrightarrow> fns_small D st \<Longrightarrow> r w sc st = Some (v, st')
     \<Longrightarrow> steps E D R st st'"
  by (auto simp: walks_by_steps_def)

lemma size_block_stmts: "stmts_size (block_stmts b) \<le> block_size b"
  by (cases b) simp

lemma size_arg_values: "size_list size (map arg_value as) \<le> size_list size as"
proof (induction as)
  case (Cons a as)
  then show ?case by (cases a) simp
qed simp

lemma store_element_length [simp]:
  "length (ip_arrays (store_element x n i v st)) = length (ip_arrays st)"
  by (auto simp: store_element_def split: rvalue.split)

lemma micro_arrays_length: "micro E D R st st' \<Longrightarrow> length (ip_arrays st) \<le> length (ip_arrays st')"
  by (induction rule: micro.induct)
    (auto simp: op_defs dest!: snapshot_arrays split: option.splits prod.splits list.splits)

lemma steps_arrays_length: "steps E D R st st' \<Longrightarrow> length (ip_arrays st) \<le> length (ip_arrays st')"
  by (induction rule: rtranclp_induct) (auto dest!: micro_arrays_length)

lemma elements_refs: "refs_ok st (elements st v)"
  by (cases v) (auto simp: refs_ok_def elements_def array_of_def)

lemma refs_ok_append: "refs_ok st xs \<Longrightarrow> refs_ok st ys \<Longrightarrow> refs_ok st (xs @ ys)"
  by (auto simp: refs_ok_def)

text \<open>
  The reasoning is backwards over the code of an operation: \<open>moves\<close> says that a partial result,
  if there is one, was reached by elementary changes.
\<close>

definition moves ::
  "('o, 'b) renv \<Rightarrow> nat \<Rightarrow> ('b \<Rightarrow> 'b \<Rightarrow> bool) \<Rightarrow> ('o, 'b) interp \<Rightarrow> ('a \<times> ('o, 'b) interp) option \<Rightarrow> bool" where
  "moves E D R st m \<longleftrightarrow> (\<forall>v st'. m = Some (v, st') \<longrightarrow> steps E D R st st')"

lemma moves_None [intro!, simp]: "moves E D R st None"
  by (simp add: moves_def)

lemma moves_Some: "steps E D R st (snd p) \<Longrightarrow> moves E D R st (Some p)"
  by (cases p) (simp add: moves_def)

lemma moves_same [intro!, simp]: "moves E D R st (Some (v, st))"
  by (simp add: moves_def)

lemma moves_after: "steps E D R st s \<Longrightarrow> moves E D R s m \<Longrightarrow> moves E D R st m"
  by (auto simp: moves_def)

lemma moves_bind:
  assumes "fns_small D st" and "moves E D R st m"
    and "\<And>x s. m = Some (x, s) \<Longrightarrow> fns_small D s \<Longrightarrow> moves E D R s (f (x, s))"
  shows "moves E D R st (Option.bind m f)"
  unfolding moves_def
proof (intro allI impI)
  fix v st' assume "Option.bind m f = Some (v, st')"
  then obtain x s where m: "m = Some (x, s)" and f: "f (x, s) = Some (v, st')"
    by (auto elim!: bind_eq_SomeE)
  from assms(2) m have "steps E D R st s" by (simp add: moves_def)
  moreover from this assms(1) have "fns_small D s" by (rule steps_fns)
  ultimately show "steps E D R st st'" using assms(3) [OF m] f
    by (auto simp: moves_def intro: rtranclp_trans)
qed

lemma moves_bind_pure:
  assumes "\<And>x. m = Some x \<Longrightarrow> moves E D R st (f x)"
  shows "moves E D R st (Option.bind m f)"
  using assms by (cases m) auto

lemma moves_consume:
  assumes "fns_small D st"
    and "\<And>ok s. consume st = (ok, s) \<Longrightarrow> fns_small D s \<Longrightarrow> moves E D R s (f (ok, s))"
  shows "moves E D R st (f (consume st))"
proof -
  obtain ok s where c: "consume st = (ok, s)" by fastforce
  have "steps E D R st s" using c by (rule steps_consume)
  then show ?thesis using assms c by (auto intro: moves_after dest: steps_fns)
qed

definition walk_moves ::
  "('o, 'b) renv \<Rightarrow> nat \<Rightarrow> ('b \<Rightarrow> 'b \<Rightarrow> bool) \<Rightarrow> ('o, 'b) walk \<Rightarrow> bool" where
  "walk_moves E D R r \<longleftrightarrow> (\<forall>w sc st. work_size w \<le> D \<longrightarrow> fns_small D st \<longrightarrow> moves E D R st (r w sc st))"

lemma walk_movesD: "walk_moves E D R r \<Longrightarrow> work_size w \<le> D \<Longrightarrow> fns_small D st \<Longrightarrow> moves E D R st (r w sc st)"
  by (simp add: walk_moves_def)

lemma binary_value_moves: "moves E D R st (binary_value E op x y st)"
proof -
  have "micro E D R st (snd (new_array (elements st x @ elements st y) st))"
    by (intro m_array refs_ok_append elements_refs)
  then show ?thesis
    by (auto simp: binary_value_def intro!: moves_bind_pure moves_Some intro: one_step)
qed

lemma snapshot_moves: "moves E D R st (snapshot v st)"
  by (auto simp: moves_def intro: one_step m_snapshot)

locale runtime =
  fixes E :: "('o, 'b) renv" and D :: nat and R :: "'b \<Rightarrow> 'b \<Rightarrow> bool"
  assumes native_steps: "steps E D R st (snd (re_native E x vs st))"
    and special_steps:
      "walk_moves E D R r \<Longrightarrow> fns_small D st \<Longrightarrow> size e < D \<Longrightarrow>
       re_special E (\<lambda>e. r (WExpr e)) e sc st = Some m \<Longrightarrow> moves E D R st m"
begin

lemma eval_list_moves:
  assumes r: "walk_moves E D R r"
  shows "fns_small D st \<Longrightarrow> size_list size es < D \<Longrightarrow> moves E D R st (eval_list r es sc st)"
proof (induction es arbitrary: st)
  case (Cons e es)
  then show ?case by (auto intro!: moves_bind simp: walk_movesD [OF r])
qed simp

lemma eval_elements_moves:
  assumes r: "walk_moves E D R r"
  shows "fns_small D st \<Longrightarrow> size_list size es < D \<Longrightarrow> moves E D R st (eval_elements r es sc st)"
proof (induction es arbitrary: st)
  case (Cons e es)
  then show ?case by (auto intro!: moves_bind simp: walk_movesD [OF r] snapshot_moves)
qed simp

lemma eval_elements_refs:
  assumes r: "walk_moves E D R r"
  shows "fns_small D st \<Longrightarrow> size_list size es < D \<Longrightarrow> eval_elements r es sc st = Some (vs, st')
    \<Longrightarrow> VArray b \<in> set vs \<Longrightarrow> b < length (ip_arrays st')"
proof (induction es arbitrary: st vs)
  case (Cons e es)
  from Cons.prems(3) obtain v s u s1 us where e: "r (WExpr e) sc st = Some (v, s)"
      and n: "snapshot v s = Some (u, s1)"
      and l: "eval_elements r es sc s1 = Some (us, st')" and vs: "vs = u # us"
    by (auto elim!: bind_eq_SomeE)
  have m: "moves E D R st (r (WExpr e) sc st)"
    using Cons.prems(1,2) by (intro walk_movesD [OF r]) auto
  have s: "steps E D R st s" using m e by (simp add: moves_def)
  moreover have "steps E D R s s1" using n by (auto intro: one_step m_snapshot)
  ultimately have small: "fns_small D s1" using Cons.prems(1) by (blast intro: steps_fns)
  have sz: "size_list size es < D" using Cons.prems(2) by simp
  show ?case
  proof (cases "VArray b = u")
    case True
    then have "b < length (ip_arrays s1)" using snapshot_fresh [OF n] by (auto simp: fresh_value_def)
    moreover have "steps E D R s1 st'"
      using eval_elements_moves [OF r small sz, of sc] l by (simp add: moves_def)
    then have "length (ip_arrays s1) \<le> length (ip_arrays st')" by (rule steps_arrays_length)
    ultimately show ?thesis by simp
  next
    case False
    then have "VArray b \<in> set us" using Cons.prems(4) vs by simp
    then show ?thesis by (rule Cons.IH [OF small sz l])
  qed
qed simp

lemma eval_binary_moves:
  assumes r: "walk_moves E D R r" and st: "fns_small D st" and sz: "size x < D" "size y < D"
  shows "moves E D R st (eval_binary E r x op y sc st)"
  using st sz unfolding eval_binary_def
  by (auto intro!: moves_bind simp: walk_movesD [OF r] binary_value_moves)

lemma eval_unary_moves:
  assumes r: "walk_moves E D R r" and st: "fns_small D st" and sz: "size x < D"
  shows "moves E D R st (eval_unary r op x sc st)"
  using st sz unfolding eval_unary_def
  by (auto intro!: moves_bind simp: walk_movesD [OF r])

lemma call_user_moves:
  assumes r: "walk_moves E D R r" and st: "fns_small D st" and f: "fn_body_size (fn_body f) \<le> D"
  shows "moves E D R st (call_user r f vs st)"
proof -
  obtain sc s1 where c: "call_scope f vs st = (sc, s1)" by fastforce
  then have s1: "steps E D R st s1" by (rule steps_call_scope)
  then have small: "fns_small D s1" using st by (rule steps_fns)
  have "moves E D R s1 (call_user r f vs st)"
    using small f unfolding call_user_def c
    by (auto simp: walk_movesD [OF r] split: fn_body.splits intro!: moves_bind moves_Some one_step [OF m_sig])
  with s1 show ?thesis by (rule moves_after)
qed

lemma call_fn_moves:
  assumes r: "walk_moves E D R r" and st: "fns_small D st" and f: "fn_body_size (fn_body f) \<le> D"
  shows "moves E D R st (call_fn E r f vs st)"
  using st f unfolding call_fn_def
  by (auto simp: call_user_moves [OF r] split: fn_body.splits
      intro!: moves_consume [OF st] moves_Some native_steps)

lemma eval_call_moves:
  assumes r: "walk_moves E D R r" and st: "fns_small D st"
    and sz: "size (CallExpr t c args) < D"
  shows "moves E D R st (eval_call E r t c args sc st)"
proof -
  have args: "size_list size (map arg_value args) < D"
    using sz size_arg_values [of args] by simp
  show ?thesis
  proof (cases "special_form E r (CallExpr t c args) sc st")
    case None
    then show ?thesis using sz args st unfolding eval_call_def
      by (auto simp: walk_movesD [OF r] eval_list_moves [OF r] call_fn_moves [OF r] fn_of_small
          split: rvalue.split intro!: moves_bind)
  next
    case (Some m)
    then have "re_special E (\<lambda>e. r (WExpr e)) (CallExpr t c args) sc st = Some m"
      by (simp add: special_form_def split: if_splits)
    then show ?thesis using special_steps [OF r st sz] Some by (simp add: eval_call_def)
  qed
qed

lemma eval_dot_moves: "moves E D R st (eval_dot E e fld sc st)"
  unfolding eval_dot_def
  by (auto simp: Let_def intro!: moves_Some steps_warning native_steps split: expr.split option.split)

lemma eval_expr_moves:
  assumes r: "walk_moves E D R r" and st: "fns_small D st" and sz: "size e < D"
  shows "moves E D R st (eval_expr E r e sc st)"
proof (cases e)
  case (IdentExpr t x)
  then show ?thesis
    by (auto simp: eval_expr_def eval_ident_def intro!: moves_Some one_step [OF m_unresolved]
        split: option.split)
next
  case (IndexExpr t x y)
  then show ?thesis using sz st
    by (auto simp: eval_expr_def eval_index_def walk_movesD [OF r] steps_index_value
        intro!: moves_bind moves_Some)
next
  case (TernaryExpr t c x y)
  then show ?thesis using sz st
    by (auto simp: eval_expr_def walk_movesD [OF r] intro!: moves_bind)
next
  case (ArrayLit t es)
  then have small: "size_list size es < D" using sz by simp
  show ?thesis unfolding ArrayLit eval_expr_def using st small
    by (auto simp: refs_ok_def eval_elements_moves [OF r] dest: eval_elements_refs [OF r st small]
        intro!: moves_bind moves_Some one_step [OF m_array])
next
  case (LambdaExpr t ps body)
  then show ?thesis using sz
    by (auto simp: eval_expr_def intro!: moves_Some one_step [OF m_fn])
qed (use sz st in \<open>auto simp: eval_expr_def eval_binary_moves [OF r] eval_unary_moves [OF r]
       eval_call_moves [OF r] eval_dot_moves\<close>)

lemma exec_var_decl_moves:
  assumes r: "walk_moves E D R r" and st: "fns_small D st" and sz: "size e < D"
  shows "moves E D R st (exec_var_decl r x varip persist e sc st)"
proof -
  have p: "steps E D R s (snd (promote x v sc s'))" if "steps E D R s s'" for v and s s' :: "('o, 'b) interp"
    using that m_promote [of E D R s' x v sc] by (rule rtranclp.rtrancl_into_rtrancl)
  have q: "moves E D R st (do { (v, st) \<leftarrow> r (WExpr e) sc st; Some (promote x v sc (f v st)) })"
    if "\<And>v s. steps E D R s (f v s)" for f
    using st sz that by (auto intro!: moves_bind moves_Some p simp: walk_movesD [OF r])
  have 1: "steps E D R s (s\<lparr>ip_persist := (ip_persist s)(x := Some v)\<rparr>)"
    and 2: "steps E D R s (s\<lparr>ip_varip := (ip_varip s)(x := Some v)\<rparr>)" for v s
    by (auto intro: one_step m_persist m_varip)
  show ?thesis
    unfolding exec_var_decl_def using q [OF 1] q [OF 2] q [of "\<lambda>v s. s"]
    by (auto split: option.split intro: moves_Some p)
qed

lemma exec_assign_moves:
  assumes r: "walk_moves E D R r" and st: "fns_small D st" and sz: "size e < D"
  shows "moves E D R st (exec_assign r x op e sc st)"
  unfolding exec_assign_def using st sz
  by (auto simp: walk_movesD [OF r] split: prod.split intro!: moves_bind moves_Some steps_assign)

lemma exec_index_assign_moves:
  assumes r: "walk_moves E D R r" and st: "fns_small D st" and sz: "size x < D" "size i < D" "size e < D"
  shows "moves E D R st (exec_index_assign E r x i e sc st)"
proof -
  have store: "moves E D R s (do { (w, s') \<leftarrow> snapshot v s; Some (w, store_element u n k w s') })"
    if n: "n = length (elements s0 u)" and le: "length (ip_arrays s0) \<le> length (ip_arrays s)"
    for u n k v and s0 s :: "('o, 'b) interp"
    unfolding moves_def
  proof (intro allI impI)
    fix w st' assume "do { (w, s') \<leftarrow> snapshot v s; Some (w, store_element u n k w s') } = Some (w, st')"
    then obtain s' where v: "snapshot v s = Some (w, s')" and st': "st' = store_element u n k w s'"
      by (auto elim!: bind_eq_SomeE)
    have "micro E D R s st'"
    proof (cases "n = 0")
      case True
      then have "\<not> (0 \<le> k \<and> k < int n)" by simp
      then have "st' = s'" unfolding st' store_element_def
        by (simp only: if_False) (cases u; simp)
      then show ?thesis using m_snapshot [OF v] by simp
    next
      case False
      have "a < length (ip_arrays s)" if "u = VArray a" for a
      proof (rule ccontr)
        assume "\<not> a < length (ip_arrays s)"
        then have "elements s0 u = []" using le that by (simp add: elements_def array_of_def)
        then show False using False n by simp
      qed
      then show ?thesis unfolding st' by (intro m_store [OF v]) blast
    qed
    then show "steps E D R s st'" by (rule one_step)
  qed
  have len: "length (ip_arrays s) \<le> length (ip_arrays s')"
    if "r (WExpr e') sc s = Some (v, s')" "fns_small D s" "size e' < D" for e' v s s'
  proof -
    have "moves E D R s (r (WExpr e') sc s)" using that(2,3) by (intro walk_movesD [OF r]) auto
    then show ?thesis using that(1) by (auto simp: moves_def intro: steps_arrays_length)
  qed
  have inner: "moves E D R s1 (do { (v, st) \<leftarrow> r (WExpr e) sc s1; (v, st) \<leftarrow> snapshot v st;
        Some (v, store_element u (length (elements s0 u)) k v st) })"
    if "fns_small D s1" and "length (ip_arrays s0) \<le> length (ip_arrays s1)" for u k and s0 s1 :: "('o, 'b) interp"
  proof (rule moves_bind [OF that(1)])
    fix w s assume e: "r (WExpr e) sc s1 = Some (w, s)"
    have "length (ip_arrays s0) \<le> length (ip_arrays s)"
      using that(2) len [OF e that(1) sz(3)] by (rule order_trans)
    then show "moves E D R s (case (w, s) of (v, st) \<Rightarrow> do { (v, st) \<leftarrow> snapshot v st;
        Some (v, store_element u (length (elements s0 u)) k v st) })"
      unfolding prod.case by (rule store [OF refl])
  qed (use that sz in \<open>simp add: walk_movesD [OF r]\<close>)
  show ?thesis
    unfolding exec_index_assign_def Let_def using st sz
    by (auto simp: walk_movesD [OF r] len intro!: moves_bind inner)
qed

lemma exec_tuple_assign_moves:
  assumes r: "walk_moves E D R r" and st: "fns_small D st" and sz: "size e < D"
  shows "moves E D R st (exec_tuple_assign r xs e sc st)"
  unfolding exec_tuple_assign_def using st sz
  by (auto simp: walk_movesD [OF r] intro!: moves_bind moves_Some steps_bind_params)

lemma block_moves:
  assumes r: "walk_moves E D R r" and "block_size b < D" and st: "fns_small D st"
  shows "moves E D R st (r (WBlock (block_stmts b)) sc st)"
  using assms(2) size_block_stmts [of b] by (intro walk_movesD [OF r _ st]) simp

lemma exec_else_ifs_moves:
  assumes r: "walk_moves E D R r" and els: "\<And>b. els = Some b \<Longrightarrow> block_size b < D"
  shows "fns_small D st \<Longrightarrow> sum_list (map else_if_size eis) < D \<Longrightarrow> moves E D R st (exec_else_ifs r eis els sc st)"
proof (induction eis arbitrary: st)
  case Nil
  then show ?case using els by (auto simp: block_moves [OF r] split: option.split)
next
  case (Cons ei eis)
  obtain t c b where ei: "ei = ElseIf t c b" by (cases ei) auto
  have "block_size b < D" "size c < D" "sum_list (map else_if_size eis) < D"
    using Cons.prems(2) by (auto simp: ei)
  then show ?case using Cons
    by (auto simp: ei walk_movesD [OF r] block_moves [OF r] Suc_le_eq intro!: moves_bind)
qed

lemma exec_if_moves:
  assumes r: "walk_moves E D R r" and st: "fns_small D st"
    and sz: "size c < D" "block_size b < D" "sum_list (map else_if_size eis) < D" "\<And>b. els = Some b \<Longrightarrow> block_size b < D"
  shows "moves E D R st (exec_if r c b eis els sc st)"
  unfolding exec_if_def using st sz
  by (auto simp: walk_movesD [OF r] block_moves [OF r] Suc_le_eq exec_else_ifs_moves [OF r]
      intro!: moves_bind)

lemma sig_moves: "moves E D R (st\<lparr>ip_sig := x\<rparr>) m \<Longrightarrow> moves E D R st m"
  by (rule moves_after [OF one_step [OF m_sig]])

lemma fns_small_sig [simp]: "fns_small D (s\<lparr>ip_sig := y\<rparr>) = fns_small D s"
  by (simp add: fns_small_def)

lemma loop_body_moves:
  assumes r: "walk_moves E D R r" and sz: "stmts_size body < D" and st: "fns_small D st"
  shows "moves E D R st (r (WBlock body) sc (scope_assign sc x w st))"
proof -
  have a: "steps E D R st (scope_assign sc x w st)" by (rule steps_scope_assign)
  then have "fns_small D (scope_assign sc x w st)" using st by (rule steps_fns)
  then have "moves E D R (scope_assign sc x w st) (r (WBlock body) sc (scope_assign sc x w st))"
    using sz by (intro walk_movesD [OF r]) auto
  with a show ?thesis by (rule moves_after)
qed

lemma for_loop_moves:
  assumes r: "walk_moves E D R r" and st: "fns_small D st" and sz: "stmts_size body + 2 \<le> D"
  shows "moves E D R st (for_loop r x i stop step body v sc st)"
  unfolding for_loop_def using sz
  by (auto intro!: moves_consume [OF st] moves_bind loop_body_moves [OF r] moves_Some
      one_step [OF m_sig] sig_moves [where x = SigNone, OF walk_movesD [OF r]] walk_movesD [OF r])

lemma exec_for_moves:
  assumes r: "walk_moves E D R r" and st: "fns_small D st"
    and sz: "size a < D" "size b < D" "\<And>e. d = Some e \<Longrightarrow> size e < D" "stmts_size body + 2 \<le> D"
  shows "moves E D R st (exec_for r x a b d body sc st)"
  unfolding exec_for_def Let_def using st sz
  by (auto simp: walk_movesD [OF r] split: option.split intro!: moves_bind)

lemma for_in_loop_moves:
  assumes r: "walk_moves E D R r" and sz: "stmts_size body < D"
  shows "fns_small D st \<Longrightarrow> moves E D R st (for_in_loop r x coll is body v sc st)"
proof (induction "is" arbitrary: v st)
  case (Cons i "is")
  have "moves E D R s (for_in_loop r x coll is body u sc (s\<lparr>ip_sig := SigNone\<rparr>))"
    if "fns_small D s" for u s
    using that by (intro sig_moves [where x = SigNone, OF Cons.IH]) simp
  then show ?case using sz Cons.IH
    by (auto simp: Let_def intro!: moves_consume [OF Cons.prems] moves_bind loop_body_moves [OF r]
        moves_Some one_step [OF m_sig])
qed simp

lemma exec_for_in_moves:
  assumes r: "walk_moves E D R r" and st: "fns_small D st" and sz: "size e < D" "stmts_size body < D"
  shows "moves E D R st (exec_for_in r x e body sc st)"
  unfolding exec_for_in_def using st sz
  by (auto simp: walk_movesD [OF r] for_in_loop_moves [OF r] intro!: moves_bind)

lemma while_loop_moves:
  assumes r: "walk_moves E D R r" and st: "fns_small D st"
    and sz: "size c + stmts_size body + 3 \<le> D"
  shows "moves E D R st (while_loop r c body i v sc st)"
proof -
  have warn: "moves E D R st (Some (v, add_diagnostic (bar_diagnostic sev ''dsl.while_iteration_cap'' m f h st) st))"
    for sev m f h
    by (intro moves_Some) (auto intro!: one_step m_diagnostic simp: bar_diagnostic_def)
  show ?thesis
    unfolding while_loop_def using sz
    by (auto intro!: moves_consume [OF st] moves_bind moves_Some warn one_step [OF m_sig]
        sig_moves [where x = SigNone, OF walk_movesD [OF r]] walk_movesD [OF r])
qed

lemma exec_in_child_moves:
  assumes r: "walk_moves E D R r" and st: "fns_small D st" and sz: "block_size b < D"
  shows "moves E D R st (exec_in_child r b sc st)"
proof -
  obtain sc' s where c: "scope_child sc st = (sc', s)" by fastforce
  have s: "steps E D R st s" using c by (rule steps_child)
  then have "fns_small D s" using st by (rule steps_fns)
  then show ?thesis using s sz
    by (auto simp: exec_in_child_def c intro: moves_after block_moves [OF r])
qed

lemma exec_cases_moves:
  assumes r: "walk_moves E D R r" and dflt: "\<And>b. dflt = Some b \<Longrightarrow> block_size b < D"
  shows "fns_small D st \<Longrightarrow> sum_list (map case_size cs) < D \<Longrightarrow> moves E D R st (exec_cases E r tag cs dflt sc st)"
proof (induction cs arbitrary: st)
  case Nil
  then show ?case using dflt by (auto simp: exec_in_child_moves [OF r] split: option.split)
next
  case (Cons c cs)
  obtain e b where c: "c = SwitchCase e b" by (cases c) auto
  have sz: "block_size b < D" "size e < D" "sum_list (map case_size cs) < D"
    using Cons.prems(2) by (auto simp: c)
  have "moves E D R s (do { hit \<leftarrow> (case tag of Some t \<Rightarrow> val_equal (re_same E) t v s | None \<Rightarrow> Some (bool_of s v));
      if hit then exec_in_child r b sc s else exec_cases E r tag cs dflt sc s })"
    if "fns_small D s" for v s
    using that sz Cons.IH by (auto simp: exec_in_child_moves [OF r] intro!: moves_bind_pure)
  then show ?case using Cons.prems(1) sz
    by (auto simp: c walk_movesD [OF r] Suc_le_eq intro!: moves_bind)
qed

lemma exec_switch_moves:
  assumes r: "walk_moves E D R r" and st: "fns_small D st"
    and sz: "\<And>e. tag = Some e \<Longrightarrow> size e < D" "sum_list (map case_size cs) < D" "\<And>b. dflt = Some b \<Longrightarrow> block_size b < D"
  shows "moves E D R st (exec_switch E r tag cs dflt sc st)"
  unfolding exec_switch_def using st sz
  by (auto simp: walk_movesD [OF r] exec_cases_moves [OF r] split: option.split intro!: moves_bind)

lemma exec_return_moves:
  assumes r: "walk_moves E D R r" and st: "fns_small D st" and sz: "\<And>e. x = Some e \<Longrightarrow> size e < D"
  shows "moves E D R st (exec_return r x sc st)"
proof -
  have "steps E D R s (s\<lparr>ip_ret := v, ip_sig := SigReturn\<rparr>)" for v and s :: "('o, 'b) interp"
    using m_ret [of E D R s v] m_sig [of E D R "s\<lparr>ip_ret := v\<rparr>" SigReturn]
    by (auto intro: rtranclp.intros)
  then show ?thesis
    unfolding exec_return_def using st sz
    by (auto simp: walk_movesD [OF r] split: option.split intro!: moves_bind moves_Some)
qed

lemma exec_stmt_moves:
  assumes r: "walk_moves E D R r" and st: "fns_small D st" and sz: "stmt_size s < D"
  shows "moves E D R st (exec_stmt E r s sc st)"
proof -
  note b = size_block_stmts
  show ?thesis
  proof (cases s)
    case (FnDecl t x ps b)
    then have "block_size b < D" using sz by simp
    then have "stmts_size (block_stmts b) + 1 \<le> D" using b [of b] by simp
    then show ?thesis
      by (auto simp: FnDecl exec_stmt_def intro!: moves_Some steps_exec_fn_decl [where x = x] surjective_pairing)
  next
    case (IfStmt t c b eis els)
    then show ?thesis using sz st
      by (auto simp: exec_stmt_def intro!: exec_if_moves [OF r])
  next
    case (ForStmt t x u w d body)
    then show ?thesis using sz st b [of body]
      by (auto simp: exec_stmt_def intro!: exec_for_moves [OF r])
  next
    case (ForInStmt t x u body)
    then show ?thesis using sz st b [of body]
      by (auto simp: exec_stmt_def intro!: exec_for_in_moves [OF r])
  next
    case (WhileStmt t c body)
    then show ?thesis using sz st b [of body]
      by (auto simp: exec_stmt_def intro!: walk_movesD [OF r])
  next
    case (SwitchStmt t tag cs dflt)
    then show ?thesis using sz st
      by (auto simp: exec_stmt_def intro!: exec_switch_moves [OF r])
  next
    case (ReturnStmt t e)
    then show ?thesis using sz st
      by (auto simp: exec_stmt_def intro!: exec_return_moves [OF r])
  qed (use sz st in \<open>auto simp: exec_stmt_def exec_var_decl_moves [OF r] exec_assign_moves [OF r]
      exec_index_assign_moves [OF r] exec_tuple_assign_moves [OF r] walk_movesD [OF r]
      Suc_le_eq intro!: moves_Some one_step [OF m_sig]\<close>)
qed

lemma exec_block_moves:
  assumes r: "walk_moves E D R r"
  shows "fns_small D st \<Longrightarrow> stmts_size ss < D \<Longrightarrow> moves E D R st (exec_block E r ss v sc st)"
proof (induction ss arbitrary: v st)
  case (Cons s ss)
  have "stmt_size s < D" "stmts_size ss < D" using Cons.prems(2) by auto
  then show ?case using Cons.IH
    by (auto intro!: moves_consume [OF Cons.prems(1)] moves_bind exec_stmt_moves [OF r] simp: Let_def)
qed simp

lemma run_moves: "walk_moves E D R (run E n)"
proof (induction n)
  case (Suc n)
  have "moves E D R st (walk_step E (run E n) w sc st)"
    if "work_size w \<le> D" "fns_small D st" for w :: "'o work" and sc st
    using that
    by (cases w) (auto simp: walk_step_def Suc_le_eq eval_expr_moves [OF Suc] exec_block_moves [OF Suc]
        for_loop_moves [OF Suc] while_loop_moves [OF Suc])
  then show ?case by (simp add: walk_moves_def)
qed (simp add: walk_moves_def)

theorem run_steps:
  "run E n w sc st = Some (v, st') \<Longrightarrow> work_size w \<le> D \<Longrightarrow> fns_small D st \<Longrightarrow> steps E D R st st'"
  using run_moves [of n] by (auto simp: walk_moves_def moves_def)

end

end
