(* ===== verification/Dsl_Exec_Total.thy ===== *)
theory Dsl_Exec_Total
  imports Dsl_Exec_Laws
begin

text \<open>
  No array contains itself, so that taking a snapshot of a value and comparing two values end.
\<close>

section \<open>No array contains itself\<close>

definition ranked :: "'o rvalue list list \<Rightarrow> (nat \<Rightarrow> nat) \<Rightarrow> bool" where
  "ranked xs rk \<longleftrightarrow>
     (\<forall>a < length xs. rk a < length xs \<and>
        (\<forall>b. VArray b \<in> set (xs ! a) \<longrightarrow> b < length xs \<and> rk b < rk a))"

definition heap_ok :: "('o, 'b) interp \<Rightarrow> bool" where
  "heap_ok st \<longleftrightarrow> (\<exists>rk. ranked (ip_arrays st) rk)"

lemma rankedD:
  assumes "ranked xs rk" and "a < length xs"
  shows "rk a < length xs"
    and "VArray b \<in> set (xs ! a) \<Longrightarrow> b < length xs"
    and "VArray b \<in> set (xs ! a) \<Longrightarrow> rk b < rk a"
  using assms by (auto simp: ranked_def)

lemma ranked_array:
  assumes rk: "ranked (ip_arrays st) rk" and ok: "refs_ok st ws"
  shows "ranked (ip_arrays st @ [ws]) (rk(length (ip_arrays st) := length (ip_arrays st)))"
proof -
  have closed: "b < length (ip_arrays st)" if "xs \<in> set (ip_arrays st)" "VArray b \<in> set xs" for xs b
  proof -
    from that(1) obtain a where "a < length (ip_arrays st)" "xs = ip_arrays st ! a"
      by (auto simp: in_set_conv_nth)
    with that(2) show ?thesis using rankedD(2) [OF rk] by blast
  qed
  have ws: "b < length (ip_arrays st)" if "VArray b \<in> set ws" for b
    using ok that closed unfolding refs_ok_def by blast
  show ?thesis
    unfolding ranked_def
  proof (intro allI impI)
    fix a assume a: "a < length (ip_arrays st @ [ws])"
    show "(rk(length (ip_arrays st) := length (ip_arrays st))) a < length (ip_arrays st @ [ws]) \<and>
      (\<forall>b. VArray b \<in> set ((ip_arrays st @ [ws]) ! a) \<longrightarrow> b < length (ip_arrays st @ [ws]) \<and>
        (rk(length (ip_arrays st) := length (ip_arrays st))) b
          < (rk(length (ip_arrays st) := length (ip_arrays st))) a)"
    proof (cases "a = length (ip_arrays st)")
      case True
      then show ?thesis using ws rankedD(1) [OF rk] by fastforce
    next
      case False
      with a have a': "a < length (ip_arrays st)" by simp
      note r = rankedD [OF rk a']
      show ?thesis using r False a' by (fastforce simp: nth_append)
    qed
  qed
qed

lemma ranked_fresh:
  assumes rk: "ranked xs rk" and new: "fresh_arrays (length xs) new"
  shows "ranked (xs @ new) (\<lambda>i. if i < length xs then rk i else i)"
  unfolding ranked_def
proof (intro allI impI)
  fix a assume a: "a < length (xs @ new)"
  let ?rk = "\<lambda>i. if i < length xs then rk i else i"
  show "?rk a < length (xs @ new) \<and>
    (\<forall>b. VArray b \<in> set ((xs @ new) ! a) \<longrightarrow> b < length (xs @ new) \<and> ?rk b < ?rk a)"
  proof (cases "a < length xs")
    case True
    note r = rankedD [OF rk True]
    show ?thesis using r True by (fastforce simp: nth_append)
  next
    case False
    have "b < length (xs @ new) \<and> ?rk b < ?rk a" if "VArray b \<in> set ((xs @ new) ! a)" for b
    proof -
      have "a - length xs < length new" "VArray b \<in> set (new ! (a - length xs))"
        using that False a by (auto simp: nth_append)
      with new have "length xs \<le> b" "b < length xs + (a - length xs)"
        unfolding fresh_arrays_def by blast+
      then show ?thesis using False a by auto
    qed
    then show ?thesis using False a by auto
  qed
qed

lemma ranked_store:
  assumes rk: "ranked xs rk" and new: "fresh_arrays (length xs) new"
    and w: "fresh_value (length xs) (length new) w" and a: "a < length xs + length new"
    and j: "j < length ((xs @ new) ! a)"
    and old: "a < length xs"
  shows "ranked ((xs @ new)[a := ((xs @ new) ! a)[j := w]])
           (\<lambda>i. if i < length xs then rk i + length new else i - length xs)"
  unfolding ranked_def
proof (intro allI impI)
  let ?rk = "\<lambda>i. if i < length xs then rk i + length new else i - length xs"
  let ?ys = "(xs @ new)[a := ((xs @ new) ! a)[j := w]]"
  fix c assume c: "c < length ?ys"
  have "b < length ?ys \<and> ?rk b < ?rk c" if b: "VArray b \<in> set (?ys ! c)" for b
  proof (cases "VArray b \<in> set ((xs @ new) ! c)")
    case True
    show ?thesis
    proof (cases "c < length xs")
      case True': True
      note r = rankedD [OF rk True']
      have "VArray b \<in> set (xs ! c)" using True True' by (simp add: nth_append)
      then show ?thesis using r(2,3) True' by (auto simp: trans_less_add1)
    next
      case False
      have "c - length xs < length new" "VArray b \<in> set (new ! (c - length xs))"
        using True False c by (auto simp: nth_append)
      with new have "length xs \<le> b" "b < length xs + (c - length xs)"
        unfolding fresh_arrays_def by blast+
      then show ?thesis using False c by auto
    qed
  next
    case False
    have "set (((xs @ new) ! a)[j := w]) \<subseteq> insert w (set ((xs @ new) ! a))"
      by (rule set_update_subset_insert)
    then have "c = a" "VArray b = w"
      using b False c by (cases "c = a"; auto)+
    then show ?thesis using w old by (auto simp: fresh_value_def)
  qed
  moreover have "?rk c < length ?ys"
    using rankedD(1) [OF rk] c by auto
  ultimately show "?rk c < length ?ys \<and> (\<forall>b. VArray b \<in> set (?ys ! c) \<longrightarrow> b < length ?ys \<and> ?rk b < ?rk c)"
    by blast
qed

lemma micro_heap: "micro E D R st st' \<Longrightarrow> heap_ok st \<Longrightarrow> heap_ok st'"
proof (induction rule: micro.induct)
  case (m_array st ws)
  then show ?case by (auto simp: heap_ok_def new_array_def dest: ranked_array)
next
  case (m_snapshot v st w st')
  from m_snapshot(2) obtain rk where rk: "ranked (ip_arrays st) rk" by (auto simp: heap_ok_def)
  from snapshot_fresh [OF m_snapshot(1)] obtain new
    where st': "st' = st\<lparr>ip_arrays := ip_arrays st @ new\<rparr>"
      and new: "fresh_arrays (length (ip_arrays st)) new" by blast
  show ?case using ranked_fresh [OF rk new] by (auto simp: heap_ok_def st')
next
  case (m_store v st w st' left n i)
  from snapshot_fresh [OF m_store(1)] obtain new
    where st': "st' = st\<lparr>ip_arrays := ip_arrays st @ new\<rparr>"
      and new: "fresh_arrays (length (ip_arrays st)) new"
      and w: "fresh_value (length (ip_arrays st)) (length new) w" by blast
  from m_store(3) obtain rk where rk: "ranked (ip_arrays st) rk" by (auto simp: heap_ok_def)
  have same: "heap_ok st'" using ranked_fresh [OF rk new] by (auto simp: heap_ok_def st')
  show ?case
  proof (cases "\<exists>a. left = VArray a \<and> 0 \<le> i \<and> i < int n \<and> nat i < length ((ip_arrays st @ new) ! a)")
    case True
    then obtain a where a: "left = VArray a" "0 \<le> i" "i < int n" "nat i < length ((ip_arrays st @ new) ! a)"
      by blast
    then have old: "a < length (ip_arrays st)" using m_store(2) by blast
    have "array_of st' a = (ip_arrays st @ new) ! a" using old by (simp add: array_of_def st')
    then show ?thesis using ranked_store [OF rk new w _ a(4) old] old a
      by (auto simp: store_element_def heap_ok_def st')
  next
    case False
    then have "ip_arrays (store_element left n i w st') = ip_arrays st'"
      by (auto simp: store_element_def array_of_def st' list_update_beyond split: rvalue.split)
    then show ?thesis using same by (simp add: heap_ok_def)
  qed
qed (auto simp: heap_ok_def op_defs split: option.splits prod.splits list.splits)

lemma steps_heap: "steps E D R st st' \<Longrightarrow> heap_ok st \<Longrightarrow> heap_ok st'"
  by (induction rule: rtranclp_induct) (auto dest: micro_heap)

section \<open>Snapshots and comparisons end\<close>

text \<open>The depth of a value: one more than the rank of its array.\<close>

definition depth :: "('o, 'b) interp \<Rightarrow> (nat \<Rightarrow> nat) \<Rightarrow> 'o rvalue \<Rightarrow> nat" where
  "depth st rk v = (case v of VArray a \<Rightarrow> if a < length (ip_arrays st) then Suc (rk a) else 0 | _ \<Rightarrow> 0)"

lemma depth_element:
  assumes rk: "ranked (ip_arrays st) rk" and v: "v \<in> set (array_of st a)"
  shows "depth st rk v < depth st rk (VArray a)"
proof -
  have a: "a < length (ip_arrays st)" using v by (auto simp: array_of_def split: if_splits)
  show ?thesis
  proof (cases v)
    case (VArray b)
    then show ?thesis using rankedD(3) [OF rk a, of b] v a by (auto simp: depth_def array_of_def)
  qed (use a in \<open>simp_all add: depth_def\<close>)
qed

lemma depth_le:
  assumes "ranked (ip_arrays st) rk"
  shows "depth st rk v \<le> length (ip_arrays st)"
  using rankedD(1) [OF assms] by (auto simp: depth_def Suc_le_eq split: rvalue.split)

lemma snapshot_upto_total:
  fixes st s :: "('o, 'b) interp"
  assumes rk: "ranked (ip_arrays st) rk"
  shows "depth st rk v < n \<Longrightarrow> ip_arrays s = ip_arrays st @ new
    \<Longrightarrow> (\<And>a. v = VArray a \<Longrightarrow> a < length (ip_arrays st) \<or> a \<ge> length (ip_arrays s))
    \<Longrightarrow> snapshot_upto n v s \<noteq> None"
proof (induction n arbitrary: v s new)
  case (Suc n)
  show ?case
  proof (cases v)
    case (VArray a)
    define vs where "vs = array_of st a"
    have elems: "array_of s a = vs"
      using Suc.prems(2) Suc.prems(3) [OF VArray] by (auto simp: vs_def array_of_def nth_append)
    have "snapshot_list (snapshot_upto n) us t \<noteq> None"
      if "set us \<subseteq> set vs" "ip_arrays t = ip_arrays st @ new'" for us new' and t :: "('o, 'b) interp"
      using that
    proof (induction us arbitrary: t new')
      case (Cons u us)
      have u: "u \<in> set (array_of st a)" using Cons.prems(1) by (simp add: vs_def)
      have "depth st rk u < n"
        using depth_element [OF rk u] Suc.prems(1) VArray by simp
      moreover have "b < length (ip_arrays st)" if "u = VArray b" for b
      proof -
        have "a < length (ip_arrays st)" using u by (auto simp: array_of_def split: if_splits)
        then show ?thesis using rankedD(2) [OF rk, of a b] u that by (auto simp: array_of_def)
      qed
      ultimately have "snapshot_upto n u t \<noteq> None" using Suc.IH [OF _ Cons.prems(2)] by blast
      then obtain w t' where t': "snapshot_upto n u t = Some (w, t')" by auto
      then obtain more where "ip_arrays t' = ip_arrays t @ more"
        using snapshot_upto_fresh [OF t'] by auto
      then have "ip_arrays t' = ip_arrays st @ (new' @ more)" using Cons.prems(2) by simp
      then show ?case using Cons.IH [of t'] Cons.prems(1) t' by auto
    qed simp
    then have "snapshot_list (snapshot_upto n) vs s \<noteq> None" using Suc.prems(2) by blast
    then show ?thesis by (auto simp: VArray elems)
  qed simp_all
qed simp

lemma snapshot_total: "heap_ok st \<Longrightarrow> snapshot v st \<noteq> None"
  unfolding heap_ok_def snapshot_def
proof (elim exE)
  fix rk assume rk: "ranked (ip_arrays st) rk"
  show "snapshot_upto (Suc (length (ip_arrays st))) v st \<noteq> None"
    by (rule snapshot_upto_total [OF rk, of _ _ _ "[]"]) (use depth_le [OF rk, of v] in auto)
qed

lemma val_equal_upto_total:
  assumes rk: "ranked (ip_arrays st) rk"
  shows "depth st rk x < n \<Longrightarrow> val_equal_upto same st n x y \<noteq> None"
proof (induction n arbitrary: x y)
  case (Suc n)
  have list: "equal_lists (val_equal_upto same st n) us ws \<noteq> None"
    if "\<And>u. u \<in> set us \<Longrightarrow> depth st rk u < n" for us ws
    using that
  proof (induction us arbitrary: ws)
    case (Cons u us)
    have u: "\<exists>c. val_equal_upto same st n u w = Some c" for w
      using Suc.IH [of u w] Cons.prems [of u] by auto
    have rest: "equal_lists (val_equal_upto same st n) us vs \<noteq> None" for vs
      using Cons.IH Cons.prems by simp
    show ?case
    proof (cases ws)
      case (Cons w vs)
      obtain c where "val_equal_upto same st n u w = Some c" using u by blast
      then show ?thesis using rest by (cases c) (auto simp: Cons)
    qed simp
  qed simp
  have elem: "equal_lists (val_equal_upto same st n) (array_of st a) (array_of st b) \<noteq> None"
    if "x = VArray a" for a b
  proof (rule list)
    fix u assume "u \<in> set (array_of st a)"
    from depth_element [OF rk this] show "depth st rk u < n" using Suc.prems that by simp
  qed
  show ?case using elem by (auto split: rvalue.split)
qed simp

lemma val_equal_total: "heap_ok st \<Longrightarrow> val_equal same x y st \<noteq> None"
  unfolding heap_ok_def val_equal_def
  using val_equal_upto_total depth_le by (metis less_Suc_eq_le)

end
