(* ===== verification/Dsl_Exec_Returns.thy ===== *)
theory Dsl_Exec_Returns
  imports Dsl_Exec_Total
begin

text \<open>
  How much fuel is enough: a walk of size at most \<open>D\<close> returns when the fuel exceeds
  \<open>budget_left st * Suc D + work_size w\<close>. The locale \<open>total_runtime\<close> extends the contract of the
  bridge: a special form that evaluates only the expressions of its call returns when they do.
\<close>

section \<open>States a walk starts from\<close>

definition ready :: "nat \<Rightarrow> nat \<Rightarrow> ('o, 'b) interp \<Rightarrow> bool" where
  "ready D k st \<longleftrightarrow> fns_small D st \<and> heap_ok st \<and> budget_left st \<le> k"

lemma ready_steps: "steps E D R st s \<Longrightarrow> ready D k st \<Longrightarrow> ready D k s"
  using steps_fns steps_heap steps_budget unfolding ready_def by (meson order_trans)

lemma ready_small: "ready D k st \<Longrightarrow> fns_small D st"
  by (simp add: ready_def)

lemma ready_sig [simp]: "ready D k (st\<lparr>ip_sig := s\<rparr>) = ready D k st"
  by (simp add: ready_def heap_ok_def budget_left_def fns_small_def)

text \<open>\<open>returns st m\<close>: the computation \<open>m\<close>, which starts in \<open>st\<close>, has a result.\<close>

definition returns :: "('o, 'b) interp \<Rightarrow> 'a option \<Rightarrow> bool" where
  "returns st m \<longleftrightarrow> m \<noteq> None"

lemma returns_Some [simp]: "returns st (Some x)"
  by (simp add: returns_def)

lemma returns_other: "returns s m \<Longrightarrow> returns st m"
  by (simp add: returns_def)

text \<open>\<open>total_below r D k W\<close>: \<open>r\<close> returns on smaller work, and on any work once the budget is lower.\<close>

definition total_below :: "('o, 'b) walk \<Rightarrow> nat \<Rightarrow> nat \<Rightarrow> nat \<Rightarrow> bool" where
  "total_below r D k W \<longleftrightarrow>
     (\<forall>w sc st. ready D k st \<longrightarrow> work_size w \<le> D \<longrightarrow> work_size w < W \<or> budget_left st < k
        \<longrightarrow> returns st (r w sc st))"

lemma total_belowD:
  "total_below r D k W \<Longrightarrow> W \<le> D \<Longrightarrow> ready D k st \<Longrightarrow> work_size w < W \<Longrightarrow> returns st (r w sc st)"
  by (simp add: total_below_def)

lemma total_below_cheaper:
  "total_below r D k W \<Longrightarrow> budget_left st < k \<Longrightarrow> ready D k st \<Longrightarrow> work_size w \<le> D \<Longrightarrow> returns st (r w sc st)"
  by (simp add: total_below_def)

lemma total_below_mono: "total_below r D k W \<Longrightarrow> V \<le> W \<Longrightarrow> total_below r D k V"
  by (auto simp: total_below_def)

lemma returns_bind_pure:
  "returns st m \<Longrightarrow> (\<And>x. m = Some x \<Longrightarrow> returns st (f x)) \<Longrightarrow> returns st (Option.bind m f)"
  by (auto simp: returns_def)

lemma returns_snapshot: "ready D k st \<Longrightarrow> returns st (snapshot v st)"
  by (simp add: returns_def ready_def snapshot_total)

lemma returns_val_equal: "ready D k st \<Longrightarrow> returns st (val_equal same x y st)"
  by (simp add: returns_def ready_def val_equal_total)

lemma returns_binary_value: "ready D k st \<Longrightarrow> returns st (binary_value E op x y st)"
  using returns_val_equal [of D k st "re_same E" x y]
  by (auto simp: binary_value_def intro!: returns_bind_pure)

locale total_runtime = runtime E D R for E :: "('o, 'b) renv" and D :: nat and R :: "'b \<Rightarrow> 'b \<Rightarrow> bool" +
  assumes special_total:
    "walk_moves E D R r \<Longrightarrow> total_below r D k W \<Longrightarrow> ready D k st \<Longrightarrow> size e < W \<Longrightarrow> W \<le> D \<Longrightarrow>
     re_special E (\<lambda>e. r (WExpr e)) e sc st = Some m \<Longrightarrow> returns st m"
begin

lemma returns_bind:
  assumes "ready D k st" and "moves E D R st m" and "returns st m"
    and "\<And>x s. m = Some (x, s) \<Longrightarrow> ready D k s \<Longrightarrow> returns s (f (x, s))"
  shows "returns st (Option.bind m f)"
proof -
  obtain x s where m: "m = Some (x, s)" using assms(3) by (auto simp: returns_def)
  with assms(2) have "steps E D R st s" by (simp add: moves_def)
  then have "ready D k s" using assms(1) by (rule ready_steps)
  then show ?thesis using assms(4) [OF m] m by (simp add: returns_def)
qed

lemma returns_consume:
  fixes st :: "('o, 'b) interp"
  assumes "ready D k st"
    and "\<And>s. ready D k s \<Longrightarrow> returns s (f (False, s))"
    and "\<And>s. ready D k s \<Longrightarrow> budget_left s < k \<Longrightarrow> returns s (f (True, s))"
  shows "returns st (f (consume st))"
proof -
  obtain ok s where c: "consume st = (ok, s)" by fastforce
  then have "steps E D R st s" by (rule steps_consume)
  then have s: "ready D k s" using assms(1) by (rule ready_steps)
  show ?thesis
  proof (cases ok)
    case True
    then have "budget_left s < k" using consume_budget [of st s] c assms(1) by (simp add: ready_def)
    then show ?thesis using assms(3) [OF s] c True by (simp add: returns_def)
  next
    case False
    then show ?thesis using assms(2) [OF s] c by (simp add: returns_def)
  qed
qed

section \<open>Expressions\<close>

lemma eval_list_total:
  assumes r: "walk_moves E D R r" and t: "total_below r D k W" and W: "W \<le> D"
  shows "ready D k st \<Longrightarrow> size_list size es < W \<Longrightarrow> returns st (eval_list r es sc st)"
proof (induction es arbitrary: st)
  case (Cons e es)
  then show ?case using W
    by (auto simp: walk_movesD [OF r] ready_small total_belowD [OF t W] eval_list_moves [OF r]
        intro!: returns_bind)
qed simp

lemma eval_elements_total:
  assumes r: "walk_moves E D R r" and t: "total_below r D k W" and W: "W \<le> D"
  shows "ready D k st \<Longrightarrow> size_list size es < W \<Longrightarrow> returns st (eval_elements r es sc st)"
proof (induction es arbitrary: st)
  case (Cons e es)
  then show ?case using W
    by (auto simp: walk_movesD [OF r] ready_small total_belowD [OF t W] eval_elements_moves [OF r]
        snapshot_moves returns_snapshot intro!: returns_bind)
qed simp

lemma eval_binary_total:
  assumes r: "walk_moves E D R r" and t: "total_below r D k W" and W: "W \<le> D"
    and st: "ready D k st" and sz: "size x + 1 < W" "size y + 1 < W"
  shows "returns st (eval_binary E r x op y sc st)"
  using st sz W unfolding eval_binary_def
  by (auto simp: walk_movesD [OF r] ready_small total_belowD [OF t W] returns_binary_value
      intro!: returns_bind)

lemma eval_unary_total:
  assumes r: "walk_moves E D R r" and t: "total_below r D k W" and W: "W \<le> D"
    and st: "ready D k st" and sz: "size x + 1 < W"
  shows "returns st (eval_unary r op x sc st)"
  using st sz W unfolding eval_unary_def
  by (auto simp: walk_movesD [OF r] ready_small total_belowD [OF t W] intro!: returns_bind)

lemma call_user_total:
  assumes r: "walk_moves E D R r" and t: "total_below r D k W"
    and st: "ready D k st" "budget_left st < k" and f: "fn_body_size (fn_body f) \<le> D"
  shows "returns st (call_user r f vs st)"
proof -
  obtain sc s1 where c: "call_scope f vs st = (sc, s1)" by fastforce
  then have s1: "steps E D R st s1" by (rule steps_call_scope)
  then have ready: "ready D k s1" using st(1) by (rule ready_steps)
  have "budget_left s1 < k" using steps_budget [OF s1] st(2) by simp
  then have "returns s1 (call_user r f vs st)"
    using ready f unfolding call_user_def c
    by (auto simp: walk_movesD [OF r] ready_small total_below_cheaper [OF t]
        split: fn_body.splits intro!: returns_bind)
  then show ?thesis by (rule returns_other)
qed

lemma call_fn_total:
  assumes r: "walk_moves E D R r" and t: "total_below r D k W"
    and st: "ready D k st" and f: "fn_body_size (fn_body f) \<le> D"
  shows "returns st (call_fn E r f vs st)"
  using st f unfolding call_fn_def
  by (auto simp: call_user_total [OF r t] split: fn_body.splits intro!: returns_consume [OF st])

lemma eval_call_total:
  assumes r: "walk_moves E D R r" and t: "total_below r D k W" and W: "W \<le> D"
    and st: "ready D k st" and sz: "size (CallExpr tk c args) < W"
  shows "returns st (eval_call E r tk c args sc st)"
proof -
  have args: "size_list size (map arg_value args) < W"
    using sz size_arg_values [of args] by simp
  show ?thesis
  proof (cases "special_form E r (CallExpr tk c args) sc st")
    case None
    then show ?thesis using sz args st W unfolding eval_call_def
      by (auto simp: walk_movesD [OF r] ready_small total_belowD [OF t W] eval_list_moves [OF r]
          eval_list_total [OF r t W] call_fn_total [OF r t] fn_of_small
          split: rvalue.split intro!: returns_bind)
  next
    case (Some m)
    then have "re_special E (\<lambda>e. r (WExpr e)) (CallExpr tk c args) sc st = Some m"
      by (simp add: special_form_def split: if_splits)
    from special_total [OF r t st sz W this] show ?thesis using Some by (simp add: eval_call_def)
  qed
qed

lemma eval_expr_total:
  assumes r: "walk_moves E D R r" and t: "total_below r D k W" and W: "W \<le> D"
    and st: "ready D k st" and sz: "size e < W"
  shows "returns st (eval_expr E r e sc st)"
proof (cases e)
  case (IdentExpr tk x)
  then show ?thesis
    by (auto simp: eval_expr_def eval_ident_def split: option.split)
next
  case (DotExpr tk x f)
  then show ?thesis
    by (auto simp: eval_expr_def eval_dot_def Let_def split: option.split expr.split)
next
  case (IndexExpr tk x y)
  then show ?thesis using sz st W
    by (auto simp: eval_expr_def eval_index_def walk_movesD [OF r] ready_small total_belowD [OF t W]
        intro!: returns_bind)
next
  case (TernaryExpr tk c x y)
  then show ?thesis using sz st W
    by (auto simp: eval_expr_def walk_movesD [OF r] ready_small total_belowD [OF t W]
        intro!: returns_bind)
next
  case (ArrayLit tk es)
  then show ?thesis using sz st W
    by (auto simp: eval_expr_def eval_elements_moves [OF r] ready_small eval_elements_total [OF r t W]
        intro!: returns_bind)
qed (use sz st W in \<open>auto simp: eval_expr_def eval_binary_total [OF r t W] eval_unary_total [OF r t W]
       eval_call_total [OF r t W]\<close>)

section \<open>Statements\<close>

lemma exec_var_decl_total:
  assumes r: "walk_moves E D R r" and t: "total_below r D k W" and W: "W \<le> D"
    and st: "ready D k st" and sz: "size e + 1 < W"
  shows "returns st (exec_var_decl r x varip persist e sc st)"
  using st sz W unfolding exec_var_decl_def
  by (auto simp: walk_movesD [OF r] ready_small total_belowD [OF t W] split: option.split
      intro!: returns_bind)

lemma exec_assign_total:
  assumes r: "walk_moves E D R r" and t: "total_below r D k W" and W: "W \<le> D"
    and st: "ready D k st" and sz: "size e + 1 < W"
  shows "returns st (exec_assign r x op e sc st)"
  using st sz W unfolding exec_assign_def
  by (auto simp: walk_movesD [OF r] ready_small total_belowD [OF t W] split: prod.split
      intro!: returns_bind)

lemma exec_index_assign_total:
  assumes r: "walk_moves E D R r" and t: "total_below r D k W" and W: "W \<le> D"
    and st: "ready D k st" and sz: "size x + 1 < W" "size i + 1 < W" "size e + 1 < W"
  shows "returns st (exec_index_assign E r x i e sc st)"
  using st sz W unfolding exec_index_assign_def Let_def
  by (auto simp: walk_movesD [OF r] ready_small total_belowD [OF t W] snapshot_moves returns_snapshot
      intro!: returns_bind)

lemma exec_tuple_assign_total:
  assumes r: "walk_moves E D R r" and t: "total_below r D k W" and W: "W \<le> D"
    and st: "ready D k st" and sz: "size e + 1 < W"
  shows "returns st (exec_tuple_assign r xs e sc st)"
  using st sz W unfolding exec_tuple_assign_def
  by (auto simp: walk_movesD [OF r] ready_small total_belowD [OF t W] intro!: returns_bind)

lemma block_total:
  assumes t: "total_below r D k W" and W: "W \<le> D" and "block_size b < W" and st: "ready D k st"
    and "block_size b + 1 < W"
  shows "returns st (r (WBlock (block_stmts b)) sc st)"
  using assms(3,5) size_block_stmts [of b] by (intro total_belowD [OF t W st]) simp

lemma exec_else_ifs_total:
  assumes r: "walk_moves E D R r" and t: "total_below r D k W" and W: "W \<le> D"
    and els: "\<And>b. els = Some b \<Longrightarrow> block_size b + 1 < W"
  shows "ready D k st \<Longrightarrow> sum_list (map else_if_size eis) + 1 < W
    \<Longrightarrow> returns st (exec_else_ifs r eis els sc st)"
proof (induction eis arbitrary: st)
  case Nil
  then show ?case using els by (auto simp: block_total [OF t W] Suc_lessD split: option.split)
next
  case (Cons ei eis)
  obtain tk c b where ei: "ei = ElseIf tk c b" by (cases ei) auto
  have "block_size b + 1 < W" "size c + 1 < W" "sum_list (map else_if_size eis) + 1 < W"
    using Cons.prems(2) by (auto simp: ei)
  then show ?case using Cons W
    by (auto simp: ei walk_movesD [OF r] ready_small total_belowD [OF t W] block_total [OF t W]
        intro!: returns_bind)
qed

lemma exec_if_total:
  assumes r: "walk_moves E D R r" and t: "total_below r D k W" and W: "W \<le> D" and st: "ready D k st"
    and sz: "size c + 1 < W" "block_size b + 1 < W" "sum_list (map else_if_size eis) + 1 < W"
      "\<And>b. els = Some b \<Longrightarrow> block_size b + 1 < W"
  shows "returns st (exec_if r c b eis els sc st)"
  unfolding exec_if_def using st sz W
  by (auto simp: walk_movesD [OF r] ready_small total_belowD [OF t W] block_total [OF t W]
      exec_else_ifs_total [OF r t W] intro!: returns_bind)

lemma loop_body_total:
  fixes r :: "('o, 'b) walk"
  assumes t: "total_below r D k W" and st: "ready D k st" "budget_left st < k" and sz: "stmts_size body < D"
  shows "returns st (r (WBlock body) sc (scope_assign sc x w st))"
proof -
  have a: "steps E D R st (scope_assign sc x w st)" by (rule steps_scope_assign)
  then have "ready D k (scope_assign sc x w st)" using st(1) by (rule ready_steps)
  moreover have "budget_left (scope_assign sc x w st) < k" using steps_budget [OF a] st(2) by simp
  ultimately show ?thesis using sz
    by (intro returns_other [OF total_below_cheaper [OF t]]) auto
qed

lemma budget_after:
  fixes st s :: "('o, 'b) interp"
  shows "moves E D R st m \<Longrightarrow> budget_left st < k \<Longrightarrow> m = Some (v, s) \<Longrightarrow> budget_left s < k"
  using steps_budget [of E D R st s] by (simp add: moves_def)

lemma budget_sig [simp]: "budget_left (st\<lparr>ip_sig := s\<rparr>) = budget_left st"
  by (simp add: budget_left_def)

lemma for_loop_total:
  assumes r: "walk_moves E D R r" and t: "total_below r D k W" and st: "ready D k st"
    and sz: "stmts_size body + 2 \<le> D"
  shows "returns st (for_loop r x i stop step body v sc st)"
proof -
  have body: "stmts_size body < D" using sz by simp
  have next_turn: "returns s (r (WFor x i stop step body v) sc s')"
    if "ready D k s'" "budget_left s' < k" for i v and s s' :: "('o, 'b) interp"
    using that sz by (intro returns_other [OF total_below_cheaper [OF t]]) auto
  have "returns s (do { (v, st) \<leftarrow> r (WBlock body) sc (scope_assign sc x w s);
          if ip_sig st = SigBreak then Some (v, st\<lparr>ip_sig := SigNone\<rparr>)
          else if ip_sig st = SigReturn then Some (v, st)
          else r (WFor x j stop step body v) sc
                 (if ip_sig st = SigContinue then st\<lparr>ip_sig := SigNone\<rparr> else st) })"
    if s: "ready D k s" "budget_left s < k" for s w j
    using loop_body_moves [OF r body ready_small [OF s(1)]]
    by (auto intro!: returns_bind [OF s(1)] next_turn loop_body_total [OF t s body]
        dest!: budget_after [OF loop_body_moves [OF r body ready_small [OF s(1)]] s(2)])
  then show ?thesis
    unfolding for_loop_def by (auto intro!: returns_consume [OF st])
qed

lemma exec_for_total:
  assumes r: "walk_moves E D R r" and t: "total_below r D k W" and W: "W \<le> D" and st: "ready D k st"
    and sz: "size a + 1 < W" "size b + 1 < W" "\<And>e. d = Some e \<Longrightarrow> size e + 1 < W"
      "stmts_size body + 2 < W"
  shows "returns st (exec_for r x a b d body sc st)"
  unfolding exec_for_def Let_def using st sz W
  by (auto simp: walk_movesD [OF r] ready_small total_belowD [OF t W] split: option.split
      intro!: returns_bind)

lemma for_in_loop_total:
  assumes r: "walk_moves E D R r" and t: "total_below r D k W" and sz: "stmts_size body < D"
  shows "ready D k st \<Longrightarrow> returns st (for_in_loop r x coll is body v sc st)"
proof (induction "is" arbitrary: v st)
  case (Cons i "is")
  have next_turn: "returns s (for_in_loop r x coll is body v sc s')"
    if "ready D k s'" for v and s s' :: "('o, 'b) interp"
    using Cons.IH [OF that] by (rule returns_other)
  have "returns s (do { (v, st) \<leftarrow> r (WBlock body) sc (scope_assign sc x w s);
          if ip_sig st = SigBreak then Some (v, st\<lparr>ip_sig := SigNone\<rparr>)
          else if ip_sig st = SigReturn then Some (v, st)
          else for_in_loop r x coll is body v sc
                 (if ip_sig st = SigContinue then st\<lparr>ip_sig := SigNone\<rparr> else st) })"
    if s: "ready D k s" "budget_left s < k" for s w
    using loop_body_moves [OF r sz ready_small [OF s(1)]]
    by (auto intro!: returns_bind [OF s(1)] next_turn loop_body_total [OF t s sz])
  then show ?case by (auto simp: Let_def intro!: returns_consume [OF Cons.prems])
qed simp

lemma exec_for_in_total:
  assumes r: "walk_moves E D R r" and t: "total_below r D k W" and W: "W \<le> D" and st: "ready D k st"
    and sz: "size e + 1 < W" "stmts_size body < D"
  shows "returns st (exec_for_in r x e body sc st)"
  unfolding exec_for_in_def using st sz W
  by (auto simp: walk_movesD [OF r] ready_small total_belowD [OF t W] for_in_loop_total [OF r t]
      intro!: returns_bind)

lemma while_loop_total:
  assumes r: "walk_moves E D R r" and t: "total_below r D k W" and st: "ready D k st"
    and sz: "size c + stmts_size body + 3 \<le> D"
  shows "returns st (while_loop r c body i v sc st)"
proof -
  have next_turn: "returns s (r (WWhile c body i v) sc s')"
    if "ready D k s'" "budget_left s' < k" for i v and s s' :: "('o, 'b) interp"
    using that sz by (intro returns_other [OF total_below_cheaper [OF t]]) auto
  have small: "work_size (WExpr c) \<le> D" "work_size (WBlock body) \<le> D" using sz by auto
  have body: "returns s (do { (v, st) \<leftarrow> r (WBlock body) sc s;
          if ip_sig st = SigBreak then Some (v, st\<lparr>ip_sig := SigNone\<rparr>)
          else if ip_sig st = SigReturn then Some (v, st)
          else r (WWhile c body j v) sc
                 (if ip_sig st = SigContinue then st\<lparr>ip_sig := SigNone\<rparr> else st) })"
    if s: "ready D k s" "budget_left s < k" for s j
    using walk_movesD [OF r small(2) ready_small [OF s(1)], of sc]
    by (auto intro!: returns_bind [OF s(1)] next_turn total_below_cheaper [OF t s(2,1) small(2)]
        dest!: budget_after [OF walk_movesD [OF r small(2) ready_small [OF s(1)]] s(2)])
  have "returns s (do { (b, st) \<leftarrow> r (WExpr c) sc s;
          if \<not> bool_of st b then Some (v, st)
          else do { (v, st) \<leftarrow> r (WBlock body) sc st;
                    if ip_sig st = SigBreak then Some (v, st\<lparr>ip_sig := SigNone\<rparr>)
                    else if ip_sig st = SigReturn then Some (v, st)
                    else r (WWhile c body j v) sc
                           (if ip_sig st = SigContinue then st\<lparr>ip_sig := SigNone\<rparr> else st) } })"
    if s: "ready D k s" "budget_left s < k" for s j
    using walk_movesD [OF r small(1) ready_small [OF s(1)], of sc]
    by (auto intro!: returns_bind [OF s(1)] body total_below_cheaper [OF t s(2,1) small(1)]
        dest!: budget_after [OF walk_movesD [OF r small(1) ready_small [OF s(1)]] s(2)])
  then show ?thesis
    unfolding while_loop_def by (auto intro!: returns_consume [OF st])
qed

lemma exec_in_child_total:
  assumes r: "walk_moves E D R r" and t: "total_below r D k W" and W: "W \<le> D" and st: "ready D k st"
    and sz: "block_size b + 1 < W"
  shows "returns st (exec_in_child r b sc st)"
proof -
  obtain sc' s where c: "scope_child sc st = (sc', s)" by fastforce
  have "steps E D R st s" using c by (rule steps_child)
  then have "ready D k s" using st by (rule ready_steps)
  then show ?thesis using sz
    by (auto simp: exec_in_child_def c intro: returns_other [OF block_total [OF t W]])
qed

lemma exec_cases_total:
  assumes r: "walk_moves E D R r" and t: "total_below r D k W" and W: "W \<le> D"
    and dflt: "\<And>b. dflt = Some b \<Longrightarrow> block_size b + 1 < W"
  shows "ready D k st \<Longrightarrow> sum_list (map case_size cs) + 1 < W
    \<Longrightarrow> returns st (exec_cases E r tag cs dflt sc st)"
proof (induction cs arbitrary: st)
  case Nil
  then show ?case using dflt by (auto simp: exec_in_child_total [OF r t W] split: option.split)
next
  case (Cons c cs)
  obtain e b where c: "c = SwitchCase e b" by (cases c) auto
  have sz: "block_size b + 1 < W" "size e + 1 < W" "sum_list (map case_size cs) + 1 < W"
    using Cons.prems(2) by (auto simp: c)
  have "returns s (do { hit \<leftarrow> (case tag of Some t \<Rightarrow> val_equal (re_same E) t v s | None \<Rightarrow> Some (bool_of s v));
      if hit then exec_in_child r b sc s else exec_cases E r tag cs dflt sc s })"
    if "ready D k s" for v s
    using that sz Cons.IH
    by (auto simp: exec_in_child_total [OF r t W] returns_val_equal split: option.split
        intro!: returns_bind_pure)
  then show ?case using Cons.prems(1) sz W
    by (auto simp: c walk_movesD [OF r] ready_small total_belowD [OF t W] intro!: returns_bind)
qed

lemma exec_switch_total:
  assumes r: "walk_moves E D R r" and t: "total_below r D k W" and W: "W \<le> D" and st: "ready D k st"
    and sz: "\<And>e. tag = Some e \<Longrightarrow> size e + 1 < W" "sum_list (map case_size cs) + 1 < W"
      "\<And>b. dflt = Some b \<Longrightarrow> block_size b + 1 < W"
  shows "returns st (exec_switch E r tag cs dflt sc st)"
  unfolding exec_switch_def using st sz W
  by (auto simp: walk_movesD [OF r] ready_small total_belowD [OF t W] exec_cases_total [OF r t W]
      split: option.split intro!: returns_bind)

lemma exec_return_total:
  assumes r: "walk_moves E D R r" and t: "total_below r D k W" and W: "W \<le> D" and st: "ready D k st"
    and sz: "\<And>e. x = Some e \<Longrightarrow> size e + 1 < W"
  shows "returns st (exec_return r x sc st)"
  unfolding exec_return_def using st sz W
  by (auto simp: walk_movesD [OF r] ready_small total_belowD [OF t W] split: option.split
      intro!: returns_bind)

lemma exec_stmt_total:
  assumes r: "walk_moves E D R r" and t: "total_below r D k W" and W: "W \<le> D" and st: "ready D k st"
    and sz: "stmt_size s < W"
  shows "returns st (exec_stmt E r s sc st)"
proof (cases s)
  case (IfStmt tk c b eis els)
  then show ?thesis using sz st W
    by (auto simp: exec_stmt_def intro!: exec_if_total [OF r t])
next
  case (ForStmt tk x u w d body)
  then show ?thesis using sz st W size_block_stmts [of body]
    by (auto simp: exec_stmt_def intro!: exec_for_total [OF r t])
next
  case (ForInStmt tk x u body)
  then show ?thesis using sz st W size_block_stmts [of body]
    by (auto simp: exec_stmt_def intro!: exec_for_in_total [OF r t])
next
  case (WhileStmt tk c body)
  then show ?thesis using sz st W size_block_stmts [of body]
    by (auto simp: exec_stmt_def intro!: total_belowD [OF t])
next
  case (SwitchStmt tk tag cs dflt)
  then show ?thesis using sz st W
    by (auto simp: exec_stmt_def intro!: exec_switch_total [OF r t])
next
  case (ReturnStmt tk e)
  then show ?thesis using sz st W
    by (auto simp: exec_stmt_def intro!: exec_return_total [OF r t])
qed (use sz st W in \<open>auto simp: exec_stmt_def exec_var_decl_total [OF r t W]
    exec_assign_total [OF r t W] exec_index_assign_total [OF r t W]
    exec_tuple_assign_total [OF r t W] total_belowD [OF t W]\<close>)

lemma exec_block_total:
  assumes r: "walk_moves E D R r" and t: "total_below r D k W" and W: "W \<le> D"
  shows "ready D k st \<Longrightarrow> stmts_size ss < W \<Longrightarrow> returns st (exec_block E r ss v sc st)"
proof (induction ss arbitrary: v st)
  case (Cons s ss)
  have "stmt_size s < W" "stmts_size ss < W" "stmt_size s < D" using Cons.prems(2) W by auto
  then show ?case using Cons.IH
    by (auto simp: Let_def ready_small exec_stmt_moves [OF r] exec_stmt_total [OF r t W]
        intro!: returns_consume [OF Cons.prems(1)] returns_bind)
qed simp

section \<open>Every walk returns\<close>

lemma run_total:
  "ready D k st \<Longrightarrow> work_size w \<le> D \<Longrightarrow> budget_left st * Suc D + work_size w < n
    \<Longrightarrow> returns st (run E n w sc st)"
proof (induction n arbitrary: w sc st k)
  case (Suc n)
  define b where "b = budget_left st"
  have st: "ready D b st" using Suc.prems(1) by (simp add: ready_def b_def)
  have t: "total_below (run E n) D b (work_size w)"
    unfolding total_below_def
  proof (intro allI impI)
    fix w' :: "'o work" and sc' and s :: "('o, 'b) interp"
    assume s: "ready D b s" and w': "work_size w' \<le> D"
      and less: "work_size w' < work_size w \<or> budget_left s < b"
    have le: "budget_left s \<le> b" using s by (simp add: ready_def)
    have "budget_left s * Suc D + work_size w' < b * Suc D + work_size w"
    proof (cases "budget_left s < b")
      case True
      then have "Suc (budget_left s) * Suc D \<le> b * Suc D" by (intro mult_le_mono1) simp
      then show ?thesis using w' by simp
    next
      case False
      then show ?thesis using less le by (intro add_le_less_mono mult_le_mono1) auto
    qed
    then show "returns s (run E n w' sc' s)"
      using Suc.prems(3) by (intro Suc.IH [OF s w']) (simp add: b_def)
  qed
  note r = run_moves [of n]
  show ?case
  proof (cases w)
    case (WExpr e)
    then show ?thesis using Suc.prems(2) st
      by (auto simp: walk_step_def intro!: eval_expr_total [OF r t])
  next
    case (WBlock ss)
    then show ?thesis using Suc.prems(2) st
      by (auto simp: walk_step_def intro!: exec_block_total [OF r t])
  next
    case (WFor x i stop step body v)
    then show ?thesis using Suc.prems(2) st
      by (auto simp: walk_step_def intro!: for_loop_total [OF r t])
  next
    case (WWhile c body i v)
    then show ?thesis using Suc.prems(2) st
      by (auto simp: walk_step_def intro!: while_loop_total [OF r t])
  qed
qed simp

end

end
