(* ===== verification/Dsl_Exec_Fuel.thy ===== *)
theory Dsl_Exec_Fuel
  imports Dsl_Exec_Returns
begin

text \<open>
  More fuel does not change a result: \<open>agrees m m'\<close> says that the partial computation \<open>m'\<close> has the
  result of \<open>m\<close> if \<open>m\<close> has one. The locale \<open>fuel_runtime\<close> asks the same of the special forms.
\<close>

definition agrees :: "'a option \<Rightarrow> 'a option \<Rightarrow> bool" where
  "agrees m m' \<longleftrightarrow> (\<forall>x. m = Some x \<longrightarrow> m' = Some x)"

definition walk_agrees :: "('o, 'b) walk \<Rightarrow> ('o, 'b) walk \<Rightarrow> bool" where
  "walk_agrees r r' \<longleftrightarrow> (\<forall>w sc st. agrees (r w sc st) (r' w sc st))"

lemma agrees_refl [intro!, simp]: "agrees m m"
  by (simp add: agrees_def)

lemma agrees_None [intro!, simp]: "agrees None m"
  by (simp add: agrees_def)

lemma agrees_bind: "agrees m m' \<Longrightarrow> (\<And>x. agrees (f x) (f' x)) \<Longrightarrow> agrees (Option.bind m f) (Option.bind m' f')"
  by (cases m) (auto simp: agrees_def)

lemma agrees_bind_pair:
  "agrees m m' \<Longrightarrow> (\<And>x s. agrees (f x s) (f' x s))
    \<Longrightarrow> agrees (Option.bind m (\<lambda>(x, s). f x s)) (Option.bind m' (\<lambda>(x, s). f' x s))"
  by (rule agrees_bind) (auto split: prod.split)

lemma agrees_trans: "agrees m m' \<Longrightarrow> agrees m' m'' \<Longrightarrow> agrees m m''"
  by (simp add: agrees_def)

lemma walk_agreesD: "walk_agrees r r' \<Longrightarrow> agrees (r w sc st) (r' w sc st)"
  by (simp add: walk_agrees_def)

locale fuel_runtime =
  fixes E :: "('o, 'b) renv"
  assumes special_agrees:
    "walk_agrees r r' \<Longrightarrow>
     rel_option agrees (re_special E (\<lambda>e. r (WExpr e)) e sc st) (re_special E (\<lambda>e. r' (WExpr e)) e sc st)"
begin

lemma eval_list_agrees:
  assumes r: "walk_agrees r r'"
  shows "agrees (eval_list r es sc st) (eval_list r' es sc st)"
  by (induction es arbitrary: st) (auto intro!: agrees_bind_pair walk_agreesD [OF r])

lemma eval_elements_agrees:
  assumes r: "walk_agrees r r'"
  shows "agrees (eval_elements r es sc st) (eval_elements r' es sc st)"
  by (induction es arbitrary: st) (auto intro!: agrees_bind_pair walk_agreesD [OF r])

lemma call_fn_agrees:
  assumes r: "walk_agrees r r'"
  shows "agrees (call_fn E r f vs st) (call_fn E r' f vs st)"
  unfolding call_fn_def call_user_def Let_def
  by (auto split: fn_body.split prod.split intro!: agrees_bind_pair walk_agreesD [OF r])

lemma eval_call_agrees:
  assumes r: "walk_agrees r r'"
  shows "agrees (eval_call E r t c args sc st) (eval_call E r' t c args sc st)"
proof -
  have rel: "rel_option agrees (special_form E r (CallExpr t c args) sc st)
      (special_form E r' (CallExpr t c args) sc st)"
    using special_agrees [OF r] by (simp add: special_form_def)
  show ?thesis
    unfolding eval_call_def using rel
    by (auto simp: rel_option_iff split: option.splits rvalue.split
        intro!: agrees_bind_pair walk_agreesD [OF r] eval_list_agrees [OF r] call_fn_agrees [OF r])
qed

lemma eval_expr_agrees:
  assumes r: "walk_agrees r r'"
  shows "agrees (eval_expr E r e sc st) (eval_expr E r' e sc st)"
  unfolding eval_expr_def eval_binary_def eval_unary_def eval_index_def
  by (auto split: expr.split intro!: agrees_bind_pair walk_agreesD [OF r] eval_call_agrees [OF r]
      eval_elements_agrees [OF r])

lemma exec_else_ifs_agrees:
  assumes r: "walk_agrees r r'"
  shows "agrees (exec_else_ifs r eis els sc st) (exec_else_ifs r' eis els sc st)"
  by (induction eis arbitrary: st)
    (auto split: option.split else_if.split intro!: agrees_bind_pair walk_agreesD [OF r])

lemma for_in_loop_agrees:
  assumes r: "walk_agrees r r'"
  shows "agrees (for_in_loop r x coll is body v sc st) (for_in_loop r' x coll is body v sc st)"
  by (induction "is" arbitrary: v st)
    (auto simp: Let_def split: prod.split intro!: agrees_bind_pair walk_agreesD [OF r])

lemma exec_cases_agrees:
  assumes r: "walk_agrees r r'"
  shows "agrees (exec_cases E r tag cs dflt sc st) (exec_cases E r' tag cs dflt sc st)"
  by (induction cs arbitrary: st)
    (auto simp: exec_in_child_def split: option.split switch_case.split prod.split
      intro!: agrees_bind agrees_bind_pair walk_agreesD [OF r])

lemma for_loop_agrees:
  assumes r: "walk_agrees r r'"
  shows "agrees (for_loop r x i stop step body v sc st) (for_loop r' x i stop step body v sc st)"
  unfolding for_loop_def Let_def
  by (auto split: prod.split intro!: agrees_bind_pair walk_agreesD [OF r])

lemma while_loop_agrees:
  assumes r: "walk_agrees r r'"
  shows "agrees (while_loop r c body i v sc st) (while_loop r' c body i v sc st)"
  unfolding while_loop_def Let_def
  by (auto split: prod.split intro!: agrees_bind_pair walk_agreesD [OF r])

lemma exec_stmt_agrees:
  assumes r: "walk_agrees r r'"
  shows "agrees (exec_stmt E r s sc st) (exec_stmt E r' s sc st)"
proof (cases s)
  case (ForStmt tk x a b d body)
  then show ?thesis
    by (cases d) (auto simp: exec_stmt_def exec_for_def Let_def intro!: agrees_bind_pair walk_agreesD [OF r])
next
  case (SwitchStmt tk tag cs dflt)
  then show ?thesis
    by (cases tag) (auto simp: exec_stmt_def exec_switch_def
        intro!: agrees_bind_pair walk_agreesD [OF r] exec_cases_agrees [OF r])
next
  case (ReturnStmt tk e)
  then show ?thesis
    by (cases e) (auto simp: exec_stmt_def exec_return_def intro!: agrees_bind_pair walk_agreesD [OF r])
qed (auto simp: exec_stmt_def exec_var_decl_def exec_assign_def exec_index_assign_def
    exec_tuple_assign_def exec_if_def exec_for_in_def Let_def split: option.split
    intro!: agrees_bind_pair walk_agreesD [OF r] exec_else_ifs_agrees [OF r] for_in_loop_agrees [OF r])

lemma exec_block_agrees:
  assumes r: "walk_agrees r r'"
  shows "agrees (exec_block E r ss v sc st) (exec_block E r' ss v sc st)"
  by (induction ss arbitrary: v st)
    (auto simp: Let_def split: prod.split intro!: agrees_bind_pair exec_stmt_agrees [OF r])

lemma walk_step_agrees:
  assumes r: "walk_agrees r r'"
  shows "walk_agrees (walk_step E r) (walk_step E r')"
  unfolding walk_agrees_def walk_step_def
  by (auto split: work.split intro!: eval_expr_agrees [OF r] exec_block_agrees [OF r]
      for_loop_agrees [OF r] while_loop_agrees [OF r])

lemma run_Suc_eq: "run E (Suc n) = walk_step E (run E n)"
  by (intro ext) simp

lemma run_Suc_agrees: "walk_agrees (run E n) (run E (Suc n))"
proof (induction n)
  case (Suc n)
  from walk_step_agrees [OF Suc] show ?case by (simp only: run_Suc_eq)
qed (simp add: walk_agrees_def)

lemma run_agrees: "n \<le> m \<Longrightarrow> agrees (run E n w sc st) (run E m w sc st)"
proof (induction m rule: nat_induct_at_least)
  case (Suc m)
  then show ?case using walk_agreesD [OF run_Suc_agrees] by (blast intro: agrees_trans)
qed simp

lemma run_fuel: "run E n w sc st = Some p \<Longrightarrow> n \<le> m \<Longrightarrow> run E m w sc st = Some p"
  using run_agrees [of n m w sc st] by (cases p) (simp add: agrees_def)

end

end
