(* ===== verification/Dsl_Runtime.thy ===== *)
theory Dsl_Runtime
  imports Dsl_Builtins_Alpha Dsl_Builtins_Bridge Dsl_Exec_Fuel
begin

text \<open>
  The interpreter with its native functions: \<open>builtins_market.go\<close>, the table of all native
  functions and their registration (\<open>NewInterpreter\<close>, \<open>profile.go\<close>), and the proofs that the native
  functions keep the contract of the walk, which discharge the locales of the interpreter. The
  bridge here implements no special forms.
\<close>

section \<open>builtins\_market.go\<close>

definition classify_trend :: "f64 \<Rightarrow> string" where
  "classify_trend rsi =
     (if is_nan rsi then ''unknown'' else if FFin 60 < rsi then ''up''
      else if rsi < FFin 40 then ''down'' else ''range'')"

definition classify_vol :: "f64 \<Rightarrow> string" where
  "classify_vol v =
     (if is_nan v then ''unknown'' else if FFin 70 \<le> v then ''high''
      else if FFin 35 \<le> v then ''mid'' else ''low'')"

definition classify_valuation :: "f64 \<Rightarrow> string" where
  "classify_valuation v =
     (if is_nan v then ''unknown'' else if v < FFin 35 then ''undervalued''
      else if FFin 80 \<le> v then ''overvalued'' else ''fair'')"

definition classify_scenario :: "market_context \<Rightarrow> f64 \<Rightarrow> string \<times> string" where
  "classify_scenario ctx iv =
     (if \<not> is_nan iv \<and> FFin 88 \<le> iv \<and> mx_trend ctx = ''up'' then (''high_iv_melt_up'', ''elevated'')
      else if \<not> is_nan iv \<and> FFin 88 \<le> iv then (''panic_selloff'', ''high'')
      else if \<not> is_nan iv \<and> iv \<le> FFin 30 \<and> mx_valuation ctx = ''overvalued''
      then (''overvalued_low_vol'', ''elevated'')
      else if \<not> is_nan iv \<and> iv \<le> FFin 30 then (''low_vol_pre_breakout'', ''mid'')
      else if mx_trend ctx = ''unknown'' \<or> mx_hv ctx = ''unknown'' \<or> mx_iv ctx = ''unknown''
              \<or> mx_valuation ctx = ''unknown''
      then (''unknown'', ''unknown'')
      else (mx_trend ctx @ ''_'' @ mx_iv ctx @ ''_iv'', ''normal''))"

definition missing_warning :: "f64 \<Rightarrow> string \<Rightarrow> string list" where
  "missing_warning v w = (if is_nan v then [w] else [])"

definition market_context_of :: "f64 \<Rightarrow> f64 \<Rightarrow> f64 \<Rightarrow> f64 \<Rightarrow> f64 \<Rightarrow> market_context" where
  "market_context_of rsi cci hv iv valuation =
     (let trend = classify_trend rsi; hv' = classify_vol hv; iv' = classify_vol iv;
          value = classify_valuation valuation;
          reject = (trend = ''range'' \<and> \<not> is_nan cci \<and> FFin 101 \<le> math_abs cci);
          ctx = \<lparr>mx_trend = (if reject then ''unknown'' else trend), mx_hv = hv', mx_iv = iv',
                 mx_valuation = value, mx_scenario = [], mx_risk = [],
                 mx_reasons = [''trend:'' @ trend, ''hv:'' @ hv', ''iv:'' @ iv', ''valuation:'' @ value]
                   @ (if reject then [''cci:not_range''] else []),
                 mx_warnings = missing_warning rsi ''missing_rsi14'' @ missing_warning cci ''missing_cci20''
                   @ missing_warning hv ''missing_hv_percentile''
                   @ missing_warning iv ''missing_iv_percentile''
                   @ missing_warning valuation ''missing_valuation_percentile''
                   @ (if reject then [''range_state_rejected_by_cci''] else [])\<rparr>;
          (scenario, risk) = classify_scenario ctx iv
      in ctx\<lparr>mx_scenario := scenario, mx_risk := risk\<rparr>)"

definition market_context_value :: "('o, 'b) interp \<Rightarrow> 'o rvalue list \<Rightarrow> 'o rvalue" where
  "market_context_value st args =
     (let arg = \<lambda>i. arg_float st args i FNaN
      in VObject (Market (market_context_of (arg 0) (arg 1) (arg 2) (arg 3) (arg 4))))"

definition unknown_context :: market_context where
  "unknown_context =
     \<lparr>mx_trend = ''unknown'', mx_hv = ''unknown'', mx_iv = ''unknown'', mx_valuation = ''unknown'',
      mx_scenario = ''unknown'', mx_risk = ''unknown'', mx_reasons = [], mx_warnings = []\<rparr>"

definition market_context_arg :: "'o rvalue list \<Rightarrow> market_context" where
  "market_context_arg args =
     (case args of VObject (Market ctx) # _ \<Rightarrow> ctx | _ \<Rightarrow> unknown_context)"

definition market_text :: "(market_context \<Rightarrow> string) \<Rightarrow> ('o, 'b) native_fn" where
  "market_text f args st = (VString (f (market_context_arg args)), st)"

definition market_texts :: "(market_context \<Rightarrow> string list) \<Rightarrow> ('o, 'b) native_fn" where
  "market_texts f args st = new_array (map VString (f (market_context_arg args))) st"

definition market_native :: "string \<Rightarrow> ('o, 'b) native_fn option" where
  "market_native x =
     (if x = ''market.context'' then Some (pure_native market_context_value)
      else if x = ''market.trend_state'' then Some (market_text mx_trend)
      else if x = ''market.hv_state'' then Some (market_text mx_hv)
      else if x = ''market.iv_state'' then Some (market_text mx_iv)
      else if x = ''market.valuation_state'' then Some (market_text mx_valuation)
      else if x = ''market.scenario_label'' then Some (market_text mx_scenario)
      else if x = ''market.risk_label'' then Some (market_text mx_risk)
      else if x = ''market.reason_codes'' then Some (market_texts mx_reasons)
      else if x = ''market.warnings'' then Some (market_texts mx_warnings)
      else None)"

section \<open>The table of native functions\<close>

primrec first_native :: "(string \<Rightarrow> ('o, 'b) native_fn option) list \<Rightarrow> string \<Rightarrow> ('o, 'b) native_fn option" where
  "first_native [] x = None"
| "first_native (f # fs) x = (case f x of Some g \<Rightarrow> Some g | None \<Rightarrow> first_native fs x)"

definition native_groups ::
  "'o native_env \<Rightarrow> 'b bridge_ops \<Rightarrow> (string \<Rightarrow> ('o, 'b) native_fn option) list" where
  "native_groups N B =
     [core_native N, ta_native N, math_native N, str_native N, strategy_native N B, input_native N,
      request_natives B, alpha_native N, signal_native B, event_native B, order_native N B, portfolio_native N B,
      (\<lambda>x. if x = ''universe.symbols'' then Some (universe_symbols N B) else None),
      market_native, ref_native,
      (\<lambda>x. if x = ''trace.emit'' then Some (trace_emit (ne_case N)) else None)]"

definition native :: "'o native_env \<Rightarrow> 'b bridge_ops \<Rightarrow> string \<Rightarrow> ('o, 'b) native_fn" where
  "native N B x =
     (case first_native (native_groups N B) x of Some f \<Rightarrow> f | None \<Rightarrow> (\<lambda>args st. (VNa, st)))"

text \<open>\<open>go_order\<close> is the order in which the map of queued fields is visited.\<close>

definition runtime_env ::
  "'o native_env \<Rightarrow> 'b bridge_ops \<Rightarrow> (string \<Rightarrow> string)
     \<Rightarrow> ((string \<times> f64) list \<Rightarrow> (string \<times> f64) list) \<Rightarrow> ('o, 'b) renv" where
  "runtime_env N B quote go_order =
     \<lparr>re_int = ne_int N, re_quote = quote, re_same = ne_same N, re_order = go_order,
      re_native = native N B, re_special = (\<lambda>r e sc st. None), re_bar_index = bo_bar_index B,
      re_open = bo_open B, re_high = bo_high B, re_low = bo_low B, re_close = bo_close B,
      re_volume = bo_volume B\<rparr>"

section \<open>Registration\<close>

definition register_all ::
  "(string \<times> string list) list \<Rightarrow> ('o, 'b) interp \<Rightarrow> ('o, 'b) interp" where
  "register_all = fold (\<lambda>(x, ps). register_builtin x ps)"

definition core_names :: "(string \<times> string list) list" where
  "core_names =
     [(''candidates.new'', [''symbol'', ''score'', ''secondary_score'', ''payload'']),
      (''candidates.add'', [''items'', ''candidate'']),
      (''candidates.sort'', [''items'', ''direction'']),
      (''candidates.take'', [''items'', ''count'']),
      (''candidates.contains_symbol'', [''items'', ''symbol'']),
      (''candidates.symbol'', []), (''candidates.score'', []), (''candidates.secondary_score'', []),
      (''candidates.payload'', []), (''snapshot'', []), (''array.contains'', [''items'', ''value'']),
      (''array.percentile'', [''items'', ''percentile'']), (''len'', [])]"

definition unnamed :: "string list \<Rightarrow> (string \<times> string list) list" where
  "unnamed xs = map (\<lambda>x. (x, [])) xs"

definition ta_names :: "(string \<times> string list) list" where
  "ta_names = unnamed
     [''ta.sma'', ''ta.ema'', ''ta.rsi'', ''ta.atr'', ''ta.highest'', ''ta.lowest'', ''ta.stdev'',
      ''ta.cci'', ''ta.crossover'', ''ta.crossunder'', ''ta.change'', ''ta.cum'', ''ta.wma'', ''ta.bb'',
      ''ta.bb_upper'', ''ta.bb_lower'', ''ta.barssince'', ''ta.valuewhen'', ''ta.percentrank'',
      ''ta.percentrank_valid'']"

definition math_names :: "(string \<times> string list) list" where
  "math_names = unnamed
     [''math.abs'', ''math.ceil'', ''math.floor'', ''math.round'', ''math.sqrt'', ''math.pow'',
      ''math.log'', ''math.log10'', ''math.exp'', ''math.max'', ''math.min'', ''math.sign'', ''math.avg'',
      ''nz'', ''na'']"

definition str_names :: "(string \<times> string list) list" where
  "str_names = unnamed [''str.contains'', ''str.length'', ''str.upper'', ''str.lower'']
     @ [(''str.split'', [''s'', ''sep'']), (''str.join'', [''parts'', ''sep''])]
     @ unnamed [''str.tostring'', ''str.format'']"

definition strategy_names :: "(string \<times> string list) list" where
  "strategy_names =
     [(''strategy.entry'', [''id'', ''direction'', ''qty'', ''limit'', ''stop'', ''twap_bars'',
        ''immediate'', ''note'', ''notional'']),
      (''strategy.close'', [''id'']), (''strategy.exit'', [''id'']),
      (''plot'', [''series'', ''title'', ''overlay'', ''precision'']), (''buy'', []), (''sell'', [])]"

definition input_names :: "(string \<times> string list) list" where
  "input_names =
     map (\<lambda>x. (x, [''defval'', ''title'', ''minval'', ''maxval'', ''step'']))
       [''input'', ''input.int'', ''input.float'']
     @ [(''input.bool'', [''defval'', ''title'']), (''input.string'', [''defval'', ''title'', ''options''])]"

definition alpha_names :: "(string \<times> string list) list" where
  "alpha_names = unnamed
     [''alpha.rank'', ''alpha.zscore'', ''alpha.decay_linear'', ''alpha.ts_rank'', ''alpha.ts_corr'',
      ''alpha.ts_cov'', ''alpha.ts_delta'', ''alpha.log_return'', ''alpha.signed_power'', ''alpha.scale'',
      ''alpha.ts_sum'', ''alpha.ts_mean'', ''alpha.ts_std'', ''alpha.ts_min'', ''alpha.ts_max'',
      ''alpha.ts_median'', ''alpha.ts_skewness'', ''alpha.ts_kurtosis'', ''alpha.ts_argmin'',
      ''alpha.ts_argmax'']"

definition signal_names :: "(string \<times> string list) list" where
  "signal_names = unnamed
     [''signal.active'', ''signal.count'', ''signal.direction'', ''signal.action'', ''signal.qty'',
      ''signal.name'', ''signal.source'', ''signal.remarks'', ''signal.ref'', ''signal.group_ref'',
      ''signal.consumed'', ''signal.consume'']"

definition event_names :: "(string \<times> string list) list" where
  "event_names = unnamed
     [''event.pending'', ''event.peek'', ''event.peek_action'', ''event.peek_name'', ''event.peek_qty'',
      ''event.next'', ''event.next_action'', ''event.consume_all'', ''event.is_init'', ''event.is_add'',
      ''event.is_close'', ''event.is_roll'']"

definition order_names :: "(string \<times> string list) list" where
  "order_names =
     [(''order.market'', [''side'', ''qty'', ''note'']),
      (''order.market_notional'', [''side'', ''notional'', ''note'']),
      (''order.limit'', [''side'', ''qty'', ''price'', ''note'']),
      (''order.stop'', [''side'', ''qty'', ''stop_price'', ''note'']),
      (''order.stop_limit'', [''side'', ''qty'', ''stop_price'', ''limit_price'', ''note'']),
      (''order.twap'', [''side'', ''qty'', ''bars'', ''note'']),
      (''order.immediate'', [''side'', ''qty'', ''note'']),
      (''order.submit'', [''id'', ''side'', ''qty'', ''notional'', ''type'', ''limit'', ''stop'',
        ''twap_bars'', ''immediate'', ''note'', ''ref'', ''group_ref'', ''schedule_at''])]"

definition request_names :: "(string \<times> string list) list" where
  "request_names =
     [(''request.security'', [''market'', ''symbol'', ''interval'', ''field'']),
      (''request.factor'', [''name'', ''interval'', ''field'']),
      (''request.fundamental'', [''market'', ''symbol'', ''factor'', ''mode''])]"

definition config_names :: "(string \<times> string list) list" where
  "config_names = [(''config.get'', [''name'', ''defval'']), (''config.string'', [''name'', ''defval''])]"

definition portfolio_names :: "(string \<times> string list) list" where
  "portfolio_names = unnamed [''portfolio.symbols'', ''portfolio.weights'', ''portfolio.len'']
     @ [(''portfolio.symbol'', [''index'', ''defval'']), (''portfolio.weight'', [''symbol'', ''defval''])]
     @ unnamed [''portfolio.items'']"

definition market_names :: "(string \<times> string list) list" where
  "market_names =
     [(''market.context'', [''rsi14'', ''cci20'', ''hv_percentile'', ''iv_percentile'',
        ''valuation_percentile''])]
     @ unnamed [''market.trend_state'', ''market.hv_state'', ''market.iv_state'',
         ''market.valuation_state'', ''market.scenario_label'', ''market.risk_label'',
         ''market.reason_codes'', ''market.warnings'']"

definition ref_names :: "(string \<times> string list) list" where
  "ref_names = (''ref.set'', [''name'', ''value''])
     # map (\<lambda>x. (x, [''name''])) [''ref.get'', ''ref.has'', ''ref.clear'', ''ref.inc'', ''ref.dec'']"

definition new_interpreter :: "stmt list \<Rightarrow> ('o, 'b) interp" where
  "new_interpreter prog = register_all core_names (blank_interp prog)"

text \<open>\<open>RegisterStrategyBuiltins\<close> and \<open>RegisterOrderBuiltins\<close> also set constants of the global scope.\<close>

definition register_strategy :: "('o, 'b) interp \<Rightarrow> ('o, 'b) interp" where
  "register_strategy st =
     scope_set global_scope ''strategy.short'' (VFloat (-1))
       (scope_set global_scope ''strategy.long'' (VFloat 1)
         (fold register_property
           [''strategy.position_size'', ''strategy.position_avg_price'', ''strategy.equity'',
            ''strategy.cash''] (register_all strategy_names st)))"

definition register_order :: "('o, 'b) interp \<Rightarrow> ('o, 'b) interp" where
  "register_order st =
     register_all order_names
       (scope_set global_scope ''order.sell'' (VFloat (-1))
         (scope_set global_scope ''order.buy'' (VFloat 1) st))"

datatype profile = ProfileIndicator | ProfileAlert | ProfileBacktest

text \<open>
  \<open>registerProfile\<close> without the group \<open>options\<close>, whose functions are not modelled: in the model their
  names are not bound. The profile of a backtest is registered with the three functions \<open>request.*\<close>
  (\<open>RegisterBacktestProfile\<close>); without functions, as for an alert, their group registers nothing.
\<close>

definition register_profile :: "profile \<Rightarrow> ('o, 'b) interp \<Rightarrow> ('o, 'b) interp" where
  "register_profile p st =
     (let full = (p = ProfileBacktest); some = (p \<noteq> ProfileIndicator);
          st = register_all input_names
                 (register_strategy (register_all (ta_names @ math_names @ str_names) st));
          st = register_all (if full then request_names else []) st;
          st = (if some
                then register_order (register_all (alpha_names @ signal_names @ event_names) st)
                else st);
          st = register_all
                 ((if some then config_names else [])
                  @ (if full then portfolio_names @ [(''universe.symbols'', [''code''])] @ market_names else [])
                  @ (if some then ref_names else [])) st
      in register_all [(''trace.emit'', [''stage'', ''symbol'', ''reason''])] st)"

section \<open>Native functions change the state in elementary steps\<close>

text \<open>\<open>native_ok E D R f\<close>: the native function \<open>f\<close> keeps the contract of the walk.\<close>

definition native_ok ::
  "('o, 'b) renv \<Rightarrow> nat \<Rightarrow> ('b \<Rightarrow> 'b \<Rightarrow> bool) \<Rightarrow> ('o, 'b) native_fn \<Rightarrow> bool" where
  "native_ok E D R f \<longleftrightarrow> (\<forall>args st. steps E D R st (snd (f args st)))"

named_theorems native_facts \<open>a native function changes the state in elementary steps\<close>

lemma native_okI: "(\<And>args st. steps E D R st (snd (f args st))) \<Longrightarrow> native_ok E D R f"
  by (simp add: native_ok_def)

lemma pure_native_ok [native_facts]: "native_ok E D R (pure_native f)"
  by (simp add: native_ok_def pure_native_def)

lemma events_native_ok [native_facts]: "native_ok E D R (events_native g f)"
  by (simp add: events_native_def pure_native_ok)

lemma steps_new_array: "refs_ok st vs \<Longrightarrow> steps E D R st (snd (new_array vs st))"
  by (intro one_step m_array)

lemma refs_ok_flat:
  "(\<And>v. v \<in> set vs \<Longrightarrow> \<not> is_array v) \<Longrightarrow> refs_ok st vs"
  unfolding refs_ok_def by (fastforce simp: is_array_def)

lemma refs_ok_strings [simp]: "refs_ok st (map VString xs)"
  by (rule refs_ok_flat) (auto simp: is_array_def)

lemma refs_ok_floats [simp]: "refs_ok st (map VFloat xs)"
  by (rule refs_ok_flat) (auto simp: is_array_def)

lemma refs_ok_Nil [simp]: "refs_ok st []"
  by (simp add: refs_ok_def)

lemma refs_ok_candidates [simp]: "refs_ok st (map candidate_object cs)"
  by (rule refs_ok_flat) (auto simp: is_array_def candidate_object_def split: prod.splits)

lemma refs_ok_subset: "refs_ok st vs \<Longrightarrow> set ws \<subseteq> set vs \<Longrightarrow> refs_ok st ws"
  unfolding refs_ok_def by blast

lemma steps_capture: "steps E D R st (snd (capture_series x v st))"
  by (intro one_step m_capture)

lemma steps_varip: "steps E D R st (store_varip x v st)"
  unfolding store_varip_def by (intro one_step m_varip)

lemma steps_set_bridge:
  "ip_read_only st = 0 \<Longrightarrow> ip_bridge st = Some b \<Longrightarrow> R b b' \<Longrightarrow> steps E D R st (set_bridge b' st)"
  using m_bridge [of st b R b' E D] by (auto simp: set_bridge_def intro: one_step)

text \<open>
  The operations of the bridge that act keep a relation. A function that acts without a bridge
  does nothing, so what it does is known to happen on the bridge of the state.
\<close>

definition bridge_within :: "'b bridge_ops \<Rightarrow> ('b \<Rightarrow> 'b \<Rightarrow> bool) \<Rightarrow> bool" where
  "bridge_within B R \<longleftrightarrow>
     (\<forall>q b. R b (bo_buy B q b) \<and> R b (bo_sell B q b)) \<and> (\<forall>x b. R b (snd (bo_close_entry B x b)))
     \<and> (\<forall>f oi b. bo_submit B = Some f \<longrightarrow> R b (snd (f oi b)))"

lemma bridge_withinD:
  assumes "bridge_within B R"
  shows "R b (bo_buy B q b)" "R b (bo_sell B q b)" "R b (snd (bo_close_entry B x b))"
    "bo_submit B = Some f \<Longrightarrow> R b (snd (f oi b))" "R b (fallback_order B oi b)"
  using assms by (auto simp: bridge_within_def fallback_order_def Let_def split: intent_side.split)

lemma steps_diagnostic:
  "dg_code d \<noteq> ''dsl.unresolved_identifier'' \<Longrightarrow> steps E D R st (add_diagnostic d st)"
  by (intro one_step m_diagnostic)

lemma steps_allow: "steps E D R st (snd (allow_side_effect x st))"
  by (auto simp: allow_side_effect_def bar_diagnostic_def intro!: steps_diagnostic)

lemma steps_allow_then:
  assumes "\<And>s. steps E D R s (snd (f False s))"
    and "\<And>s. ip_read_only s = 0 \<Longrightarrow> steps E D R s (snd (f True s))"
  shows "steps E D R st (snd (case allow_side_effect x st of (ok, s) \<Rightarrow> f ok s))"
proof (cases "ip_read_only st = 0")
  case True
  then show ?thesis using assms(2) by (simp add: allow_side_effect_def)
next
  case False
  then show ?thesis using steps_allow [of E D R st x] assms(1)
    by (auto simp: allow_side_effect_def intro: steps_trans)
qed

lemma steps_candidate_diagnostic: "steps E D R st (candidate_diagnostic f msg st)"
  unfolding candidate_diagnostic_def by (rule steps_diagnostic) (simp add: bar_diagnostic_def)

subsection \<open>Core functions\<close>

lemma candidates_new_ok [native_facts]: "native_ok E D R (candidates_new tc)"
  by (rule native_okI) (simp add: candidates_new_def Let_def steps_candidate_diagnostic)

lemma candidates_add_ok [native_facts]: "native_ok E D R candidates_add"
proof (rule native_okI)
  fix args :: "'a rvalue list" and st :: "('a, 'b) interp"
  have c: "refs_ok st [candidate_object c]" for c :: "'a candidate"
    using refs_ok_candidates [of st "[c]"] by simp
  show "steps E D R st (snd (candidates_add args st))"
    using c by (auto simp: candidates_add_def intro!: steps_new_array elements_refs refs_ok_append
        split: option.split)
qed

lemma candidates_sort_ok [native_facts]: "native_ok E D R (candidates_sort tc)"
  by (rule native_okI)
    (auto simp: candidates_sort_def Let_def steps_candidate_diagnostic steps_new_array
      split: option.split)

lemma candidates_take_ok [native_facts]: "native_ok E D R (candidates_take conv)"
  by (rule native_okI)
    (auto simp: candidates_take_def Let_def steps_candidate_diagnostic
      intro!: steps_new_array refs_ok_subset [OF elements_refs] dest: in_set_takeD)

lemma candidates_contains_ok [native_facts]: "native_ok E D R (candidates_contains tc)"
  by (rule native_okI)
    (auto simp: candidates_contains_def Let_def steps_candidate_diagnostic split: option.split)

lemma str_split_ok [native_facts]: "native_ok E D R str_split"
  by (rule native_okI) (auto simp: str_split_def intro!: steps_new_array)

lemma ref_set_ok [native_facts]: "native_ok E D R ref_set"
  by (rule native_okI) (simp add: ref_set_def Let_def steps_varip)

lemma ref_clear_ok [native_facts]: "native_ok E D R ref_clear"
  by (rule native_okI) (simp add: ref_clear_def Let_def steps_varip)

lemma ref_add_ok [native_facts]: "native_ok E D R (ref_add d)"
  by (rule native_okI) (simp add: ref_add_def Let_def steps_varip)

lemma steps_trace_keys:
  "code \<noteq> ''dsl.unresolved_identifier''
    \<Longrightarrow> steps E D R st (add_diagnostic (bar_diagnostic sev code msg func hint st) (st\<lparr>ip_trace_keys := ks\<rparr>))"
  by (rule steps_trans [OF one_step [OF m_trace] steps_diagnostic]) (simp add: bar_diagnostic_def)

lemma trace_emit_ok [native_facts]: "native_ok E D R (trace_emit tc)"
proof (rule native_okI)
  fix args :: "'a rvalue list" and st :: "('a, 'b) interp"
  have code: "''dsl.trace.'' @ s \<noteq> ''dsl.unresolved_identifier''"
    "''dsl.trace.truncated'' \<noteq> ''dsl.unresolved_identifier''" for s
    by simp_all
  show "steps E D R st (snd (trace_emit tc args st))"
    unfolding trace_emit_def Let_def
    by (simp only: if_distrib [of snd] snd_conv split: if_split)
      (intro conjI impI rtranclp.rtrancl_refl steps_trace_keys code)
qed

subsection \<open>Indicators\<close>

lemma steps_ta_value: "steps E D R st (snd (ta_series_value N name v args st))"
  unfolding ta_series_value_def by (rule steps_capture)

lemma steps_capture_rsi: "steps E D R st (snd (capture_rsi N v g l args st))"
  unfolding capture_rsi_def
  by (rule steps_trans [OF steps_trans [OF steps_ta_value steps_ta_value] steps_ta_value])

lemma ta_windowed_ok [native_facts]: "native_ok E D R (ta_windowed N name f)"
  by (rule native_okI) (auto simp: ta_windowed_def steps_ta_value split: option.split)

lemma ta_ema_ok [native_facts]: "native_ok E D R (ta_ema N)"
  by (rule native_okI) (auto simp: ta_ema_def Let_def steps_ta_value split: option.split)

lemma steps_rsi_step: "steps E D R st (snd (rsi_step N data n args st))"
  by (simp add: rsi_step_def Let_def steps_capture_rsi split: prod.split)

lemma ta_rsi_ok [native_facts]: "native_ok E D R (ta_rsi N)"
  by (rule native_okI)
    (auto simp: ta_rsi_def Let_def steps_capture_rsi steps_rsi_step split: option.split)

lemma ta_atr_ok [native_facts]: "native_ok E D R (ta_atr N)"
  by (rule native_okI) (auto simp: ta_atr_def steps_ta_value split: prod.split)

lemma ta_cci_ok [native_facts]: "native_ok E D R (ta_cci N)"
  by (rule native_okI) (auto simp: ta_cci_def steps_ta_value split: option.split)

lemma ta_change_ok [native_facts]: "native_ok E D R (ta_change N)"
  by (rule native_okI) (auto simp: ta_change_def Let_def steps_ta_value split: option.split)

lemma ta_cum_ok [native_facts]: "native_ok E D R (ta_cum N)"
  by (rule native_okI) (auto simp: ta_cum_def steps_ta_value split: option.split list.split)

lemma ta_percentrank_valid_ok [native_facts]: "native_ok E D R (ta_percentrank_valid N)"
  by (rule native_okI)
    (auto simp: ta_percentrank_valid_def Let_def steps_ta_value split: option.split)

lemma ta_bb_ok [native_facts]: "native_ok E D R (ta_bb N)"
proof (rule native_okI)
  fix args :: "'a rvalue list" and st :: "('a, 'b) interp"
  have "refs_ok st [VFloat x, VFloat y, VFloat z]" for x y z
    using refs_ok_floats [of st "[x, y, z]"] by simp
  then show "steps E D R st (snd (ta_bb N args st))"
    by (auto simp: ta_bb_def intro!: steps_new_array split: option.split)
qed

lemma ta_band_ok [native_facts]: "native_ok E D R (ta_band N name f)"
  by (rule native_okI) (auto simp: ta_band_def steps_ta_value split: option.split)

subsection \<open>Functions of the bridge\<close>

lemma steps_submit_intent: "bridge_within B R \<Longrightarrow> steps E D R st (snd (submit_intent B oi st))"
  unfolding submit_intent_def Let_def
  by (rule steps_allow_then)
    (auto intro: steps_set_bridge bridge_withinD split: option.split)

lemma submit_native_ok [native_facts]: "bridge_within B R \<Longrightarrow> native_ok E D R (submit_native B f)"
proof (rule native_okI)
  fix args st
  assume "bridge_within B R"
  then show "steps E D R st (snd (submit_native B f args st))"
    using steps_submit_intent [of B R E D st "f st args"]
    by (auto simp: submit_native_def split: prod.split)
qed

lemma strategy_entry_ok [native_facts]: "bridge_within B R \<Longrightarrow> native_ok E D R (strategy_entry conv B)"
  unfolding strategy_entry_def Let_def
  by (rule native_okI, rule steps_allow_then) (simp_all add: steps_submit_intent)

lemma steps_builtin_failure: "steps E D R st (report_builtin_failure f reason st)"
  by (intro one_step m_failure)

lemma steps_close_entry:
  assumes "bridge_within B R" "ip_read_only st = 0" "ip_bridge st = Some b" "bo_close_entry B x b = (c, b')"
  shows "steps E D R st (set_bridge b' st)"
  using bridge_withinD(3) [OF assms(1), of b x] assms(2-4) by (intro steps_set_bridge) simp_all

lemma strategy_close_ok [native_facts]: "bridge_within B R \<Longrightarrow> native_ok E D R (strategy_close B name)"
  unfolding strategy_close_def Let_def
  by (rule native_okI, rule steps_allow_then)
    (auto split: option.split prod.split
      intro: steps_close_entry steps_trans [OF steps_close_entry steps_builtin_failure])

lemma request_native_ok [native_facts]: "native_ok E D R (request_native B x)"
proof (rule native_okI)
  fix args :: "'a rvalue list" and st :: "('a, 'b) interp"
  have "steps E D R st (add_missing_request f m st)" for f m
    by (auto simp: add_missing_request_def not_preloaded_def intro!: steps_diagnostic split: option.split)
  then show "steps E D R st (snd (request_native B x args st))"
    by (auto simp: request_native_def steps_capture split: request_target.split option.split)
qed

lemma plot_native_ok [native_facts]: "native_ok E D R (plot_native conv)"
  by (rule native_okI) (simp add: plot_native_def one_step [OF m_plot])

lemma trade_native_ok: "(\<And>q b. R b (f q b)) \<Longrightarrow> native_ok E D R (trade_native f name)"
  unfolding trade_native_def Let_def
  by (rule native_okI, rule steps_allow_then) (auto intro: steps_set_bridge split: option.split)

lemma trades_ok [native_facts]:
  assumes "bridge_within B R"
  shows "native_ok E D R (trade_native (bo_buy B) name)" "native_ok E D R (trade_native (bo_sell B) name)"
  using bridge_withinD [OF assms] by (auto intro: trade_native_ok)

lemma portfolio_pairs_steps:
  "portfolio_pairs ss ws i st = (vs, st') \<Longrightarrow> steps E D R st st' \<and> refs_ok st' vs"
proof (induction ss arbitrary: i st vs st')
  case Nil
  then show ?case by simp
next
  case (Cons s ss)
  let ?xs = "[VString s, VFloat (if i < length ws then ws ! i else 0)]"
  obtain v s1 where a: "new_array ?xs st = (v, s1)" by fastforce
  obtain us s2 where p: "portfolio_pairs ss ws (Suc i) s1 = (us, s2)" by fastforce
  have vs: "vs = v # us" "st' = s2" using Cons.prems a p by auto
  have ok: "refs_ok st ?xs" by (rule refs_ok_flat) (auto simp: is_array_def)
  have s1: "steps E D R st s1" using steps_new_array [OF ok, of E D R] a by simp
  note s2 = Cons.IH [OF p]
  have v: "v = VArray (length (ip_arrays st))" "length (ip_arrays s1) = Suc (length (ip_arrays st))"
    using a by (auto simp: new_array_def)
  have "length (ip_arrays s1) \<le> length (ip_arrays s2)" using s2 steps_arrays_length by blast
  with v s2 have "refs_ok s2 (v # us)" by (auto simp: refs_ok_def)
  then show ?case using s1 s2 vs by (auto intro: steps_trans)
qed

lemma portfolio_items_ok [native_facts]: "native_ok E D R (portfolio_items N B)"
proof (rule native_okI)
  fix args :: "'a rvalue list" and st :: "('a, 'b) interp"
  obtain vs s where p: "portfolio_pairs (portfolio_symbols B st) (portfolio_weights N B st) 0 st = (vs, s)"
    by fastforce
  show "steps E D R st (snd (portfolio_items N B args st))"
    using portfolio_pairs_steps [OF p, of E D R]
    by (auto simp: portfolio_items_def p intro: steps_trans [OF _ steps_new_array])
qed

lemma string_array_ok [native_facts]: "native_ok E D R (\<lambda>args st. new_array (map VString (f st)) st)"
  by (rule native_okI) (auto intro: steps_new_array)

lemma float_array_ok [native_facts]: "native_ok E D R (\<lambda>args st. new_array (map VFloat (f st)) st)"
  by (rule native_okI) (auto intro: steps_new_array)

lemma universe_symbols_ok [native_facts]: "native_ok E D R (universe_symbols N B)"
  by (rule native_okI) (auto simp: universe_symbols_def Let_def intro!: steps_new_array)

lemma signal_consume_ok [native_facts]: "native_ok E D R (signal_consume B)"
  by (rule native_okI) (simp add: signal_consume_def Let_def steps_varip)

lemma steps_mark: "steps E D R st (mark_consumed e st)"
  by (simp add: mark_consumed_def steps_varip)

lemma steps_marks: "steps E D R st (fold mark_consumed es st)"
  by (induction es arbitrary: st) (auto intro: steps_trans [OF steps_mark])

lemma event_next_ok [native_facts]: "native_ok E D R (event_next B f)"
  by (rule native_okI) (auto simp: event_next_def steps_mark split: list.split)

lemma event_consume_all_ok [native_facts]: "native_ok E D R (event_consume_all B)"
  by (rule native_okI) (simp add: event_consume_all_def Let_def steps_marks)

lemma market_text_ok [native_facts]: "native_ok E D R (market_text f)"
  by (rule native_okI) (simp add: market_text_def)

lemma market_texts_ok [native_facts]: "native_ok E D R (market_texts f)"
  by (rule native_okI) (auto simp: market_texts_def intro: steps_new_array)

subsection \<open>All functions\<close>

definition group_ok ::
  "('o, 'b) renv \<Rightarrow> nat \<Rightarrow> ('b \<Rightarrow> 'b \<Rightarrow> bool) \<Rightarrow> (string \<Rightarrow> ('o, 'b) native_fn option) \<Rightarrow> bool" where
  "group_ok E D R g \<longleftrightarrow> (\<forall>x. pred_option (native_ok E D R) (g x))"

lemma pred_option_if:
  "native_ok E D R f \<Longrightarrow> pred_option (native_ok E D R) r
    \<Longrightarrow> pred_option (native_ok E D R) (if b then Some f else r)"
  by simp

lemma pred_option_None: "pred_option P None"
  by simp

lemmas group_rules = pred_option_if pred_option_None

lemma core_group: "group_ok E D R (core_native N)"
  unfolding group_ok_def core_native_def by (intro allI group_rules native_facts)

lemma ta_group: "group_ok E D R (ta_native N)"
  unfolding group_ok_def ta_native_def by (intro allI group_rules native_facts)

lemma math_group: "group_ok E D R (math_native N)"
  unfolding group_ok_def math_native_def by (intro allI group_rules native_facts)

lemma str_group: "group_ok E D R (str_native N)"
  unfolding group_ok_def str_native_def by (intro allI group_rules native_facts)

lemma strategy_group: "bridge_within B R \<Longrightarrow> group_ok E D R (strategy_native N B)"
  unfolding group_ok_def strategy_native_def by (intro allI group_rules native_facts)

lemma input_group: "group_ok E D R (input_native N)"
  unfolding group_ok_def input_native_def by (intro allI group_rules native_facts)

lemma request_group: "group_ok E D R (request_natives B)"
  unfolding group_ok_def request_natives_def by (intro allI group_rules native_facts)

lemma alpha_group: "group_ok E D R (alpha_native N)"
  unfolding group_ok_def alpha_native_def Let_def by (intro allI group_rules native_facts)

lemma signal_group: "group_ok E D R (signal_native B)"
  unfolding group_ok_def signal_native_def Let_def by (intro allI group_rules native_facts)

lemma event_group: "group_ok E D R (event_native B)"
  unfolding group_ok_def event_native_def Let_def by (intro allI group_rules native_facts)

lemma order_group: "bridge_within B R \<Longrightarrow> group_ok E D R (order_native N B)"
  unfolding group_ok_def order_native_def by (intro allI group_rules native_facts)

lemma portfolio_group: "group_ok E D R (portfolio_native N B)"
  unfolding group_ok_def portfolio_native_def by (intro allI group_rules native_facts)

lemma market_group: "group_ok E D R market_native"
  unfolding group_ok_def market_native_def by (intro allI group_rules native_facts)

lemma ref_group: "group_ok E D R ref_native"
  unfolding group_ok_def ref_native_def by (intro allI group_rules native_facts)

lemma single_group: "native_ok E D R f \<Longrightarrow> group_ok E D R (\<lambda>x. if x = n then Some f else None)"
  unfolding group_ok_def by simp

lemma first_native_ok: "list_all (group_ok E D R) gs \<Longrightarrow> pred_option (native_ok E D R) (first_native gs x)"
  by (induction gs) (auto simp: group_ok_def split: option.split dest!: spec [of _ x])

lemma native_groups_ok: "bridge_within B R \<Longrightarrow> list_all (group_ok E D R) (native_groups N B)"
  unfolding native_groups_def list.pred_inject(2)
  by (intro conjI list.pred_inject(1) core_group ta_group math_group str_group strategy_group input_group
      request_group alpha_group signal_group event_group order_group portfolio_group market_group ref_group single_group
      universe_symbols_ok trace_emit_ok)

lemma native_steps_all: "bridge_within B R \<Longrightarrow> steps E D R st (snd (native N B x args st))"
  using first_native_ok [OF native_groups_ok, of B R E D N x]
  by (auto simp: native_def native_ok_def split: option.split)

section \<open>The walk with these functions\<close>

text \<open>
  The bridge the walk runs on: whatever relation its operations keep, the walk keeps.
\<close>

locale bridged =
  fixes N :: "'o native_env" and B :: "'b bridge_ops" and quote :: "string \<Rightarrow> string"
    and go_order :: "(string \<times> f64) list \<Rightarrow> (string \<times> f64) list" and D :: nat
    and R :: "'b \<Rightarrow> 'b \<Rightarrow> bool"
  assumes within: "bridge_within B R"
begin

lemma natives: "steps E D R st (snd (native N B x args st))"
  using within by (rule native_steps_all)

end

sublocale bridged < total_runtime "runtime_env N B quote go_order" D R
  by unfold_locales (simp_all add: runtime_env_def natives)

text \<open>Every bridge keeps the relation that always holds.\<close>

interpretation dsl: bridged N B quote go_order D "\<lambda>_ _. True" for N B quote go_order D
  by unfold_locales (simp add: bridge_within_def)

interpretation dsl_fuel: fuel_runtime "runtime_env N B quote go_order" for N B quote go_order
  by unfold_locales (simp add: runtime_env_def)

end
