(* ===== verification/Dsl_Session.thy ===== *)
theory Dsl_Session
  imports Dsl_Runtime
begin

text \<open>
  A script over a whole backtest: the states an interpreter passes through between its creation
  and the last bar (\<open>NewInterpreter\<close>, \<open>RegisterProfile\<close>, \<open>Init\<close>, \<open>SetNamedField\<close>, \<open>OnBar\<close>), and their
  invariants.
\<close>

section \<open>Sessions\<close>

text \<open>
  \<open>session E F prog st\<close>: the script \<open>prog\<close> has come to the state \<open>st\<close>; \<open>F\<close> is the set of the names
  of the fields that the host queues. The host may replace the bridge before every bar.
\<close>

definition first_state ::
  "profile \<Rightarrow> int \<Rightarrow> (string \<Rightarrow> f64 option) \<Rightarrow> (string \<Rightarrow> string option) \<Rightarrow> bool \<Rightarrow> stmt list
     \<Rightarrow> ('o, 'b) interp" where
  "first_state p budget inputs strings diags prog =
     interp_init (register_profile p (new_interpreter prog))
       \<lparr>ip_budget := budget, ip_inputs := inputs, ip_input_strings := strings,
        ip_diagnostics := (if diags then Some [] else None)\<rparr>"

inductive session ::
  "('o, 'b) renv \<Rightarrow> string set \<Rightarrow> stmt list \<Rightarrow> ('o, 'b) interp \<Rightarrow> bool"
  for E :: "('o, 'b) renv" and F :: "string set" and prog :: "stmt list" where
  s_start: "session E F prog (first_state p budget inputs strings diags prog)"
| s_bridge: "session E F prog st \<Longrightarrow> session E F prog (st\<lparr>ip_bridge := b\<rparr>)"
| s_field: "session E F prog st \<Longrightarrow> x \<in> F \<Longrightarrow> session E F prog (set_named_field x v st)"
| s_bar: "session E F prog st \<Longrightarrow> on_bar E n st = Some st' \<Longrightarrow> session E F prog st'"

section \<open>What registration and the start of a bar leave alone\<close>

text \<open>The parts of the state that the start of a bar and the registration do not touch.\<close>

definition same_store :: "('o, 'b) interp \<Rightarrow> ('o, 'b) interp \<Rightarrow> bool" where
  "same_store st st' \<longleftrightarrow>
     ip_program st' = ip_program st \<and> ip_arrays st' = ip_arrays st \<and> ip_fns st' = ip_fns st \<and>
     ip_read_only st' = ip_read_only st \<and> ip_bridge st' = ip_bridge st \<and>
     ip_unresolved st' = ip_unresolved st \<and> ip_diagnostics st' = ip_diagnostics st \<and>
     ip_budget st' = ip_budget st \<and> ip_left st' = ip_left st \<and> ip_halted st' = ip_halted st \<and>
     ip_bar_index st' = ip_bar_index st"

lemma same_store_refl [simp]: "same_store st st"
  by (simp add: same_store_def)

lemma same_store_trans: "same_store a b \<Longrightarrow> same_store b c \<Longrightarrow> same_store a c"
  by (simp add: same_store_def)

lemma same_store_scope_set: "same_store st (scope_set sc x v st)"
  by (simp add: same_store_def scope_set_def set_in_frame_def split: list.split)

lemma same_store_bar_field: "same_store st (set_bar_field x v st)"
  by (auto simp: same_store_def set_bar_field_def scope_set_def set_in_frame_def update_series_def
      new_series_def Let_def split: option.split list.split)

lemma same_store_bridge_fields: "same_store st (bridge_fields E b st)"
  unfolding bridge_fields_def Let_def
  by (intro same_store_scope_set same_store_bar_field
      same_store_trans [OF _ same_store_scope_set] same_store_trans [OF _ same_store_bar_field])

lemma same_store_fields: "same_store st (fold (\<lambda>f. set_bar_field (fst f) (snd f)) fs st)"
  by (induction fs arbitrary: st) (auto intro: same_store_trans [OF same_store_bar_field])

lemma same_store_queued: "same_store st (queued_fields E st)"
proof -
  have "same_store s (s\<lparr>ip_queued := []\<rparr>)" for s :: "('a, 'b) interp"
    by (simp add: same_store_def)
  then show ?thesis
    unfolding queued_fields_def by (rule same_store_trans [OF same_store_fields])
qed

lemma same_store_reset: "same_store st (fold reset_plot ps st)"
  by (induction ps arbitrary: st) (auto simp: reset_plot_def update_series_def same_store_def)

lemma same_store_reset_plots: "same_store st (reset_plots st)"
proof -
  have "same_store s (s\<lparr>ip_plots := ps\<rparr>)" for s :: "('a, 'b) interp" and ps
    by (simp add: same_store_def)
  then show ?thesis
    unfolding reset_plots_def by (rule same_store_trans [OF same_store_reset])
qed

text \<open>The state that \<open>OnBar\<close> starts from.\<close>

definition next_bar :: "('o, 'b) interp \<Rightarrow> ('o, 'b) interp" where
  "next_bar st = st\<lparr>ip_bar_index := ip_bar_index st + 1, ip_left := execution_budget st,
                    ip_halted := False\<rparr>"

lemma same_store_open_bar: "same_store (next_bar st) (open_bar E st)"
proof -
  have "same_store s (case ip_bridge s of None \<Rightarrow> s | Some b \<Rightarrow> bridge_fields E b s)" for s :: "('a, 'b) interp"
    by (auto simp: same_store_bridge_fields split: option.split)
  then show ?thesis
    unfolding open_bar_def Let_def next_bar_def [symmetric]
    by (blast intro: same_store_trans same_store_queued same_store_reset_plots)
qed

lemma register_builtin_sel:
  "ip_program (register_builtin x ps st) = ip_program st"
  "ip_arrays (register_builtin x ps st) = ip_arrays st"
  "ip_fns (register_builtin x ps st) =
     ip_fns st @ [\<lparr>fn_name = x, fn_params = ps, fn_body = Native x, fn_closure = []\<rparr>]"
  "ip_bar_index (register_builtin x ps st) = ip_bar_index st"
  "ip_unresolved (register_builtin x ps st) = ip_unresolved st"
  "ip_read_only (register_builtin x ps st) = ip_read_only st"
  "ip_series (register_builtin x ps st) = ip_series st"
  "ip_series_map (register_builtin x ps st) = ip_series_map st"
  "ip_plots (register_builtin x ps st) = ip_plots st"
  "ip_queued (register_builtin x ps st) = ip_queued st"
  by (simp_all add: register_builtin_def new_fn_def Let_def)

text \<open>A fresh state: what holds before the first bar.\<close>

definition fresh_state :: "stmt list \<Rightarrow> ('o, 'b) interp \<Rightarrow> bool" where
  "fresh_state prog st \<longleftrightarrow>
     ip_program st = prog \<and> ip_arrays st = [] \<and> ip_bar_index st = 0 \<and> ip_unresolved st = [] \<and>
     ip_read_only st = 0 \<and> ip_series st = [] \<and> ip_series_map st = (\<lambda>_. None) \<and> ip_plots st = [] \<and>
     ip_queued st = [] \<and> fns_small 0 st"

lemma fresh_register: "fresh_state prog st \<Longrightarrow> fresh_state prog (register_builtin x ps st)"
  by (auto simp: fresh_state_def register_builtin_sel fns_small_def)

lemma fresh_register_all: "fresh_state prog st \<Longrightarrow> fresh_state prog (register_all xs st)"
  unfolding register_all_def
  by (induction xs arbitrary: st) (auto simp: fresh_register split: prod.splits)

lemma fresh_scope_set: "fresh_state prog st \<Longrightarrow> fresh_state prog (scope_set sc x v st)"
  by (simp add: fresh_state_def scope_set_def set_in_frame_def fns_small_def split: list.split)

lemma fresh_property: "fresh_state prog st \<Longrightarrow> fresh_state prog (register_property x st)"
  by (simp add: fresh_state_def register_property_def fns_small_def)

lemma fresh_profile: "fresh_state prog st \<Longrightarrow> fresh_state prog (register_profile p st)"
  by (simp add: register_profile_def register_strategy_def register_order_def Let_def
      fresh_register_all fresh_scope_set fresh_property)

lemma fresh_blank: "fresh_state prog (blank_interp prog)"
  by (simp add: fresh_state_def blank_interp_def fns_small_def)

lemma fresh_init: "fresh_state prog st \<Longrightarrow> fresh_state prog (interp_init st)"
proof -
  assume st: "fresh_state prog st"
  have "fresh_state prog (st\<lparr>ip_frames := fs\<rparr>)" for fs
    using st by (simp add: fresh_state_def fns_small_def)
  then show ?thesis by (simp add: interp_init_def Let_def fresh_scope_set)
qed

lemma fresh_first: "fresh_state prog (first_state p budget inputs strings diags prog)"
proof -
  have "fresh_state prog (interp_init (register_profile p (new_interpreter prog)) :: ('a, 'b) interp)"
    unfolding new_interpreter_def
    by (intro fresh_init fresh_profile fresh_register_all fresh_blank)
  then show ?thesis by (simp add: first_state_def fresh_state_def fns_small_def)
qed

section \<open>The run of a bar\<close>

text \<open>The size that bounds every function body a script can make.\<close>

definition script_size :: "stmt list \<Rightarrow> nat" where
  "script_size prog = stmts_size prog + 1"

lemma fns_small_mono: "fns_small D st \<Longrightarrow> D \<le> D' \<Longrightarrow> fns_small D' st"
  by (fastforce simp: fns_small_def)

lemma same_store_facts:
  assumes "same_store st st'"
  shows "ip_program st' = ip_program st" "ip_arrays st' = ip_arrays st"
    "fns_small D st' = fns_small D st" "heap_ok st' = heap_ok st"
    "ip_read_only st' = ip_read_only st" "budget_left st' = budget_left st"
    "ip_unresolved st' = ip_unresolved st" "ip_diagnostics st' = ip_diagnostics st"
    "ip_bar_index st' = ip_bar_index st" "ip_bridge st' = ip_bridge st"
  using assms by (simp_all add: same_store_def fns_small_def heap_ok_def budget_left_def)

lemma open_bar_facts:
  "ip_program (open_bar E st) = ip_program st" "ip_arrays (open_bar E st) = ip_arrays st"
  "fns_small D (open_bar E st) = fns_small D st" "heap_ok (open_bar E st) = heap_ok st"
  "ip_read_only (open_bar E st) = ip_read_only st"
  "budget_left (open_bar E st) = Suc (nat (execution_budget st))"
  "ip_unresolved (open_bar E st) = ip_unresolved st"
  "ip_diagnostics (open_bar E st) = ip_diagnostics st"
  "ip_bar_index (open_bar E st) = ip_bar_index st + 1"
  "ip_bridge (open_bar E st) = ip_bridge st"
  using same_store_facts [OF same_store_open_bar [of st E]]
  by (simp_all add: next_bar_def fns_small_def heap_ok_def budget_left_def)

lemma on_bar_run:
  "on_bar E n st = Some st' \<longleftrightarrow>
     (\<exists>v. run E n (WBlock (ip_program st)) global_scope (open_bar E st) = Some (v, st'))"
  by (auto simp: on_bar_def open_bar_facts)

context bridged
begin

lemma on_bar_steps:
  assumes "on_bar (runtime_env N B quote go_order) n st = Some st'" and "fns_small D st"
    and "stmts_size (ip_program st) + 1 \<le> D"
  shows "steps (runtime_env N B quote go_order) D R (open_bar (runtime_env N B quote go_order) st) st'"
  using assms by (auto simp: on_bar_run open_bar_facts intro: run_steps)

text \<open>What a bar does to the bridge is a sequence of what its operations do.\<close>

lemma on_bar_bridge:
  assumes "on_bar (runtime_env N B quote go_order) n st = Some st'" and "fns_small D st"
    and "stmts_size (ip_program st) + 1 \<le> D"
  shows "rel_option R\<^sup>*\<^sup>* (ip_bridge st) (ip_bridge st')"
  using steps_bridge [OF on_bar_steps [OF assms]] by (simp add: open_bar_facts)

end

text \<open>What every state of a session has.\<close>

definition session_ok :: "stmt list \<Rightarrow> ('o, 'b) interp \<Rightarrow> bool" where
  "session_ok prog st \<longleftrightarrow>
     ip_program st = prog \<and> fns_small (script_size prog) st \<and> heap_ok st \<and> ip_read_only st = 0"

lemma session_ok_bar:
  fixes N :: "'o native_env" and B :: "'b bridge_ops" and quote go_order
  defines "E \<equiv> runtime_env N B quote go_order"
  assumes st: "session_ok prog st" and bar: "on_bar E n st = Some st'"
  shows "session_ok prog st'"
proof -
  have s: "steps E (script_size prog) (\<lambda>_ _. True) (open_bar E st) st'"
    using st dsl.on_bar_steps [OF bar [unfolded E_def], folded E_def, of "script_size prog"]
    by (simp add: session_ok_def script_size_def)
  show ?thesis
    using st steps_same_code [OF s] steps_same_host [OF s] steps_fns [OF s] steps_heap [OF s]
    by (simp add: session_ok_def open_bar_facts same_code_def same_host_def)
qed

lemma session_ok_fresh: "fresh_state prog st \<Longrightarrow> session_ok prog st"
  by (auto simp: fresh_state_def session_ok_def heap_ok_def ranked_def intro: fns_small_mono)

lemma session_invariants:
  "session (runtime_env N B quote go_order) F prog st \<Longrightarrow> session_ok prog st"
proof (induction rule: session.induct)
  case (s_start p budget inputs strings diags)
  show ?case by (rule session_ok_fresh [OF fresh_first])
next
  case (s_bar st n st')
  then show ?case by (blast intro: session_ok_bar)
qed (auto simp: session_ok_def set_named_field_def fns_small_def heap_ok_def)

section \<open>Every bar ends\<close>

text \<open>The fuel that a bar may use up.\<close>

definition bar_fuel :: "('o, 'b) interp \<Rightarrow> nat" where
  "bar_fuel st =
     (nat (execution_budget st) + 1) * (script_size (ip_program st) + 1)
     + script_size (ip_program st) + 1"

lemma bar_returns:
  fixes N :: "'o native_env" and B :: "'b bridge_ops" and quote go_order
  defines "E \<equiv> runtime_env N B quote go_order"
  assumes st: "session_ok prog st" and n: "bar_fuel st \<le> n"
  shows "on_bar E n st = on_bar E (bar_fuel st) st" "on_bar E (bar_fuel st) st \<noteq> None"
proof -
  let ?D = "script_size prog"
  have r: "ready ?D (budget_left (open_bar E st)) (open_bar E st)"
    using st by (simp add: session_ok_def ready_def open_bar_facts)
  have "returns (open_bar E st) (run E (bar_fuel st) (WBlock prog) global_scope (open_bar E st))"
    unfolding E_def
    by (rule dsl.run_total [OF r [unfolded E_def]])
      (use st in \<open>simp_all add: script_size_def session_ok_def open_bar_facts bar_fuel_def\<close>)
  then obtain v st' where v: "run E (bar_fuel st) (WBlock prog) global_scope (open_bar E st) = Some (v, st')"
    by (auto simp: returns_def)
  then have "run E n (WBlock prog) global_scope (open_bar E st) = Some (v, st')"
    unfolding E_def using n by (rule dsl_fuel.run_fuel)
  then show "on_bar E n st = on_bar E (bar_fuel st) st" "on_bar E (bar_fuel st) st \<noteq> None"
    using v st by (simp_all add: on_bar_def open_bar_facts session_ok_def)
qed

end
