(* ===== verification/Dsl_Session_Laws.thy ===== *)
theory Dsl_Session_Laws
  imports Dsl_Session "HOL-Library.Multiset"
begin

text \<open>
  Two invariants of a session: how long the series are, and that an unknown identifier is
  reported once.
\<close>

section \<open>The length of the series\<close>

text \<open>
  \<open>spans k n st\<close>: a series with the name \<open>x\<close> has at most \<open>n x\<close> values, the series of a plot has
  \<open>k\<close>, and no two names and no two plots share a series.
\<close>

definition spans :: "nat \<Rightarrow> (string \<Rightarrow> nat) \<Rightarrow> ('o, 'b) interp \<Rightarrow> bool" where
  "spans k n st \<longleftrightarrow>
     (\<forall>x a. ip_series_map st x = Some a \<longrightarrow>
        a < length (ip_series st) \<and> length (ip_series st ! a) \<le> n x
        \<and> a \<notin> pl_series ` set (ip_plots st))
     \<and> (\<forall>x y a. ip_series_map st x = Some a \<and> ip_series_map st y = Some a \<longrightarrow> x = y)
     \<and> distinct (map pl_series (ip_plots st))
     \<and> (\<forall>p \<in> set (ip_plots st). pl_series p < length (ip_series st)
          \<and> length (ip_series st ! pl_series p) = k)"

lemma spansD:
  assumes "spans k n st" and "ip_series_map st x = Some a"
  shows "a < length (ip_series st)" "length (ip_series st ! a) \<le> n x"
    "a \<notin> pl_series ` set (ip_plots st)" "ip_series_map st y = Some a \<Longrightarrow> x = y"
  using assms unfolding spans_def by blast+

lemma spans_mono: "spans k n st \<Longrightarrow> (\<And>x. n x \<le> m x) \<Longrightarrow> spans k m st"
  unfolding spans_def by (meson order_trans)

lemma spans_cong:
  "spans k n st \<Longrightarrow> ip_series st' = ip_series st \<Longrightarrow> ip_series_map st' = ip_series_map st
    \<Longrightarrow> ip_plots st' = ip_plots st \<Longrightarrow> spans k n st'"
  by (simp add: spans_def)

lemma scope_set_series [simp]:
  "ip_series (scope_set sc x v st) = ip_series st"
  "ip_series_map (scope_set sc x v st) = ip_series_map st"
  "ip_plots (scope_set sc x v st) = ip_plots st"
  "ip_bar_index (scope_set sc x v st) = ip_bar_index st"
  by (simp_all add: scope_set_def set_in_frame_def split: list.split)

text \<open>A new series under a name that has none.\<close>

definition named_series ::
  "string \<Rightarrow> f64 list \<Rightarrow> ('o, 'b) interp \<Rightarrow> nat \<times> ('o, 'b) interp" where
  "named_series x init st =
     (case ip_series_map st x of
        Some a \<Rightarrow> (a, st)
      | None \<Rightarrow> let (a, st) = new_series init st
                in (a, st\<lparr>ip_series_map := (ip_series_map st)(x := Some a)\<rparr>))"

lemma named_series_spans:
  assumes st: "spans k n st" and init: "length init \<le> n x"
    and r: "named_series x init st = (a, st')"
  shows "spans k n st'" "ip_series_map st' x = Some a" "ip_bar_index st' = ip_bar_index st"
proof -
  show "ip_series_map st' x = Some a" "ip_bar_index st' = ip_bar_index st"
    using r by (auto simp: named_series_def new_series_def split: option.splits)
  show "spans k n st'"
  proof (cases "ip_series_map st x")
    case (Some b)
    then show ?thesis using st r by (simp add: named_series_def)
  next
    case None
    have st': "a = length (ip_series st)"
      "st' = st\<lparr>ip_series := ip_series st @ [init], ip_series_map := (ip_series_map st)(x := Some a)\<rparr>"
      using r None by (auto simp: named_series_def new_series_def)
    have old: "b < length (ip_series st)" if "ip_series_map st y = Some b" for y b
      using spansD(1) [OF st that] .
    show ?thesis
      using st init None old unfolding spans_def st'(2)
      by (auto simp: st'(1) nth_append dest: old less_imp_neq)
  qed
qed

text \<open>Changing the series with a name.\<close>

lemma update_series_spans:
  assumes st: "spans k n st" and x: "ip_series_map st x = Some a"
    and len: "length (f (ip_series st ! a)) \<le> m x" and other: "\<And>y. y \<noteq> x \<Longrightarrow> n y \<le> m y"
  shows "spans k m (update_series a f st)"
proof -
  note a = spansD [OF st x]
  have val: "ip_series (update_series a f st) = (ip_series st)[a := f (ip_series st ! a)]"
    using a(1) by (simp add: update_series_def series_of_def)
  have rest: "ip_series_map (update_series a f st) = ip_series_map st"
    "ip_plots (update_series a f st) = ip_plots st"
    by (simp_all add: update_series_def)
  have "length (ip_series (update_series a f st) ! b) \<le> m y" if "ip_series_map st y = Some b" for y b
  proof (cases "y = x")
    case True
    then have "b = a" using that x by simp
    then show ?thesis using len a(1) True by (simp add: val)
  next
    case False
    then have "a \<noteq> b" using spansD(4) [OF st x, of y] that by blast
    then show ?thesis using spansD(2) [OF st that] other [OF False] by (simp add: val order_trans)
  qed
  moreover have "a \<noteq> pl_series p" if "p \<in> set (ip_plots st)" for p using a(3) that by auto
  ultimately show ?thesis using st unfolding spans_def rest by (auto simp: val)
qed

lemma update_series_map [simp]:
  "ip_series_map (update_series a f st) = ip_series_map st"
  "ip_plots (update_series a f st) = ip_plots st"
  "ip_bar_index (update_series a f st) = ip_bar_index st"
  "length (ip_series (update_series a f st)) = length (ip_series st)"
  by (simp_all add: update_series_def)

lemma set_bar_field_spans:
  assumes st: "spans k n st"
  shows "spans k (n(x := Suc (n x))) (set_bar_field x v st)"
proof -
  obtain a s where r: "named_series x [] st = (a, s)" by fastforce
  have s: "spans k n s" "ip_series_map s x = Some a"
    using named_series_spans [OF st _ r] by simp_all
  have "set_bar_field x v st = scope_set global_scope x (VSeries a) (update_series a (series_append v) s)"
    using r unfolding named_series_def by (auto simp: set_bar_field_def split: option.splits prod.splits)
  moreover have "spans k (n(x := Suc (n x))) (update_series a (series_append v) s)"
    by (rule update_series_spans [OF s]) (use spansD(2) [OF s] in \<open>simp_all add: series_append_def\<close>)
  ultimately show ?thesis by (auto intro: spans_cong)
qed

lemma series_set_length: "length s \<le> k \<Longrightarrow> 0 < k \<Longrightarrow> length (series_set v s) \<le> k"
  by (simp add: series_set_def)

lemma append_or_set_length:
  "length s \<le> k \<Longrightarrow> 0 < k
    \<Longrightarrow> length ((if int (length s) < int k then series_append v else series_set v) s) \<le> k"
  by (simp add: series_append_def series_set_length)

text \<open>What a script does to the series within a bar, whose number is \<open>k\<close>.\<close>

lemma capture_series_spans:
  assumes st: "spans k (\<lambda>_. k) st" and k: "ip_bar_index st = int k" "0 < k"
  shows "spans k (\<lambda>_. k) (snd (capture_series x v st))"
proof (cases "trim_space x = []")
  case True
  then show ?thesis using st by (simp add: capture_series_def)
next
  case False
  let ?x = "trim_space x"
  let ?init = "replicate (nat (ip_bar_index st - 1)) FNaN"
  obtain a s where r: "named_series ?x ?init st = (a, s)" by fastforce
  have s: "spans k (\<lambda>_. k) s" "ip_series_map s ?x = Some a" "ip_bar_index s = int k"
    using named_series_spans [OF st _ r] k by simp_all
  let ?f = "if int (length (series_of s a)) < ip_bar_index s then series_append v else series_set v"
  have "snd (capture_series x v st) = scope_set global_scope ?x (VSeries a) (update_series a ?f s)"
    using r False unfolding named_series_def
    by (auto simp: capture_series_def Let_def split: option.splits prod.splits)
  moreover have "spans k (\<lambda>_. k) (update_series a ?f s)"
  proof (rule update_series_spans [OF s(1,2)])
    show "length (?f (ip_series s ! a)) \<le> k"
      using append_or_set_length [OF spansD(2) [OF s(1,2)] k(2)] spansD(1) [OF s(1,2)] s(3)
      by (simp add: series_of_def)
  qed simp
  ultimately show ?thesis by (auto intro: spans_cong)
qed

lemma promote_spans:
  assumes st: "spans k (\<lambda>_. k) st" and k: "ip_bar_index st = int k" "0 < k"
  shows "spans k (\<lambda>_. k) (snd (promote x v sc st))"
proof (cases "is_numeric_like v")
  case False
  then show ?thesis using st by (auto simp: promote_def intro: spans_cong)
next
  case True
  obtain a s where r: "named_series x [] st = (a, s)" by fastforce
  have s: "spans k (\<lambda>_. k) s" "ip_series_map s x = Some a" "ip_bar_index s = int k"
    using named_series_spans [OF st _ r] k by simp_all
  let ?p = "update_series a (pad_series (ip_bar_index s - 1)) s"
  have p: "spans k (\<lambda>_. k) ?p"
    by (rule update_series_spans [OF s(1,2)])
      (use spansD(2) [OF s(1,2)] s(3) in \<open>auto simp: pad_series_def\<close>)
  have pa: "ip_series_map ?p x = Some a" using s(2) by simp
  let ?v = "float_of ?p v"
  let ?f = "if int (length (series_of ?p a)) < ip_bar_index ?p then series_append ?v else series_set ?v"
  have eq: "snd (promote x v sc st) = scope_set sc x (VSeries a) (update_series a ?f ?p)"
    using r True unfolding named_series_def
    by (auto simp: promote_def Let_def split: option.splits prod.splits)
  have "length (?f (ip_series ?p ! a)) \<le> k"
    using append_or_set_length [OF spansD(2) [OF p pa] k(2)] spansD(1) [OF p pa] s(3)
    by (simp add: series_of_def)
  then have "spans k (\<lambda>_. k) (update_series a ?f ?p)"
    by (rule update_series_spans [OF p pa]) simp
  then show ?thesis unfolding eq by (rule spans_cong) simp_all
qed

lemma assign_series_spans:
  assumes st: "spans k (\<lambda>_. k) st" and x: "ip_series_map st x = Some a" and k: "0 < k"
  shows "spans k (\<lambda>_. k) (update_series a (series_set v) st)"
proof -
  have "length (series_set v (ip_series st ! a)) \<le> k"
    using spansD(2) [OF st x] k by (rule series_set_length)
  then show ?thesis by (rule update_series_spans [OF st x]) simp
qed

section \<open>Plots\<close>

lemma plot_named_bound: "plot_named t ps i = Some j \<Longrightarrow> i \<le> j \<and> j < i + length ps"
  by (induction ps arbitrary: i) (fastforce split: if_splits)+

lemma plots_update_spans:
  assumes st: "spans k n st" and i: "i < length (ip_plots st)" and q: "pl_series q = pl_series (ip_plots st ! i)"
  shows "spans k n (st\<lparr>ip_plots := (ip_plots st)[i := q]\<rparr>)"
proof -
  have same: "map pl_series ((ip_plots st)[i := q]) = map pl_series (ip_plots st)"
    using i q by (simp add: map_update list_update_same_conv)
  then have im: "pl_series ` set ((ip_plots st)[i := q]) = pl_series ` set (ip_plots st)"
    by (metis list.set_map)
  have "pl_series p < length (ip_series st) \<and> length (ip_series st ! pl_series p) = k"
    if p: "p \<in> set ((ip_plots st)[i := q])" for p
  proof -
    have "pl_series p \<in> pl_series ` set (ip_plots st)" using p im by blast
    then show ?thesis using st by (auto simp: spans_def)
  qed
  then show ?thesis using st by (simp add: spans_def same im)
qed

lemma register_plot_spans:
  assumes st: "spans k n st" and k: "ip_bar_index st = int k"
    and r: "register_plot t d ov st = (i, st')"
  shows "spans k n st'" "i < length (ip_plots st')"
proof -
  define u where "u = (if trim_space t = [] then ''plot_'' @ itoa (int (length (ip_plots st)) + 1) else trim_space t)"
  have "spans k n st' \<and> i < length (ip_plots st')"
  proof (cases "plot_named u (ip_plots st) 0")
    case (Some j)
    then have j: "j < length (ip_plots st)" using plot_named_bound by fastforce
    have "i = j" "st' = st\<lparr>ip_plots := (ip_plots st)
        [j := (ip_plots st ! j)\<lparr>pl_decimals := d, pl_overlay := ov\<rparr>]\<rparr>"
      using r Some by (auto simp: register_plot_def Let_def u_def)
    then show ?thesis using plots_update_spans [OF st j] j by simp
  next
    case None
    have "i = length (ip_plots st)" "st' = st\<lparr>ip_series := ip_series st @ [replicate k FNaN],
        ip_plots := ip_plots st @
          [\<lparr>pl_source = ''plot.'' @ itoa (int (length (ip_plots st)) + 1), pl_title = u, pl_decimals = d,
            pl_overlay = ov, pl_series = length (ip_series st), pl_last = VNa\<rparr>]\<rparr>"
      using r None k by (auto simp: register_plot_def Let_def u_def new_series_def)
    then show ?thesis using st by (fastforce simp: spans_def nth_append)
  qed
  then show "spans k n st'" "i < length (ip_plots st')" by auto
qed

lemma update_plot_series:
  assumes st: "spans k n st" and p: "p \<in> set (ip_plots st)" and f: "\<And>s. length s = k \<Longrightarrow> length (f s) = k"
  shows "spans k n (update_series (pl_series p) f st)"
proof -
  have "pl_series p < length (ip_series st)" "length (ip_series st ! pl_series p) = k"
    using st p by (auto simp: spans_def)
  then have "length (ip_series (update_series (pl_series p) f st) ! a) = length (ip_series st ! a)" for a
    using f by (cases "a = pl_series p") (auto simp: update_series_def series_of_def)
  then show ?thesis using st by (simp add: spans_def)
qed

lemma set_plot_value_spans:
  assumes st: "spans k n st" and k: "ip_bar_index st = int k" "0 < k"
  shows "spans k n (snd (set_plot_value t v d ov st))"
proof -
  obtain i s where r: "register_plot t d ov st = (i, s)" by fastforce
  note s = register_plot_spans [OF st k(1) r]
  let ?s = "s\<lparr>ip_plots := (ip_plots s)[i := (ip_plots s ! i)\<lparr>pl_last := v\<rparr>]\<rparr>"
  have "spans k n ?s" using plots_update_spans [OF s] by simp
  moreover have "(ip_plots s ! i)\<lparr>pl_last := v\<rparr> \<in> set (ip_plots ?s)"
    using s(2) by (simp add: set_update_memI)
  ultimately have "spans k n
      (update_series (pl_series ((ip_plots s ! i)\<lparr>pl_last := v\<rparr>)) (series_set (float_of ?s v)) ?s)"
    by (rule update_plot_series) (use k(2) in \<open>auto simp: series_set_def\<close>)
  then show ?thesis by (simp add: set_plot_value_def r Let_def)
qed

section \<open>A whole bar\<close>

lemma micro_spans:
  assumes "micro E D R st st'" and "spans k (\<lambda>_. k) st" and "ip_bar_index st = int k" and "0 < k"
  shows "spans k (\<lambda>_. k) st'"
  using assms
proof (induction rule: micro.induct)
  case (m_store v st w st' left n i)
  then show ?case using snapshot_arrays [OF m_store(1)] by (auto intro: spans_cong)
next
  case (m_snapshot v st w st')
  then show ?case using snapshot_arrays [OF m_snapshot(1)] by (auto intro: spans_cong)
qed (auto simp: promote_spans capture_series_spans assign_series_spans set_plot_value_spans
    intro: spans_cong simp: consume_def set_in_frame_def scope_child_def new_fn_def
      new_array_def add_diagnostic_def report_unresolved_def report_builtin_failure_def
      report_compound_def report_warning_def Let_def)

lemma steps_spans:
  assumes "steps E D R st st'" and "spans k (\<lambda>_. k) st" and "ip_bar_index st = int k" and "0 < k"
  shows "spans k (\<lambda>_. k) st'"
proof -
  have "spans k (\<lambda>_. k) st' \<and> ip_bar_index st' = int k" using assms(1)
    by (induction rule: rtranclp_induct)
      (use assms in \<open>auto dest: micro_same_code intro: micro_spans simp: same_code_def\<close>)
  then show ?thesis ..
qed

section \<open>Between two bars\<close>

lemma fields_spans:
  "spans k n st
    \<Longrightarrow> spans k (\<lambda>x. n x + count_list (map fst fs) x) (fold (\<lambda>f. set_bar_field (fst f) (snd f)) fs st)"
proof (induction fs arbitrary: n st)
  case (Cons f fs)
  let ?n = "n(fst f := Suc (n (fst f)))"
  have "spans k (\<lambda>x. ?n x + count_list (map fst fs) x)
      (fold (\<lambda>f. set_bar_field (fst f) (snd f)) fs (set_bar_field (fst f) (snd f) st))"
    using set_bar_field_spans [OF Cons.prems] by (rule Cons.IH)
  then show ?case by (auto elim!: spans_mono)
qed simp

definition bar_names :: "string list" where
  "bar_names =
     [''close'', ''open'', ''high'', ''low'', ''hl2'', ''hlc3'', ''ohlc4'', ''volume'']"

lemma bridge_fields_spans:
  assumes st: "spans k n st"
  shows "spans k (\<lambda>x. n x + count_list bar_names x) (bridge_fields E b st)"
proof -
  let ?c = "re_close E b" and ?o = "re_open E b" and ?h = "re_high E b" and ?l = "re_low E b"
  define fs where "fs = zip bar_names [?c, ?o, ?h, ?l, (?h + ?l) / FFin 2, (?h + ?l + ?c) / FFin 3,
      (?o + ?h + ?l + ?c) / FFin 4, re_volume E b]"
  have eq: "bridge_fields E b st = scope_set global_scope ''bar_index'' (VFloat (f64_of_int (re_bar_index E b)))
      (fold (\<lambda>f. set_bar_field (fst f) (snd f)) fs st)"
    by (simp only: bridge_fields_def fs_def bar_names_def Let_def zip_Cons_Cons zip_Nil fold_simps
        fst_conv snd_conv)
  have names: "map fst fs = bar_names" by (simp add: fs_def bar_names_def)
  show ?thesis
    unfolding eq by (rule spans_cong [OF fields_spans [OF st, of fs, unfolded names]]) simp_all
qed

lemma reset_fold_rest [simp]:
  "ip_series_map (fold reset_plot ps st) = ip_series_map st"
  "ip_plots (fold reset_plot ps st) = ip_plots st"
  "length (ip_series (fold reset_plot ps st)) = length (ip_series st)"
  by (induction ps arbitrary: st) (simp_all add: reset_plot_def)

lemma reset_plot_nth:
  "a < length (ip_series st) \<Longrightarrow>
   ip_series (reset_plot p st) ! a = ip_series st ! a @ (if a = pl_series p then [FNaN] else [])"
  by (simp add: reset_plot_def update_series_def series_append_def series_of_def nth_list_update)

lemma reset_fold_nth:
  "distinct (map pl_series ps) \<Longrightarrow> a < length (ip_series st) \<Longrightarrow>
   ip_series (fold reset_plot ps st) ! a =
     ip_series st ! a @ (if a \<in> pl_series ` set ps then [FNaN] else [])"
proof (induction ps arbitrary: st)
  case (Cons p ps)
  have "a < length (ip_series (reset_plot p st))" using Cons.prems by (simp add: reset_plot_def)
  then show ?case using Cons by (auto simp: reset_plot_nth)
qed simp

lemma reset_plots_spans:
  assumes st: "spans k n st"
  shows "spans (Suc k) n (reset_plots st)"
proof -
  have d: "distinct (map pl_series (ip_plots st))"
    "\<forall>p \<in> set (ip_plots st). pl_series p < length (ip_series st)"
    using st by (auto simp: spans_def)
  note r = reset_fold_nth [OF d(1)]
  have im: "pl_series ` set (map (pl_last_update (\<lambda>_. VNa)) ps) = pl_series ` set ps"
    "map pl_series (map (pl_last_update (\<lambda>_. VNa)) ps) = map pl_series ps" for ps :: "'a plot_spec list"
    by (auto simp: image_image)
  show ?thesis
    using st by (auto simp: reset_plots_def spans_def r image_image comp_def)
qed

text \<open>The queue of named fields holds each name once.\<close>

definition queue_ok :: "string set \<Rightarrow> ('o, 'b) interp \<Rightarrow> bool" where
  "queue_ok F st \<longleftrightarrow> distinct (map fst (ip_queued st)) \<and> fst ` set (ip_queued st) \<subseteq> F"

lemma queue_count:
  assumes q: "queue_ok F st" and F: "F \<inter> set bar_names = {}"
    and perm: "\<And>xs. mset (go_order xs) = mset xs"
  shows "count_list bar_names x + count_list (map fst (go_order (ip_queued st))) x \<le> 1"
proof -
  have "mset (map fst (go_order (ip_queued st))) = mset (map fst (ip_queued st))"
    by (metis mset_map perm)
  then have c: "count_list (map fst (go_order (ip_queued st))) x = count_list (map fst (ip_queued st)) x"
    by (metis count_mset)
  have d: "count_list xs x \<le> 1" if "distinct xs" for xs
    using that by (metis count_mset distinct_count_atmost_1 le_numeral_extra(4) zero_le_one)
  have "distinct bar_names" by (simp add: bar_names_def)
  show ?thesis
  proof (cases "x \<in> set bar_names")
    case True
    then have "x \<notin> set (map fst (ip_queued st))" using q F by (auto simp: queue_ok_def)
    then show ?thesis using d [OF \<open>distinct bar_names\<close>] c by (simp add: count_list_0_iff)
  next
    case False
    then have "count_list bar_names x = 0" by (simp add: count_list_0_iff)
    then show ?thesis using d q c by (simp add: queue_ok_def)
  qed
qed

lemma reset_plots_queue: "ip_queued (reset_plots st) = ip_queued st"
proof -
  have "ip_queued (fold reset_plot ps s) = ip_queued s" for ps and s :: "('a, 'b) interp"
    by (induction ps arbitrary: s) (simp_all add: reset_plot_def update_series_def)
  then show ?thesis by (simp add: reset_plots_def)
qed

lemma open_bar_queue: "ip_queued (open_bar E st) = []"
  by (simp add: open_bar_def Let_def reset_plots_queue queued_fields_def)

lemma bar_field_queue: "ip_queued (set_bar_field x v st) = ip_queued st"
  by (auto simp: set_bar_field_def scope_set_def set_in_frame_def update_series_def new_series_def Let_def
      split: option.split list.split)

lemma bridge_fields_queue: "ip_queued (bridge_fields E b st) = ip_queued st"
  by (simp add: bridge_fields_def Let_def bar_field_queue scope_set_def set_in_frame_def split: list.split)

lemma open_bar_spans:
  assumes st: "spans k (\<lambda>_. k) st" and q: "queue_ok F st" and F: "F \<inter> set bar_names = {}"
    and perm: "\<And>xs. mset (re_order E xs) = mset xs"
  shows "spans (Suc k) (\<lambda>_. Suc k) (open_bar E st)"
proof -
  let ?s = "case ip_bridge st of None \<Rightarrow> next_bar st | Some b \<Rightarrow> bridge_fields E b (next_bar st)"
  have n: "spans k (\<lambda>_. k) (next_bar st)" using st by (rule spans_cong) (simp_all add: next_bar_def)
  have s: "spans k (\<lambda>x. k + count_list bar_names x) ?s"
    using n bridge_fields_spans [OF n] by (auto split: option.split elim: spans_mono)
  have qs: "ip_queued ?s = ip_queued st"
    by (simp add: bridge_fields_queue next_bar_def split: option.split)
  have "spans k (\<lambda>x. k + count_list bar_names x + count_list (map fst (re_order E (ip_queued st))) x)
      (fold (\<lambda>f. set_bar_field (fst f) (snd f)) (re_order E (ip_queued ?s)) ?s)"
    using fields_spans [OF s, of "re_order E (ip_queued ?s)"] by (simp only: qs)
  then have "spans k (\<lambda>_. Suc k)
      (fold (\<lambda>f. set_bar_field (fst f) (snd f)) (re_order E (ip_queued ?s)) ?s)"
  proof (rule spans_mono)
    fix x
    show "k + count_list bar_names x + count_list (map fst (re_order E (ip_queued st))) x \<le> Suc k"
      using queue_count [OF q F perm, of x] by simp
  qed
  then have "spans k (\<lambda>_. Suc k) (queued_fields E ?s)"
    unfolding queued_fields_def by (rule spans_cong) simp_all
  then have "spans (Suc k) (\<lambda>_. Suc k) (reset_plots (queued_fields E ?s))" by (rule reset_plots_spans)
  moreover have "open_bar E st = reset_plots (queued_fields E ?s)"
    by (simp add: open_bar_def next_bar_def Let_def cong: option.case_cong)
  ultimately show ?thesis by simp
qed

definition aligned :: "string set \<Rightarrow> ('o, 'b) interp \<Rightarrow> bool" where
  "aligned F st \<longleftrightarrow>
     0 \<le> ip_bar_index st \<and> queue_ok F st
     \<and> spans (nat (ip_bar_index st)) (\<lambda>_. nat (ip_bar_index st)) st"

lemma aligned_next:
  fixes N :: "'o native_env" and B :: "'b bridge_ops" and quote go_order
  defines "E \<equiv> runtime_env N B quote go_order"
  assumes st: "aligned F st" and ok: "session_ok prog st" and bar: "on_bar E n st = Some st'"
    and F: "F \<inter> set bar_names = {}" and perm: "\<And>xs. mset (go_order xs) = mset xs"
  shows "aligned F st'"
proof -
  let ?k = "nat (ip_bar_index st)"
  have s: "steps E (script_size prog) (\<lambda>_ _. True) (open_bar E st) st'"
    using ok dsl.on_bar_steps [OF bar [unfolded E_def], folded E_def, of "script_size prog"]
    by (simp add: session_ok_def script_size_def)
  have "spans (Suc ?k) (\<lambda>_. Suc ?k) (open_bar E st)"
    using st F perm by (intro open_bar_spans) (auto simp: aligned_def E_def runtime_env_def)
  moreover have "ip_bar_index (open_bar E st) = int (Suc ?k)"
    using st by (simp add: aligned_def open_bar_facts)
  ultimately have "spans (Suc ?k) (\<lambda>_. Suc ?k) st'" using steps_spans [OF s] by simp
  moreover have "ip_bar_index st' = ip_bar_index st + 1" "ip_queued st' = []"
    using steps_same_code [OF s] by (simp_all add: same_code_def open_bar_facts open_bar_queue)
  ultimately show ?thesis using st by (simp add: aligned_def queue_ok_def nat_add_distrib)
qed

lemma aligned_fresh: "fresh_state prog st \<Longrightarrow> aligned F st"
  by (simp add: fresh_state_def aligned_def queue_ok_def spans_def)

lemma aligned_field: "aligned F st \<Longrightarrow> x \<in> F \<Longrightarrow> aligned F (set_named_field x v st)"
proof -
  assume st: "aligned F st" and x: "x \<in> F"
  have "fst ` set (AList.update x v (ip_queued st)) \<subseteq> F"
    using st x dom_update [of x v "ip_queued st"]
    by (auto simp: aligned_def queue_ok_def)
  then show ?thesis using st
    by (auto simp: aligned_def set_named_field_def queue_ok_def distinct_update intro: spans_cong)
qed

lemma session_aligned:
  fixes N :: "'o native_env" and B :: "'b bridge_ops"
  assumes "session (runtime_env N B quote go_order) F prog st" and "F \<inter> set bar_names = {}"
    and "\<And>xs. mset (go_order xs) = mset xs"
  shows "aligned F st"
  using assms(1)
proof (induction rule: session.induct)
  case (s_start p budget inputs strings diags)
  show ?case by (rule aligned_fresh [OF fresh_first])
next
  case (s_bridge st b)
  then show ?case by (auto simp: aligned_def queue_ok_def intro: spans_cong)
next
  case (s_field st x v)
  then show ?case by (blast intro: aligned_field)
next
  case (s_bar st n st')
  then show ?case using aligned_next assms(2,3) session_invariants by blast
qed

end
