(* ===== verification/Dsl_Analysis.thy ===== *)
theory Dsl_Analysis
  imports Dsl_Value Bt_Option
begin

text \<open>
  The static analysis of a script, first part (\<open>pkg/dsl/analysis/analysis.go\<close>): the strategy's name
  and metadata, the declared parameters, and the strings that are known before the script runs.
  Lower and upper case beyond ASCII is the parameter \<open>text_case\<close>.
\<close>

section \<open>Values and literals\<close>

text \<open>A value of type \<open>interface\<close>; \<open>CfgOther\<close> holds the text that \<open>Sprintf\<close> gives with \<open>%v\<close>.\<close>

datatype config_value =
  CfgFloat f64 | CfgInt int | CfgBool bool | CfgString string | CfgOther string

text \<open>What \<open>literalValue\<close> and \<open>defaultForType\<close> return.\<close>

datatype lit_value = LitNumber f64 | LitInt int | LitText string | LitBool bool | LitTexts "string list" | LitNil

fun arg_name :: "call_arg \<Rightarrow> string" where
  "arg_name (CallArg x e) = x"

fun arg_value :: "call_arg \<Rightarrow> expr" where
  "arg_value (CallArg x e) = e"

definition literal_string :: "expr \<Rightarrow> string" where
  "literal_string e = (case e of StringLit _ s \<Rightarrow> trim_space s | _ \<Rightarrow> [])"

definition literal_bool :: "expr \<Rightarrow> bool" where
  "literal_bool e = (case e of BoolLit _ b \<Rightarrow> b | _ \<Rightarrow> False)"

definition literal_string_array :: "expr \<Rightarrow> string list" where
  "literal_string_array e =
     (case e of
        ArrayLit _ es \<Rightarrow> filter (\<lambda>s. s \<noteq> []) (map literal_string es)
      | _ \<Rightarrow> (if literal_string e \<noteq> [] then [literal_string e] else []))"

definition text_literal :: "expr \<Rightarrow> string list" where
  "text_literal e = (case e of StringLit _ s \<Rightarrow> [s] | _ \<Rightarrow> [])"

definition literal_value :: "expr \<Rightarrow> lit_value" where
  "literal_value e =
     (case e of
        NumberLit _ x \<Rightarrow> LitNumber x
      | StringLit _ s \<Rightarrow> LitText s
      | BoolLit _ b \<Rightarrow> LitBool b
      | NaLit _ \<Rightarrow> LitNumber FNaN
      | ArrayLit _ es \<Rightarrow> LitTexts (concat (map text_literal es))
      | _ \<Rightarrow> LitNil)"

section \<open>The strategy declaration\<close>

fun positional_text :: "call_arg list \<Rightarrow> string option" where
  "positional_text [] = None"
| "positional_text (CallArg x e # as) =
     (case e of StringLit _ s \<Rightarrow> (if x = [] then Some s else positional_text as) | _ \<Rightarrow> positional_text as)"

fun extract_strategy_name :: "stmt list \<Rightarrow> string" where
  "extract_strategy_name [] = []"
| "extract_strategy_name (StrategyDecl _ _ as # ss) =
     (case positional_text as of Some s \<Rightarrow> s | None \<Rightarrow> extract_strategy_name ss)"
| "extract_strategy_name (_ # ss) = extract_strategy_name ss"

record signal_metadata =
  md_source :: string
  md_name :: string
  md_layouts :: "string list"
  md_timezone :: string
  md_time_cols :: "string list"
  md_type_cols :: "string list"
  md_value_cols :: "string list"
  md_matchers :: "string list"
  md_has_index :: bool
  md_name_col :: string
  md_direction_col :: string
  md_action_col :: string
  md_remarks_col :: string
  md_qty_col :: string
  md_expose :: "string list"

definition no_metadata :: signal_metadata where
  "no_metadata =
     \<lparr>md_source = [], md_name = [], md_layouts = [], md_timezone = [], md_time_cols = [],
      md_type_cols = [], md_value_cols = [], md_matchers = [], md_has_index = False, md_name_col = [],
      md_direction_col = [], md_action_col = [], md_remarks_col = [], md_qty_col = [], md_expose = []\<rparr>"

definition metadata_arg :: "call_arg \<Rightarrow> signal_metadata \<Rightarrow> signal_metadata" where
  "metadata_arg a md =
     (let x = trim_space (arg_name a); e = arg_value a; s = literal_string e; ss = literal_string_array e
      in if x = ''signal_source'' then md\<lparr>md_source := s\<rparr>
         else if x = ''signal_name'' then md\<lparr>md_name := s\<rparr>
         else if x = ''signal_time_layout'' then md\<lparr>md_layouts := [s]\<rparr>
         else if x = ''signal_time_layouts'' then md\<lparr>md_layouts := ss\<rparr>
         else if x = ''signal_timezone'' then md\<lparr>md_timezone := s\<rparr>
         else if x = ''signal_timestamp_column'' then md\<lparr>md_time_cols := [s]\<rparr>
         else if x = ''signal_timestamp_columns'' then md\<lparr>md_time_cols := ss\<rparr>
         else if x = ''signal_type_column'' then md\<lparr>md_type_cols := [s]\<rparr>
         else if x = ''signal_type_columns'' then md\<lparr>md_type_cols := ss\<rparr>
         else if x = ''signal_value_column'' then md\<lparr>md_value_cols := [s]\<rparr>
         else if x = ''signal_value_columns'' then md\<lparr>md_value_cols := ss\<rparr>
         else if x = ''signal_entry_matchers'' then md\<lparr>md_matchers := ss\<rparr>
         else if x = ''signal_optional_index'' then md\<lparr>md_has_index := literal_bool e\<rparr>
         else if x = ''signal_name_column'' then md\<lparr>md_name_col := s\<rparr>
         else if x = ''signal_direction_column'' then md\<lparr>md_direction_col := s\<rparr>
         else if x = ''signal_action_column'' then md\<lparr>md_action_col := s\<rparr>
         else if x = ''signal_remarks_column'' then md\<lparr>md_remarks_col := s\<rparr>
         else if x = ''signal_qty_column'' then md\<lparr>md_qty_col := s\<rparr>
         else if x = ''expose_fields'' then md\<lparr>md_expose := ss\<rparr>
         else md)"

definition extract_strategy_metadata :: "call_arg list \<Rightarrow> signal_metadata \<Rightarrow> signal_metadata" where
  "extract_strategy_metadata as md = fold metadata_arg as md"

section \<open>Parameters\<close>

datatype param_type = ParamFloatType | ParamIntType | ParamBoolType | ParamStringType

record param_schema =
  ps_name :: string
  ps_title :: string
  ps_type :: param_type
  ps_default :: lit_value
  ps_min :: "f64 option"
  ps_max :: "f64 option"
  ps_step :: "f64 option"
  ps_options :: "string list"

definition lookup_key :: "param_schema \<Rightarrow> string" where
  "lookup_key ps = (if ps_title ps \<noteq> [] then ps_title ps else ps_name ps)"

fun input_call_name :: "expr \<Rightarrow> string" where
  "input_call_name (IdentExpr _ x) = trim_space x"
| "input_call_name (DotExpr _ obj x) =
     (let left = input_call_name obj
      in if left = [] then trim_space x else left @ ''.'' @ trim_space x)"
| "input_call_name _ = []"

definition is_input_call :: "expr \<Rightarrow> bool" where
  "is_input_call e =
     (input_call_name e \<in> {''input'', ''input.int'', ''input.float'', ''input.bool'', ''input.string''})"

definition default_for_type :: "param_type \<Rightarrow> lit_value" where
  "default_for_type ty =
     (case ty of ParamIntType \<Rightarrow> LitInt 0 | ParamFloatType \<Rightarrow> LitNumber 0 | ParamBoolType \<Rightarrow> LitBool False
      | ParamStringType \<Rightarrow> LitText [])"

definition infer_type :: "lit_value \<Rightarrow> param_type \<Rightarrow> param_type" where
  "infer_type d fallback =
     (case d of LitBool _ \<Rightarrow> ParamBoolType | LitText _ \<Rightarrow> ParamStringType | LitInt _ \<Rightarrow> ParamIntType
      | _ \<Rightarrow> fallback)"

definition literal_float :: "lit_value \<Rightarrow> f64 option" where
  "literal_float v = (case v of LitNumber x \<Rightarrow> Some x | LitInt i \<Rightarrow> Some (f64_of_int i) | _ \<Rightarrow> None)"

definition positional_names :: "param_type \<Rightarrow> string list" where
  "positional_names ty =
     (case ty of
        ParamBoolType \<Rightarrow> [''defval'', ''title'']
      | ParamStringType \<Rightarrow> [''defval'', ''title'', ''options'']
      | _ \<Rightarrow> [''defval'', ''title'', ''minval'', ''maxval'', ''step''])"

text \<open>\<open>resolveInputArgs\<close>; \<open>pos\<close> are the names of the positions not used so far.\<close>

fun resolve_input_args :: "call_arg list \<Rightarrow> string list \<Rightarrow> (string \<Rightarrow> lit_value option) \<Rightarrow> string \<Rightarrow> lit_value option" where
  "resolve_input_args [] pos out = out"
| "resolve_input_args (CallArg x e # as) pos out =
     (let key = trim_space x
      in if key \<noteq> [] then resolve_input_args as pos (out(key \<mapsto> literal_value e))
         else case pos of
                [] \<Rightarrow> resolve_input_args as [] out
              | p # pos \<Rightarrow> resolve_input_args as pos (out(p \<mapsto> literal_value e)))"

definition input_type :: "string \<Rightarrow> param_type" where
  "input_type f =
     (if f = ''input.int'' then ParamIntType
      else if f = ''input.bool'' then ParamBoolType
      else if f = ''input.string'' then ParamStringType
      else ParamFloatType)"

definition extract_input_schema :: "string \<Rightarrow> string \<Rightarrow> call_arg list \<Rightarrow> param_schema" where
  "extract_input_schema name f as =
     (let ty = input_type f;
          args = resolve_input_args as (positional_names ty) (\<lambda>_. None);
          d = (case args ''defval'' of Some v \<Rightarrow> v | None \<Rightarrow> default_for_type ty);
          number = \<lambda>k. Option.bind (args k) literal_float
      in \<lparr>ps_name = name,
          ps_title = (case args ''title'' of Some (LitText s) \<Rightarrow> s | _ \<Rightarrow> []),
          ps_type = (if f = ''input'' \<or> f = [] then infer_type d ty else ty),
          ps_default = d, ps_min = number ''minval'', ps_max = number ''maxval'', ps_step = number ''step'',
          ps_options = (case args ''options'' of Some (LitTexts ss) \<Rightarrow> ss | _ \<Rightarrow> [])\<rparr>)"

fun extract_param :: "stmt \<Rightarrow> param_schema list" where
  "extract_param (InputDecl t x as) = [extract_input_schema x (trim_space (literal t)) as]"
| "extract_param (VarDecl _ x _ _ _ (CallExpr _ callee as)) =
     (if is_input_call callee then [extract_input_schema x (input_call_name callee) as] else [])"
| "extract_param _ = []"

definition extract_params :: "stmt list \<Rightarrow> param_schema list" where
  "extract_params prog = concat (map extract_param prog)"

section \<open>Strings known before the run\<close>

fun qualified_name :: "text_case \<Rightarrow> expr \<Rightarrow> string" where
  "qualified_name tc (IdentExpr _ x) = lower tc (trim_space x)"
| "qualified_name tc (DotExpr _ obj x) =
     (let left = qualified_name tc obj; x = lower tc (trim_space x)
      in if left = [] then x else if x = [] then left else left @ ''.'' @ x)"
| "qualified_name tc _ = []"

type_synonym bindings = "string \<Rightarrow> string option"

definition binding :: "bindings \<Rightarrow> string \<Rightarrow> string" where
  "binding b x = (case b x of Some s \<Rightarrow> s | None \<Rightarrow> [])"

text \<open>The last argument with a name, the first one, and the one at a position if it has no name.\<close>

definition last_named :: "string \<Rightarrow> (string \<times> 'a) list \<Rightarrow> 'a option" where
  "last_named x as = map_option snd (find (\<lambda>a. fst a = x) (rev as))"

definition first_named :: "string \<Rightarrow> (string \<times> 'a) list \<Rightarrow> 'a option" where
  "first_named x as = map_option snd (find (\<lambda>a. fst a = x) as)"

definition unnamed_at :: "nat \<Rightarrow> (string \<times> 'a) list \<Rightarrow> 'a option" where
  "unnamed_at i as = (if i < length as \<and> fst (as ! i) = [] then Some (snd (as ! i)) else None)"

text \<open>
  The value that \<open>staticStringWithOverrides\<close> gives a call of \<open>input.string\<close> or \<open>config.string\<close>: \<open>ts\<close>
  and \<open>vs\<close> are the static strings of its arguments without and with the overrides.
\<close>

definition input_override :: "text_case \<Rightarrow> bindings \<Rightarrow> (string \<times> string) list \<Rightarrow> string" where
  "input_override tc ov ts =
     (let title = (case last_named ''title'' ts of Some s \<Rightarrow> s | None \<Rightarrow> []);
          title = (if title = [] then (case unnamed_at 1 ts of Some s \<Rightarrow> s | None \<Rightarrow> []) else title)
      in binding ov (lower tc (trim_space title)))"

definition call_default :: "nat \<Rightarrow> (string \<times> string) list \<Rightarrow> string" where
  "call_default i vs =
     (case first_named ''defval'' vs of
        Some s \<Rightarrow> s
      | None \<Rightarrow> (case unnamed_at i vs of Some s \<Rightarrow> s | None \<Rightarrow> []))"

definition static_call ::
  "text_case \<Rightarrow> bindings \<Rightarrow> string \<Rightarrow> (string \<times> string) list \<Rightarrow> (string \<times> string) list \<Rightarrow> string" where
  "static_call tc ov name ts vs =
     (if name = ''input.string''
      then (let s = input_override tc ov ts in if s \<noteq> [] then s else call_default 0 vs)
      else if name = ''config.string'' then call_default 1 vs
      else [])"

lemma size_arg_value [termination_simp]: "a \<in> set as \<Longrightarrow> size (arg_value a) < Suc (size_list size as + n)"
proof -
  assume a: "a \<in> set as"
  have "size (arg_value a) \<le> size a" by (cases a) simp
  also have "size a < Suc (size_list size as + n)" using size_list_estimation' [OF a order_refl, of size] by simp
  finally show ?thesis .
qed

fun static_string :: "text_case \<Rightarrow> bindings \<Rightarrow> bindings \<Rightarrow> expr \<Rightarrow> string" where
  "static_string tc b ov (StringLit _ s) = trim_space s"
| "static_string tc b ov (IdentExpr _ x) = trim_space (binding b x)"
| "static_string tc b ov (CallExpr _ callee as) =
     static_call tc ov (qualified_name tc callee)
       (map (\<lambda>a. (arg_name a, static_string tc b (\<lambda>_. None) (arg_value a))) as)
       (map (\<lambda>a. (arg_name a, static_string tc b ov (arg_value a))) as)"
| "static_string tc b ov _ = []"

text \<open>The parameters are a map; the list gives them in the order in which it is ranged over.\<close>

definition normalize_overrides :: "text_case \<Rightarrow> (string \<times> config_value) list \<Rightarrow> bindings" where
  "normalize_overrides tc params =
     fold (\<lambda>(k, v) out. case v of
         CfgString s \<Rightarrow>
           (let k = lower tc (trim_space k) in if k \<noteq> [] then out(k \<mapsto> trim_space s) else out)
       | _ \<Rightarrow> out) params (\<lambda>_. None)"

text \<open>The names that some assignment in the program changes.\<close>

fun assigned_in_stmt :: "stmt \<Rightarrow> string list"
  and assigned_in_else_if :: "else_if \<Rightarrow> string list"
  and assigned_in_case :: "switch_case \<Rightarrow> string list"
  and assigned_in_block :: "block \<Rightarrow> string list" where
  "assigned_in_stmt (AssignStmt _ x _ _) = [x]"
| "assigned_in_stmt (IfStmt _ _ body elses els) =
     assigned_in_block body @ concat (map assigned_in_else_if elses)
     @ (case els of Some b \<Rightarrow> assigned_in_block b | None \<Rightarrow> [])"
| "assigned_in_stmt (ForStmt _ _ _ _ _ body) = assigned_in_block body"
| "assigned_in_stmt (ForInStmt _ _ _ body) = assigned_in_block body"
| "assigned_in_stmt (WhileStmt _ _ body) = assigned_in_block body"
| "assigned_in_stmt (SwitchStmt _ _ cases d) =
     concat (map assigned_in_case cases) @ (case d of Some b \<Rightarrow> assigned_in_block b | None \<Rightarrow> [])"
| "assigned_in_stmt (FnDecl _ _ _ body) = assigned_in_block body"
| "assigned_in_stmt _ = []"
| "assigned_in_else_if (ElseIf _ _ body) = assigned_in_block body"
| "assigned_in_case (SwitchCase _ body) = assigned_in_block body"
| "assigned_in_block (Block _ ss) = concat (map assigned_in_stmt ss)"

definition collect_assigned_names :: "stmt list \<Rightarrow> string list" where
  "collect_assigned_names prog = concat (map assigned_in_stmt prog)"

fun static_binding :: "text_case \<Rightarrow> bindings \<Rightarrow> string list \<Rightarrow> stmt \<Rightarrow> bindings \<Rightarrow> bindings" where
  "static_binding tc ov mutable (VarDecl _ x _ per var e) out =
     (if per \<or> var \<or> trim_space x = [] \<or> x \<in> set mutable then out
      else let s = static_string tc out ov e in if s \<noteq> [] then out(x \<mapsto> s) else out)"
| "static_binding tc ov mutable _ out = out"

definition collect_static_bindings :: "text_case \<Rightarrow> bindings \<Rightarrow> stmt list \<Rightarrow> bindings" where
  "collect_static_bindings tc ov prog =
     fold (static_binding tc ov (collect_assigned_names prog)) prog (\<lambda>_. None)"

end
