(* ===== verification/Dsl_Requests.thy ===== *)
theory Dsl_Requests
  imports Dsl_Analysis
begin

text \<open>
  The static analysis of a script, second part (\<open>pkg/dsl/analysis/analysis.go\<close>): the data that the
  script asks for, found by one walk over the program, and the manifest.
\<close>

section \<open>Requests\<close>

datatype request_tier = NoTier | TierStatic | TierSemiDynamic | TierUniverse | TierDynamic

record request_spec =
  rs_kind :: string
  rs_market :: string
  rs_symbol :: string
  rs_name :: string
  rs_interval :: string
  rs_mode :: string
  rs_field :: string
  rs_key :: string
  rs_tier :: request_tier
  rs_dynamic :: bool
  rs_universe :: string
  rs_expression_mode :: bool
  rs_expression :: "expr option"

definition blank_request :: request_spec where
  "blank_request =
     \<lparr>rs_kind = [], rs_market = [], rs_symbol = [], rs_name = [], rs_interval = [], rs_mode = [],
      rs_field = [], rs_key = [], rs_tier = NoTier, rs_dynamic = False, rs_universe = [],
      rs_expression_mode = False, rs_expression = None\<rparr>"

definition dynamic_request :: "string \<Rightarrow> request_spec" where
  "dynamic_request kind = blank_request\<lparr>rs_kind := kind, rs_tier := TierDynamic, rs_dynamic := True\<rparr>"

definition join_key :: "string list \<Rightarrow> string" where
  "join_key parts = (case parts of [] \<Rightarrow> [] | p # ps \<Rightarrow> p @ concat (map (\<lambda>s. ''|'' @ s) ps))"

definition request_security_key :: "text_case \<Rightarrow> string \<Rightarrow> string \<Rightarrow> string \<Rightarrow> string" where
  "request_security_key tc market symbol interval =
     join_key [trim_space (lower tc market), trim_space (upper tc symbol), trim_space (lower tc interval)]"

definition request_factor_key :: "string \<Rightarrow> string \<Rightarrow> string" where
  "request_factor_key name interval = join_key [name, interval]"

definition request_symbol_factor_key :: "text_case \<Rightarrow> string \<Rightarrow> string \<Rightarrow> string \<Rightarrow> string" where
  "request_symbol_factor_key tc name symbol interval =
     join_key [name, trim_space (upper tc symbol), interval]"

definition request_fundamental_key :: "text_case \<Rightarrow> string \<Rightarrow> string \<Rightarrow> string \<Rightarrow> string \<Rightarrow> string" where
  "request_fundamental_key tc market symbol factor mode =
     join_key [trim_space (lower tc market), trim_space (upper tc symbol), trim_space (lower tc factor),
               trim_space (lower tc mode)]"

definition analysis_chain_key :: "text_case \<Rightarrow> string \<Rightarrow> string \<Rightarrow> string" where
  "analysis_chain_key tc market underlying =
     join_key [lower tc (trim_space market), upper tc (trim_space underlying)]"

definition universe_key :: "text_case \<Rightarrow> string \<Rightarrow> string" where
  "universe_key tc code = lower tc (trim_space code)"

text \<open>The argument with a name, or the one at a position if that has no name.\<close>

definition arg_pairs :: "call_arg list \<Rightarrow> (string \<times> expr) list" where
  "arg_pairs as = map (\<lambda>a. (arg_name a, arg_value a)) as"

definition arg_expr :: "string \<Rightarrow> nat \<Rightarrow> call_arg list \<Rightarrow> expr option" where
  "arg_expr x i as =
     (case first_named x (arg_pairs as) of Some e \<Rightarrow> Some e | None \<Rightarrow> unnamed_at i (arg_pairs as))"

definition static_arg :: "text_case \<Rightarrow> bindings \<Rightarrow> bindings \<Rightarrow> string \<Rightarrow> nat \<Rightarrow> call_arg list \<Rightarrow> string" where
  "static_arg tc b ov x i as = (case arg_expr x i as of Some e \<Rightarrow> static_string tc b ov e | None \<Rightarrow> [])"

text \<open>The calls that ask for data about each member of a universe.\<close>

record universe_scope =
  us_code :: string
  us_var :: string

definition no_scope :: universe_scope where
  "no_scope = \<lparr>us_code = [], us_var = []\<rparr>"

definition symbol_is_loop :: "universe_scope \<Rightarrow> call_arg list \<Rightarrow> bool" where
  "symbol_is_loop sc as = (case arg_expr ''symbol'' 1 as of Some (IdentExpr _ x) \<Rightarrow> x = us_var sc | _ \<Rightarrow> False)"

definition security_template ::
  "text_case \<Rightarrow> bindings \<Rightarrow> bindings \<Rightarrow> universe_scope \<Rightarrow> call_arg list \<Rightarrow> request_spec option" where
  "security_template tc b ov sc as =
     (let market = static_arg tc b ov ''market'' 0 as; interval = static_arg tc b ov ''interval'' 2 as
      in case arg_expr ''field'' 3 as of
           None \<Rightarrow> None
         | Some fe \<Rightarrow>
             if market = [] \<or> interval = [] \<or> \<not> symbol_is_loop sc as then None
             else Some (blank_request\<lparr>rs_kind := ''security'', rs_market := market, rs_interval := interval,
                          rs_field := literal_string fe, rs_tier := TierUniverse, rs_universe := us_code sc,
                          rs_expression_mode := (literal_string fe = []), rs_expression := Some fe\<rparr>))"

definition fundamental_template ::
  "text_case \<Rightarrow> bindings \<Rightarrow> bindings \<Rightarrow> universe_scope \<Rightarrow> call_arg list \<Rightarrow> request_spec option" where
  "fundamental_template tc b ov sc as =
     (let market = static_arg tc b ov ''market'' 0 as; factor = static_arg tc b ov ''factor'' 2 as;
          mode = static_arg tc b ov ''mode'' 3 as
      in if market = [] \<or> factor = [] \<or> \<not> symbol_is_loop sc as then None
         else Some (blank_request\<lparr>rs_kind := ''fundamental'', rs_market := market, rs_name := factor,
                      rs_interval := ''primary'', rs_mode := (if mode = [] then ''filled'' else mode),
                      rs_field := ''value'', rs_tier := TierUniverse, rs_universe := us_code sc\<rparr>))"

definition factor_template ::
  "text_case \<Rightarrow> bindings \<Rightarrow> bindings \<Rightarrow> universe_scope \<Rightarrow> call_arg list \<Rightarrow> request_spec option" where
  "factor_template tc b ov sc as =
     (let name = static_arg tc b ov ''name'' 0 as; interval = static_arg tc b ov ''interval'' 2 as;
          field = static_arg tc b ov ''field'' 3 as
      in if name = [] \<or> interval = [] \<or> field = [] \<or> \<not> symbol_is_loop sc as then None
         else Some (blank_request\<lparr>rs_kind := ''factor'', rs_name := name, rs_interval := interval,
                      rs_field := field, rs_tier := TierUniverse, rs_universe := us_code sc\<rparr>))"

definition universe_request_template ::
  "text_case \<Rightarrow> bindings \<Rightarrow> bindings \<Rightarrow> universe_scope \<Rightarrow> expr \<Rightarrow> call_arg list \<Rightarrow> request_spec option" where
  "universe_request_template tc b ov sc callee as =
     (if us_code sc = [] \<or> us_var sc = [] then None
      else case callee of
             DotExpr _ _ _ \<Rightarrow>
               (let x = qualified_name tc callee
                in if x = ''request.security'' then security_template tc b ov sc as
                   else if x = ''request.fundamental'' then fundamental_template tc b ov sc as
                   else if x = ''request.factor'' then factor_template tc b ov sc as
                   else None)
           | _ \<Rightarrow> None)"

section \<open>The calls that ask for data\<close>

definition security_spec ::
  "text_case \<Rightarrow> bindings \<Rightarrow> bindings \<Rightarrow> call_arg list \<Rightarrow> request_spec" where
  "security_spec tc b ov as =
     (let market = static_arg tc b ov ''market'' 0 as; symbol = static_arg tc b ov ''symbol'' 1 as;
          interval = static_arg tc b ov ''interval'' 2 as;
          spec = blank_request\<lparr>rs_kind := ''security'', rs_market := market, rs_symbol := symbol,
                   rs_interval := interval, rs_key := request_security_key tc market symbol interval,
                   rs_tier := TierStatic\<rparr>
      in if market = [] \<or> symbol = [] \<or> interval = [] then dynamic_request ''security''
         else case arg_expr ''field'' 3 as of
                None \<Rightarrow> dynamic_request ''security''
              | Some fe \<Rightarrow>
                  if literal_string fe = []
                  then spec\<lparr>rs_expression_mode := True, rs_expression := Some fe\<rparr>
                  else spec\<lparr>rs_field := literal_string fe\<rparr>)"

definition chain_spec :: "text_case \<Rightarrow> bindings \<Rightarrow> bindings \<Rightarrow> call_arg list \<Rightarrow> request_spec" where
  "chain_spec tc b ov as =
     (let market = static_arg tc b ov ''market'' 0 as; symbol = static_arg tc b ov ''symbol'' 1 as
      in if as = [] then blank_request
         else if market = [] \<or> symbol = [] then dynamic_request ''option_chain''
         else blank_request\<lparr>rs_kind := ''option_chain'', rs_market := market, rs_symbol := symbol,
                rs_key := analysis_chain_key tc market symbol, rs_tier := TierStatic\<rparr>)"

definition factor_spec :: "text_case \<Rightarrow> bindings \<Rightarrow> bindings \<Rightarrow> call_arg list \<Rightarrow> request_spec" where
  "factor_spec tc b ov as =
     (let wide = (4 \<le> length as); name = static_arg tc b ov ''name'' 0 as;
          symbol = (if wide then static_arg tc b ov ''symbol'' 1 as else []);
          interval = static_arg tc b ov ''interval'' (if wide then 2 else 1) as;
          field = static_arg tc b ov ''field'' (if wide then 3 else 2) as
      in if name = [] \<or> (wide \<and> symbol = []) \<or> interval = [] \<or> field = [] then dynamic_request ''factor''
         else blank_request\<lparr>rs_kind := ''factor'', rs_symbol := symbol, rs_name := name,
                rs_interval := interval, rs_field := field,
                rs_key := (if symbol \<noteq> [] then request_symbol_factor_key tc name symbol interval
                           else request_factor_key name interval), rs_tier := TierStatic\<rparr>)"

definition fundamental_spec :: "text_case \<Rightarrow> bindings \<Rightarrow> bindings \<Rightarrow> call_arg list \<Rightarrow> request_spec" where
  "fundamental_spec tc b ov as =
     (let market = static_arg tc b ov ''market'' 0 as; symbol = static_arg tc b ov ''symbol'' 1 as;
          factor = static_arg tc b ov ''factor'' 2 as; mode = static_arg tc b ov ''mode'' 3 as;
          mode = (if mode = [] then ''filled'' else mode)
      in if market = [] \<or> symbol = [] \<or> factor = [] then dynamic_request ''fundamental''
         else blank_request\<lparr>rs_kind := ''fundamental'', rs_market := market, rs_symbol := symbol,
                rs_name := factor, rs_interval := ''primary'', rs_mode := mode, rs_field := ''value'',
                rs_key := request_fundamental_key tc market symbol factor mode, rs_tier := TierStatic\<rparr>)"

definition universe_spec :: "text_case \<Rightarrow> bindings \<Rightarrow> bindings \<Rightarrow> call_arg list \<Rightarrow> request_spec" where
  "universe_spec tc b ov as =
     (let code = static_arg tc b ov ''code'' 0 as
      in if as = [] \<or> code = [] then dynamic_request ''universe''
         else let code = lower tc (trim_space code)
              in blank_request\<lparr>rs_kind := ''universe'', rs_name := code, rs_key := universe_key tc code,
                   rs_tier := TierStatic\<rparr>)"

definition parse_request_spec ::
  "text_case \<Rightarrow> bindings \<Rightarrow> bindings \<Rightarrow> expr \<Rightarrow> call_arg list \<Rightarrow> request_spec option" where
  "parse_request_spec tc b ov callee as =
     (case callee of
        DotExpr _ (IdentExpr _ obj) fld \<Rightarrow>
          if fld = ''security'' \<and> obj = ''request'' then Some (security_spec tc b ov as)
          else if fld = ''chain'' \<and> obj = ''options'' then Some (chain_spec tc b ov as)
          else if fld = ''factor'' \<and> obj = ''request'' then Some (factor_spec tc b ov as)
          else if fld = ''fundamental'' \<and> obj = ''request'' then Some (fundamental_spec tc b ov as)
          else if fld = ''symbols'' \<and> obj = ''universe'' then Some (universe_spec tc b ov as)
          else None
      | _ \<Rightarrow> None)"

section \<open>The manifest\<close>

text \<open>\<open>Metadata.Requests\<close> is a copy of the requests and left out.\<close>

record manifest =
  mf_name :: string
  mf_inputs :: "param_schema list"
  mf_metadata :: signal_metadata
  mf_requests :: "request_spec list"
  mf_options :: bool
  mf_orders :: bool
  mf_diagnostics :: "diagnostic list"

definition is_options_reference :: "string \<Rightarrow> bool" where
  "is_options_reference x =
     (has_prefix x ''options.'' \<or> has_prefix x ''spread.'' \<or> has_prefix x ''leg.'' \<or> has_prefix x ''contract.'')"

definition is_regular_trade_call :: "string \<Rightarrow> bool" where
  "is_regular_trade_call x =
     (x \<in> {''buy'', ''sell'', ''strategy.entry'', ''strategy.close'', ''strategy.exit'', ''strategy.order'',
        ''order.market'', ''order.market_notional'', ''order.limit'', ''order.stop'', ''order.stop_limit'',
        ''order.twap'', ''order.immediate'', ''order.submit''})"

definition request_diagnostic_function :: "string \<Rightarrow> string" where
  "request_diagnostic_function kind =
     (if kind = ''security'' then ''request.security''
      else if kind = ''factor'' then ''request.factor''
      else if kind = ''fundamental'' then ''request.fundamental''
      else if kind = ''option_chain'' then ''options.chain''
      else if kind = ''universe'' then ''universe.symbols''
      else ''request'')"

definition static_warning :: "string \<Rightarrow> string \<Rightarrow> string \<Rightarrow> string \<Rightarrow> diagnostic" where
  "static_warning code func msg hint =
     \<lparr>dg_severity = SevWarning, dg_code = code, dg_message = msg, dg_function = func, dg_bar = None,
      dg_hint = hint\<rparr>"

definition request_warnings :: "request_spec \<Rightarrow> diagnostic list" where
  "request_warnings r =
     (if rs_tier r = TierDynamic \<and> rs_kind r \<noteq> ''option_chain''
      then [static_warning ''dsl.runtime_dynamic_request'' (request_diagnostic_function (rs_kind r))
              ''request uses runtime-dynamic arguments and will require a runtime request provider/cache instead of the static preload path''
              ''Prefer literals, input/config-resolvable values, or top-level constants when possible so requests can be preloaded before replay.'']
      else [])
     @ (if rs_dynamic r \<and> rs_kind r = ''option_chain''
        then [static_warning ''dsl.dynamic_option_chain'' ''options.chain''
                ''options.chain uses runtime-dynamic market or symbol arguments and must be backed by request-level symbols, portfolio scope, or a runtime chain provider/cache''
                ''Prefer literal or input/config-resolvable chain arguments so option chains can be preloaded deterministically.'']
        else [])
     @ (if rs_dynamic r \<and> rs_kind r = ''universe''
        then [static_warning ''dsl.dynamic_universe'' ''universe.symbols''
                ''universe.symbols uses a runtime-dynamic code and cannot be expanded during validate/run planning''
                ''Use a literal universe code so the backtest service can resolve membership and estimate resources before replay.'']
        else [])"

definition add_request :: "request_spec \<Rightarrow> manifest \<Rightarrow> manifest" where
  "add_request r m = m\<lparr>mf_requests := mf_requests m @ [r]\<rparr>"

definition note_options :: "string \<Rightarrow> manifest \<Rightarrow> manifest" where
  "note_options x m = (if is_options_reference x then m\<lparr>mf_options := True\<rparr> else m)"

text \<open>What the walk does at a call, before it enters the callee and the arguments.\<close>

definition note_call ::
  "text_case \<Rightarrow> bindings \<Rightarrow> bindings \<Rightarrow> universe_scope \<Rightarrow> expr \<Rightarrow> call_arg list \<Rightarrow> manifest \<Rightarrow> manifest" where
  "note_call tc b ov sc callee as m =
     (let x = qualified_name tc callee;
          m = note_options x m;
          m = (if is_regular_trade_call x then m\<lparr>mf_orders := True\<rparr> else m)
      in case universe_request_template tc b ov sc callee as of
           Some r \<Rightarrow> add_request r m
         | None \<Rightarrow>
             (case parse_request_spec tc b ov callee as of
                Some r \<Rightarrow> (add_request r m)\<lparr>mf_diagnostics := fold list_add (request_warnings r) (mf_diagnostics m)\<rparr>
              | None \<Rightarrow> m))"

section \<open>The walk\<close>

text \<open>The strings that the walk looks up: the bindings, the overrides and the universes in variables.\<close>

record walk_context =
  wc_case :: text_case
  wc_bindings :: bindings
  wc_overrides :: bindings
  wc_codes :: bindings

definition literal_universe_code :: "text_case \<Rightarrow> bindings \<Rightarrow> bindings \<Rightarrow> expr \<Rightarrow> string" where
  "literal_universe_code tc b ov e =
     (case e of
        CallExpr _ callee as \<Rightarrow>
          if qualified_name tc callee \<noteq> ''universe.symbols'' then []
          else (case first_named ''code'' (arg_pairs as) of
                  Some v \<Rightarrow> lower tc (trim_space (static_string tc b ov v))
                | None \<Rightarrow>
                    (case as of [] \<Rightarrow> [] | a # _ \<Rightarrow> lower tc (trim_space (static_string tc b ov (arg_value a)))))
      | _ \<Rightarrow> [])"

fun universe_variable :: "text_case \<Rightarrow> bindings \<Rightarrow> bindings \<Rightarrow> string list \<Rightarrow> stmt \<Rightarrow> bindings \<Rightarrow> bindings" where
  "universe_variable tc b ov mutable (VarDecl _ x _ _ _ e) out =
     (if x \<in> set mutable then out
      else let code = literal_universe_code tc b ov e in if code \<noteq> [] then out(x \<mapsto> code) else out)"
| "universe_variable tc b ov mutable _ out = out"

definition new_walk_context :: "text_case \<Rightarrow> stmt list \<Rightarrow> bindings \<Rightarrow> bindings \<Rightarrow> walk_context" where
  "new_walk_context tc prog b ov =
     \<lparr>wc_case = tc, wc_bindings = b, wc_overrides = ov,
      wc_codes = fold (universe_variable tc b ov (collect_assigned_names prog)) prog (\<lambda>_. None)\<rparr>"

definition child_universe_scope :: "walk_context \<Rightarrow> string \<Rightarrow> expr \<Rightarrow> universe_scope \<Rightarrow> universe_scope" where
  "child_universe_scope w x coll sc =
     (let code = literal_universe_code (wc_case w) (wc_bindings w) (wc_overrides w) coll;
          code = (if code \<noteq> [] then code
                  else case coll of IdentExpr _ y \<Rightarrow> binding (wc_codes w) y | _ \<Rightarrow> [])
      in if code \<noteq> [] then \<lparr>us_code = code, us_var = x\<rparr>
         else if x = us_var sc then no_scope else sc)"

lemma size_param_default [termination_simp]: "FnParam x (Some d) \<in> set ps \<Longrightarrow> size d < Suc (size_list size ps + n)"
  using size_list_estimation' [of "FnParam x (Some d)" ps "size (FnParam x (Some d))" size] by simp

fun walk_expr :: "walk_context \<Rightarrow> universe_scope \<Rightarrow> expr \<Rightarrow> manifest \<Rightarrow> manifest" where
  "walk_expr w sc (BinaryExpr _ l _ r) m = walk_expr w sc r (walk_expr w sc l m)"
| "walk_expr w sc (UnaryExpr _ _ e) m = walk_expr w sc e m"
| "walk_expr w sc (CallExpr _ callee as) m =
     fold (\<lambda>a m. walk_expr w sc (arg_value a) m) as
       (walk_expr w sc callee
         (note_call (wc_case w) (wc_bindings w) (wc_overrides w) sc callee as m))"
| "walk_expr w sc (DotExpr t obj x) m =
     walk_expr w sc obj (note_options (qualified_name (wc_case w) (DotExpr t obj x)) m)"
| "walk_expr w sc (IndexExpr _ l i) m = walk_expr w sc i (walk_expr w sc l m)"
| "walk_expr w sc (TernaryExpr _ c a b) m = walk_expr w sc b (walk_expr w sc a (walk_expr w sc c m))"
| "walk_expr w sc (ArrayLit _ es) m = fold (\<lambda>e m. walk_expr w sc e m) es m"
| "walk_expr w sc (LambdaExpr _ _ body) m = walk_expr w sc body m"
| "walk_expr w sc _ m = m"

definition walk_opt :: "walk_context \<Rightarrow> universe_scope \<Rightarrow> expr option \<Rightarrow> manifest \<Rightarrow> manifest" where
  "walk_opt w sc e m = (case e of Some e \<Rightarrow> walk_expr w sc e m | None \<Rightarrow> m)"

fun param_default :: "fn_param \<Rightarrow> expr option" where
  "param_default (FnParam x d) = d"

fun walk_stmt :: "walk_context \<Rightarrow> universe_scope \<Rightarrow> stmt \<Rightarrow> manifest \<Rightarrow> manifest"
  and walk_else_if :: "walk_context \<Rightarrow> universe_scope \<Rightarrow> else_if \<Rightarrow> manifest \<Rightarrow> manifest"
  and walk_case :: "walk_context \<Rightarrow> universe_scope \<Rightarrow> switch_case \<Rightarrow> manifest \<Rightarrow> manifest"
  and walk_block :: "walk_context \<Rightarrow> universe_scope \<Rightarrow> block \<Rightarrow> manifest \<Rightarrow> manifest" where
  "walk_stmt w sc (StrategyDecl _ _ as) m = fold (\<lambda>a. walk_expr w sc (arg_value a)) as m"
| "walk_stmt w sc (InputDecl _ _ as) m = fold (\<lambda>a. walk_expr w sc (arg_value a)) as m"
| "walk_stmt w sc (VarDecl _ _ _ _ _ e) m = walk_expr w sc e m"
| "walk_stmt w sc (AssignStmt _ _ _ e) m = walk_expr w sc e m"
| "walk_stmt w sc (IndexAssignStmt _ l i e) m = walk_expr w sc e (walk_expr w sc i (walk_expr w sc l m))"
| "walk_stmt w sc (TupleAssign _ _ e) m = walk_expr w sc e m"
| "walk_stmt w sc (ExprStmt e) m = walk_expr w sc e m"
| "walk_stmt w sc (IfStmt _ c body elses els) m =
     (let m = fold (\<lambda>x m. walk_else_if w sc x m) elses (walk_block w sc body (walk_expr w sc c m))
      in case els of Some b \<Rightarrow> walk_block w sc b m | None \<Rightarrow> m)"
| "walk_stmt w sc (ForStmt _ _ i j step body) m =
     walk_block w sc body (walk_opt w sc step (walk_expr w sc j (walk_expr w sc i m)))"
| "walk_stmt w sc (ForInStmt _ x coll body) m =
     walk_block w (child_universe_scope w x coll sc) body (walk_expr w sc coll m)"
| "walk_stmt w sc (WhileStmt _ c body) m = walk_block w sc body (walk_expr w sc c m)"
| "walk_stmt w sc (SwitchStmt _ tag cases d) m =
     (let m = fold (\<lambda>x m. walk_case w sc x m) cases (walk_opt w sc tag m)
      in case d of Some b \<Rightarrow> walk_block w sc b m | None \<Rightarrow> m)"
| "walk_stmt w sc (FnDecl _ _ ps body) m =
     walk_block w sc body (fold (\<lambda>p. walk_opt w sc (param_default p)) ps m)"
| "walk_stmt w sc (ReturnStmt _ e) m = walk_opt w sc e m"
| "walk_stmt w sc _ m = m"
| "walk_else_if w sc (ElseIf _ c body) m = walk_block w sc body (walk_expr w sc c m)"
| "walk_case w sc (SwitchCase v body) m = walk_block w sc body (walk_expr w sc v m)"
| "walk_block w sc (Block _ ss) m = fold (\<lambda>s m. walk_stmt w sc s m) ss m"

fun stmt_metadata :: "stmt \<Rightarrow> signal_metadata \<Rightarrow> signal_metadata" where
  "stmt_metadata (StrategyDecl _ _ as) md = extract_strategy_metadata as md"
| "stmt_metadata _ md = md"

definition analyze_with_params ::
  "text_case \<Rightarrow> (string \<times> config_value) list \<Rightarrow> stmt list \<Rightarrow> manifest" where
  "analyze_with_params tc params prog =
     (let ov = normalize_overrides tc params; b = collect_static_bindings tc ov prog;
          w = new_walk_context tc prog b ov
      in fold (\<lambda>s m. walk_stmt w no_scope s (m\<lparr>mf_metadata := stmt_metadata s (mf_metadata m)\<rparr>)) prog
           \<lparr>mf_name = extract_strategy_name prog, mf_inputs = extract_params prog, mf_metadata = no_metadata,
            mf_requests = [], mf_options = False, mf_orders = False, mf_diagnostics = []\<rparr>)"

definition universe_templates_for_preload :: "manifest \<Rightarrow> request_spec list" where
  "universe_templates_for_preload m = filter (\<lambda>r. rs_tier r = TierUniverse) (mf_requests m)"

text \<open>The requests of a kind that are known before the run, the first one with each key.\<close>

definition known_requests :: "string \<Rightarrow> manifest \<Rightarrow> request_spec list" where
  "known_requests kind m =
     rev (fold (\<lambda>r out. if rs_kind r \<noteq> kind \<or> rs_dynamic r \<or> rs_key r = [] \<or> rs_key r \<in> rs_key ` set out
                        then out else r # out) (mf_requests m) [])"

definition option_chain_requests :: "manifest \<Rightarrow> (string \<times> string \<times> string) list" where
  "option_chain_requests m =
     map (\<lambda>r. (rs_market r, rs_symbol r, rs_key r)) (known_requests ''option_chain'' m)"

definition universe_requests :: "manifest \<Rightarrow> (string \<times> string) list" where
  "universe_requests m = map (\<lambda>r. (rs_name r, rs_key r)) (known_requests ''universe'' m)"

definition has_dynamic_request :: "string \<Rightarrow> manifest \<Rightarrow> bool" where
  "has_dynamic_request kind m = list_ex (\<lambda>r. rs_kind r = kind \<and> rs_dynamic r) (mf_requests m)"

end
