(* ===== verification/Dsl_Remote.thy ===== *)
theory Dsl_Remote
  imports Dsl_Requests "HOL-Library.AList"
begin

text \<open>
  The expressions that a script evaluates on another security
  (\<open>pkg/dsl/analysis/remote_requests.go\<close>): aliases of the top level are expanded in them, also when
  they lead back to themselves, and the factors they ask for are collected.
\<close>

section \<open>Aliases\<close>

type_synonym aliases = "(string \<times> expr) list"

fun alias_of :: "stmt \<Rightarrow> aliases \<Rightarrow> aliases" where
  "alias_of (VarDecl _ x _ per var e) al =
     (if per \<or> var \<or> trim_space x = [] then al else AList.update x e al)"
| "alias_of _ al = al"

definition collect_alias_exprs :: "stmt list \<Rightarrow> aliases" where
  "collect_alias_exprs prog = fold alias_of prog []"

text \<open>
  \<open>stack\<close> holds the aliases that are being expanded. Every alias on the way is new, so the recursion
  ends, whether or not the aliases form a cycle.
\<close>

lemma stack_shrinks:
  assumes "map_of al x = Some e" "x \<notin> set stack"
  shows "card (fst ` set al - set (x # stack)) < card (fst ` set al - set stack)"
proof (rule psubset_card_mono)
  have "x \<in> fst ` set al" using assms(1) by (metis domI dom_map_of_conv_image_fst)
  then show "fst ` set al - set (x # stack) \<subset> fst ` set al - set stack" using assms(2) by auto
qed simp

fun with_value :: "call_arg \<Rightarrow> expr \<Rightarrow> call_arg" where
  "with_value (CallArg x e) e' = CallArg x e'"

function expand_expr :: "aliases \<Rightarrow> string list \<Rightarrow> expr \<Rightarrow> expr" where
  "expand_expr al stack (IdentExpr t y) =
     (let x = trim_space y
      in if x = [] \<or> x \<in> set stack then IdentExpr t y
         else case map_of al x of None \<Rightarrow> IdentExpr t y | Some e \<Rightarrow> expand_expr al (x # stack) e)"
| "expand_expr al stack (BinaryExpr t l op r) = BinaryExpr t (expand_expr al stack l) op (expand_expr al stack r)"
| "expand_expr al stack (UnaryExpr t op e) = UnaryExpr t op (expand_expr al stack e)"
| "expand_expr al stack (CallExpr t callee as) =
     CallExpr t (expand_expr al stack callee)
       (map (\<lambda>a. with_value a (expand_expr al stack (arg_value a))) as)"
| "expand_expr al stack (DotExpr t obj x) = DotExpr t (expand_expr al stack obj) x"
| "expand_expr al stack (IndexExpr t l i) = IndexExpr t (expand_expr al stack l) (expand_expr al stack i)"
| "expand_expr al stack (TernaryExpr t c a b) =
     TernaryExpr t (expand_expr al stack c) (expand_expr al stack a) (expand_expr al stack b)"
| "expand_expr al stack (ArrayLit t es) = ArrayLit t (map (expand_expr al stack) es)"
| "expand_expr al stack (LambdaExpr t ps body) = LambdaExpr t ps (expand_expr al stack body)"
| "expand_expr al stack (NumberLit t v) = NumberLit t v"
| "expand_expr al stack (StringLit t s) = StringLit t s"
| "expand_expr al stack (BoolLit t b) = BoolLit t b"
| "expand_expr al stack (NaLit t) = NaLit t"
  by pat_completeness auto
termination
  by (relation "measures [\<lambda>(al, stack, e). card (fst ` set al - set stack), \<lambda>(al, stack, e). size e]")
    (auto simp: termination_simp stack_shrinks [simplified])

section \<open>The factors of an expression\<close>

definition is_request_call :: "string \<Rightarrow> expr \<Rightarrow> bool" where
  "is_request_call x callee =
     (case callee of DotExpr _ (IdentExpr _ obj) fld \<Rightarrow> fld = x \<and> obj = ''request'' | _ \<Rightarrow> False)"

definition positional_string_arg :: "string \<Rightarrow> nat \<Rightarrow> call_arg list \<Rightarrow> string" where
  "positional_string_arg x i as =
     (case first_named x (arg_pairs as) of
        Some e \<Rightarrow> literal_string e
      | None \<Rightarrow> (case unnamed_at i (arg_pairs as) of Some e \<Rightarrow> literal_string e | None \<Rightarrow> []))"

definition remote_factor :: "expr \<Rightarrow> call_arg list \<Rightarrow> request_spec list" where
  "remote_factor callee as =
     (if is_request_call ''factor'' callee
      then (let name = positional_string_arg ''name'' 0 as;
                interval = positional_string_arg ''interval'' 1 as;
                field = positional_string_arg ''field'' 2 as
            in if name \<noteq> [] \<and> interval \<noteq> [] \<and> field \<noteq> []
               then [blank_request\<lparr>rs_kind := ''factor'', rs_name := name, rs_interval := interval,
                       rs_field := field, rs_key := request_factor_key name interval\<rparr>]
               else [])
      else if is_request_call ''fundamental'' callee
      then (let market = positional_string_arg ''market'' 0 as;
                symbol = positional_string_arg ''symbol'' 1 as;
                factor = positional_string_arg ''factor'' 2 as;
                mode = positional_string_arg ''mode'' 3 as
            in if factor \<noteq> []
               then [blank_request\<lparr>rs_kind := ''fundamental'', rs_market := market, rs_symbol := symbol,
                       rs_name := factor, rs_interval := ''primary'',
                       rs_mode := (if mode = [] then ''filled'' else mode), rs_field := ''value''\<rparr>]
               else [])
      else [])"

fun collect_remote_factors :: "expr \<Rightarrow> request_spec list" where
  "collect_remote_factors (BinaryExpr _ l _ r) = collect_remote_factors l @ collect_remote_factors r"
| "collect_remote_factors (UnaryExpr _ _ e) = collect_remote_factors e"
| "collect_remote_factors (CallExpr _ callee as) =
     remote_factor callee as @ collect_remote_factors callee
     @ concat (map (\<lambda>a. collect_remote_factors (arg_value a)) as)"
| "collect_remote_factors (DotExpr _ obj _) = collect_remote_factors obj"
| "collect_remote_factors (IndexExpr _ l i) = collect_remote_factors l @ collect_remote_factors i"
| "collect_remote_factors (TernaryExpr _ c a b) =
     collect_remote_factors c @ collect_remote_factors a @ collect_remote_factors b"
| "collect_remote_factors (ArrayLit _ es) = concat (map collect_remote_factors es)"
| "collect_remote_factors (LambdaExpr _ _ body) = collect_remote_factors body"
| "collect_remote_factors _ = []"

definition remote_factor_key :: "text_case \<Rightarrow> string \<Rightarrow> request_spec \<Rightarrow> string" where
  "remote_factor_key tc security_key r =
     join_key [security_key, trim_space (lower tc (rs_market r)), trim_space (upper tc (rs_symbol r)),
       trim_space (lower tc (rs_name r)), trim_space (lower tc (rs_interval r)),
       trim_space (lower tc (rs_mode r))]"

section \<open>What the expansion leaves\<close>

text \<open>The identifiers of an expression that the expansion looks at.\<close>

fun idents :: "expr \<Rightarrow> string list" where
  "idents (IdentExpr _ y) = [trim_space y]"
| "idents (BinaryExpr _ l _ r) = idents l @ idents r"
| "idents (UnaryExpr _ _ e) = idents e"
| "idents (CallExpr _ callee as) = idents callee @ concat (map (\<lambda>a. idents (arg_value a)) as)"
| "idents (DotExpr _ obj _) = idents obj"
| "idents (IndexExpr _ l i) = idents l @ idents i"
| "idents (TernaryExpr _ c a b) = idents c @ idents a @ idents b"
| "idents (ArrayLit _ es) = concat (map idents es)"
| "idents (LambdaExpr _ _ body) = idents body"
| "idents _ = []"

definition alias_uses :: "aliases \<Rightarrow> (string \<times> string) set" where
  "alias_uses al = {(x, y). \<exists>e. map_of al x = Some e \<and> y \<in> set (idents e)}"

lemma with_value_sel [simp]: "arg_value (with_value a e) = e" "arg_name (with_value a e) = arg_name a"
  by (cases a; simp)+

text \<open>
  An identifier left by the expansion that is an alias was being expanded: it leads to itself
  through the aliases.
\<close>

lemma expand_expr_left:
  assumes "y \<in> set (idents (expand_expr al stack e))" "y \<in> fst ` set al" "y \<noteq> []"
    and "\<forall>s \<in> set stack. \<forall>z \<in> set (idents e). (s, z) \<in> (alias_uses al)\<^sup>+"
  shows "(y, y) \<in> (alias_uses al)\<^sup>+"
  using assms
proof (induction al stack e rule: expand_expr.induct)
  case (1 al stack t y')
  let ?x = "trim_space y'"
  show ?case
  proof (cases "?x = [] \<or> ?x \<in> set stack")
    case True
    then have "y = ?x" "?x \<in> set stack" using "1.prems"(1,3) by (auto simp: Let_def)
    then show ?thesis using "1.prems"(4) by simp
  next
    case False
    show ?thesis
    proof (cases "map_of al ?x")
      case None
      then have "y = ?x" using False "1.prems"(1) by (simp add: Let_def)
      then show ?thesis using None "1.prems"(2) by (simp add: map_of_eq_None_iff)
    next
      case (Some e)
      have step: "(?x, z) \<in> alias_uses al" if "z \<in> set (idents e)" for z
        using Some that by (auto simp: alias_uses_def)
      show ?thesis
      proof (rule "1.IH" [OF refl False Some])
        show "y \<in> set (idents (expand_expr al (?x # stack) e))" using "1.prems"(1) False Some by (simp add: Let_def)
        show "\<forall>s \<in> set (?x # stack). \<forall>z \<in> set (idents e). (s, z) \<in> (alias_uses al)\<^sup>+"
          using step "1.prems"(4) by (auto intro: trancl_into_trancl)
      qed (use "1.prems" in auto)
    qed
  qed
qed auto

end
