(* ===== verification/Bt_Spread.thy ===== *)
theory Bt_Spread
  imports Bt_Option
begin

text \<open>
  Multi-leg option positions: legs, spreads and the spread tracker of
  \<open>internal/backtest/options.go\<close>, spread groups (\<open>spread_group.go\<close>) and the equity of a group
  (\<open>spread_group_equity.go\<close>).
\<close>

section \<open>Legs\<close>

type_synonym custom_data = "(string \<times> string) list"

fun upsert_custom_data :: "custom_data \<Rightarrow> string \<Rightarrow> string \<Rightarrow> custom_data" where
  "upsert_custom_data [] k v = [(k, v)]"
| "upsert_custom_data ((k', v') # r) k v =
     (if k' = k then (k', v) # r else (k', v') # upsert_custom_data r k v)"

record leg =
  lg_contract :: contract
  lg_side :: side
  lg_qty :: f64
  lg_entry_price :: f64
  lg_entry_commission :: f64
  lg_entry_time :: int
  lg_entry_data :: custom_data
  lg_closed :: bool
  lg_close_price :: f64
  lg_close_commission :: f64
  lg_close_time :: int
  lg_close_reason :: string
  lg_close_data :: custom_data

definition leg_notional :: "text_case \<Rightarrow> leg \<Rightarrow> f64 \<Rightarrow> f64" where
  "leg_notional tc l price = lg_qty l * price * multiplier tc (lg_contract l)"

definition leg_commission :: "leg \<Rightarrow> f64" where
  "leg_commission l = lg_entry_commission l + lg_close_commission l"

definition leg_unrealized_pnl :: "text_case \<Rightarrow> leg \<Rightarrow> f64 \<Rightarrow> f64" where
  "leg_unrealized_pnl tc l mark =
     (if lg_closed l then 0
      else if lg_side l = Sell
      then lg_qty l * (lg_entry_price l - mark) * multiplier tc (lg_contract l) - lg_entry_commission l
      else lg_qty l * (mark - lg_entry_price l) * multiplier tc (lg_contract l) - lg_entry_commission l)"

definition leg_realized_pnl :: "text_case \<Rightarrow> leg \<Rightarrow> f64" where
  "leg_realized_pnl tc l =
     (if \<not> lg_closed l then 0
      else if lg_side l = Sell
      then lg_qty l * (lg_entry_price l - lg_close_price l) * multiplier tc (lg_contract l) - leg_commission l
      else lg_qty l * (lg_close_price l - lg_entry_price l) * multiplier tc (lg_contract l) - leg_commission l)"

section \<open>Spreads\<close>

record spread =
  sp_id :: int
  sp_legs :: "leg list"
  sp_open_time :: int
  sp_open_bar :: int
  sp_tag :: string
  sp_ref :: string
  sp_group :: int

definition fully_closed :: "spread \<Rightarrow> bool" where
  "fully_closed sp = list_all lg_closed (sp_legs sp)"

definition spread_unrealized_pnl :: "text_case \<Rightarrow> (contract \<Rightarrow> f64) \<Rightarrow> spread \<Rightarrow> f64" where
  "spread_unrealized_pnl tc price sp =
     foldl (\<lambda>t l. if lg_closed l then t else t + leg_unrealized_pnl tc l (price (lg_contract l)))
       0 (sp_legs sp)"

definition spread_realized_pnl :: "text_case \<Rightarrow> spread \<Rightarrow> f64" where
  "spread_realized_pnl tc sp = foldl (\<lambda>t l. t + leg_realized_pnl tc l) 0 (sp_legs sp)"

definition spread_fees :: "spread \<Rightarrow> f64" where
  "spread_fees sp = foldl (\<lambda>t l. t + leg_commission l) 0 (sp_legs sp)"

definition leg_unrealized_pct :: "spread \<Rightarrow> int \<Rightarrow> f64 \<Rightarrow> f64" where
  "leg_unrealized_pct sp i mark =
     (if i < 0 \<or> int (length (sp_legs sp)) \<le> i then FNaN
      else let l = sp_legs sp ! nat i
           in if lg_closed l \<or> feq (lg_entry_price l) 0 then FNaN
              else if lg_side l = Sell then (lg_entry_price l - mark) / lg_entry_price l
              else (mark - lg_entry_price l) / lg_entry_price l)"

section \<open>The spread tracker\<close>

text \<open>
  A spread is reached through pointers that are shared by the map, the open list and the closed
  list; the map is the store and the lists hold the keys. The backing array of the slice \<open>open\<close>
  is shared by every slice header taken from it, and \<open>archiveIfClosed\<close> shifts it in place, so the
  elements of the array past the end of the slice are kept in \<open>st_spare\<close>.
\<close>

record spread_tracker =
  st_open :: "int list"
  st_spare :: "int list"
  st_closed :: "int list"
  st_map :: "int \<Rightarrow> spread option"
  st_next :: int

definition new_spread_tracker :: spread_tracker where
  "new_spread_tracker =
     \<lparr>st_open = [], st_spare = [], st_closed = [], st_map = (\<lambda>_. None), st_next = 1\<rparr>"

definition open_full ::
  "leg list \<Rightarrow> int \<Rightarrow> int \<Rightarrow> string \<Rightarrow> string \<Rightarrow> int \<Rightarrow> spread_tracker \<Rightarrow> int \<times> spread_tracker" where
  "open_full legs time bar tag ref gid st =
     (let n = st_next st;
          sp = \<lparr>sp_id = n, sp_legs = legs, sp_open_time = time, sp_open_bar = bar, sp_tag = tag,
                sp_ref = ref, sp_group = gid\<rparr>
      in (n, st\<lparr>st_next := n + 1, st_open := st_open st @ [n], st_spare := tl (st_spare st),
                st_map := (st_map st)(n \<mapsto> sp)\<rparr>))"

definition open_with_ref ::
  "leg list \<Rightarrow> int \<Rightarrow> int \<Rightarrow> string \<Rightarrow> string \<Rightarrow> spread_tracker \<Rightarrow> int \<times> spread_tracker" where
  "open_with_ref legs time bar tag ref st = open_full legs time bar tag ref 0 st"

definition all_spreads :: "spread_tracker \<Rightarrow> int list" where
  "all_spreads st = st_closed st @ st_open st"

text \<open>Removal at index \<open>i\<close> shifts the array: the last element stays behind the new end.\<close>

definition archive_if_closed :: "int \<Rightarrow> spread_tracker \<Rightarrow> spread_tracker" where
  "archive_if_closed sid st =
     (case st_map st sid of
        None \<Rightarrow> st
      | Some sp \<Rightarrow>
          if \<not> fully_closed sp \<or> sid \<notin> set (st_open st) then st
          else st\<lparr>st_open := remove1 sid (st_open st), st_spare := last (st_open st) # st_spare st,
                  st_closed := st_closed st @ [sid]\<rparr>)"

definition close_leg ::
  "f64 \<Rightarrow> f64 \<Rightarrow> int \<Rightarrow> string \<Rightarrow> custom_data \<Rightarrow> leg \<Rightarrow> leg" where
  "close_leg price commission time reason data l =
     l\<lparr>lg_closed := True, lg_close_price := price, lg_close_commission := commission,
       lg_close_time := time, lg_close_reason := reason, lg_close_data := data\<rparr>"

definition set_legs :: "int \<Rightarrow> spread \<Rightarrow> leg list \<Rightarrow> spread_tracker \<Rightarrow> spread_tracker" where
  "set_legs sid sp legs st = st\<lparr>st_map := (st_map st)(sid \<mapsto> sp\<lparr>sp_legs := legs\<rparr>)\<rparr>"

definition close_leg_full ::
  "int \<Rightarrow> int \<Rightarrow> f64 \<Rightarrow> f64 \<Rightarrow> int \<Rightarrow> string \<Rightarrow> custom_data \<Rightarrow> spread_tracker \<Rightarrow> bool \<times> spread_tracker" where
  "close_leg_full sid i price commission time reason data st =
     (case st_map st sid of
        None \<Rightarrow> (False, st)
      | Some sp \<Rightarrow>
          if i < 0 \<or> int (length (sp_legs sp)) \<le> i then (False, st)
          else if lg_closed (sp_legs sp ! nat i) then (False, st)
          else (True, archive_if_closed sid
                  (set_legs sid sp ((sp_legs sp)[nat i :=
                     close_leg price commission time reason data (sp_legs sp ! nat i)]) st)))"

text \<open>\<open>CloseAll\<close> leaves the commission, the reason and the data of the closing empty.\<close>

definition close_all :: "int \<Rightarrow> (contract \<Rightarrow> f64) \<Rightarrow> int \<Rightarrow> spread_tracker \<Rightarrow> spread_tracker" where
  "close_all sid price time st =
     (case st_map st sid of
        None \<Rightarrow> st
      | Some sp \<Rightarrow>
          archive_if_closed sid (set_legs sid sp
            (map (\<lambda>l. if lg_closed l then l
                      else l\<lparr>lg_closed := True, lg_close_price := price (lg_contract l),
                             lg_close_time := time\<rparr>) (sp_legs sp)) st))"

section \<open>Spread groups\<close>

record spread_group =
  sg_id :: int
  sg_tag :: string
  sg_spreads :: "int list"
  sg_init :: f64
  sg_decay :: f64
  sg_rolls :: nat
  sg_open_time :: int
  sg_closed :: bool

definition active_spread :: "spread_group \<Rightarrow> int" where
  "active_spread g = (if sg_spreads g = [] then 0 else last (sg_spreads g))"

definition current_amount :: "spread_group \<Rightarrow> f64" where
  "current_amount g = ((\<lambda>a. a * sg_decay g) ^^ sg_rolls g) (sg_init g)"

definition next_roll_amount :: "spread_group \<Rightarrow> f64" where
  "next_roll_amount g = current_amount g * sg_decay g"

text \<open>The list and the map of the tracker hold the same pointers; the list holds the keys.\<close>

record group_tracker =
  gt_groups :: "int list"
  gt_map :: "int \<Rightarrow> spread_group option"
  gt_next :: int

definition new_group_tracker :: group_tracker where
  "new_group_tracker = \<lparr>gt_groups = [], gt_map = (\<lambda>_. None), gt_next = 1\<rparr>"

definition open_group :: "string \<Rightarrow> f64 \<Rightarrow> f64 \<Rightarrow> int \<Rightarrow> group_tracker \<Rightarrow> int \<times> group_tracker" where
  "open_group tag init decay time t =
     (let n = gt_next t;
          g = \<lparr>sg_id = n, sg_tag = tag, sg_spreads = [], sg_init = init, sg_decay = decay,
               sg_rolls = 0, sg_open_time = time, sg_closed = False\<rparr>
      in (n, t\<lparr>gt_next := n + 1, gt_groups := gt_groups t @ [n], gt_map := (gt_map t)(n \<mapsto> g)\<rparr>))"

definition update_group :: "int \<Rightarrow> (spread_group \<Rightarrow> spread_group) \<Rightarrow> group_tracker \<Rightarrow> group_tracker" where
  "update_group sid f t =
     (case gt_map t sid of None \<Rightarrow> t | Some g \<Rightarrow> t\<lparr>gt_map := (gt_map t)(sid \<mapsto> f g)\<rparr>)"

definition add_spread :: "int \<Rightarrow> int \<Rightarrow> group_tracker \<Rightarrow> group_tracker" where
  "add_spread gid spread = update_group gid (\<lambda>g. g\<lparr>sg_spreads := sg_spreads g @ [spread]\<rparr>)"

definition increment_roll :: "int \<Rightarrow> group_tracker \<Rightarrow> group_tracker" where
  "increment_roll gid = update_group gid (\<lambda>g. g\<lparr>sg_rolls := sg_rolls g + 1\<rparr>)"

definition close_group :: "int \<Rightarrow> group_tracker \<Rightarrow> group_tracker" where
  "close_group gid = update_group gid (\<lambda>g. g\<lparr>sg_closed := True\<rparr>)"

definition open_groups :: "group_tracker \<Rightarrow> spread_group list" where
  "open_groups t = filter (\<lambda>g. \<not> sg_closed g) (List.map_filter (gt_map t) (gt_groups t))"

section \<open>The equity of a group\<close>

record equity_state =
  eq_init :: bool
  eq_peak :: f64
  eq_high :: f64
  eq_low :: f64
  eq_drawdown :: f64

definition new_equity_state :: equity_state where
  "new_equity_state = \<lparr>eq_init = False, eq_peak = 0, eq_high = 0, eq_low = 0, eq_drawdown = 0\<rparr>"

definition equity_baseline :: "f64 \<Rightarrow> f64 \<Rightarrow> f64" where
  "equity_baseline initial e = (if feq initial 0 \<or> is_nan initial \<or> is_inf initial then e else initial)"

definition observe :: "f64 \<Rightarrow> f64 \<Rightarrow> equity_state \<Rightarrow> equity_state" where
  "observe initial e s =
     (let s = (if eq_init s then s
               else let b = equity_baseline initial e
                    in s\<lparr>eq_init := True, eq_peak := b, eq_high := b, eq_low := b\<rparr>);
          s = (if eq_high s < e then s\<lparr>eq_high := e\<rparr> else s);
          s = (if e < eq_low s then s\<lparr>eq_low := e\<rparr> else s);
          s = (if eq_peak s < e then s\<lparr>eq_peak := e\<rparr> else s)
      in if 0 < eq_peak s
         then let dd = (eq_peak s - e) / eq_peak s
              in if eq_drawdown s < dd then s\<lparr>eq_drawdown := dd\<rparr> else s
         else s)"

text \<open>
  The mark of a leg is looked up by the symbol of its contract alone, unlike everywhere else.
\<close>

definition group_leg_pnl :: "text_case \<Rightarrow> contract_map \<Rightarrow> spread_pricing \<Rightarrow> f64 \<Rightarrow> leg \<Rightarrow> f64" where
  "group_leg_pnl tc m pricing acc l =
     (if lg_closed l then acc
      else let c = (case m (oc_symbol (lg_contract l)) of Some c \<Rightarrow> c | None \<Rightarrow> lg_contract l);
               mark = option_exit_price (pr_valuation pricing) (lg_side l) c
           in if option_price_valid mark then acc + leg_unrealized_pnl tc l mark else acc)"

definition spread_group_pnl ::
  "text_case \<Rightarrow> contract_map \<Rightarrow> spread_pricing \<Rightarrow> spread_tracker \<Rightarrow> spread_group \<Rightarrow> f64" where
  "spread_group_pnl tc m pricing st g =
     foldl (\<lambda>acc sid. case st_map st sid of
         None \<Rightarrow> acc
       | Some sp \<Rightarrow> foldl (group_leg_pnl tc m pricing) (acc + spread_realized_pnl tc sp) (sp_legs sp))
       0 (sg_spreads g)"

type_synonym equity_states = "int \<Rightarrow> equity_state option"

definition observe_group ::
  "text_case \<Rightarrow> contract_map \<Rightarrow> spread_pricing \<Rightarrow> spread_tracker \<Rightarrow> int \<Rightarrow> equity_states \<Rightarrow> spread_group
     \<Rightarrow> equity_states" where
  "observe_group tc m pricing st now states g =
     (if sg_spreads g = [] \<or> now < sg_open_time g then states
      else let e = sg_init g + spread_group_pnl tc m pricing st g;
               s = (case states (sg_id g) of Some s \<Rightarrow> s | None \<Rightarrow> new_equity_state)
           in states(sg_id g \<mapsto> observe (sg_init g) e s))"

definition observe_groups ::
  "text_case \<Rightarrow> contract_map \<Rightarrow> spread_pricing \<Rightarrow> spread_tracker \<Rightarrow> group_tracker \<Rightarrow> int \<Rightarrow> equity_states
     \<Rightarrow> equity_states" where
  "observe_groups tc m pricing st gt now states =
     foldl (observe_group tc m pricing st now) states (List.map_filter (gt_map gt) (gt_groups gt))"

text \<open>\<open>Snapshot\<close>: the highest and lowest equity and the largest drawdown of a group.\<close>

definition equity_snapshot :: "equity_states \<Rightarrow> int \<Rightarrow> (f64 \<times> f64 \<times> f64) option" where
  "equity_snapshot states sid =
     (case states sid of
        Some s \<Rightarrow> if eq_init s then Some (eq_high s, eq_low s, eq_drawdown s) else None
      | None \<Rightarrow> None)"

end
