(* ===== verification/Bt_Context.thy ===== *)
theory Bt_Context
  imports Bt_Spread Go_Format
begin

text \<open>
  The commands of a strategy: the order builder (\<open>internal/backtest/order_builder.go\<close>), the spread
  and scheduling commands of \<open>BarContext\<close> (\<open>context.go\<close>) and the choice of the option chain
  (\<open>AvailableContractsFor\<close> of \<open>options.go\<close>). The record \<open>engine\<close> is what a \<open>BarContext\<close> points to.
\<close>

section \<open>Scheduled actions\<close>

datatype action_type =
  ScheduleOpenSpread | ScheduleCloseLeg | ScheduleCloseSpread | ScheduleSecurityOrder | ScheduleOther int

datatype spread_order_type = SpreadOrderMarket | SpreadOrderLimit | SpreadOrderStop | SpreadOrderOther int

record action =
  ac_time :: int
  ac_bar :: int
  ac_spread :: int
  ac_leg :: int
  ac_type :: action_type
  ac_order :: order
  ac_order_type :: spread_order_type
  ac_side :: side
  ac_price :: f64
  ac_slippage :: f64
  ac_open_legs :: "leg list"
  ac_open_tag :: string
  ac_open_ref :: string
  ac_open_group :: int
  ac_reason :: string
  ac_data :: custom_data

definition zero_ref :: secref where
  "zero_ref = \<lparr>sr_market = [], sr_symbol = [], sr_interval = [], sr_index = 0\<rparr>"

definition zero_order :: order where
  "zero_order =
     \<lparr>o_id = 0, o_entry = [], o_reduce = False, o_sec = zero_ref, o_side = OtherSide 0,
      o_type = MarketOrder, o_note = [], o_qty = 0, o_notional = 0, o_price = 0, o_stop = 0,
      o_twap = 0, o_bar = 0, o_time = zero_time\<rparr>"

definition zero_action :: action where
  "zero_action =
     \<lparr>ac_time = zero_time, ac_bar = 0, ac_spread = 0, ac_leg = 0, ac_type = ScheduleOpenSpread,
      ac_order = zero_order, ac_order_type = SpreadOrderMarket, ac_side = OtherSide 0, ac_price = 0,
      ac_slippage = 0, ac_open_legs = [], ac_open_tag = [], ac_open_ref = [], ac_open_group = 0,
      ac_reason = [], ac_data = []\<rparr>"

text \<open>\<open>triggeredByBar\<close> of \<open>replayer.go\<close>: whether a bar triggers an action.\<close>

definition triggered_by_bar :: "action \<Rightarrow> f64 \<Rightarrow> f64 \<Rightarrow> f64 \<Rightarrow> bool" where
  "triggered_by_bar a opn high low =
     (if ac_order_type a = SpreadOrderMarket then True
      else if is_nan (ac_price a) \<or> ac_price a \<le> 0 then False
      else let low = (if is_nan low then opn else low);
               high = (if is_nan high then opn else high);
               s = (if ac_side a \<noteq> Buy \<and> ac_side a \<noteq> Sell then Buy else ac_side a)
           in if is_nan low \<or> is_nan high then False
              else (case ac_order_type a of
                      SpreadOrderStop \<Rightarrow> if s = Buy then ac_price a \<le> high else low \<le> ac_price a
                    | SpreadOrderLimit \<Rightarrow> if s = Buy then low \<le> ac_price a else ac_price a \<le> high
                    | _ \<Rightarrow> False))"

section \<open>The environment and the engine\<close>

text \<open>
  The provider of option chains is an interface; \<open>pv_lookup\<close> is present when it also implements
  the look-up by market and underlying.
\<close>

record provider =
  pv_all :: "int \<Rightarrow> contract list"
  pv_lookup :: "(int \<Rightarrow> string \<Rightarrow> string \<Rightarrow> contract list) option"

record environment =
  ev_case :: text_case
  ev_provider :: "provider option"

record engine =
  en_broker :: broker
  en_spreads :: spread_tracker
  en_groups :: group_tracker
  en_actions :: "action list"
  en_bar :: int
  en_time :: int

definition available_contracts_for ::
  "text_case \<Rightarrow> provider option \<Rightarrow> int \<Rightarrow> string \<Rightarrow> string \<Rightarrow> contract list" where
  "available_contracts_for tc pv t market underlying =
     (case pv of
        None \<Rightarrow> []
      | Some p \<Rightarrow>
          (case pv_lookup p of
             Some f \<Rightarrow> f t market underlying
           | None \<Rightarrow>
               let cs = pv_all p t;
                   any_market = (trim_space market = []); any_under = (trim_space underlying = []);
                   scoped = (\<exists>c \<in> set cs. chain_market c \<noteq> [] \<or> chain_underlying c \<noteq> []);
                   fs = filter (\<lambda>c. (any_market \<or> chain_market_matches tc (chain_market c) market)
                          \<and> (any_under \<or> equal_fold (tc_fold tc) (chain_underlying c) underlying)) cs
               in if any_market \<and> any_under then cs
                  else if fs = [] \<and> \<not> scoped \<and> any_market then cs else fs))"

section \<open>The order builder\<close>

record order_builder =
  ob_security :: secref
  ob_side :: side
  ob_qty :: f64
  ob_notional :: f64
  ob_note :: string
  ob_entry :: string
  ob_reduce :: bool
  ob_type :: order_type
  ob_price :: f64
  ob_stop :: f64
  ob_twap :: int
  ob_immediate :: bool

definition new_order_builder :: "secref \<Rightarrow> order_builder" where
  "new_order_builder r =
     \<lparr>ob_security = r, ob_side = OtherSide 0, ob_qty = 0, ob_notional = 0, ob_note = [],
      ob_entry = [], ob_reduce = False, ob_type = MarketOrder, ob_price = 0, ob_stop = 0,
      ob_twap = 0, ob_immediate = False\<rparr>"

definition with_limit :: "f64 \<Rightarrow> order_builder \<Rightarrow> order_builder" where
  "with_limit price ob = ob\<lparr>ob_type := LimitOrder, ob_price := price\<rparr>"

definition with_stop :: "f64 \<Rightarrow> order_builder \<Rightarrow> order_builder" where
  "with_stop stop ob = ob\<lparr>ob_type := StopOrder, ob_stop := stop\<rparr>"

definition with_stop_limit :: "f64 \<Rightarrow> f64 \<Rightarrow> order_builder \<Rightarrow> order_builder" where
  "with_stop_limit stop price ob = ob\<lparr>ob_type := StopLimitOrder, ob_stop := stop, ob_price := price\<rparr>"

definition with_twap :: "int \<Rightarrow> order_builder \<Rightarrow> order_builder" where
  "with_twap bars ob =
     (if bars \<le> 1 then ob\<lparr>ob_type := MarketOrder, ob_twap := 0\<rparr>
      else ob\<lparr>ob_type := TWAPMarketOrder, ob_twap := bars\<rparr>)"

definition built_order :: "order_builder \<Rightarrow> engine \<Rightarrow> order" where
  "built_order ob en =
     \<lparr>o_id = 0, o_entry = ob_entry ob, o_reduce = ob_reduce ob, o_sec = ob_security ob,
      o_side = ob_side ob, o_type = ob_type ob, o_note = ob_note ob, o_qty = ob_qty ob,
      o_notional = ob_notional ob, o_price = ob_price ob, o_stop = ob_stop ob, o_twap = ob_twap ob,
      o_bar = en_bar en, o_time = en_time en\<rparr>"

text \<open>\<open>Submit\<close>: the number of the order, or 1 or 0 for an immediate order.\<close>

definition submit :: "environment \<Rightarrow> order_builder \<Rightarrow> engine \<Rightarrow> int \<times> engine" where
  "submit ev ob en =
     (let od = built_order ob en
      in if ob_immediate ob
         then (let (r, b) = execute_order_at_close_now (tc_fold (ev_case ev)) od (en_bar en) (en_time en)
                              (en_broker en)
               in (if r = None then 0 else 1, en\<lparr>en_broker := b\<rparr>))
         else let (n, b) = submit_order od (en_broker en) in (n, en\<lparr>en_broker := b\<rparr>))"

definition submit_now :: "environment \<Rightarrow> order_builder \<Rightarrow> engine \<Rightarrow> bool \<times> engine" where
  "submit_now ev ob en = (let (n, en) = submit ev (ob\<lparr>ob_immediate := True\<rparr>) en in (n \<noteq> 0, en))"

section \<open>Trading commands\<close>

definition market_order :: "secref \<Rightarrow> side \<Rightarrow> f64 \<Rightarrow> string \<Rightarrow> order_builder" where
  "market_order r s qty note =
     (new_order_builder r)\<lparr>ob_side := s, ob_qty := qty, ob_note := note\<rparr>"

definition buy_with_note :: "environment \<Rightarrow> secref \<Rightarrow> f64 \<Rightarrow> string \<Rightarrow> engine \<Rightarrow> engine" where
  "buy_with_note ev r qty note en = snd (submit ev (market_order r Buy qty note) en)"

definition sell_with_note :: "environment \<Rightarrow> secref \<Rightarrow> f64 \<Rightarrow> string \<Rightarrow> engine \<Rightarrow> engine" where
  "sell_with_note ev r qty note en = snd (submit ev (market_order r Sell qty note) en)"

definition now_with_note :: "environment \<Rightarrow> side \<Rightarrow> secref \<Rightarrow> f64 \<Rightarrow> string \<Rightarrow> engine \<Rightarrow> bool \<times> engine" where
  "now_with_note ev s r qty note en =
     (if qty \<le> 0 then (False, en) else submit_now ev (market_order r s qty note) en)"

definition close_position :: "environment \<Rightarrow> secref \<Rightarrow> engine \<Rightarrow> engine" where
  "close_position ev r en =
     (let q = p_qty (tracker_get (br_positions (en_broker en)) r)
      in if 0 < q then sell_with_note ev r q [] en
         else if q < 0 then buy_with_note ev r (- q) [] en else en)"

definition close_position_twap :: "environment \<Rightarrow> secref \<Rightarrow> int \<Rightarrow> engine \<Rightarrow> engine" where
  "close_position_twap ev r bars en =
     (let q = p_qty (tracker_get (br_positions (en_broker en)) r)
      in if 0 < q then snd (submit ev (with_twap bars (market_order r Sell q [])) en)
         else if q < 0 then snd (submit ev (with_twap bars (market_order r Buy (- q) [])) en) else en)"

definition close_entry :: "environment \<Rightarrow> secref \<Rightarrow> string \<Rightarrow> engine \<Rightarrow> bool \<times> engine" where
  "close_entry ev r entry en =
     (let q = p_qty (entry_position (en_broker en) r entry)
      in if feq q 0 then (False, en)
         else let ob = (market_order r (if 0 < q then Sell else Buy) (go_abs q) (''exit:'' @ entry))
                         \<lparr>ob_entry := entry, ob_reduce := True\<rparr>;
                  (n, en) = submit ev ob en
              in (n \<noteq> 0, en))"

definition stop_order :: "secref \<Rightarrow> side \<Rightarrow> f64 \<Rightarrow> f64 \<Rightarrow> string \<Rightarrow> engine \<Rightarrow> order" where
  "stop_order r s qty stop note en =
     zero_order\<lparr>o_sec := r, o_side := s, o_type := StopOrder, o_note := note, o_qty := qty,
       o_stop := stop, o_bar := en_bar en, o_time := en_time en\<rparr>"

definition close_position_stop_now ::
  "environment \<Rightarrow> secref \<Rightarrow> f64 \<Rightarrow> f64 \<Rightarrow> string \<Rightarrow> engine \<Rightarrow> bool \<times> engine" where
  "close_position_stop_now ev r stop extra note en =
     (let q = p_qty (tracker_get (br_positions (en_broker en)) r);
          exec = (\<lambda>od. let (t, b) = execute_stop_order_now (tc_fold (ev_case ev)) od (en_bar en)
                                      (en_time en) extra (en_broker en)
                       in (t \<noteq> None, en\<lparr>en_broker := b\<rparr>))
      in if 0 < q then exec (stop_order r Sell q stop note en)
         else if q < 0 then exec (stop_order r Buy (- q) stop note en)
         else (False, en))"

definition cancel_pending :: "secref \<Rightarrow> engine \<Rightarrow> engine" where
  "cancel_pending r en = en\<lparr>en_broker := cancel_orders r (en_broker en)\<rparr>"

section \<open>Spread commands\<close>

definition adjust :: "f64 \<Rightarrow> engine \<Rightarrow> engine" where
  "adjust amount en = en\<lparr>en_broker := adjust_cash amount (en_broker en)\<rparr>"

definition spread_leg_commission :: "environment \<Rightarrow> engine \<Rightarrow> leg \<Rightarrow> f64 \<Rightarrow> f64" where
  "spread_leg_commission ev en l price =
     calc_commission_for_notional (br_config (en_broker en)) (lg_qty l) price
       (leg_notional (ev_case ev) l price)"

definition with_entry_delta :: "environment \<Rightarrow> custom_data \<Rightarrow> contract \<Rightarrow> custom_data" where
  "with_entry_delta ev items c =
     (if is_nan (oc_delta c) \<or> is_inf (oc_delta c) then items
      else upsert_custom_data items ''entry_delta'' (format_fixed 4 (oc_delta c)))"

definition prepare_leg :: "environment \<Rightarrow> engine \<Rightarrow> leg \<Rightarrow> leg" where
  "prepare_leg ev en l =
     l\<lparr>lg_entry_time := en_time en,
       lg_entry_commission := spread_leg_commission ev en l (lg_entry_price l),
       lg_entry_data := with_entry_delta ev (lg_entry_data l) (lg_contract l)\<rparr>"

definition open_leg_cash :: "environment \<Rightarrow> engine \<Rightarrow> leg \<Rightarrow> engine" where
  "open_leg_cash ev en l =
     (let amount = leg_notional (ev_case ev) l (lg_entry_price l)
      in if lg_side l = Sell then adjust (amount - lg_entry_commission l) en
         else adjust (- (amount + lg_entry_commission l)) en)"

definition open_cash :: "environment \<Rightarrow> leg list \<Rightarrow> engine \<Rightarrow> engine" where
  "open_cash ev legs en = foldl (open_leg_cash ev) en legs"

definition close_leg_cash :: "environment \<Rightarrow> leg \<Rightarrow> f64 \<Rightarrow> engine \<Rightarrow> engine" where
  "close_leg_cash ev l price en =
     (let amount = leg_notional (ev_case ev) l price;
          commission = spread_leg_commission ev en l price
      in if lg_side l = Sell then adjust (- (amount + commission)) en
         else adjust (amount - commission) en)"

definition open_spread ::
  "environment \<Rightarrow> leg list \<Rightarrow> string \<Rightarrow> string \<Rightarrow> engine \<Rightarrow> int \<times> engine" where
  "open_spread ev legs tag ref en =
     (let ls = map (prepare_leg ev en) legs;
          en = open_cash ev ls en;
          (n, st) = open_with_ref ls (en_time en) (en_bar en) tag ref (en_spreads en)
      in (n, en\<lparr>en_spreads := st\<rparr>))"

definition open_spread_in_group ::
  "environment \<Rightarrow> leg list \<Rightarrow> string \<Rightarrow> string \<Rightarrow> int \<Rightarrow> engine \<Rightarrow> int \<times> engine" where
  "open_spread_in_group ev legs tag ref gid en =
     (let ls = map (prepare_leg ev en) legs;
          en = open_cash ev ls en;
          (n, st) = open_full ls (en_time en) (en_bar en) tag ref gid (en_spreads en);
          en = en\<lparr>en_spreads := st\<rparr>
      in (n, if 0 < n \<and> 0 < gid then en\<lparr>en_groups := add_spread gid n (en_groups en)\<rparr> else en))"

definition append_spread_legs :: "environment \<Rightarrow> int \<Rightarrow> leg list \<Rightarrow> engine \<Rightarrow> bool \<times> engine" where
  "append_spread_legs ev sid legs en =
     (if legs = [] then (False, en)
      else case st_map (en_spreads en) sid of
             None \<Rightarrow> (False, en)
           | Some sp \<Rightarrow>
               if fully_closed sp then (False, en)
               else let ls = map (\<lambda>l. (prepare_leg ev en l)\<lparr>lg_closed := False, lg_close_price := 0,
                                   lg_close_time := zero_time, lg_close_reason := [], lg_close_data := []\<rparr>) legs;
                        en = open_cash ev ls en
                    in (True, en\<lparr>en_spreads := set_legs sid sp (sp_legs sp @ ls) (en_spreads en)\<rparr>))"

definition with_close_delta :: "environment \<Rightarrow> engine \<Rightarrow> leg \<Rightarrow> custom_data \<Rightarrow> custom_data" where
  "with_close_delta ev en l items =
     (if ev_provider ev = None then items
      else let cs = available_contracts_for (ev_case ev) (ev_provider ev) (en_time en)
                      (chain_market (lg_contract l)) (chain_underlying (lg_contract l))
           in (case find (\<lambda>c. oc_symbol c = oc_symbol (lg_contract l)
                              \<and> \<not> is_nan (oc_delta c) \<and> \<not> is_inf (oc_delta c)) cs of
                 None \<Rightarrow> items
               | Some c \<Rightarrow> upsert_custom_data items ''close_delta'' (format_fixed 4 (oc_delta c))))"

text \<open>\<open>CloseSpreadLegWithReasonAndData\<close>.\<close>

definition close_spread_leg ::
  "environment \<Rightarrow> int \<Rightarrow> int \<Rightarrow> f64 \<Rightarrow> string \<Rightarrow> custom_data \<Rightarrow> engine \<Rightarrow> bool \<times> engine" where
  "close_spread_leg ev sid i price reason data en =
     (case st_map (en_spreads en) sid of
        None \<Rightarrow> (False, en)
      | Some sp \<Rightarrow>
          if i < 0 \<or> int (length (sp_legs sp)) \<le> i then (False, en)
          else let l = sp_legs sp ! nat i
               in if lg_closed l then (False, en)
                  else let commission = spread_leg_commission ev en l price;
                           en = close_leg_cash ev l price en;
                           data = with_close_delta ev en l data;
                           (ok, st) = close_leg_full sid i price commission (en_time en) reason data
                                        (en_spreads en)
                       in (ok, en\<lparr>en_spreads := st\<rparr>))"

definition close_spread_leg_stop_now ::
  "environment \<Rightarrow> f64 \<Rightarrow> f64 \<Rightarrow> f64 \<Rightarrow> int \<Rightarrow> int \<Rightarrow> f64 \<Rightarrow> f64 \<Rightarrow> f64 \<Rightarrow> string \<Rightarrow> engine \<Rightarrow> bool \<times> engine" where
  "close_spread_leg_stop_now ev opn high low sid i stop price extra reason en =
     (if is_nan stop \<or> stop \<le> 0 \<or> is_nan price \<or> price \<le> 0 then (False, en)
      else case st_map (en_spreads en) sid of
             None \<Rightarrow> (False, en)
           | Some sp \<Rightarrow>
               if i < 0 \<or> int (length (sp_legs sp)) \<le> i then (False, en)
               else let l = sp_legs sp ! nat i; s = (if lg_side l = Sell then Buy else Sell)
                    in if lg_closed l then (False, en)
                       else if \<not> triggered_by_bar (zero_action\<lparr>ac_order_type := SpreadOrderStop,
                                    ac_side := s, ac_price := stop\<rparr>) opn high low
                       then (False, en)
                       else close_spread_leg ev sid i
                              (apply_slippage_with_extra price s (c_slippage (br_config (en_broker en))) extra)
                              reason [] en)"

text \<open>The loop of \<open>CloseSpread\<close> reads the legs through the pointer, so it sees its own changes.\<close>

definition close_open_leg ::
  "environment \<Rightarrow> int \<Rightarrow> (contract \<Rightarrow> f64) \<Rightarrow> engine \<Rightarrow> nat \<Rightarrow> engine" where
  "close_open_leg ev sid price en i =
     (case st_map (en_spreads en) sid of
        None \<Rightarrow> en
      | Some sp \<Rightarrow>
          if lg_closed (sp_legs sp ! i) then en
          else snd (close_spread_leg ev sid (int i) (price (lg_contract (sp_legs sp ! i))) [] [] en))"

definition close_spread :: "environment \<Rightarrow> int \<Rightarrow> (contract \<Rightarrow> f64) \<Rightarrow> engine \<Rightarrow> engine" where
  "close_spread ev sid price en =
     (case st_map (en_spreads en) sid of
        None \<Rightarrow> en
      | Some sp \<Rightarrow> foldl (close_open_leg ev sid price) en [0..<length (sp_legs sp)])"

section \<open>Scheduling commands\<close>

definition schedule :: "action \<Rightarrow> engine \<Rightarrow> engine" where
  "schedule a en = en\<lparr>en_actions := en_actions en @ [a]\<rparr>"

definition schedule_close_leg_order ::
  "int \<Rightarrow> int \<Rightarrow> int \<Rightarrow> spread_order_type \<Rightarrow> side \<Rightarrow> f64 \<Rightarrow> f64 \<Rightarrow> string \<Rightarrow> engine \<Rightarrow> engine" where
  "schedule_close_leg_order time sid i ot s price slip reason =
     schedule (zero_action\<lparr>ac_time := time, ac_spread := sid, ac_leg := i, ac_type := ScheduleCloseLeg,
       ac_order_type := ot, ac_side := s, ac_price := price, ac_slippage := slip, ac_reason := reason\<rparr>)"

definition schedule_close_spread_order ::
  "int \<Rightarrow> int \<Rightarrow> spread_order_type \<Rightarrow> side \<Rightarrow> f64 \<Rightarrow> f64 \<Rightarrow> string \<Rightarrow> engine \<Rightarrow> engine" where
  "schedule_close_spread_order time sid ot s price slip reason =
     schedule (zero_action\<lparr>ac_time := time, ac_spread := sid, ac_leg := - 1,
       ac_type := ScheduleCloseSpread, ac_order_type := ot, ac_side := s, ac_price := price,
       ac_slippage := slip, ac_reason := reason\<rparr>)"

definition schedule_close_spread_after_bars :: "int \<Rightarrow> int \<Rightarrow> string \<Rightarrow> engine \<Rightarrow> engine" where
  "schedule_close_spread_after_bars n sid reason en =
     (if n \<le> 0 then en
      else schedule (zero_action\<lparr>ac_bar := en_bar en + n, ac_spread := sid, ac_leg := - 1,
             ac_type := ScheduleCloseSpread, ac_side := Sell, ac_price := FNaN, ac_reason := reason\<rparr>) en)"

definition schedule_close_leg_after_bars :: "int \<Rightarrow> int \<Rightarrow> int \<Rightarrow> engine \<Rightarrow> engine" where
  "schedule_close_leg_after_bars n sid i en =
     (if n \<le> 0 then en
      else schedule (zero_action\<lparr>ac_bar := en_bar en + n, ac_spread := sid, ac_leg := i,
             ac_type := ScheduleCloseLeg, ac_side := Sell, ac_price := FNaN\<rparr>) en)"

definition schedule_open_spread_order ::
  "int \<Rightarrow> leg list \<Rightarrow> string \<Rightarrow> string \<Rightarrow> spread_order_type \<Rightarrow> side \<Rightarrow> f64 \<Rightarrow> f64 \<Rightarrow> engine \<Rightarrow> engine" where
  "schedule_open_spread_order time legs tag ref ot s price slip =
     schedule (zero_action\<lparr>ac_time := time, ac_type := ScheduleOpenSpread, ac_order_type := ot,
       ac_side := s, ac_price := price, ac_slippage := slip, ac_open_legs := legs, ac_open_tag := tag,
       ac_open_ref := ref\<rparr>)"

definition schedule_open_spread_in_group ::
  "int \<Rightarrow> leg list \<Rightarrow> string \<Rightarrow> string \<Rightarrow> int \<Rightarrow> engine \<Rightarrow> engine" where
  "schedule_open_spread_in_group time legs tag ref gid =
     schedule (zero_action\<lparr>ac_time := time, ac_type := ScheduleOpenSpread, ac_side := Buy,
       ac_price := FNaN, ac_open_legs := legs, ac_open_tag := tag, ac_open_ref := ref,
       ac_open_group := gid\<rparr>)"

definition schedule_security_order :: "int \<Rightarrow> order \<Rightarrow> engine \<Rightarrow> engine" where
  "schedule_security_order time od =
     schedule (zero_action\<lparr>ac_time := time, ac_type := ScheduleSecurityOrder, ac_order := od\<rparr>)"

end
