(* ===== verification/Bt_Align.thy ===== *)
theory Bt_Align
  imports Go_Float64 Go_Strings
begin

text \<open>
  Columnar data sets and their alignment (\<open>internal/backtest/datafeed.go\<close>, \<open>series.go\<close>, the
  accessors of \<open>context.go\<close> and \<open>alignColumn\<close> of \<open>preload.go\<close>, with the window table of
  \<open>pkg/feeds/window.go\<close>). A \<open>time.Time\<close> is its instant and a \<open>time.Duration\<close> its length, both in
  nanoseconds as integers. A panic is \<open>None\<close>.
\<close>

section \<open>Data sets\<close>

record data_set =
  ds_times :: "int list"
  ds_columns :: "string \<Rightarrow> f64 list option"
  ds_len :: nat

definition new_data_set :: data_set where
  "new_data_set = \<lparr>ds_times = [], ds_columns = (\<lambda>_. None), ds_len = 0\<rparr>"

definition add_column :: "string \<Rightarrow> f64 list \<Rightarrow> data_set \<Rightarrow> data_set option" where
  "add_column name xs ds =
     (if 0 < ds_len ds \<and> length xs \<noteq> ds_len ds then None
      else Some (ds\<lparr>ds_columns := (ds_columns ds)(name \<mapsto> xs)\<rparr>))"

definition column :: "data_set \<Rightarrow> string \<Rightarrow> f64 list" where
  "column ds name = (case ds_columns ds name of Some xs \<Rightarrow> xs | None \<Rightarrow> [])"

definition set_timestamps :: "int list \<Rightarrow> data_set \<Rightarrow> data_set" where
  "set_timestamps ts ds = ds\<lparr>ds_times := ts, ds_len := length ts\<rparr>"

text \<open>
  A slice expression that reaches past the end of a column panics; its capacity is taken to be
  its length. \<open>keys\<close> are the column names in the order of the range.
\<close>

definition slice_list :: "nat \<Rightarrow> nat \<Rightarrow> 'a list \<Rightarrow> 'a list option" where
  "slice_list i j xs = (if j \<le> length xs then Some (take (j - i) (drop i xs)) else None)"

definition slice_data_set :: "int \<Rightarrow> int \<Rightarrow> string list \<Rightarrow> data_set \<Rightarrow> data_set option" where
  "slice_data_set start stop keys ds =
     (if start < 0 \<or> int (ds_len ds) < stop \<or> stop \<le> start then None
      else let i = nat start; j = nat stop
           in (case slice_list i j (ds_times ds) of
                 None \<Rightarrow> None
               | Some ts \<Rightarrow>
                   if \<exists>name \<in> set keys. slice_list i j (column ds name) = None then None
                   else Some \<lparr>ds_times = ts,
                              ds_columns = (\<lambda>name. Option.bind (ds_columns ds name) (slice_list i j)),
                              ds_len = j - i\<rparr>))"

section \<open>Intervals\<close>

definition minute_ns :: int where "minute_ns = 60000000000"

definition predefined_windows :: "(string \<times> int) list" where
  "predefined_windows =
     [(''1m'', minute_ns), (''5m'', 5 * minute_ns), (''15m'', 15 * minute_ns),
      (''30m'', 30 * minute_ns), (''1h'', 60 * minute_ns), (''2h'', 120 * minute_ns),
      (''3h'', 180 * minute_ns), (''4h'', 240 * minute_ns), (''6h'', 360 * minute_ns),
      (''8h'', 480 * minute_ns), (''12h'', 720 * minute_ns), (''1d'', 1440 * minute_ns)]"

text \<open>
  Lower-casing is written for ASCII letters; no other rune has the lower case of a letter that
  occurs in a label.
\<close>

definition to_lower :: "string \<Rightarrow> string" where
  "to_lower s = map ascii_lower s"

definition parse_window :: "string \<Rightarrow> (string \<times> int) option" where
  "parse_window label =
     (let l = trim_space (to_lower label) in find (\<lambda>w. fst w = l) predefined_windows)"

definition all_digits :: "string \<Rightarrow> bool" where
  "all_digits s = (s \<noteq> [] \<and> (\<forall>c \<in> set s. 48 \<le> byte c \<and> byte c \<le> 57))"

text \<open>\<open>time.ParseDuration\<close> of a digit string and \<open>m\<close>: an error when it overflows an \<open>int64\<close>.\<close>

definition parse_minutes :: "string \<Rightarrow> int option" where
  "parse_minutes ds =
     (let n = foldl (\<lambda>a c. a * 10 + (int (byte c) - 48)) 0 ds * minute_ns
      in if n \<le> 2 ^ 63 - 1 then Some n else None)"

definition parse_interval :: "string \<Rightarrow> int option" where
  "parse_interval interval =
     (if interval = [] then None
      else let normalized = to_lower (trim_space interval)
           in if normalized = [] then None
              else (case parse_window normalized of
                      Some w \<Rightarrow> Some (snd w)
                    | None \<Rightarrow> if all_digits normalized then parse_minutes normalized else None))"

section \<open>Alignment\<close>

text \<open>The loop of \<open>sort.Search\<close> on the interval from \<open>i\<close> to \<open>j\<close>.\<close>

function sort_search :: "(nat \<Rightarrow> bool) \<Rightarrow> nat \<Rightarrow> nat \<Rightarrow> nat" where
  "sort_search f i j =
     (if i < j
      then let h = (i + j) div 2
           in if f h then sort_search f i h else sort_search f (Suc h) j
      else i)"
  by pat_completeness auto
termination
  by (relation "measure (\<lambda>(_, i, j). j - i)") auto

declare sort_search.simps [simp del]

definition align_bar :: "int list \<Rightarrow> int \<Rightarrow> int \<Rightarrow> int \<Rightarrow> int" where
  "align_bar sec pd sd pt =
     (let target = pt + pd;
          j = int (sort_search (\<lambda>k. target < sec ! k + sd) 0 (length sec)) - 1
      in if j < 0 then - 1 else j)"

datatype align_result = AlignPanic | AlignError string string | Aligned "int list"

definition align_series :: "data_set \<Rightarrow> data_set \<Rightarrow> string \<Rightarrow> string \<Rightarrow> align_result" where
  "align_series primary secondary pint sint =
     (if ds_len secondary = 0 then Aligned (replicate (ds_len primary) (- 1))
      else case (parse_interval pint, parse_interval sint) of
             (Some pd, Some sd) \<Rightarrow>
               if ds_len primary < length (ds_times primary) then AlignPanic
               else Aligned (map (align_bar (ds_times secondary) pd sd) (ds_times primary)
                      @ replicate (ds_len primary - length (ds_times primary)) 0)
           | _ \<Rightarrow> AlignError pint sint)"

definition align_column :: "f64 list \<Rightarrow> int list \<Rightarrow> nat \<Rightarrow> f64 list" where
  "align_column col mp n =
     map (\<lambda>i. let mapped = (if i < length mp then mp ! i else - 1)
              in if mapped < 0 \<or> int (length col) \<le> mapped then FNaN else col ! nat mapped) [0..<n]"

section \<open>Access to a series from the current bar\<close>

record accessor =
  sa_data :: "string \<Rightarrow> f64 list option"
  sa_align :: "int list option"
  sa_bar :: int

definition resolve_index :: "accessor \<Rightarrow> int \<Rightarrow> int" where
  "resolve_index sa ago =
     (case sa_align sa of
        None \<Rightarrow> (let idx = sa_bar sa - ago in if idx < 0 then - 1 else idx)
      | Some mp \<Rightarrow>
          (let i = sa_bar sa - ago
           in if i < 0 \<or> int (length mp) \<le> i then - 1 else mp ! nat i))"

definition field_at :: "accessor \<Rightarrow> string \<Rightarrow> int \<Rightarrow> f64" where
  "field_at sa name ago =
     (let idx = resolve_index sa ago
      in if idx < 0 then FNaN
         else case sa_data sa name of
                Some col \<Rightarrow> if idx < int (length col) then col ! nat idx else FNaN
              | None \<Rightarrow> FNaN)"

definition field :: "accessor \<Rightarrow> string \<Rightarrow> f64" where
  "field sa name = field_at sa name 0"

definition primary_field_at :: "(string \<Rightarrow> f64 list option) \<Rightarrow> int \<Rightarrow> string \<Rightarrow> int \<Rightarrow> f64" where
  "primary_field_at primary bar name ago =
     (let idx = bar - ago
      in if idx < 0 then FNaN
         else case primary name of
                Some col \<Rightarrow> if idx < int (length col) then col ! nat idx else FNaN
              | None \<Rightarrow> FNaN)"

end
