(* ===== verification/Bt_Replay.thy ===== *)
theory Bt_Replay
  imports Bt_Context Bt_Align
begin

text \<open>
  The replay of a backtest (\<open>internal/backtest/replayer.go\<close>) and the valuation of option legs
  (\<open>valuation_runtime.go\<close>). A strategy is a parameter: a function of what it can read at a bar, of
  its own state and of the engine its commands act on.
\<close>

section \<open>Warnings\<close>

text \<open>
  The time of a warning is a pointer. Most warnings point to a copy of the time of their bar; the
  warning of a failed opening points to the field \<open>barTime\<close> of the context, which moves on.
\<close>

datatype stamp = StampAt int | StampBarTime

record warning =
  wn_code :: string
  wn_message :: string
  wn_bar :: int
  wn_stamp :: stamp
  wn_spread :: "int option"
  wn_leg :: int
  wn_symbol :: string
  wn_policy :: string
  wn_price :: "f64 option"
  wn_source :: "string option"

definition stamp_time :: "int \<Rightarrow> stamp \<Rightarrow> int" where
  "stamp_time bar_time s = (case s of StampAt t \<Rightarrow> t | StampBarTime \<Rightarrow> bar_time)"

text \<open>\<open>Details[''price'']\<close> is kept as the number it is the text of.\<close>

definition valuation_warning ::
  "string \<Rightarrow> string \<Rightarrow> int \<Rightarrow> int \<Rightarrow> int \<Rightarrow> int \<Rightarrow> string \<Rightarrow> string \<Rightarrow> f64 \<Rightarrow> warning" where
  "valuation_warning code msg bar time sid i symbol policy price =
     \<lparr>wn_code = code, wn_message = msg, wn_bar = bar, wn_stamp = StampAt time, wn_spread = Some sid,
      wn_leg = i, wn_symbol = symbol, wn_policy = policy,
      wn_price = (if \<not> is_nan price \<and> \<not> is_inf price then Some price else None), wn_source = None\<rparr>"

definition expiry_close_warning ::
  "int \<Rightarrow> int \<Rightarrow> int \<Rightarrow> int \<Rightarrow> string \<Rightarrow> string \<Rightarrow> f64 \<Rightarrow> warning" where
  "expiry_close_warning bar time sid i symbol source price =
     (valuation_warning ''options.expiry_auto_close''
        ''option leg expired and was force-closed by the engine'' bar time sid i symbol
        ''expiry_auto_close'' price)\<lparr>wn_source := Some source\<rparr>"

definition open_warning :: "int \<Rightarrow> int \<Rightarrow> string \<Rightarrow> warning" where
  "open_warning bar i symbol =
     \<lparr>wn_code = ''spread.open_invalid_entry_price'',
      wn_message = ''scheduled spread leg open skipped because entry price was invalid'',
      wn_bar = bar, wn_stamp = StampBarTime, wn_spread = None, wn_leg = i, wn_symbol = symbol,
      wn_policy = [], wn_price = None, wn_source = None\<rparr>"

section \<open>Valuation of legs\<close>

record valuation =
  vl_policy :: string
  vl_last :: "string \<Rightarrow> f64 option"
  vl_warns :: "warning list"

text \<open>\<open>normalized\<close> maps every policy to carry-forward.\<close>

definition normalized_policy :: "string \<Rightarrow> string" where
  "normalized_policy p = ''carry_forward''"

definition new_valuation :: "string \<Rightarrow> valuation" where
  "new_valuation p = \<lparr>vl_policy = normalized_policy p, vl_last = (\<lambda>_. None), vl_warns = []\<rparr>"

definition add_warning :: "warning \<Rightarrow> valuation \<Rightarrow> valuation" where
  "add_warning w vl = vl\<lparr>vl_warns := vl_warns vl @ [w]\<rparr>"

definition remember :: "string \<Rightarrow> f64 \<Rightarrow> valuation \<Rightarrow> valuation" where
  "remember key price vl = vl\<lparr>vl_last := (vl_last vl)(key \<mapsto> price)\<rparr>"

definition spread_leg_key :: "int \<Rightarrow> int \<Rightarrow> leg \<Rightarrow> string" where
  "spread_leg_key sid i l =
     (let s = trim_space (oc_symbol (lg_contract l));
          symbol = (if s = [] then ''spread:'' @ itoa sid @ '':leg:'' @ itoa i else s)
      in itoa sid @ ''|'' @ itoa i @ ''|'' @ symbol)"

definition mark_price ::
  "int \<Rightarrow> int \<Rightarrow> leg \<Rightarrow> contract \<Rightarrow> option_price_mode \<Rightarrow> int \<Rightarrow> int \<Rightarrow> valuation \<Rightarrow> f64 \<times> valuation" where
  "mark_price sid i l c mode bar time vl =
     (let key = spread_leg_key sid i l;
          price = option_exit_price mode (lg_side l) c;
          warn = (\<lambda>code msg p. add_warning
                    (valuation_warning code msg bar time sid i (oc_symbol c) (vl_policy vl) p))
      in if option_price_valid price then (price, remember key price vl)
         else case (case vl_last vl key of Some p \<Rightarrow> if option_price_valid p then Some p else None
                    | None \<Rightarrow> None) of
                Some p \<Rightarrow>
                  (p, warn ''valuation.carry_forward''
                        ''option mark missing; using last valid price'' p vl)
              | None \<Rightarrow>
                  if option_price_valid (lg_entry_price l)
                  then (lg_entry_price l,
                        warn ''valuation.entry_seed''
                          ''option mark missing and no carried price exists; seeding valuation from entry price''
                          (lg_entry_price l) (remember key (lg_entry_price l) vl))
                  else (0, warn ''valuation.carry_forward''
                             ''option mark missing and no valid fallback exists'' FNaN vl))"

definition expiry_price ::
  "int \<Rightarrow> int \<Rightarrow> leg \<Rightarrow> contract \<Rightarrow> option_price_mode \<Rightarrow> int \<Rightarrow> int \<Rightarrow> valuation
     \<Rightarrow> f64 \<times> string \<times> valuation" where
  "expiry_price sid i l c mode bar time vl =
     (let key = spread_leg_key sid i l;
          price = option_exit_price mode (lg_side l) c;
          intrinsic = option_intrinsic_value c
      in if option_price_valid price then (price, ''quote'', remember key price vl)
         else if option_price_valid_or_zero intrinsic
         then (intrinsic, ''intrinsic'',
               remember key intrinsic (add_warning
                 (valuation_warning ''options.expiry_intrinsic_fallback''
                    ''option expired without valid quote; using intrinsic value'' bar time sid i
                    (oc_symbol c) (vl_policy vl) intrinsic) vl))
         else let (p, vl) = mark_price sid i l c mode bar time vl in (p, ''carry_forward'', vl))"

section \<open>Expired legs\<close>

definition leg_expired :: "int \<Rightarrow> leg \<Rightarrow> bool" where
  "leg_expired time l =
     (\<not> lg_closed l \<and> oc_expiration (lg_contract l) \<noteq> zero_time
      \<and> oc_expiration (lg_contract l) \<le> time)"

type_synonym valued_engine = "engine \<times> valuation"

definition force_close_leg ::
  "environment \<Rightarrow> contract_map \<Rightarrow> spread_pricing \<Rightarrow> int \<Rightarrow> valued_engine \<Rightarrow> nat \<Rightarrow> valued_engine" where
  "force_close_leg ev m pricing sid ev_st i =
     (let (en, vl) = ev_st
      in case st_map (en_spreads en) sid of
           None \<Rightarrow> (en, vl)
         | Some sp \<Rightarrow>
             let l = sp_legs sp ! i
             in if \<not> leg_expired (en_time en) l then (en, vl)
                else let c = resolve_spread_contract (ev_case ev) m (lg_contract l);
                         (price, source, vl) = expiry_price sid (int i) l c (pr_exit pricing)
                                                 (en_bar en) (en_time en) vl;
                         data = upsert_custom_data (upsert_custom_data []
                                  ''close_trigger_time'' (rfc3339_nano (en_time en)))
                                  ''close_source'' source;
                         (ok, en) = close_spread_leg ev sid (int i) price ''expiry_auto_close'' data en
                     in (en, if ok then add_warning (expiry_close_warning (en_bar en) (en_time en) sid
                                (int i) (oc_symbol c) source price) vl else vl))"

definition force_close_spread ::
  "environment \<Rightarrow> contract_map \<Rightarrow> spread_pricing \<Rightarrow> int \<Rightarrow> valued_engine \<Rightarrow> valued_engine" where
  "force_close_spread ev m pricing sid ev_st =
     (case st_map (en_spreads (fst ev_st)) sid of
        None \<Rightarrow> ev_st
      | Some sp \<Rightarrow> foldl (force_close_leg ev m pricing sid) ev_st [0..<length (sp_legs sp)])"

text \<open>
  The loop fixes the length of the slice when it starts and reads its elements from the backing
  array as it goes, while closing a spread shifts that array.
\<close>

definition force_close_nth ::
  "environment \<Rightarrow> contract_map \<Rightarrow> spread_pricing \<Rightarrow> valued_engine \<Rightarrow> nat \<Rightarrow> valued_engine" where
  "force_close_nth ev m pricing ev_st k =
     (let st = en_spreads (fst ev_st)
      in force_close_spread ev m pricing ((st_open st @ st_spare st) ! k) ev_st)"

definition force_close_expired ::
  "environment \<Rightarrow> contract_map \<Rightarrow> spread_pricing \<Rightarrow> valued_engine \<Rightarrow> valued_engine" where
  "force_close_expired ev m pricing ev_st =
     foldl (force_close_nth ev m pricing) ev_st [0..<length (st_open (en_spreads (fst ev_st)))]"

section \<open>The value of the open spreads\<close>

definition leg_market_value ::
  "environment \<Rightarrow> contract_map \<Rightarrow> spread_pricing \<Rightarrow> int \<Rightarrow> int \<Rightarrow> int \<Rightarrow> f64 \<times> valuation \<Rightarrow> nat \<times> leg
     \<Rightarrow> f64 \<times> valuation" where
  "leg_market_value ev m pricing bar time sid acc il =
     (let (total, vl) = acc; (i, l) = il
      in if lg_closed l then (total, vl)
         else let c = resolve_spread_contract (ev_case ev) m (lg_contract l);
                  (mark, vl) = mark_price sid (int i) l c (pr_valuation pricing) bar time vl;
                  notional = lg_qty l * mark * multiplier (ev_case ev) c
              in (if lg_side l = Buy then total + notional else total - notional, vl))"

definition spread_market_value ::
  "environment \<Rightarrow> contract_map \<Rightarrow> spread_pricing \<Rightarrow> engine \<Rightarrow> valuation \<Rightarrow> f64 \<times> valuation" where
  "spread_market_value ev m pricing en vl =
     foldl (\<lambda>acc sid. case st_map (en_spreads en) sid of
         None \<Rightarrow> acc
       | Some sp \<Rightarrow> foldl (leg_market_value ev m pricing (en_bar en) (en_time en) sid) acc
                      (List.enumerate 0 (sp_legs sp)))
       (0, vl) (st_open (en_spreads en))"

definition refresh_leg :: "text_case \<Rightarrow> contract_map \<Rightarrow> leg \<Rightarrow> leg" where
  "refresh_leg tc m l =
     (if lg_closed l then l
      else case first_contract m (contract_lookup_keys tc (lg_contract l)) of
             Some c \<Rightarrow> l\<lparr>lg_contract := c\<rparr>
           | None \<Rightarrow> l)"

definition refresh_open_spreads :: "text_case \<Rightarrow> contract_map \<Rightarrow> spread_tracker \<Rightarrow> spread_tracker" where
  "refresh_open_spreads tc m st =
     foldl (\<lambda>st sid. case st_map st sid of
         None \<Rightarrow> st
       | Some sp \<Rightarrow> set_legs sid sp (map (refresh_leg tc m) (sp_legs sp)) st)
       st (st_open st)"

section \<open>Scheduled actions\<close>

definition action_slippage :: "f64 \<Rightarrow> side \<Rightarrow> f64 \<Rightarrow> f64 \<Rightarrow> f64" where
  "action_slippage price s slip default_slip =
     (if is_nan price \<or> price \<le> 0 then price
      else let pct = (if slip \<le> 0 then default_slip else slip)
           in if pct \<le> 0 then price
              else let d = price * pct in if s = Buy then price + d else price - d)"

definition append_delta_note :: "string \<Rightarrow> string \<Rightarrow> f64 \<Rightarrow> string" where
  "append_delta_note base label delta =
     (if is_nan delta then base
      else let note = label @ ''Delta='' @ format_fixed 4 delta
           in if trim_space base = [] then note else base @ '' | '' @ note)"

definition scheduled_close_leg_fill ::
  "environment \<Rightarrow> contract_map \<Rightarrow> spread_pricing \<Rightarrow> f64 \<Rightarrow> action \<Rightarrow> leg
     \<Rightarrow> f64 \<times> string \<times> custom_data" where
  "scheduled_close_leg_fill ev m pricing default_slip a l =
     (let c = resolve_spread_contract (ev_case ev) m (lg_contract l);
          price = action_slippage (option_exit_price (pr_exit pricing) (lg_side l) c)
                    (exit_side (lg_side l)) (ac_slippage a) default_slip
      in (price, append_delta_note (ac_reason a) ''exec_'' (oc_delta c),
          upsert_custom_data (ac_data a) ''close_trigger_time'' (rfc3339_nano (ac_time a))))"

definition close_scheduled_leg ::
  "environment \<Rightarrow> contract_map \<Rightarrow> spread_pricing \<Rightarrow> action \<Rightarrow> int \<Rightarrow> engine \<Rightarrow> leg \<Rightarrow> engine" where
  "close_scheduled_leg ev m pricing a i en l =
     (let (price, reason, data) = scheduled_close_leg_fill ev m pricing
                                    (c_slippage (br_config (en_broker en))) a l
      in snd (close_spread_leg ev (ac_spread a) i price reason data en))"

definition close_scheduled_nth ::
  "environment \<Rightarrow> contract_map \<Rightarrow> spread_pricing \<Rightarrow> action \<Rightarrow> engine \<Rightarrow> nat \<Rightarrow> engine" where
  "close_scheduled_nth ev m pricing a en i =
     (case st_map (en_spreads en) (ac_spread a) of
        None \<Rightarrow> en
      | Some sp \<Rightarrow>
          if lg_closed (sp_legs sp ! i) then en
          else close_scheduled_leg ev m pricing a (int i) en (sp_legs sp ! i))"

text \<open>
  Pricing the legs of an opening: the legs and the tag, or the warning for the first leg without
  a valid price.
\<close>

fun price_open_legs ::
  "environment \<Rightarrow> contract_map \<Rightarrow> spread_pricing \<Rightarrow> f64 \<Rightarrow> engine \<Rightarrow> action \<Rightarrow> nat \<Rightarrow> leg list \<Rightarrow> string
     \<Rightarrow> warning + (leg list \<times> string)" where
  "price_open_legs ev m pricing default_slip en a i [] tag = Inr ([], tag)"
| "price_open_legs ev m pricing default_slip en a i (l # ls) tag =
     (let c = resolve_spread_contract (ev_case ev) m (lg_contract l);
          price = action_slippage (option_entry_price (pr_entry pricing) (lg_side l) c) (lg_side l)
                    (ac_slippage a) default_slip
      in if is_nan price \<or> price \<le> 0 then Inl (open_warning (en_bar en) (int i) (oc_symbol c))
         else case price_open_legs ev m pricing default_slip en a (Suc i) ls
                     (if i = 0 then append_delta_note tag ''exec_'' (oc_delta c) else tag) of
                Inl w \<Rightarrow> Inl w
              | Inr (rest, tag) \<Rightarrow>
                  Inr (l\<lparr>lg_contract := c, lg_entry_price := price, lg_entry_time := en_time en\<rparr> # rest,
                       tag))"

definition open_scheduled ::
  "environment \<Rightarrow> contract_map \<Rightarrow> spread_pricing \<Rightarrow> action \<Rightarrow> valued_engine \<Rightarrow> valued_engine" where
  "open_scheduled ev m pricing a ev_st =
     (let (en, vl) = ev_st
      in if ac_open_legs a = [] then (en, vl)
         else case price_open_legs ev m pricing (c_slippage (br_config (en_broker en))) en a 0
                     (ac_open_legs a) (ac_open_tag a) of
                Inl w \<Rightarrow> (en, add_warning w vl)
              | Inr (legs, tag) \<Rightarrow>
                  ((if 0 < ac_open_group a
                    then snd (open_spread_in_group ev legs tag (ac_open_ref a) (ac_open_group a) en)
                    else snd (open_spread ev legs tag (ac_open_ref a) en)), vl))"

text \<open>The switch on the type of a triggered action.\<close>

definition run_action ::
  "environment \<Rightarrow> contract_map \<Rightarrow> spread_pricing \<Rightarrow> action \<Rightarrow> valued_engine \<Rightarrow> valued_engine" where
  "run_action ev m pricing a ev_st =
     (let (en, vl) = ev_st
      in case ac_type a of
           ScheduleOpenSpread \<Rightarrow> open_scheduled ev m pricing a (en, vl)
         | ScheduleSecurityOrder \<Rightarrow>
             (if o_type (ac_order a) = MarketOrder
                 \<and> (0 < o_qty (ac_order a) \<or> 0 < o_notional (ac_order a))
              then en\<lparr>en_broker := snd (execute_order_now (tc_fold (ev_case ev)) (ac_order a) (en_bar en)
                                         (en_time en) (en_broker en))\<rparr>
              else en, vl)
         | ScheduleCloseLeg \<Rightarrow>
             (case st_map (en_spreads en) (ac_spread a) of
                None \<Rightarrow> (en, vl)
              | Some sp \<Rightarrow>
                  if 0 \<le> ac_leg a \<and> ac_leg a < int (length (sp_legs sp))
                     \<and> \<not> lg_closed (sp_legs sp ! nat (ac_leg a))
                  then (close_scheduled_leg ev m pricing a (ac_leg a) en (sp_legs sp ! nat (ac_leg a)), vl)
                  else (en, vl))
         | ScheduleCloseSpread \<Rightarrow>
             (case st_map (en_spreads en) (ac_spread a) of
                None \<Rightarrow> (en, vl)
              | Some sp \<Rightarrow>
                  if fully_closed sp then (en, vl)
                  else (foldl (close_scheduled_nth ev m pricing a) en [0..<length (sp_legs sp)], vl))
         | ScheduleOther _ \<Rightarrow> (en, vl))"

definition action_due :: "int \<Rightarrow> int \<Rightarrow> action \<Rightarrow> bool" where
  "action_due bar time a = (if ac_bar a \<le> 0 then ac_time a \<le> time else ac_bar a \<le> bar)"

text \<open>
  The loop over the actions: those that are not due or whose price is not reached remain. The
  prices are the open, the high and the low of the bar.
\<close>

fun process_actions ::
  "environment \<Rightarrow> contract_map \<Rightarrow> spread_pricing \<Rightarrow> f64 \<times> f64 \<times> f64 \<Rightarrow> action list \<Rightarrow> action list
     \<Rightarrow> valued_engine \<Rightarrow> valued_engine" where
  "process_actions ev m pricing prices [] remaining (en, vl) = (en\<lparr>en_actions := remaining\<rparr>, vl)"
| "process_actions ev m pricing prices (a # as) remaining (en, vl) =
     (if action_due (en_bar en) (en_time en) a
         \<and> triggered_by_bar a (fst prices) (fst (snd prices)) (snd (snd prices))
      then process_actions ev m pricing prices as remaining (run_action ev m pricing a (en, vl))
      else process_actions ev m pricing prices as (remaining @ [a]) (en, vl))"

section \<open>The prepared data and what a strategy reads of it\<close>

text \<open>
  The primary security is the first security. An alignment map of \<open>None\<close> is the nil map of a
  security with the resolution of the primary.
\<close>

record prepared =
  pd_times :: "int list"
  pd_columns :: "(string \<Rightarrow> f64 list option) list"
  pd_aligns :: "int list option list"
  pd_factor_columns :: "(string \<Rightarrow> f64 list option) list"
  pd_factor_aligns :: "int list option list"

text \<open>The price function the replay gives the broker; the eight columns default to NaN.\<close>

definition no_prices :: bar_prices where
  "no_prices =
     \<lparr>b_open = 0, b_high = 0, b_low = 0, b_close = 0, b_bid_open = 0, b_bid_close = 0,
      b_ask_open = 0, b_ask_close = 0\<rparr>"

definition column_at :: "(string \<Rightarrow> f64 list option) \<Rightarrow> int \<Rightarrow> string \<Rightarrow> f64" where
  "column_at cols i name =
     (case cols name of
        Some col \<Rightarrow> if i < int (length col) then col ! nat i else FNaN
      | None \<Rightarrow> FNaN)"

definition aligned_bar :: "int list option \<Rightarrow> int \<Rightarrow> int" where
  "aligned_bar mp bar =
     (case mp of
        Some mp \<Rightarrow> if 0 \<le> bar \<and> bar < int (length mp) then mp ! nat bar else bar
      | None \<Rightarrow> bar)"

definition price_at :: "prepared \<Rightarrow> int \<Rightarrow> price_func" where
  "price_at pd bar r =
     (let idx = sr_index r
      in if idx < 0 \<or> int (length (pd_columns pd)) \<le> idx then no_prices
         else let i = aligned_bar (pd_aligns pd ! nat idx) bar
              in if i < 0 then no_prices
                 else let v = column_at (pd_columns pd ! nat idx) i
                      in \<lparr>b_open = v ''open'', b_high = v ''high'', b_low = v ''low'',
                          b_close = v ''close'', b_bid_open = v ''bid_open'',
                          b_bid_close = v ''bid_close'', b_ask_open = v ''ask_open'',
                          b_ask_close = v ''ask_close''\<rparr>)"

text \<open>
  What a strategy reads at a bar: fields of the primary, of a security and of a factor a number
  of bars ago, and the times of the neighbouring bars.
\<close>

record bar_view =
  vw_field :: "string \<Rightarrow> int \<Rightarrow> f64"
  vw_security :: "int \<Rightarrow> string \<Rightarrow> int \<Rightarrow> f64"
  vw_factor :: "int \<Rightarrow> string \<Rightarrow> int \<Rightarrow> f64"
  vw_prev_time :: int
  vw_next_time :: int

definition no_accessor :: "int \<Rightarrow> accessor" where
  "no_accessor bar = \<lparr>sa_data = (\<lambda>_. None), sa_align = None, sa_bar = bar\<rparr>"

definition accessor_of ::
  "(string \<Rightarrow> f64 list option) list \<Rightarrow> int list option list \<Rightarrow> int \<Rightarrow> int \<Rightarrow> accessor" where
  "accessor_of cols aligns bar idx =
     (if 0 \<le> idx \<and> idx < int (length cols)
      then \<lparr>sa_data = cols ! nat idx, sa_align = aligns ! nat idx, sa_bar = bar\<rparr>
      else no_accessor bar)"

definition bar_time_at :: "int list \<Rightarrow> int \<Rightarrow> int" where
  "bar_time_at ts i = (if i < 0 \<or> int (length ts) \<le> i then zero_time else ts ! nat i)"

definition view_at :: "prepared \<Rightarrow> int \<Rightarrow> bar_view" where
  "view_at pd bar =
     \<lparr>vw_field = primary_field_at (hd (pd_columns pd)) bar,
      vw_security = (\<lambda>idx. field_at (accessor_of (pd_columns pd) (pd_aligns pd) bar idx)),
      vw_factor = (\<lambda>idx. field_at (accessor_of (pd_factor_columns pd) (pd_factor_aligns pd) bar idx)),
      vw_prev_time = bar_time_at (pd_times pd) (bar - 1),
      vw_next_time = bar_time_at (pd_times pd) (bar + 1)\<rparr>"

section \<open>The replay loop\<close>

type_synonym 's strategy = "bar_view \<Rightarrow> 's \<Rightarrow> engine \<Rightarrow> 's \<times> engine"

record 's replay =
  rp_engine :: engine
  rp_valuation :: valuation
  rp_strategy :: 's
  rp_equity :: "f64 list"
  rp_groups :: equity_states

definition start_replay :: "config \<Rightarrow> string \<Rightarrow> 's \<Rightarrow> 's replay" where
  "start_replay cfg policy s =
     \<lparr>rp_engine = \<lparr>en_broker = new_broker cfg, en_spreads = new_spread_tracker,
                    en_groups = new_group_tracker, en_actions = [], en_bar = 0, en_time = zero_time\<rparr>,
      rp_valuation = new_valuation policy, rp_strategy = s, rp_equity = [], rp_groups = (\<lambda>_. None)\<rparr>"

text \<open>The contracts known at a bar; without a provider the map is nil.\<close>

definition bar_contracts :: "environment \<Rightarrow> int \<Rightarrow> contract_map" where
  "bar_contracts ev time =
     (case ev_provider ev of
        None \<Rightarrow> (\<lambda>_. None)
      | Some p \<Rightarrow> contract_map_of (ev_case ev) (pv_all p time))"

text \<open>Before the strategy: time moves on, pending orders, contracts, scheduled actions.\<close>

definition begin_bar ::
  "environment \<Rightarrow> spread_pricing \<Rightarrow> prepared \<Rightarrow> int \<Rightarrow> int \<Rightarrow> valued_engine \<Rightarrow> valued_engine" where
  "begin_bar ev pricing pd bar time ev_st =
     (let (en, vl) = ev_st;
          en = en\<lparr>en_bar := bar, en_time := time,
                  en_broker := set_price_func (price_at pd bar) (en_broker en)\<rparr>;
          en = (if 0 < bar
                then en\<lparr>en_broker := snd (process_pending (tc_fold (ev_case ev)) bar time (en_broker en))\<rparr>
                else en);
          m = bar_contracts ev time;
          en = (if ev_provider ev = None then en
                else en\<lparr>en_spreads := refresh_open_spreads (ev_case ev) m (en_spreads en)\<rparr>);
          v = column_at (hd (pd_columns pd)) bar
      in process_actions ev m pricing (v ''open'', v ''high'', v ''low'') (en_actions en) [] (en, vl))"

text \<open>
  After the strategy: expired legs, the equity of the bar, the equity of the groups. \<open>refs\<close> is the
  order in which the map of positions is ranged over at a bar.
\<close>

definition end_bar ::
  "environment \<Rightarrow> spread_pricing \<Rightarrow> (int \<Rightarrow> secref list) \<Rightarrow> 's replay \<Rightarrow> 's replay" where
  "end_bar ev pricing refs rp =
     (let m = bar_contracts ev (en_time (rp_engine rp));
          (en, vl) = force_close_expired ev m pricing (rp_engine rp, rp_valuation rp);
          (value, vl) = spread_market_value ev m pricing en vl
      in rp\<lparr>rp_engine := en, rp_valuation := vl,
            rp_equity := rp_equity rp @ [equity (tc_fold (ev_case ev)) (refs (en_bar en)) (en_broker en) + value],
            rp_groups := observe_groups (ev_case ev) m pricing (en_spreads en) (en_groups en)
                           (en_time en) (rp_groups rp)\<rparr>)"

definition replay_bar ::
  "environment \<Rightarrow> spread_pricing \<Rightarrow> (int \<Rightarrow> secref list) \<Rightarrow> 's strategy \<Rightarrow> prepared \<Rightarrow> 's replay \<Rightarrow> nat
     \<Rightarrow> 's replay" where
  "replay_bar ev pricing refs on_bar pd rp i =
     (let bar = int i;
          (en, vl) = begin_bar ev pricing pd bar (pd_times pd ! i) (rp_engine rp, rp_valuation rp);
          (s, en) = on_bar (view_at pd bar) (rp_strategy rp) en
      in end_bar ev pricing refs (rp\<lparr>rp_engine := en, rp_valuation := vl, rp_strategy := s\<rparr>))"

definition replay_bars ::
  "environment \<Rightarrow> spread_pricing \<Rightarrow> (int \<Rightarrow> secref list) \<Rightarrow> 's strategy \<Rightarrow> prepared \<Rightarrow> 's replay \<Rightarrow> nat
     \<Rightarrow> 's replay" where
  "replay_bars ev pricing refs on_bar pd rp n = foldl (replay_bar ev pricing refs on_bar pd) rp [0..<n]"

text \<open>\<open>Replay\<close>: nothing when the context is cancelled before some bar.\<close>

definition replay ::
  "environment \<Rightarrow> config \<Rightarrow> string \<Rightarrow> spread_pricing \<Rightarrow> (int \<Rightarrow> secref list) \<Rightarrow> (nat \<Rightarrow> bool) \<Rightarrow> 's strategy \<Rightarrow> 's
     \<Rightarrow> prepared \<Rightarrow> 's replay option" where
  "replay ev cfg policy pricing refs cancelled on_bar s pd =
     (let n = length (pd_times pd)
      in if \<exists>i \<in> {0..<n}. cancelled i then None
         else Some (replay_bars ev pricing refs on_bar pd (start_replay cfg policy s) n))"

definition total_spread_fees :: "spread_tracker \<Rightarrow> f64" where
  "total_spread_fees st =
     foldl (\<lambda>t sid. case st_map st sid of None \<Rightarrow> t | Some sp \<Rightarrow> t + spread_fees sp) 0 (all_spreads st)"

end
