(* ===== verification/Bt_Indicators.thy ===== *)
theory Bt_Indicators
  imports Go_Float64 Go_Strings "HOL-Library.Char_ord" "HOL-Library.List_Lexorder"
begin

text \<open>
  The computation of the registered indicators in the order of their dependencies
  (\<open>resolveIndicators\<close> of \<open>internal/backtest/indicator.go\<close>). A registered map is its list of
  entries in the order of the range, which the language leaves open. An indicator is an interface
  and here a record of its methods; the result \<open>None\<close> of a computation is a panic.
\<close>

section \<open>Indicators\<close>

type_synonym series_map = "string \<Rightarrow> f64 list option"

text \<open>
  \<open>in_optional\<close> is empty when the indicator does not implement \<open>OptionalDeps\<close>. The outputs of an
  indicator are one series under its own name or, for a \<open>MultiIndicator\<close>, several named series.
\<close>

datatype computed = Single "f64 list" | Multi "(string \<times> f64 list) list"

record indicator =
  in_deps :: "string list"
  in_optional :: "string list"
  in_outputs :: "(string \<Rightarrow> string list) option"
  in_compute :: "string \<Rightarrow> series_map \<Rightarrow> computed option"

type_synonym registered = "(string \<times> indicator) list"

datatype resolve_error =
  OutputConflict string string string
| UnknownSeries string string
| IndicatorsPanicked "string list"
| DependencyCycle nat nat
| LevelsExhausted

section \<open>Validation of the outputs\<close>

definition output_names :: "string \<Rightarrow> indicator \<Rightarrow> string list" where
  "output_names n ind = (case in_outputs ind of None \<Rightarrow> [n] | Some f \<Rightarrow> f n)"

fun claim_outputs ::
  "string \<Rightarrow> string list \<Rightarrow> (string \<Rightarrow> string option) \<Rightarrow> resolve_error + (string \<Rightarrow> string option)" where
  "claim_outputs n [] owners = Inr owners"
| "claim_outputs n (x # xs) owners =
     (case owners x of
        Some previous \<Rightarrow> Inl (OutputConflict x n previous)
      | None \<Rightarrow> claim_outputs n xs (owners(x \<mapsto> ''indicator '' @ n)))"

fun claim_all ::
  "registered \<Rightarrow> (string \<Rightarrow> string option) \<Rightarrow> resolve_error + (string \<Rightarrow> string option)" where
  "claim_all [] owners = Inr owners"
| "claim_all ((n, ind) # r) owners =
     (case claim_outputs n (output_names n ind) owners of
        Inl e \<Rightarrow> Inl e
      | Inr owners \<Rightarrow> claim_all r owners)"

definition validate_outputs ::
  "registered \<Rightarrow> series_map \<Rightarrow> resolve_error + (string \<Rightarrow> string option)" where
  "validate_outputs reg data =
     claim_all (sort_key fst reg) (\<lambda>x. if data x = None then None else Some ''raw data'')"

section \<open>The dependency graph\<close>

record dep_graph =
  dg_degree :: "string \<Rightarrow> int"
  dg_dependents :: "string \<Rightarrow> string list"

definition empty_graph :: dep_graph where
  "empty_graph = \<lparr>dg_degree = (\<lambda>_. 0), dg_dependents = (\<lambda>_. [])\<rparr>"

definition add_edge :: "string \<Rightarrow> string \<Rightarrow> dep_graph \<Rightarrow> dep_graph" where
  "add_edge n dep g =
     \<lparr>dg_degree = (dg_degree g)(n := dg_degree g n + 1),
      dg_dependents = (dg_dependents g)(dep := dg_dependents g dep @ [n])\<rparr>"

definition is_registered :: "registered \<Rightarrow> string \<Rightarrow> bool" where
  "is_registered reg n = (map_of reg n \<noteq> None)"

fun add_deps ::
  "registered \<Rightarrow> series_map \<Rightarrow> string \<Rightarrow> string list \<Rightarrow> dep_graph \<Rightarrow> resolve_error + dep_graph" where
  "add_deps reg data n [] g = Inr g"
| "add_deps reg data n (d # ds) g =
     (if is_registered reg d then add_deps reg data n ds (add_edge n d g)
      else if data d = None then Inl (UnknownSeries n d)
      else add_deps reg data n ds g)"

definition add_optional :: "registered \<Rightarrow> string \<Rightarrow> string list \<Rightarrow> dep_graph \<Rightarrow> dep_graph" where
  "add_optional reg n ds g = foldl (\<lambda>g d. if is_registered reg d then add_edge n d g else g) g ds"

fun build_graph ::
  "registered \<Rightarrow> series_map \<Rightarrow> registered \<Rightarrow> dep_graph \<Rightarrow> resolve_error + dep_graph" where
  "build_graph reg data [] g = Inr g"
| "build_graph reg data ((n, ind) # r) g =
     (case add_deps reg data n (in_deps ind) g of
        Inl e \<Rightarrow> Inl e
      | Inr g \<Rightarrow> build_graph reg data r (add_optional reg n (in_optional ind) g))"

section \<open>One level\<close>

text \<open>
  The indicators of a level run concurrently and put their results into one map; \<open>seen n d\<close> is
  what the goroutine of \<open>n\<close> finds there when it looks for \<open>d\<close>, a name of the same level. \<open>len\<close> is
  the length of the column that the range in \<open>dataLen\<close> visits first.
\<close>

type_synonym schedule = "string \<Rightarrow> string \<Rightarrow> f64 list option"

definition available ::
  "schedule \<Rightarrow> string list \<Rightarrow> series_map \<Rightarrow> string \<Rightarrow> string \<Rightarrow> f64 list option" where
  "available seen level data n d =
     (case data d of
        Some col \<Rightarrow> Some col
      | None \<Rightarrow> if d \<in> set level then seen n d else None)"

definition gather_inputs ::
  "(series_map \<Rightarrow> nat) \<Rightarrow> schedule \<Rightarrow> string list \<Rightarrow> series_map \<Rightarrow> string \<Rightarrow> indicator \<Rightarrow> series_map" where
  "gather_inputs len seen level data n ind =
     (let m = foldl (\<lambda>m d. case available seen level data n d of Some col \<Rightarrow> m(d \<mapsto> col) | None \<Rightarrow> m)
                (\<lambda>_. None) (in_deps ind)
      in foldl (\<lambda>m d. m(d \<mapsto> (case available seen level data n d of Some col \<Rightarrow> col
                                 | None \<Rightarrow> replicate (len data) FNaN)))
           m (in_optional ind))"

definition level_results ::
  "(series_map \<Rightarrow> nat) \<Rightarrow> schedule \<Rightarrow> registered \<Rightarrow> series_map \<Rightarrow> string list
     \<Rightarrow> (string \<times> computed option) list" where
  "level_results len seen reg data level =
     map (\<lambda>n. case map_of reg n of
            None \<Rightarrow> (n, None)
          | Some ind \<Rightarrow> (n, in_compute ind n (gather_inputs len seen level data n ind))) level"

definition panicked :: "(string \<times> computed option) list \<Rightarrow> string list" where
  "panicked rs = map fst (filter (\<lambda>r. snd r = None) rs)"

definition merge_single :: "(string \<times> computed option) list \<Rightarrow> series_map \<Rightarrow> series_map" where
  "merge_single rs data =
     foldl (\<lambda>m r. case snd r of Some (Single col) \<Rightarrow> m(fst r \<mapsto> col) | _ \<Rightarrow> m) data rs"

definition merge_multi :: "(string \<times> computed option) list \<Rightarrow> series_map \<Rightarrow> series_map" where
  "merge_multi rs data =
     foldl (\<lambda>m r. case snd r of
         Some (Multi outs) \<Rightarrow> foldl (\<lambda>m (x, col). m(x \<mapsto> col)) m (sort_key fst outs)
       | _ \<Rightarrow> m) data rs"

definition release :: "string \<Rightarrow> dep_graph \<times> string list \<Rightarrow> dep_graph \<times> string list" where
  "release d gq =
     (let (g, q) = gq; k = dg_degree g d - 1
      in (g\<lparr>dg_degree := (dg_degree g)(d := k)\<rparr>, if k = 0 then q @ [d] else q))"

definition release_level :: "string list \<Rightarrow> dep_graph \<Rightarrow> dep_graph \<times> string list" where
  "release_level level g =
     foldl (\<lambda>gq n. foldl (\<lambda>gq d. release d gq) gq (dg_dependents g n)) (g, []) level"

section \<open>The loop over the levels\<close>

text \<open>
  A level is not empty and names of different levels are different, so there are at most as many
  levels as indicators; the first argument counts them down. \<open>LevelsExhausted\<close> is no error of the
  code: it is never returned.
\<close>

fun run_levels ::
  "nat \<Rightarrow> (series_map \<Rightarrow> nat) \<Rightarrow> (nat \<Rightarrow> schedule) \<Rightarrow> registered \<Rightarrow> dep_graph \<Rightarrow> string list \<Rightarrow> nat
     \<Rightarrow> series_map \<Rightarrow> resolve_error + series_map" where
  "run_levels k len seen reg g queue done data =
     (if queue = []
      then (if done = length reg then Inr data else Inl (DependencyCycle done (length reg)))
      else case k of
             0 \<Rightarrow> Inl LevelsExhausted
           | Suc k \<Rightarrow>
               let level = sort queue;
                   rs = level_results len (seen (Suc k)) reg data level;
                   (g, queue) = release_level level g
               in if panicked rs \<noteq> [] then Inl (IndicatorsPanicked (panicked rs))
                  else run_levels k len seen reg g queue (done + length level)
                         (merge_multi rs (merge_single rs data)))"

declare run_levels.simps [simp del]

definition resolve_indicators ::
  "(series_map \<Rightarrow> nat) \<Rightarrow> (nat \<Rightarrow> schedule) \<Rightarrow> registered \<Rightarrow> series_map \<Rightarrow> resolve_error + series_map" where
  "resolve_indicators len seen reg data =
     (case validate_outputs reg data of
        Inl e \<Rightarrow> Inl e
      | Inr _ \<Rightarrow>
          (case build_graph reg data reg empty_graph of
             Inl e \<Rightarrow> Inl e
           | Inr g \<Rightarrow>
               run_levels (length reg) len seen reg g
                 (map fst (filter (\<lambda>r. dg_degree g (fst r) = 0) reg)) 0 data))"

end
