(* ===== verification/Bt_Prepare.thy ===== *)
theory Bt_Prepare
  imports Bt_Replay Bt_Indicators
begin

text \<open>
  The setup of a strategy (\<open>SetupContext\<close> of \<open>internal/backtest/context.go\<close>) and the preparation
  of its data (\<open>preparer.go\<close>): loading, alignment, indicators and the cut of the warm-up. Data
  feeds are interfaces and parameters of the model; the goroutines of the loads are independent,
  so they are run in order.
\<close>

section \<open>The setup context\<close>

record factor_ref =
  fr_name :: string
  fr_interval :: string
  fr_mode :: string
  fr_market :: string
  fr_symbol :: string
  fr_index :: int

datatype param_value = ParamInt int | ParamFloat f64 | ParamBool bool | ParamString string

record setup_context =
  su_primary :: secref
  su_securities :: "(secref \<times> registered) list"
  su_factors :: "(factor_ref \<times> registered) list"
  su_params :: "string \<Rightarrow> param_value option"
  su_warmup :: int
  su_next_sec :: int
  su_next_fac :: int

definition new_setup :: "string \<Rightarrow> string \<Rightarrow> string \<Rightarrow> setup_context" where
  "new_setup market symbol interval =
     (let r = \<lparr>sr_market = market, sr_symbol = symbol, sr_interval = interval, sr_index = 0\<rparr>
      in \<lparr>su_primary = r, su_securities = [(r, [])], su_factors = [], su_params = (\<lambda>_. None),
          su_warmup = 0, su_next_sec = 1, su_next_fac = 0\<rparr>)"

definition add_security :: "string \<Rightarrow> string \<Rightarrow> string \<Rightarrow> setup_context \<Rightarrow> secref \<times> setup_context" where
  "add_security market symbol interval su =
     (let r = \<lparr>sr_market = market, sr_symbol = symbol, sr_interval = interval, sr_index = su_next_sec su\<rparr>
      in (r, su\<lparr>su_next_sec := su_next_sec su + 1, su_securities := su_securities su @ [(r, [])]\<rparr>))"

text \<open>An entry of a map of indicators: replaced in place or added.\<close>

definition put_indicator :: "string \<Rightarrow> indicator \<Rightarrow> registered \<Rightarrow> registered" where
  "put_indicator n ind reg =
     (if n \<in> fst ` set reg then map (\<lambda>(m, i). (m, if m = n then ind else i)) reg else reg @ [(n, ind)])"

definition register :: "string \<Rightarrow> indicator \<Rightarrow> setup_context \<Rightarrow> setup_context" where
  "register n ind su =
     (case su_securities su of
        [] \<Rightarrow> su
      | (r, inds) # rest \<Rightarrow> su\<lparr>su_securities := (r, put_indicator n ind inds) # rest\<rparr>)"

fun register_first :: "'r \<Rightarrow> string \<Rightarrow> indicator \<Rightarrow> ('r \<times> registered) list \<Rightarrow> ('r \<times> registered) list" where
  "register_first r n ind [] = []"
| "register_first r n ind ((r', inds) # rest) =
     (if r' = r then (r', put_indicator n ind inds) # rest else (r', inds) # register_first r n ind rest)"

definition register_on :: "secref \<Rightarrow> string \<Rightarrow> indicator \<Rightarrow> setup_context \<Rightarrow> setup_context" where
  "register_on r n ind su = su\<lparr>su_securities := register_first r n ind (su_securities su)\<rparr>"

definition add_symbol_factor ::
  "string \<Rightarrow> string \<Rightarrow> string \<Rightarrow> string \<Rightarrow> string \<Rightarrow> setup_context \<Rightarrow> factor_ref \<times> setup_context" where
  "add_symbol_factor name market symbol interval mode su =
     (let r = \<lparr>fr_name = name, fr_interval = interval, fr_mode = mode, fr_market = market,
               fr_symbol = symbol, fr_index = su_next_fac su\<rparr>
      in (r, su\<lparr>su_next_fac := su_next_fac su + 1, su_factors := su_factors su @ [(r, [])]\<rparr>))"

definition add_factor :: "string \<Rightarrow> string \<Rightarrow> setup_context \<Rightarrow> factor_ref \<times> setup_context" where
  "add_factor name interval su = add_symbol_factor name [] [] interval [] su"

definition register_factor :: "factor_ref \<Rightarrow> string \<Rightarrow> indicator \<Rightarrow> setup_context \<Rightarrow> setup_context" where
  "register_factor r n ind su = su\<lparr>su_factors := register_first r n ind (su_factors su)\<rparr>"

definition set_param :: "string \<Rightarrow> param_value \<Rightarrow> setup_context \<Rightarrow> setup_context" where
  "set_param name v su =
     (if su_params su name = None then su\<lparr>su_params := (su_params su)(name \<mapsto> v)\<rparr> else su)"

definition set_warmup :: "int \<Rightarrow> setup_context \<Rightarrow> setup_context" where
  "set_warmup d su = (if su_warmup su < d then su\<lparr>su_warmup := d\<rparr> else su)"

section \<open>Loading\<close>

record data_request =
  dr_market :: string
  dr_symbol :: string
  dr_interval :: string
  dr_from :: int
  dr_to :: int

record factor_request =
  fq_ref :: factor_ref
  fq_primary_market :: string
  fq_primary_symbol :: string
  fq_from :: int
  fq_to :: int

type_synonym data_feed = "data_request \<Rightarrow> string + data_set"
type_synonym factor_feed = "factor_request \<Rightarrow> string + data_set"
type_synonym data_cache = "data_request \<Rightarrow> data_set option"

datatype prepare_error =
  SetupFailed string | NoFeed string | LoadFailed string | NoData | AlignFailed string string
| IndicatorsFailed resolve_error | PreloadFailed string | NoBarsAfterStart | PreparePanic

definition clone :: "data_set \<Rightarrow> data_set" where
  "clone ds = ds\<lparr>ds_times := take (ds_len ds) (ds_times ds)
     @ replicate (ds_len ds - length (ds_times ds)) zero_time\<rparr>"

definition load_cached ::
  "data_feed \<Rightarrow> data_request \<Rightarrow> data_cache \<Rightarrow> (string + data_set) \<times> data_cache" where
  "load_cached feed req cache =
     (case cache req of
        Some ds \<Rightarrow> (Inr (clone ds), cache)
      | None \<Rightarrow>
          (case feed req of
             Inl e \<Rightarrow> (Inl e, cache)
           | Inr ds \<Rightarrow> (Inr (clone ds), cache(req \<mapsto> ds))))"

definition security_request :: "int \<Rightarrow> int \<Rightarrow> secref \<Rightarrow> data_request" where
  "security_request start stop r =
     \<lparr>dr_market = sr_market r, dr_symbol = sr_symbol r, dr_interval = sr_interval r,
      dr_from = start, dr_to = stop\<rparr>"

fun load_securities ::
  "(string \<Rightarrow> data_feed option) \<Rightarrow> int \<Rightarrow> int \<Rightarrow> secref list \<Rightarrow> data_cache
     \<Rightarrow> (prepare_error + data_set list) \<times> data_cache" where
  "load_securities feeds start stop [] cache = (Inr [], cache)"
| "load_securities feeds start stop (r # rs) cache =
     (case feeds (sr_market r) of
        None \<Rightarrow> (Inl (NoFeed (sr_market r)), cache)
      | Some feed \<Rightarrow>
          (case load_cached feed (security_request start stop r) cache of
             (Inl e, cache) \<Rightarrow> (Inl (LoadFailed e), cache)
           | (Inr ds, cache) \<Rightarrow>
               (case load_securities feeds start stop rs cache of
                  (Inl e, cache) \<Rightarrow> (Inl e, cache)
                | (Inr dss, cache) \<Rightarrow> (Inr (ds # dss), cache))))"

fun load_factors ::
  "(string \<Rightarrow> factor_feed option) \<Rightarrow> secref \<Rightarrow> int \<Rightarrow> int \<Rightarrow> factor_ref list
     \<Rightarrow> prepare_error + data_set list" where
  "load_factors feeds primary start stop [] = Inr []"
| "load_factors feeds primary start stop (r # rs) =
     (case feeds (fr_name r) of
        None \<Rightarrow> Inl (NoFeed (fr_name r))
      | Some feed \<Rightarrow>
          (case feed \<lparr>fq_ref = r, fq_primary_market = sr_market primary,
                      fq_primary_symbol = sr_symbol primary, fq_from = start, fq_to = stop\<rparr> of
             Inl e \<Rightarrow> Inl (LoadFailed e)
           | Inr ds \<Rightarrow>
               (case load_factors feeds primary start stop rs of
                  Inl e \<Rightarrow> Inl e
                | Inr dss \<Rightarrow> Inr (ds # dss))))"

section \<open>Alignment and indicators\<close>

text \<open>\<open>buildSecurityAlignMaps\<close> after its first entry, and \<open>buildFactorAlignMaps\<close>.\<close>

fun build_align_maps ::
  "data_set \<Rightarrow> string \<Rightarrow> (data_set \<times> string) list \<Rightarrow> prepare_error + int list list" where
  "build_align_maps primary pint [] = Inr []"
| "build_align_maps primary pint ((ds, sint) # rest) =
     (case align_series primary ds pint sint of
        AlignPanic \<Rightarrow> Inl PreparePanic
      | AlignError a b \<Rightarrow> Inl (AlignFailed a b)
      | Aligned mp \<Rightarrow>
          (case build_align_maps primary pint rest of
             Inl e \<Rightarrow> Inl e
           | Inr mps \<Rightarrow> Inr (mp # mps)))"

fun compute_indicators ::
  "(series_map \<Rightarrow> nat) \<Rightarrow> (nat \<Rightarrow> schedule) \<Rightarrow> (registered \<times> data_set) list
     \<Rightarrow> prepare_error + data_set list" where
  "compute_indicators len seen [] = Inr []"
| "compute_indicators len seen ((reg, ds) # rest) =
     (case (if reg = [] then Inr (ds_columns ds) else resolve_indicators len seen reg (ds_columns ds)) of
        Inl e \<Rightarrow> Inl (IndicatorsFailed e)
      | Inr cols \<Rightarrow>
          (case compute_indicators len seen rest of
             Inl e \<Rightarrow> Inl e
           | Inr dss \<Rightarrow> Inr (ds\<lparr>ds_columns := cols\<rparr> # dss)))"

text \<open>
  The prepared data: the primary, the other securities and the factors with their data sets and
  maps.
\<close>

definition assemble ::
  "data_set \<Rightarrow> (data_set \<times> int list) list \<Rightarrow> (data_set \<times> int list) list \<Rightarrow> prepared" where
  "assemble primary secs factors =
     \<lparr>pd_times = ds_times primary,
      pd_columns = ds_columns primary # map (ds_columns \<circ> fst) secs,
      pd_aligns = None # map (Some \<circ> snd) secs,
      pd_factor_columns = map (ds_columns \<circ> fst) factors,
      pd_factor_aligns = map (Some \<circ> snd) factors\<rparr>"

definition align_all ::
  "data_set \<Rightarrow> string \<Rightarrow> (data_set \<times> string) list \<Rightarrow> (data_set \<times> string) list
     \<Rightarrow> prepare_error + (int list list \<times> int list list)" where
  "align_all primary pint secs factors =
     (case build_align_maps primary pint secs of
        Inl e \<Rightarrow> Inl e
      | Inr smaps \<Rightarrow>
          (case build_align_maps primary pint factors of
             Inl e \<Rightarrow> Inl e
           | Inr fmaps \<Rightarrow> Inr (smaps, fmaps)))"

section \<open>The warm-up\<close>

definition start_bar :: "data_set \<Rightarrow> int \<Rightarrow> nat" where
  "start_bar ds start = length (takeWhile (\<lambda>t. t < start) (take (ds_len ds) (ds_times ds)))"

definition trim_primary :: "data_set \<Rightarrow> int \<Rightarrow> string list \<Rightarrow> prepare_error + data_set" where
  "trim_primary ds start keys =
     (let i = start_bar ds start
      in if ds_len ds \<le> i then Inl NoBarsAfterStart
         else if i = 0 then Inr ds
         else case slice_data_set (int i) (int (ds_len ds)) keys ds of
                None \<Rightarrow> Inl PreparePanic
              | Some ds \<Rightarrow> Inr ds)"

section \<open>\<open>Prepare\<close>\<close>

text \<open>
  The strategy is its \<open>Init\<close> and its optional \<open>Preload\<close>, a function on the data sets. \<open>keys\<close> are
  the column names of a data set in the order of the range.
\<close>

record source =
  so_feeds :: "string \<Rightarrow> data_feed option"
  so_factor_feeds :: "string \<Rightarrow> factor_feed option"
  so_len :: "series_map \<Rightarrow> nat"
  so_seen :: "nat \<Rightarrow> schedule"
  so_keys :: "data_set \<Rightarrow> string list"

type_synonym preload = "data_set list \<Rightarrow> data_set list \<Rightarrow> string + (data_set list \<times> data_set list)"

definition security_sets :: "setup_context \<Rightarrow> data_set list \<Rightarrow> (data_set \<times> string) list" where
  "security_sets su dss = zip (tl dss) (map (sr_interval \<circ> fst) (tl (su_securities su)))"

definition factor_sets :: "setup_context \<Rightarrow> data_set list \<Rightarrow> (data_set \<times> string) list" where
  "factor_sets su fdss = zip fdss (map (fr_interval \<circ> fst) (su_factors su))"

definition finish_prepare ::
  "source \<Rightarrow> int \<Rightarrow> setup_context \<Rightarrow> preload \<Rightarrow> data_set list \<Rightarrow> data_set list \<Rightarrow> int list list \<times> int list list
     \<Rightarrow> prepare_error + prepared" where
  "finish_prepare so start su pre dss fdss maps =
     (case compute_indicators (so_len so) (so_seen so) (zip (map snd (su_securities su)) dss) of
        Inl e \<Rightarrow> Inl e
      | Inr dss \<Rightarrow>
          (case compute_indicators (so_len so) (so_seen so) (zip (map snd (su_factors su)) fdss) of
             Inl e \<Rightarrow> Inl e
           | Inr fdss \<Rightarrow>
               (case pre dss fdss of
                  Inl e \<Rightarrow> Inl (PreloadFailed e)
                | Inr (dss, fdss) \<Rightarrow>
                    if su_warmup su \<le> 0
                    then Inr (assemble (hd dss) (zip (tl dss) (fst maps)) (zip fdss (snd maps)))
                    else (case trim_primary (hd dss) start (so_keys so (hd dss)) of
                            Inl e \<Rightarrow> Inl e
                          | Inr primary \<Rightarrow>
                              (case align_all primary (sr_interval (su_primary su))
                                      (security_sets su dss) (factor_sets su fdss) of
                                 Inl e \<Rightarrow> Inl e
                               | Inr (smaps, fmaps) \<Rightarrow>
                                   Inr (assemble primary (zip (tl dss) smaps) (zip fdss fmaps)))))))"

text \<open>The primary is loaded first; then the other securities, their maps, the factors, their maps.\<close>

definition prepare_loaded ::
  "source \<Rightarrow> int \<Rightarrow> int \<Rightarrow> int \<Rightarrow> setup_context \<Rightarrow> preload \<Rightarrow> data_set \<Rightarrow> data_set list \<Rightarrow> prepare_error + prepared" where
  "prepare_loaded so start load_from stop su pre primary dss =
     (let pint = sr_interval (su_primary su)
      in case build_align_maps primary pint (security_sets su (primary # dss)) of
           Inl e \<Rightarrow> Inl e
         | Inr smaps \<Rightarrow>
             (case load_factors (so_factor_feeds so) (su_primary su) load_from stop
                     (map fst (su_factors su)) of
                Inl e \<Rightarrow> Inl e
              | Inr fdss \<Rightarrow>
                  (case build_align_maps primary pint (factor_sets su fdss) of
                     Inl e \<Rightarrow> Inl e
                   | Inr fmaps \<Rightarrow>
                       finish_prepare so start su pre (primary # dss) fdss (smaps, fmaps))))"

definition prepare ::
  "source \<Rightarrow> string \<Rightarrow> string \<Rightarrow> string \<Rightarrow> int \<Rightarrow> int \<Rightarrow> (setup_context \<Rightarrow> string + setup_context) \<Rightarrow> preload
     \<Rightarrow> (string \<Rightarrow> param_value option) \<Rightarrow> data_cache \<Rightarrow> (prepare_error + prepared) \<times> data_cache" where
  "prepare so market symbol interval start stop init pre params cache =
     (case init ((new_setup market symbol interval)\<lparr>su_params := params\<rparr>) of
        Inl e \<Rightarrow> (Inl (SetupFailed e), cache)
      | Inr su \<Rightarrow>
          let load_from = (if 0 < su_warmup su then start - su_warmup su else start);
              primary = fst (hd (su_securities (new_setup market symbol interval)))
          in (case load_securities (so_feeds so) load_from stop [primary] cache of
                (Inl e, cache) \<Rightarrow> (Inl e, cache)
              | (Inr ps, cache) \<Rightarrow>
                  if ds_len (hd ps) = 0 then (Inl NoData, cache)
                  else (case load_securities (so_feeds so) load_from stop
                               (map fst (tl (su_securities su))) cache of
                          (Inl e, cache) \<Rightarrow> (Inl e, cache)
                        | (Inr dss, cache) \<Rightarrow>
                            (prepare_loaded so start load_from stop su pre (hd ps) dss, cache))))"

end
