(* ===== verification/Dsl_Plan.thy ===== *)
theory Dsl_Plan
  imports Dsl_Remote Bt_Prepare
begin

text \<open>
  From the manifest to the data of a backtest (\<open>pkg/dsl/bridge/bridge.go\<close>): the plan of the
  dependencies (\<open>buildDependencyPlan\<close>), their registration with the setup context
  (\<open>registerRequest\<close>, \<open>Init\<close>), and what the functions \<open>request.*\<close> of a script find at a bar.
\<close>

section \<open>The plan\<close>

definition request_tag :: "request_spec \<Rightarrow> string" where
  "request_tag r = rs_kind r @ '':'' @ rs_key r"

definition plan_add :: "request_spec \<Rightarrow> request_spec list \<Rightarrow> request_spec list" where
  "plan_add r plan =
     (if rs_dynamic r \<or> rs_key r = [] \<or> request_tag r \<in> request_tag ` set plan then plan else plan @ [r])"

definition concrete_key :: "text_case \<Rightarrow> request_spec \<Rightarrow> string" where
  "concrete_key tc r =
     (if rs_kind r = ''security'' then request_security_key tc (rs_market r) (rs_symbol r) (rs_interval r)
      else if rs_kind r = ''factor'' then request_symbol_factor_key tc (rs_name r) (rs_symbol r) (rs_interval r)
      else if rs_kind r = ''fundamental''
      then request_fundamental_key tc (rs_market r) (rs_symbol r) (rs_name r) (rs_mode r)
      else rs_key r)"

definition concrete_request :: "text_case \<Rightarrow> request_spec \<Rightarrow> string \<Rightarrow> request_spec" where
  "concrete_request tc r symbol =
     (let r = r\<lparr>rs_symbol := trim_space symbol, rs_dynamic := False, rs_tier := TierStatic\<rparr>
      in r\<lparr>rs_key := concrete_key tc r\<rparr>)"

text \<open>The members of the universes at the start, when there is a snapshot of them.\<close>

definition plan_request ::
  "text_case \<Rightarrow> (string \<Rightarrow> string list) option \<Rightarrow> request_spec \<Rightarrow> request_spec list \<Rightarrow> request_spec list" where
  "plan_request tc members r plan =
     (if rs_tier r \<noteq> TierUniverse then plan_add r plan
      else case members of
             None \<Rightarrow> plan
           | Some f \<Rightarrow> fold (\<lambda>s. plan_add (concrete_request tc r s)) (f (rs_universe r)) plan)"

definition build_dependency_plan ::
  "text_case \<Rightarrow> (string \<Rightarrow> string list) option \<Rightarrow> manifest \<Rightarrow> request_spec list" where
  "build_dependency_plan tc members m = fold (plan_request tc members) (mf_requests m) []"

definition is_data_request :: "request_spec \<Rightarrow> bool" where
  "is_data_request r = (rs_kind r \<in> {''security'', ''factor'', ''fundamental''})"

definition concrete_data_request_count :: "request_spec list \<Rightarrow> int" where
  "concrete_data_request_count plan = int (length (filter is_data_request plan))"

section \<open>Registration\<close>

text \<open>\<open>secRefs\<close>, \<open>facRefs\<close> and \<open>remoteFacRefs\<close>.\<close>

record request_tables =
  rt_security :: "string \<Rightarrow> secref option"
  rt_factor :: "string \<Rightarrow> factor_ref option"
  rt_remote :: "string \<Rightarrow> factor_ref option"

definition no_tables :: request_tables where
  "no_tables = \<lparr>rt_security = (\<lambda>_. None), rt_factor = (\<lambda>_. None), rt_remote = (\<lambda>_. None)\<rparr>"

type_synonym set_up = "setup_context \<times> request_tables"

definition is_primary :: "text_case \<Rightarrow> string \<Rightarrow> bool" where
  "is_primary tc interval = (trim_space (lower tc interval) = ''primary'')"

definition or_default :: "string \<Rightarrow> string \<Rightarrow> string" where
  "or_default s d = (if trim_space s = [] then d else trim_space s)"

definition register_remote :: "text_case \<Rightarrow> request_spec \<Rightarrow> request_spec \<Rightarrow> set_up \<Rightarrow> set_up" where
  "register_remote tc r factor st =
     (let (su, tb) = st; key = remote_factor_key tc (rs_key r) factor
      in if rt_remote tb key \<noteq> None then st
         else let interval = (if is_primary tc (rs_interval factor) then rs_interval r else rs_interval factor);
                  (ref, su) = add_symbol_factor (rs_name factor) (or_default (rs_market factor) (rs_market r))
                                (or_default (rs_symbol factor) (rs_symbol r)) interval (rs_mode factor) su
              in (su, tb\<lparr>rt_remote := (rt_remote tb)(key \<mapsto> ref)\<rparr>))"

definition register_security :: "text_case \<Rightarrow> aliases \<Rightarrow> request_spec \<Rightarrow> set_up \<Rightarrow> set_up" where
  "register_security tc al r st =
     (let (su, tb) = st;
          st = (if rt_security tb (rs_key r) \<noteq> None then (su, tb)
                else let (ref, su) = add_security (rs_market r) (rs_symbol r) (rs_interval r) su
                     in (su, tb\<lparr>rt_security := (rt_security tb)(rs_key r \<mapsto> ref)\<rparr>))
      in if rs_expression_mode r
         then fold (register_remote tc r)
                (case rs_expression r of Some e \<Rightarrow> collect_remote_factors (expand_expr al [] e) | None \<Rightarrow> []) st
         else st)"

text \<open>The factor reference that a request asks for.\<close>

definition factor_ref_of :: "text_case \<Rightarrow> request_spec \<Rightarrow> setup_context \<Rightarrow> factor_ref \<times> setup_context" where
  "factor_ref_of tc r su =
     (if rs_kind r = ''factor''
      then (if trim_space (rs_symbol r) = [] then add_factor (rs_name r) (rs_interval r) su
            else add_symbol_factor (rs_name r) (sr_market (su_primary su)) (rs_symbol r) (rs_interval r) [] su)
      else add_symbol_factor (rs_name r) (rs_market r) (rs_symbol r)
             (if is_primary tc (rs_interval r) then sr_interval (su_primary su) else rs_interval r) (rs_mode r) su)"

definition register_request :: "text_case \<Rightarrow> aliases \<Rightarrow> request_spec \<Rightarrow> set_up \<Rightarrow> set_up" where
  "register_request tc al r st =
     (if rs_kind r = ''security'' then register_security tc al r st
      else if rs_kind r = ''factor'' \<or> rs_kind r = ''fundamental''
      then (let (su, tb) = st
            in if rt_factor tb (rs_key r) \<noteq> None then st
               else let (ref, su) = factor_ref_of tc r su
                    in (su, tb\<lparr>rt_factor := (rt_factor tb)(rs_key r \<mapsto> ref)\<rparr>))
      else st)"

definition register_requests :: "text_case \<Rightarrow> aliases \<Rightarrow> request_spec list \<Rightarrow> setup_context \<Rightarrow> set_up" where
  "register_requests tc al plan su = fold (register_request tc al) plan (su, no_tables)"

text \<open>\<open>NewWithOptions\<close> and \<open>Init\<close>: from the script to the tables.\<close>

definition plan_script ::
  "text_case \<Rightarrow> (string \<times> config_value) list \<Rightarrow> (string \<Rightarrow> string list) option \<Rightarrow> stmt list \<Rightarrow> setup_context
     \<Rightarrow> set_up" where
  "plan_script tc params members prog su =
     register_requests tc (collect_alias_exprs prog)
       (build_dependency_plan tc members (analyze_with_params tc params prog)) su"

section \<open>The requests of a running script\<close>

text \<open>
  What a function \<open>request.*\<close> finds for the texts of its arguments: the key that is missing, or the
  name of the series and where its value is read.
\<close>

datatype found_request =
  RequestShort | RequestMissing string string | RequestSecurity string int string | RequestFactor string int string

definition text_arg :: "string list \<Rightarrow> nat \<Rightarrow> string" where
  "text_arg ss i = trim_space (ss ! i)"

definition find_security :: "text_case \<Rightarrow> request_tables \<Rightarrow> string list \<Rightarrow> found_request" where
  "find_security tc tb ss =
     (if length ss < 4 then RequestShort
      else let key = request_security_key tc (text_arg ss 0) (text_arg ss 1) (text_arg ss 2); field = text_arg ss 3
           in case rt_security tb key of
                None \<Rightarrow> RequestMissing ''request.security'' key
              | Some ref \<Rightarrow> RequestSecurity (''request.security.'' @ key @ ''.'' @ field) (sr_index ref) field)"

definition find_factor :: "text_case \<Rightarrow> request_tables \<Rightarrow> string list \<Rightarrow> found_request" where
  "find_factor tc tb ss =
     (if length ss < 3 then RequestShort
      else let wide = (4 \<le> length ss); name = text_arg ss 0; symbol = (if wide then text_arg ss 1 else []);
               interval = text_arg ss (if wide then 2 else 1); field = text_arg ss (if wide then 3 else 2);
               key = (if symbol \<noteq> [] then request_symbol_factor_key tc name symbol interval
                      else request_factor_key name interval)
           in case rt_factor tb key of
                None \<Rightarrow> RequestMissing ''request.factor'' key
              | Some ref \<Rightarrow> RequestFactor (''request.factor.'' @ key @ ''.'' @ field) (fr_index ref) field)"

definition find_fundamental :: "text_case \<Rightarrow> request_tables \<Rightarrow> string list \<Rightarrow> found_request" where
  "find_fundamental tc tb ss =
     (if length ss < 3 then RequestShort
      else let mode = (if 4 \<le> length ss then text_arg ss 3 else ''filled'');
               mode = (if mode = [] then ''filled'' else mode);
               key = request_fundamental_key tc (text_arg ss 0) (text_arg ss 1) (text_arg ss 2) mode
           in if text_arg ss 2 = [] then RequestShort
              else case rt_factor tb key of
                     None \<Rightarrow> RequestMissing ''request.fundamental'' key
                   | Some ref \<Rightarrow>
                       RequestFactor (''request.fundamental.'' @ key @ ''.value'') (fr_index ref) ''value'')"

definition find_request :: "text_case \<Rightarrow> request_tables \<Rightarrow> string \<Rightarrow> string list \<Rightarrow> found_request" where
  "find_request tc tb x ss =
     (if x = ''request.security'' then find_security tc tb ss
      else if x = ''request.factor'' then find_factor tc tb ss
      else if x = ''request.fundamental'' then find_fundamental tc tb ss
      else RequestShort)"

end
