(* ===== verification/Bt_Spread_Laws.thy ===== *)
theory Bt_Spread_Laws
  imports Bt_Replay
begin

text \<open>
  The laws of the spread tracker: a step relation of its operations, the invariant that every
  spread is either open or archived, and what no operation changes: the entry of a leg, and
  everything about a leg that is closed.
\<close>

section \<open>Steps\<close>

inductive tracker_step :: "text_case \<Rightarrow> spread_tracker \<Rightarrow> spread_tracker \<Rightarrow> bool"
  for tc :: text_case where
  tracker_open: "tracker_step tc st (snd (open_full legs time bar tag ref gid st))"
| tracker_append: "st_map st sid = Some sp \<Longrightarrow> \<not> fully_closed sp \<Longrightarrow> tracker_step tc st (set_legs sid sp (sp_legs sp @ ls) st)"
| tracker_close_leg: "tracker_step tc st (snd (close_leg_full sid i price commission time reason data st))"
| tracker_close_all: "tracker_step tc st (close_all sid pf time st)"
| tracker_refresh: "tracker_step tc st (refresh_open_spreads tc m st)"

inductive_cases tracker_stepE: "tracker_step tc st st'"

section \<open>Open or archived\<close>

definition tracker_ok :: "spread_tracker \<Rightarrow> bool" where
  "tracker_ok st \<longleftrightarrow> 1 \<le> st_next st \<and> distinct (all_spreads st)
     \<and> set (all_spreads st) = {1..<st_next st} \<and> dom (st_map st) = {1..<st_next st}
     \<and> (\<forall>sid sp. st_map st sid = Some sp \<longrightarrow> sp_id sp = sid)
     \<and> (\<forall>sid \<in> set (st_closed st). \<forall>sp. st_map st sid = Some sp \<longrightarrow> fully_closed sp)"

lemma set_legs_simps [simp]:
  "st_open (set_legs sid sp ls st) = st_open st" "st_closed (set_legs sid sp ls st) = st_closed st"
  "st_spare (set_legs sid sp ls st) = st_spare st" "st_next (set_legs sid sp ls st) = st_next st"
  "st_map (set_legs sid sp ls st) = (st_map st)(sid \<mapsto> sp\<lparr>sp_legs := ls\<rparr>)"
  by (simp_all add: set_legs_def)

lemma archive_simps [simp]:
  "st_next (archive_if_closed sid st) = st_next st" "st_map (archive_if_closed sid st) = st_map st"
  by (auto simp: archive_if_closed_def split: option.split)

lemma tracker_ok_new: "tracker_ok new_spread_tracker"
  by (simp add: tracker_ok_def new_spread_tracker_def all_spreads_def)

lemma tracker_ok_open:
  assumes "tracker_ok st"
  shows "tracker_ok (snd (open_full legs time bar tag ref gid st))"
proof -
  have "{1..<st_next st + 1} = insert (st_next st) {1..<st_next st}"
    using assms by (auto simp: tracker_ok_def)
  moreover have "st_next st \<notin> set (all_spreads st)" using assms by (simp add: tracker_ok_def)
  ultimately show ?thesis using assms
    by (auto simp: tracker_ok_def open_full_def Let_def all_spreads_def)
qed

lemma tracker_ok_set_legs:
  assumes "tracker_ok st" "st_map st sid = Some sp"
    and "sid \<in> set (st_closed st) \<Longrightarrow> list_all lg_closed ls"
  shows "tracker_ok (set_legs sid sp ls st)"
  using assms by (auto simp: tracker_ok_def all_spreads_def fully_closed_def)

lemma tracker_ok_archive:
  assumes "tracker_ok st"
  shows "tracker_ok (archive_if_closed sid st)"
proof (cases "\<exists>sp. st_map st sid = Some sp \<and> fully_closed sp \<and> sid \<in> set (st_open st)")
  case True
  then obtain sp where sp: "st_map st sid = Some sp" "fully_closed sp" "sid \<in> set (st_open st)" by blast
  have "distinct (st_open st)" using assms by (simp add: tracker_ok_def all_spreads_def)
  then have r: "set (remove1 sid (st_open st)) = set (st_open st) - {sid}" "distinct (remove1 sid (st_open st))"
    by simp_all
  have e: "archive_if_closed sid st = st\<lparr>st_open := remove1 sid (st_open st),
      st_spare := last (st_open st) # st_spare st, st_closed := st_closed st @ [sid]\<rparr>"
    using sp by (simp add: archive_if_closed_def)
  have "set (st_closed st) \<union> {sid} \<union> (set (st_open st) - {sid}) = set (all_spreads st)"
    using sp(3) by (auto simp: all_spreads_def)
  then show ?thesis using assms sp r unfolding e tracker_ok_def
    by (auto simp: all_spreads_def simp del: set_remove1_eq)
next
  case False
  then have "archive_if_closed sid st = st"
    by (auto simp: archive_if_closed_def split: option.split)
  then show ?thesis using assms by simp
qed

lemma tracker_ok_open_closed:
  "tracker_ok st \<Longrightarrow> sid \<in> set (st_open st) \<Longrightarrow> sid \<notin> set (st_closed st)"
  by (auto simp: tracker_ok_def all_spreads_def)

lemma tracker_ok_fully_closed:
  "tracker_ok st \<Longrightarrow> st_map st sid = Some sp \<Longrightarrow> sid \<in> set (st_closed st) \<Longrightarrow> fully_closed sp"
  by (simp add: tracker_ok_def)

lemma tracker_ok_books:
  assumes "tracker_ok st"
  shows "distinct (all_spreads st)" "set (all_spreads st) = {1..<st_next st}"
    "\<forall>sid \<in> set (st_closed st). \<exists>sp. st_map st sid = Some sp \<and> fully_closed sp"
proof -
  have "\<exists>sp. st_map st sid = Some sp" if "sid \<in> set (st_closed st)" for sid
    using that assms by (auto simp: tracker_ok_def all_spreads_def dom_def set_eq_iff)
  then show "\<forall>sid \<in> set (st_closed st). \<exists>sp. st_map st sid = Some sp \<and> fully_closed sp"
    using assms by (metis tracker_ok_def)
qed (use assms in \<open>auto simp: tracker_ok_def\<close>)

section \<open>What no operation changes\<close>

text \<open>The entry of a leg is what \<open>OpenFull\<close> stored; the contract may be refreshed.\<close>

definition leg_entry :: "leg \<Rightarrow> side \<times> f64 \<times> f64 \<times> f64 \<times> int \<times> custom_data" where
  "leg_entry l = (lg_side l, lg_qty l, lg_entry_price l, lg_entry_commission l, lg_entry_time l, lg_entry_data l)"

definition keeps_leg :: "leg \<Rightarrow> leg \<Rightarrow> bool" where
  "keeps_leg l l' \<longleftrightarrow> leg_entry l' = leg_entry l \<and> (lg_closed l \<longrightarrow> l' = l)"

definition leg_at :: "spread_tracker \<Rightarrow> int \<Rightarrow> nat \<Rightarrow> leg option" where
  "leg_at st sid i =
     (case st_map st sid of None \<Rightarrow> None | Some sp \<Rightarrow> if i < length (sp_legs sp) then Some (sp_legs sp ! i) else None)"

definition keeps_legs :: "spread_tracker \<Rightarrow> spread_tracker \<Rightarrow> bool" where
  "keeps_legs st st' \<longleftrightarrow> st_next st \<le> st_next st'
     \<and> (\<forall>sid i l. leg_at st sid i = Some l \<longrightarrow> (\<exists>l'. leg_at st' sid i = Some l' \<and> keeps_leg l l'))"

lemma keeps_leg_refl [simp]: "keeps_leg l l"
  by (simp add: keeps_leg_def)

lemma keeps_leg_trans: "keeps_leg l l' \<Longrightarrow> keeps_leg l' l'' \<Longrightarrow> keeps_leg l l''"
  by (auto simp: keeps_leg_def)

lemma keeps_legs_refl [simp]: "keeps_legs st st"
  by (simp add: keeps_legs_def)

lemma keeps_legs_trans: "keeps_legs st st' \<Longrightarrow> keeps_legs st' st'' \<Longrightarrow> keeps_legs st st''"
  unfolding keeps_legs_def by (meson keeps_leg_trans order_trans)

lemma keeps_legs_archive [simp]: "keeps_legs st (archive_if_closed sid st)"
  by (simp add: keeps_legs_def leg_at_def)

lemma keeps_legs_set_legs:
  assumes "st_map st sid = Some sp" "length (sp_legs sp) \<le> length ls"
    and "\<And>i. i < length (sp_legs sp) \<Longrightarrow> keeps_leg (sp_legs sp ! i) (ls ! i)"
  shows "keeps_legs st (set_legs sid sp ls st)"
proof -
  have "\<exists>l'. leg_at (set_legs sid sp ls st) n i = Some l' \<and> keeps_leg l l'" if "leg_at st n i = Some l" for n i l
    using that assms by (cases "n = sid") (auto simp: leg_at_def split: option.splits if_splits)
  then show ?thesis by (simp add: keeps_legs_def)
qed

lemma refresh_leg_keeps [simp]: "keeps_leg l (refresh_leg tc m l)" "lg_closed (refresh_leg tc m l) = lg_closed l"
  by (auto simp: keeps_leg_def leg_entry_def refresh_leg_def split: option.split)

lemma close_leg_keeps: "\<not> lg_closed l \<Longrightarrow> keeps_leg l (close_leg price commission time reason data l)"
  by (simp add: keeps_leg_def leg_entry_def close_leg_def)

section \<open>Every step keeps both\<close>

definition sound_step :: "spread_tracker \<Rightarrow> spread_tracker \<Rightarrow> bool" where
  "sound_step st st' \<longleftrightarrow> (tracker_ok st \<longrightarrow> tracker_ok st' \<and> keeps_legs st st')"

lemma sound_step_refl [simp]: "sound_step st st"
  by (simp add: sound_step_def)

lemma sound_step_trans: "sound_step st st' \<Longrightarrow> sound_step st' st'' \<Longrightarrow> sound_step st st''"
  unfolding sound_step_def by (meson keeps_legs_trans)

lemma sound_step_set_legs:
  assumes "st_map st sid = Some sp" "length (sp_legs sp) \<le> length ls"
    and "\<And>i. i < length (sp_legs sp) \<Longrightarrow> keeps_leg (sp_legs sp ! i) (ls ! i)"
    and "fully_closed sp \<Longrightarrow> list_all lg_closed ls"
  shows "sound_step st (set_legs sid sp ls st)"
  using assms tracker_ok_set_legs [of st sid sp ls] tracker_ok_fully_closed [of st sid sp]
    keeps_legs_set_legs [OF assms(1-3)]
  by (auto simp: sound_step_def)

lemma sound_step_archive [simp]: "sound_step st (archive_if_closed sid st)"
  by (simp add: sound_step_def tracker_ok_archive)

lemma sound_step_open: "sound_step st (snd (open_full legs time bar tag ref gid st))"
proof (unfold sound_step_def, intro impI conjI)
  assume ok: "tracker_ok st"
  then show "tracker_ok (snd (open_full legs time bar tag ref gid st))" by (rule tracker_ok_open)
  have "st_map st (st_next st) = None" using ok by (auto simp: tracker_ok_def dom_def set_eq_iff)
  then show "keeps_legs st (snd (open_full legs time bar tag ref gid st))"
    by (auto simp: keeps_legs_def leg_at_def open_full_def Let_def)
qed

lemma sound_step_close_leg: "sound_step st (snd (close_leg_full sid i price commission time reason data st))"
proof (cases "\<exists>sp. st_map st sid = Some sp \<and> 0 \<le> i \<and> i < int (length (sp_legs sp)) \<and> \<not> lg_closed (sp_legs sp ! nat i)")
  case True
  then obtain sp where sp: "st_map st sid = Some sp" "0 \<le> i" "i < int (length (sp_legs sp))"
    "\<not> lg_closed (sp_legs sp ! nat i)" by blast
  let ?ls = "(sp_legs sp)[nat i := close_leg price commission time reason data (sp_legs sp ! nat i)]"
  have "\<not> fully_closed sp" using sp by (auto simp: fully_closed_def list_all_length intro!: exI [of _ "nat i"])
  then have "sound_step st (set_legs sid sp ?ls st)"
    using sp by (intro sound_step_set_legs) (auto simp: nth_list_update close_leg_keeps)
  then show ?thesis using sp sound_step_trans [OF _ sound_step_archive]
    by (auto simp: close_leg_full_def Let_def)
next
  case False
  then have "snd (close_leg_full sid i price commission time reason data st) = st"
    by (auto simp: close_leg_full_def split: option.split)
  then show ?thesis by simp
qed

lemma sound_step_close_all: "sound_step st (close_all sid pf time st)"
proof (cases "st_map st sid")
  case (Some sp)
  let ?ls = "map (\<lambda>l. if lg_closed l then l
    else l\<lparr>lg_closed := True, lg_close_price := pf (lg_contract l), lg_close_time := time\<rparr>) (sp_legs sp)"
  have "sound_step st (set_legs sid sp ?ls st)"
    using Some by (intro sound_step_set_legs) (auto simp: keeps_leg_def leg_entry_def list_all_iff)
  then show ?thesis using Some sound_step_trans [OF _ sound_step_archive]
    by (simp add: close_all_def)
qed (simp add: close_all_def)

lemma sound_step_refresh: "sound_step st (refresh_open_spreads tc m st)"
proof -
  let ?f = "\<lambda>st sid. case st_map st sid of None \<Rightarrow> st
    | Some sp \<Rightarrow> set_legs sid sp (map (refresh_leg tc m) (sp_legs sp)) st"
  have one: "sound_step st (?f st sid)" for st sid
  proof (cases "st_map st sid")
    case (Some sp)
    then show ?thesis
      by (auto intro!: sound_step_set_legs simp: fully_closed_def list_all_length)
  qed simp
  have "sound_step st (foldl ?f st sids)" for sids
  proof (induction sids rule: rev_induct)
    case (snoc sid sids)
    then show ?case using sound_step_trans [OF _ one] by simp
  qed simp
  then show ?thesis by (simp add: refresh_open_spreads_def)
qed

lemma sound_step_append:
  assumes "st_map st sid = Some sp" "\<not> fully_closed sp"
  shows "sound_step st (set_legs sid sp (sp_legs sp @ ls) st)"
  using assms by (intro sound_step_set_legs) (auto simp: nth_append)

lemma tracker_step_sound: "tracker_step tc st st' \<Longrightarrow> sound_step st st'"
  by (induction rule: tracker_step.induct)
    (auto intro: sound_step_open sound_step_append sound_step_close_leg sound_step_close_all sound_step_refresh)

end
