(* ===== verification/Bt_Strategy.thy ===== *)
theory Bt_Strategy
  imports Bt_Replay
begin

text \<open>
  Two of the strategies shipped with the program: the golden cross
  (\<open>pkg/strategies/golden_cross/strategy.go\<close>) and the spot trend strategy with an ATR trail
  (\<open>pkg/strategies/ema_atr_spot/strategy.go\<close>), with the sizing helpers of
  \<open>pkg/strategies/helpers/position.go\<close> and \<open>internal/validation\<close>.
\<close>

section \<open>Helpers\<close>

definition all_valid :: "f64 list \<Rightarrow> bool" where
  "all_valid vs = list_all (\<lambda>v. \<not> is_nan v \<and> \<not> is_inf v) vs"

definition position_size_from_equity :: "f64 \<Rightarrow> f64 \<Rightarrow> f64 \<Rightarrow> f64 \<Rightarrow> f64" where
  "position_size_from_equity cash worth price pct =
     (if cash \<le> 0 \<or> worth \<le> 0 \<or> price \<le> 0 \<or> pct \<le> 0 then 0
      else let budget = go_min cash (worth * pct)
           in if budget \<le> 0 then 0 else budget / price)"

definition position_size_from_cash :: "f64 \<Rightarrow> f64 \<Rightarrow> f64 \<Rightarrow> f64" where
  "position_size_from_cash cash price pct =
     (if cash \<le> 0 \<or> price \<le> 0 \<or> pct \<le> 0 then 0 else (cash * pct) / price)"

definition position_size_from_notional :: "f64 \<Rightarrow> f64 \<Rightarrow> f64" where
  "position_size_from_notional notional price =
     (if notional \<le> 0 \<or> price \<le> 0 then 0 else notional / price)"

definition clamp_position_pct :: "f64 \<Rightarrow> f64 \<Rightarrow> f64" where
  "clamp_position_pct raw d = (if raw \<le> 0 then d else if 1 < raw then 1 else raw)"

definition safe_divide :: "f64 \<Rightarrow> f64 \<Rightarrow> f64" where
  "safe_divide x y = (if feq y 0 \<or> is_nan y \<or> is_inf y then FNaN else x / y)"

section \<open>The golden cross\<close>

record golden_cross =
  gc_fast :: int
  gc_slow :: int
  gc_twap :: int
  gc_pct :: f64

definition position_of :: "secref \<Rightarrow> engine \<Rightarrow> f64" where
  "position_of r en = p_qty (tracker_get (br_positions (en_broker en)) r)"

definition equity_of :: "environment \<Rightarrow> (int \<Rightarrow> secref list) \<Rightarrow> engine \<Rightarrow> f64" where
  "equity_of ev refs en = equity (tc_fold (ev_case ev)) (refs (en_bar en)) (en_broker en)"

definition golden_cross_entry ::
  "environment \<Rightarrow> (int \<Rightarrow> secref list) \<Rightarrow> secref \<Rightarrow> bar_view \<Rightarrow> golden_cross \<Rightarrow> engine \<Rightarrow> engine" where
  "golden_cross_entry ev refs r v s en =
     (if feq (vw_field v ''buy_signal'' 0) 1 \<and> feq (position_of r en) 0
      then let qty = position_size_from_equity (br_cash (en_broker en)) (equity_of ev refs en)
                       (vw_field v ''close'' 0) (gc_pct s)
           in if 0 < qty
              then snd (submit ev (if 1 < gc_twap s then with_twap (gc_twap s) (market_order r Buy qty [])
                                   else market_order r Buy qty []) en)
              else en
      else en)"

definition golden_cross_on_bar ::
  "environment \<Rightarrow> (int \<Rightarrow> secref list) \<Rightarrow> secref \<Rightarrow> golden_cross strategy" where
  "golden_cross_on_bar ev refs r v s en =
     (let en = golden_cross_entry ev refs r v s en
      in (s, if feq (vw_field v ''sell_signal'' 0) 1 \<and> 0 < position_of r en
             then close_position ev r en else en))"

section \<open>The spot trend strategy\<close>

record ema_atr =
  ea_multiplier :: f64
  ea_ratio :: f64
  ea_pct :: f64
  ea_highest :: f64

definition should_enter_long :: "f64 \<Rightarrow> f64 \<Rightarrow> f64 \<Rightarrow> f64 \<Rightarrow> f64 \<Rightarrow> f64 \<Rightarrow> f64 \<Rightarrow> bool" where
  "should_enter_long crossover opn cls fast slow ratio min_ratio =
     (if \<not> feq crossover 1 \<or> cls \<le> 0 then False
      else if \<not> all_valid [opn, cls, fast, slow, ratio] then False
      else if cls \<le> opn \<or> cls \<le> fast \<or> fast \<le> slow then False
      else min_ratio \<le> ratio)"

definition should_exit_trend :: "f64 \<Rightarrow> f64 \<Rightarrow> f64 \<Rightarrow> bool" where
  "should_exit_trend cls fast slow =
     (if \<not> all_valid [cls, fast, slow] then False else cls < fast \<and> fast < slow)"

definition should_queue_trail_exit :: "f64 \<Rightarrow> f64 \<Rightarrow> bool" where
  "should_queue_trail_exit low stop = (if \<not> all_valid [low, stop] then False else low \<le> stop)"

definition ema_atr_flat ::
  "environment \<Rightarrow> (int \<Rightarrow> secref list) \<Rightarrow> secref \<Rightarrow> bar_view \<Rightarrow> ema_atr \<Rightarrow> engine \<Rightarrow> engine" where
  "ema_atr_flat ev refs r v s en =
     (let price = vw_field v ''close'' 0; ratio = vw_field v ''volume_ratio'' 0
      in if should_enter_long (vw_field v ''buy_signal'' 0) (vw_field v ''open'' 0) price
              (vw_field v ''ema_fast'' 0) (vw_field v ''ema_slow'' 0) ratio (ea_ratio s)
         then let qty = position_size_from_equity (br_cash (en_broker en)) (equity_of ev refs en)
                          price (ea_pct s)
              in if 0 < qty
                 then buy_with_note ev r qty
                        (''ema trend with volume '' @ format_fixed 2 ratio @ ''x'') en
                 else en
         else en)"

definition ema_atr_on_bar ::
  "environment \<Rightarrow> (int \<Rightarrow> secref list) \<Rightarrow> secref \<Rightarrow> ema_atr strategy" where
  "ema_atr_on_bar ev refs r v s en =
     (if position_of r en \<le> 0
      then let s = s\<lparr>ea_highest := FNaN\<rparr> in (s, ema_atr_flat ev refs r v s en)
      else let high = vw_field v ''high'' 0;
               s = (if is_nan (ea_highest s) \<or> ea_highest s < high then s\<lparr>ea_highest := high\<rparr> else s);
               atr = vw_field v ''atr'' 0
           in if should_exit_trend (vw_field v ''close'' 0) (vw_field v ''ema_fast'' 0)
                   (vw_field v ''ema_slow'' 0)
              then (s\<lparr>ea_highest := FNaN\<rparr>, close_position ev r en)
              else if \<not> is_valid_price atr \<or> is_nan (ea_highest s) then (s, en)
              else if should_queue_trail_exit (vw_field v ''low'' 0)
                        (ea_highest s - ea_multiplier s * atr)
              then (s\<lparr>ea_highest := FNaN\<rparr>, close_position ev r en)
              else (s, en))"

end
