(* ===== verification/Bt_Broker_Laws.thy ===== *)
theory Bt_Broker_Laws
  imports Bt_Broker
begin

text \<open>
  Invariants of the broker. Every trade is made by \<open>book_fill\<close> and recorded after it, so an
  invariant has to be checked on that step alone: the locale \<open>booking_invariant\<close> states this
  contract and proves that every operation, and so every run of the broker, keeps it. Its
  interpretations are the invariants of the trade log: the positions and the entries are the
  log replayed, trade numbers are 1, 2, 3, and so on, and every fill has a positive finite
  quantity and price.
\<close>

section \<open>Runs of the broker\<close>

inductive broker_step :: "(string \<Rightarrow> string \<Rightarrow> bool) \<Rightarrow> broker \<Rightarrow> broker \<Rightarrow> bool"
  for fe :: "string \<Rightarrow> string \<Rightarrow> bool" where
  step_price: "broker_step fe b (set_price_func pf b)"
| step_submit: "broker_step fe b (snd (submit_order od b))"
| step_cancel: "broker_step fe b (cancel_orders r b)"
| step_process: "broker_step fe b (snd (process_pending fe bar time b))"
| step_now: "broker_step fe b (snd (execute_order_now fe od bar time b))"
| step_close: "broker_step fe b (snd (execute_order_at_close_now fe od bar time b))"
| step_stop: "broker_step fe b (snd (execute_stop_order_now fe od bar time extra b))"
| step_cash: "broker_step fe b (adjust_cash amount b)"

inductive reachable :: "(string \<Rightarrow> string \<Rightarrow> bool) \<Rightarrow> config \<Rightarrow> broker \<Rightarrow> bool"
  for fe :: "string \<Rightarrow> string \<Rightarrow> bool" and cfg :: config where
  reachable_new: "reachable fe cfg (new_broker cfg)"
| reachable_step: "reachable fe cfg b \<Longrightarrow> broker_step fe b b' \<Longrightarrow> reachable fe cfg b'"

inductive_cases broker_stepE: "broker_step fe b b'"

section \<open>What booking a fill does\<close>

text \<open>The number and the trade that \<open>book_fill\<close> makes.\<close>

definition booked_order_id :: "order \<Rightarrow> broker \<Rightarrow> int" where
  "booked_order_id od b = (if o_id od = 0 then br_next_oid b else o_id od)"

definition booked_trade :: "order \<Rightarrow> f64 \<Rightarrow> f64 \<Rightarrow> f64 \<Rightarrow> int \<Rightarrow> int \<Rightarrow> broker \<Rightarrow> trade" where
  "booked_trade od qty price ref bar time b =
     \<lparr>t_id = br_next_tid b, t_order = booked_order_id od b, t_entry = o_entry od,
      t_reduce = o_reduce od, t_sec = o_sec od, t_side = o_side od, t_note = o_note od,
      t_qty = qty, t_price = price, t_commission = calc_commission (br_config b) qty price,
      t_slippage = go_abs (price - ref), t_bar = bar, t_time = time\<rparr>"

lemma book_fill_trade [simp]:
  "fst (book_fill fe od qty price ref bar time b) = booked_trade od qty price ref bar time b"
  by (simp add: book_fill_def booked_trade_def booked_order_id_def Let_def)

lemma book_fill_fields [simp]:
  fixes fe od qty price ref bar time b
  defines "b' \<equiv> snd (book_fill fe od qty price ref bar time b)"
    and "t \<equiv> booked_trade od qty price ref bar time b"
  shows "br_config b' = br_config b" "br_pending b' = br_pending b" "br_trades b' = br_trades b"
    "br_price_func b' = br_price_func b" "br_next_tid b' = br_next_tid b + 1"
    "br_positions b' = tracker_update (br_positions b) t"
    "br_entries b' = entries_update (br_entries b) t"
    "br_cash b' = br_cash b + trade_cash_delta fe (br_config b) (br_positions b) t"
    "br_next_oid b' = (if o_id od = 0 then br_next_oid b + 1 else br_next_oid b)"
  by (auto simp: b'_def t_def book_fill_def booked_trade_def booked_order_id_def apply_trade_def Let_def)

lemma book_fill_trades:
  "snd (book_fill fe od qty price ref bar time (b\<lparr>br_trades := ts\<rparr>))
     = (snd (book_fill fe od qty price ref bar time b))\<lparr>br_trades := ts\<rparr>"
  by (simp add: book_fill_def apply_trade_def Let_def)

lemma booked_trade_trades [simp]:
  "booked_trade od qty price ref bar time (b\<lparr>br_trades := ts\<rparr>) = booked_trade od qty price ref bar time b"
  by (simp add: booked_trade_def booked_order_id_def)

lemma record_fill_book:
  "record_fill (book_fill fe od qty price ref bar time b)
     = (Some (booked_trade od qty price ref bar time b),
        (snd (book_fill fe od qty price ref bar time b))
          \<lparr>br_trades := br_trades b @ [booked_trade od qty price ref bar time b]\<rparr>)"
  by (simp add: record_fill_def case_prod_beta)

text \<open>An order that fills on a bar was sized, priced and booked.\<close>

lemma execute_order_on_bar_filled:
  assumes "execute_order_on_bar fe pf od bar time b = (Filled t, b')"
  obtains od' price qty opn where "size_reduce_only b od = Some od'"
    "opn = execution_open (pf (o_sec od')) (o_side od') (c_execution (br_config b))"
    "is_valid_price opn"
    "fill_terms (br_config b) od' opn
       (trigger_range (pf (o_sec od')) (o_side od') (c_trigger (br_config b))) = Some (price, qty)"
    "is_valid_quantity qty" "is_valid_price price"
    "t = booked_trade od' qty price opn bar time b"
    "b' = snd (book_fill fe od' qty price opn bar time b)"
proof -
  obtain od' where od': "size_reduce_only b od = Some od'"
    using assms by (auto simp: execute_order_on_bar_def split: option.splits)
  define opn where "opn = execution_open (pf (o_sec od')) (o_side od') (c_execution (br_config b))"
  define rng where "rng = trigger_range (pf (o_sec od')) (o_side od') (c_trigger (br_config b))"
  have e: "(Filled t, b') = (if \<not> is_valid_price opn then (Invalid, b)
      else case fill_terms (br_config b) od' opn rng of None \<Rightarrow> (Unfilled, b)
         | Some (price, qty) \<Rightarrow>
             (if \<not> is_valid_quantity qty then (Unfilled, b)
              else if \<not> is_valid_price price then (Invalid, b)
              else let (t, b) = book_fill fe od' qty price opn bar time b in (Filled t, b)))"
    unfolding assms [symmetric] execute_order_on_bar_def od' option.case opn_def rng_def Let_def ..
  then have v: "is_valid_price opn" by (auto split: if_splits)
  with e obtain price qty where f: "fill_terms (br_config b) od' opn rng = Some (price, qty)"
    by (auto split: option.splits)
  have q: "is_valid_quantity qty" and p: "is_valid_price price"
    using e v f by (auto split: if_splits)
  have "t = booked_trade od' qty price opn bar time b"
    "b' = snd (book_fill fe od' qty price opn bar time b)"
    using e v f q p book_fill_trade [of fe od' qty price opn bar time b]
    by (auto simp: case_prod_beta)
  then show ?thesis using that od' opn_def v f q p rng_def by blast
qed

lemma execute_order_on_bar_other:
  "execute_order_on_bar fe pf od bar time b = (r, b') \<Longrightarrow> (\<And>t. r \<noteq> Filled t) \<Longrightarrow> b' = b"
  by (auto simp: execute_order_on_bar_def Let_def case_prod_beta split: option.splits if_splits)

lemma execute_order_on_bar_frame:
  assumes "execute_order_on_bar fe pf od bar time b = (r, b')"
  shows "br_next_oid b \<le> br_next_oid b'" "br_pending b' = br_pending b" "br_trades b' = br_trades b"
    "br_config b' = br_config b" "br_price_func b' = br_price_func b"
proof -
  have "br_next_oid b \<le> br_next_oid b' \<and> br_pending b' = br_pending b \<and> br_trades b' = br_trades b
      \<and> br_config b' = br_config b \<and> br_price_func b' = br_price_func b"
  proof (cases r)
    case (Filled t)
    then show ?thesis using assms by (auto elim: execute_order_on_bar_filled)
  qed (use assms execute_order_on_bar_other [OF assms] in auto)
  then show "br_next_oid b \<le> br_next_oid b'" "br_pending b' = br_pending b" "br_trades b' = br_trades b"
    "br_config b' = br_config b" "br_price_func b' = br_price_func b" by simp_all
qed

lemma size_reduce_only_same:
  "size_reduce_only b od = Some od' \<Longrightarrow>
     o_id od' = o_id od \<and> o_sec od' = o_sec od \<and> o_side od' = o_side od \<and> o_type od' = o_type od
     \<and> o_entry od' = o_entry od \<and> o_reduce od' = o_reduce od \<and> o_price od' = o_price od
     \<and> o_stop od' = o_stop od \<and> o_twap od' = o_twap od"
  by (auto simp: size_reduce_only_def split: if_splits)

section \<open>Invariants that booking keeps\<close>

text \<open>The broker with its fills already recorded.\<close>

definition with_fills :: "broker \<Rightarrow> trade list \<Rightarrow> broker" where
  "with_fills b fills = b\<lparr>br_trades := br_trades b @ fills\<rparr>"

locale booking_invariant =
  fixes fe :: "string \<Rightarrow> string \<Rightarrow> bool" and I :: "broker \<Rightarrow> bool"
  assumes initial: "I (new_broker cfg)"
    and booked: "I b \<Longrightarrow> is_valid_quantity qty \<Longrightarrow> is_valid_price price
      \<Longrightarrow> I (snd (record_fill (book_fill fe od qty price ref bar time b)))"
    and other_pending: "I b \<Longrightarrow> I (b\<lparr>br_pending := ods\<rparr>)"
    and other_oid: "I b \<Longrightarrow> I (b\<lparr>br_next_oid := n\<rparr>)"
    and other_cash: "I b \<Longrightarrow> I (b\<lparr>br_cash := c\<rparr>)"
    and other_prices: "I b \<Longrightarrow> I (b\<lparr>br_price_func := pf\<rparr>)"
begin

lemma execute_keeps:
  assumes "execute_order_on_bar fe pf od bar time b = (Filled t, b')" "I (with_fills b fills)"
  shows "I (with_fills b' (fills @ [t]))"
  using assms(1)
proof (cases rule: execute_order_on_bar_filled)
  case (1 od' price qty opn)
  have "I (snd (record_fill (book_fill fe od' qty price opn bar time (with_fills b fills))))"
    using booked [OF assms(2) 1(5,6)] .
  then show ?thesis using 1(7,8)
    by (simp add: record_fill_book with_fills_def book_fill_trades)
qed

lemma process_loop_keeps:
  "I (with_fills b fills) \<Longrightarrow> process_loop fe pf bar time ods fills rest b = (fills', rest', b')
     \<Longrightarrow> I (with_fills b' fills')"
proof (induction ods arbitrary: fills rest b)
  case (Cons od ods)
  obtain r b1 where r: "execute_order_on_bar fe pf od bar time b = (r, b1)" by fastforce
  show ?case
  proof (cases r)
    case (Filled t)
    then have i: "I (with_fills b1 (fills @ [t]))" using execute_keeps r Cons.prems(1) by blast
    show ?thesis using Cons.IH [OF i] Cons.prems(2) r Filled by simp
  qed (use Cons r execute_order_on_bar_other [OF r] in auto)
qed simp

lemma process_pending_keeps: "I b \<Longrightarrow> I (snd (process_pending fe bar time b))"
proof (cases "br_price_func b")
  case (Some pf)
  assume b: "I b"
  obtain fills rest b' where l: "process_loop fe pf bar time (br_pending b) [] [] b = (fills, rest, b')"
    by (cases "process_loop fe pf bar time (br_pending b) [] [] b")
  have "I (with_fills b' fills)" using process_loop_keeps [OF _ l] b by (simp add: with_fills_def)
  then have "I (b'\<lparr>br_pending := rest, br_trades := br_trades b' @ fills\<rparr>)"
    using other_pending [of "with_fills b' fills" rest] by (cases b') (simp add: with_fills_def)
  then show ?thesis using b Some l by (simp add: process_pending_def)
qed (simp add: process_pending_def)

lemma execute_order_now_keeps: "I b \<Longrightarrow> I (snd (execute_order_now fe od bar time b))"
proof -
  assume b: "I b"
  have "I (snd (case execute_order_on_bar fe pf od' bar time b of
          (Filled t, b) \<Rightarrow> record_fill (t, b) | (_, b) \<Rightarrow> (None, b)))" for pf od'
  proof -
    obtain r b1 where r: "execute_order_on_bar fe pf od' bar time b = (r, b1)" by fastforce
    show ?thesis
    proof (cases r)
      case (Filled t)
      then have "I (with_fills b1 ([] @ [t]))" using execute_keeps [of pf od' bar time b t b1 "[]"] r b
        by (simp add: with_fills_def)
      then show ?thesis using r Filled by (simp add: record_fill_def with_fills_def)
    qed (use r b execute_order_on_bar_other [OF r] in auto)
  qed
  then show ?thesis using b by (auto simp: execute_order_now_def split: option.splits)
qed

lemma execute_order_at_close_now_keeps:
  "I b \<Longrightarrow> I (snd (execute_order_at_close_now fe od bar time b))"
  using booked by (auto simp: execute_order_at_close_now_def Let_def split: option.splits)

lemma execute_stop_order_now_keeps:
  "I b \<Longrightarrow> I (snd (execute_stop_order_now fe od bar time extra b))"
  using booked by (auto simp: execute_stop_order_now_def Let_def split: option.splits prod.splits)

lemma submit_order_keeps: "I b \<Longrightarrow> I (snd (submit_order od b))"
  using other_pending [OF other_oid]
  by (auto simp: submit_order_def Let_def split: option.splits)

lemma step_keeps: "broker_step fe b b' \<Longrightarrow> I b \<Longrightarrow> I b'"
  by (elim broker_stepE)
    (simp_all add: set_price_func_def cancel_orders_def adjust_cash_def submit_order_keeps
      other_pending other_cash other_prices process_pending_keeps execute_order_now_keeps
      execute_order_at_close_now_keeps execute_stop_order_now_keeps)

theorem reachable_invariant: "reachable fe cfg b \<Longrightarrow> I b"
  by (induction rule: reachable.induct) (auto intro: initial step_keeps)

end

section \<open>The invariants of the trade log\<close>

definition replay_positions :: "trade list \<Rightarrow> tracker" where
  "replay_positions ts = foldl tracker_update new_tracker ts"

definition replay_entries :: "trade list \<Rightarrow> entry_key \<Rightarrow> position option" where
  "replay_entries ts = foldl entries_update (\<lambda>_. None) ts"

definition log_replays :: "broker \<Rightarrow> bool" where
  "log_replays b = (br_positions b = replay_positions (br_trades b)
     \<and> br_entries b = replay_entries (br_trades b))"

definition trades_numbered :: "broker \<Rightarrow> bool" where
  "trades_numbered b = (map t_id (br_trades b) = map int [1..<Suc (length (br_trades b))]
     \<and> br_next_tid b = int (length (br_trades b)) + 1)"

definition valid_fill :: "trade \<Rightarrow> bool" where
  "valid_fill t = (is_valid_quantity (t_qty t) \<and> is_valid_price (t_price t))"

definition fills_valid :: "broker \<Rightarrow> bool" where
  "fills_valid b = list_all valid_fill (br_trades b)"

definition entries_open :: "broker \<Rightarrow> bool" where
  "entries_open b = (\<forall>k p. br_entries b k = Some p \<longrightarrow> \<not> feq (p_qty p) 0)"

interpretation replay: booking_invariant fe log_replays for fe
  by unfold_locales
    (simp_all add: log_replays_def new_broker_def replay_positions_def replay_entries_def
      record_fill_book)

interpretation numbering: booking_invariant fe trades_numbered for fe
  by unfold_locales
    (simp_all add: trades_numbered_def new_broker_def record_fill_book booked_trade_def)

interpretation validity: booking_invariant fe fills_valid for fe
  by unfold_locales
    (simp_all add: fills_valid_def new_broker_def record_fill_book booked_trade_def valid_fill_def)

interpretation entries: booking_invariant fe entries_open for fe
  by unfold_locales
    (auto simp: entries_open_def new_broker_def record_fill_book entries_update_def Let_def
      split: if_splits)

end
