(* ===== verification/Bt_Broker_Props.thy ===== *)
theory Bt_Broker_Props
  imports Bt_Broker_Laws
begin

text \<open>
  The properties of the simulated broker: the guarantees on the price of a fill, what the pending
  queue loses and gains on a bar, the reduce-only contract, the trade log, and the arithmetic of
  a position.
\<close>

section \<open>Fill prices\<close>

lemma valid_not_nan: "is_valid_price v \<Longrightarrow> \<not> is_nan v"
  by (simp add: is_valid_price_def)

lemma go_min_not_nan: "\<not> is_nan (go_min x y) \<Longrightarrow> \<not> is_nan x \<and> \<not> is_nan y"
  by (auto simp: go_min_def is_nan_def split: if_splits)

lemma go_max_not_nan: "\<not> is_nan (go_max x y) \<Longrightarrow> \<not> is_nan x \<and> \<not> is_nan y"
  by (auto simp: go_max_def is_nan_def split: if_splits)

lemma limit_fill_price:
  assumes "limit_fill od opn rng = Some (p, q)" "is_valid_price p"
  shows "(o_side od = Buy \<and> p \<le> o_price od \<and> p \<le> opn \<and> fst rng \<le> o_price od)
         \<or> (o_side od = Sell \<and> o_price od \<le> p \<and> opn \<le> p \<and> o_price od \<le> snd rng)"
proof -
  consider (buy) "o_side od = Buy" "p = go_min opn (o_price od)" "fst rng \<le> o_price od"
    | (sell) "o_side od = Sell" "p = go_max opn (o_price od)" "o_price od \<le> snd rng"
    using assms(1) by (auto simp: limit_fill_def Let_def split: if_splits prod.splits)
  then show ?thesis
  proof cases
    case buy
    then show ?thesis
      using go_min_not_nan [of opn "o_price od"] valid_not_nan [OF assms(2)]
        go_min_le1 [of opn "o_price od"] go_min_le2 [of opn "o_price od"] by simp
  next
    case sell
    then show ?thesis
      using go_max_not_nan [of opn "o_price od"] valid_not_nan [OF assms(2)]
        go_max_ge1 [of opn "o_price od"] go_max_ge2 [of opn "o_price od"] by simp
  qed
qed

lemma not_nan_plus: "\<not> is_nan (x + y) \<Longrightarrow> \<not> is_nan x \<and> \<not> is_nan (y :: f64)"
  by (cases x; cases y) (auto simp: is_nan_def)

lemma not_nan_minus: "\<not> is_nan (x - y) \<Longrightarrow> \<not> is_nan x \<and> \<not> is_nan (y :: f64)"
  by (cases x; cases y) (auto simp: is_nan_def minus_f64_def)

lemma slip_nonneg:
  "wf_f64 x \<Longrightarrow> wf_f64 s \<Longrightarrow> 0 \<le> x \<Longrightarrow> 0 \<le> s \<Longrightarrow> \<not> is_nan (x * s) \<Longrightarrow> FZero False \<le> x * s"
  using f64_mult_nonneg [of False x False s False] by (simp add: zero_f64_def)

text \<open>Slippage never improves a price.\<close>

lemma apply_slippage_buy:
  assumes "wf_f64 x" "wf_f64 (c_slippage cfg)" "0 \<le> x" "0 \<le> c_slippage cfg"
    "is_valid_price (apply_slippage cfg x Buy)"
  shows "x \<le> apply_slippage cfg x Buy"
proof -
  have n: "\<not> is_nan (x + x * c_slippage cfg)"
    using valid_not_nan [OF assms(5)] by (simp add: apply_slippage_def)
  then have "FZero False \<le> x * c_slippage cfg"
    using slip_nonneg assms(1-4) not_nan_plus by blast
  then show ?thesis using f64_add_mono [OF assms(1) _ n] by (simp add: apply_slippage_def)
qed

lemma apply_slippage_sell:
  assumes "wf_f64 x" "wf_f64 (c_slippage cfg)" "0 \<le> x" "0 \<le> c_slippage cfg" "s \<noteq> Buy"
    "is_valid_price (apply_slippage cfg x s)"
  shows "apply_slippage cfg x s \<le> x"
proof -
  have n: "\<not> is_nan (x - x * c_slippage cfg)"
    using valid_not_nan [OF assms(6)] assms(5) by (simp add: apply_slippage_def)
  then have "FZero False \<le> x * c_slippage cfg"
    using slip_nonneg assms(1-4) not_nan_minus by blast
  then show ?thesis using f64_sub_mono [OF assms(1) _ n] assms(5) by (simp add: apply_slippage_def)
qed

lemma valid_nonneg: "is_valid_price v \<Longrightarrow> 0 \<le> v"
  by (simp add: is_valid_price_def f64_less_imp_le)

lemma go_max_valid:
  assumes "is_valid_price x" "\<not> is_nan y"
  shows "0 \<le> go_max x y"
proof -
  have "0 \<le> x" using valid_nonneg [OF assms(1)] .
  then show ?thesis
    using go_max_ge1 [OF valid_not_nan [OF assms(1)] assms(2)] f64_le_trans by blast
qed

lemma wf_go_max: "wf_f64 x \<Longrightarrow> wf_f64 y \<Longrightarrow> wf_f64 (go_max x y)"
  by (simp add: go_max_def)

lemma wf_go_min: "wf_f64 x \<Longrightarrow> wf_f64 y \<Longrightarrow> wf_f64 (go_min x y)"
  by (simp add: go_min_def)

text \<open>Prices that are doubles; \<open>f64\<close> has values that no double has.\<close>

definition wf_prices :: "bar_prices \<Rightarrow> bool" where
  "wf_prices bp = (wf_f64 (b_open bp) \<and> wf_f64 (b_high bp) \<and> wf_f64 (b_low bp)
     \<and> wf_f64 (b_close bp) \<and> wf_f64 (b_bid_open bp) \<and> wf_f64 (b_bid_close bp)
     \<and> wf_f64 (b_ask_open bp) \<and> wf_f64 (b_ask_close bp))"

lemma wf_execution_open: "wf_prices bp \<Longrightarrow> wf_f64 (execution_open bp s mode)"
  by (simp add: wf_prices_def execution_open_def fallback_price_def)


text \<open>A bar and a broker for the closed examples.\<close>

definition ex_prices :: bar_prices where
  "ex_prices = \<lparr>b_open = FFin 100, b_high = FFin 110, b_low = FFin 90, b_close = FFin 105,
     b_bid_open = 0, b_bid_close = 0, b_ask_open = 0, b_ask_close = 0\<rparr>"

definition ex_config :: config where
  "ex_config = \<lparr>c_capital = FFin 1000, c_unit = [], c_commission = CommissionFlat,
     c_commission_value = FFin 1, c_slippage = FFin (1 / 128), c_execution = ExecutionPriceCanonical,
     c_valuation = ValuationPriceClose, c_trigger = TriggerPriceCanonical\<rparr>"

definition ex_sec :: secref where
  "ex_sec = \<lparr>sr_market = ''spot'', sr_symbol = ''BTC'', sr_interval = ''1h'', sr_index = 0\<rparr>"

definition ex_order :: "side \<Rightarrow> order_type \<Rightarrow> order" where
  "ex_order s tt = \<lparr>o_id = 0, o_entry = ''e'', o_reduce = False, o_sec = ex_sec, o_side = s,
     o_type = tt, o_note = [], o_qty = FFin 2, o_notional = 0, o_price = FFin 95,
     o_stop = FFin 108, o_twap = 0, o_bar = 0, o_time = 0\<rparr>"

definition ex_broker :: broker where
  "ex_broker = set_price_func (\<lambda>_. ex_prices) (new_broker ex_config)"

abbreviation no_fold :: "string \<Rightarrow> string \<Rightarrow> bool" where
  "no_fold \<equiv> (\<lambda>_ _. False)"

definition ex_fill :: "order \<Rightarrow> outcome" where
  "ex_fill od = fst (execute_order_on_bar no_fold (\<lambda>_. ex_prices) od 3 7 ex_broker)"

lemma ex_fillE:
  assumes "ex_fill od = Filled t"
  obtains b' where "execute_order_on_bar no_fold (\<lambda>_. ex_prices) od 3 7 ex_broker = (Filled t, b')"
  using assms by (cases "execute_order_on_bar no_fold (\<lambda>_. ex_prices) od 3 7 ex_broker")
    (auto simp: ex_fill_def)

lemma ex_limit_fill:
  "\<exists>t. ex_fill (ex_order Buy LimitOrder) = Filled t \<and> t_price t = FFin 95"
proof -
  have "(case ex_fill (ex_order Buy LimitOrder) of Filled t \<Rightarrow> t_price t = FFin 95 | _ \<Rightarrow> False)"
    by code_simp
  then show ?thesis by (auto split: outcome.splits)
qed


text \<open>
  A market-style fill is never better than the price it is based on: with a slippage that is
  not negative, a market, TWAP or stop order that fills on a bar pays at least the bar's open
  when it buys and receives at most the open otherwise; a stop order moreover pays at least its
  stop price, or receives at most its stop price. Prices and slippage are required to be doubles.
\<close>

theorem market_price_not_improved:
  assumes "execute_order_on_bar fe pf od bar time b = (Filled t, b')"
    and "o_type od \<in> {MarketOrder, TWAPMarketOrder, StopOrder}"
    and "0 \<le> c_slippage (br_config b)" "wf_f64 (c_slippage (br_config b))"
    and "wf_prices (pf (o_sec od))" "wf_f64 (o_stop od)"
  shows "let opn = execution_open (pf (o_sec od)) (o_side od) (c_execution (br_config b))
         in (if o_side od = Buy then opn \<le> t_price t \<and> (o_type od = StopOrder \<longrightarrow> o_stop od \<le> t_price t)
             else t_price t \<le> opn \<and> (o_type od = StopOrder \<longrightarrow> t_price t \<le> o_stop od))"
proof -
  obtain od' price qty opn where s: "size_reduce_only b od = Some od'"
    and opn: "opn = execution_open (pf (o_sec od')) (o_side od') (c_execution (br_config b))"
    and vo: "is_valid_price opn"
    and f: "fill_terms (br_config b) od' opn
       (trigger_range (pf (o_sec od')) (o_side od') (c_trigger (br_config b))) = Some (price, qty)"
    and v: "is_valid_price price" and t: "t = booked_trade od' qty price opn bar time b"
    using assms(1) by (rule execute_order_on_bar_filled)
  note same = size_reduce_only_same [OF s]
  have wo: "wf_f64 opn" using wf_execution_open assms(5) opn same by simp
  have tp: "t_price t = price" using t by (simp add: booked_trade_def)
  have opn': "execution_open (pf (o_sec od)) (o_side od) (c_execution (br_config b)) = opn"
    using opn same by simp
  show ?thesis
  proof (cases "o_type od = StopOrder")
    case False
    then have "price = apply_slippage (br_config b) opn (o_side od)"
      using f assms(2) same by (auto simp: fill_terms_def twap_fill_def Let_def split: if_splits)
    then show ?thesis
      using apply_slippage_buy [OF wo assms(4) valid_nonneg [OF vo] assms(3)] False v
        apply_slippage_sell [OF wo assms(4) valid_nonneg [OF vo] assms(3), of "o_side od"] tp
      by (auto simp: opn' Let_def)
  next
    case True
    define base where "base = (if o_side od = Buy then go_max opn (o_stop od) else go_min opn (o_stop od))"
    have trg: "stop_triggered od' (trigger_range (pf (o_sec od')) (o_side od') (c_trigger (br_config b)))"
      and p: "price = apply_slippage (br_config b) base (o_side od)"
      using f True same by (auto simp: fill_terms_def stop_fill_def base_def Let_def split: if_splits)
    have n: "\<not> is_nan (o_stop od)"
      using trg same f64_le_notnan by (auto simp: stop_triggered_def Let_def split: prod.splits)
    have wb: "wf_f64 base" using wo assms(6) by (simp add: base_def wf_go_max wf_go_min)
    show ?thesis
    proof (cases "o_side od = Buy")
      case buy: True
      have "base \<le> price"
        using apply_slippage_buy [OF wb assms(4) _ assms(3)] go_max_valid [OF vo n] p v buy
        by (simp add: base_def)
      then have "opn \<le> price" "o_stop od \<le> price"
        using buy go_max_ge1 [OF valid_not_nan [OF vo] n] go_max_ge2 [OF valid_not_nan [OF vo] n]
        by (auto simp: base_def intro: f64_le_trans)
      then show ?thesis unfolding opn' Let_def using buy tp by simp
    next
      case sell: False
      have "0 \<le> base \<Longrightarrow> price \<le> base"
        using apply_slippage_sell [OF wb assms(4) _ assms(3) sell] p v by simp
      moreover have "0 \<le> base"
      proof (rule ccontr)
        assume "\<not> 0 \<le> base"
        moreover have "base = opn \<or> base = o_stop od"
          using go_min_cases [OF valid_not_nan [OF vo] n] sell by (simp add: base_def)
        ultimately have bs: "base = o_stop od" "\<not> 0 \<le> o_stop od" using valid_nonneg [OF vo] by auto
        obtain low where "is_valid_price low" "low \<le> o_stop od"
          using trg sell same by (auto simp: stop_triggered_def Let_def split: prod.splits)
        then have "0 \<le> o_stop od" using valid_nonneg f64_le_trans by blast
        then show False using bs by simp
      qed
      ultimately have "price \<le> opn" "price \<le> o_stop od"
        using sell go_min_le1 [OF valid_not_nan [OF vo] n] go_min_le2 [OF valid_not_nan [OF vo] n]
        by (auto simp: base_def intro: f64_le_trans)
      then show ?thesis unfolding opn' Let_def using sell tp by simp
    qed
  qed
qed

lemma wf_examples: "wf_f64 (FFin (1 / 128))" "wf_f64 (FFin 108)" "wf_prices ex_prices"
  by (simp_all add: wf_f64_def wf_prices_def ex_prices_def zero_f64_def) code_simp+

theorem market_price_not_improved_witness:
  "\<exists>t. ex_fill (ex_order Buy StopOrder) = Filled t \<and> FFin 100 \<le> t_price t \<and> FFin 108 \<le> t_price t"
proof -
  have "(case ex_fill (ex_order Buy StopOrder) of Filled t \<Rightarrow> True | _ \<Rightarrow> False)" by code_simp
  then obtain t where t: "ex_fill (ex_order Buy StopOrder) = Filled t" by (auto split: outcome.splits)
  then obtain b' where "execute_order_on_bar no_fold (\<lambda>_. ex_prices) (ex_order Buy StopOrder) 3 7
      ex_broker = (Filled t, b')" by (rule ex_fillE)
  from market_price_not_improved [OF this] t wf_examples show ?thesis
    by (auto simp: ex_order_def ex_broker_def ex_config_def set_price_func_def new_broker_def Let_def
        execution_open_def ex_prices_def zero_f64_def fval_def)
qed

end
