(* ===== verification/Bt_Broker_Queue.thy ===== *)
theory Bt_Broker_Queue
  imports Bt_Broker_Props "HOL-Library.Sublist"
begin

text \<open>
  The pending queue, the trade log and reduce-only orders: what one bar does to the queue, what
  holds in every reachable state of the broker, and what a reduce-only fill leaves of its entry.
\<close>

section \<open>One bar and the pending queue\<close>

text \<open>The trade of a fill names its order.\<close>

definition trade_of :: "order \<Rightarrow> trade \<Rightarrow> bool" where
  "trade_of od t = (t_sec t = o_sec od \<and> t_side t = o_side od \<and> t_entry t = o_entry od
     \<and> t_reduce t = o_reduce od \<and> t_note t = o_note od \<and> (o_id od \<noteq> 0 \<longrightarrow> t_order t = o_id od)
     \<and> valid_fill t)"

text \<open>
  What becomes of an order on a bar: it stays as it is, it fills and is gone, or it is a TWAP
  order that fills a slice and stays with one bar and a positive quantity less.
\<close>

definition settles :: "order \<Rightarrow> trade list \<times> order list \<Rightarrow> bool" where
  "settles od = (\<lambda>(fs, rs).
     (fs = [] \<and> rs = [od])
     \<or> (\<exists>t. fs = [t] \<and> trade_of od t \<and>
          (rs = []
           \<or> (\<exists>qty notional. o_type od = TWAPMarketOrder \<and> 1 < o_twap od \<and> 0 < qty \<and>
                rs = [od\<lparr>o_qty := qty, o_notional := notional, o_twap := o_twap od - 1\<rparr>]))))"

lemma twap_rest_settles:
  assumes "twap_rest od t = Some od'"
  shows "\<exists>qty notional. o_type od = TWAPMarketOrder \<and> 1 < o_twap od \<and> 0 < qty \<and>
           od' = od\<lparr>o_qty := qty, o_notional := notional, o_twap := o_twap od - 1\<rparr>"
proof -
  define q where "q = (if o_qty od \<le> 0 \<and> 0 < o_notional od
     then t_qty t * f64_of_int (if o_twap od \<le> 0 then 1 else o_twap od) else o_qty od)"
  define nt where "nt = (if o_qty od \<le> 0 \<and> 0 < o_notional od then 0 else o_notional od)"
  have "o_type od = TWAPMarketOrder" "0 < q - t_qty t" "1 < o_twap od"
    "od' = od\<lparr>o_qty := q - t_qty t, o_notional := nt, o_twap := o_twap od - 1\<rparr>"
    using assms by (auto simp: twap_rest_def Let_def q_def nt_def split: if_splits)
  then show ?thesis by blast
qed

lemma filled_trade_of:
  "execute_order_on_bar fe pf od bar time b = (Filled t, b') \<Longrightarrow> trade_of od t"
  by (erule execute_order_on_bar_filled)
    (auto simp: trade_of_def booked_trade_def booked_order_id_def valid_fill_def size_reduce_only_def
      split: if_splits)

lemma process_loop_settles:
  "process_loop fe pf bar time ods fills rest b = (fills', rest', b') \<Longrightarrow>
     \<exists>parts. list_all2 settles ods parts \<and> fills' = fills @ concat (map fst parts)
       \<and> rest' = rest @ concat (map snd parts)"
proof (induction ods arbitrary: fills rest b)
  case (Cons od ods)
  obtain r b1 where r: "execute_order_on_bar fe pf od bar time b = (r, b1)" by fastforce
  have stay: ?case if "process_loop fe pf bar time ods fills (rest @ [od]) b1 = (fills', rest', b')"
  proof -
    from Cons.IH [OF that] obtain parts where "list_all2 settles ods parts"
      "fills' = fills @ concat (map fst parts)" "rest' = (rest @ [od]) @ concat (map snd parts)" by blast
    moreover have "settles od ([], [od])" by (simp add: settles_def)
    ultimately show ?thesis by (intro exI [of _ "([], [od]) # parts"]) simp
  qed
  show ?case
  proof (cases r)
    case (Filled t)
    define rs where "rs = (case twap_rest od t of None \<Rightarrow> [] | Some od' \<Rightarrow> [od'])"
    have "process_loop fe pf bar time ods (fills @ [t]) (rest @ rs) b1 = (fills', rest', b')"
      using Cons.prems r Filled by (auto simp: rs_def split: option.splits)
    from Cons.IH [OF this] obtain parts where "list_all2 settles ods parts"
      "fills' = (fills @ [t]) @ concat (map fst parts)" "rest' = (rest @ rs) @ concat (map snd parts)"
      by blast
    moreover have "settles od ([t], rs)"
      using filled_trade_of [of fe pf od bar time b t b1] r Filled twap_rest_settles [of od t]
      by (auto simp: settles_def rs_def split: option.splits)
    ultimately show ?thesis by (intro exI [of _ "([t], rs) # parts"]) simp
  qed (use Cons.prems r stay in auto)
qed simp

text \<open>
  C23. No order is lost or invented on a bar: \<open>ProcessPending\<close> treats the pending orders one by one
  in the order of submission. Each order either stays in the queue unchanged, or yields exactly
  one trade that carries its number, security, side and entry with a positive finite quantity and
  price; only a TWAP order with bars left stays after a fill, with a positive quantity and one bar
  less. The fills returned, the fills recorded and the new queue are exactly these, in order.
\<close>

theorem process_pending_settles:
  assumes "br_price_func b \<noteq> None" "process_pending fe bar time b = (fills, b')"
  shows "\<exists>parts. list_all2 settles (br_pending b) parts \<and> fills = concat (map fst parts)
           \<and> br_pending b' = concat (map snd parts)"
proof -
  obtain pf where pf: "br_price_func b = Some pf" using assms(1) by blast
  show ?thesis
  proof (cases "br_pending b = []")
    case True
    then show ?thesis using assms(2) pf by (auto simp: process_pending_def)
  next
    case False
    obtain fills' rest b1 where l: "process_loop fe pf bar time (br_pending b) [] [] b = (fills', rest, b1)"
      by (cases "process_loop fe pf bar time (br_pending b) [] [] b")
    then have "fills = fills'" "br_pending b' = rest"
      using assms(2) pf False by (auto simp: process_pending_def)
    then show ?thesis using process_loop_settles [OF l] by auto
  qed
qed

definition ex_queue :: broker where
  "ex_queue = snd (submit_order (ex_order Buy MarketOrder)
     (snd (submit_order ((ex_order Buy LimitOrder)\<lparr>o_price := FFin 80\<rparr>) ex_broker)))"

lemma submit_price_func: "br_price_func (snd (submit_order od b)) = br_price_func b"
  by (simp add: submit_order_def Let_def split: option.splits)

theorem process_pending_settles_witness:
  "\<exists>parts. list_all2 settles (br_pending ex_queue) parts
     \<and> length (concat (map fst parts)) = 1 \<and> map o_id (concat (map snd parts)) = [1]"
proof -
  obtain fills b' where p: "process_pending no_fold 3 7 ex_queue = (fills, b')" by fastforce
  have pf: "br_price_func ex_queue \<noteq> None"
    by (simp add: ex_queue_def submit_price_func ex_broker_def set_price_func_def)
  have "length (fst (process_pending no_fold 3 7 ex_queue)) = 1" by code_simp
  moreover have "map o_id (br_pending (snd (process_pending no_fold 3 7 ex_queue))) = [1]" by code_simp
  ultimately show ?thesis using process_pending_settles [OF pf p] p by auto
qed

section \<open>Invariants of the queue\<close>

text \<open>
  What identifies a pending order: its number and, for a reduce-only order, the entry it reduces.
  No operation changes it, so an invariant of the identities has to be kept by dropping orders
  and by the append of \<open>SubmitOrder\<close> alone.
\<close>

definition order_key :: "order \<Rightarrow> int \<times> entry_key option" where
  "order_key od = (o_id od, if o_reduce od then Some (o_sec od, o_entry od) else None)"

abbreviation queue_keys :: "broker \<Rightarrow> (int \<times> entry_key option) list" where
  "queue_keys b \<equiv> map order_key (br_pending b)"

lemma settles_rest:
  assumes "settles od p"
  shows "snd p = [] \<or> (\<exists>od'. snd p = [od'] \<and> order_key od' = order_key od)"
proof -
  obtain fs rs where p: "p = (fs, rs)" by fastforce
  have "rs = [od] \<or> rs = []
      \<or> (\<exists>qty notional. rs = [od\<lparr>o_qty := qty, o_notional := notional, o_twap := o_twap od - 1\<rparr>])"
    using assms unfolding settles_def p by (simp only: prod.case) blast
  then show ?thesis
  proof (elim disjE exE)
    fix qty notional
    assume "rs = [od\<lparr>o_qty := qty, o_notional := notional, o_twap := o_twap od - 1\<rparr>]"
    then show ?thesis using p
      by (intro disjI2 exI [of _ "od\<lparr>o_qty := qty, o_notional := notional, o_twap := o_twap od - 1\<rparr>"])
        (simp add: order_key_def)
  qed (auto simp: p)
qed

lemma settled_keys:
  "list_all2 settles ods parts \<Longrightarrow> subseq (map order_key (concat (map snd parts))) (map order_key ods)"
proof (induction rule: list_all2_induct)
  case (Cons od ods p parts)
  from settles_rest [OF Cons.hyps(1)] Cons.IH show ?case
    by (elim disjE exE conjE) (auto intro: list_emb_Cons)
qed simp

lemma process_loop_oid:
  "process_loop fe pf bar time ods fills rest b = (fills', rest', b') \<Longrightarrow> br_next_oid b \<le> br_next_oid b'"
proof (induction ods arbitrary: fills rest b)
  case (Cons od ods)
  obtain r b1 where r: "execute_order_on_bar fe pf od bar time b = (r, b1)" by fastforce
  have le: "br_next_oid b \<le> br_next_oid b1" by (rule execute_order_on_bar_frame [OF r])
  show ?case
  proof (cases r)
    case (Filled t)
    then show ?thesis using Cons.IH [of "fills @ [t]" _ b1] Cons.prems r le by fastforce
  qed (use Cons.IH [of fills "rest @ [od]" b1] Cons.prems r le in auto)
qed simp

lemma process_pending_keys:
  "subseq (queue_keys (snd (process_pending fe bar time b))) (queue_keys b)
   \<and> br_next_oid b \<le> br_next_oid (snd (process_pending fe bar time b))"
proof (cases "br_price_func b = None \<or> br_pending b = []")
  case True
  then show ?thesis by (auto simp: process_pending_def split: option.splits)
next
  case False
  then obtain pf where pf: "br_price_func b = Some pf" "br_pending b \<noteq> []" by auto
  obtain fills rest b1 where l: "process_loop fe pf bar time (br_pending b) [] [] b = (fills, rest, b1)"
    by (cases "process_loop fe pf bar time (br_pending b) [] [] b")
  obtain parts where "list_all2 settles (br_pending b) parts" "rest = concat (map snd parts)"
    using process_loop_settles [OF l] by auto
  then have "subseq (map order_key rest) (queue_keys b)" using settled_keys by blast
  then show ?thesis using pf l process_loop_oid [OF l] by (simp add: process_pending_def)
qed

lemma filled_or_not_keys:
  assumes "execute_order_on_bar fe pf od bar time b = (r, b1)"
    "b' = snd (case r of Filled t \<Rightarrow> record_fill (t, b1) | _ \<Rightarrow> (None, b1))"
  shows "queue_keys b' = queue_keys b \<and> br_next_oid b \<le> br_next_oid b'"
  using execute_order_on_bar_frame [OF assms(1)] assms(2) by (cases r) (auto simp: record_fill_def)

lemma execute_order_now_keys:
  "queue_keys (snd (execute_order_now fe od bar time b)) = queue_keys b
   \<and> br_next_oid b \<le> br_next_oid (snd (execute_order_now fe od bar time b))"
proof (cases "br_price_func b")
  case (Some pf)
  show ?thesis
  proof (cases "size_reduce_only b od")
    case (Some od')
    obtain r b1 where r: "execute_order_on_bar fe pf od' bar time b = (r, b1)" by fastforce
    have "snd (execute_order_now fe od bar time b)
        = snd (case r of Filled t \<Rightarrow> record_fill (t, b1) | _ \<Rightarrow> (None, b1))"
      using \<open>br_price_func b = Some pf\<close> Some r by (cases r) (simp_all add: execute_order_now_def)
    from filled_or_not_keys [OF r this] show ?thesis .
  qed (simp add: execute_order_now_def Some)
qed (simp add: execute_order_now_def)

lemma submit_order_keys:
  "snd (submit_order od b) = b
   \<or> (\<exists>r. queue_keys (snd (submit_order od b)) = queue_keys b @ [(br_next_oid b, r)]
        \<and> (r \<noteq> None \<longrightarrow> r \<notin> snd ` set (queue_keys b))
        \<and> br_next_oid (snd (submit_order od b)) = br_next_oid b + 1)"
proof (cases "size_reduce_only b od")
  case (Some od')
  note same = size_reduce_only_same [OF Some]
  show ?thesis
  proof (cases "if o_reduce od'
      then find (\<lambda>p. o_reduce p \<and> o_sec p = o_sec od' \<and> o_entry p = o_entry od') (br_pending b) else None")
    case None
    define r where "r = (if o_reduce od' then Some (o_sec od', o_entry od') else None)"
    have "r \<noteq> None \<Longrightarrow> r \<notin> snd ` set (queue_keys b)"
      using None by (auto simp: r_def order_key_def find_None_iff split: if_splits)
    moreover have "queue_keys (snd (submit_order od b)) = queue_keys b @ [(br_next_oid b, r)]"
      "br_next_oid (snd (submit_order od b)) = br_next_oid b + 1"
      using Some None by (auto simp: submit_order_def Let_def order_key_def r_def)
    ultimately show ?thesis by blast
  qed (simp add: submit_order_def Some)
qed (simp add: submit_order_def)

locale queue_invariant =
  fixes fe :: "string \<Rightarrow> string \<Rightarrow> bool" and Q :: "(int \<times> entry_key option) list \<Rightarrow> int \<Rightarrow> bool"
  assumes empty: "Q [] 1"
    and fewer: "Q ks n \<Longrightarrow> subseq ks' ks \<Longrightarrow> n \<le> m \<Longrightarrow> Q ks' m"
    and submitted: "Q ks n \<Longrightarrow> (r \<noteq> None \<longrightarrow> r \<notin> snd ` set ks) \<Longrightarrow> Q (ks @ [(n, r)]) (n + 1)"
begin

lemma fill_keeps:
  "Q (queue_keys b) (br_next_oid b) \<Longrightarrow>
     Q (queue_keys (snd (record_fill (book_fill fe od q p r bar time b))))
       (br_next_oid (snd (record_fill (book_fill fe od q p r bar time b))))"
  by (rule fewer) (auto simp: record_fill_book)

lemma step_keeps:
  assumes "broker_step fe b b'" "Q (queue_keys b) (br_next_oid b)"
  shows "Q (queue_keys b') (br_next_oid b')"
  using assms(1)
proof (cases rule: broker_step.cases)
  case (step_submit od)
  then show ?thesis using submit_order_keys [of od b] submitted assms(2) by auto
next
  case (step_process bar time)
  then show ?thesis using process_pending_keys [of fe bar time b] fewer assms(2) by blast
next
  case (step_now od bar time)
  then show ?thesis using execute_order_now_keys [of fe od bar time b] fewer [OF assms(2)] by simp
next
  case step_close
  then show ?thesis using fill_keeps assms(2)
    by (auto simp: execute_order_at_close_now_def Let_def split: option.splits)
next
  case step_stop
  then show ?thesis using fill_keeps assms(2)
    by (auto simp: execute_stop_order_now_def Let_def split: option.splits prod.splits)
next
  case (step_cancel r)
  have "subseq (queue_keys b') (queue_keys b)"
    using step_cancel by (simp add: cancel_orders_def subseq_map)
  then show ?thesis using fewer [OF assms(2)] step_cancel by (simp add: cancel_orders_def)
qed (use assms(2) in \<open>auto simp: set_price_func_def adjust_cash_def\<close>)

lemma reachable_keeps: "reachable fe cfg b \<Longrightarrow> Q (queue_keys b) (br_next_oid b)"
proof (induction rule: reachable.induct)
  case reachable_new
  then show ?case using empty by (simp add: new_broker_def)
qed (rule step_keeps)

end

section \<open>Order numbers and reduce-only orders\<close>

definition keys_numbered :: "(int \<times> entry_key option) list \<Rightarrow> int \<Rightarrow> bool" where
  "keys_numbered ks n = (sorted_wrt (<) (map fst ks) \<and> 1 \<le> n \<and> (\<forall>k \<in> set ks. 1 \<le> fst k \<and> fst k < n))"

definition keys_unique :: "(int \<times> entry_key option) list \<Rightarrow> int \<Rightarrow> bool" where
  "keys_unique ks n = distinct (List.map_filter snd ks)"

lemma sorted_wrt_subseq: "subseq xs ys \<Longrightarrow> sorted_wrt P ys \<Longrightarrow> sorted_wrt P xs"
  by (induction rule: list_emb.induct) (auto dest: list_emb_set)

lemma distinct_iff_neq: "distinct xs \<longleftrightarrow> sorted_wrt (\<noteq>) xs"
  by (induction xs) auto

lemma subseq_map_filter: "subseq xs ys \<Longrightarrow> subseq (List.map_filter f xs) (List.map_filter f ys)"
  by (induction rule: list_emb.induct) (auto simp: List.map_filter_def intro: list_emb_Cons)

interpretation queue_numbers: queue_invariant fe keys_numbered for fe
proof unfold_locales
  fix ks ks' :: "(int \<times> entry_key option) list" and n m :: int
  assume "keys_numbered ks n" "subseq ks' ks" "n \<le> m"
  moreover have "set ks' \<subseteq> set ks" using \<open>subseq ks' ks\<close> by (auto dest: list_emb_set)
  ultimately show "keys_numbered ks' m"
    using sorted_wrt_subseq [OF subseq_map [of ks' ks fst]] by (fastforce simp: keys_numbered_def)
qed (auto simp: keys_numbered_def sorted_wrt_append)

interpretation queue_entries: queue_invariant fe keys_unique for fe
proof unfold_locales
  fix ks ks' :: "(int \<times> entry_key option) list" and n m :: int
  assume "keys_unique ks n" "subseq ks' ks"
  then show "keys_unique ks' m"
    using subseq_map_filter [of ks' ks snd] sorted_wrt_subseq by (fastforce simp: keys_unique_def distinct_iff_neq)
next
  fix ks :: "(int \<times> entry_key option) list" and n r
  assume "keys_unique ks n" "r \<noteq> None \<longrightarrow> r \<notin> snd ` set ks"
  then show "keys_unique (ks @ [(n, r)]) (n + 1)"
    by (cases r) (auto simp: keys_unique_def List.map_filter_def image_iff split: option.splits)
qed (simp add: keys_unique_def List.map_filter_def)

text \<open>
  C33. In every reachable broker the pending orders have increasing numbers between 1 and the next
  number, so no two pending orders share a number, and each entry of a security has at most one
  pending reduce-only order.
\<close>

theorem queue_well_formed:
  assumes "reachable fe cfg b"
  shows "sorted_wrt (<) (map o_id (br_pending b))
    \<and> (\<forall>od \<in> set (br_pending b). 1 \<le> o_id od \<and> o_id od < br_next_oid b)
    \<and> distinct (map (\<lambda>od. (o_sec od, o_entry od)) (filter o_reduce (br_pending b)))"
proof -
  have "List.map_filter snd (map order_key ods)
      = map (\<lambda>od. (o_sec od, o_entry od)) (filter o_reduce ods)" for ods
    by (induction ods) (auto simp: List.map_filter_def order_key_def)
  moreover have "fst \<circ> order_key = o_id" by (simp add: order_key_def comp_def)
  ultimately show ?thesis
    using queue_numbers.reachable_keeps [OF assms] queue_entries.reachable_keeps [OF assms]
    by (auto simp: keys_numbered_def keys_unique_def order_key_def)
qed

lemma ex_queue_reachable: "reachable no_fold ex_config ex_queue"
  unfolding ex_queue_def ex_broker_def
  by (intro reachable_step [OF _ step_submit] reachable_step [OF _ step_price] reachable_new)

theorem queue_well_formed_witness:
  "sorted_wrt (<) (map o_id (br_pending ex_queue)) \<and> map o_id (br_pending ex_queue) = [1, 2]"
proof -
  have "map o_id (br_pending ex_queue) = [1, 2]" by code_simp
  with queue_well_formed [OF ex_queue_reachable] show ?thesis by blast
qed

end
