(* ===== verification/Bt_Position_Laws.thy ===== *)
theory Bt_Position_Laws
  imports Bt_Position
begin

text \<open>
  The arithmetic of one position. Subtracting two different doubles never rounds to zero, so a
  fill against a position leaves it smaller, closes it, or turns it over, and never anything
  else, whatever the rounding.
\<close>

section \<open>Differences of doubles\<close>

text \<open>The smallest double; every double is an integer multiple of it.\<close>

definition tiny :: rat where
  "tiny = 2 powi (- 1074)"

lemma tiny_pos: "0 < tiny"
  by (simp only: tiny_def zero_less_power_int zero_less_numeral)

lemma wf_grid:
  assumes "wf_f64 (FFin q)"
  obtains m where "q = of_int m * tiny"
proof -
  let ?e = "ulp_exp \<bar>q\<bar>" and ?n = "rhe (\<bar>q\<bar> * 2 powi (- ulp_exp \<bar>q\<bar>))"
  have "rnd q = FFin q" "q \<noteq> 0" using assms by (auto dest: wf_FFinD)
  then have q: "q = (if q < 0 then - rnd_mag \<bar>q\<bar> else rnd_mag \<bar>q\<bar>)"
    by (auto simp: rnd_def Let_def split: if_splits)
  have "(2 :: rat) powi ?e = 2 powi (?e - (- 1074)) * tiny"
    unfolding tiny_def by (rule powi2_split)
  also have "\<dots> = of_int (2 ^ nat (?e - (- 1074))) * tiny"
    by (subst powi2_int) (simp_all add: ulp_exp_def)
  finally have "rnd_mag \<bar>q\<bar> = of_int (?n * 2 ^ nat (?e - (- 1074))) * tiny"
    unfolding rnd_mag_def by simp
  then have "q = of_int ((if q < 0 then - 1 else 1) * (?n * 2 ^ nat (?e - (- 1074)))) * tiny"
    using q by (auto split: if_splits)
  then show ?thesis by (rule that)
qed

lemma rnd_tiny: "rnd_mag tiny = tiny"
proof (rule rnd_mag_grid [of _ 1 "- 1074"])
  have "2 powi rat_exp tiny \<le> tiny" using rat_exp_bounds(1) [of tiny] tiny_pos by simp
  then have "rat_exp tiny \<le> - 1074" by (simp only: tiny_def powi2_le_iff)
  then show "ulp_exp tiny \<le> - 1074" by (simp add: ulp_exp_def)
qed (simp only: tiny_def of_int_1 mult_1)

lemma rnd_grid_pos:
  assumes "q = of_int m * tiny" "0 < q"
  shows "0 < rnd q"
proof -
  have "0 < m" using assms tiny_pos by (simp add: zero_less_mult_iff)
  then have "(1 :: rat) \<le> of_int m" by simp
  then have "tiny \<le> q" unfolding assms(1) using tiny_pos by (simp add: mult_le_cancel_right1)
  then have "tiny \<le> rnd_mag q"
    using rnd_mag_mono [of tiny q] tiny_pos by (simp add: rnd_tiny)
  then have "0 < rnd_mag q" using tiny_pos by linarith
  then show ?thesis using assms(2) by (auto simp: rnd_def Let_def zero_f64_def fval_def)
qed

lemma fval_simps [simp]: "fval (FFin q) = q" "fval (FZero s) = 0"
  by (simp_all add: fval_def)

lemma f64_sub_pos:
  assumes "wf_f64 (FFin p)" "wf_f64 (FFin q)" "0 \<le> q" "q < p"
  shows "0 < FFin p - FFin q" "FFin p - FFin q \<le> FFin p"
proof -
  obtain m n where "p = of_int m * tiny" "q = of_int n * tiny"
    using assms(1,2) by (metis wf_grid)
  then have "p - q = of_int (m - n) * tiny" by (simp add: left_diff_distrib)
  from rnd_grid_pos [OF this] have "0 < rnd (p - q)" using assms(4) by simp
  then show "0 < FFin p - FFin q" using assms(4) by (simp add: minus_f64_def radd_def)
  show "FFin p - FFin q \<le> FFin p"
    using assms radd_le [of p q] by (auto simp: minus_f64_def dest: wf_FFinD)
qed

lemma f64_sub_self [simp]: "FFin p - FFin p = FZero False"
  by (simp add: minus_f64_def radd_def)

lemma go_abs_fin [simp]: "go_abs (FFin q) = FFin \<bar>q\<bar>"
  by (simp add: go_abs_def zero_f64_def)

lemma wf_abs: "wf_f64 (FFin q) \<Longrightarrow> wf_f64 (FFin \<bar>q\<bar>)"
  using wf_uminus [of "FFin q"] by (auto simp: abs_if)

lemma f64_zero_less [simp]: "0 < FFin q \<longleftrightarrow> 0 < q" "FFin q < 0 \<longleftrightarrow> q < 0"
  by (simp_all add: zero_f64_def fval_def)

lemma feq_zero [simp]: "feq (FFin q) 0 \<longleftrightarrow> q = 0"
  by (auto simp: feq_def zero_f64_def fval_def)

lemma zero_less_zero [simp]: "\<not> (0 :: f64) < FZero s" "\<not> FZero s < (0 :: f64)"
  by (simp_all add: zero_f64_def fval_def)

lemma valid_quantity_pos: "0 < go_abs x \<Longrightarrow> \<not> is_inf (go_abs x) \<Longrightarrow> \<exists>q. x = FFin q \<and> q \<noteq> 0"
  by (cases x) (auto simp: go_abs_def zero_f64_def fval_def is_inf_def split: if_splits)

section \<open>Fills against a position\<close>

lemma update_against:
  assumes "p_qty p = FFin q" "signed_qty t = FFin f" "q \<noteq> 0" "f \<noteq> 0" "0 < q \<longleftrightarrow> f < 0"
  shows "update_position p t = reduce_position p t (FFin f)"
  using assms by (auto simp: update_position_def Let_def)

text \<open>The three outcomes of a reduction, by the size of the fill.\<close>

lemma reduce_qty:
  assumes "p_qty p = FFin q" "q \<noteq> 0" "0 < FFin (abs q) - FFin (abs f)" "\<bar>f\<bar> < \<bar>q\<bar>"
  shows "p_qty (reduce_position p t (FFin f))
      = (if 0 < q then FFin (abs q) - FFin (abs f) else - (FFin (abs q) - FFin (abs f)))"
    "p_avg (reduce_position p t (FFin f)) = p_avg p"
proof -
  have "\<not> \<bar>q\<bar> < \<bar>f\<bar>" using assms(4) by linarith
  then show "p_qty (reduce_position p t (FFin f))
      = (if 0 < q then FFin (abs q) - FFin (abs f) else - (FFin (abs q) - FFin (abs f)))"
    "p_avg (reduce_position p t (FFin f)) = p_avg p"
    using assms by (simp_all add: reduce_position_def Let_def del: abs_of_pos abs_of_nonneg)
qed

lemma reduce_equal:
  assumes "p_qty p = FFin q" "\<bar>f\<bar> = \<bar>q\<bar>"
  shows "p_qty (reduce_position p t (FFin f)) = 0" "p_avg (reduce_position p t (FFin f)) = 0"
     "p_cost (reduce_position p t (FFin f)) = 0"
  using assms by (simp_all add: reduce_position_def Let_def)

lemma reduce_over:
  assumes "p_qty p = FFin q" "0 < FFin (abs f) - FFin (abs q)" "\<bar>q\<bar> < \<bar>f\<bar>"
  shows "p_qty (reduce_position p t (FFin f))
      = (if 0 < f then FFin (abs f) - FFin (abs q) else - (FFin (abs f) - FFin (abs q)))"
    "p_avg (reduce_position p t (FFin f)) = t_price t"
  using assms by (simp_all add: reduce_position_def Let_def)


definition ex_trade :: "side \<Rightarrow> rat \<Rightarrow> trade" where
  "ex_trade s q = \<lparr>t_id = 1, t_order = 1, t_entry = ''e'', t_reduce = False,
     t_sec = \<lparr>sr_market = ''spot'', sr_symbol = ''BTC'', sr_interval = ''1h'', sr_index = 0\<rparr>,
     t_side = s, t_note = [], t_qty = FFin q, t_price = FFin 100, t_commission = 0,
     t_slippage = 0, t_bar = 0, t_time = 0\<rparr>"

definition ex_long :: position where
  "ex_long = update_position (flat (t_sec (ex_trade Buy 3))) (ex_trade Buy 3)"


end
