(* ===== verification/Bt_Broker_Log.thy ===== *)
theory Bt_Broker_Log
  imports Bt_Broker_Queue Bt_Position_Laws
begin

text \<open>
  The trade log of the broker, reduce-only fills, immediate execution against execution on the
  next bar, and the arithmetic of a position that is reduced.
\<close>

section \<open>The trade log\<close>

text \<open>
  C13. The trade log is the whole story of a broker: in every reachable broker the positions of the
  securities and the positions of the entries are exactly what replaying the log of trades in
  order from nothing gives, and no recorded entry is flat.
\<close>

theorem positions_are_the_log:
  assumes "reachable fe cfg b"
  shows "br_positions b = replay_positions (br_trades b)
    \<and> br_entries b = replay_entries (br_trades b)
    \<and> (\<forall>k p. br_entries b k = Some p \<longrightarrow> \<not> feq (p_qty p) 0)"
  using replay.reachable_invariant [OF assms] entries.reachable_invariant [OF assms]
  by (simp add: log_replays_def entries_open_def)

text \<open>
  The trades of a reachable broker are numbered 1, 2, 3, and so on in the order in which they
  were recorded, the next trade number is the first unused one, and every trade has a positive
  finite quantity and a positive finite price.
\<close>

theorem trades_well_formed:
  assumes "reachable fe cfg b"
  shows "map t_id (br_trades b) = map int [1..<Suc (length (br_trades b))]
    \<and> br_next_tid b = int (length (br_trades b)) + 1
    \<and> (\<forall>t \<in> set (br_trades b). is_valid_quantity (t_qty t) \<and> is_valid_price (t_price t))"
  using numbering.reachable_invariant [OF assms] validity.reachable_invariant [OF assms]
  by (simp add: trades_numbered_def fills_valid_def list_all_iff valid_fill_def)

definition ex_traded :: broker where
  "ex_traded = snd (process_pending no_fold 3 7 ex_queue)"

lemma ex_traded_reachable: "reachable no_fold ex_config ex_traded"
  unfolding ex_traded_def by (rule reachable_step [OF ex_queue_reachable step_process])

lemma ex_traded_log: "length (br_trades ex_traded) = 1"
  by code_simp

theorem positions_are_the_log_witness:
  "br_positions ex_traded = replay_positions (br_trades ex_traded) \<and> length (br_trades ex_traded) = 1"
  using positions_are_the_log [OF ex_traded_reachable] ex_traded_log by blast

theorem trades_well_formed_witness:
  "map t_id (br_trades ex_traded) = [1] \<and> br_next_tid ex_traded = 2"
  using trades_well_formed [OF ex_traded_reachable] ex_traded_log by simp

section \<open>Immediate execution\<close>

lemma size_reduce_only_again:
  assumes "size_reduce_only b od = Some od'" "br_entries b' = br_entries b"
  shows "size_reduce_only b' (od'\<lparr>o_id := n\<rparr>) = Some (od'\<lparr>o_id := n\<rparr>)"
  using assms
  by (auto simp: size_reduce_only_def reducible_entry_quantity_def split: if_splits option.splits)

lemma size_reduce_only_twice: "size_reduce_only b od = Some od' \<Longrightarrow> size_reduce_only b od' = Some od'"
  using size_reduce_only_again [of b od od' b "o_id od'"] by simp

lemma fill_terms_id [simp]: "fill_terms cfg (od\<lparr>o_id := n\<rparr>) opn rng = fill_terms cfg od opn rng"
proof -
  have q: "resolve_order_qty (od\<lparr>o_id := n\<rparr>) x = resolve_order_qty od x" for x
    by (simp add: resolve_order_qty_def)
  have l: "limit_fill (od\<lparr>o_id := n\<rparr>) opn rng = limit_fill od opn rng"
    by (cases rng) (simp add: limit_fill_def Let_def q)
  have s: "stop_triggered (od\<lparr>o_id := n\<rparr>) rng = stop_triggered od rng"
    by (simp add: stop_triggered_def)
  show ?thesis
    by (cases "o_type od") (simp_all add: fill_terms_def q l s stop_fill_def twap_fill_def Let_def)
qed

lemma book_fill_numbered:
  assumes "o_id od = 0" "br_next_oid b \<noteq> 0"
  shows "book_fill fe (od\<lparr>o_id := br_next_oid b\<rparr>) q p r bar time
       (b\<lparr>br_next_oid := br_next_oid b + 1, br_pending := ps\<rparr>)
     = (booked_trade od q p r bar time b, (snd (book_fill fe od q p r bar time b))\<lparr>br_pending := ps\<rparr>)"
  using assms
  by (cases b) (simp add: book_fill_def booked_trade_def booked_order_id_def apply_trade_def Let_def)

text \<open>
  C32. Executing an order now is the same as submitting it and processing the bar: with nothing
  pending, if \<open>ExecuteOrderNow\<close> fills an order without a number that is not a TWAP order, then
  \<open>SubmitOrder\<close> followed by \<open>ProcessPending\<close> on the same bar gives the same single trade and
  leaves the broker in the same state.
\<close>

theorem now_is_submit_and_process:
  assumes "br_pending b = []" "1 \<le> br_next_oid b" "o_id od = 0" "o_type od \<noteq> TWAPMarketOrder"
    and "execute_order_now fe od bar time b = (Some t, b')"
  shows "process_pending fe bar time (snd (submit_order od b)) = ([t], b')"
proof -
  obtain pf where pf: "br_price_func b = Some pf"
    using assms(5) by (auto simp: execute_order_now_def split: option.splits)
  obtain od' where od': "size_reduce_only b od = Some od'"
    using assms(5) pf by (auto simp: execute_order_now_def split: option.splits)
  note same = size_reduce_only_same [OF od']
  obtain b2 where x: "execute_order_on_bar fe pf od' bar time b = (Filled t, b2)"
    and b': "b' = b2\<lparr>br_trades := br_trades b2 @ [t]\<rparr>"
    using assms(5) pf od' by (auto simp: execute_order_now_def record_fill_def split: prod.splits outcome.splits)
  obtain price qty opn where opn: "opn = execution_open (pf (o_sec od')) (o_side od') (c_execution (br_config b))"
    and v: "is_valid_price opn"
    and f: "fill_terms (br_config b) od' opn
       (trigger_range (pf (o_sec od')) (o_side od') (c_trigger (br_config b))) = Some (price, qty)"
    and q: "is_valid_quantity qty" "is_valid_price price"
    and t: "t = booked_trade od' qty price opn bar time b"
    and b2: "b2 = snd (book_fill fe od' qty price opn bar time b)"
    using x size_reduce_only_twice [OF od'] by (auto elim!: execute_order_on_bar_filled)
  define n where "n = br_next_oid b"
  define b1 where "b1 = b\<lparr>br_next_oid := n + 1, br_pending := [od'\<lparr>o_id := n\<rparr>]\<rparr>"
  have sub: "snd (submit_order od b) = b1"
    using od' assms(1) by (simp add: submit_order_def b1_def n_def Let_def)
  have "execute_order_on_bar fe pf (od'\<lparr>o_id := n\<rparr>) bar time b1
      = (Filled t, b2\<lparr>br_pending := [od'\<lparr>o_id := n\<rparr>]\<rparr>)"
    using size_reduce_only_again [OF od', of b1 n] opn v f q
      book_fill_numbered [of od' b fe qty price opn bar time "[od'\<lparr>o_id := n\<rparr>]"] assms(2,3) same t b2
    by (simp add: execute_order_on_bar_def b1_def n_def Let_def)
  moreover have "twap_rest (od'\<lparr>o_id := n\<rparr>) t = None"
    using assms(4) same by (simp add: twap_rest_def)
  ultimately have "process_loop fe pf bar time (br_pending b1) [] [] b1
      = ([t], [], b2\<lparr>br_pending := [od'\<lparr>o_id := n\<rparr>]\<rparr>)"
    by (simp add: b1_def)
  moreover have "br_pending b2 = []" using b2 assms(1) by simp
  ultimately show ?thesis
    using pf b' by (cases b2) (simp add: process_pending_def sub, simp add: b1_def)
qed

lemma ex_now: "fst (execute_order_now no_fold (ex_order Buy MarketOrder) 3 7 ex_broker) \<noteq> None"
proof -
  have "\<not> Option.is_none (fst (execute_order_now no_fold (ex_order Buy MarketOrder) 3 7 ex_broker))"
    by code_simp
  then show ?thesis by (simp add: Option.is_none_def)
qed

theorem now_is_submit_and_process_witness:
  "\<exists>t. process_pending no_fold 3 7 (snd (submit_order (ex_order Buy MarketOrder) ex_broker))
     = ([t], snd (execute_order_now no_fold (ex_order Buy MarketOrder) 3 7 ex_broker))"
proof -
  obtain t b' where x: "execute_order_now no_fold (ex_order Buy MarketOrder) 3 7 ex_broker = (Some t, b')"
    using ex_now by (cases "execute_order_now no_fold (ex_order Buy MarketOrder) 3 7 ex_broker") auto
  have "br_pending ex_broker = []" "1 \<le> br_next_oid ex_broker"
    by (simp_all add: ex_broker_def set_price_func_def new_broker_def)
  from now_is_submit_and_process [OF this _ _ x] x show ?thesis by (simp add: ex_order_def)
qed

section \<open>Reduce-only fills\<close>

text \<open>
  C22. A reduce-only order closes its entry exactly: when a reduce-only order that is not a TWAP
  order fills on a bar, the entry it names was open, the order is on the closing side, the
  quantity of the trade is the whole quantity of the entry whatever the quantity the order was
  submitted with, and afterwards the entry is gone while all other entries are as before.
\<close>

theorem reduce_only_closes_entry:
  assumes "execute_order_on_bar fe pf od bar time b = (Filled t, b')"
    and "o_reduce od" "o_type od \<noteq> TWAPMarketOrder"
  shows "\<exists>p. br_entries b (o_sec od, o_entry od) = Some p \<and> t_qty t = go_abs (p_qty p)
      \<and> o_side od = (if 0 < p_qty p then Sell else Buy)
      \<and> br_entries b' = (br_entries b)((o_sec od, o_entry od) := None)"
  using assms(1)
proof (rule execute_order_on_bar_filled)
  fix od' price qty opn
  assume s: "size_reduce_only b od = Some od'"
    and f: "fill_terms (br_config b) od' opn
       (trigger_range (pf (o_sec od')) (o_side od') (c_trigger (br_config b))) = Some (price, qty)"
    and v: "is_valid_quantity qty" and t: "t = booked_trade od' qty price opn bar time b"
    and b': "b' = snd (book_fill fe od' qty price opn bar time b)"
  note same = size_reduce_only_same [OF s]
  obtain p where p: "br_entries b (o_sec od, o_entry od) = Some p" and e: "o_entry od \<noteq> []"
    and od': "o_qty od' = go_abs (p_qty p)" "o_notional od' = 0"
    and side: "0 < p_qty p \<Longrightarrow> o_side od = Sell" "p_qty p < 0 \<Longrightarrow> o_side od = Buy"
    using s assms(2)
    by (auto simp: size_reduce_only_def reducible_entry_quantity_def split: if_splits option.splits)
  have "\<exists>x. qty = resolve_order_qty od' x"
    using f assms(3) same
    by (auto simp: fill_terms_def limit_fill_def stop_fill_def Let_def
        split: order_type.splits if_splits prod.splits)
  then have q: "qty = go_abs (p_qty p)"
    using od' v by (auto simp: resolve_order_qty_def is_valid_quantity_def zero_f64_def fval_def split: if_splits)
  then obtain r where r: "p_qty p = FFin r" "r \<noteq> 0"
    using valid_quantity_pos [of "p_qty p"] v by (auto simp: is_valid_quantity_def)
  have sd: "o_side od = (if 0 < p_qty p then Sell else Buy)" using side r by auto
  have "signed_qty t = FFin (- r)"
    using t q same sd r by (auto simp: signed_qty_def booked_trade_def)
  from update_against [OF r(1) this r(2)] r(2)
  have "update_position p t = reduce_position p t (FFin (- r))" by auto
  then have "p_qty (update_position p t) = 0" using reduce_equal [OF r(1), of "- r" t] by simp
  then have "entries_update (br_entries b) t = (br_entries b)((o_sec od, o_entry od) := None)"
    using t same p e by (simp add: entries_update_def booked_trade_def Let_def feq_def zero_f64_def fval_def)
  then show ?thesis using p q sd t b' by (auto simp: booked_trade_def)
qed

definition ex_exit :: order where
  "ex_exit = (ex_order Sell MarketOrder)\<lparr>o_reduce := True, o_qty := FFin 50\<rparr>"

definition ex_holding :: broker where
  "ex_holding = ex_broker\<lparr>br_entries := (br_entries ex_broker)((ex_sec, ''e'') \<mapsto>
     \<lparr>p_sec = ex_sec, p_qty = FFin 2, p_avg = FFin 100, p_realized = 0, p_cost = FFin 200\<rparr>)\<rparr>"

lemma ex_exit_fills:
  "\<exists>t b'. execute_order_on_bar no_fold (\<lambda>_. ex_prices) ex_exit 4 8 ex_holding = (Filled t, b')"
proof -
  have "(case fst (execute_order_on_bar no_fold (\<lambda>_. ex_prices) ex_exit 4 8 ex_holding) of
      Filled t \<Rightarrow> True | _ \<Rightarrow> False)" by code_simp
  then show ?thesis
    by (cases "execute_order_on_bar no_fold (\<lambda>_. ex_prices) ex_exit 4 8 ex_holding")
      (auto split: outcome.splits)
qed

theorem reduce_only_closes_entry_witness:
  "\<exists>t b'. execute_order_on_bar no_fold (\<lambda>_. ex_prices) ex_exit 4 8 ex_holding = (Filled t, b')
     \<and> br_entries b' (ex_sec, ''e'') = None \<and> br_entries ex_holding (ex_sec, ''e'') \<noteq> None"
proof -
  obtain t b' where x: "execute_order_on_bar no_fold (\<lambda>_. ex_prices) ex_exit 4 8 ex_holding = (Filled t, b')"
    using ex_exit_fills by blast
  from reduce_only_closes_entry [OF this] x show ?thesis
    by (auto simp: ex_exit_def ex_order_def ex_holding_def)
qed

section \<open>Two observations on the code\<close>

text \<open>
  A trade whose side is neither buy nor sell, as an order built without a side has, brings cash
  in like a sale and adds to the position like a purchase.
\<close>

lemma unset_side_pays_and_buys:
  assumes "t_side t = OtherSide n"
  shows "net_amount t = t_qty t * t_price t - t_commission t \<and> signed_qty t = t_qty t
    \<and> update_position (flat r) t
        = \<lparr>p_sec = r, p_qty = t_qty t, p_avg = t_price t, p_realized = 0,
           p_cost = t_price t * go_abs (t_qty t)\<rparr>"
  using assms
  by (simp add: net_amount_def signed_qty_def update_position_def open_position_def flat_def Let_def
      feq_def zero_f64_def fval_def)

text \<open>The market value of the positions depends on the order in which the map is ranged over.\<close>

definition ex_ref :: "int \<Rightarrow> secref" where
  "ex_ref n = ex_sec\<lparr>sr_index := n\<rparr>"

definition ex_three :: broker where
  "ex_three = ex_broker\<lparr>br_positions := (\<lambda>r. Some \<lparr>p_sec = r,
      p_qty = (if sr_index r = 0 then FFin (2 ^ 53) else 1), p_avg = 1, p_realized = 0, p_cost = 1\<rparr>),
    br_price_func := Some (\<lambda>_. ex_prices\<lparr>b_close := 1\<rparr>)\<rparr>"

lemma market_value_depends_on_order:
  "\<not> feq (position_market_value no_fold [ex_ref 0, ex_ref 1, ex_ref 2] ex_three)
         (position_market_value no_fold [ex_ref 1, ex_ref 2, ex_ref 0] ex_three)"
  by code_simp

end
