(* ===== verification/Bt_Engine_Laws.thy ===== *)
theory Bt_Engine_Laws
  imports Bt_Spread_Laws Bt_Strategy Bt_Broker_Log
begin

text \<open>
  Every command of a strategy and every part of the replay is a sequence of elementary steps of the
  broker, of the spread tracker, of the group tracker, of the list of scheduled actions and of the
  clock. What every elementary step keeps, a whole backtest keeps.
\<close>

section \<open>Groups\<close>

inductive group_step :: "group_tracker \<Rightarrow> group_tracker \<Rightarrow> bool" where
  group_open: "group_step t (snd (open_group tag init decay time t))"
| group_add: "group_step t (add_spread gid sid t)"
| group_roll: "group_step t (increment_roll gid t)"
| group_close: "group_step t (close_group gid t)"

definition groups_ok :: "group_tracker \<Rightarrow> bool" where
  "groups_ok t \<longleftrightarrow> 1 \<le> gt_next t \<and> gt_groups t = [1..gt_next t - 1]
     \<and> dom (gt_map t) = {1..<gt_next t} \<and> (\<forall>gid g. gt_map t gid = Some g \<longrightarrow> sg_id g = gid)"

lemma groups_ok_new: "groups_ok new_group_tracker"
  by (simp add: groups_ok_def new_group_tracker_def)

lemma groups_ok_update:
  assumes "groups_ok t" "\<And>g. sg_id (f g) = sg_id g"
  shows "groups_ok (update_group gid f t)"
  using assms by (auto simp: groups_ok_def update_group_def split: option.split)

lemma groups_ok_open:
  assumes "groups_ok t"
  shows "groups_ok (snd (open_group tag init decay time t))"
proof -
  have "[1..gt_next t] = [1..gt_next t - 1] @ [gt_next t]"
    using assms upto_rec2 [of 1 "gt_next t"] by (simp add: groups_ok_def)
  moreover have "insert (gt_next t) {1..<gt_next t} = {1..<gt_next t + 1}"
    using assms by (auto simp: groups_ok_def)
  ultimately show ?thesis using assms by (auto simp: groups_ok_def open_group_def Let_def)
qed

lemma group_step_ok: "group_step t t' \<Longrightarrow> groups_ok t \<Longrightarrow> groups_ok t'"
  by (induction rule: group_step.induct)
    (auto simp: add_spread_def increment_roll_def close_group_def intro: groups_ok_open groups_ok_update)

section \<open>Elementary steps\<close>

inductive engine_step :: "environment \<Rightarrow> engine \<Rightarrow> engine \<Rightarrow> bool" for ev :: environment where
  engine_broker: "broker_step (tc_fold (ev_case ev)) (en_broker en) b \<Longrightarrow> engine_step ev en (en\<lparr>en_broker := b\<rparr>)"
| engine_tracker: "tracker_step (ev_case ev) (en_spreads en) st \<Longrightarrow> engine_step ev en (en\<lparr>en_spreads := st\<rparr>)"
| engine_groups: "group_step (en_groups en) g \<Longrightarrow> engine_step ev en (en\<lparr>en_groups := g\<rparr>)"
| engine_schedule: "engine_step ev en (en\<lparr>en_actions := as\<rparr>)"
| engine_clock: "engine_step ev en (en\<lparr>en_bar := bar, en_time := time\<rparr>)"

abbreviation runs :: "environment \<Rightarrow> engine \<Rightarrow> engine \<Rightarrow> bool" where
  "runs ev \<equiv> (engine_step ev)\<^sup>*\<^sup>*"

text \<open>A property of engines that every elementary step keeps.\<close>

locale kept =
  fixes ev :: environment and holds :: "engine \<Rightarrow> bool"
  assumes step_keeps: "engine_step ev en en' \<Longrightarrow> holds en \<Longrightarrow> holds en'"
begin

lemma run_keeps: "runs ev en en' \<Longrightarrow> holds en \<Longrightarrow> holds en'"
  by (induction rule: rtranclp_induct) (auto intro: step_keeps)

end

text \<open>A relation between the engine before and after, which every step has and which composes.\<close>

locale tracked =
  fixes ev :: environment and rel :: "engine \<Rightarrow> engine \<Rightarrow> bool"
  assumes rel_refl: "rel en en"
    and rel_trans: "rel en en' \<Longrightarrow> rel en' en'' \<Longrightarrow> rel en en''"
    and rel_step: "engine_step ev en en' \<Longrightarrow> rel en en'"
begin

lemma run_rel: "runs ev en en' \<Longrightarrow> rel en en'"
  by (induction rule: rtranclp_induct) (auto intro: rel_refl rel_trans rel_step)

end

interpretation books: kept ev "\<lambda>en. reachable (tc_fold (ev_case ev)) cfg (en_broker en)" for ev cfg
proof
  fix en en'
  assume "engine_step ev en en'" "reachable (tc_fold (ev_case ev)) cfg (en_broker en)"
  then show "reachable (tc_fold (ev_case ev)) cfg (en_broker en')"
    by (cases rule: engine_step.cases) (auto intro: reachable_step)
qed

interpretation groups: kept ev "\<lambda>en. groups_ok (en_groups en)" for ev
proof
  fix en en'
  assume "engine_step ev en en'" "groups_ok (en_groups en)"
  then show "groups_ok (en_groups en')"
    by (cases rule: engine_step.cases) (auto intro: group_step_ok)
qed

interpretation spreads: tracked ev "\<lambda>en en'. sound_step (en_spreads en) (en_spreads en')" for ev
proof
  fix en en' en'' :: engine
  show "sound_step (en_spreads en) (en_spreads en)" by simp
  show "sound_step (en_spreads en) (en_spreads en'')"
    if "sound_step (en_spreads en) (en_spreads en')" "sound_step (en_spreads en') (en_spreads en'')"
    using that by (rule sound_step_trans)
  show "sound_step (en_spreads en) (en_spreads en')" if "engine_step ev en en'"
    using that by (cases rule: engine_step.cases) (auto intro: tracker_step_sound)
qed

section \<open>Commands are sequences of steps\<close>

named_theorems engine_runs

lemma runs_refl [engine_runs]: "runs ev en en"
  by simp

lemma runs_broker: "broker_step (tc_fold (ev_case ev)) (en_broker en) b \<Longrightarrow> runs ev en (en\<lparr>en_broker := b\<rparr>)"
  by (intro r_into_rtranclp engine_broker)

lemma runs_tracker: "tracker_step (ev_case ev) (en_spreads en) st \<Longrightarrow> runs ev en (en\<lparr>en_spreads := st\<rparr>)"
  by (intro r_into_rtranclp engine_tracker)

lemma runs_groups: "group_step (en_groups en) g \<Longrightarrow> runs ev en (en\<lparr>en_groups := g\<rparr>)"
  by (intro r_into_rtranclp engine_groups)

lemma runs_schedule [engine_runs]: "runs ev en (en\<lparr>en_actions := as\<rparr>)"
  by (intro r_into_rtranclp engine_schedule)

lemma runs_clock: "runs ev en (en\<lparr>en_bar := bar, en_time := time\<rparr>)"
  by (intro r_into_rtranclp engine_clock)

lemma runs_then: "runs ev en en' \<Longrightarrow> runs ev en' en'' \<Longrightarrow> runs ev en en''"
  by simp

lemma runs_foldl:
  assumes "\<And>en x. runs ev en (f en x)"
  shows "runs ev en (foldl f en xs)"
  by (induction xs arbitrary: en) (auto intro: runs_then assms)

lemma runs_submit [engine_runs]: "runs ev en (snd (submit ev ob en))"
  by (auto simp: submit_def Let_def case_prod_unfold intro!: runs_broker step_close step_submit)

lemma runs_submit_now [engine_runs]: "runs ev en (snd (submit_now ev ob en))"
  by (simp add: submit_now_def Let_def case_prod_unfold runs_submit)

lemma runs_orders [engine_runs]:
  "runs ev en (buy_with_note ev r qty note en)" "runs ev en (sell_with_note ev r qty note en)"
  "runs ev en (snd (now_with_note ev s r qty note en))" "runs ev en (close_position ev r en)"
  "runs ev en (close_position_twap ev r bars en)" "runs ev en (snd (close_entry ev r entry en))"
  "runs ev en (cancel_pending r en)"
  by (auto simp: buy_with_note_def sell_with_note_def now_with_note_def close_position_def
      close_position_twap_def close_entry_def cancel_pending_def Let_def case_prod_unfold
      intro: runs_submit runs_submit_now runs_broker step_cancel)

lemma runs_stop_now [engine_runs]: "runs ev en (snd (close_position_stop_now ev r stop extra note en))"
  by (auto simp: close_position_stop_now_def Let_def case_prod_unfold intro!: runs_broker step_stop)

lemma runs_adjust [engine_runs]: "runs ev en (adjust amount en)"
  unfolding adjust_def by (intro runs_broker step_cash)

lemma runs_open_leg_cash [engine_runs]: "runs ev en (open_leg_cash ev en l)"
  by (auto simp: open_leg_cash_def Let_def intro: runs_adjust)

lemma runs_close_leg_cash [engine_runs]: "runs ev en (close_leg_cash ev l price en)"
  by (auto simp: close_leg_cash_def Let_def intro: runs_adjust)

lemma runs_open_cash [engine_runs]: "runs ev en (open_cash ev ls en)"
  unfolding open_cash_def by (rule runs_foldl) (rule runs_open_leg_cash)

lemma runs_open [engine_runs]:
  "runs ev en (en\<lparr>en_spreads := snd (open_full legs time bar tag ref gid (en_spreads en))\<rparr>)"
  by (intro runs_tracker tracker_open)

lemma runs_open_spread [engine_runs]: "runs ev en (snd (open_spread ev legs tag ref en))"
  by (auto simp: open_spread_def open_with_ref_def Let_def case_prod_unfold
      intro!: runs_then [OF runs_open_cash runs_open])

lemma runs_open_spread_in_group [engine_runs]: "runs ev en (snd (open_spread_in_group ev legs tag ref gid en))"
proof -
  let ?en = "open_cash ev (map (prepare_leg ev en) legs) en"
  let ?st = "snd (open_full (map (prepare_leg ev en) legs) (en_time ?en) (en_bar ?en) tag ref gid (en_spreads ?en))"
  have "runs ev en (?en\<lparr>en_spreads := ?st\<rparr>)" by (rule runs_then [OF runs_open_cash runs_open])
  moreover have "runs ev (?en\<lparr>en_spreads := ?st\<rparr>)
      (?en\<lparr>en_spreads := ?st, en_groups := add_spread gid n (en_groups (?en\<lparr>en_spreads := ?st\<rparr>))\<rparr>)" for n
    using runs_groups [OF group_add, of ev "?en\<lparr>en_spreads := ?st\<rparr>" gid n] by simp
  ultimately show ?thesis
    by (auto simp: open_spread_in_group_def Let_def case_prod_unfold intro: runs_then)
qed

lemma open_cash_spreads [simp]: "en_spreads (open_cash ev ls en) = en_spreads en"
  unfolding open_cash_def
  by (induction ls arbitrary: en) (auto simp: open_leg_cash_def adjust_def Let_def)

lemma runs_append_spread_legs [engine_runs]: "runs ev en (snd (append_spread_legs ev sid legs en))"
proof (cases "st_map (en_spreads en) sid")
  case (Some sp)
  have "runs ev (open_cash ev ls en) ((open_cash ev ls en)
      \<lparr>en_spreads := set_legs sid sp (sp_legs sp @ ls') (en_spreads (open_cash ev ls en))\<rparr>)"
    if "\<not> fully_closed sp" for ls ls'
    using Some that by (intro runs_tracker tracker_append) auto
  then show ?thesis using Some
    by (auto simp: append_spread_legs_def Let_def intro: runs_then [OF runs_open_cash])
qed (simp add: append_spread_legs_def)

lemma close_leg_cash_spreads [simp]: "en_spreads (close_leg_cash ev l price en) = en_spreads en"
  by (auto simp: close_leg_cash_def adjust_def Let_def)

lemma runs_close_leg [engine_runs]:
  "runs ev en (en\<lparr>en_spreads := snd (close_leg_full sid i price commission time reason data (en_spreads en))\<rparr>)"
  by (intro runs_tracker tracker_close_leg)

lemma runs_close_spread_leg [engine_runs]: "runs ev en (snd (close_spread_leg ev sid i price reason data en))"
  by (auto simp: close_spread_leg_def Let_def case_prod_unfold simp del: close_leg_cash_spreads
      split: option.split intro!: runs_then [OF runs_close_leg_cash runs_close_leg])

lemma runs_close_spread_leg_stop_now [engine_runs]:
  "runs ev en (snd (close_spread_leg_stop_now ev opn high low sid i stop price extra reason en))"
  by (auto simp: close_spread_leg_stop_now_def Let_def runs_close_spread_leg split: option.split)

lemma runs_close_open_leg [engine_runs]: "runs ev en (close_open_leg ev sid price en i)"
  by (auto simp: close_open_leg_def runs_close_spread_leg split: option.split)

lemma runs_close_spread [engine_runs]: "runs ev en (close_spread ev sid price en)"
  by (auto simp: close_spread_def split: option.split intro: runs_foldl runs_close_open_leg)

lemma runs_schedules [engine_runs]:
  "runs ev en (schedule_close_leg_order time sid i ot s price slip reason en)"
  "runs ev en (schedule_close_spread_order time sid ot s price slip reason en)"
  "runs ev en (schedule_close_spread_after_bars n sid reason en)"
  "runs ev en (schedule_close_leg_after_bars n sid i en)"
  "runs ev en (schedule_open_spread_order time legs tag ref ot s price slip en)"
  "runs ev en (schedule_open_spread_in_group time legs tag ref gid en)"
  "runs ev en (schedule_security_order time od en)"
  by (simp_all add: schedule_close_leg_order_def schedule_close_spread_order_def
      schedule_close_spread_after_bars_def schedule_close_leg_after_bars_def schedule_open_spread_order_def
      schedule_open_spread_in_group_def schedule_security_order_def schedule_def runs_schedule)

section \<open>The replay is a sequence of steps\<close>

lemma valued_foldl:
  assumes "\<And>st x. runs ev (fst st) (fst (f st x))"
  shows "runs ev (fst st) (fst (foldl f st xs))"
proof (induction xs arbitrary: st)
  case (Cons x xs)
  then show ?case using runs_then [OF assms Cons.IH] by simp
qed simp

lemma runs_force_close_leg: "runs ev (fst st) (fst (force_close_leg ev m pricing sid st i))"
  by (auto simp: force_close_leg_def Let_def case_prod_unfold runs_close_spread_leg split: option.split)

lemma runs_force_close_spread: "runs ev (fst st) (fst (force_close_spread ev m pricing sid st))"
  by (auto simp: force_close_spread_def split: option.split intro: valued_foldl runs_force_close_leg)

lemma runs_force_close_expired [engine_runs]: "runs ev (fst st) (fst (force_close_expired ev m pricing st))"
  unfolding force_close_expired_def
  by (rule valued_foldl) (simp add: force_close_nth_def Let_def runs_force_close_spread)

lemma runs_close_scheduled_leg: "runs ev en (close_scheduled_leg ev m pricing a i en l)"
  by (simp add: close_scheduled_leg_def case_prod_unfold Let_def runs_close_spread_leg)

lemma runs_close_scheduled_nth: "runs ev en (close_scheduled_nth ev m pricing a en i)"
  by (auto simp: close_scheduled_nth_def runs_close_scheduled_leg split: option.split)

lemma runs_open_scheduled: "runs ev (fst st) (fst (open_scheduled ev m pricing a st))"
  by (auto simp: open_scheduled_def case_prod_unfold Let_def runs_open_spread runs_open_spread_in_group split: sum.split)

lemma runs_run_action: "runs ev (fst st) (fst (run_action ev m pricing a st))"
  by (auto simp: run_action_def case_prod_unfold Let_def runs_close_scheduled_leg
      split: action_type.split option.split
      intro: runs_foldl runs_close_scheduled_nth runs_broker step_now runs_open_scheduled [where st = "(fst st, snd st)", simplified])

lemma runs_process_actions: "runs ev (fst st) (fst (process_actions ev m pricing prices as rest st))"
proof (induction as arbitrary: rest st)
  case Nil
  then show ?case by (cases st) (simp add: runs_schedule)
next
  case (Cons a as)
  then show ?case using runs_then [OF runs_run_action Cons.IH] by (cases st) auto
qed

lemma runs_begin_bar: "runs ev (fst st) (fst (begin_bar ev pricing pd bar time st))"
proof -
  let ?en = "fst st\<lparr>en_bar := bar, en_time := time\<rparr>"
  let ?p = "?en\<lparr>en_broker := set_price_func (price_at pd bar) (en_broker ?en)\<rparr>"
  have p: "runs ev (fst st) ?p"
    by (rule runs_then [OF runs_clock runs_broker [OF step_price]])
  let ?q = "if 0 < bar then ?p\<lparr>en_broker := snd (process_pending (tc_fold (ev_case ev)) bar time (en_broker ?p))\<rparr> else ?p"
  have q: "runs ev (fst st) ?q"
    using runs_then [OF p runs_broker [OF step_process]] p by simp
  let ?r = "if ev_provider ev = None then ?q
    else ?q\<lparr>en_spreads := refresh_open_spreads (ev_case ev) (bar_contracts ev time) (en_spreads ?q)\<rparr>"
  have r: "runs ev (fst st) ?r"
    using runs_then [OF q runs_tracker [OF tracker_refresh]] q by simp
  show ?thesis using runs_then [OF r runs_process_actions [where st = "(?r, snd st)", simplified]]
    by (simp add: begin_bar_def case_prod_unfold Let_def cong: if_cong)
qed

lemma runs_end_bar: "runs ev (rp_engine rp) (rp_engine (end_bar ev pricing refs rp))"
  using runs_force_close_expired [where st = "(rp_engine rp, rp_valuation rp)"]
  by (simp add: end_bar_def Let_def case_prod_unfold)

text \<open>A strategy that acts on the engine through its commands only.\<close>

definition acts_by_commands :: "environment \<Rightarrow> 's strategy \<Rightarrow> bool" where
  "acts_by_commands ev on_bar \<longleftrightarrow> (\<forall>v s en. runs ev en (snd (on_bar v s en)))"

lemma runs_replay_bar:
  assumes "acts_by_commands ev on_bar"
  shows "runs ev (rp_engine rp) (rp_engine (replay_bar ev pricing refs on_bar pd rp i))"
proof -
  let ?b = "begin_bar ev pricing pd (int i) (pd_times pd ! i) (rp_engine rp, rp_valuation rp)"
  let ?o = "on_bar (view_at pd (int i)) (rp_strategy rp) (fst ?b)"
  have "runs ev (rp_engine rp) (fst ?b)" using runs_begin_bar [where st = "(rp_engine rp, rp_valuation rp)"] by simp
  moreover have "runs ev (fst ?b) (snd ?o)" using assms by (simp add: acts_by_commands_def)
  ultimately show ?thesis
    using runs_end_bar [where rp = "rp\<lparr>rp_engine := snd ?o, rp_valuation := snd ?b, rp_strategy := fst ?o\<rparr>"]
    by (auto simp: replay_bar_def Let_def case_prod_unfold intro: runs_then)
qed

lemma runs_replay_bars:
  assumes "acts_by_commands ev on_bar"
  shows "runs ev (rp_engine rp) (rp_engine (replay_bars ev pricing refs on_bar pd rp n))"
  unfolding replay_bars_def
  by (induction n) (auto intro: runs_then runs_replay_bar [OF assms])

lemma golden_cross_acts: "acts_by_commands ev (golden_cross_on_bar ev refs r)"
proof -
  have "runs ev en (golden_cross_entry ev refs r v s en)" for v s en
    by (simp add: golden_cross_entry_def Let_def runs_submit)
  note entry = this
  show ?thesis
    using entry runs_then [OF entry runs_orders(4)]
    by (auto simp: acts_by_commands_def golden_cross_on_bar_def Let_def)
qed

lemma ema_atr_acts: "acts_by_commands ev (ema_atr_on_bar ev refs r)"
proof -
  have "runs ev en (ema_atr_flat ev refs r v s en)" for v s en
    by (simp add: ema_atr_flat_def Let_def runs_orders)
  then show ?thesis by (auto simp: acts_by_commands_def ema_atr_on_bar_def Let_def runs_orders)
qed

lemma start_replay_engine:
  "en_broker (rp_engine (start_replay cfg policy s)) = new_broker cfg"
  "en_spreads (rp_engine (start_replay cfg policy s)) = new_spread_tracker"
  "en_groups (rp_engine (start_replay cfg policy s)) = new_group_tracker"
  by (simp_all add: start_replay_def)

end
