(* ===== verification/Bt_Align_Props.thy ===== *)
theory Bt_Align_Props
  imports Bt_Align
begin

text \<open>
  The properties of alignment: a strategy that reads another series at a bar sees only values
  whose own bar has closed by the close of that bar.
\<close>

section \<open>Binary search\<close>

text \<open>
  Whatever the predicate, the search ends at a boundary: the predicate fails just before the
  result and holds at it. For a monotone predicate the boundary is the only one.
\<close>

lemma sort_search_boundary:
  "i \<le> j \<Longrightarrow> i \<le> sort_search f i j \<and> sort_search f i j \<le> j
     \<and> (i < sort_search f i j \<longrightarrow> \<not> f (sort_search f i j - 1))
     \<and> (sort_search f i j < j \<longrightarrow> f (sort_search f i j))"
proof (induction f i j rule: sort_search.induct)
  case (1 f i j)
  define h where "h = (i + j) div 2"
  show ?case
  proof (cases "i < j")
    case True
    then have h: "i \<le> h" "h < j" by (auto simp: h_def)
    have e: "sort_search f i j = (if f h then sort_search f i h else sort_search f (Suc h) j)"
      using True by (subst sort_search.simps) (simp add: h_def Let_def)
    show ?thesis
    proof (cases "f h")
      case T: True
      have "i \<le> sort_search f i h \<and> sort_search f i h \<le> h
         \<and> (i < sort_search f i h \<longrightarrow> \<not> f (sort_search f i h - 1))
         \<and> (sort_search f i h < h \<longrightarrow> f (sort_search f i h))"
        using 1(1) [OF True h_def T] h by simp
      then show ?thesis using T h unfolding e by (cases "sort_search f i h = h") auto
    next
      case F: False
      have "Suc h \<le> sort_search f (Suc h) j \<and> sort_search f (Suc h) j \<le> j
         \<and> (Suc h < sort_search f (Suc h) j \<longrightarrow> \<not> f (sort_search f (Suc h) j - 1))
         \<and> (sort_search f (Suc h) j < j \<longrightarrow> f (sort_search f (Suc h) j))"
        using 1(2) [OF True h_def F] h by simp
      then show ?thesis using F h unfolding e by (cases "sort_search f (Suc h) j = Suc h") auto
    qed
  next
    case False
    then have "sort_search f i j = i" by (subst sort_search.simps) simp
    then show ?thesis using False 1(3) by simp
  qed
qed

lemma align_bar_confirmed:
  fixes sec pd sd pt
  defines "r \<equiv> align_bar sec pd sd pt"
  shows "r = - 1 \<or> (0 \<le> r \<and> r < int (length sec) \<and> sec ! nat r + sd \<le> pt + pd)"
    and "sorted sec \<Longrightarrow> j < length sec \<Longrightarrow> sec ! j + sd \<le> pt + pd \<Longrightarrow> int j \<le> r"
proof -
  let ?f = "\<lambda>k. pt + pd < sec ! k + sd"
  define n where "n = sort_search ?f 0 (length sec)"
  have b: "n \<le> length sec" "0 < n \<Longrightarrow> \<not> ?f (n - 1)" "n < length sec \<Longrightarrow> ?f n"
    using sort_search_boundary [of 0 "length sec" ?f] by (auto simp: n_def)
  have r: "r = int n - 1" by (simp add: r_def align_bar_def n_def Let_def)
  show "r = - 1 \<or> (0 \<le> r \<and> r < int (length sec) \<and> sec ! nat r + sd \<le> pt + pd)"
  proof (cases "n = 0")
    case False
    then have "nat r = n - 1" using r by simp
    then show ?thesis using b False r by auto
  qed (simp add: r)
  assume s: "sorted sec" and j: "j < length sec" "sec ! j + sd \<le> pt + pd"
  show "int j \<le> r"
  proof (rule ccontr)
    assume "\<not> int j \<le> r"
    then have "n \<le> j" using r by simp
    then have "sec ! n \<le> sec ! j" using sorted_nth_mono [OF s] j(1) by blast
    moreover have "?f n" using \<open>n \<le> j\<close> j(1) b(3) by simp
    ultimately show False using j(2) by simp
  qed
qed

section \<open>Alignment\<close>

lemma align_series_bars:
  assumes "align_series p s pint sint = Aligned mp" "ds_len s \<noteq> 0"
  obtains pd sd where "parse_interval pint = Some pd" "parse_interval sint = Some sd"
    "\<And>i. i < length (ds_times p) \<Longrightarrow> mp ! i = align_bar (ds_times s) pd sd (ds_times p ! i)"
    "length mp = ds_len p"
  using assms by (auto simp: align_series_def nth_append split: option.splits if_splits)

text \<open>
  C26. Alignment never looks ahead and never lags: for two series with readable intervals, bar \<open>i\<close>
  of the primary is mapped to a bar of the other series that has closed by the close of bar \<open>i\<close>,
  or to -1; if the other series is sorted by time, no later bar has closed by then, and -1 means
  that none has. The first part does not need the sorting. The map has one entry for each bar.
\<close>

theorem align_latest_confirmed:
  assumes "align_series p s pint sint = Aligned mp" "ds_len s \<noteq> 0" "i < length (ds_times p)"
  shows "length mp = ds_len p \<and> (\<exists>pd sd. parse_interval pint = Some pd \<and> parse_interval sint = Some sd
    \<and> (mp ! i = - 1 \<or> 0 \<le> mp ! i \<and> mp ! i < int (length (ds_times s))
          \<and> ds_times s ! nat (mp ! i) + sd \<le> ds_times p ! i + pd)
    \<and> (sorted (ds_times s) \<longrightarrow> (\<forall>j < length (ds_times s).
          ds_times s ! j + sd \<le> ds_times p ! i + pd \<longrightarrow> int j \<le> mp ! i)))"
proof -
  obtain pd sd where a: "parse_interval pint = Some pd" "parse_interval sint = Some sd"
    "mp ! i = align_bar (ds_times s) pd sd (ds_times p ! i)" "length mp = ds_len p"
    using align_series_bars [OF assms(1,2)] assms(3) by metis
  then show ?thesis using align_bar_confirmed [where sec = "ds_times s" and pd = pd and sd = sd and pt = "ds_times p ! i"] by auto
qed

definition ex_hourly :: data_set where
  "ex_hourly = set_timestamps (map (\<lambda>k. k * 60 * minute_ns) [0, 1, 2, 3]) new_data_set"

definition ex_two_hourly :: data_set where
  "ex_two_hourly = set_timestamps (map (\<lambda>k. k * 120 * minute_ns) [0, 1]) new_data_set"

lemma ex_aligned: "align_series ex_hourly ex_two_hourly ''1h'' ''120'' = Aligned [- 1, 0, 0, 1]"
  by code_simp

theorem align_latest_confirmed_witness:
  "\<exists>pd sd. parse_interval ''1h'' = Some pd \<and> parse_interval ''120'' = Some sd
     \<and> ds_times ex_two_hourly ! 0 + sd \<le> ds_times ex_hourly ! 2 + pd"
  using align_latest_confirmed [OF ex_aligned, of 2]
  by (auto simp: ex_hourly_def ex_two_hourly_def set_timestamps_def)

section \<open>Reading\<close>

text \<open>
  C12. A strategy reads the past only: with a non-negative offset, the value it reads at a primary
  bar from an aligned series is NaN or the value of a bar of that series that has closed by the
  close of the current primary bar. The primary times are required to be sorted.
\<close>

theorem reads_confirmed_only:
  assumes "align_series p s pint sint = Aligned mp" "ds_len s \<noteq> 0" "sorted (ds_times p)"
    and "ds_len p = length (ds_times p)"
    and "sa_align sa = Some mp" "0 \<le> sa_bar sa" "sa_bar sa < int (ds_len p)" "0 \<le> ago"
  shows "field_at sa name ago = FNaN
    \<or> (\<exists>col j pd sd. sa_data sa name = Some col \<and> field_at sa name ago = col ! j
         \<and> parse_interval pint = Some pd \<and> parse_interval sint = Some sd \<and> j < length (ds_times s)
         \<and> ds_times s ! j + sd \<le> ds_times p ! nat (sa_bar sa) + pd)"
proof (cases "field_at sa name ago = FNaN")
  case False
  define i where "i = nat (sa_bar sa - ago)"
  have len: "length mp = ds_len p"
    by (rule align_series_bars [OF assms(1,2)])
  have i: "int i = sa_bar sa - ago" "i < length (ds_times p)" "resolve_index sa ago = mp ! i" "0 \<le> mp ! i"
    using False assms(4-8) len by (auto simp: field_at_def resolve_index_def i_def Let_def split: if_splits)
  from align_latest_confirmed [OF assms(1,2) i(2)] obtain pd sd where
    d: "parse_interval pint = Some pd" "parse_interval sint = Some sd" "nat (mp ! i) < length (ds_times s)"
    "ds_times s ! nat (mp ! i) + sd \<le> ds_times p ! i + pd" using i(4) by auto
  have "ds_times p ! i \<le> ds_times p ! nat (sa_bar sa)"
    using assms(3,4,7,8) i(1) by (intro sorted_nth_mono) auto
  then have le: "ds_times s ! nat (mp ! i) + sd \<le> ds_times p ! nat (sa_bar sa) + pd" using d(4) by simp
  obtain col where "sa_data sa name = Some col" "field_at sa name ago = col ! nat (mp ! i)"
    using False i(3) by (auto simp: field_at_def Let_def split: option.splits if_splits)
  then show ?thesis using d le by blast
qed simp

definition ex_accessor :: accessor where
  "ex_accessor = \<lparr>sa_data = [''close'' \<mapsto> [FFin 10, FFin 20]], sa_align = Some [- 1, 0, 0, 1], sa_bar = 3\<rparr>"

theorem reads_confirmed_only_witness:
  "field_at ex_accessor ''close'' 1 = FFin 10 \<and> ds_times ex_two_hourly ! 0 < ds_times ex_hourly ! 3"
proof -
  have f: "field_at ex_accessor ''close'' 1 = FFin 10" by code_simp
  have "\<exists>col j pd sd. sa_data ex_accessor ''close'' = Some col
      \<and> field_at ex_accessor ''close'' 1 = col ! j \<and> parse_interval ''1h'' = Some pd
      \<and> parse_interval ''120'' = Some sd \<and> j < length (ds_times ex_two_hourly)
      \<and> ds_times ex_two_hourly ! j + sd \<le> ds_times ex_hourly ! nat (sa_bar ex_accessor) + pd"
    using reads_confirmed_only [OF ex_aligned, of ex_accessor 1 "''close''"] f
    by (auto simp: ex_hourly_def ex_two_hourly_def set_timestamps_def ex_accessor_def minute_ns_def)
  then show ?thesis using f
    by (simp add: ex_hourly_def ex_two_hourly_def set_timestamps_def minute_ns_def)
qed

text \<open>A negative offset is not refused: it reads a later bar.\<close>

lemma negative_offset_reads_ahead:
  assumes "primary name = Some col" "0 \<le> bar" "bar + 1 < int (length col)"
  shows "primary_field_at primary bar name (- 1) = col ! nat (bar + 1)"
  using assms by (simp add: primary_field_at_def Let_def)

end
