(* ===== verification/Bt_Replay_Props.thy ===== *)
theory Bt_Replay_Props
  imports Bt_Strategy Bt_Align_Props Bt_Prepare
begin

text \<open>
  The replay does not look ahead: two histories that agree on what has closed by the close of a bar
  give the same account up to that bar. The argument has three layers: the loop only uses what a
  bar shows, a bar shows only confirmed values, and two aligned histories confirm the same values.
\<close>

section \<open>Strategies that read the past\<close>

definition same_past :: "bar_view \<Rightarrow> bar_view \<Rightarrow> bool" where
  "same_past v v' \<longleftrightarrow>
     (\<forall>name ago. 0 \<le> ago \<longrightarrow> vw_field v name ago = vw_field v' name ago
        \<and> (\<forall>idx. vw_security v idx name ago = vw_security v' idx name ago
                 \<and> vw_factor v idx name ago = vw_factor v' idx name ago))
     \<and> vw_prev_time v = vw_prev_time v' \<and> vw_next_time v = vw_next_time v'"

definition reads_past :: "'s strategy \<Rightarrow> bool" where
  "reads_past on_bar \<longleftrightarrow> (\<forall>v v' s en. same_past v v' \<longrightarrow> on_bar v s en = on_bar v' s en)"

lemma same_past_field: "same_past v v' \<Longrightarrow> vw_field v name 0 = vw_field v' name 0"
  by (simp add: same_past_def)

lemma golden_cross_reads_past: "reads_past (golden_cross_on_bar ev refs r)"
  unfolding reads_past_def golden_cross_on_bar_def golden_cross_entry_def
  by (intro allI impI) (simp only: same_past_field)

lemma ema_atr_reads_past: "reads_past (ema_atr_on_bar ev refs r)"
  unfolding reads_past_def ema_atr_on_bar_def ema_atr_flat_def
  by (intro allI impI) (simp only: same_past_field)

section \<open>The loop uses only what a bar shows\<close>

definition same_bar :: "prepared \<Rightarrow> prepared \<Rightarrow> nat \<Rightarrow> bool" where
  "same_bar pd pd' i \<longleftrightarrow>
     pd_times pd ! i = pd_times pd' ! i \<and> price_at pd (int i) = price_at pd' (int i)
     \<and> column_at (hd (pd_columns pd)) (int i) = column_at (hd (pd_columns pd')) (int i)
     \<and> same_past (view_at pd (int i)) (view_at pd' (int i))"

lemma replay_bar_cong:
  assumes "reads_past on_bar" "same_bar pd pd' i"
  shows "replay_bar ev pricing refs on_bar pd rp i = replay_bar ev pricing refs on_bar pd' rp i"
proof -
  have "begin_bar ev pricing pd b t st = begin_bar ev pricing pd' b t st" if "b = int i" for b t st
    using assms(2) that by (simp add: begin_bar_def same_bar_def)
  moreover have "on_bar (view_at pd (int i)) s en = on_bar (view_at pd' (int i)) s en" for s en
    using assms by (simp add: reads_past_def same_bar_def)
  ultimately show ?thesis using assms(2) by (simp add: replay_bar_def same_bar_def)
qed

lemma replay_bars_cong:
  assumes "reads_past on_bar" "\<And>i. i < n \<Longrightarrow> same_bar pd pd' i"
  shows "replay_bars ev pricing refs on_bar pd rp n = replay_bars ev pricing refs on_bar pd' rp n"
  unfolding replay_bars_def using assms
  by (intro foldl_cong) (auto intro: replay_bar_cong)

section \<open>The equity curve grows by one value a bar\<close>

lemma end_bar_equity: "\<exists>e. rp_equity (end_bar ev pricing refs rp) = rp_equity rp @ [e]"
  by (auto simp: end_bar_def Let_def split: prod.split)

lemma replay_bar_equity:
  "\<exists>e. rp_equity (replay_bar ev pricing refs on_bar pd rp i) = rp_equity rp @ [e]"
proof -
  obtain en vl where b: "begin_bar ev pricing pd (int i) (pd_times pd ! i)
      (rp_engine rp, rp_valuation rp) = (en, vl)" by fastforce
  obtain s en' where o: "on_bar (view_at pd (int i)) (rp_strategy rp) en = (s, en')" by fastforce
  show ?thesis
    using end_bar_equity [of ev pricing refs "rp\<lparr>rp_engine := en', rp_valuation := vl, rp_strategy := s\<rparr>"]
    by (simp add: replay_bar_def b o)
qed

lemma replay_bars_Suc:
  "replay_bars ev pricing refs on_bar pd rp (Suc n)
   = replay_bar ev pricing refs on_bar pd (replay_bars ev pricing refs on_bar pd rp n) n"
  by (simp add: replay_bars_def)

lemma replay_bars_equity:
  "length (rp_equity (replay_bars ev pricing refs on_bar pd rp n)) = length (rp_equity rp) + n
   \<and> (\<forall>m \<le> n. take (length (rp_equity rp) + m) (rp_equity (replay_bars ev pricing refs on_bar pd rp n))
              = rp_equity (replay_bars ev pricing refs on_bar pd rp m))"
proof (induction n)
  case 0
  then show ?case by (simp add: replay_bars_def)
next
  case (Suc n)
  obtain e where "rp_equity (replay_bars ev pricing refs on_bar pd rp (Suc n))
      = rp_equity (replay_bars ev pricing refs on_bar pd rp n) @ [e]"
    unfolding replay_bars_Suc using replay_bar_equity by blast
  then show ?case using Suc by (auto simp: le_Suc_eq)
qed

section \<open>A bar shows only confirmed values\<close>

lemma field_at_column:
  "field_at sa name ago = (let i = resolve_index sa ago in if i < 0 then FNaN else column_at (sa_data sa) i name)"
  by (simp add: field_at_def column_at_def Let_def split: option.split)

lemma primary_field_column:
  "primary_field_at cols bar name ago = (if bar - ago < 0 then FNaN else column_at cols (bar - ago) name)"
  by (simp add: primary_field_at_def column_at_def Let_def split: option.split)

text \<open>Two aligned series that show the same values at the first \<open>n\<close> bars of the primary.\<close>

definition same_aligned :: "nat \<Rightarrow> data_set \<times> int list \<Rightarrow> data_set \<times> int list \<Rightarrow> bool" where
  "same_aligned n a b \<longleftrightarrow> n \<le> length (snd a) \<and> n \<le> length (snd b)
     \<and> (\<forall>i < n. snd a ! i = snd b ! i
          \<and> (0 \<le> snd a ! i \<longrightarrow> column_at (ds_columns (fst a)) (snd a ! i) = column_at (ds_columns (fst b)) (snd a ! i)))"

definition same_primary :: "nat \<Rightarrow> data_set \<Rightarrow> data_set \<Rightarrow> bool" where
  "same_primary n p p' \<longleftrightarrow> n \<le> length (ds_times p) \<and> n \<le> length (ds_times p')
     \<and> take (Suc n) (ds_times p) = take (Suc n) (ds_times p')
     \<and> (\<forall>i < n. column_at (ds_columns p) (int i) = column_at (ds_columns p') (int i))"

lemma same_aligned_field:
  assumes "same_aligned n a b" "i < n" "0 \<le> ago"
  shows "field_at \<lparr>sa_data = ds_columns (fst a), sa_align = Some (snd a), sa_bar = int i\<rparr> name ago
    = field_at \<lparr>sa_data = ds_columns (fst b), sa_align = Some (snd b), sa_bar = int i\<rparr> name ago"
proof (cases "int i - ago < 0")
  case False
  define j where "j = nat (int i - ago)"
  have j: "j < n" "int i - ago = int j" using False assms(2,3) by (auto simp: j_def)
  then show ?thesis using assms(1)
    by (auto simp: field_at_column resolve_index_def same_aligned_def Let_def fun_eq_iff)
qed (simp add: field_at_column resolve_index_def)

lemma same_primary_column:
  assumes "same_primary n p p'" "i < n" "0 \<le> ago" "0 \<le> int i - ago"
  shows "column_at (ds_columns p) (int i - ago) = column_at (ds_columns p') (int i - ago)"
proof -
  obtain k where k: "int i - ago = int k" using assms(4) nonneg_int_cases by blast
  then have "k < n" using assms(2,3) by simp
  then show ?thesis using assms(1) k by (simp add: same_primary_def)
qed

lemma same_primary_time:
  assumes "same_primary n p p'" "j \<le> int n"
  shows "bar_time_at (ds_times p) j = bar_time_at (ds_times p') j"
proof (cases "0 \<le> j")
  case True
  have t: "take (Suc n) (ds_times p) = take (Suc n) (ds_times p')" using assms(1) by (simp add: same_primary_def)
  have "nat j < Suc n" using True assms(2) by simp
  moreover have "nat j < length (ds_times p) \<longleftrightarrow> nat j < length (ds_times p')"
    using t True assms(2) by (metis \<open>nat j < Suc n\<close> length_take min_less_iff_conj)
  ultimately show ?thesis using t True
    by (auto simp: bar_time_at_def nat_less_iff) (metis \<open>nat j < Suc n\<close> nth_take)
qed (simp add: bar_time_at_def)

lemma assemble_price:
  "price_at (assemble p secs facs) bar r =
     (let idx = sr_index r
      in if idx < 0 \<or> int (length secs) < idx then no_prices
         else let i = (if idx = 0 then bar else aligned_bar (Some (snd (secs ! nat (idx - 1)))) bar)
              in if i < 0 then no_prices
                 else let v = column_at (if idx = 0 then ds_columns p else ds_columns (fst (secs ! nat (idx - 1)))) i
                      in \<lparr>b_open = v ''open'', b_high = v ''high'', b_low = v ''low'',
                          b_close = v ''close'', b_bid_open = v ''bid_open'',
                          b_bid_close = v ''bid_close'', b_ask_open = v ''ask_open'',
                          b_ask_close = v ''ask_close''\<rparr>)"
proof (cases "sr_index r \<le> 0 \<or> int (length secs) < sr_index r")
  case True
  then show ?thesis by (auto simp: price_at_def assemble_def aligned_bar_def Let_def)
next
  case False
  then have "nat (sr_index r) = Suc (nat (sr_index r - 1))" "nat (sr_index r - 1) < length secs" by auto
  then show ?thesis using False by (simp add: price_at_def assemble_def Let_def)
qed

lemma assemble_security:
  "accessor_of (pd_columns (assemble p secs facs)) (pd_aligns (assemble p secs facs)) bar idx =
     (if idx = 0 then \<lparr>sa_data = ds_columns p, sa_align = None, sa_bar = bar\<rparr>
      else if 0 < idx \<and> idx \<le> int (length secs)
      then \<lparr>sa_data = ds_columns (fst (secs ! nat (idx - 1))), sa_align = Some (snd (secs ! nat (idx - 1))), sa_bar = bar\<rparr>
      else no_accessor bar)"
proof (cases "0 < idx \<and> idx \<le> int (length secs)")
  case True
  then have "nat idx = Suc (nat (idx - 1))" "nat (idx - 1) < length secs" by auto
  then show ?thesis using True by (simp add: accessor_of_def assemble_def)
qed (auto simp: accessor_of_def assemble_def)

lemma same_aligned_price:
  assumes "same_primary n p p'" "i < n" "list_all2 (same_aligned n) secs secs'"
  shows "price_at (assemble p secs facs) (int i) r = price_at (assemble p' secs' facs') (int i) r"
proof -
  have l: "length secs = length secs'" using assms(3) by (rule list_all2_lengthD)
  have c: "column_at (ds_columns p) (int i) = column_at (ds_columns p') (int i)"
    using assms(1,2) by (simp add: same_primary_def)
  show ?thesis
  proof (cases "0 < sr_index r \<and> sr_index r \<le> int (length secs)")
    case True
    then have "same_aligned n (secs ! nat (sr_index r - 1)) (secs' ! nat (sr_index r - 1))"
      by (intro list_all2_nthD [OF assms(3)]) auto
    then show ?thesis using assms(2) l True
      by (cases "snd (secs ! nat (sr_index r - 1)) ! i < 0")
         (auto simp: assemble_price same_aligned_def aligned_bar_def not_less)
  qed (use l c in \<open>auto simp: assemble_price Let_def\<close>)
qed

lemma field_at_unaligned:
  "field_at \<lparr>sa_data = cols, sa_align = None, sa_bar = bar\<rparr> name ago
     = (if bar - ago < 0 then FNaN else column_at cols (bar - ago) name)"
  by (simp add: field_at_column resolve_index_def)

lemma field_at_no_accessor: "field_at (no_accessor bar) name ago = FNaN"
  by (simp add: field_at_def no_accessor_def Let_def)

lemma same_aligned_security:
  assumes "same_primary n p p'" "i < n" "list_all2 (same_aligned n) secs secs'" "0 \<le> ago"
  shows "field_at (accessor_of (pd_columns (assemble p secs facs)) (pd_aligns (assemble p secs facs)) (int i) idx) name ago
    = field_at (accessor_of (pd_columns (assemble p' secs' facs')) (pd_aligns (assemble p' secs' facs')) (int i) idx) name ago"
proof (cases "0 < idx \<and> idx \<le> int (length secs)")
  case True
  then have "same_aligned n (secs ! nat (idx - 1)) (secs' ! nat (idx - 1))"
    by (intro list_all2_nthD [OF assms(3)]) auto
  then show ?thesis using same_aligned_field [OF _ assms(2,4)] True list_all2_lengthD [OF assms(3)]
    by (simp add: assemble_security)
next
  case False
  then show ?thesis
    using same_primary_column [OF assms(1,2,4)] list_all2_lengthD [OF assms(3)]
    by (auto simp: assemble_security field_at_no_accessor field_at_unaligned)
qed

lemma same_aligned_factor:
  assumes "i < n" "list_all2 (same_aligned n) facs facs'" "0 \<le> ago"
  shows "field_at (accessor_of (pd_factor_columns (assemble p secs facs)) (pd_factor_aligns (assemble p secs facs)) (int i) idx) name ago
    = field_at (accessor_of (pd_factor_columns (assemble p' secs' facs')) (pd_factor_aligns (assemble p' secs' facs')) (int i) idx) name ago"
proof (cases "0 \<le> idx \<and> idx < int (length facs)")
  case True
  then have k: "nat idx < length facs" by (simp add: nat_less_iff)
  then have "same_aligned n (facs ! nat idx) (facs' ! nat idx)" by (rule list_all2_nthD [OF assms(2)])
  then show ?thesis using same_aligned_field [OF _ assms(1,3)] True k list_all2_lengthD [OF assms(2)]
    by (simp add: accessor_of_def assemble_def)
next
  case False
  then show ?thesis using list_all2_lengthD [OF assms(2)]
    by (auto simp: accessor_of_def assemble_def)
qed

lemma same_bar_assemble:
  assumes p: "same_primary n p p'" and i: "i < n"
    and s: "list_all2 (same_aligned n) secs secs'" and f: "list_all2 (same_aligned n) facs facs'"
  shows "same_bar (assemble p secs facs) (assemble p' secs' facs') i"
proof -
  have "ds_times p ! i = ds_times p' ! i"
    using p i by (metis less_SucI nth_take same_primary_def)
  moreover have "column_at (ds_columns p) (int i) = column_at (ds_columns p') (int i)"
    using p i by (simp add: same_primary_def)
  moreover have "price_at (assemble p secs facs) (int i) = price_at (assemble p' secs' facs') (int i)"
    by (rule ext) (rule same_aligned_price [OF p i s])
  moreover have "primary_field_at (ds_columns p) (int i) name ago = primary_field_at (ds_columns p') (int i) name ago"
    if "0 \<le> ago" for name ago
    using same_primary_column [OF p i that] by (simp add: primary_field_column)
  then have "same_past (view_at (assemble p secs facs) (int i)) (view_at (assemble p' secs' facs') (int i))"
    using same_aligned_security [OF p i s] same_aligned_factor [OF i f] i
      same_primary_time [OF p, of "int i - 1"] same_primary_time [OF p, of "int i + 1"]
    unfolding same_past_def view_at_def by (simp del: assemble_def) (simp add: assemble_def)
  ultimately show ?thesis by (simp add: same_bar_def) (simp add: assemble_def)
qed

section \<open>Two histories with the same confirmed data\<close>

text \<open>The number of bars of a series that have closed by a time; in a sorted series they are the first ones.\<close>

definition closed_by :: "int \<Rightarrow> int \<Rightarrow> int list \<Rightarrow> nat" where
  "closed_by width t ts = length (takeWhile (\<lambda>s. s + width \<le> t) ts)"

definition same_known :: "int \<Rightarrow> int \<Rightarrow> data_set \<Rightarrow> data_set \<Rightarrow> bool" where
  "same_known width t a b \<longleftrightarrow> sorted (ds_times a) \<and> sorted (ds_times b)
     \<and> ds_len a = length (ds_times a) \<and> ds_len b = length (ds_times b)
     \<and> take (closed_by width t (ds_times a)) (ds_times a) = take (closed_by width t (ds_times b)) (ds_times b)
     \<and> (\<forall>i < closed_by width t (ds_times a). column_at (ds_columns a) (int i) = column_at (ds_columns b) (int i))"

lemma closed_by_le: "closed_by width t ts \<le> length ts"
  by (simp add: closed_by_def length_takeWhile_le)

lemma take_closed_by: "take (closed_by width t ts) ts = takeWhile (\<lambda>s. s + width \<le> t) ts"
  by (simp add: closed_by_def takeWhile_eq_take [symmetric])

lemma closed_by_mono: "t \<le> u \<Longrightarrow> closed_by width t ts \<le> closed_by width u ts"
  by (induction ts) (auto simp: closed_by_def)

lemma closed_by_take:
  assumes "t \<le> u"
  shows "closed_by width t ts = closed_by width t (take (closed_by width u ts) ts)"
proof -
  have "takeWhile (\<lambda>s. s + width \<le> t) (takeWhile (\<lambda>s. s + width \<le> u) ts) = takeWhile (\<lambda>s. s + width \<le> t) ts"
    using assms by (induction ts) auto
  then show ?thesis by (simp add: take_closed_by) (simp add: closed_by_def)
qed

lemma align_bar_closed_by:
  assumes "sorted sec"
  shows "align_bar sec pd sd pt = int (closed_by sd (pt + pd) sec) - 1"
proof -
  let ?P = "\<lambda>s. s + sd \<le> pt + pd" and ?r = "align_bar sec pd sd pt" and ?k = "closed_by sd (pt + pd) sec"
  have low: "int ?k - 1 \<le> ?r"
  proof (cases "?k = 0")
    case False
    have "set (takeWhile ?P sec) \<subseteq> Collect ?P" using set_takeWhileD by fastforce
    moreover have "takeWhile ?P sec ! (?k - 1) \<in> set (takeWhile ?P sec)"
      using False by (simp add: closed_by_def)
    ultimately have "?P (sec ! (?k - 1))"
      using False by (auto simp: closed_by_def takeWhile_nth)
    then show ?thesis using align_bar_confirmed(2) [OF assms, of "?k - 1"] False closed_by_le [of sd "pt + pd" sec] by fastforce
  qed (use align_bar_confirmed(1) [of sec pd sd pt] in auto)
  have "?r \<le> int ?k - 1"
  proof (rule ccontr)
    assume a: "\<not> ?thesis"
    then have c: "0 \<le> ?r" "nat ?r < length sec" "?P (sec ! nat ?r)" "?k \<le> nat ?r"
      using align_bar_confirmed(1) [of sec pd sd pt] by auto
    then have "\<not> ?P (sec ! ?k)"
      unfolding closed_by_def by (intro nth_length_takeWhile) simp
    moreover have "sec ! ?k \<le> sec ! nat ?r" using assms c by (simp add: sorted_nth_mono)
    ultimately show False using c(3) by simp
  qed
  then show ?thesis using low by simp
qed

lemma align_entry:
  assumes "align_series p s pint sint = Aligned mp" "parse_interval pint = Some pd" "parse_interval sint = Some sd"
    and "sorted (ds_times s)" "ds_len s = length (ds_times s)" "ds_len p = length (ds_times p)"
  shows "length mp = length (ds_times p)
    \<and> (\<forall>i < length (ds_times p). mp ! i = int (closed_by sd (ds_times p ! i + pd) (ds_times s)) - 1)"
proof (cases "ds_len s = 0")
  case True
  then show ?thesis using assms by (auto simp: align_series_def closed_by_def)
next
  case False
  then have "mp = map (align_bar (ds_times s) pd sd) (ds_times p)"
    using assms by (simp add: align_series_def)
  then show ?thesis using align_bar_closed_by [OF assms(4)] by simp
qed

lemma same_known_column:
  assumes "same_known sd t s s'"
  shows "closed_by sd t (ds_times s) = closed_by sd t (ds_times s')"
    and "0 \<le> j \<Longrightarrow> j < int (closed_by sd t (ds_times s)) \<Longrightarrow>
           column_at (ds_columns s) j = column_at (ds_columns s') j"
proof -
  have "length (take (closed_by sd t (ds_times s)) (ds_times s))
      = length (take (closed_by sd t (ds_times s')) (ds_times s'))"
    using assms by (simp add: same_known_def)
  then show "closed_by sd t (ds_times s) = closed_by sd t (ds_times s')"
    using closed_by_le by (simp add: min_absorb2)
next
  assume j: "0 \<le> j" "j < int (closed_by sd t (ds_times s))"
  obtain k where k: "j = int k" using j(1) nonneg_int_cases by blast
  then show "column_at (ds_columns s) j = column_at (ds_columns s') j"
    using assms j(2) by (simp add: same_known_def)
qed

text \<open>
  Two series of the same interval that agree on what has closed by the close of each of the first
  \<open>n\<close> bars of the primary.
\<close>

definition same_confirmed :: "nat \<Rightarrow> string \<Rightarrow> data_set \<Rightarrow> data_set \<times> string \<Rightarrow> data_set \<times> string \<Rightarrow> bool" where
  "same_confirmed n pint p a b \<longleftrightarrow> snd a = snd b
     \<and> (\<exists>pd sd. parse_interval pint = Some pd \<and> parse_interval (snd a) = Some sd
          \<and> sorted (ds_times (fst a)) \<and> sorted (ds_times (fst b))
          \<and> ds_len (fst a) = length (ds_times (fst a)) \<and> ds_len (fst b) = length (ds_times (fst b))
          \<and> (\<forall>i < n. same_known sd (ds_times p ! i + pd) (fst a) (fst b)))"

lemma same_confirmed_aligned:
  assumes "same_confirmed n pint p a b" "same_primary n p p'"
    and "ds_len p = length (ds_times p)" "ds_len p' = length (ds_times p')"
    and "align_series p (fst a) pint (snd a) = Aligned mp" "align_series p' (fst b) pint (snd b) = Aligned mp'"
  shows "same_aligned n (fst a, mp) (fst b, mp')"
proof -
  obtain pd sd where d: "parse_interval pint = Some pd" "parse_interval (snd a) = Some sd" "snd a = snd b"
    "sorted (ds_times (fst a))" "sorted (ds_times (fst b))"
    "ds_len (fst a) = length (ds_times (fst a))" "ds_len (fst b) = length (ds_times (fst b))"
    "\<And>i. i < n \<Longrightarrow> same_known sd (ds_times p ! i + pd) (fst a) (fst b)"
    using assms(1) unfolding same_confirmed_def by blast
  have n: "n \<le> length (ds_times p)" "n \<le> length (ds_times p')"
    using assms(2) by (auto simp: same_primary_def)
  note e = align_entry [OF assms(5) d(1,2,4,6) assms(3)]
  have "parse_interval (snd b) = Some sd" using d(2,3) by simp
  note e' = align_entry [OF assms(6) d(1) this d(5,7) assms(4)]
  have "mp ! i = mp' ! i \<and> (0 \<le> mp ! i \<longrightarrow>
      column_at (ds_columns (fst a)) (mp ! i) = column_at (ds_columns (fst b)) (mp ! i))" if i: "i < n" for i
  proof -
    have t: "ds_times p' ! i = ds_times p ! i"
      using assms(2) i by (metis less_SucI nth_take same_primary_def)
    have "mp ! i = int (closed_by sd (ds_times p ! i + pd) (ds_times (fst a))) - 1"
      "mp' ! i = int (closed_by sd (ds_times p ! i + pd) (ds_times (fst b))) - 1"
      using e e' n i t by auto
    then show ?thesis using same_known_column [OF d(8) [OF i]] by simp
  qed
  moreover have "n \<le> length mp" "n \<le> length mp'" using e e' n by auto
  ultimately show ?thesis unfolding same_aligned_def fst_conv snd_conv by blast
qed

lemma build_align_maps_same:
  assumes "list_all2 (same_confirmed n pint p) ss ss'" "same_primary n p p'"
    and "ds_len p = length (ds_times p)" "ds_len p' = length (ds_times p')"
    and "build_align_maps p pint ss = Inr ms" "build_align_maps p' pint ss' = Inr ms'"
  shows "list_all2 (same_aligned n) (zip (map fst ss) ms) (zip (map fst ss') ms')"
  using assms(1,5,6)
proof (induction ss ss' arbitrary: ms ms' rule: list_all2_induct)
  case Nil
  then show ?case by simp
next
  case (Cons a ss b ss')
  obtain mp rest where m: "align_series p (fst a) pint (snd a) = Aligned mp"
    "build_align_maps p pint ss = Inr rest" "ms = mp # rest"
    using Cons.prems(1) by (cases a) (auto split: align_result.splits sum.splits)
  obtain mp' rest' where m': "align_series p' (fst b) pint (snd b) = Aligned mp'"
    "build_align_maps p' pint ss' = Inr rest'" "ms' = mp' # rest'"
    using Cons.prems(2) by (cases b) (auto split: align_result.splits sum.splits)
  show ?case using same_confirmed_aligned [OF Cons.hyps(1) assms(2-4) m(1) m'(1)]
      Cons.IH [OF m(2) m'(2)] m(3) m'(3) by simp
qed

lemma align_all_same_bars:
  assumes "same_primary n p p'" "ds_len p = length (ds_times p)" "ds_len p' = length (ds_times p')"
    and "list_all2 (same_confirmed n pint p) ss ss'" "list_all2 (same_confirmed n pint p) fs fs'"
    and "align_all p pint ss fs = Inr (sm, fm)" "align_all p' pint ss' fs' = Inr (sm', fm')"
    and "i < n"
  shows "same_bar (assemble p (zip (map fst ss) sm) (zip (map fst fs) fm))
    (assemble p' (zip (map fst ss') sm') (zip (map fst fs') fm')) i"
proof -
  have m: "build_align_maps p pint ss = Inr sm" "build_align_maps p pint fs = Inr fm"
    "build_align_maps p' pint ss' = Inr sm'" "build_align_maps p' pint fs' = Inr fm'"
    using assms(6,7) by (auto simp: align_all_def split: sum.splits)
  show ?thesis
    using same_bar_assemble [OF assms(1,8) build_align_maps_same [OF assms(4,1-3) m(1,3)]
        build_align_maps_same [OF assms(5,1-3) m(2,4)]] .
qed

lemma replay_same_past:
  assumes "reads_past on_bar" "same_primary n p p'"
    and "ds_len p = length (ds_times p)" "ds_len p' = length (ds_times p')"
    and "list_all2 (same_confirmed n pint p) ss ss'" "list_all2 (same_confirmed n pint p) fs fs'"
    and "align_all p pint ss fs = Inr (sm, fm)" "align_all p' pint ss' fs' = Inr (sm', fm')"
    and "replay ev cfg policy pricing refs cancelled on_bar s
           (assemble p (zip (map fst ss) sm) (zip (map fst fs) fm)) = Some r"
    and "replay ev cfg policy pricing refs cancelled' on_bar s
           (assemble p' (zip (map fst ss') sm') (zip (map fst fs') fm')) = Some r'"
  shows "replay_bars ev pricing refs on_bar
           (assemble p (zip (map fst ss) sm) (zip (map fst fs) fm)) (start_replay cfg policy s) n
       = replay_bars ev pricing refs on_bar
           (assemble p' (zip (map fst ss') sm') (zip (map fst fs') fm')) (start_replay cfg policy s) n
    \<and> take n (rp_equity r) = take n (rp_equity r')"
proof -
  let ?pd = "assemble p (zip (map fst ss) sm) (zip (map fst fs) fm)"
  let ?pd' = "assemble p' (zip (map fst ss') sm') (zip (map fst fs') fm')"
  let ?run = "\<lambda>pd. replay_bars ev pricing refs on_bar pd (start_replay cfg policy s)"
  have e: "?run ?pd n = ?run ?pd' n"
    using replay_bars_cong [OF assms(1) align_all_same_bars [OF assms(2-8)]] by blast
  have r: "r = ?run ?pd (length (ds_times p))" "r' = ?run ?pd' (length (ds_times p'))"
    using assms(9,10) by (auto simp: replay_def assemble_def Let_def split: if_splits)
  have "n \<le> length (ds_times p)" "n \<le> length (ds_times p')"
    using assms(2) by (auto simp: same_primary_def)
  then have "take n (rp_equity (?run ?pd (length (ds_times p)))) = rp_equity (?run ?pd n)"
    "take n (rp_equity (?run ?pd' (length (ds_times p')))) = rp_equity (?run ?pd' n)"
    using replay_bars_equity [where rp = "start_replay cfg policy s"] by (auto simp: start_replay_def)
  then show ?thesis using e r by simp
qed

text \<open>
  C4. A backtest does not look ahead. Take two histories whose primary series agree on their first
  \<open>n\<close> bars (and on the start time of the next one), and whose other securities and factors agree
  on the bars that have closed by the close of each of these. A strategy that reads the past only
  ends the first \<open>n\<close> bars of both in the same state, broker and spreads included, and the first
  \<open>n\<close> values of the two equity curves are the same, whatever comes later.
\<close>

theorem replay_no_lookahead:
  assumes "reads_past on_bar" "same_primary n p p'"
    and "ds_len p = length (ds_times p)" "ds_len p' = length (ds_times p')"
    and "list_all2 (same_confirmed n pint p) ss ss'" "list_all2 (same_confirmed n pint p) fs fs'"
    and "align_all p pint ss fs = Inr (sm, fm)" "align_all p' pint ss' fs' = Inr (sm', fm')"
    and "replay ev cfg policy pricing refs cancelled on_bar s
           (assemble p (zip (map fst ss) sm) (zip (map fst fs) fm)) = Some r"
    and "replay ev cfg policy pricing refs cancelled' on_bar s
           (assemble p' (zip (map fst ss') sm') (zip (map fst fs') fm')) = Some r'"
  shows "replay_bars ev pricing refs on_bar
           (assemble p (zip (map fst ss) sm) (zip (map fst fs) fm)) (start_replay cfg policy s) n
       = replay_bars ev pricing refs on_bar
           (assemble p' (zip (map fst ss') sm') (zip (map fst fs') fm')) (start_replay cfg policy s) n
    \<and> take n (rp_equity r) = take n (rp_equity r')"
  by (rule replay_same_past [OF assms])

definition ex_main :: "f64 \<Rightarrow> data_set" where
  "ex_main x = (set_timestamps (map (\<lambda>k. k * 60 * minute_ns) [0, 1, 2]) new_data_set)
     \<lparr>ds_columns := [''open'' \<mapsto> [FFin 10, FFin 20, x], ''close'' \<mapsto> [FFin 20, FFin 30, x],
        ''buy_signal'' \<mapsto> [1, 0, x], ''sell_signal'' \<mapsto> [0, 0, x]]\<rparr>"

definition ex_other :: "f64 \<Rightarrow> data_set" where
  "ex_other x = (set_timestamps [0, 120 * minute_ns] new_data_set)\<lparr>ds_columns := [''close'' \<mapsto> [FFin 5, x]]\<rparr>"

definition ex_prepared :: "f64 \<Rightarrow> prepared" where
  "ex_prepared x = assemble (ex_main x) (zip (map fst [(ex_other x, ''2h'')]) [[- 1, 0, 0]])
     (zip (map fst ([] :: (data_set \<times> string) list)) [])"

definition ex_plain :: environment where
  "ex_plain = \<lparr>ev_case = ascii_case, ev_provider = None\<rparr>"

definition ex_cross :: golden_cross where
  "ex_cross = \<lparr>gc_fast = 5, gc_slow = 20, gc_twap = 0, gc_pct = FFin (1 / 2)\<rparr>"

abbreviation ex_spot :: secref where
  "ex_spot \<equiv> \<lparr>sr_market = ''spot'', sr_symbol = ''BTC'', sr_interval = ''1h'', sr_index = 0\<rparr>"

definition ex_costs :: config where
  "ex_costs = \<lparr>c_capital = FFin 1000, c_unit = [], c_commission = CommissionFlat,
     c_commission_value = FFin 1, c_slippage = 0, c_execution = ExecutionPriceCanonical,
     c_valuation = ValuationPriceClose, c_trigger = TriggerPriceCanonical\<rparr>"

abbreviation ex_run :: "f64 \<Rightarrow> nat \<Rightarrow> golden_cross replay" where
  "ex_run x n \<equiv> replay_bars ex_plain default_spread_pricing (\<lambda>_. [ex_spot])
     (golden_cross_on_bar ex_plain (\<lambda>_. [ex_spot]) ex_spot) (ex_prepared x) (start_replay ex_costs [] ex_cross) n"

lemma ex_lengths:
  "ds_times (ex_main x) = map (\<lambda>k. k * 60 * minute_ns) [0, 1, 2]" "ds_len (ex_main x) = 3"
  "ds_times (ex_other x) = [0, 120 * minute_ns]" "ds_len (ex_other x) = 2"
  by (simp_all add: ex_main_def ex_other_def set_timestamps_def)

lemma ex_align_all: "align_all (ex_main x) ''1h'' [(ex_other x, ''2h'')] [] = Inr ([[- 1, 0, 0]], [])"
proof -
  have "align_series (ex_main x) (ex_other x) ''1h'' ''2h'' = align_series (ex_main 0) (ex_other 0) ''1h'' ''2h''"
    unfolding align_series_def ex_lengths by (rule refl)
  also have "\<dots> = Aligned [- 1, 0, 0]" by code_simp
  finally show ?thesis by (simp add: align_all_def)
qed

lemma ex_same_primary: "same_primary 2 (ex_main x) (ex_main y)"
  by (auto simp: same_primary_def ex_main_def set_timestamps_def column_at_def less_Suc_eq numeral_2_eq_2 fun_eq_iff)

lemma ex_same_other: "same_confirmed 2 ''1h'' (ex_main x) (ex_other x, ''2h'') (ex_other y, ''2h'')"
proof -
  have i: "parse_interval ''1h'' = Some (60 * minute_ns)" "parse_interval ''2h'' = Some (120 * minute_ns)"
    by code_simp+
  show ?thesis
    by (auto simp: same_confirmed_def i same_known_def closed_by_def ex_main_def ex_other_def set_timestamps_def
        minute_ns_def column_at_def less_Suc_eq numeral_2_eq_2 fun_eq_iff)
qed

lemma ex_replay:
  "replay ex_plain ex_costs [] default_spread_pricing (\<lambda>_. [ex_spot]) (\<lambda>_. False)
     (golden_cross_on_bar ex_plain (\<lambda>_. [ex_spot]) ex_spot) ex_cross (ex_prepared x) = Some (ex_run x 3)"
  by (simp add: replay_def ex_prepared_def assemble_def ex_main_def set_timestamps_def numeral_3_eq_3)

lemma ex_values: "take 2 (rp_equity (ex_run 0 3)) = [FFin 1000, FFin 1249]"
  by code_simp

theorem replay_no_lookahead_witness:
  "\<forall>x y. ex_run x 2 = ex_run y 2 \<and> take 2 (rp_equity (ex_run x 3)) = take 2 (rp_equity (ex_run y 3))"
proof (intro allI)
  fix x y
  show "ex_run x 2 = ex_run y 2 \<and> take 2 (rp_equity (ex_run x 3)) = take 2 (rp_equity (ex_run y 3))"
    using replay_no_lookahead [where ss = "[(ex_other x, ''2h'')]" and ss' = "[(ex_other y, ''2h'')]"
          and fs = "[]" and fs' = "[]",
        OF golden_cross_reads_past ex_same_primary _ _ _ _ ex_align_all ex_align_all
           ex_replay [unfolded ex_prepared_def] ex_replay [unfolded ex_prepared_def]]
      ex_same_other [of x y]
    by (simp add: ex_prepared_def ex_lengths)
qed

end
