(* ===== verification/Dsl_Bridge.thy ===== *)
theory Dsl_Bridge
  imports Dsl_Session_Laws Dsl_Plan Bt_Engine_Laws Bt_Replay_Props
begin

text \<open>
  A script as a strategy of a backtest (\<open>pkg/dsl/bridge\<close>): the bridge between the interpreter and
  the bar context (\<open>bridge.go\<close>, \<open>order_adapter.go\<close>, \<open>params.go\<close>), the start of a script and its step
  at a bar, and the laws that carry the results about sessions and about replays over to scripts.
  Not modelled are the expression mode of \<open>request.security\<close> (\<open>EvalSpecialForm\<close>), which evaluates an
  expression on another security, and the option spreads. \<open>EvalSpecialForm\<close> also answers
  \<open>request.security\<close> with a literal field; the model answers it with the native function, which gives
  the same value and series.
\<close>

section \<open>The configuration and the parameters\<close>

definition config_number :: "config_value \<Rightarrow> f64 option" where
  "config_number v =
     (case v of
        CfgFloat x \<Rightarrow> Some x
      | CfgInt i \<Rightarrow> Some (f64_of_int i)
      | CfgBool b \<Rightarrow> Some (if b then 1 else 0)
      | _ \<Rightarrow> None)"

definition config_text :: "config_value \<Rightarrow> string" where
  "config_text v =
     (case v of
        CfgString s \<Rightarrow> s
      | CfgFloat x \<Rightarrow> format_g x
      | CfgInt i \<Rightarrow> itoa i
      | CfgBool b \<Rightarrow> (if b then ''true'' else ''false'')
      | CfgOther s \<Rightarrow> s)"

type_synonym config_map = "string \<Rightarrow> config_value option"

definition bridge_config_float :: "config_map \<Rightarrow> string \<Rightarrow> f64 \<Rightarrow> f64" where
  "bridge_config_float conf name d =
     (case conf name of
        None \<Rightarrow> d
      | Some v \<Rightarrow> (case config_number v of Some x \<Rightarrow> x | None \<Rightarrow> d))"

definition bridge_config_string :: "config_map \<Rightarrow> string \<Rightarrow> string \<Rightarrow> string" where
  "bridge_config_string conf name d = (case conf name of None \<Rightarrow> d | Some v \<Rightarrow> config_text v)"

text \<open>\<open>ApplyParams\<close>: the numbers and the texts among the parameters.\<close>

definition param_numbers :: "config_map \<Rightarrow> string \<Rightarrow> f64 option" where
  "param_numbers params k = Option.bind (params k) config_number"

definition param_texts :: "config_map \<Rightarrow> string \<Rightarrow> string option" where
  "param_texts params k = (case params k of Some (CfgString s) \<Rightarrow> Some s | _ \<Rightarrow> None)"

section \<open>The bridge\<close>

text \<open>
  What the bridge of a bar shows and holds: the fields of the primary series, of the other
  securities and of the factors at the bar, the signals of the bar and the engine behind the context.
\<close>

record bar_bridge =
  bb_field :: "string \<Rightarrow> f64"
  bb_security :: "int \<Rightarrow> string \<Rightarrow> f64"
  bb_factor :: "int \<Rightarrow> string \<Rightarrow> f64"
  bb_events :: "signal_event list"
  bb_engine :: engine

text \<open>What a script strategy is given beside the script.\<close>

record 'o script_host =
  sh_natives :: "'o native_env"
  sh_quote :: "string \<Rightarrow> string"
  sh_order :: "(string \<times> f64) list \<Rightarrow> (string \<times> f64) list"
  sh_ev :: environment
  sh_refs :: "int \<Rightarrow> secref list"
  sh_config :: config_map
  sh_universe :: "(string \<Rightarrow> int \<Rightarrow> string list) option"
  sh_events :: "signal_event list"
  sh_expose :: "string list"
  sh_tables :: request_tables

definition primary_ref :: secref where
  "primary_ref = zero_ref"

definition on_engine :: "(engine \<Rightarrow> engine) \<Rightarrow> bar_bridge \<Rightarrow> bar_bridge" where
  "on_engine f b = b\<lparr>bb_engine := f (bb_engine b)\<rparr>"

text \<open>\<open>SubmitOrder\<close>: the order builder that an order of a script gives.\<close>

definition intent_amount :: "order_intent \<Rightarrow> order_builder \<Rightarrow> order_builder" where
  "intent_amount oi ob =
     (if 0 < oi_notional oi then ob\<lparr>ob_notional := oi_notional oi\<rparr>
      else ob\<lparr>ob_qty := (if feq (oi_qty oi) 0 then 1 else oi_qty oi)\<rparr>)"

definition intent_pricing :: "order_intent \<Rightarrow> order_builder \<Rightarrow> order_builder" where
  "intent_pricing oi ob =
     (case oi_type oi of
        IntentMarket \<Rightarrow> ob
      | IntentLimit \<Rightarrow> with_limit (oi_limit oi) ob
      | IntentStop \<Rightarrow> with_stop (oi_stop oi) ob
      | IntentStopLimit \<Rightarrow> with_stop_limit (oi_stop oi) (oi_limit oi) ob
      | IntentTwap \<Rightarrow> with_twap (oi_twap oi) ob)"

definition intent_builder :: "order_intent \<Rightarrow> order_builder" where
  "intent_builder oi =
     (let ob = new_order_builder primary_ref;
          ob = (if oi_entry oi \<noteq> [] then ob\<lparr>ob_entry := oi_entry oi\<rparr> else ob);
          ob = ob\<lparr>ob_side := (case oi_side oi of IntentBuy \<Rightarrow> Buy | IntentSell \<Rightarrow> Sell)\<rparr>;
          ob = intent_amount oi ob;
          ob = (if oi_note oi \<noteq> [] then ob\<lparr>ob_note := oi_note oi\<rparr> else ob);
          ob = intent_pricing oi ob
      in if oi_immediate oi then ob\<lparr>ob_immediate := True\<rparr> else ob)"

definition submit_script_order :: "environment \<Rightarrow> order_intent \<Rightarrow> bar_bridge \<Rightarrow> int \<times> bar_bridge" where
  "submit_script_order ev oi b =
     (let (n, en) = submit ev (intent_builder oi) (bb_engine b) in (n, b\<lparr>bb_engine := en\<rparr>))"

definition close_script_entry :: "environment \<Rightarrow> string \<Rightarrow> bar_bridge \<Rightarrow> bool \<times> bar_bridge" where
  "close_script_entry ev entry b =
     (let (ok, en) = close_entry ev primary_ref entry (bb_engine b) in (ok, b\<lparr>bb_engine := en\<rparr>))"

definition position_price :: "secref \<Rightarrow> engine \<Rightarrow> f64" where
  "position_price r en = p_avg (tracker_get (br_positions (en_broker en)) r)"

definition script_request :: "'o script_host \<Rightarrow> string \<Rightarrow> string list \<Rightarrow> bar_bridge request_target" where
  "script_request X x ss =
     (case find_request (ne_case (sh_natives X)) (sh_tables X) x ss of
        RequestShort \<Rightarrow> TargetNone
      | RequestMissing func key \<Rightarrow>
          TargetMissing func (''request dependency '' @ sh_quote X key @ '' was not preloaded'')
      | RequestSecurity name i x \<Rightarrow> TargetAt name (\<lambda>b. bb_security b i x)
      | RequestFactor name i x \<Rightarrow> TargetAt name (\<lambda>b. bb_factor b i x))"

definition script_bridge :: "'o script_host \<Rightarrow> bar_bridge bridge_ops" where
  "script_bridge X =
     \<lparr>bo_bar_index = (\<lambda>b. en_bar (bb_engine b)), bo_close = (\<lambda>b. bb_field b ''close''),
      bo_open = (\<lambda>b. bb_field b ''open''), bo_high = (\<lambda>b. bb_field b ''high''),
      bo_low = (\<lambda>b. bb_field b ''low''), bo_volume = (\<lambda>b. bb_field b ''volume''),
      bo_buy = (\<lambda>q. on_engine (buy_with_note (sh_ev X) primary_ref q [])),
      bo_sell = (\<lambda>q. on_engine (sell_with_note (sh_ev X) primary_ref q [])),
      bo_close_entry = close_script_entry (sh_ev X),
      bo_position_size = (\<lambda>b. position_of primary_ref (bb_engine b)),
      bo_position_price = (\<lambda>b. position_price primary_ref (bb_engine b)),
      bo_equity = (\<lambda>b. equity_of (sh_ev X) (sh_refs X) (bb_engine b)),
      bo_cash = (\<lambda>b. br_cash (en_broker (bb_engine b))),
      bo_submit = Some (submit_script_order (sh_ev X)),
      bo_config = Some (\<lambda>b. (bridge_config_float (sh_config X), bridge_config_string (sh_config X))),
      bo_signals = Some bb_events,
      bo_universe = Some (\<lambda>b code. case sh_universe X of
          Some f \<Rightarrow> f code (en_time (bb_engine b)) | None \<Rightarrow> []),
      bo_request = script_request X\<rparr>"

definition script_env :: "'o script_host \<Rightarrow> ('o, bar_bridge) renv" where
  "script_env X = runtime_env (sh_natives X) (script_bridge X) (sh_quote X) (sh_order X)"

section \<open>The strategy\<close>

definition events_at_time :: "signal_event list \<Rightarrow> int \<Rightarrow> signal_event list" where
  "events_at_time es t = filter (\<lambda>e. sg_time e div 1000000000 = t div 1000000000) es"

definition default_raw_price_fields :: "string list" where
  "default_raw_price_fields = [''open_raw'', ''high_raw'', ''low_raw'', ''close_raw'']"

definition script_fields :: "'o script_host \<Rightarrow> string list" where
  "script_fields X = default_raw_price_fields @ sh_expose X"

text \<open>\<open>uniqStrings\<close> and \<open>exposedFields\<close>, given the metadata of the script and the source of the signals.\<close>

definition uniq_strings :: "string list \<Rightarrow> string list" where
  "uniq_strings xs =
     rev (fold (\<lambda>x out. let x = trim_space x in if x = [] \<or> x \<in> set out then out else x # out) xs [])"

definition exposed_fields :: "string list \<Rightarrow> string \<Rightarrow> string \<Rightarrow> string \<Rightarrow> string list" where
  "exposed_fields expose signal_name meta_source opt_source =
     uniq_strings (expose @
       (if trim_space signal_name \<noteq> [] then [trim_space signal_name]
        else if meta_source \<noteq> [] \<or> opt_source \<noteq> [] then [''entry_signal''] else []))"

text \<open>\<open>Init\<close>: the interpreter of a script.\<close>

definition script_start :: "(string \<times> config_value) list \<Rightarrow> stmt list \<Rightarrow> ('o, bar_bridge) interp" where
  "script_start params prog =
     first_state ProfileBacktest 0 (param_numbers (map_of params)) (param_texts (map_of params)) True prog"

definition bar_bridge_of :: "'o script_host \<Rightarrow> bar_view \<Rightarrow> engine \<Rightarrow> bar_bridge" where
  "bar_bridge_of X v en =
     \<lparr>bb_field = (\<lambda>name. vw_field v name 0), bb_security = (\<lambda>i name. vw_security v i name 0),
      bb_factor = (\<lambda>i name. vw_factor v i name 0), bb_events = events_at_time (sh_events X) (en_time en),
      bb_engine = en\<rparr>"

definition before_bar ::
  "'o script_host \<Rightarrow> bar_view \<Rightarrow> engine \<Rightarrow> ('o, bar_bridge) interp \<Rightarrow> ('o, bar_bridge) interp" where
  "before_bar X v en st =
     fold (\<lambda>f. set_named_field f (vw_field v f 0)) (script_fields X)
       (st\<lparr>ip_bridge := Some (bar_bridge_of X v en)\<rparr>)"

text \<open>
  \<open>OnBar\<close>. A bar returns within the fuel \<open>bar_fuel\<close> (\<open>script_bar_returns\<close> below), so the last case
  does not occur in a backtest.
\<close>

definition script_on_bar :: "'o script_host \<Rightarrow> ('o, bar_bridge) interp strategy" where
  "script_on_bar X v st en =
     (let st = before_bar X v en st
      in case on_bar (script_env X) (bar_fuel st) st of
           Some st' \<Rightarrow> (st', case ip_bridge st' of Some b \<Rightarrow> bb_engine b | None \<Rightarrow> en)
         | None \<Rightarrow> (st, en))"

section \<open>The bridge acts through the commands of the context\<close>

definition bridge_runs :: "environment \<Rightarrow> bar_bridge \<Rightarrow> bar_bridge \<Rightarrow> bool" where
  "bridge_runs ev b b' \<longleftrightarrow> runs ev (bb_engine b) (bb_engine b')"

lemma bridge_runs_star: "(bridge_runs ev)\<^sup>*\<^sup>* b b' \<Longrightarrow> bridge_runs ev b b'"
  by (induction rule: rtranclp_induct) (auto simp: bridge_runs_def intro: runs_then)

interpretation script: bridged "sh_natives X" "script_bridge X" "sh_quote X" "sh_order X" D "bridge_runs (sh_ev X)"
  for X D
  by unfold_locales
    (auto simp: bridge_within_def bridge_runs_def script_bridge_def on_engine_def submit_script_order_def
      close_script_entry_def Let_def case_prod_unfold runs_orders runs_submit)

section \<open>A script keeps to the past\<close>

lemma same_past_bridge: "same_past v v' \<Longrightarrow> bar_bridge_of X v en = bar_bridge_of X v' en"
  by (simp add: bar_bridge_of_def same_past_def)

lemma script_reads_past: "reads_past (script_on_bar X)"
  unfolding reads_past_def script_on_bar_def before_bar_def
  by (intro allI impI) (simp only: same_past_bridge same_past_field)

section \<open>A script over a backtest\<close>

lemma session_fields:
  "session E F prog st \<Longrightarrow> set xs \<subseteq> F \<Longrightarrow> session E F prog (fold (\<lambda>x. set_named_field x (g x)) xs st)"
  by (induction xs arbitrary: st) (auto intro: s_field)

lemma session_before_bar:
  "session E (set (script_fields X)) prog st
    \<Longrightarrow> session E (set (script_fields X)) prog (before_bar X v en st)"
  unfolding before_bar_def by (intro session_fields s_bridge) simp_all

lemma fields_bridge: "ip_bridge (fold (\<lambda>x. set_named_field x (g x)) xs st) = ip_bridge st"
  by (induction xs arbitrary: st) (simp_all add: set_named_field_def)

lemma fields_bar_index: "ip_bar_index (fold (\<lambda>x. set_named_field x (g x)) xs st) = ip_bar_index st"
  by (induction xs arbitrary: st) (simp_all add: set_named_field_def)

lemma before_bar_bridge: "ip_bridge (before_bar X v en st) = Some (bar_bridge_of X v en)"
  by (simp add: before_bar_def fields_bridge)

lemma before_bar_index: "ip_bar_index (before_bar X v en st) = ip_bar_index st"
  by (simp add: before_bar_def fields_bar_index)

text \<open>What one bar of a script does, at any point of a backtest.\<close>

lemma script_bar:
  assumes st: "session (script_env X) (set (script_fields X)) prog st"
  obtains st' en' where "script_on_bar X v st en = (st', en')"
    "session (script_env X) (set (script_fields X)) prog st'" "ip_bar_index st' = ip_bar_index st + 1"
    "runs (sh_ev X) en en'"
proof -
  let ?s = "before_bar X v en st" and ?E = "script_env X"
  note s = session_before_bar [OF st, of v en]
  then have ok: "session_ok prog ?s" unfolding script_env_def by (rule session_invariants)
  obtain st' where bar: "on_bar ?E (bar_fuel ?s) ?s = Some st'"
    using bar_returns(2) [OF ok order_refl] unfolding script_env_def by blast
  have small: "fns_small (script_size prog) ?s" "stmts_size (ip_program ?s) + 1 \<le> script_size prog"
    using ok by (simp_all add: session_ok_def script_size_def)
  note run = bar [unfolded script_env_def] small
  have "rel_option (bridge_runs (sh_ev X))\<^sup>*\<^sup>* (ip_bridge ?s) (ip_bridge st')"
    by (rule script.on_bar_bridge [OF run])
  then obtain b where b: "ip_bridge st' = Some b" "bridge_runs (sh_ev X) (bar_bridge_of X v en) b"
    by (auto simp: before_bar_bridge option_rel_Some1 dest: bridge_runs_star)
  have "ip_bar_index st' = ip_bar_index ?s + 1"
    using steps_same_code [OF script.on_bar_steps [OF run]] by (simp add: same_code_def open_bar_facts)
  then show ?thesis
    using that [of st' "bb_engine b"] bar b s_bar [OF s bar]
    by (simp add: script_on_bar_def Let_def before_bar_index bridge_runs_def bar_bridge_of_def)
qed

lemma script_start_index: "ip_bar_index (script_start params prog :: ('o, bar_bridge) interp) = 0"
proof -
  have "fresh_state prog (script_start params prog :: ('o, bar_bridge) interp)" unfolding script_start_def by (rule fresh_first)
  then show ?thesis by (simp add: fresh_state_def)
qed

text \<open>The invariant of a replay of a script.\<close>

definition script_replay :: "'o script_host \<Rightarrow> stmt list \<Rightarrow> nat \<Rightarrow> engine \<Rightarrow> ('o, bar_bridge) interp replay \<Rightarrow> bool" where
  "script_replay X prog n en rp \<longleftrightarrow>
     session (script_env X) (set (script_fields X)) prog (rp_strategy rp)
     \<and> ip_bar_index (rp_strategy rp) = int n \<and> runs (sh_ev X) en (rp_engine rp)"

lemma end_bar_strategy: "rp_strategy (end_bar ev pricing refs rp) = rp_strategy rp"
  by (simp add: end_bar_def Let_def split: prod.split)

lemma script_replay_bar:
  assumes "script_replay X prog n en rp"
  shows "script_replay X prog (Suc n) en (replay_bar (sh_ev X) pricing refs (script_on_bar X) pd rp i)"
proof -
  let ?b = "begin_bar (sh_ev X) pricing pd (int i) (pd_times pd ! i) (rp_engine rp, rp_valuation rp)"
  obtain st' en' where o: "script_on_bar X (view_at pd (int i)) (rp_strategy rp) (fst ?b) = (st', en')"
    "session (script_env X) (set (script_fields X)) prog st'" "ip_bar_index st' = ip_bar_index (rp_strategy rp) + 1"
    "runs (sh_ev X) (fst ?b) en'"
    using assms script_bar [of X prog "rp_strategy rp" "view_at pd (int i)" "fst ?b"]
    unfolding script_replay_def by blast
  let ?rp = "rp\<lparr>rp_engine := en', rp_valuation := snd ?b, rp_strategy := st'\<rparr>"
  have s: "runs (sh_ev X) en (rp_engine rp)" using assms by (simp add: script_replay_def)
  have b: "runs (sh_ev X) (rp_engine rp) (fst ?b)"
    using runs_begin_bar [where st = "(rp_engine rp, rp_valuation rp)"] by simp
  have e: "runs (sh_ev X) en' (rp_engine (end_bar (sh_ev X) pricing refs ?rp))"
    using runs_end_bar [where rp = ?rp] by simp
  note runs_then [OF runs_then [OF runs_then [OF s b] o(4)] e]
  then show ?thesis
    using assms o by (simp add: replay_bar_def Let_def case_prod_unfold script_replay_def end_bar_strategy)
qed

lemma script_replay_bars:
  "script_replay X prog n (rp_engine (start_replay cfg policy (script_start params prog)))
     (replay_bars (sh_ev X) pricing refs (script_on_bar X) pd
       (start_replay cfg policy (script_start params prog)) n)"
proof (induction n)
  case 0
  have "session (script_env X) F prog (script_start params prog)" for F
    unfolding script_start_def by (rule s_start)
  then show ?case by (simp add: replay_bars_def script_replay_def start_replay_def script_start_index)
next
  case (Suc n)
  then show ?case unfolding replay_bars_Suc by (rule script_replay_bar)
qed

end
