(* ===== verification/Dsl_Session_Props.thy ===== *)
theory Dsl_Session_Props
  imports Dsl_Session_Laws
begin

text \<open>
  The properties of the script interpreter over a whole session, with closed examples that run
  scripts on a host whose state counts the orders it receives.
\<close>

section \<open>A host and a script for the examples\<close>

definition plain_natives :: "unit native_env" where
  "plain_natives =
     \<lparr>ne_int = (\<lambda>_. 0), ne_case = ascii_case, ne_same = (\<lambda>_ _. True), ne_length = (\<lambda>_. None),
      ne_pow = (\<lambda>x y. x), ne_log = (\<lambda>x. x), ne_log10 = (\<lambda>x. x), ne_exp = (\<lambda>x. x),
      ne_sprintf = (\<lambda>f vs. f), ne_pointer = itoa \<circ> int, ne_parse = (\<lambda>s. None)\<rparr>"

definition counting_bridge :: "nat bridge_ops" where
  "counting_bridge =
     \<lparr>bo_bar_index = int, bo_close = (\<lambda>_. 1), bo_open = (\<lambda>_. 1), bo_high = (\<lambda>_. 1), bo_low = (\<lambda>_. 1),
      bo_volume = (\<lambda>_. 0), bo_buy = (\<lambda>q b. Suc b), bo_sell = (\<lambda>q b. Suc b),
      bo_close_entry = (\<lambda>e b. (True, Suc b)), bo_position_size = (\<lambda>_. 0), bo_position_price = (\<lambda>_. 0),
      bo_equity = (\<lambda>_. 0), bo_cash = (\<lambda>_. 0), bo_submit = None, bo_config = None,
      bo_signals = None, bo_universe = None, bo_request = (\<lambda>_ _. TargetNone)\<rparr>"

abbreviation counting_env :: "(unit, nat) renv" where
  "counting_env \<equiv> runtime_env plain_natives counting_bridge (\<lambda>s. s) (\<lambda>xs. xs)"

definition tk :: token where
  "tk = mk_token TkIdent [] 1 1"

definition var_stmt :: "string \<Rightarrow> expr \<Rightarrow> stmt" where
  "var_stmt x e = VarDecl tk x [] False False e"

definition buy_call :: expr where
  "buy_call = CallExpr tk (IdentExpr tk ''buy'') [CallArg [] (IdentExpr tk ''missing'')]"

text \<open>\<open>a = [1]\<close>, \<open>b = [a]\<close>, \<open>b[0] = b\<close>, \<open>while true {}\<close>, \<open>buy(missing)\<close>\<close>

definition nest_script :: "stmt list" where
  "nest_script =
     [var_stmt ''a'' (ArrayLit tk [NumberLit tk 1]),
      var_stmt ''b'' (ArrayLit tk [IdentExpr tk ''a'']),
      IndexAssignStmt tk (IdentExpr tk ''b'') (NumberLit tk 0) (IdentExpr tk ''b''),
      WhileStmt tk (BoolLit tk True) (Block tk []),
      ExprStmt buy_call]"

definition nest_start :: "(unit, nat) interp" where
  "nest_start = first_state ProfileIndicator 5 (\<lambda>_. None) (\<lambda>_. None) True nest_script"

lemma nest_session: "session counting_env {''oi''} nest_script nest_start"
  unfolding nest_start_def by (rule s_start)

lemma nest_bar:
  "\<exists>st. on_bar counting_env (bar_fuel nest_start) nest_start = Some st
        \<and> session counting_env {''oi''} nest_script st"
proof -
  obtain st where st: "on_bar counting_env (bar_fuel nest_start) nest_start = Some st"
    using bar_returns(2) [OF session_invariants [OF nest_session] order_refl] by blast
  with nest_session have "session counting_env {''oi''} nest_script st" by (rule s_bar)
  with st show ?thesis by blast
qed

section \<open>A bar ends\<close>

text \<open>C2. Every bar of every script ends: at each point of a backtest, whatever the script, the
  inputs, the bridge and the fields queued so far, \<open>OnBar\<close> returns, although scripts have loops
  and recursive functions: there is a state that the bar comes to with any amount of fuel from
  \<open>bar_fuel\<close> on, a number given by the execution budget and the size of the script.\<close>

theorem dsl_bar_returns:
  assumes "session (runtime_env N B quote go_order) F prog st"
  shows "\<exists>st'. \<forall>n \<ge> bar_fuel st. on_bar (runtime_env N B quote go_order) n st = Some st'"
proof -
  note ok = session_invariants [OF assms]
  obtain st' where "on_bar (runtime_env N B quote go_order) (bar_fuel st) st = Some st'"
    using bar_returns(2) [OF ok order_refl] by blast
  then have "on_bar (runtime_env N B quote go_order) n st = Some st'" if "bar_fuel st \<le> n" for n
    using bar_returns(1) [OF ok that, of N B quote go_order] by (simp only:)
  then show ?thesis by blast
qed

lemma dsl_bar_returns_witness:
  "\<exists>st'. \<forall>n \<ge> bar_fuel nest_start. on_bar counting_env n nest_start = Some st'"
  by (rule dsl_bar_returns [OF nest_session])

section \<open>Arrays\<close>

text \<open>The arrays that an array has among its elements.\<close>

definition array_refs :: "('o, 'b) interp \<Rightarrow> (nat \<times> nat) set" where
  "array_refs st =
     {(a, b). a < length (ip_arrays st) \<and> VArray b \<in> set (ip_arrays st ! a)}"

lemma heap_ok_refs:
  assumes "heap_ok st"
  shows "acyclic (array_refs st)" "(a, b) \<in> array_refs st \<Longrightarrow> b < length (ip_arrays st)"
proof -
  obtain rk where rk: "ranked (ip_arrays st) rk" using assms by (auto simp: heap_ok_def)
  have "(array_refs st)\<inverse> \<subseteq> measure rk"
    using rankedD(3) [OF rk] by (auto simp: array_refs_def)
  then have "wf ((array_refs st)\<inverse>)" by (rule wf_subset [OF wf_measure])
  then show "acyclic (array_refs st)" using wf_acyclic acyclic_converse by blast
  show "(a, b) \<in> array_refs st \<Longrightarrow> b < length (ip_arrays st)"
    using rankedD(2) [OF rk] by (auto simp: array_refs_def)
qed

text \<open>C9. No script can make an array that contains itself, directly or through others, although
  arrays are shared and elements can be overwritten: at every point of a backtest the references
  between the arrays are acyclic and lead to arrays that exist, so that \<open>snapshotAssigned\<close> and
  \<open>valEqual\<close>, which follow them, end.\<close>

theorem dsl_arrays_acyclic:
  assumes "session (runtime_env N B quote go_order) F prog st"
  shows "acyclic (array_refs st) \<and> (\<forall>(a, b) \<in> array_refs st. b < length (ip_arrays st))
    \<and> snapshot v st \<noteq> None \<and> val_equal same v w st \<noteq> None"
proof -
  have "heap_ok st" using session_invariants [OF assms] by (simp add: session_ok_def)
  then show ?thesis using heap_ok_refs snapshot_total val_equal_total by fast
qed

lemma dsl_arrays_acyclic_witness:
  "\<exists>st. on_bar counting_env (bar_fuel nest_start) nest_start = Some st
        \<and> session counting_env {''oi''} nest_script st \<and> acyclic (array_refs st)"
  using nest_bar dsl_arrays_acyclic by blast

section \<open>Unknown identifiers\<close>

abbreviation unresolved_code :: string where
  "unresolved_code \<equiv> ''dsl.unresolved_identifier''"

definition unresolved_message :: "('o, 'b) renv \<Rightarrow> string \<Rightarrow> string" where
  "unresolved_message E x = ''identifier '' @ go_quote E x @ '' is not defined''"

definition reports :: "diagnostic list \<Rightarrow> string list" where
  "reports ds = map dg_message (filter (\<lambda>d. dg_code d = unresolved_code) ds)"

definition reported_once :: "('o, 'b) renv \<Rightarrow> ('o, 'b) interp \<Rightarrow> bool" where
  "reported_once E st \<longleftrightarrow>
     distinct (ip_unresolved st) \<and>
     (\<forall>ds. ip_diagnostics st = Some ds \<longrightarrow>
        reports ds = map (unresolved_message E) (rev (ip_unresolved st)))"

lemma reported_cong:
  "reported_once E st \<Longrightarrow> ip_unresolved st' = ip_unresolved st
    \<Longrightarrow> ip_diagnostics st' = ip_diagnostics st \<Longrightarrow> reported_once E st'"
  by (simp add: reported_once_def)

lemma reported_diagnostic:
  "reported_once E st \<Longrightarrow> dg_code d \<noteq> unresolved_code \<Longrightarrow> reported_once E (add_diagnostic d st)"
  by (auto simp: reported_once_def add_diagnostic_def list_add_def reports_def)

lemma bar_diagnostic_code [simp]: "dg_code (bar_diagnostic sev c m f h st) = c"
  by (simp add: bar_diagnostic_def)

lemma reported_unresolved: "reported_once E st \<Longrightarrow> reported_once E (report_unresolved E x st)"
  by (auto simp: reported_once_def report_unresolved_def add_diagnostic_def list_add_def reports_def
      bar_diagnostic_def unresolved_message_def)

lemma reported_tagged:
  assumes "reported_once E st"
  shows "reported_once E (report_builtin_failure f r st)" "reported_once E (report_compound x p st)"
    "c \<noteq> unresolved_code \<Longrightarrow> reported_once E (report_warning c k m h st)"
    "reported_once E (snd (consume st))"
  using assms
  by (auto simp: report_builtin_failure_def report_compound_def report_warning_def consume_def Let_def
      intro!: reported_diagnostic elim: reported_cong)

lemma snapshot_diagnostics:
  "snapshot v st = Some (w, st') \<Longrightarrow>
   ip_unresolved st' = ip_unresolved st \<and> ip_diagnostics st' = ip_diagnostics st"
  by (auto dest!: snapshot_arrays)

lemma update_series_diagnostics [simp]:
  "ip_unresolved (update_series a f st) = ip_unresolved st"
  "ip_diagnostics (update_series a f st) = ip_diagnostics st"
  by (simp_all add: update_series_def)

lemma store_element_diagnostics [simp]:
  "ip_unresolved (store_element x n i v st) = ip_unresolved st"
  "ip_diagnostics (store_element x n i v st) = ip_diagnostics st"
  by (auto simp: store_element_def split: rvalue.splits)

lemma series_ops_diagnostics:
  "ip_unresolved (snd (promote x v sc st)) = ip_unresolved st"
  "ip_diagnostics (snd (promote x v sc st)) = ip_diagnostics st"
  "ip_unresolved (snd (capture_series x f st)) = ip_unresolved st"
  "ip_diagnostics (snd (capture_series x f st)) = ip_diagnostics st"
  "ip_unresolved (snd (set_plot_value t v d ov st)) = ip_unresolved st"
  "ip_diagnostics (snd (set_plot_value t v d ov st)) = ip_diagnostics st"
  by (auto simp: op_defs split: option.splits prod.splits list.splits)

lemma micro_reported: "micro E D R st st' \<Longrightarrow> reported_once E st \<Longrightarrow> reported_once E st'"
proof (induction rule: micro.induct)
  case (m_store v st w st' left n i)
  then show ?case using snapshot_diagnostics [OF m_store(1)] by (auto elim: reported_cong)
next
  case (m_snapshot v st w st')
  then show ?case using snapshot_diagnostics [OF m_snapshot(1)] by (auto elim: reported_cong)
qed (auto simp: reported_tagged reported_unresolved reported_diagnostic series_ops_diagnostics
    set_in_frame_def scope_child_def new_fn_def new_array_def elim: reported_cong)

lemma steps_reported: "steps E D R st st' \<Longrightarrow> reported_once E st \<Longrightarrow> reported_once E st'"
  by (induction rule: rtranclp_induct) (auto dest: micro_reported)

lemma reported_start:
  "fresh_state prog st \<Longrightarrow> ip_diagnostics st \<in> {None, Some []} \<Longrightarrow> reported_once E st"
  by (auto simp: fresh_state_def reported_once_def reports_def)

text \<open>C21. An identifier that is not defined is reported once in a backtest, not on every bar: at
  every point the names already reported are distinct, and the diagnostics with that code are one
  for each of these names, in the order in which the script came to them.\<close>

theorem dsl_unresolved_once:
  assumes "session (runtime_env N B quote go_order) F prog st"
  shows "reported_once (runtime_env N B quote go_order) st"
  using assms
proof (induction rule: session.induct)
  case (s_start p budget inputs strings diags)
  show ?case by (rule reported_start [OF fresh_first]) (simp add: first_state_def)
next
  case (s_bar st n st')
  let ?E = "runtime_env N B quote go_order"
  have "steps ?E (script_size prog) (\<lambda>_ _. True) (open_bar ?E st) st'"
    using session_invariants [OF s_bar(1)] dsl.on_bar_steps [OF s_bar(2), of "script_size prog"]
    by (simp add: session_ok_def script_size_def)
  moreover have "reported_once ?E (open_bar ?E st)"
    using s_bar(3) by (rule reported_cong) (simp_all add: open_bar_facts)
  ultimately show ?case by (rule steps_reported)
qed (auto simp: set_named_field_def elim: reported_cong)

lemma dsl_unresolved_once_witness:
  "\<exists>st. on_bar counting_env (bar_fuel nest_start) nest_start = Some st
        \<and> session counting_env {''oi''} nest_script st \<and> reported_once counting_env st"
  using nest_bar dsl_unresolved_once by blast

section \<open>Series and plots\<close>

text \<open>C16. Series stay in step with the bars. If the fields the host queues are not named like the
  fields of the bar, then at every point a series with a name has at most as many values as there
  were bars, so that no offset reads beyond the first bar, and the series of every plot has exactly
  one value per bar; no two plots, and no plot and a named series, share their values.\<close>

theorem dsl_series_aligned:
  assumes "session (runtime_env N B quote go_order) F prog st"
    and "F \<inter> {''open'', ''high'', ''low'', ''close'', ''volume'', ''hl2'', ''hlc3'', ''ohlc4''} = {}"
    and "\<And>xs. mset (go_order xs) = mset xs"
  shows "(\<forall>x a. ip_series_map st x = Some a \<longrightarrow>
            int (length (series_of st a)) \<le> ip_bar_index st \<and> a \<notin> pl_series ` set (ip_plots st))
    \<and> (\<forall>p \<in> set (ip_plots st). int (length (series_of st (pl_series p))) = ip_bar_index st)
    \<and> distinct (map pl_series (ip_plots st))"
proof -
  have "F \<inter> set bar_names = {}" using assms(2) by (simp add: bar_names_def)
  then have a: "aligned F st" using session_aligned assms(1,3) by blast
  then have k: "0 \<le> ip_bar_index st"
    and sp: "spans (nat (ip_bar_index st)) (\<lambda>_. nat (ip_bar_index st)) st"
    by (simp_all add: aligned_def)
  have "int (length (series_of st i)) \<le> ip_bar_index st \<and> i \<notin> pl_series ` set (ip_plots st)"
    if "ip_series_map st x = Some i" for x i
    using spansD(1-3) [OF sp that] k by (simp add: series_of_def)
  moreover have "int (length (series_of st (pl_series p))) = ip_bar_index st"
    if "p \<in> set (ip_plots st)" for p
    using sp that k unfolding spans_def by (simp add: series_of_def)
  moreover have "distinct (map pl_series (ip_plots st))" using sp by (simp add: spans_def)
  ultimately show ?thesis by blast
qed

lemma dsl_series_aligned_witness:
  "\<exists>st. on_bar counting_env (bar_fuel nest_start) nest_start = Some st
        \<and> session counting_env {''oi''} nest_script st
        \<and> (\<forall>p \<in> set (ip_plots st). int (length (series_of st (pl_series p))) = ip_bar_index st)"
proof -
  obtain st where st: "on_bar counting_env (bar_fuel nest_start) nest_start = Some st"
    "session counting_env {''oi''} nest_script st" using nest_bar by blast
  have "\<forall>p \<in> set (ip_plots st). int (length (series_of st (pl_series p))) = ip_bar_index st"
    using dsl_series_aligned [OF st(2)] by simp
  with st show ?thesis by blast
qed

section \<open>Read-only evaluation\<close>

lemma fns_small_some: "\<exists>D. fns_small D st \<and> k \<le> D"
proof -
  have "fn_body_size (fn_body f) \<le> sum_list (map (fn_body_size \<circ> fn_body) (ip_fns st))"
    if "f \<in> set (ip_fns st)" for f
    using member_le_sum_list [of "(fn_body_size \<circ> fn_body) f" "map (fn_body_size \<circ> fn_body) (ip_fns st)"] that
    by simp
  then show ?thesis
    by (intro exI [of _ "k + sum_list (map (fn_body_size \<circ> fn_body) (ip_fns st))"])
      (fastforce simp: fns_small_def)
qed

text \<open>C10. The evaluation of an expression for \<open>request.security\<close> has no side effect on the host:
  whatever functions of the script and of the interpreter \<open>EvalReadOnlyExpression\<close> calls, the
  bridge is afterwards what it was before, and so is the count of nested read-only evaluations.\<close>

theorem dsl_read_only_keeps_bridge:
  assumes "0 \<le> ip_read_only st"
    and "eval_read_only (runtime_env N B quote go_order) n e sc st = Some (v, st')"
  shows "ip_bridge st' = ip_bridge st \<and> ip_read_only st' = ip_read_only st"
proof -
  let ?st = "st\<lparr>ip_read_only := ip_read_only st + 1\<rparr>"
  obtain D where D: "fns_small D ?st" "size e + 1 \<le> D" using fns_small_some by blast
  obtain s where s: "run (runtime_env N B quote go_order) n (WExpr e) sc ?st = Some (v, s)"
    "st' = s\<lparr>ip_read_only := ip_read_only s - 1\<rparr>"
    using assms(2) by (auto simp: eval_read_only_def elim!: bind_eq_SomeE)
  have "steps (runtime_env N B quote go_order) D (\<lambda>_ _. True) ?st s"
    by (rule dsl.run_steps [OF s(1)]) (use D in simp_all)
  then have "same_host ?st s" by (rule steps_same_host)
  then show ?thesis using assms(1) s(2) by (simp add: same_host_def)
qed

definition host_state :: "(unit, nat) interp" where
  "host_state =
     (interp_init (register_builtin ''buy'' [] (blank_interp [])))
       \<lparr>ip_bridge := Some 7, ip_left := 9, ip_diagnostics := Some []\<rparr>"

text \<open>Outside of a read-only evaluation the same expression places an order.\<close>

lemma buy_acts:
  "map_option (ip_bridge \<circ> snd) (eval_expression counting_env 9 buy_call global_scope host_state) = Some (Some 8)"
  by code_simp

lemma buy_read_only:
  "map_option (\<lambda>(v, st). map dg_code (the (ip_diagnostics st)))
     (eval_read_only counting_env 9 buy_call global_scope host_state)
   = Some [''dsl.unresolved_identifier'', ''dsl.readonly_side_effect'']"
  by code_simp

lemma dsl_read_only_keeps_bridge_witness:
  "\<exists>v st. eval_read_only counting_env 9 buy_call global_scope host_state = Some (v, st)
          \<and> ip_bridge st = Some 7"
proof -
  obtain v st where e: "eval_read_only counting_env 9 buy_call global_scope host_state = Some (v, st)"
    using buy_read_only by (cases "eval_read_only counting_env 9 buy_call global_scope host_state") auto
  have "0 \<le> ip_read_only host_state" "ip_bridge host_state = Some 7" by code_simp+
  then show ?thesis using dsl_read_only_keeps_bridge [OF _ e] e by auto
qed

section \<open>Calls of script functions\<close>

definition args_upto :: "nat \<Rightarrow> 'o rvalue list \<Rightarrow> 'o rvalue list" where
  "args_upto n vs = map (\<lambda>i. if i < length vs then vs ! i else VNa) [0..<n]"

lemma bind_params_frames:
  "a < length (ip_frames st) \<Longrightarrow>
   ip_frames (bind_params ps vs i (a # sc) st) = (ip_frames st)[a := frame_of st a ++
     map_of (rev (zip ps (drop i (args_upto (i + length ps) vs))))]"
proof (induction ps arbitrary: i st)
  case (Cons p ps)
  have "drop i (args_upto (i + length (p # ps)) vs) =
      (if i < length vs then vs ! i else VNa) # drop (Suc i) (args_upto (Suc i + length ps) vs)"
    by (simp add: args_upto_def drop_map upt_rec [of i "Suc (i + length ps)"] del: upt_Suc)
  moreover have "m ++ (\<lambda>x. if x = p then Some w else None) = (\<lambda>x. if x = p then Some w else m x)"
    for m :: "string \<Rightarrow> 'a rvalue option" and w
    by (auto simp: map_add_def)
  ultimately show ?case using Cons
    by (simp add: scope_set_def set_in_frame_def frame_of_def fun_upd_def)
qed (simp add: frame_of_def)

lemma scope_get_cong:
  "(\<And>a. a \<in> set sc \<Longrightarrow> frame_of st' a x = frame_of st a x) \<Longrightarrow> scope_get st' sc x = scope_get st sc x"
  by (induction sc) (auto split: option.splits)

text \<open>C20. A call of a function of the script runs in a scope of its own: a parameter has the value
  of the argument at its position, na when there is none, and of two parameters with one name the
  later counts; every other name means what it means where the function was made, and no
  variable of the caller or of any other scope is touched.\<close>

theorem dsl_call_scope:
  assumes "call_scope f vs st = (sc, s)" and "\<forall>a \<in> set (fn_closure f). a < length (ip_frames st)"
  shows "(\<forall>x. scope_get s sc x =
      (case map_of (rev (zip (fn_params f) (args_upto (length (fn_params f)) vs))) x of
         Some v \<Rightarrow> Some v
       | None \<Rightarrow> scope_get st (fn_closure f) x))
    \<and> take (length (ip_frames st)) (ip_frames s) = ip_frames st"
proof -
  let ?n = "length (ip_frames st)" and ?s = "st\<lparr>ip_frames := ip_frames st @ [\<lambda>_. None]\<rparr>"
  have sc: "sc = ?n # fn_closure f" "s = bind_params (fn_params f) vs 0 (?n # fn_closure f) ?s"
    using assms(1) by (auto simp: call_scope_def scope_child_def)
  have fr: "ip_frames s =
      ip_frames st @ [map_of (rev (zip (fn_params f) (args_upto (length (fn_params f)) vs)))]"
    using bind_params_frames [of ?n ?s "fn_params f" vs 0 "fn_closure f"]
    by (simp add: sc(2) frame_of_def nth_append list_update_append)
  have "scope_get s (fn_closure f) x = scope_get st (fn_closure f) x" for x
    using assms(2) by (intro scope_get_cong) (simp add: frame_of_def fr nth_append less_SucI)
  then show ?thesis
    by (simp add: sc(1) frame_of_def fr nth_append split: option.split)
qed

definition add_fn :: rfn where
  "add_fn = \<lparr>fn_name = ''add'', fn_params = [''x'', ''y''], fn_body = BodyExpr (IdentExpr tk ''x''),
             fn_closure = [0]\<rparr>"

lemma dsl_call_scope_witness:
  "scope_get (snd (call_scope add_fn [VFloat 1] host_state))
     (fst (call_scope add_fn [VFloat 1] host_state)) ''y'' = Some VNa"
proof -
  obtain sc s where c: "call_scope add_fn [VFloat 1] host_state = (sc, s)" by fastforce
  have "\<forall>a \<in> set (fn_closure add_fn). a < length (ip_frames host_state)" by code_simp
  then have "scope_get s sc ''y'' =
      (case map_of (rev (zip (fn_params add_fn) (args_upto (length (fn_params add_fn)) [VFloat 1]))) ''y'' of
         Some v \<Rightarrow> Some v
       | None \<Rightarrow> scope_get host_state (fn_closure add_fn) ''y'')"
    using dsl_call_scope [OF c] by blast
  also have "\<dots> = Some VNa" by code_simp
  finally show ?thesis by (simp add: c)
qed

end
