(* ===== verification/Dsl_Bridge_Props.thy ===== *)
theory Dsl_Bridge_Props
  imports Dsl_Bridge Dsl_Session_Props
begin

text \<open>
  What a backtest of a script promises, whatever the script: each bar runs, the books agree with
  the trades, and nothing depends on what comes later.
\<close>

section \<open>The books of a script\<close>

text \<open>
  C3. A backtest of any script, with any parameters, configuration, signals and data: after \<open>n\<close> bars
  the interpreter has run \<open>n\<close> bars, each of which returned, and it is in a state of a session, so that
  the invariants of sessions hold; the positions and the entries of the broker are exactly what
  the trades add up to, and the trades are numbered from 1. The invariants of the interpreter, of
  the bridge and of the engine compose.
\<close>

theorem script_backtest_sound:
  assumes "rp = replay_bars (sh_ev X) pricing refs (script_on_bar X) pd
      (start_replay cfg policy (script_start params prog)) n"
    and "b = en_broker (rp_engine rp)"
  shows "session (script_env X) (set (script_fields X)) prog (rp_strategy rp)
    \<and> ip_bar_index (rp_strategy rp) = int n
    \<and> br_positions b = replay_positions (br_trades b) \<and> br_entries b = replay_entries (br_trades b)
    \<and> map t_id (br_trades b) = map int [1..<Suc (length (br_trades b))]"
proof -
  have r: "script_replay X prog n (rp_engine (start_replay cfg policy (script_start params prog))) rp"
    unfolding assms(1) by (rule script_replay_bars)
  then have "reachable (tc_fold (ev_case (sh_ev X))) cfg b"
    unfolding assms(2) script_replay_def
    by (auto intro: books.run_keeps simp: start_replay_engine reachable_new)
  then show ?thesis
    using r replay.reachable_invariant numbering.reachable_invariant
    by (auto simp: script_replay_def log_replays_def trades_numbered_def)
qed

section \<open>No look-ahead\<close>

text \<open>
  C1. A backtest of a script does not look ahead, whatever the script does. Take two histories whose
  primary series agree on their first \<open>n\<close> bars (and on the start time of the next one), and whose
  other securities and factors agree on the bars that have closed by the close of each of these.
  The script ends the first \<open>n\<close> bars of both in the same state, its variables, series, plots and
  diagnostics included, with the same trades, and the first \<open>n\<close> values of the equity curves agree.
\<close>

theorem script_no_lookahead:
  assumes "same_primary n p p'"
    and "ds_len p = length (ds_times p)" "ds_len p' = length (ds_times p')"
    and "list_all2 (same_confirmed n pint p) ss ss'" "list_all2 (same_confirmed n pint p) fs fs'"
    and "align_all p pint ss fs = Inr (sm, fm)" "align_all p' pint ss' fs' = Inr (sm', fm')"
    and "replay (sh_ev X) cfg policy pricing refs cancelled (script_on_bar X) (script_start params prog)
           (assemble p (zip (map fst ss) sm) (zip (map fst fs) fm)) = Some r"
    and "replay (sh_ev X) cfg policy pricing refs cancelled' (script_on_bar X) (script_start params prog)
           (assemble p' (zip (map fst ss') sm') (zip (map fst fs') fm')) = Some r'"
  shows "replay_bars (sh_ev X) pricing refs (script_on_bar X)
           (assemble p (zip (map fst ss) sm) (zip (map fst fs) fm))
           (start_replay cfg policy (script_start params prog)) n
       = replay_bars (sh_ev X) pricing refs (script_on_bar X)
           (assemble p' (zip (map fst ss') sm') (zip (map fst fs') fm'))
           (start_replay cfg policy (script_start params prog)) n
    \<and> take n (rp_equity r) = take n (rp_equity r')"
  by (rule replay_same_past [OF script_reads_past assms])

section \<open>The orders of a script\<close>

definition intent_order_type :: "order_intent \<Rightarrow> order_type" where
  "intent_order_type oi =
     (case oi_type oi of
        IntentMarket \<Rightarrow> MarketOrder | IntentLimit \<Rightarrow> LimitOrder | IntentStop \<Rightarrow> StopOrder
      | IntentStopLimit \<Rightarrow> StopLimitOrder
      | IntentTwap \<Rightarrow> if 1 < oi_twap oi then TWAPMarketOrder else MarketOrder)"

text \<open>
  C34. An order that a script places while it may act, and that is not immediate, becomes exactly one
  pending order, the last one, with the next number, which the script is told; nothing else of the
  engine changes. The order is on the primary security, with the side, the entry, the note, the
  type and the prices of the intent; a positive notional amount is its size, otherwise the quantity is,
  one unit when it is zero.
\<close>

theorem script_order_queued:
  assumes "ip_read_only st = 0" "ip_bridge st = Some b" "\<not> oi_immediate oi"
    and "en = bb_engine b" "br = en_broker en"
    and "submit_intent (script_bridge X) oi st = (n, st')"
  shows "\<exists>od. ip_bridge st' = Some (b\<lparr>bb_engine := en\<lparr>en_broker := br\<lparr>br_next_oid := br_next_oid br + 1,
             br_pending := br_pending br @ [od]\<rparr>\<rparr>\<rparr>)
    \<and> n = br_next_oid br \<and> o_id od = n \<and> o_sec od = primary_ref \<and> \<not> o_reduce od
    \<and> o_side od = (case oi_side oi of IntentBuy \<Rightarrow> Buy | IntentSell \<Rightarrow> Sell)
    \<and> o_entry od = oi_entry oi \<and> o_note od = oi_note oi
    \<and> (if 0 < oi_notional oi then o_notional od = oi_notional oi \<and> o_qty od = 0
       else o_notional od = 0 \<and> o_qty od = (if feq (oi_qty oi) 0 then 1 else oi_qty oi))
    \<and> o_type od = intent_order_type oi
    \<and> (o_type od \<in> {LimitOrder, StopLimitOrder} \<longrightarrow> o_price od = oi_limit oi)
    \<and> (o_type od \<in> {StopOrder, StopLimitOrder} \<longrightarrow> o_stop od = oi_stop oi)
    \<and> (o_type od = TWAPMarketOrder \<longrightarrow> o_twap od = oi_twap oi)
    \<and> o_bar od = en_bar en \<and> o_time od = en_time en"
proof -
  let ?ob = "intent_builder oi" and ?od = "(built_order (intent_builder oi) en)\<lparr>o_id := br_next_oid br\<rparr>"
  note defs = intent_builder_def intent_amount_def intent_pricing_def new_order_builder_def with_limit_def
    with_stop_def with_stop_limit_def with_twap_def Let_def
  have ob: "\<not> ob_immediate ?ob" "\<not> ob_reduce ?ob"
    using assms(3) by (simp_all add: defs split: intent_type.split)
  have "submit_script_order (sh_ev X) oi b = (br_next_oid br, b\<lparr>bb_engine := en\<lparr>en_broker :=
      br\<lparr>br_next_oid := br_next_oid br + 1, br_pending := br_pending br @ [?od]\<rparr>\<rparr>\<rparr>)"
    using ob assms(4,5)
    by (simp add: submit_script_order_def submit_def submit_order_def size_reduce_only_def built_order_def Let_def)
  then have "n = br_next_oid br \<and> ip_bridge st' = Some (b\<lparr>bb_engine := en\<lparr>en_broker :=
      br\<lparr>br_next_oid := br_next_oid br + 1, br_pending := br_pending br @ [?od]\<rparr>\<rparr>\<rparr>)"
    using assms(1,2,6)
    by (auto simp: submit_intent_def allow_side_effect_def script_bridge_def set_bridge_def)
  then show ?thesis
    by (intro exI [of _ ?od])
      (auto simp: built_order_def intent_order_type_def defs split: intent_type.split)
qed

text \<open>
  The security of these orders has no symbol, so the accounting in the base asset, which compares
  the symbol with the unit of the account, never applies to a script.
\<close>

lemma script_never_base_asset:
  assumes "\<And>u. u \<noteq> [] \<Longrightarrow> \<not> fe [] u"
  shows "\<not> uses_base_asset fe cfg primary_ref"
  using assms by (simp add: uses_base_asset_def primary_ref_def zero_ref_def equal_fold_def trim_space_def Let_def)

section \<open>An example\<close>

text \<open>\<open>if close > 15 buy(1)\<close>\<close>

definition ex_script :: "stmt list" where
  "ex_script =
     [IfStmt tk (BinaryExpr tk (IdentExpr tk ''close'') TkGt (NumberLit tk (FFin 15)))
        (Block tk [ExprStmt (CallExpr tk (IdentExpr tk ''buy'') [CallArg [] (NumberLit tk 1)])]) [] None]"

definition ex_host :: "unit script_host" where
  "ex_host =
     \<lparr>sh_natives = plain_natives, sh_quote = (\<lambda>s. s), sh_order = (\<lambda>xs. xs), sh_ev = ex_plain,
      sh_refs = (\<lambda>_. [primary_ref]), sh_config = (\<lambda>_. None), sh_universe = None, sh_events = [],
      sh_expose = [], sh_tables = no_tables\<rparr>"

abbreviation ex_script_run :: "f64 \<Rightarrow> nat \<Rightarrow> (unit, bar_bridge) interp replay" where
  "ex_script_run x n \<equiv> replay_bars ex_plain default_spread_pricing (\<lambda>_. [primary_ref]) (script_on_bar ex_host)
     (ex_prepared x) (start_replay ex_costs [] (script_start [] ex_script)) n"

lemma ex_script_replay:
  "replay (sh_ev ex_host) ex_costs [] default_spread_pricing (\<lambda>_. [primary_ref]) (\<lambda>_. False)
     (script_on_bar ex_host) (script_start [] ex_script) (ex_prepared x) = Some (ex_script_run x 3)"
  by (simp add: replay_def ex_prepared_def assemble_def ex_main_def set_timestamps_def numeral_3_eq_3
      ex_host_def)

theorem script_no_lookahead_witness:
  "\<forall>x y. ex_script_run x 2 = ex_script_run y 2
     \<and> take 2 (rp_equity (ex_script_run x 3)) = take 2 (rp_equity (ex_script_run y 3))"
proof (intro allI)
  fix x y
  show "ex_script_run x 2 = ex_script_run y 2
     \<and> take 2 (rp_equity (ex_script_run x 3)) = take 2 (rp_equity (ex_script_run y 3))"
    using script_no_lookahead [where ss = "[(ex_other x, ''2h'')]" and ss' = "[(ex_other y, ''2h'')]"
          and fs = "[]" and fs' = "[]" and X = ex_host,
        OF ex_same_primary _ _ _ _ ex_align_all ex_align_all
           ex_script_replay [unfolded ex_prepared_def] ex_script_replay [unfolded ex_prepared_def]]
      ex_same_other [of x y]
    by (simp add: ex_prepared_def ex_lengths ex_host_def)
qed

text \<open>\<open>strategy.entry\<close> with a limit of 9: a limit order for one unit.\<close>

definition ex_intent :: order_intent where
  "ex_intent = (new_intent IntentBuy IntentLimit)\<lparr>oi_entry := ''a'', oi_limit := FFin 9\<rparr>"

definition ex_acting :: "(unit, bar_bridge) interp" where
  "ex_acting = (blank_interp [])\<lparr>ip_bridge := Some
     (bar_bridge_of ex_host (view_at (ex_prepared 0) 0) (rp_engine (start_replay ex_costs [] ())))\<rparr>"

theorem script_order_queued_witness:
  "\<exists>od b. ip_bridge (snd (submit_intent (script_bridge ex_host) ex_intent ex_acting)) = Some b
     \<and> br_pending (en_broker (bb_engine b)) = [od] \<and> o_type od = LimitOrder \<and> o_price od = FFin 9 \<and> o_qty od = 1"
proof -
  let ?b = "bar_bridge_of ex_host (view_at (ex_prepared 0) 0) (rp_engine (start_replay ex_costs [] ()))"
  have none: "br_pending (en_broker (bb_engine ?b)) = []"
    by (simp add: bar_bridge_of_def start_replay_def new_broker_def)
  have zero: "feq 0 0" by code_simp
  have i: "oi_type ex_intent = IntentLimit" "oi_limit ex_intent = FFin 9" "feq (oi_qty ex_intent) 0"
    "\<not> 0 < oi_notional ex_intent" "\<not> oi_immediate ex_intent" "intent_order_type ex_intent = LimitOrder"
    by (simp_all add: ex_intent_def new_intent_def intent_order_type_def zero)
  have st: "ip_read_only ex_acting = 0" "ip_bridge ex_acting = Some ?b"
    by (simp_all add: ex_acting_def blank_interp_def)
  show ?thesis
    using script_order_queued [OF st i(5) refl refl prod.collapse [symmetric], of ex_host] i none by auto
qed

theorem script_backtest_sound_witness:
  "ip_bar_index (rp_strategy (ex_script_run 0 2)) = 2
    \<and> br_positions (en_broker (rp_engine (ex_script_run 0 2)))
      = replay_positions (br_trades (en_broker (rp_engine (ex_script_run 0 2))))"
  using script_backtest_sound [where X = ex_host and n = 2, OF refl refl] by (simp add: ex_host_def)

end
