(* ===== verification/Dsl_Plan_Props.thy ===== *)
theory Dsl_Plan_Props
  imports Dsl_Plan
begin

text \<open>
  What the static analysis promises to a running script: every call in the script is seen by the
  walk, and every request whose arguments are literals is planned, registered under the key
  that the function looks up, and answered with the data that was asked for.
\<close>

section \<open>The calls of a script\<close>

type_synonym call = "expr \<times> call_arg list"

fun calls_expr :: "expr \<Rightarrow> call list" where
  "calls_expr (BinaryExpr _ l _ r) = calls_expr l @ calls_expr r"
| "calls_expr (UnaryExpr _ _ e) = calls_expr e"
| "calls_expr (CallExpr _ callee as) =
     (callee, as) # calls_expr callee @ concat (map (\<lambda>a. calls_expr (arg_value a)) as)"
| "calls_expr (DotExpr _ obj _) = calls_expr obj"
| "calls_expr (IndexExpr _ l i) = calls_expr l @ calls_expr i"
| "calls_expr (TernaryExpr _ c a b) = calls_expr c @ calls_expr a @ calls_expr b"
| "calls_expr (ArrayLit _ es) = concat (map calls_expr es)"
| "calls_expr (LambdaExpr _ _ body) = calls_expr body"
| "calls_expr _ = []"

definition calls_opt :: "expr option \<Rightarrow> call list" where
  "calls_opt e = (case e of Some e \<Rightarrow> calls_expr e | None \<Rightarrow> [])"

fun calls_stmt :: "stmt \<Rightarrow> call list"
  and calls_else_if :: "else_if \<Rightarrow> call list"
  and calls_case :: "switch_case \<Rightarrow> call list"
  and calls_block :: "block \<Rightarrow> call list" where
  "calls_stmt (StrategyDecl _ _ as) = concat (map (\<lambda>a. calls_expr (arg_value a)) as)"
| "calls_stmt (InputDecl _ _ as) = concat (map (\<lambda>a. calls_expr (arg_value a)) as)"
| "calls_stmt (VarDecl _ _ _ _ _ e) = calls_expr e"
| "calls_stmt (AssignStmt _ _ _ e) = calls_expr e"
| "calls_stmt (IndexAssignStmt _ l i e) = calls_expr l @ calls_expr i @ calls_expr e"
| "calls_stmt (TupleAssign _ _ e) = calls_expr e"
| "calls_stmt (ExprStmt e) = calls_expr e"
| "calls_stmt (IfStmt _ c body elses els) =
     calls_expr c @ calls_block body @ concat (map calls_else_if elses)
     @ (case els of Some b \<Rightarrow> calls_block b | None \<Rightarrow> [])"
| "calls_stmt (ForStmt _ _ i j step body) =
     calls_expr i @ calls_expr j @ calls_opt step @ calls_block body"
| "calls_stmt (ForInStmt _ _ coll body) = calls_expr coll @ calls_block body"
| "calls_stmt (WhileStmt _ c body) = calls_expr c @ calls_block body"
| "calls_stmt (SwitchStmt _ tag cases d) =
     calls_opt tag @ concat (map calls_case cases) @ (case d of Some b \<Rightarrow> calls_block b | None \<Rightarrow> [])"
| "calls_stmt (FnDecl _ _ ps body) = concat (map (\<lambda>p. calls_opt (param_default p)) ps) @ calls_block body"
| "calls_stmt (ReturnStmt _ e) = calls_opt e"
| "calls_stmt _ = []"
| "calls_else_if (ElseIf _ c body) = calls_expr c @ calls_block body"
| "calls_case (SwitchCase v body) = calls_expr v @ calls_block body"
| "calls_block (Block _ ss) = concat (map calls_stmt ss)"

definition program_calls :: "stmt list \<Rightarrow> call list" where
  "program_calls prog = concat (map calls_stmt prog)"

section \<open>Requests are well formed\<close>

definition request_kinds :: "string set" where
  "request_kinds = {[], ''security'', ''factor'', ''fundamental'', ''option_chain'', ''universe''}"

definition request_ok :: "text_case \<Rightarrow> request_spec \<Rightarrow> bool" where
  "request_ok tc r \<longleftrightarrow> rs_kind r \<in> request_kinds
     \<and> (rs_kind r = ''security'' \<and> \<not> rs_dynamic r \<and> rs_tier r \<noteq> TierUniverse
         \<longrightarrow> rs_key r = request_security_key tc (rs_market r) (rs_symbol r) (rs_interval r))"

lemma template_facts:
  assumes "universe_request_template tc b ov sc callee as = Some r"
  shows "rs_kind r \<in> request_kinds" "rs_tier r = TierUniverse" "symbol_is_loop sc as"
  using assms
  by (auto simp: universe_request_template_def security_template_def fundamental_template_def factor_template_def
      Let_def request_kinds_def split: if_splits option.splits expr.splits)

lemma parse_request_ok:
  assumes "parse_request_spec tc b ov callee as = Some r"
  shows "request_ok tc r"
  using assms
  by (auto simp: parse_request_spec_def security_spec_def chain_spec_def factor_spec_def fundamental_spec_def
      universe_spec_def dynamic_request_def blank_request_def Let_def request_ok_def request_kinds_def
      split: if_splits option.splits expr.splits)

section \<open>The walk sees every call\<close>

definition call_request :: "walk_context \<Rightarrow> universe_scope \<Rightarrow> expr \<Rightarrow> call_arg list \<Rightarrow> request_spec option" where
  "call_request w sc callee as =
     (case universe_request_template (wc_case w) (wc_bindings w) (wc_overrides w) sc callee as of
        Some r \<Rightarrow> Some r
      | None \<Rightarrow> parse_request_spec (wc_case w) (wc_bindings w) (wc_overrides w) callee as)"

lemma note_call_requests:
  "set (mf_requests (note_call (wc_case w) (wc_bindings w) (wc_overrides w) sc callee as m))
     = set (mf_requests m) \<union> set_option (call_request w sc callee as)"
  by (auto simp: note_call_def note_options_def add_request_def call_request_def Let_def split: option.splits)

lemma call_request_ok: "call_request w sc callee as = Some r \<Longrightarrow> request_ok (wc_case w) r"
  using template_facts parse_request_ok
  by (auto simp: call_request_def request_ok_def split: option.splits)

text \<open>
  \<open>noting w S f\<close>: the step \<open>f\<close> of the walk drops no request, adds only well-formed ones, and notes
  every call in \<open>S\<close>.
\<close>

definition noted :: "walk_context \<Rightarrow> request_spec set \<Rightarrow> call \<Rightarrow> bool" where
  "noted w R c \<longleftrightarrow> (\<exists>sc. set_option (call_request w sc (fst c) (snd c)) \<subseteq> R)"

lemma noted_mono: "noted w R c \<Longrightarrow> R \<subseteq> R' \<Longrightarrow> noted w R' c"
  unfolding noted_def by blast

definition noting :: "walk_context \<Rightarrow> call set \<Rightarrow> (manifest \<Rightarrow> manifest) \<Rightarrow> bool" where
  "noting w S f \<longleftrightarrow> (\<forall>m.
     set (mf_requests m) \<subseteq> set (mf_requests (f m))
     \<and> (\<forall>r \<in> set (mf_requests (f m)). r \<in> set (mf_requests m) \<or> request_ok (wc_case w) r)
     \<and> (\<forall>c \<in> S. noted w (set (mf_requests (f m))) c))"

lemma notingD:
  assumes "noting w S f"
  shows "set (mf_requests m) \<subseteq> set (mf_requests (f m))"
    "r \<in> set (mf_requests (f m)) \<Longrightarrow> r \<in> set (mf_requests m) \<or> request_ok (wc_case w) r"
    "c \<in> S \<Longrightarrow> noted w (set (mf_requests (f m))) c"
  using assms by (auto simp: noting_def)

lemma noting_id: "noting w {} (\<lambda>m. m)" "noting w {} id"
  by (simp_all add: noting_def)

lemma noting_comp:
  assumes f: "noting w S f" and g: "noting w T g"
  shows "noting w (S \<union> T) (\<lambda>m. g (f m))"
  unfolding noting_def
proof (intro allI conjI ballI)
  fix m
  note sub = notingD(1) [OF f, of m] notingD(1) [OF g, of "f m"]
  show "set (mf_requests m) \<subseteq> set (mf_requests (g (f m)))" using sub by (rule subset_trans)
  show "r \<in> set (mf_requests m) \<or> request_ok (wc_case w) r" if "r \<in> set (mf_requests (g (f m)))" for r
    using notingD(2) [OF g that] notingD(2) [OF f] by blast
  show "noted w (set (mf_requests (g (f m)))) c" if "c \<in> S \<union> T" for c
    using that notingD(3) [OF f] notingD(3) [OF g] sub(2) by (blast intro: noted_mono)
qed

lemma noting_fold:
  assumes "\<And>x. x \<in> set xs \<Longrightarrow> noting w (S x) (F x)"
  shows "noting w (\<Union>x \<in> set xs. S x) (\<lambda>m. fold F xs m)"
  using assms
proof (induction xs)
  case (Cons x xs)
  then show ?case using noting_comp [of w "S x" "F x" "\<Union>x \<in> set xs. S x" "fold F xs"] by simp
qed (simp add: noting_id)

lemma noting_note:
  "noting w {(callee, as)} (note_call (wc_case w) (wc_bindings w) (wc_overrides w) sc callee as)"
  unfolding noting_def note_call_requests
  by (auto simp: noted_def dest: call_request_ok)

lemma noting_options: "noting w {} (note_options x)"
  by (simp add: noting_def note_options_def)

lemma walk_expr_noting: "noting w (set (calls_expr e)) (walk_expr w sc e)"
proof (induction e rule: calls_expr.induct)
  case (3 t callee as)
  have "noting w (\<Union>a \<in> set as. set (calls_expr (arg_value a))) (\<lambda>m. fold (\<lambda>a m. walk_expr w sc (arg_value a) m) as m)"
    by (rule noting_fold) (rule 3)
  from noting_comp [OF noting_comp [OF noting_note [of w callee as sc] 3(1)] this]
  show ?case by (simp add: Un_assoc)
next
  case (4 t obj x)
  show ?case using noting_comp [OF noting_options 4] by simp
next
  case (7 t es)
  show ?case using noting_fold [of es w "\<lambda>e. set (calls_expr e)" "walk_expr w sc"] 7 by simp
qed (auto dest: noting_comp intro: noting_id noting_options simp: Un_assoc)


lemma walk_opt_noting: "noting w (set (calls_opt e)) (walk_opt w sc e)"
proof -
  have f: "walk_opt w sc e = (case e of Some e \<Rightarrow> walk_expr w sc e | None \<Rightarrow> (\<lambda>m. m))" for e
    by (auto simp: walk_opt_def fun_eq_iff split: option.split)
  show ?thesis using walk_expr_noting by (cases e) (simp_all add: f calls_opt_def noting_id)
qed

lemma walk_args_noting:
  "noting w (\<Union>a \<in> set as. set (calls_expr (arg_value a))) (\<lambda>m. fold (\<lambda>a. walk_expr w sc (arg_value a)) as m)"
  by (intro noting_fold walk_expr_noting)

lemma walk_params_noting:
  "noting w (\<Union>p \<in> set ps. set (calls_opt (param_default p))) (\<lambda>m. fold (\<lambda>p. walk_opt w sc (param_default p)) ps m)"
  by (intro noting_fold walk_opt_noting)

lemma noting_option:
  assumes "\<And>b. e = Some b \<Longrightarrow> noting w (S b) (f b)"
  shows "noting w (case e of Some b \<Rightarrow> S b | None \<Rightarrow> {}) (\<lambda>m. case e of Some b \<Rightarrow> f b m | None \<Rightarrow> m)"
  using assms by (cases e) (simp_all add: noting_id)

lemma set_option_case: "set (case e of Some b \<Rightarrow> f b | None \<Rightarrow> []) = (case e of Some b \<Rightarrow> set (f b) | None \<Rightarrow> {})"
  by (cases e) simp_all

lemma walk_stmt_fun:
  "walk_stmt w sc (StrategyDecl t x as) = fold (\<lambda>a. walk_expr w sc (arg_value a)) as"
  "walk_stmt w sc (InputDecl t x as) = fold (\<lambda>a. walk_expr w sc (arg_value a)) as"
  "walk_stmt w sc (VarDecl t x y p v e) = walk_expr w sc e"
  "walk_stmt w sc (AssignStmt t x op e) = walk_expr w sc e"
  "walk_stmt w sc (TupleAssign t xs e) = walk_expr w sc e"
  "walk_stmt w sc (ExprStmt e) = walk_expr w sc e"
  "walk_stmt w sc (ReturnStmt t o') = walk_opt w sc o'"
  "walk_stmt w sc (BreakStmt t) = (\<lambda>m. m)" "walk_stmt w sc (ContinueStmt t) = (\<lambda>m. m)"
  "walk_stmt w sc (ImportStmt t x) = (\<lambda>m. m)"
  "walk_else_if w sc (ElseIf t c body) = (\<lambda>m. walk_block w sc body (walk_expr w sc c m))"
  "walk_case w sc (SwitchCase c body) = (\<lambda>m. walk_block w sc body (walk_expr w sc c m))"
  "walk_block w sc (Block t ss) = fold (walk_stmt w sc) ss"
  by (simp_all add: fun_eq_iff)

lemma walk_stmt_noting:
  "noting w (set (calls_stmt s)) (walk_stmt w sc s)"
  "noting w (set (calls_else_if ei)) (walk_else_if w sc ei)"
  "noting w (set (calls_case c)) (walk_case w sc c)"
  "noting w (set (calls_block b)) (walk_block w sc b)"
proof (induction s and ei and c and b arbitrary: sc and sc and sc and sc
    rule: calls_stmt_calls_else_if_calls_case_calls_block.induct)
  case (8 t c body elses els)
  have e: "noting w (\<Union>x \<in> set elses. set (calls_else_if x)) (\<lambda>m. fold (\<lambda>x m. walk_else_if w sc x m) elses m)"
    by (intro noting_fold) (simp add: 8)
  have o: "noting w (case els of Some b \<Rightarrow> set (calls_block b) | None \<Rightarrow> {})
      (\<lambda>m. case els of Some b \<Rightarrow> walk_block w sc b m | None \<Rightarrow> m)"
    by (rule noting_option) (rule 8)
  show ?case
    using noting_comp [OF noting_comp [OF noting_comp [OF walk_expr_noting [of w c sc] 8(1) [of sc]] e] o]
    by (simp add: Un_assoc Let_def set_option_case)
next
  case (12 t tag cases d)
  have e: "noting w (\<Union>x \<in> set cases. set (calls_case x)) (\<lambda>m. fold (\<lambda>x m. walk_case w sc x m) cases m)"
    by (intro noting_fold) (simp add: 12)
  have o: "noting w (case d of Some b \<Rightarrow> set (calls_block b) | None \<Rightarrow> {})
      (\<lambda>m. case d of Some b \<Rightarrow> walk_block w sc b m | None \<Rightarrow> m)"
    by (rule noting_option) (rule 12)
  show ?case
    using noting_comp [OF noting_comp [OF walk_opt_noting [of w tag sc] e] o]
    by (simp add: Un_assoc Let_def set_option_case)
next
  case (5 t l i e)
  show ?case
    using noting_comp [OF noting_comp [OF walk_expr_noting [of w l sc] walk_expr_noting [of w i sc]] walk_expr_noting [of w e sc]]
    by (simp add: Un_assoc)
next
  case (9 t x i j step body)
  show ?case
    using noting_comp [OF noting_comp [OF noting_comp [OF walk_expr_noting [of w i sc] walk_expr_noting [of w j sc]]
        walk_opt_noting [of w step sc]] 9]
    by (simp add: Un_assoc)
next
  case (10 t x coll body)
  show ?case using noting_comp [OF walk_expr_noting [of w coll sc] 10] by simp
next
  case (11 t c body)
  show ?case using noting_comp [OF walk_expr_noting [of w c sc] 11] by simp
next
  case (13 t x ps body)
  show ?case using noting_comp [OF walk_params_noting [of w ps sc] 13] by simp
next
  case (18 t ss)
  have "noting w (\<Union>s \<in> set ss. set (calls_stmt s)) (\<lambda>m. fold (walk_stmt w sc) ss m)"
    by (intro noting_fold) (simp add: 18)
  then show ?case by (simp add: walk_stmt_fun)
qed (use walk_args_noting walk_expr_noting walk_opt_noting noting_comp [OF walk_expr_noting] in
      \<open>simp_all add: noting_id walk_stmt_fun\<close>)

text \<open>The manifest of a script.\<close>

definition script_context ::
  "text_case \<Rightarrow> (string \<times> config_value) list \<Rightarrow> stmt list \<Rightarrow> walk_context" where
  "script_context tc params prog =
     (let ov = normalize_overrides tc params in new_walk_context tc prog (collect_static_bindings tc ov prog) ov)"

lemma script_context_case [simp]: "wc_case (script_context tc params prog) = tc"
  by (simp add: script_context_def new_walk_context_def Let_def)

lemma analyze_requests:
  fixes tc params prog
  defines "R \<equiv> set (mf_requests (analyze_with_params tc params prog))"
  shows "r \<in> R \<Longrightarrow> request_ok tc r"
    and "c \<in> set (program_calls prog) \<Longrightarrow> noted (script_context tc params prog) R c"
proof -
  let ?w = "script_context tc params prog"
  let ?f = "\<lambda>s m. walk_stmt ?w no_scope s (m\<lparr>mf_metadata := stmt_metadata s (mf_metadata m)\<rparr>)"
  have md: "noting ?w {} (\<lambda>m. m\<lparr>mf_metadata := stmt_metadata s (mf_metadata m)\<rparr>)" for s
    by (simp add: noting_def)
  have "noting ?w (set (calls_stmt s)) (?f s)" for s
    using noting_comp [OF md walk_stmt_noting(1)] by simp
  then have "noting ?w (\<Union>s \<in> set prog. set (calls_stmt s)) (\<lambda>m. fold ?f prog m)" by (intro noting_fold)
  note n = notingD [OF this]
  have R: "R = set (mf_requests (fold ?f prog
      \<lparr>mf_name = extract_strategy_name prog, mf_inputs = extract_params prog, mf_metadata = no_metadata,
       mf_requests = [], mf_options = False, mf_orders = False, mf_diagnostics = []\<rparr>))"
    by (simp only: R_def analyze_with_params_def script_context_def Let_def)
  show "r \<in> R \<Longrightarrow> request_ok tc r" using n(2) unfolding R by fastforce
  show "c \<in> set (program_calls prog) \<Longrightarrow> noted ?w R c"
    using n(3) unfolding R program_calls_def by auto
qed

section \<open>The plan\<close>

lemma plan_add_tags:
  "request_tag ` set plan \<subseteq> request_tag ` set (plan_add r plan)"
  "\<not> rs_dynamic r \<Longrightarrow> rs_key r \<noteq> [] \<Longrightarrow> request_tag r \<in> request_tag ` set (plan_add r plan)"
  by (auto simp: plan_add_def)

lemma plan_adds_tags: "request_tag ` set plan \<subseteq> request_tag ` set (fold (\<lambda>s. plan_add (f s)) ss plan)"
  using plan_add_tags(1) by (induction ss arbitrary: plan) (simp, fastforce)

lemma plan_request_tags: "request_tag ` set plan \<subseteq> request_tag ` set (plan_request tc members r plan)"
proof (cases "rs_tier r = TierUniverse")
  case True
  then show ?thesis
    using plan_adds_tags [of plan "concrete_request tc r"] by (cases members) (simp_all add: plan_request_def)
qed (simp add: plan_request_def plan_add_tags)

lemma plan_requests_tags: "request_tag ` set plan \<subseteq> request_tag ` set (fold (plan_request tc members) rs plan)"
  using plan_request_tags by (induction rs arbitrary: plan) (simp, fastforce)

lemma planned:
  assumes "r \<in> set (mf_requests m)" "rs_tier r \<noteq> TierUniverse" "\<not> rs_dynamic r" "rs_key r \<noteq> []"
  shows "request_tag r \<in> request_tag ` set (build_dependency_plan tc members m)"
proof -
  obtain xs ys where "mf_requests m = xs @ r # ys" using split_list [OF assms(1)] by blast
  then have "build_dependency_plan tc members m
      = fold (plan_request tc members) ys (plan_add r (fold (plan_request tc members) xs []))"
    using assms(2) by (simp add: build_dependency_plan_def plan_request_def)
  then show ?thesis using plan_requests_tags plan_add_tags(2) [OF assms(3,4)] by (simp add: subset_iff)
qed

text \<open>What the plan holds.\<close>

definition plan_ok :: "text_case \<Rightarrow> request_spec list \<Rightarrow> bool" where
  "plan_ok tc plan \<longleftrightarrow> distinct (map request_tag plan)
     \<and> (\<forall>r \<in> set plan. request_ok tc r \<and> \<not> rs_dynamic r \<and> rs_tier r \<noteq> TierUniverse)"

lemma plan_add_ok:
  "plan_ok tc plan \<Longrightarrow> request_ok tc r \<Longrightarrow> rs_tier r \<noteq> TierUniverse \<Longrightarrow> plan_ok tc (plan_add r plan)"
  by (auto simp: plan_ok_def plan_add_def)

lemma concrete_ok: "request_ok tc r \<Longrightarrow> request_ok tc (concrete_request tc r s) \<and> rs_tier (concrete_request tc r s) = TierStatic"
  by (simp add: request_ok_def concrete_request_def concrete_key_def Let_def)

lemma plan_adds_ok:
  "plan_ok tc plan \<Longrightarrow> request_ok tc r \<Longrightarrow> plan_ok tc (fold (\<lambda>s. plan_add (concrete_request tc r s)) ss plan)"
  by (induction ss arbitrary: plan) (simp_all add: plan_add_ok concrete_ok)

lemma build_plan_ok:
  assumes "\<And>r. r \<in> set (mf_requests m) \<Longrightarrow> request_ok tc r"
  shows "plan_ok tc (build_dependency_plan tc members m)"
proof -
  have "plan_ok tc (fold (plan_request tc members) rs plan)"
    if "\<forall>r \<in> set rs. request_ok tc r" "plan_ok tc plan" for rs plan
    using that
    by (induction rs arbitrary: plan)
      (auto simp: plan_request_def plan_add_ok plan_adds_ok split: option.split)
  moreover have "plan_ok tc []" by (simp add: plan_ok_def)
  ultimately show ?thesis using assms by (simp add: build_dependency_plan_def)
qed

lemma same_tag:
  assumes "request_tag r = request_tag r'" "rs_kind r \<in> request_kinds" "rs_kind r' \<in> request_kinds"
  shows "rs_kind r = rs_kind r'" "rs_key r = rs_key r'"
  using assms by (auto simp: request_tag_def request_kinds_def)


section \<open>The tables\<close>

definition at_index :: "('r \<times> 'x) list \<Rightarrow> int \<Rightarrow> 'r \<Rightarrow> bool" where
  "at_index regs i r \<longleftrightarrow> 0 \<le> i \<and> i < int (length regs) \<and> fst (regs ! nat i) = r"

lemma at_index_old: "at_index regs i r \<Longrightarrow> at_index (regs @ [x]) i r"
  by (auto simp: at_index_def nth_append)

lemma at_index_new: "at_index (regs @ [(r, x)]) (int (length regs)) r"
  by (simp add: at_index_def)

text \<open>
  Every entry of the tables leads to a registration: a security whose market, symbol and interval
  give the key of the entry, or a factor.
\<close>

definition set_up_ok :: "text_case \<Rightarrow> set_up \<Rightarrow> bool" where
  "set_up_ok tc st \<longleftrightarrow>
     su_next_sec (fst st) = int (length (su_securities (fst st)))
     \<and> su_next_fac (fst st) = int (length (su_factors (fst st)))
     \<and> (\<forall>k ref. rt_security (snd st) k = Some ref \<longrightarrow>
          at_index (su_securities (fst st)) (sr_index ref) ref
          \<and> request_security_key tc (sr_market ref) (sr_symbol ref) (sr_interval ref) = k)
     \<and> (\<forall>k ref. rt_factor (snd st) k = Some ref \<longrightarrow> at_index (su_factors (fst st)) (fr_index ref) ref)"

lemma security_entry:
  "set_up_ok tc (su, tb) \<Longrightarrow> rt_security tb k = Some ref \<Longrightarrow>
     \<exists>ref'. at_index (su_securities su) (sr_index ref) ref'
       \<and> request_security_key tc (sr_market ref') (sr_symbol ref') (sr_interval ref') = k"
  by (auto simp: set_up_ok_def)

lemma factor_entry:
  "set_up_ok tc (su, tb) \<Longrightarrow> rt_factor tb k = Some ref \<Longrightarrow> \<exists>ref'. at_index (su_factors su) (fr_index ref) ref'"
  unfolding set_up_ok_def fst_conv snd_conv by blast

definition extends :: "set_up \<Rightarrow> set_up \<Rightarrow> bool" where
  "extends st st' \<longleftrightarrow> rt_security (snd st) \<subseteq>\<^sub>m rt_security (snd st') \<and> rt_factor (snd st) \<subseteq>\<^sub>m rt_factor (snd st')"

lemma extends_refl [simp]: "extends st st"
  by (simp add: extends_def)

lemma extends_trans: "extends a b \<Longrightarrow> extends b c \<Longrightarrow> extends a c"
  unfolding extends_def by (blast intro: map_le_trans)

lemma add_factor_ok:
  assumes "set_up_ok tc (su, tb)" "add_symbol_factor n m s i mode su = (ref, su')"
  shows "set_up_ok tc (su', tb)" "set_up_ok tc (su', tb\<lparr>rt_factor := (rt_factor tb)(k \<mapsto> ref)\<rparr>)"
  using assms by (auto simp: set_up_ok_def add_symbol_factor_def Let_def at_index_old at_index_new)

lemma add_security_ok:
  assumes "set_up_ok tc (su, tb)" "add_security m s i su = (ref, su')" "k = request_security_key tc m s i"
  shows "set_up_ok tc (su', tb\<lparr>rt_security := (rt_security tb)(k \<mapsto> ref)\<rparr>)"
  using assms by (auto simp: set_up_ok_def add_security_def Let_def at_index_old at_index_new)

lemma register_remote_ok:
  "set_up_ok tc st \<Longrightarrow> set_up_ok tc (register_remote tc r f st) \<and> extends st (register_remote tc r f st)"
  using add_factor_ok(1) [of tc "fst st" "snd st"]
  by (auto simp: register_remote_def Let_def extends_def set_up_ok_def split: prod.splits)

lemma register_remotes_ok:
  "set_up_ok tc st \<Longrightarrow> set_up_ok tc (fold (register_remote tc r) fs st) \<and> extends st (fold (register_remote tc r) fs st)"
proof (induction fs arbitrary: st)
  case (Cons f fs)
  note s = register_remote_ok [OF Cons.prems, of r f]
  show ?case using s Cons.IH [of "register_remote tc r f st"]
    by (auto intro: extends_trans [of st "register_remote tc r f st"])
qed simp

definition has_entry :: "set_up \<Rightarrow> request_spec \<Rightarrow> bool" where
  "has_entry st r \<longleftrightarrow>
     (rs_kind r = ''security'' \<longrightarrow> rt_security (snd st) (rs_key r) \<noteq> None)
     \<and> (rs_kind r = ''factor'' \<or> rs_kind r = ''fundamental'' \<longrightarrow> rt_factor (snd st) (rs_key r) \<noteq> None)"

lemma has_entry_extends: "has_entry st r \<Longrightarrow> extends st st' \<Longrightarrow> has_entry st' r"
  by (auto simp: has_entry_def extends_def map_le_def dom_def)

lemma register_security_ok:
  assumes st: "set_up_ok tc st" and key: "rs_key r = request_security_key tc (rs_market r) (rs_symbol r) (rs_interval r)"
  shows "set_up_ok tc (register_security tc al r st)" "extends st (register_security tc al r st)"
    "rt_security (snd (register_security tc al r st)) (rs_key r) \<noteq> None"
proof -
  obtain su tb where s: "st = (su, tb)" by fastforce
  obtain ref su' where a: "add_security (rs_market r) (rs_symbol r) (rs_interval r) su = (ref, su')" by fastforce
  define mid where "mid = (if rt_security tb (rs_key r) \<noteq> None then (su, tb)
      else (su', tb\<lparr>rt_security := (rt_security tb)(rs_key r \<mapsto> ref)\<rparr>))"
  define fs where "fs = (if rs_expression_mode r
      then (case rs_expression r of Some e \<Rightarrow> collect_remote_factors (expand_expr al [] e) | None \<Rightarrow> []) else [])"
  have reg: "register_security tc al r st = fold (register_remote tc r) fs mid"
    by (simp add: register_security_def s a mid_def fs_def Let_def)
  have mid: "set_up_ok tc mid" "extends st mid" "rt_security (snd mid) (rs_key r) \<noteq> None"
    using st add_security_ok [OF st [unfolded s] a key]
    by (auto simp: mid_def s extends_def map_le_def)
  note f = register_remotes_ok [OF mid(1), of r fs]
  show "set_up_ok tc (register_security tc al r st)" "extends st (register_security tc al r st)"
    using f mid(2) by (auto simp: reg intro: extends_trans)
  show "rt_security (snd (register_security tc al r st)) (rs_key r) \<noteq> None"
    using f mid(3) by (auto simp: reg extends_def map_le_def dom_def)
qed

lemma register_request_ok:
  assumes st: "set_up_ok tc st" and r: "request_ok tc r" "\<not> rs_dynamic r" "rs_tier r \<noteq> TierUniverse"
  shows "set_up_ok tc (register_request tc al r st)" "extends st (register_request tc al r st)"
    "has_entry (register_request tc al r st) r"
proof -
  let ?p = "set_up_ok tc (register_request tc al r st) \<and> extends st (register_request tc al r st)
      \<and> has_entry (register_request tc al r st) r"
  obtain su tb where s: "st = (su, tb)" by fastforce
  consider "rs_kind r = ''security''" | "rs_kind r = ''factor'' \<or> rs_kind r = ''fundamental''"
    | "rs_kind r \<notin> {''security'', ''factor'', ''fundamental''}" by blast
  then have ?p
  proof cases
    case 1
    then show ?thesis
      using register_security_ok [OF st, of r al] r by (simp add: register_request_def request_ok_def has_entry_def)
  next
    case 2
    obtain ref su' where a: "factor_ref_of tc r su = (ref, su')" by fastforce
    have "set_up_ok tc (su', tb\<lparr>rt_factor := (rt_factor tb)(rs_key r \<mapsto> ref)\<rparr>)"
      using a add_factor_ok(2) [OF st [unfolded s]]
      by (auto simp: factor_ref_of_def add_factor_def split: if_splits)
    then show ?thesis
      using 2 st a by (auto simp: register_request_def s has_entry_def extends_def map_le_def)
  next
    case 3
    then show ?thesis using st by (auto simp: register_request_def has_entry_def)
  qed
  then show "set_up_ok tc (register_request tc al r st)" "extends st (register_request tc al r st)"
    "has_entry (register_request tc al r st) r" by auto
qed

lemma register_requests_ok:
  assumes "set_up_ok tc st" "\<forall>r \<in> set plan. request_ok tc r \<and> \<not> rs_dynamic r \<and> rs_tier r \<noteq> TierUniverse"
  shows "set_up_ok tc (fold (register_request tc al) plan st) \<and> extends st (fold (register_request tc al) plan st)
    \<and> (\<forall>r \<in> set plan. has_entry (fold (register_request tc al) plan st) r)"
  using assms
proof (induction plan arbitrary: st)
  case (Cons r plan)
  have r: "request_ok tc r" "\<not> rs_dynamic r" "rs_tier r \<noteq> TierUniverse" using Cons.prems by simp_all
  note s = register_request_ok [OF Cons.prems(1) r, of al]
  show ?case using Cons.IH [OF s(1)] Cons.prems s(2,3) by (auto intro: extends_trans has_entry_extends)
qed simp

lemma new_setup_ok: "set_up_ok tc (new_setup m s i, no_tables)"
  by (simp add: set_up_ok_def new_setup_def no_tables_def Let_def)

text \<open>Every request of the manifest that is known before the run has an entry.\<close>

lemma script_tables:
  assumes "r \<in> set (mf_requests (analyze_with_params tc params prog))"
    and "rs_tier r \<noteq> TierUniverse" "\<not> rs_dynamic r" "rs_key r \<noteq> []"
    and "st = plan_script tc params members prog (new_setup m s i)"
  shows "set_up_ok tc st" "has_entry st r"
proof -
  let ?m = "analyze_with_params tc params prog"
  let ?plan = "build_dependency_plan tc members ?m"
  have ok: "plan_ok tc ?plan" by (rule build_plan_ok) (rule analyze_requests(1))
  have reg: "set_up_ok tc st \<and> (\<forall>r \<in> set ?plan. has_entry st r)"
    using register_requests_ok [OF new_setup_ok, of ?plan tc] ok
    by (auto simp: assms(5) plan_script_def register_requests_def plan_ok_def)
  obtain r' where r': "r' \<in> set ?plan" "request_tag r = request_tag r'"
    using planned [OF assms(1-4), of tc members] by auto
  have "request_ok tc r" "request_ok tc r'" using analyze_requests(1) [OF assms(1)] r'(1) ok by (auto simp: plan_ok_def)
  then have "rs_kind r = rs_kind r'" "rs_key r = rs_key r'" using same_tag [OF r'(2)] by (auto simp: request_ok_def)
  then show "set_up_ok tc st" "has_entry st r" using reg r'(1) by (auto simp: has_entry_def)
qed

section \<open>Literal requests\<close>

definition literal_args :: "(token \<times> string) list \<Rightarrow> call_arg list" where
  "literal_args ss = map (\<lambda>(t, s). CallArg [] (StringLit t s)) ss"

lemma literal_pairs: "arg_pairs (literal_args ss) = map (\<lambda>(t, s). ([], StringLit t s)) ss"
  by (induction ss) (auto simp: arg_pairs_def literal_args_def)

lemma literal_named: "x \<noteq> [] \<Longrightarrow> first_named x (arg_pairs (literal_args ss)) = None"
  unfolding literal_pairs by (induction ss) (auto simp: first_named_def)

lemma literal_arg_expr:
  "x \<noteq> [] \<Longrightarrow> arg_expr x i (literal_args ss) = (if i < length ss then Some (StringLit (fst (ss ! i)) (snd (ss ! i))) else None)"
  by (simp add: arg_expr_def literal_named unnamed_at_def) (simp add: literal_pairs case_prod_unfold)

lemma literal_static:
  "x \<noteq> [] \<Longrightarrow> static_arg tc b ov x i (literal_args ss) = (if i < length ss then trim_space (snd (ss ! i)) else [])"
  by (simp add: static_arg_def literal_arg_expr)

lemma literal_length [simp]: "length (literal_args ss) = length ss"
  by (simp add: literal_args_def)

lemma literal_not_loop: "\<not> symbol_is_loop sc (literal_args ss)"
  by (simp add: symbol_is_loop_def literal_arg_expr)

definition request_call :: "token \<Rightarrow> token \<Rightarrow> string \<Rightarrow> (token \<times> string) list \<Rightarrow> call" where
  "request_call t t' x ss = (DotExpr t (IdentExpr t' ''request'') x, literal_args ss)"

lemma literal_noted:
  assumes "noted w R (request_call t t' x ss)"
    and "parse_request_spec (wc_case w) (wc_bindings w) (wc_overrides w) (DotExpr t (IdentExpr t' ''request'') x)
           (literal_args ss) = Some r"
  shows "r \<in> R"
proof -
  have "universe_request_template (wc_case w) (wc_bindings w) (wc_overrides w) sc
      (DotExpr t (IdentExpr t' ''request'') x) (literal_args ss) = None" for sc
    by (auto simp: universe_request_template_def security_template_def fundamental_template_def factor_template_def
        literal_not_loop Let_def split: option.split)
  then show ?thesis using assms by (auto simp: noted_def request_call_def call_request_def)
qed

text \<open>The request that the walk notes for a call with literal arguments.\<close>

definition literal_call :: "string \<Rightarrow> (token \<times> string) list \<Rightarrow> bool" where
  "literal_call x ss \<longleftrightarrow>
     (x, length ss) \<in> {(''security'', 4), (''factor'', 3), (''factor'', 4), (''fundamental'', 3), (''fundamental'', 4)}
     \<and> (\<forall>s \<in> set ss. trim_space (snd s) \<noteq> [])"

text \<open>What a running script finds once the request is in the tables.\<close>

definition found_as :: "text_case \<Rightarrow> string \<Rightarrow> string list \<Rightarrow> request_spec \<Rightarrow> bool" where
  "found_as tc x ts r \<longleftrightarrow>
     (\<forall>tb sec fac. rt_security tb (rs_key r) = Some sec \<and> x = ''security''
         \<or> rt_factor tb (rs_key r) = Some fac \<and> x \<noteq> ''security'' \<longrightarrow>
       find_request tc tb (''request.'' @ x) ts
         = (if x = ''security''
            then RequestSecurity (''request.security.'' @ rs_key r @ ''.'' @ rs_field r) (sr_index sec) (rs_field r)
            else RequestFactor (''request.'' @ x @ ''.'' @ rs_key r @ ''.'' @ rs_field r) (fr_index fac) (rs_field r)))"

lemma literal_spec:
  assumes "literal_call x ss"
  obtains r where "parse_request_spec tc b ov (DotExpr t (IdentExpr t' ''request'') x) (literal_args ss) = Some r"
    "rs_kind r = x" "rs_tier r = TierStatic" "\<not> rs_dynamic r" "rs_key r \<noteq> []"
    "x = ''security'' \<longrightarrow> rs_key r = request_security_key tc (trim_space (snd (ss ! 0))) (trim_space (snd (ss ! 1)))
         (trim_space (snd (ss ! 2))) \<and> rs_field r = trim_space (snd (ss ! 3))"
    "found_as tc x (map snd ss) r"
proof -
  have filled: "trim_space (snd (ss ! i)) \<noteq> []" if "i < length ss" for i
    using assms that by (auto simp: literal_call_def)
  let ?r = "the (parse_request_spec tc b ov (DotExpr t (IdentExpr t' ''request'') x) (literal_args ss))"
  note defs = parse_request_spec_def literal_static literal_arg_expr filled blank_request_def Let_def literal_string_def
    text_arg_def find_request_def join_key_def found_as_def
  consider "x = ''security''" "length ss = 4" | "x = ''factor''" "length ss = 3" | "x = ''factor''" "length ss = 4"
    | "x = ''fundamental''" "length ss = 3" | "x = ''fundamental''" "length ss = 4"
    using assms by (auto simp: literal_call_def)
  then show thesis
  proof cases
    case 1 then show ?thesis
      by (intro that [of ?r]) (simp_all add: defs security_spec_def request_security_key_def find_security_def)
  next
    case 2 then show ?thesis
      by (intro that [of ?r]) (simp_all add: defs factor_spec_def request_factor_key_def find_factor_def)
  next
    case 3 then show ?thesis
      by (intro that [of ?r]) (simp_all add: defs factor_spec_def request_symbol_factor_key_def find_factor_def)
  next
    case 4 then show ?thesis
      by (intro that [of ?r]) (simp_all add: defs fundamental_spec_def request_fundamental_key_def find_fundamental_def)
  next
    case 5 then show ?thesis
      by (intro that [of ?r]) (simp_all add: defs fundamental_spec_def request_fundamental_key_def find_fundamental_def)
  qed
qed


text \<open>A request inside a loop inside an unlikely branch.\<close>

definition sample_word :: "string \<Rightarrow> token \<times> string" where
  "sample_word s = (mk_token TkString s 1 1, s)"

definition sample_request :: "string \<Rightarrow> (token \<times> string) list \<Rightarrow> expr" where
  "sample_request x ss =
     CallExpr (mk_token TkLParen ''('' 1 1)
       (DotExpr (mk_token TkDot ''.'' 1 1) (IdentExpr (mk_token TkIdent ''request'' 1 1) ''request'') x) (literal_args ss)"

definition sample_words :: "(token \<times> string) list" where
  "sample_words = map sample_word [''US'', '' spy '', ''1D'', ''close'']"

definition sample_branch :: "stmt list" where
  "sample_branch =
     [IfStmt (mk_token KwIf ''if'' 1 1) (BoolLit (mk_token TkFalse ''false'' 1 1) False)
        (Block (mk_token TkLBrace ''{'' 1 1)
           [WhileStmt (mk_token KwWhile ''while'' 1 1) (BoolLit (mk_token TkFalse ''false'' 1 1) False)
              (Block (mk_token TkLBrace ''{'' 1 1) [ExprStmt (sample_request ''security'' sample_words)])])
        [] None]"


end
