(* ===== verification/Bt_Rolling.thy ===== *)
theory Bt_Rolling
  imports Go_Float64
begin

text \<open>
  The vectorised helpers of the indicators (\<open>internal/backtest/indicator.go\<close>): exponential,
  simple and Wilder moving averages with a running sum, and the rolling maximum and minimum with
  a monotonic deque. A loop over the bars is a fold of its body over the indices; the body's state
  holds the local variables, and the output slice as the prefix written so far. A Go \<open>int\<close> is an
  integer; a period is a natural number once the code has excluded the other values. The deque
  is allocated with the period as its capacity; a period so large that the allocation panics is
  outside the model.
\<close>

section \<open>Moving averages\<close>

definition all_nan :: "nat \<Rightarrow> f64 list" where
  "all_nan n = replicate n FNaN"

definition ema_step :: "f64 list \<Rightarrow> f64 \<Rightarrow> f64 list \<times> bool \<Rightarrow> nat \<Rightarrow> f64 list \<times> bool" where
  "ema_step src k = (\<lambda>(out, seeded) i.
     if is_nan (src ! i) then (out @ [if seeded then out ! (i - 1) else FNaN], seeded)
     else if \<not> seeded then (out @ [src ! i], True)
     else (out @ [src ! i * k + out ! (i - 1) * (FFin 1 - k)], seeded))"

definition compute_ema :: "f64 list \<Rightarrow> int \<Rightarrow> f64 list" where
  "compute_ema src period =
     (if period \<le> 0 then all_nan (length src)
      else let k = FFin 2 / f64_of_int (period + 1);
               (out, seeded) = foldl (ema_step src k) ([], False) [0..<length src]
           in if seeded then out else all_nan (length src))"

text \<open>The running window of \<open>computeSMA\<close> and \<open>computeRMA\<close>: sum, NaN count and size.\<close>

record window =
  w_sum :: f64
  w_nans :: int
  w_count :: nat

definition empty_window :: window where
  "empty_window = \<lparr>w_sum = 0, w_nans = 0, w_count = 0\<rparr>"

definition window_enter :: "f64 \<Rightarrow> window \<Rightarrow> window" where
  "window_enter v w =
     (let w = (if is_nan v then w\<lparr>w_nans := w_nans w + 1\<rparr> else w\<lparr>w_sum := w_sum w + v\<rparr>)
      in w\<lparr>w_count := w_count w + 1\<rparr>)"

definition window_leave :: "f64 \<Rightarrow> window \<Rightarrow> window" where
  "window_leave old w =
     (let w = (if is_nan old then w\<lparr>w_nans := w_nans w - 1\<rparr> else w\<lparr>w_sum := w_sum w - old\<rparr>)
      in w\<lparr>w_count := w_count w - 1\<rparr>)"

definition window_slide :: "f64 list \<Rightarrow> nat \<Rightarrow> window \<Rightarrow> nat \<Rightarrow> window" where
  "window_slide src p w i =
     (let w = window_enter (src ! i) w
      in if p < w_count w then window_leave (src ! (i - p)) w else w)"

definition sma_step :: "f64 list \<Rightarrow> nat \<Rightarrow> f64 list \<times> window \<Rightarrow> nat \<Rightarrow> f64 list \<times> window" where
  "sma_step src p = (\<lambda>(out, w) i.
     let w = window_slide src p w i
     in (out @ [if w_count w < p \<or> 0 < w_nans w then FNaN else w_sum w / f64_of_int (int p)], w))"

definition compute_sma :: "f64 list \<Rightarrow> int \<Rightarrow> f64 list" where
  "compute_sma src period =
     (if period \<le> 0 then all_nan (length src)
      else fst (foldl (sma_step src (nat period)) ([], empty_window) [0..<length src]))"

definition rma_step :: "f64 list \<Rightarrow> nat \<Rightarrow> f64 list \<times> window \<Rightarrow> nat \<Rightarrow> f64 list \<times> window" where
  "rma_step src p = (\<lambda>(out, w) i.
     let w = window_slide src p w i
     in (out @ [if w_count w < p \<or> 0 < w_nans w then FNaN
                else if i = p - 1 \<or> is_nan (out ! (i - 1)) then w_sum w / f64_of_int (int p)
                else (out ! (i - 1) * f64_of_int (int p - 1) + src ! i) / f64_of_int (int p)], w))"

definition compute_rma :: "f64 list \<Rightarrow> int \<Rightarrow> f64 list" where
  "compute_rma src period =
     (if period \<le> 0 then all_nan (length src)
      else fst (foldl (rma_step src (nat period)) ([], empty_window) [0..<length src]))"

section \<open>Rolling maximum and minimum\<close>

text \<open>
  The two functions differ in one comparison, the parameter \<open>below\<close>: the new value removes from
  the back of the deque the indices whose value is \<open>below\<close> it.
\<close>

function pop_back :: "(f64 \<Rightarrow> f64 \<Rightarrow> bool) \<Rightarrow> f64 list \<Rightarrow> f64 \<Rightarrow> nat list \<Rightarrow> nat list" where
  "pop_back below src v d =
     (if d \<noteq> [] \<and> \<not> is_nan v \<and> below (src ! last d) v then pop_back below src v (butlast d) else d)"
  by pat_completeness auto
termination
  by (relation "measure (\<lambda>(_, _, _, d). length d)") auto

declare pop_back.simps [simp del]

definition rolling_step ::
  "(f64 \<Rightarrow> f64 \<Rightarrow> bool) \<Rightarrow> f64 list \<Rightarrow> nat \<Rightarrow> f64 list \<times> nat list \<times> int \<Rightarrow> nat \<Rightarrow> f64 list \<times> nat list \<times> int" where
  "rolling_step below src p = (\<lambda>(out, d, nans) i.
     let nans = (if is_nan (src ! i) then nans + 1 else nans);
         d = (if p \<le> i \<and> d \<noteq> [] \<and> hd d \<le> i - p then tl d else d);
         nans = (if p \<le> i \<and> is_nan (src ! (i - p)) then nans - 1 else nans);
         d = pop_back below src (src ! i) d;
         d = (if is_nan (src ! i) then d else d @ [i])
     in (out @ [if int i < int p - 1 \<or> 0 < nans \<or> d = [] then FNaN else src ! hd d], d, nans))"

text \<open>\<open>None\<close> is the panic of \<open>make\<close> with a negative capacity.\<close>

definition rolling :: "(f64 \<Rightarrow> f64 \<Rightarrow> bool) \<Rightarrow> f64 list \<Rightarrow> int \<Rightarrow> f64 list option" where
  "rolling below src period =
     (if period < 0 then None
      else Some (fst (foldl (rolling_step below src (nat period)) ([], [], 0) [0..<length src])))"

definition rolling_max :: "f64 list \<Rightarrow> int \<Rightarrow> f64 list option" where
  "rolling_max = rolling (\<le>)"

definition rolling_min :: "f64 list \<Rightarrow> int \<Rightarrow> f64 list option" where
  "rolling_min = rolling (\<lambda>x y. y \<le> x)"

end
