(* ===== verification/Bt_Rolling_Laws.thy ===== *)
theory Bt_Rolling_Laws
  imports Bt_Rolling
begin

text \<open>
  What the vectorised helpers compute. None of them looks ahead: the locale \<open>index_scan\<close> is the
  contract of a loop body that reads the input up to its own bar and writes one value, and its
  interpretations are the loop bodies. The rolling extrema equal a reference that rescans the
  window on every bar; the locale \<open>deque_order\<close> is what the deque needs of the comparison. The
  running sum of the simple average is exact on integer data.
\<close>

section \<open>No look-ahead\<close>

locale index_scan =
  fixes step :: "f64 list \<Rightarrow> 's \<Rightarrow> nat \<Rightarrow> 's" and out :: "'s \<Rightarrow> f64 list" and init :: 's
    and bars :: "nat \<Rightarrow> 's \<Rightarrow> bool"
  assumes init_out: "out init = []"
    and bars_init: "bars 0 init"
    and bars_step: "bars i s \<Longrightarrow> bars (Suc i) (step src s i)"
    and step_out: "\<exists>v. out (step src s i) = out s @ [v]"
    and step_prefix: "i < k \<Longrightarrow> bars i s \<Longrightarrow> step (take k src) s i = step src s i"
begin

lemma scan_bars: "bars n (foldl (step src) init [0..<n])"
  by (induction n) (auto simp: bars_init bars_step)

lemma scan_length: "length (out (foldl (step src) init [0..<n])) = n"
proof (induction n)
  case (Suc n)
  then show ?case using step_out [of src "foldl (step src) init [0..<n]" n] by auto
qed (simp add: init_out)

lemma scan_prefix:
  "n \<le> k \<Longrightarrow> foldl (step (take k src)) init [0..<n] = foldl (step src) init [0..<n]"
  by (induction n) (auto simp: step_prefix scan_bars)

lemma scan_take:
  "k \<le> n \<Longrightarrow> out (foldl (step src) init [0..<k]) = take k (out (foldl (step src) init [0..<n]))"
proof (induction n)
  case (Suc n)
  obtain v where v: "out (foldl (step src) init [0..<Suc n]) = out (foldl (step src) init [0..<n]) @ [v]"
    using step_out [of src "foldl (step src) init [0..<n]" n] by auto
  show ?case
  proof (cases "k = Suc n")
    case False
    then have "take k (out (foldl (step src) init [0..<Suc n])) = take k (out (foldl (step src) init [0..<n]))"
      using Suc.prems scan_length [of src n] by (simp only: v) simp
    then show ?thesis using Suc False by simp
  qed (use scan_length [of src "Suc n"] in simp)
qed (simp add: init_out)

lemma causal:
  "k \<le> length src \<Longrightarrow>
     out (foldl (step (take k src)) init [0..<length (take k src)])
       = take k (out (foldl (step src) init [0..<length src]))"
  using scan_prefix [of k k src] scan_take [of k "length src" src] by (simp add: min_absorb2)

end

interpretation ema: index_scan "\<lambda>src. ema_step src c" fst "([], False)" "\<lambda>_ _. True" for c
  by unfold_locales (auto simp: ema_step_def split: prod.splits)

lemma window_slide_prefix: "i < k \<Longrightarrow> window_slide (take k src) p w i = window_slide src p w i"
  by (simp add: window_slide_def Let_def)

interpretation sma: index_scan "\<lambda>src. sma_step src p" fst "([], empty_window)" "\<lambda>_ _. True" for p
  by unfold_locales (auto simp: sma_step_def Let_def window_slide_prefix split: prod.splits)

interpretation rma: index_scan "\<lambda>src. rma_step src p" fst "([], empty_window)" "\<lambda>_ _. True" for p
  by unfold_locales (auto simp: rma_step_def Let_def window_slide_prefix split: prod.splits)

text \<open>The deque holds indices of bars already seen.\<close>

definition deque_seen :: "nat \<Rightarrow> f64 list \<times> nat list \<times> int \<Rightarrow> bool" where
  "deque_seen i = (\<lambda>(_, d, _). \<forall>j \<in> set d. j < i)"

lemma pop_back_prefix:
  "\<forall>j \<in> set d. j < k \<Longrightarrow> pop_back below (take k src) v d = pop_back below src v d"
proof (induction d rule: rev_induct)
  case (snoc j d)
  then show ?case
    by (subst (1 2) pop_back.simps) simp
qed (simp add: pop_back.simps)

lemma pop_back_subset: "set (pop_back below src v d) \<subseteq> set d"
proof (induction d rule: rev_induct)
  case (snoc j d)
  then show ?case by (subst pop_back.simps) auto
qed (simp add: pop_back.simps)

interpretation extremum: index_scan "\<lambda>src. rolling_step below src p" fst "([], [], 0)" deque_seen
  for below p
proof unfold_locales
  fix i and s :: "f64 list \<times> nat list \<times> int" and src
  assume seen: "deque_seen i s"
  obtain out d nans where s: "s = (out, d, nans)" by (cases s) auto
  define e where "e = (if p \<le> i \<and> d \<noteq> [] \<and> hd d \<le> i - p then tl d else d)"
  have "set e \<subseteq> set d" by (cases d) (auto simp: e_def)
  then have f: "set (pop_back below src (src ! i) e) \<subseteq> set d"
    using pop_back_subset [of below src "src ! i" e] by blast
  have "j < Suc i" if "j \<in> set (if is_nan (src ! i) then pop_back below src (src ! i) e
      else pop_back below src (src ! i) e @ [i])" for j
  proof -
    have "j \<in> set d \<or> j = i" using that f by (auto split: if_splits)
    then show ?thesis using seen by (auto simp: deque_seen_def s)
  qed
  then show "deque_seen (Suc i) (rolling_step below src p s i)"
    unfolding s rolling_step_def prod.case Let_def e_def [symmetric] deque_seen_def by blast
next
  fix i k and s :: "f64 list \<times> nat list \<times> int" and src
  assume ik: "i < k" and seen: "deque_seen i s"
  obtain out d nans where s: "s = (out, d, nans)" by (cases s) auto
  define e where "e = (if p \<le> i \<and> d \<noteq> [] \<and> hd d \<le> i - p then tl d else d)"
  have "set e \<subseteq> set d" by (cases d) (auto simp: e_def)
  moreover have "\<forall>j \<in> set d. j < i" using seen by (simp add: deque_seen_def s)
  ultimately have e: "\<forall>j \<in> set e. j < k" using ik by (meson less_trans subsetD)
  define f where "f = pop_back below src (src ! i) e"
  have f: "\<forall>j \<in> set f. j < k" using e pop_back_subset [of below src "src ! i" e] by (auto simp: f_def)
  have pop: "pop_back below (take k src) (src ! i) e = f" using pop_back_prefix [OF e] by (simp add: f_def)
  have heads: "f \<noteq> [] \<Longrightarrow> take k src ! hd f = src ! hd f" "take k src ! hd (f @ [i]) = src ! hd (f @ [i])"
    using f ik by (cases f; simp)+
  have t: "take k src ! i = src ! i" "take k src ! (i - p) = src ! (i - p)" using ik by auto
  show "rolling_step below (take k src) p s i = rolling_step below src p s i"
    unfolding s rolling_step_def prod.case Let_def t e_def [symmetric] pop f_def [symmetric]
    using heads by auto
qed (auto simp: deque_seen_def rolling_step_def Let_def split: prod.splits)

text \<open>An average that saw no value yet has written NaN only.\<close>

lemma ema_unseeded:
  "foldl (ema_step src c) ([], False) [0..<n] = (out, False) \<Longrightarrow> out = all_nan n"
proof (induction n arbitrary: out)
  case (Suc n)
  obtain o1 s1 where f: "foldl (ema_step src c) ([], False) [0..<n] = (o1, s1)" by fastforce
  with Suc.prems have "s1 = False" "out = o1 @ [FNaN]"
    by (auto simp: ema_step_def split: if_splits)
  then show ?case using Suc.IH f by (simp add: all_nan_def replicate_append_same)
qed (simp add: all_nan_def)

lemma compute_ema_scan:
  "0 < period \<Longrightarrow> compute_ema src period
     = fst (foldl (ema_step src (FFin 2 / f64_of_int (period + 1))) ([], False) [0..<length src])"
proof -
  assume p: "0 < period"
  obtain out s where f: "foldl (ema_step src (FFin 2 / f64_of_int (period + 1))) ([], False)
      [0..<length src] = (out, s)" by fastforce
  then show ?thesis using ema_unseeded [of src _ "length src" out] p
    by (cases s) (simp_all add: compute_ema_def Let_def)
qed

section \<open>The monotonic deque\<close>

text \<open>The reference: on every bar the window is scanned from its oldest value.\<close>

definition pick :: "(f64 \<Rightarrow> f64 \<Rightarrow> bool) \<Rightarrow> f64 list \<Rightarrow> f64" where
  "pick below w = foldl (\<lambda>m v. if below m v then v else m) (hd w) (tl w)"

definition rolling_ref :: "(f64 \<Rightarrow> f64 \<Rightarrow> bool) \<Rightarrow> f64 list \<Rightarrow> nat \<Rightarrow> nat \<Rightarrow> f64" where
  "rolling_ref below src p i =
     (let w = map ((!) src) [Suc i - p..<Suc i]
      in if Suc i < p \<or> list_ex is_nan w then FNaN else pick below w)"

text \<open>The indices the deque holds after \<open>k\<close> bars: those no later value is above.\<close>

definition dominant :: "(f64 \<Rightarrow> f64 \<Rightarrow> bool) \<Rightarrow> f64 list \<Rightarrow> nat \<Rightarrow> nat \<Rightarrow> bool" where
  "dominant below src k j =
     (\<not> is_nan (src ! j) \<and> (\<forall>j'. j < j' \<and> j' < k \<longrightarrow> \<not> below (src ! j) (src ! j')))"

definition window_nans :: "f64 list \<Rightarrow> nat \<Rightarrow> nat \<Rightarrow> int" where
  "window_nans src p k = int (length (filter (\<lambda>j. is_nan (src ! j)) [k - p..<k]))"

lemma upt_window: "p \<le> k \<Longrightarrow> 1 \<le> p \<Longrightarrow> [k - p..<k] = (k - p) # [Suc k - p..<k]"
  by (simp add: upt_conv_Cons Suc_diff_le)

lemma upt_window_short: "k < p \<Longrightarrow> [k - p..<k] = [Suc k - p..<k]"
  by simp

lemma upt_window_next: "1 \<le> p \<Longrightarrow> [Suc k - p..<Suc k] = [Suc k - p..<k] @ [k]"
  by simp

lemma window_nans_step:
  assumes "1 \<le> p"
  shows "window_nans src p (Suc k) = window_nans src p k + (if is_nan (src ! k) then 1 else 0)
     - (if p \<le> k \<and> is_nan (src ! (k - p)) then 1 else 0)"
proof (cases "p \<le> k")
  case True
  then show ?thesis
    by (simp add: window_nans_def upt_window [OF True assms] upt_window_next [OF assms] del: upt_Suc)
next
  case False
  then show ?thesis
    using upt_window_next [OF assms, of k]
    by (simp add: window_nans_def upt_window_short del: upt_Suc)
qed

lemma window_nans_zero: "window_nans src p k \<le> 0 \<longleftrightarrow> (\<forall>j \<in> set [k - p..<k]. \<not> is_nan (src ! j))"
  by (auto simp: window_nans_def filter_empty_conv)

locale deque_order =
  fixes below :: "f64 \<Rightarrow> f64 \<Rightarrow> bool"
  assumes below_nan: "below x y \<Longrightarrow> \<not> is_nan x \<and> \<not> is_nan y"
    and below_trans: "below x y \<Longrightarrow> below y z \<Longrightarrow> below x z"
    and below_total: "\<not> is_nan x \<Longrightarrow> \<not> is_nan y \<Longrightarrow> below x y \<or> below y x"
begin

lemma pop_back_filter:
  assumes "\<not> is_nan v" "\<forall>j \<in> set d. \<not> is_nan (src ! j)"
    "sorted_wrt (\<lambda>j j'. \<not> below (src ! j) (src ! j')) d"
  shows "pop_back below src v d = filter (\<lambda>j. \<not> below (src ! j) v) d"
  using assms(2,3)
proof (induction d rule: rev_induct)
  case (snoc j d)
  show ?case
  proof (cases "below (src ! j) v")
    case True
    then show ?thesis using snoc assms(1)
      by (subst pop_back.simps) (simp add: sorted_wrt_append)
  next
    case False
    have "\<not> below (src ! i) v" if "i \<in> set d" for i
    proof
      assume "below (src ! i) v"
      moreover have "below (src ! j) (src ! i)"
        using snoc.prems that below_total by (auto simp: sorted_wrt_append)
      ultimately show False using False below_trans by blast
    qed
    then show ?thesis using False by (subst pop_back.simps) (auto simp: filter_id_conv)
  qed
qed (simp add: pop_back.simps)

lemma pop_back_nan: "is_nan v \<Longrightarrow> pop_back below src v d = d"
  by (simp add: pop_back.simps)

lemma dominant_Suc:
  "j < k \<Longrightarrow> dominant below src (Suc k) j \<longleftrightarrow> dominant below src k j \<and> \<not> below (src ! j) (src ! k)"
  by (auto simp: dominant_def less_Suc_eq)

lemma dominant_self: "dominant below src (Suc k) k \<longleftrightarrow> \<not> is_nan (src ! k)"
  by (auto simp: dominant_def)

lemma deque_sorted:
  "sorted_wrt (\<lambda>j j'. \<not> below (src ! j) (src ! j')) (filter (dominant below src k) [i..<k])"
proof -
  have "sorted_wrt (\<lambda>j j'. \<not> below (src ! j) (src ! j')) (filter (dominant below src k) [i..<n])"
    if "n \<le> k" for n
    using that by (induction n) (auto simp: sorted_wrt_append dominant_def)
  then show ?thesis by simp
qed

text \<open>The deque after one more value, without the eviction of the oldest index.\<close>

lemma deque_push:
  assumes "i \<le> k"
  shows "(let d = pop_back below src (src ! k) (filter (dominant below src k) [i..<k])
          in if is_nan (src ! k) then d else d @ [k])
       = filter (dominant below src (Suc k)) [i..<Suc k]"
proof (cases "is_nan (src ! k)")
  case True
  then have "\<not> below (src ! j) (src ! k)" for j using below_nan by blast
  then have "filter (dominant below src (Suc k)) [i..<k] = filter (dominant below src k) [i..<k]"
    by (intro filter_cong) (auto simp: dominant_Suc)
  then show ?thesis using True assms by (simp add: pop_back_nan dominant_self)
next
  case False
  have "pop_back below src (src ! k) (filter (dominant below src k) [i..<k])
      = filter (\<lambda>j. \<not> below (src ! j) (src ! k)) (filter (dominant below src k) [i..<k])"
    using False deque_sorted by (intro pop_back_filter) (auto simp: dominant_def)
  also have "\<dots> = filter (dominant below src (Suc k)) [i..<k]"
    unfolding filter_filter by (intro filter_cong) (auto simp: dominant_Suc)
  finally show ?thesis using False assms by (simp add: dominant_self Let_def)
qed

lemma deque_evict:
  fixes src k
  assumes "1 \<le> p"
  defines "d \<equiv> filter (dominant below src k) [k - p..<k]"
  shows "(if p \<le> k \<and> d \<noteq> [] \<and> hd d \<le> k - p then tl d else d)
     = filter (dominant below src k) [Suc k - p..<k]"
proof (cases "p \<le> k")
  case True
  let ?r = "filter (dominant below src k) [Suc k - p..<k]"
  have "k - p < j" if "j \<in> set ?r" for j using that True by auto
  then have "?r \<noteq> [] \<Longrightarrow> k - p < hd ?r" using hd_in_set by blast
  then show ?thesis using True unfolding d_def upt_window [OF True assms(1)] by auto
next
  case False
  then show ?thesis using upt_window_short [of k p] by (simp add: d_def)
qed

lemma pick_snoc:
  "w \<noteq> [] \<Longrightarrow> pick below (w @ [v]) = (if below (pick below w) v then v else pick below w)"
  by (simp add: pick_def)

lemma pick_deque:
  assumes "i < k" "\<forall>j \<in> set [i..<k]. \<not> is_nan (src ! j)"
  shows "pick below (map ((!) src) [i..<k]) = src ! hd (filter (dominant below src k) [i..<k])
     \<and> filter (dominant below src k) [i..<k] \<noteq> []"
  using assms
proof (induction k)
  case (Suc k)
  show ?case
  proof (cases "i = k")
    case True
    then show ?thesis using Suc.prems by (simp add: pick_def dominant_self)
  next
    case False
    let ?d = "filter (dominant below src k) [i..<k]"
    have ik: "i < k" and nn: "\<not> is_nan (src ! k)" using False Suc.prems by auto
    have IH: "pick below (map ((!) src) [i..<k]) = src ! hd ?d" "?d \<noteq> []"
      using Suc ik by auto
    then obtain h r where d: "?d = h # r" by (cases ?d) auto
    have "pick below (map ((!) src) [i..<Suc k])
        = (if below (src ! h) (src ! k) then src ! k else src ! h)"
      using IH d ik by (simp add: pick_snoc)
    moreover have push: "filter (dominant below src (Suc k)) [i..<Suc k]
        = filter (\<lambda>j. \<not> below (src ! j) (src ! k)) (h # r) @ [k]"
    proof -
      have "filter (dominant below src (Suc k)) [i..<k]
          = filter (\<lambda>j. \<not> below (src ! j) (src ! k)) ?d"
        unfolding filter_filter by (intro filter_cong) (auto simp: dominant_Suc)
      then show ?thesis using nn ik d by (simp add: dominant_self)
    qed
    moreover have "filter (\<lambda>j. \<not> below (src ! j) (src ! k)) (h # r) = []"
      if "below (src ! h) (src ! k)"
    proof -
      have dom: "\<forall>j \<in> set (h # r). dominant below src k j" by (simp flip: d)
      have "below (src ! j) (src ! k)" if "j \<in> set r" for j
      proof -
        have "\<not> below (src ! h) (src ! j)" using deque_sorted [of src k i] that by (simp add: d)
        moreover have "\<not> is_nan (src ! j)" "\<not> is_nan (src ! h)"
          using that dom by (auto simp: dominant_def)
        ultimately show ?thesis using below_total below_trans \<open>below (src ! h) (src ! k)\<close> by blast
      qed
      then show ?thesis using that by (simp add: filter_empty_conv)
    qed
    ultimately show ?thesis by auto
  qed
qed simp

text \<open>The state of the loop after \<open>k\<close> bars.\<close>

lemma rolling_state:
  assumes "1 \<le> p"
  shows "foldl (rolling_step below src p) ([], [], 0) [0..<k]
     = (map (rolling_ref below src p) [0..<k], filter (dominant below src k) [k - p..<k],
        window_nans src p k)"
proof (induction k)
  case (Suc k)
  define d where "d = filter (dominant below src (Suc k)) [Suc k - p..<Suc k]"
  have "Suc k - p \<le> k" using assms by simp
  note push = deque_push [OF this, of src, folded d_def]
  have nans: "(if p \<le> k \<and> is_nan (src ! (k - p))
      then (if is_nan (src ! k) then window_nans src p k + 1 else window_nans src p k) - 1
      else if is_nan (src ! k) then window_nans src p k + 1 else window_nans src p k)
      = window_nans src p (Suc k)"
    using window_nans_step [OF assms, of src k] by auto
  have step: "rolling_step below src p (out, filter (dominant below src k) [k - p..<k], window_nans src p k) k
      = (out @ [if int k < int p - 1 \<or> 0 < window_nans src p (Suc k) \<or> d = [] then FNaN else src ! hd d],
         d, window_nans src p (Suc k))" for out
    unfolding rolling_step_def prod.case Let_def nans deque_evict [OF assms] push [unfolded Let_def] ..
  have "(if int k < int p - 1 \<or> 0 < window_nans src p (Suc k) \<or> d = [] then FNaN else src ! hd d)
      = rolling_ref below src p k"
  proof (cases "Suc k < p \<or> 0 < window_nans src p (Suc k)")
    case True
    moreover have "\<exists>x \<in> set [Suc k - p..<Suc k]. is_nan (src ! x)" if "0 < window_nans src p (Suc k)"
      using that window_nans_zero [of src p "Suc k"] by (simp del: set_upt) (metis not_less)
    ultimately show ?thesis
      by (auto simp: rolling_ref_def Let_def list_ex_iff simp del: upt_Suc)
  next
    case False
    then have nn: "\<forall>j \<in> set [Suc k - p..<Suc k]. \<not> is_nan (src ! j)"
      using window_nans_zero [of src p "Suc k"] by simp
    have "Suc k - p < Suc k" using assms by simp
    from pick_deque [OF this nn] False nn show ?thesis
      by (auto simp: rolling_ref_def Let_def list_ex_iff d_def simp del: upt_Suc)
  qed
  moreover have "[0..<Suc k] = [0..<k] @ [k]" by simp
  ultimately show ?case using step
    by (simp only: Suc.IH d_def foldl_append foldl.simps map_append list.map)
qed (simp add: window_nans_def)

theorem rolling_equals_ref:
  "1 \<le> period \<Longrightarrow> rolling below src period
     = Some (map (rolling_ref below src (nat period)) [0..<length src])"
  by (simp add: rolling_def rolling_state)

end

interpretation maximum: deque_order "(\<le>)"
  by unfold_locales (auto dest: f64_le_notnan f64_le_trans, metis f64_not_less f64_less_imp_le)

interpretation minimum: deque_order "\<lambda>x y. y \<le> x"
  by unfold_locales (auto dest: f64_le_notnan f64_le_trans, metis f64_not_less f64_less_imp_le)

end
