(* ===== verification/Bt_Indicator_Lib.thy ===== *)
theory Bt_Indicator_Lib
  imports Bt_Indicators Bt_Rolling
begin

text \<open>
  The indicators of the library (\<open>indicator_trend.go\<close>, \<open>indicator_stat.go\<close>,
  \<open>indicator_oscillator.go\<close>, \<open>indicator_volatility.go\<close> of \<open>internal/backtest\<close>), except the
  Bollinger bands and the rolling quantile. A read outside a slice is a panic, \<open>None\<close>; a missing
  input is the nil slice.
\<close>

section \<open>Loops over the bars\<close>

text \<open>
  A loop that writes one value a bar: the body gets what is written so far, its local variables
  and the index.
\<close>

primrec scan :: "('a list \<Rightarrow> 's \<Rightarrow> nat \<Rightarrow> ('a \<times> 's) option) \<Rightarrow> 's \<Rightarrow> nat \<Rightarrow> ('a list \<times> 's) option" where
  "scan f s 0 = Some ([], s)"
| "scan f s (Suc n) =
     do { (out, s) \<leftarrow> scan f s n;
          (v, s) \<leftarrow> f out s n;
          Some (out @ [v], s) }"

definition each_bar :: "(nat \<Rightarrow> f64 option) \<Rightarrow> nat \<Rightarrow> f64 list option" where
  "each_bar f n = map_option fst (scan (\<lambda>_ s i. map_option (\<lambda>v. (v, s)) (f i)) () n)"

definition rd :: "f64 list \<Rightarrow> int \<Rightarrow> f64 option" where
  "rd xs i = (if 0 \<le> i \<and> i < int (length xs) then Some (xs ! nat i) else None)"

text \<open>A disjunction of NaN tests, from left to right.\<close>

fun any_nan :: "(f64 list \<times> int) list \<Rightarrow> bool option" where
  "any_nan [] = Some False"
| "any_nan ((xs, i) # r) =
     do { v \<leftarrow> rd xs i; if is_nan v then Some True else any_nan r }"

definition input :: "series_map \<Rightarrow> string \<Rightarrow> f64 list" where
  "input m name = (case m name of None \<Rightarrow> [] | Some col \<Rightarrow> col)"

text \<open>\<open>math.Max\<close>: an infinity wins over NaN.\<close>

definition math_max :: "f64 \<Rightarrow> f64 \<Rightarrow> f64" where
  "math_max x y = (if x = FInf False \<or> y = FInf False then FInf False else go_max x y)"

section \<open>Trend\<close>

definition sma_loop :: "f64 list \<Rightarrow> int \<Rightarrow> f64 list \<Rightarrow> f64 \<times> int \<Rightarrow> nat \<Rightarrow> (f64 \<times> f64 \<times> int) option" where
  "sma_loop src p out = (\<lambda>(sum, nans) i.
     do { v \<leftarrow> rd src (int i);
          let (sum, nans) = (if is_nan v then (sum, nans + 1) else (sum + v, nans));
          (sum, nans) \<leftarrow>
            (if int i < p then Some (sum, nans)
             else do { old \<leftarrow> rd src (int i - p);
                       Some (if is_nan old then (sum, nans - 1) else (sum - old, nans)) });
          Some (if int i < p - 1 \<or> 0 < nans then FNaN else sum / f64_of_int p, sum, nans) })"

definition sma_indicator :: "f64 list \<Rightarrow> int \<Rightarrow> f64 list option" where
  "sma_indicator src p = map_option fst (scan (sma_loop src p) (0, 0) (length src))"

text \<open>The inner loop of the weighted average: \<open>None\<close> inside for a NaN in the window.\<close>

definition wma_sum :: "f64 list \<Rightarrow> int \<Rightarrow> nat \<Rightarrow> f64 option option" where
  "wma_sum src p i =
     foldl (\<lambda>acc j. do { w \<leftarrow> acc;
         case w of
           None \<Rightarrow> Some None
         | Some w \<Rightarrow> do { v \<leftarrow> rd src (int i - p + 1 + int j);
                          Some (if is_nan v then None else Some (w + f64_of_int (int j + 1) * v)) } })
       (Some (Some 0)) [0..<nat p]"

definition wma_indicator :: "f64 list \<Rightarrow> int \<Rightarrow> f64 list option" where
  "wma_indicator src p =
     (if p \<le> 0 then Some (all_nan (length src))
      else each_bar (\<lambda>i. if int i < p - 1 then Some FNaN
             else do { w \<leftarrow> wma_sum src p i;
                       Some (case w of None \<Rightarrow> FNaN
                             | Some w \<Rightarrow> w / (f64_of_int (p * (p + 1)) / FFin 2)) }) (length src))"

record vwma_state =
  vs_pv :: f64
  vs_vol :: f64
  vs_nans :: int
  vs_count :: int

definition vwma_loop ::
  "f64 list \<Rightarrow> f64 list \<Rightarrow> int \<Rightarrow> f64 list \<Rightarrow> vwma_state \<Rightarrow> nat \<Rightarrow> (f64 \<times> vwma_state) option" where
  "vwma_loop price vol p out s i =
     do { x \<leftarrow> rd price (int i);
          v \<leftarrow> rd vol (int i);
          let s = (if is_nan x \<or> is_nan v then s\<lparr>vs_nans := vs_nans s + 1\<rparr>
                   else s\<lparr>vs_pv := vs_pv s + x * v, vs_vol := vs_vol s + v\<rparr>);
          let s = s\<lparr>vs_count := vs_count s + 1\<rparr>;
          s \<leftarrow> (if vs_count s \<le> p then Some s
               else do { ox \<leftarrow> rd price (int i - p);
                         ov \<leftarrow> rd vol (int i - p);
                         Some ((if is_nan ox \<or> is_nan ov then s\<lparr>vs_nans := vs_nans s - 1\<rparr>
                                else s\<lparr>vs_pv := vs_pv s - ox * ov, vs_vol := vs_vol s - ov\<rparr>)
                               \<lparr>vs_count := vs_count s - 1\<rparr>) });
          Some (if vs_count s < p \<or> 0 < vs_nans s \<or> feq (vs_vol s) 0 then FNaN
                else vs_pv s / vs_vol s, s) }"

definition vwma_indicator :: "f64 list \<Rightarrow> f64 list \<Rightarrow> int \<Rightarrow> f64 list option" where
  "vwma_indicator price vol p =
     (if p \<le> 0 then Some (all_nan (length price))
      else map_option fst (scan (vwma_loop price vol p)
             \<lparr>vs_pv = 0, vs_vol = 0, vs_nans = 0, vs_count = 0\<rparr> (length price)))"

text \<open>The difference of two series, NaN where one of them is.\<close>

definition difference :: "f64 list \<Rightarrow> f64 list \<Rightarrow> nat \<Rightarrow> f64 list option" where
  "difference xs ys n =
     each_bar (\<lambda>i. do { b \<leftarrow> any_nan [(xs, int i), (ys, int i)];
                        if b then Some FNaN
                        else do { x \<leftarrow> rd xs (int i); y \<leftarrow> rd ys (int i); Some (x - y) } }) n"

definition macd_indicator :: "string \<Rightarrow> f64 list \<Rightarrow> int \<Rightarrow> int \<Rightarrow> int \<Rightarrow> (string \<times> f64 list) list option" where
  "macd_indicator n src fast slow sig =
     do { line \<leftarrow> difference (compute_ema src fast) (compute_ema src slow) (length src);
          let signal = compute_ema line sig;
          hist \<leftarrow> difference line signal (length src);
          Some [(n, line), (n @ ''_signal'', signal), (n @ ''_hist'', hist)] }"

text \<open>\<open>out[0] = 0\<close> panics on an empty series.\<close>

definition cross_at :: "f64 list \<Rightarrow> f64 list \<Rightarrow> bool \<Rightarrow> nat \<Rightarrow> f64 option" where
  "cross_at a b upward i =
     (if i = 0 then Some 0
      else do { bad \<leftarrow> any_nan [(a, int i), (b, int i), (a, int i - 1), (b, int i - 1)];
                if bad then Some 0
                else do { x \<leftarrow> rd a (int i); y \<leftarrow> rd b (int i);
                          px \<leftarrow> rd a (int i - 1); py \<leftarrow> rd b (int i - 1);
                          Some (if upward then (if px \<le> py \<and> y < x then 1 else 0)
                                else (if py \<le> px \<and> x < y then 1 else 0)) } })"

definition cross_indicator :: "f64 list \<Rightarrow> f64 list \<Rightarrow> bool \<Rightarrow> f64 list option" where
  "cross_indicator a b upward = (if a = [] then None else each_bar (cross_at a b upward) (length a))"

section \<open>Thresholds\<close>

definition threshold_indicator :: "f64 list \<Rightarrow> f64 \<Rightarrow> bool \<Rightarrow> f64 list" where
  "threshold_indicator src t upward =
     map (\<lambda>v. if is_nan v then 0
              else if upward then (if t < v then 1 else 0) else (if v < t then 1 else 0)) src"

section \<open>Oscillators\<close>

text \<open>The seed of the relative strength index: gain, loss and the number of valid changes.\<close>

definition rsi_seed :: "f64 list \<Rightarrow> nat \<Rightarrow> (f64 \<times> f64 \<times> int) option" where
  "rsi_seed src p =
     foldl (\<lambda>acc i. do { (gain, loss, n) \<leftarrow> acc;
         bad \<leftarrow> any_nan [(src, int i), (src, int i - 1)];
         if bad then Some (gain, loss, n)
         else do { x \<leftarrow> rd src (int i); y \<leftarrow> rd src (int i - 1);
                   let change = x - y;
                   Some (if 0 < change then (gain + change, loss, n + 1)
                         else (gain, loss - change, n + 1)) } })
       (Some (0, 0, 0)) [1..<Suc p]"

definition rsi_value :: "f64 \<Rightarrow> f64 \<Rightarrow> f64" where
  "rsi_value gain loss =
     (if feq loss 0 then FFin 100 else FFin 100 - FFin 100 / (1 + gain / loss))"

definition rsi_loop ::
  "f64 list \<Rightarrow> int \<Rightarrow> f64 \<times> f64 \<Rightarrow> f64 list \<Rightarrow> f64 \<times> f64 \<Rightarrow> nat \<Rightarrow> (f64 \<times> f64 \<times> f64) option" where
  "rsi_loop src p seed out = (\<lambda>(gain, loss) i.
     if int i < p then Some (FNaN, seed)
     else if int i = p then Some (rsi_value (fst seed) (snd seed), seed)
     else do { bad \<leftarrow> any_nan [(src, int i), (src, int i - 1)];
               if bad then do { v \<leftarrow> rd out (int i - 1); Some (v, gain, loss) }
               else do { x \<leftarrow> rd src (int i); y \<leftarrow> rd src (int i - 1);
                         let change = x - y;
                         let (g, l) = (if 0 < change then (change, 0) else (0, - change));
                         let gain = (gain * f64_of_int (p - 1) + g) / f64_of_int p;
                         let loss = (loss * f64_of_int (p - 1) + l) / f64_of_int p;
                         Some (rsi_value gain loss, gain, loss) } })"

definition rsi_indicator :: "f64 list \<Rightarrow> int \<Rightarrow> f64 list option" where
  "rsi_indicator src p =
     (if int (length src) \<le> p then Some (all_nan (length src))
      else if p < 0 then None
      else do { (gain, loss, n) \<leftarrow> rsi_seed src (nat p);
                if n < p then Some (all_nan (length src))
                else do { let seed = (gain / f64_of_int p, loss / f64_of_int p);
                          map_option fst (scan (rsi_loop src p seed) seed (length src)) } })"

definition stochastic_raw :: "f64 list \<Rightarrow> f64 list \<Rightarrow> f64 list \<Rightarrow> nat \<Rightarrow> f64 option" where
  "stochastic_raw hh ll cls i =
     do { bad \<leftarrow> any_nan [(hh, int i), (ll, int i), (cls, int i)];
          if bad then Some FNaN
          else do { h \<leftarrow> rd hh (int i); l \<leftarrow> rd ll (int i); c \<leftarrow> rd cls (int i);
                    let rng = h - l;
                    Some (if feq rng 0 then 0 else FFin 100 * (c - l) / rng) } }"

definition stochastic_indicator ::
  "string \<Rightarrow> f64 list \<Rightarrow> f64 list \<Rightarrow> f64 list \<Rightarrow> int \<Rightarrow> int \<Rightarrow> int \<Rightarrow> (string \<times> f64 list) list option" where
  "stochastic_indicator n high low cls kp ks dp =
     (if kp \<le> 0 \<or> ks \<le> 0 \<or> dp \<le> 0
      then Some [(n, all_nan (length high)), (n @ ''_d'', all_nan (length high)),
                 (n @ ''_raw'', all_nan (length high))]
      else do { hh \<leftarrow> rolling_max high kp;
                ll \<leftarrow> rolling_min low kp;
                raw \<leftarrow> each_bar (stochastic_raw hh ll cls) (length high);
                let k = compute_sma raw ks;
                Some [(n, k), (n @ ''_d'', compute_sma k dp), (n @ ''_raw'', raw)] })"

definition typical_price :: "f64 list \<Rightarrow> f64 list \<Rightarrow> f64 list \<Rightarrow> nat \<Rightarrow> f64 option" where
  "typical_price high low cls i =
     do { bad \<leftarrow> any_nan [(high, int i), (low, int i), (cls, int i)];
          if bad then Some FNaN
          else do { h \<leftarrow> rd high (int i); l \<leftarrow> rd low (int i); c \<leftarrow> rd cls (int i);
                    Some ((h + l + c) / FFin 3) } }"

text \<open>The mean deviation of a window from the mean \<open>m\<close>; \<open>None\<close> inside for a NaN.\<close>

definition mean_deviation :: "f64 list \<Rightarrow> int \<Rightarrow> f64 \<Rightarrow> nat \<Rightarrow> f64 option option" where
  "mean_deviation tp p m i =
     foldl (\<lambda>acc j. do { d \<leftarrow> acc;
         case d of
           None \<Rightarrow> Some None
         | Some d \<Rightarrow> do { v \<leftarrow> rd tp (int i - p + 1 + int j);
                          Some (if is_nan v then None else Some (d + math_abs (v - m))) } })
       (Some (Some 0)) [0..<nat p]"

definition cci_at :: "f64 list \<Rightarrow> f64 list \<Rightarrow> int \<Rightarrow> nat \<Rightarrow> f64 option" where
  "cci_at tp avg p i =
     (if int i < p - 1 then Some FNaN
      else do { bad \<leftarrow> any_nan [(tp, int i), (avg, int i)];
                if bad then Some FNaN
                else do { t \<leftarrow> rd tp (int i); m \<leftarrow> rd avg (int i);
                          d \<leftarrow> mean_deviation tp p m i;
                          Some (case d of
                                  None \<Rightarrow> FNaN
                                | Some d \<Rightarrow> (let d = d / f64_of_int p
                                    in if feq d 0 then 0 else (t - m) / (rnd (15 / 1000) * d))) } })"

definition cci_indicator :: "f64 list \<Rightarrow> f64 list \<Rightarrow> f64 list \<Rightarrow> int \<Rightarrow> f64 list option" where
  "cci_indicator high low cls p =
     (if p \<le> 0 then Some (all_nan (length high))
      else do { tp \<leftarrow> each_bar (typical_price high low cls) (length high);
                each_bar (cci_at tp (compute_sma tp p) p) (length high) })"

definition obv_loop :: "f64 list \<Rightarrow> f64 list \<Rightarrow> f64 list \<Rightarrow> unit \<Rightarrow> nat \<Rightarrow> (f64 \<times> unit) option" where
  "obv_loop cls vol out s i =
     (if i = 0 then do { v \<leftarrow> rd vol 0; Some (if is_nan v then FNaN else v, ()) }
      else do { bad \<leftarrow> any_nan [(cls, int i), (cls, int i - 1), (vol, int i), (out, int i - 1)];
                if bad then Some (FNaN, ())
                else do { c \<leftarrow> rd cls (int i); pc \<leftarrow> rd cls (int i - 1);
                          v \<leftarrow> rd vol (int i); prev \<leftarrow> rd out (int i - 1);
                          Some (if pc < c then prev + v else if c < pc then prev - v else prev, ()) } })"

definition obv_indicator :: "f64 list \<Rightarrow> f64 list \<Rightarrow> f64 list option" where
  "obv_indicator cls vol = map_option fst (scan (obv_loop cls vol) () (length cls))"

section \<open>Volatility\<close>

definition true_range :: "f64 \<Rightarrow> f64 \<Rightarrow> f64 \<Rightarrow> f64" where
  "true_range h l pc = math_max (h - l) (math_max (math_abs (h - pc)) (math_abs (l - pc)))"

definition atr_range :: "f64 list \<Rightarrow> f64 list \<Rightarrow> f64 list \<Rightarrow> nat \<Rightarrow> f64 option" where
  "atr_range high low cls i =
     do { bad \<leftarrow> any_nan [(high, int i), (low, int i), (cls, int i)];
          if bad then Some FNaN
          else do { h \<leftarrow> rd high (int i); l \<leftarrow> rd low (int i);
                    if i = 0 then Some (h - l)
                    else do { pc \<leftarrow> rd cls (int i - 1);
                              Some (if is_nan pc then h - l else true_range h l pc) } } }"

definition atr_indicator :: "f64 list \<Rightarrow> f64 list \<Rightarrow> f64 list \<Rightarrow> int \<Rightarrow> f64 list option" where
  "atr_indicator high low cls p =
     map_option (\<lambda>tr. compute_rma tr p) (each_bar (atr_range high low cls) (length high))"

definition donchian_mid :: "f64 list \<Rightarrow> f64 list \<Rightarrow> nat \<Rightarrow> f64 option" where
  "donchian_mid up lo i =
     do { bad \<leftarrow> any_nan [(up, int i), (lo, int i)];
          if bad then Some FNaN
          else do { u \<leftarrow> rd up (int i); l \<leftarrow> rd lo (int i); Some ((u + l) / FFin 2) } }"

definition donchian_indicator ::
  "string \<Rightarrow> f64 list \<Rightarrow> f64 list \<Rightarrow> int \<Rightarrow> (string \<times> f64 list) list option" where
  "donchian_indicator n high low p =
     do { up \<leftarrow> rolling_max high p;
          lo \<leftarrow> rolling_min low p;
          mid \<leftarrow> each_bar (donchian_mid up lo) (length up);
          Some [(n, mid), (n @ ''_upper'', up), (n @ ''_lower'', lo)] }"

text \<open>True range and directional movements of a bar.\<close>

definition adx_bar :: "f64 list \<Rightarrow> f64 list \<Rightarrow> f64 list \<Rightarrow> nat \<Rightarrow> (f64 \<times> f64 \<times> f64) option" where
  "adx_bar high low cls i =
     do { bad \<leftarrow> any_nan [(high, int i), (low, int i), (cls, int i)];
          if bad then Some (FNaN, 0, 0)
          else do { h \<leftarrow> rd high (int i); l \<leftarrow> rd low (int i);
                    first \<leftarrow> (if i = 0 then Some True
                             else any_nan [(high, int i - 1), (low, int i - 1), (cls, int i - 1)]);
                    if first then Some (h - l, 0, 0)
                    else do { ph \<leftarrow> rd high (int i - 1); pl \<leftarrow> rd low (int i - 1);
                              pc \<leftarrow> rd cls (int i - 1);
                              let up = h - ph; let down = pl - l;
                              Some (true_range h l pc,
                                    if down < up \<and> 0 < up then up else 0,
                                    if up < down \<and> 0 < down then down else 0) } } }"

definition adx_index :: "f64 list \<Rightarrow> f64 list \<Rightarrow> f64 list \<Rightarrow> nat \<Rightarrow> (f64 \<times> f64 \<times> f64) option" where
  "adx_index atr pls mns i =
     do { a \<leftarrow> rd atr (int i);
          if is_nan a \<or> feq a 0 then Some (FNaN, FNaN, FNaN)
          else do { p \<leftarrow> rd pls (int i); m \<leftarrow> rd mns (int i);
                    let pdi = FFin 100 * p / a; let mdi = FFin 100 * m / a; let sum = pdi + mdi;
                    Some (if feq sum 0 then 0 else FFin 100 * math_abs (pdi - mdi) / sum, pdi, mdi) } }"

definition adx_indicator ::
  "string \<Rightarrow> f64 list \<Rightarrow> f64 list \<Rightarrow> f64 list \<Rightarrow> int \<Rightarrow> (string \<times> f64 list) list option" where
  "adx_indicator n high low cls p =
     (if p \<le> 0 then Some [(n, all_nan (length high)), (n @ ''_plus_di'', all_nan (length high)),
                          (n @ ''_minus_di'', all_nan (length high))]
      else do { (bars, _) \<leftarrow> scan (\<lambda>_ s i. map_option (\<lambda>v. (v, s)) (adx_bar high low cls i)) () (length high);
                let atr = compute_rma (map fst bars) p;
                let pls = compute_rma (map (fst \<circ> snd) bars) p;
                let mns = compute_rma (map (snd \<circ> snd) bars) p;
                (idx, _) \<leftarrow> scan (\<lambda>_ s i. map_option (\<lambda>v. (v, s)) (adx_index atr pls mns i)) () (length high);
                Some [(n, compute_rma (map fst idx) p), (n @ ''_plus_di'', map (fst \<circ> snd) idx),
                      (n @ ''_minus_di'', map (snd \<circ> snd) idx)] })"

section \<open>The library\<close>

datatype indicator_spec =
  SMA string int | EMA string int | WMA string int | VWMA string string int | RMA string int
| MACD string int int int | Cross string string bool | Threshold string f64 bool
| Highest string int | Lowest string int | RSI string int
| Stochastic string string string int int int | CCI string string string int | ADX int
| OBV string string | ATR int | Donchian string string int

fun spec_deps :: "indicator_spec \<Rightarrow> string list" where
  "spec_deps (SMA s p) = [s]"
| "spec_deps (EMA s p) = [s]"
| "spec_deps (WMA s p) = [s]"
| "spec_deps (VWMA s v p) = [s, v]"
| "spec_deps (RMA s p) = [s]"
| "spec_deps (MACD s fast slow sig) = [s]"
| "spec_deps (Cross a b upward) = [a, b]"
| "spec_deps (Threshold s t upward) = [s]"
| "spec_deps (Highest s p) = [s]"
| "spec_deps (Lowest s p) = [s]"
| "spec_deps (RSI s p) = [s]"
| "spec_deps (Stochastic h l c kp ks dp) = [h, l, c]"
| "spec_deps (CCI h l c p) = [h, l, c]"
| "spec_deps (ADX p) = [''high'', ''low'', ''close'']"
| "spec_deps (OBV c v) = [c, v]"
| "spec_deps (ATR p) = [''high'', ''low'', ''close'']"
| "spec_deps (Donchian h l p) = [h, l]"

fun spec_suffixes :: "indicator_spec \<Rightarrow> string list option" where
  "spec_suffixes (MACD s fast slow sig) = Some [[], ''_signal'', ''_hist'']"
| "spec_suffixes (Stochastic h l c kp ks dp) = Some [[], ''_d'', ''_raw'']"
| "spec_suffixes (ADX p) = Some [[], ''_plus_di'', ''_minus_di'']"
| "spec_suffixes (Donchian h l p) = Some [[], ''_upper'', ''_lower'']"
| "spec_suffixes _ = None"

fun spec_compute :: "indicator_spec \<Rightarrow> string \<Rightarrow> series_map \<Rightarrow> computed option" where
  "spec_compute (SMA s p) n m = map_option Single (sma_indicator (input m s) p)"
| "spec_compute (EMA s p) n m = Some (Single (compute_ema (input m s) p))"
| "spec_compute (WMA s p) n m = map_option Single (wma_indicator (input m s) p)"
| "spec_compute (VWMA s v p) n m = map_option Single (vwma_indicator (input m s) (input m v) p)"
| "spec_compute (RMA s p) n m = Some (Single (compute_rma (input m s) p))"
| "spec_compute (MACD s fast slow sig) n m = map_option Multi (macd_indicator n (input m s) fast slow sig)"
| "spec_compute (Cross a b upward) n m = map_option Single (cross_indicator (input m a) (input m b) upward)"
| "spec_compute (Threshold s t upward) n m = Some (Single (threshold_indicator (input m s) t upward))"
| "spec_compute (Highest s p) n m = map_option Single (rolling_max (input m s) p)"
| "spec_compute (Lowest s p) n m = map_option Single (rolling_min (input m s) p)"
| "spec_compute (RSI s p) n m = map_option Single (rsi_indicator (input m s) p)"
| "spec_compute (Stochastic h l c kp ks dp) n m =
     map_option Multi (stochastic_indicator n (input m h) (input m l) (input m c) kp ks dp)"
| "spec_compute (CCI h l c p) n m =
     map_option Single (cci_indicator (input m h) (input m l) (input m c) p)"
| "spec_compute (ADX p) n m =
     map_option Multi (adx_indicator n (input m ''high'') (input m ''low'') (input m ''close'') p)"
| "spec_compute (OBV c v) n m = map_option Single (obv_indicator (input m c) (input m v))"
| "spec_compute (ATR p) n m =
     map_option Single (atr_indicator (input m ''high'') (input m ''low'') (input m ''close'') p)"
| "spec_compute (Donchian h l p) n m =
     map_option Multi (donchian_indicator n (input m h) (input m l) p)"

definition indicator_of :: "indicator_spec \<Rightarrow> indicator" where
  "indicator_of sp =
     \<lparr>in_deps = spec_deps sp, in_optional = [],
      in_outputs = map_option (\<lambda>sfx n. map (\<lambda>x. n @ x) sfx) (spec_suffixes sp),
      in_compute = spec_compute sp\<rparr>"

end
