(* ===== verification/Bt_Indicators_Laws.thy ===== *)
theory Bt_Indicators_Laws
  imports Bt_Indicators
begin

text \<open>
  The laws of the dependency resolution. The degree of an indicator counts the edges from those
  not yet computed; a level is the indicators of degree zero; releasing a level takes away exactly
  its edges.
\<close>

section \<open>The graph\<close>

abbreviation all_deps :: "indicator \<Rightarrow> string list" where
  "all_deps ind \<equiv> in_deps ind @ in_optional ind"

lemma is_registered_iff: "is_registered reg n \<longleftrightarrow> n \<in> fst ` set reg"
  by (auto simp: is_registered_def map_of_eq_None_iff)

lemma add_edge_simps [simp]:
  "dg_degree (add_edge n d g) m = dg_degree g m + (if m = n then 1 else 0)"
  "count_list (dg_dependents (add_edge n d g) x) m
     = count_list (dg_dependents g x) m + (if x = d \<and> m = n then 1 else 0)"
  by (auto simp: add_edge_def)

lemma add_optional_simps [simp]:
  "dg_degree (add_optional reg n ds g) m
     = dg_degree g m + (if m = n then int (length (filter (is_registered reg) ds)) else 0)"
  "count_list (dg_dependents (add_optional reg n ds g) x) m
     = count_list (dg_dependents g x) m + (if is_registered reg x \<and> m = n then count_list ds x else 0)"
  by (induction ds rule: rev_induct) (auto simp: add_optional_def)

lemma add_optional_append:
  "add_optional reg n (ds @ es) g = add_optional reg n es (add_optional reg n ds g)"
  by (simp add: add_optional_def)

lemma add_deps_Inr:
  "add_deps reg data n ds g = Inr g' \<Longrightarrow>
     g' = add_optional reg n ds g \<and> (\<forall>d \<in> set ds. is_registered reg d \<or> data d \<noteq> None)"
  by (induction ds arbitrary: g) (auto simp: add_optional_def split: if_splits)

lemma build_graph_Inr:
  "build_graph reg data r g = Inr g' \<Longrightarrow> distinct (map fst r) \<Longrightarrow>
     dg_degree g' m = dg_degree g m
       + (case map_of r m of None \<Rightarrow> 0 | Some ind \<Rightarrow> int (length (filter (is_registered reg) (all_deps ind))))
     \<and> count_list (dg_dependents g' x) m = count_list (dg_dependents g x) m
       + (case map_of r m of None \<Rightarrow> 0
          | Some ind \<Rightarrow> if is_registered reg x then count_list (all_deps ind) x else 0)
     \<and> (\<forall>(n, ind) \<in> set r. \<forall>d \<in> set (in_deps ind). is_registered reg d \<or> data d \<noteq> None)"
proof (induction r arbitrary: g)
  case (Cons a r)
  obtain n ind where a: "a = (n, ind)" by (cases a)
  from Cons.prems(1) obtain g1 where
    d: "add_deps reg data n (in_deps ind) g = Inr g1"
    and b: "build_graph reg data r (add_optional reg n (in_optional ind) g1) = Inr g'"
    by (auto simp: a split: sum.splits)
  have g1: "add_optional reg n (in_optional ind) g1 = add_optional reg n (all_deps ind) g"
    "\<forall>d \<in> set (in_deps ind). is_registered reg d \<or> data d \<noteq> None"
    using add_deps_Inr [OF d] by (auto simp: add_optional_append)
  have "map_of r n = None" using Cons.prems(2) by (simp add: a map_of_eq_None_iff)
  then show ?case using Cons.IH [OF b [unfolded g1]] Cons.prems(2) g1(2)
    by (auto simp: a)
qed simp

definition edges :: "registered \<Rightarrow> string \<Rightarrow> string \<Rightarrow> nat" where
  "edges reg m n = (case map_of reg n of None \<Rightarrow> 0 | Some ind \<Rightarrow>
     if is_registered reg m then count_list (all_deps ind) m else 0)"

lemma length_filter_count:
  "finite A \<Longrightarrow> length (filter (\<lambda>x. x \<in> A) xs) = (\<Sum>a\<in>A. count_list xs a)"
proof (induction xs)
  case (Cons x xs)
  have "count_list (x # xs) a = count_list xs a + (if a = x then 1 else 0)" for a by simp
  then show ?case using Cons by (simp add: sum.distrib del: count_list.simps)
qed simp

lemma built_graph:
  assumes "build_graph reg data reg empty_graph = Inr g" "distinct (map fst reg)"
  shows "dg_degree g n = (\<Sum>m\<in>fst ` set reg. int (edges reg m n))"
    and "count_list (dg_dependents g m) n = edges reg m n"
    and "(k, ind) \<in> set reg \<Longrightarrow> d \<in> set (in_deps ind) \<Longrightarrow> is_registered reg d \<or> data d \<noteq> None"
proof -
  note b = build_graph_Inr [OF assms, where m = n]
  have "int (length (filter (is_registered reg) xs)) = (\<Sum>m\<in>fst ` set reg. int (count_list xs m))" for xs
    by (simp add: is_registered_iff [abs_def] length_filter_count)
  moreover have "edges reg m n = (case map_of reg n of None \<Rightarrow> 0 | Some ind \<Rightarrow> count_list (all_deps ind) m)"
    if "m \<in> fst ` set reg" for m
    using that by (simp add: edges_def is_registered_iff split: option.split)
  ultimately show "dg_degree g n = (\<Sum>m\<in>fst ` set reg. int (edges reg m n))"
    using b by (simp add: empty_graph_def sum.distrib split: option.splits)
  show "count_list (dg_dependents g m) n = edges reg m n"
    using b [where x = m] by (simp add: empty_graph_def edges_def split: option.splits)
  show "(k, ind) \<in> set reg \<Longrightarrow> d \<in> set (in_deps ind) \<Longrightarrow> is_registered reg d \<or> data d \<noteq> None"
    using b by blast
qed

section \<open>Releasing a level\<close>

lemma release_list:
  "dg_degree (fst (foldl (\<lambda>gq d. release d gq) (g, []) ds)) n = dg_degree g n - int (count_list ds n)
   \<and> dg_dependents (fst (foldl (\<lambda>gq d. release d gq) (g, []) ds)) = dg_dependents g
   \<and> distinct (snd (foldl (\<lambda>gq d. release d gq) (g, []) ds))
   \<and> set (snd (foldl (\<lambda>gq d. release d gq) (g, []) ds))
      = {n. 0 < dg_degree g n \<and> dg_degree g n \<le> int (count_list ds n)}"
proof (induction ds arbitrary: n rule: rev_induct)
  case (snoc d ds)
  obtain g1 q where r: "foldl (\<lambda>gq d. release d gq) (g, []) ds = (g1, q)" by fastforce
  have deg: "dg_degree g1 m = dg_degree g m - int (count_list ds m)" for m using snoc [of m] by (simp add: r)
  have q: "distinct q" "set q = {n. 0 < dg_degree g n \<and> dg_degree g n \<le> int (count_list ds n)}"
    "dg_dependents g1 = dg_dependents g"
    using snoc by (simp_all add: r)
  define k where "k = dg_degree g1 d - 1"
  have step: "foldl (\<lambda>gq d. release d gq) (g, []) (ds @ [d])
      = (g1\<lparr>dg_degree := (dg_degree g1)(d := k)\<rparr>, if k = 0 then q @ [d] else q)"
    by (simp only: foldl_append foldl.simps r) (simp add: release_def k_def Let_def)
  have c: "count_list (ds @ [d]) m = count_list ds m + (if m = d then 1 else 0)" for m by simp
  have new: "k = 0 \<Longrightarrow> d \<notin> set q" by (simp add: q k_def deg)
  have "set (if k = 0 then q @ [d] else q)
      = {n. 0 < dg_degree g n \<and> dg_degree g n \<le> int (count_list (ds @ [d]) n)}"
  proof (rule set_eqI)
    fix n
    have "n \<in> set (if k = 0 then q @ [d] else q) \<longleftrightarrow> n \<in> set q \<or> (k = 0 \<and> n = d)" by auto
    also have "\<dots> \<longleftrightarrow> 0 < dg_degree g n \<and> dg_degree g n \<le> int (count_list (ds @ [d]) n)"
      unfolding c q(2) mem_Collect_eq k_def deg by (cases "n = d") (simp_all, arith)
    finally show "n \<in> set (if k = 0 then q @ [d] else q) \<longleftrightarrow>
        n \<in> {n. 0 < dg_degree g n \<and> dg_degree g n \<le> int (count_list (ds @ [d]) n)}" by simp
  qed
  moreover have "dg_degree g n - int (count_list (ds @ [d]) n) = ((dg_degree g1)(d := k)) n"
    unfolding c by (simp add: k_def deg)
  ultimately show ?case unfolding step using q new by simp
qed simp

lemma foldl_foldl_concat: "foldl (\<lambda>a n. foldl f a (h n)) a ns = foldl f a (concat (map h ns))"
  by (induction ns arbitrary: a) auto

lemma count_concat: "count_list (concat (map h ns)) x = (\<Sum>n\<leftarrow>ns. count_list (h n) x)"
  by (induction ns) auto

lemma release_level_laws:
  assumes "release_level level g = (g', q)" "distinct level"
    and "\<And>m n. count_list (dg_dependents g m) n = edges reg m n"
  shows "dg_degree g' n = dg_degree g n - (\<Sum>m\<in>set level. int (edges reg m n))"
    and "dg_dependents g' = dg_dependents g" and "distinct q"
    and "set q = {n. 0 < dg_degree g n \<and> dg_degree g n \<le> (\<Sum>m\<in>set level. int (edges reg m n))}"
proof -
  have r: "foldl (\<lambda>gq d. release d gq) (g, []) (concat (map (dg_dependents g) level)) = (g', q)"
    using assms(1) by (simp add: release_level_def foldl_foldl_concat)
  have c: "int (count_list (concat (map (dg_dependents g) level)) n) = (\<Sum>m\<in>set level. int (edges reg m n))" for n
    using assms(2) by (simp add: count_concat assms(3) sum_list_distinct_conv_sum_set)
  show "dg_degree g' n = dg_degree g n - (\<Sum>m\<in>set level. int (edges reg m n))"
    "dg_dependents g' = dg_dependents g" "distinct q"
    "set q = {n. 0 < dg_degree g n \<and> dg_degree g n \<le> (\<Sum>m\<in>set level. int (edges reg m n))}"
    using release_list [of g "concat (map (dg_dependents g) level)"] by (simp_all add: r c)
qed

section \<open>The invariant of the levels\<close>

abbreviation reg_names :: "registered \<Rightarrow> string set" where
  "reg_names reg \<equiv> fst ` set reg"

definition waiting_degree :: "registered \<Rightarrow> string set \<Rightarrow> string \<Rightarrow> int" where
  "waiting_degree reg D n = (\<Sum>m\<in>reg_names reg - D. int (edges reg m n))"

definition level_inv :: "registered \<Rightarrow> dep_graph \<Rightarrow> string set \<Rightarrow> string list \<Rightarrow> bool" where
  "level_inv reg g D q \<longleftrightarrow>
     D \<subseteq> reg_names reg \<and> distinct q
     \<and> set q = {n \<in> reg_names reg - D. waiting_degree reg D n = 0}
     \<and> (\<forall>m n. count_list (dg_dependents g m) n = edges reg m n)
     \<and> (\<forall>n. dg_degree g n = waiting_degree reg D n)
     \<and> (\<forall>n \<in> D. waiting_degree reg D n = 0)"

lemma edges_unregistered: "n \<notin> reg_names reg \<Longrightarrow> edges reg m n = 0"
  by (simp add: edges_def map_of_eq_None_iff [THEN iffD2])

lemma waiting_degree_nonneg: "0 \<le> waiting_degree reg D n"
  by (simp add: waiting_degree_def sum_nonneg)

lemma waiting_degree_split:
  assumes "L \<subseteq> reg_names reg - D"
  shows "waiting_degree reg D n = (\<Sum>m\<in>L. int (edges reg m n)) + waiting_degree reg (D \<union> L) n"
proof -
  have "reg_names reg - D - L = reg_names reg - (D \<union> L)" by auto
  then show ?thesis
    using sum.subset_diff [OF assms, of "\<lambda>m. int (edges reg m n)"] by (simp add: waiting_degree_def)
qed

lemma waiting_degree_zero:
  "waiting_degree reg D n = 0 \<longleftrightarrow> (\<forall>m \<in> reg_names reg - D. edges reg m n = 0)"
  by (simp add: waiting_degree_def sum_nonneg_eq_0_iff)

lemma level_inv_start:
  assumes "build_graph reg data reg empty_graph = Inr g" "distinct (map fst reg)"
  shows "level_inv reg g {} (map fst (filter (\<lambda>r. dg_degree g (fst r) = 0) reg))"
  using built_graph(1,2) [OF assms] assms(2)
  by (auto simp: level_inv_def waiting_degree_def distinct_map inj_on_def)

lemma level_inv_step:
  assumes "level_inv reg g D q" "release_level (sort q) g = (g', q')"
  shows "level_inv reg g' (D \<union> set q) q'"
proof -
  note i = assms(1) [unfolded level_inv_def]
  have d: "distinct (sort q)" using i by simp
  have e: "\<And>m n. count_list (dg_dependents g m) n = edges reg m n" using i by blast
  note r = release_level_laws [OF assms(2) d e, simplified]
  have sub: "set q \<subseteq> reg_names reg - D" using i by auto
  note sp = waiting_degree_split [OF sub]
  have deg: "dg_degree g' n = waiting_degree reg (D \<union> set q) n" for n
    using r(1) [of n] i sp [of n] by simp
  have q': "set q' = {n. 0 < waiting_degree reg D n \<and> waiting_degree reg (D \<union> set q) n = 0}"
  proof -
    have "dg_degree g n = waiting_degree reg D n" for n using i by blast
    then show ?thesis unfolding r(4) by (simp add: sp waiting_degree_nonneg order_antisym_conv)
  qed
  have mono: "waiting_degree reg D n = 0 \<Longrightarrow> waiting_degree reg (D \<union> set q) n = 0" for n
    by (simp add: waiting_degree_zero)
  have "0 < waiting_degree reg D n \<Longrightarrow> n \<in> reg_names reg" for n
    using edges_unregistered [of n reg] by (fastforce simp: waiting_degree_def)
  then have "set q' = {n \<in> reg_names reg - (D \<union> set q). waiting_degree reg (D \<union> set q) n = 0}"
    using q' i waiting_degree_nonneg [of reg D] by (auto simp: less_le)
  then show ?thesis unfolding level_inv_def using i r deg mono sub by auto
qed

end
