(* ===== verification/Bt_Indicators_Data.thy ===== *)
theory Bt_Indicators_Data
  imports Bt_Indicators_Props
begin

text \<open>
  What the resolution computes: the series it returns solve the equations of the indicators. The
  indicators are only required to name their outputs as the interface says.
\<close>

section \<open>Outputs\<close>

definition named_outputs :: "string \<Rightarrow> computed \<Rightarrow> (string \<times> f64 list) list" where
  "named_outputs n r = (case r of Single col \<Rightarrow> [(n, col)] | Multi outs \<Rightarrow> outs)"

text \<open>
  The contract of \<open>MultiIndicator\<close>: \<open>OutputNames\<close> lists all outputs of \<open>ComputeMulti\<close> and the name
  of the registration is one of them.
\<close>

definition names_outputs :: "string \<Rightarrow> indicator \<Rightarrow> bool" where
  "names_outputs n ind \<longleftrightarrow> n \<in> set (output_names n ind)
     \<and> (\<forall>inputs r. in_compute ind n inputs = Some r \<longrightarrow>
          distinct (map fst (named_outputs n r))
          \<and> fst ` set (named_outputs n r) = set (output_names n ind))"

lemma foldl_upd:
  "foldl (\<lambda>m (x, c). m(x \<mapsto> c)) m xs = m ++ map_of (rev xs)"
  by (induction xs arbitrary: m) auto

lemma map_of_functional:
  "(x, c) \<in> set xs \<Longrightarrow> (\<And>c'. (x, c') \<in> set xs \<Longrightarrow> c' = c) \<Longrightarrow> map_of xs x = Some c"
  by (metis map_of_SomeD weak_map_of_SomeI)

definition single_outputs :: "(string \<times> computed option) list \<Rightarrow> (string \<times> f64 list) list" where
  "single_outputs rs = concat (map (\<lambda>(n, r). case r of Some (Single col) \<Rightarrow> [(n, col)] | _ \<Rightarrow> []) rs)"

definition multi_outputs :: "(string \<times> computed option) list \<Rightarrow> (string \<times> f64 list) list" where
  "multi_outputs rs = concat (map (\<lambda>(n, r). case r of Some (Multi outs) \<Rightarrow> sort_key fst outs | _ \<Rightarrow> []) rs)"

lemma merge_maps:
  "merge_multi rs (merge_single rs data)
   = data ++ map_of (rev (single_outputs rs)) ++ map_of (rev (multi_outputs rs))"
proof -
  have "merge_single rs m = m ++ map_of (rev (single_outputs rs))" for m
    by (induction rs arbitrary: m rule: rev_induct)
       (auto simp: merge_single_def single_outputs_def split: option.split computed.split)
  moreover have "merge_multi rs m = m ++ map_of (rev (multi_outputs rs))" for m
    by (induction rs arbitrary: m)
       (auto simp: merge_multi_def multi_outputs_def foldl_upd split: option.split computed.split)
  ultimately show ?thesis by simp
qed

definition outputs_agree :: "(string \<times> computed option) list \<Rightarrow> bool" where
  "outputs_agree rs \<longleftrightarrow> (\<forall>n r n' r' x c c'. (n, Some r) \<in> set rs \<longrightarrow> (n', Some r') \<in> set rs \<longrightarrow>
      (x, c) \<in> set (named_outputs n r) \<longrightarrow> (x, c') \<in> set (named_outputs n' r') \<longrightarrow> c' = c)"

lemma merge_outputs:
  assumes "outputs_agree rs"
  shows "(n, Some r) \<in> set rs \<Longrightarrow> (x, c) \<in> set (named_outputs n r) \<Longrightarrow>
      merge_multi rs (merge_single rs data) x = Some c"
    and "(\<And>n r c. (n, Some r) \<in> set rs \<Longrightarrow> (x, c) \<notin> set (named_outputs n r)) \<Longrightarrow>
      merge_multi rs (merge_single rs data) x = data x"
proof -
  let ?all = "set (single_outputs rs) \<union> set (multi_outputs rs)"
  have all: "(x, c) \<in> ?all \<longleftrightarrow> (\<exists>n r. (n, Some r) \<in> set rs \<and> (x, c) \<in> set (named_outputs n r))" for x c
    by (fastforce simp: single_outputs_def multi_outputs_def named_outputs_def
        split: option.splits computed.splits)
  then have fun_all: "(x, c) \<in> ?all \<Longrightarrow> (x, c') \<in> ?all \<Longrightarrow> c' = c" for x c c' using assms unfolding outputs_agree_def by blast
  show "merge_multi rs (merge_single rs data) x = Some c"
    if "(n, Some r) \<in> set rs" "(x, c) \<in> set (named_outputs n r)"
  proof -
    have c: "(x, c) \<in> ?all" using that all by blast
    have v: "map_of (rev xs) x = Some c \<or> (map_of (rev xs) x = None \<and> (x, c) \<notin> set xs)"
      if "set xs \<subseteq> ?all" for xs
    proof (cases "map_of (rev xs) x")
      case (Some c')
      then have "(x, c') \<in> ?all" using map_of_SomeD that by fastforce
      then show ?thesis using Some c fun_all by blast
    qed (auto simp: map_of_eq_None_iff image_iff)
    show ?thesis using v [of "single_outputs rs"] v [of "multi_outputs rs"] c
      by (auto simp: merge_maps map_add_Some_iff)
  qed
  show "merge_multi rs (merge_single rs data) x = data x"
    if "\<And>n r c. (n, Some r) \<in> set rs \<Longrightarrow> (x, c) \<notin> set (named_outputs n r)"
  proof -
    have "(x, c) \<notin> ?all" for c using that all by blast
    then have "map_of (rev (single_outputs rs)) x = None" "map_of (rev (multi_outputs rs)) x = None"
      by (auto simp: map_of_eq_None_iff image_iff)
    then show ?thesis by (simp add: merge_maps map_add_def)
  qed
qed

section \<open>Inputs\<close>

lemma gather_inputs_at:
  "gather_inputs len seen level data n ind d =
     (if d \<in> set (in_optional ind)
      then Some (case available seen level data n d of Some c \<Rightarrow> c | None \<Rightarrow> replicate (len data) FNaN)
      else if d \<in> set (in_deps ind) then available seen level data n d else None)"
proof -
  have a: "foldl (\<lambda>m d. case f d of Some c \<Rightarrow> m(d \<mapsto> c) | None \<Rightarrow> m) m ds x
      = (if x \<in> set ds \<and> f x \<noteq> None then f x else m x)" for f :: "string \<Rightarrow> f64 list option" and m ds x
    by (induction ds arbitrary: m) (auto split: option.split)
  have b: "foldl (\<lambda>m d. m(d \<mapsto> f d)) m ds x = (if x \<in> set ds then Some (f x) else m x)"
    for f :: "string \<Rightarrow> f64 list" and m ds x
    by (induction ds arbitrary: m) auto
  show ?thesis by (auto simp: gather_inputs_def a b)
qed

section \<open>The equations\<close>

text \<open>
  The equation of an indicator: its outputs are those of its computation on the series of its
  dependencies. An optional dependency that is neither registered nor raw may be any column.
\<close>

definition solved :: "registered \<Rightarrow> series_map \<Rightarrow> series_map \<Rightarrow> string \<Rightarrow> indicator \<Rightarrow> bool" where
  "solved reg raw data n ind \<longleftrightarrow>
     (\<exists>inputs r. in_compute ind n inputs = Some r
        \<and> (\<forall>(x, col) \<in> set (named_outputs n r). data x = Some col)
        \<and> (\<forall>d \<in> set (in_deps ind). data d \<noteq> None)
        \<and> (\<forall>d \<in> set (in_optional ind). inputs d \<noteq> None)
        \<and> (\<forall>d \<in> set (all_deps ind). is_registered reg d \<or> raw d \<noteq> None \<longrightarrow> inputs d = data d)
        \<and> (\<forall>d. d \<notin> set (all_deps ind) \<longrightarrow> inputs d = None))"

definition level_data :: "registered \<Rightarrow> series_map \<Rightarrow> string set \<Rightarrow> series_map \<Rightarrow> bool" where
  "level_data reg raw D data \<longleftrightarrow>
     (\<forall>x. data x \<noteq> None \<longleftrightarrow> raw x \<noteq> None
          \<or> (\<exists>n \<in> D. \<exists>ind. map_of reg n = Some ind \<and> x \<in> set (output_names n ind)))
     \<and> (\<forall>x. raw x \<noteq> None \<longrightarrow> data x = raw x)
     \<and> (\<forall>n \<in> D. \<forall>ind. map_of reg n = Some ind \<longrightarrow> solved reg raw data n ind)"

text \<open>What validation checks: no two outputs have the same name and none has that of raw data.\<close>

definition outputs_disjoint :: "registered \<Rightarrow> series_map \<Rightarrow> bool" where
  "outputs_disjoint reg raw \<longleftrightarrow>
     (\<forall>(n, ind) \<in> set reg. \<forall>x \<in> set (output_names n ind). raw x = None
        \<and> (\<forall>(n', ind') \<in> set reg. x \<in> set (output_names n' ind') \<longrightarrow> n' = n))"

lemma claim_outputs_Inr:
  "claim_outputs n xs o1 = Inr o2 \<Longrightarrow>
     (\<forall>x \<in> set xs. o1 x = None)
     \<and> o2 = (\<lambda>x. if x \<in> set xs then Some (''indicator '' @ n) else o1 x)"
proof (induction xs arbitrary: o1)
  case (Cons y ys)
  have y: "o1 y = None" and c: "claim_outputs n ys (o1(y \<mapsto> ''indicator '' @ n)) = Inr o2"
    using Cons.prems by (auto split: option.splits)
  have "o1 x = None" if "x \<in> set ys" for x
    using Cons.IH [OF c] that by (auto simp: fun_upd_def split: if_splits)
  then show ?case using Cons.IH [OF c] y by (auto simp: fun_eq_iff)
qed simp

lemma claim_all_Inr:
  "claim_all r o1 = Inr o2 \<Longrightarrow> (n, ind) \<in> set r \<Longrightarrow> x \<in> set (output_names n ind) \<Longrightarrow>
     o1 x = None \<and> (\<forall>n' ind'. (n', ind') \<in> set r \<longrightarrow> x \<in> set (output_names n' ind') \<longrightarrow> n' = n)"
proof (induction r arbitrary: o1 n ind)
  case (Cons a r)
  obtain m i where a: "a = (m, i)" by (cases a)
  obtain o3 where o3: "claim_outputs m (output_names m i) o1 = Inr o3" "claim_all r o3 = Inr o2"
    using Cons.prems(1) by (auto simp: a split: sum.splits)
  note c = claim_outputs_Inr [OF o3(1)]
  have r: "o1 x = None \<and> x \<notin> set (output_names m i)"
    if "(n', ind') \<in> set r" "x \<in> set (output_names n' ind')" for n' ind'
    using Cons.IH [OF o3(2) that] c by (auto split: if_splits)
  show ?case
  proof (cases "(n, ind) = a")
    case True
    then show ?thesis using c r Cons.prems(3) by (auto simp: a)
  next
    case False
    then have "(n, ind) \<in> set r" using Cons.prems(2) by simp
    then show ?thesis using Cons.IH [OF o3(2) _ Cons.prems(3)] r [OF _ Cons.prems(3)] by (auto simp: a)
  qed
qed simp

lemma validate_outputs_Inr:
  "validate_outputs reg raw = Inr o2 \<Longrightarrow> outputs_disjoint reg raw"
  unfolding validate_outputs_def outputs_disjoint_def
  by (fastforce dest: claim_all_Inr split: if_splits)

lemma level_results_mem:
  assumes "level_inv reg g D q" "n \<in> set q"
  obtains ind where "map_of reg n = Some ind"
    "(n, in_compute ind n (gather_inputs len seen (sort q) data n ind))
       \<in> set (level_results len seen reg data (sort q))"
proof -
  have "n \<in> reg_names reg" using assms by (auto simp: level_inv_def)
  then obtain ind where "map_of reg n = Some ind" by (metis map_of_eq_None_iff not_None_eq)
  then show thesis using that assms(2) by (force simp: level_results_def)
qed

lemma level_results_elim:
  assumes "level_inv reg g D q" "(n, v) \<in> set (level_results len seen reg data (sort q))"
  obtains ind where "n \<in> set q" "map_of reg n = Some ind"
    "v = in_compute ind n (gather_inputs len seen (sort q) data n ind)"
proof -
  have n: "n \<in> set q" using assms(2) by (auto simp: level_results_def split: option.splits)
  then have "n \<in> reg_names reg" using assms(1) by (auto simp: level_inv_def)
  then obtain ind where "map_of reg n = Some ind" by (metis map_of_eq_None_iff not_None_eq)
  then show thesis using that n assms(2) by (auto simp: level_results_def split: option.splits)
qed

lemma solved_extend:
  assumes "solved reg raw data n ind" "\<And>x. data x \<noteq> None \<Longrightarrow> data' x = data x"
    and "\<And>x. data x = None \<Longrightarrow> data' x \<noteq> None \<Longrightarrow> x \<notin> set (in_deps ind)"
    and "\<And>d. d \<in> set (all_deps ind) \<Longrightarrow> is_registered reg d \<or> raw d \<noteq> None \<Longrightarrow> data d \<noteq> None"
  shows "solved reg raw data' n ind"
proof -
  obtain inputs r where s: "in_compute ind n inputs = Some r"
    "\<forall>(x, col) \<in> set (named_outputs n r). data x = Some col" "\<forall>d \<in> set (in_deps ind). data d \<noteq> None"
    "\<forall>d \<in> set (in_optional ind). inputs d \<noteq> None"
    "\<forall>d \<in> set (all_deps ind). is_registered reg d \<or> raw d \<noteq> None \<longrightarrow> inputs d = data d"
    "\<forall>d. d \<notin> set (all_deps ind) \<longrightarrow> inputs d = None"
    using assms(1) by (auto simp: solved_def)
  have "\<forall>(x, col) \<in> set (named_outputs n r). data' x = Some col"
    using s(2) assms(2) by (metis (mono_tags, lifting) case_prodD case_prodI2 option.distinct(1))
  moreover have "\<forall>d \<in> set (in_deps ind). data' d \<noteq> None" using s(3) assms(2) by simp
  moreover have "\<forall>d \<in> set (all_deps ind). is_registered reg d \<or> raw d \<noteq> None \<longrightarrow> inputs d = data' d"
    using s(5) assms(2,4) by metis
  ultimately show ?thesis unfolding solved_def using s(1,4,6) by blast
qed

text \<open>The situation in which a level has been computed.\<close>

definition level_done ::
  "registered \<Rightarrow> series_map \<Rightarrow> dep_graph \<Rightarrow> string set \<Rightarrow> string list \<Rightarrow> series_map
     \<Rightarrow> (series_map \<Rightarrow> nat) \<Rightarrow> schedule \<Rightarrow> (string \<times> computed option) list \<Rightarrow> bool" where
  "level_done reg raw g D q data len seen rs \<longleftrightarrow>
     level_inv reg g D q \<and> level_data reg raw D data \<and> outputs_disjoint reg raw
     \<and> (\<forall>(n, ind) \<in> set reg. names_outputs n ind)
     \<and> (\<forall>(n, ind) \<in> set reg. \<forall>d \<in> set (in_deps ind). is_registered reg d \<or> raw d \<noteq> None)
     \<and> rs = level_results len seen reg data (sort q) \<and> panicked rs = []"

abbreviation level_inputs where
  "level_inputs len seen q data n ind \<equiv> gather_inputs len seen (sort q) data n ind"

lemma level_done_facts:
  assumes "level_done reg raw g D q data len seen rs"
  shows "level_inv reg g D q" "level_data reg raw D data"
    "rs = level_results len seen reg data (sort q)" "panicked rs = []"
    "map_of reg n = Some ind \<Longrightarrow> names_outputs n ind"
    "map_of reg n = Some ind \<Longrightarrow> d \<in> set (in_deps ind) \<Longrightarrow> is_registered reg d \<or> raw d \<noteq> None"
    "map_of reg n = Some ind \<Longrightarrow> x \<in> set (output_names n ind) \<Longrightarrow> raw x = None"
    "map_of reg n = Some ind \<Longrightarrow> map_of reg n' = Some ind' \<Longrightarrow> x \<in> set (output_names n ind)
       \<Longrightarrow> x \<in> set (output_names n' ind') \<Longrightarrow> n' = n"
proof -
  note d = assms [unfolded level_done_def outputs_disjoint_def]
  show "level_inv reg g D q" "level_data reg raw D data"
    "rs = level_results len seen reg data (sort q)" "panicked rs = []" using d by blast+
  show "map_of reg n = Some ind \<Longrightarrow> names_outputs n ind"
    "map_of reg n = Some ind \<Longrightarrow> d \<in> set (in_deps ind) \<Longrightarrow> is_registered reg d \<or> raw d \<noteq> None"
    "map_of reg n = Some ind \<Longrightarrow> x \<in> set (output_names n ind) \<Longrightarrow> raw x = None"
    "map_of reg n = Some ind \<Longrightarrow> map_of reg n' = Some ind' \<Longrightarrow> x \<in> set (output_names n ind)
       \<Longrightarrow> x \<in> set (output_names n' ind') \<Longrightarrow> n' = n"
    using d by (blast dest!: map_of_SomeD)+
qed

lemma level_data_dom:
  "level_data reg raw D data \<Longrightarrow> data x \<noteq> None \<longleftrightarrow> raw x \<noteq> None
      \<or> (\<exists>n \<in> D. \<exists>ind. map_of reg n = Some ind \<and> x \<in> set (output_names n ind))"
  by (simp add: level_data_def)

lemma level_result_exists:
  assumes "level_done reg raw g D q data len seen rs" "n \<in> set q" "map_of reg n = Some ind"
  obtains r where "in_compute ind n (level_inputs len seen q data n ind) = Some r" "(n, Some r) \<in> set rs"
proof -
  note l = level_done_facts(1,3,4) [OF assms(1)]
  obtain v where v: "v = in_compute ind n (level_inputs len seen q data n ind)" "(n, v) \<in> set rs"
    using level_results_mem [OF l(1) assms(2)] assms(3) l(2) by (metis option.inject)
  then have "v \<noteq> None" using l(3) by (auto simp: panicked_def filter_empty_conv)
  then show thesis using v that by auto
qed

lemma level_result_source:
  assumes "level_done reg raw g D q data len seen rs" "(n, Some r) \<in> set rs"
  obtains ind where "n \<in> set q" "map_of reg n = Some ind"
    "in_compute ind n (level_inputs len seen q data n ind) = Some r"
    "distinct (map fst (named_outputs n r))"
    "fst ` set (named_outputs n r) = set (output_names n ind)"
proof -
  note l = level_done_facts [OF assms(1)]
  obtain ind where i: "n \<in> set q" "map_of reg n = Some ind"
    "Some r = in_compute ind n (level_inputs len seen q data n ind)"
    using level_results_elim [OF l(1)] assms(2) l(3) by metis
  then show thesis using that l(5) [OF i(2)] by (simp add: names_outputs_def)
qed

lemma level_outputs_functional:
  assumes "level_done reg raw g D q data len seen rs"
    and a: "(n, Some r) \<in> set rs" "(n', Some r') \<in> set rs"
      "(x, c) \<in> set (named_outputs n r)" "(x, c') \<in> set (named_outputs n' r')"
  shows "c' = c"
proof -
  obtain ind where i: "n \<in> set q" "map_of reg n = Some ind"
    "in_compute ind n (level_inputs len seen q data n ind) = Some r"
    "distinct (map fst (named_outputs n r))" "fst ` set (named_outputs n r) = set (output_names n ind)"
    by (rule level_result_source [OF assms(1) a(1)])
  obtain ind' where i': "n' \<in> set q" "map_of reg n' = Some ind'"
    "in_compute ind' n' (level_inputs len seen q data n' ind') = Some r'"
    "distinct (map fst (named_outputs n' r'))" "fst ` set (named_outputs n' r') = set (output_names n' ind')"
    by (rule level_result_source [OF assms(1) a(2)])
  have "n' = n"
    using level_done_facts(8) [OF assms(1) i(2) i'(2), of x] a(3,4) i(5) i'(5) by (metis fst_conv image_eqI)
  then have "r' = r" using i i' by simp
  then show ?thesis using i(4) a(3,4) \<open>n' = n\<close> by (metis eq_key_imp_eq_value)
qed

lemma level_merge:
  assumes "level_done reg raw g D q data len seen rs"
    and "data' = merge_multi rs (merge_single rs data)"
  shows "(n, Some r) \<in> set rs \<Longrightarrow> (x, c) \<in> set (named_outputs n r) \<Longrightarrow> data' x = Some c"
    and "(\<And>n ind. n \<in> set q \<Longrightarrow> map_of reg n = Some ind \<Longrightarrow> x \<notin> set (output_names n ind)) \<Longrightarrow>
      data' x = data x"
    and "n \<in> set q \<Longrightarrow> map_of reg n = Some ind \<Longrightarrow> x \<in> set (output_names n ind) \<Longrightarrow> data' x \<noteq> None"
    and "data x \<noteq> None \<Longrightarrow> data' x = data x"
proof -
  have f: "outputs_agree rs"
    unfolding outputs_agree_def using level_outputs_functional [OF assms(1)] by blast
  show mem: "data' x = Some c" if "(n, Some r) \<in> set rs" "(x, c) \<in> set (named_outputs n r)" for n r x c
    unfolding assms(2) using merge_outputs(1) [OF f] that by blast
  show old: "data' x = data x"
    if "\<And>n ind. n \<in> set q \<Longrightarrow> map_of reg n = Some ind \<Longrightarrow> x \<notin> set (output_names n ind)" for x
    unfolding assms(2)
  proof (rule merge_outputs(2) [OF f])
    fix n r c assume r: "(n, Some r) \<in> set rs"
    show "(x, c) \<notin> set (named_outputs n r)"
      by (rule level_result_source [OF assms(1) r]) (metis fst_conv image_eqI that)
  qed
  show "data' x \<noteq> None" if n: "n \<in> set q" "map_of reg n = Some ind" "x \<in> set (output_names n ind)" for n ind x
  proof -
    obtain r where r: "in_compute ind n (level_inputs len seen q data n ind) = Some r" "(n, Some r) \<in> set rs"
      by (rule level_result_exists [OF assms(1) n(1,2)])
    then have "fst ` set (named_outputs n r) = set (output_names n ind)"
      using level_done_facts(5) [OF assms(1) n(2)] by (simp add: names_outputs_def)
    then obtain c where "(x, c) \<in> set (named_outputs n r)" using n(3) by force
    then show ?thesis using mem [OF r(2)] by simp
  qed
  show "data' x = data x" if x: "data x \<noteq> None" for x
  proof (rule old)
    fix n ind assume n: "n \<in> set q" "map_of reg n = Some ind"
    have "x \<notin> set (output_names n ind)" if "raw x \<noteq> None"
      using level_done_facts(7) [OF assms(1) n(2), of x] that by auto
    moreover have "x \<notin> set (output_names n ind)"
      if "n' \<in> D" "map_of reg n' = Some ind'" "x \<in> set (output_names n' ind')" for n' ind'
      using level_done_facts(1) [OF assms(1)] level_done_facts(8) [OF assms(1) n(2) that(2), of x] that n(1)
      by (auto simp: level_inv_def)
    ultimately show "x \<notin> set (output_names n ind)"
      using level_data_dom [OF level_done_facts(2) [OF assms(1)], of x] x by blast
  qed
qed

text \<open>The dependencies of what has been computed, or is in the level, have their series.\<close>

lemma level_dependency:
  assumes "level_done reg raw g D q data len seen rs" "n \<in> D \<union> set q" "map_of reg n = Some ind"
    and "d \<in> set (all_deps ind)" "is_registered reg d \<or> raw d \<noteq> None"
  shows "data d \<noteq> None"
proof (cases "is_registered reg d")
  case True
  then obtain di where di: "map_of reg d = Some di" by (auto simp: is_registered_def)
  have "waiting_degree reg D n = 0"
    using assms(2) level_done_facts(1) [OF assms(1)] by (auto simp: level_inv_def)
  moreover have "depends reg n d" using True assms(3,4) by (auto simp: depends_def is_registered_iff)
  ultimately have "d \<in> D" by (rule depends_waiting)
  moreover have "d \<in> set (output_names d di)"
    using level_done_facts(5) [OF assms(1) di] by (simp add: names_outputs_def)
  ultimately show ?thesis using level_data_dom [OF level_done_facts(2) [OF assms(1)]] di by blast
next
  case False
  then show ?thesis using assms(5) level_data_dom [OF level_done_facts(2) [OF assms(1)]] by blast
qed

lemma level_solved_old:
  assumes l: "level_done reg raw g D q data len seen rs"
    and "data' = merge_multi rs (merge_single rs data)" and n: "n \<in> D" "map_of reg n = Some ind"
  shows "solved reg raw data' n ind"
proof (rule solved_extend)
  show "solved reg raw data n ind" using level_done_facts(2) [OF l] n by (simp add: level_data_def)
  show "data x \<noteq> None \<Longrightarrow> data' x = data x" for x by (rule level_merge(4) [OF assms(1,2)])
  show "data x = None \<Longrightarrow> data' x \<noteq> None \<Longrightarrow> x \<notin> set (in_deps ind)" for x
    using level_dependency [OF l _ n(2), of x] level_done_facts(6) [OF l n(2), of x] n(1) by auto
  show "d \<in> set (all_deps ind) \<Longrightarrow> is_registered reg d \<or> raw d \<noteq> None \<Longrightarrow> data d \<noteq> None" for d
    using level_dependency [OF l _ n(2), of d] n(1) by blast
qed

lemma level_solved_new:
  assumes l: "level_done reg raw g D q data len seen rs"
    and "data' = merge_multi rs (merge_single rs data)" and n: "n \<in> set q" "map_of reg n = Some ind"
  shows "solved reg raw data' n ind"
proof -
  define inputs where "inputs = level_inputs len seen q data n ind"
  obtain r where r: "in_compute ind n inputs = Some r" "(n, Some r) \<in> set rs"
    unfolding inputs_def by (rule level_result_exists [OF l n])
  note keep = level_merge(4) [OF assms(1,2)]
  have dep: "data d \<noteq> None" if "d \<in> set (all_deps ind)" "is_registered reg d \<or> raw d \<noteq> None" for d
    using level_dependency [OF l _ n(2) that] n(1) by blast
  have av: "available seen (sort q) data n d = data d" if "d \<in> set (all_deps ind)" for d
    using level_not_seen [OF level_done_facts(1) [OF l] n that]
    by (simp add: available_def split: option.split)
  have "inputs d = data' d" if d: "d \<in> set (all_deps ind)" "is_registered reg d \<or> raw d \<noteq> None" for d
    using av [OF d(1)] d(1) keep [OF dep [OF d]] dep [OF d]
    by (auto simp: inputs_def gather_inputs_at split: option.split)
  moreover have "data' d \<noteq> None" if "d \<in> set (in_deps ind)" for d
  proof -
    have "data d \<noteq> None" using dep [of d] level_done_facts(6) [OF l n(2) that] that by simp
    then show ?thesis by (simp add: keep)
  qed
  moreover have "\<forall>d \<in> set (in_optional ind). inputs d \<noteq> None" "\<forall>d. d \<notin> set (all_deps ind) \<longrightarrow> inputs d = None"
    by (simp_all add: inputs_def gather_inputs_at)
  moreover have "\<forall>(x, col) \<in> set (named_outputs n r). data' x = Some col"
    using level_merge(1) [OF assms(1,2) r(2)] by blast
  ultimately show ?thesis unfolding solved_def using r(1) by blast
qed

lemma level_data_step:
  assumes l: "level_done reg raw g D q data len seen rs"
  shows "level_data reg raw (D \<union> set q) (merge_multi rs (merge_single rs data))"
proof -
  define data' where "data' = merge_multi rs (merge_single rs data)"
  note m = level_merge [OF l data'_def] and dom = level_data_dom [OF level_done_facts(2) [OF l]]
  have "data' x \<noteq> None \<longleftrightarrow> raw x \<noteq> None
      \<or> (\<exists>n \<in> D \<union> set q. \<exists>ind. map_of reg n = Some ind \<and> x \<in> set (output_names n ind))" for x
  proof (cases "\<exists>n \<in> set q. \<exists>ind. map_of reg n = Some ind \<and> x \<in> set (output_names n ind)")
    case False
    then show ?thesis using m(2) [of x] dom [of x] by auto
  qed (use m(3) in blast)
  moreover have "data' x = raw x" if "raw x \<noteq> None" for x
    using m(4) [of x] that level_done_facts(2) [OF l] dom [of x] by (simp add: level_data_def)
  ultimately show ?thesis unfolding data'_def [symmetric] level_data_def
    using level_solved_old [OF l data'_def] level_solved_new [OF l data'_def] by blast
qed

section \<open>The result\<close>

lemma run_levels_solves:
  assumes "level_inv reg g D q" "level_data reg raw D data" "outputs_disjoint reg raw"
    "\<forall>(n, ind) \<in> set reg. names_outputs n ind"
    "\<forall>(n, ind) \<in> set reg. \<forall>d \<in> set (in_deps ind). is_registered reg d \<or> raw d \<noteq> None"
    "distinct (map fst reg)"
    and "run_levels k len seen reg g q (card D) data = Inr data'"
  shows "level_data reg raw (reg_names reg) data'"
  using assms(1,2,7)
proof (induction k arbitrary: g D q data)
  case (0 g D q data)
  then show ?case using card_done(1) [OF 0(1) assms(6)] by (simp add: run_levels.simps split: if_splits)
next
  case (Suc k g D q data)
  note c = card_done [OF Suc.prems(1) assms(6)]
  show ?case
  proof (cases "q = []")
    case True
    then show ?thesis using Suc.prems c(1) by (simp add: run_levels_Nil split: if_splits)
  next
    case False
    obtain g' q' where r: "release_level (sort q) g = (g', q')" by fastforce
    let ?rs = "level_results len (seen (Suc k)) reg data (sort q)"
    have p: "panicked ?rs = []"
      and run: "run_levels k len seen reg g' q' (card (D \<union> set q)) (merge_multi ?rs (merge_single ?rs data)) = Inr data'"
      using Suc.prems(3) unfolding run_levels_step [OF False r] c(2) Let_def by (auto split: if_splits)
    have l: "level_done reg raw g D q data len (seen (Suc k)) ?rs"
      using Suc.prems(1,2) assms(3-5) p by (simp add: level_done_def)
    show ?thesis
      by (rule Suc.IH [OF level_inv_step [OF Suc.prems(1) r] level_data_step [OF l] run])
  qed
qed

end
