(* ===== verification/Bt_Indicator_Causal.thy ===== *)
theory Bt_Indicator_Causal
  imports Bt_Indicator_Lib Bt_Indicators_Data Bt_Rolling_Props
begin

text \<open>
  The indicators of the library name their outputs as their interface says, and they do not look
  ahead: on data that ends after some bars they compute the first bars of what they compute on all
  data. The resolution of any registered indicators with this property has it too.
\<close>

section \<open>Truncated data\<close>

definition upto_bar :: "nat \<Rightarrow> series_map \<Rightarrow> series_map" where
  "upto_bar k m = (\<lambda>x. map_option (take k) (m x))"

definition truncated :: "nat \<Rightarrow> computed \<Rightarrow> computed" where
  "truncated k r = (case r of Single col \<Rightarrow> Single (take k col) | Multi outs \<Rightarrow> Multi (map (map_prod id (take k)) outs))"

definition causal_indicator :: "nat \<Rightarrow> string \<Rightarrow> indicator \<Rightarrow> bool" where
  "causal_indicator k n ind \<longleftrightarrow>
     (\<forall>m r. in_compute ind n m = Some r \<longrightarrow> in_compute ind n (upto_bar k m) = Some (truncated k r))"

lemma input_upto: "input (upto_bar k m) x = take k (input m x)"
  by (simp add: input_def upto_bar_def split: option.split)

section \<open>Loops\<close>

lemma rd_take: "i < int k \<Longrightarrow> rd (take k xs) i = rd xs i"
  by (simp add: rd_def nat_less_iff) linarith

lemma rd_take_back [simp]:
  "i < k \<Longrightarrow> rd (take k xs) (int i) = rd xs (int i)"
  "i < k \<Longrightarrow> 0 \<le> c \<Longrightarrow> rd (take k xs) (int i - c) = rd xs (int i - c)"
  by (simp_all add: rd_take)

lemma any_nan_take:
  "list_all (\<lambda>(xs, i). i < int k) ps \<Longrightarrow> any_nan (map (\<lambda>(xs, i). (take k xs, i)) ps) = any_nan ps"
  by (induction ps rule: any_nan.induct) (auto simp: rd_take intro!: bind_option_cong)

lemma loop_length: "scan f s n = Some (out, s') \<Longrightarrow> length out = n"
  by (induction n arbitrary: out s') (auto split: bind_splits)

lemma scan_cong:
  "(\<And>i out s. i < n \<Longrightarrow> f' out s i = f out s i) \<Longrightarrow> scan f' s n = scan f s n"
  by (induction n) (auto intro!: bind_option_cong)

lemma loop_prefix:
  "scan f s n = Some (out, s') \<Longrightarrow> k \<le> n \<Longrightarrow> \<exists>s''. scan f s k = Some (take k out, s'')"
proof (induction n arbitrary: out s')
  case (Suc n)
  then obtain out1 s1 v where s: "scan f s n = Some (out1, s1)" "out = out1 @ [v]"
    by (auto split: bind_splits prod.splits)
  show ?case
  proof (cases "k = Suc n")
    case True
    then show ?thesis using Suc.prems loop_length [OF Suc.prems(1)] by simp
  next
    case False
    then show ?thesis using Suc.IH [OF s(1)] Suc.prems(2) loop_length [OF s(1)] s(2) by simp
  qed
qed simp

lemma scan_causal:
  assumes "scan f s n = Some (out, s')" "\<And>i out s. i < k \<Longrightarrow> f' out s i = f out s i"
  shows "\<exists>s''. scan f' s (min k n) = Some (take k out, s'')"
proof -
  have "scan f' s (min k n) = scan f s (min k n)" using assms(2) by (intro scan_cong) simp
  then show ?thesis using loop_prefix [OF assms(1), of "min k n"] loop_length [OF assms(1)]
    by (cases "k \<le> n") (simp_all add: min_def)
qed

lemma each_bar_causal:
  assumes "each_bar f n = Some out" "\<And>i. i < k \<Longrightarrow> f' i = f i"
  shows "each_bar f' (min k n) = Some (take k out)"
proof -
  obtain s where "scan (\<lambda>_ s i. map_option (\<lambda>v. (v, s)) (f i)) () n = Some (out, s)"
    using assms(1) by (auto simp: each_bar_def)
  from scan_causal [OF this, where f' = "\<lambda>_ s i. map_option (\<lambda>v. (v, s)) (f' i)" and k = k] assms(2)
  show ?thesis by (auto simp: each_bar_def)
qed

lemma each_bar_length: "each_bar f n = Some out \<Longrightarrow> length out = n"
  by (auto simp: each_bar_def dest: loop_length)

section \<open>The helpers on shorter data\<close>

lemma all_nan_min [simp]: "take k (all_nan n) = all_nan (min k n)" "take k (all_nan n) = all_nan (min n k)"
  by (simp_all add: all_nan_def min.commute)

lemma helpers_take:
  "compute_ema (take k src) p = take k (compute_ema src p)"
  "compute_sma (take k src) p = take k (compute_sma src p)"
  "compute_rma (take k src) p = take k (compute_rma src p)"
  "rolling_max (take k src) p = map_option (take k) (rolling_max src p)"
  "rolling_min (take k src) p = map_option (take k) (rolling_min src p)"
proof -
  have r: "rolling below (take k src) p = map_option (take k) (rolling below src p)" for below
  proof (cases "k \<le> length src")
    case False
    then show ?thesis using rolling_length(1) [where below = below and src = src]
      by (cases "rolling below src p") simp_all
  qed (rule rolling_causal)
  then show "rolling_max (take k src) p = map_option (take k) (rolling_max src p)"
    "rolling_min (take k src) p = map_option (take k) (rolling_min src p)"
    by (simp_all add: rolling_max_def rolling_min_def)
  show "compute_ema (take k src) p = take k (compute_ema src p)"
    "compute_sma (take k src) p = take k (compute_sma src p)"
    "compute_rma (take k src) p = take k (compute_rma src p)"
    by (cases "k \<le> length src"; simp add: compute_ema_causal compute_sma_causal compute_rma_causal)+
qed

section \<open>The indicators one by one\<close>

lemma sma_indicator_causal:
  assumes "sma_indicator src p = Some out"
  shows "sma_indicator (take k src) p = Some (take k out)"
proof (cases "0 \<le> p")
  case True
  have "sma_loop (take k src) p o1 s i = sma_loop src p o1 s i" if "i < k" for o1 s i
    using that True by (cases s) (simp add: sma_loop_def cong: if_cong prod.case_cong)
  with assms show ?thesis
    using scan_causal [of "sma_loop src p" "(0, 0)" "length src" _ _ k "sma_loop (take k src) p"]
    by (auto simp: sma_indicator_def min.commute)
next
  case False
  have "length src = 0"
  proof (rule ccontr)
    assume "length src \<noteq> 0"
    then obtain n where n: "length src = Suc n" by (cases "length src") auto
    have "rd src (int n - p) = None" using False n by (simp add: rd_def)
    then have "sma_loop src p o1 s n = None" for o1 s
      using False by (cases s) (auto simp: sma_loop_def Let_def split: bind_splits)
    then have "scan (sma_loop src p) (0, 0) (Suc n) = None" by (auto split: bind_splits)
    then show False using assms n by (simp add: sma_indicator_def)
  qed
  then show ?thesis using assms by (simp add: sma_indicator_def)
qed

lemma each_bar_take:
  "each_bar f (length src) = Some out \<Longrightarrow> (\<And>i. i < k \<Longrightarrow> f' i = f i) \<Longrightarrow>
     each_bar f' (length (take k src)) = Some (take k out)"
  using each_bar_causal [of f "length src" out k f'] by (simp add: min.commute)

lemma wma_indicator_causal:
  assumes "wma_indicator src p = Some out"
  shows "wma_indicator (take k src) p = Some (take k out)"
proof (cases "p \<le> 0")
  case False
  have "wma_sum (take k src) p i = wma_sum src p i" if "i < k" for i
    unfolding wma_sum_def using that False
    by (intro foldl_cong) (auto simp: rd_take intro!: bind_option_cong split: option.split)
  then show ?thesis using assms False each_bar_take [of _ src out k]
    unfolding wma_indicator_def by (simp cong: if_cong)
qed (use assms in \<open>auto simp: wma_indicator_def min.commute\<close>)

lemma vwma_indicator_causal:
  assumes "vwma_indicator price vol p = Some out"
  shows "vwma_indicator (take k price) (take k vol) p = Some (take k out)"
proof (cases "p \<le> 0")
  case False
  have "vwma_loop (take k price) (take k vol) p o1 s i = vwma_loop price vol p o1 s i" if "i < k" for o1 s i
    using that False by (simp add: vwma_loop_def cong: if_cong)
  with assms False show ?thesis
    using scan_causal [of "vwma_loop price vol p" _ "length price" _ _ k "vwma_loop (take k price) (take k vol) p"]
    by (fastforce simp: vwma_indicator_def min.commute)
qed (use assms in \<open>auto simp: vwma_indicator_def min.commute\<close>)

lemma difference_causal:
  assumes "difference xs ys n = Some out"
  shows "difference (take k xs) (take k ys) (min k n) = Some (take k out)"
  using assms unfolding difference_def by (rule each_bar_causal) (simp cong: if_cong)

lemma macd_indicator_causal:
  assumes "macd_indicator n src fast slow sig = Some outs"
  shows "macd_indicator n (take k src) fast slow sig = Some (map (map_prod id (take k)) outs)"
proof -
  obtain line hist where
    l: "difference (compute_ema src fast) (compute_ema src slow) (length src) = Some line" and
    h: "difference line (compute_ema line sig) (length src) = Some hist" and
    o: "outs = [(n, line), (n @ ''_signal'', compute_ema line sig), (n @ ''_hist'', hist)]"
    using assms by (auto simp: macd_indicator_def Let_def split: bind_splits)
  show ?thesis
    using difference_causal [OF l, of k] difference_causal [OF h, of k]
    by (simp add: macd_indicator_def helpers_take o min.commute)
qed

lemma cross_indicator_causal:
  assumes "cross_indicator a b up = Some out" "0 < k"
  shows "cross_indicator (take k a) (take k b) up = Some (take k out)"
proof -
  have "cross_at (take k a) (take k b) up i = cross_at a b up i" if "i < k" for i
    using that by (simp add: cross_at_def cong: if_cong)
  then show ?thesis using assms each_bar_take [of "cross_at a b up" a out k] unfolding cross_indicator_def
    by (auto split: if_splits)
qed

lemma threshold_indicator_causal:
  "threshold_indicator (take k src) t up = take k (threshold_indicator src t up)"
  by (simp add: threshold_indicator_def take_map)

section \<open>Oscillators and volatility\<close>

lemma rsi_seed_take:
  assumes "int p < int k"
  shows "rsi_seed (take k src) p = rsi_seed src p"
  unfolding rsi_seed_def using assms
  by (intro foldl_cong) (auto cong: if_cong intro!: bind_option_cong)

lemma rsi_loop_warm: "int i < p \<Longrightarrow> rsi_loop src p s o1 st i = Some (FNaN, s)"
  by (cases st) (simp add: rsi_loop_def)

lemma rsi_indicator_causal:
  assumes "rsi_indicator src p = Some out"
  shows "rsi_indicator (take k src) p = Some (take k out)"
proof (cases "int (length src) \<le> p")
  case True
  then have "int (length (take k src)) \<le> p" "out = all_nan (length src)"
    using assms by (simp_all add: rsi_indicator_def)
  then show ?thesis by (auto simp: rsi_indicator_def min.commute)
next
  case False
  then have p: "0 \<le> p" using assms by (auto simp: rsi_indicator_def split: if_splits)
  obtain gain loss n where seed: "rsi_seed src (nat p) = Some (gain, loss, n)"
    using assms False p by (auto simp: rsi_indicator_def split: bind_splits)
  define s where "s = (gain / f64_of_int p, loss / f64_of_int p)"
  have loop: "rsi_loop (take k src) p s o1 st i = rsi_loop src p s o1 st i" if "i < k" for o1 st i
    using that by (cases st) (simp add: rsi_loop_def cong: if_cong)
  show ?thesis
  proof (cases "int k \<le> p")
    case True
    have "take k out = all_nan (min k (length src))"
    proof (cases "n < p")
      case F: False
      then obtain st where "scan (rsi_loop src p s) s (length src) = Some (out, st)"
        using assms False p seed by (auto simp: rsi_indicator_def s_def Let_def)
      moreover have "scan (rsi_loop src p s) s m = Some (all_nan m, s)" if "m \<le> k" for m
        using that True by (induction m) (auto simp: rsi_loop_warm all_nan_def replicate_append_same)
      ultimately show ?thesis using loop_prefix [of "rsi_loop src p s" s "length src" out st "min k (length src)"]
          loop_length [of "rsi_loop src p s" s "length src" out st] by (simp add: min_def split: if_splits)
    qed (use assms False p seed in \<open>auto simp: rsi_indicator_def min.commute\<close>)
    moreover have "int (length (take k src)) \<le> p" using True by simp
    ultimately show ?thesis by (simp add: rsi_indicator_def min.commute)
  next
    case k: False
    then have t: "rsi_seed (take k src) (nat p) = Some (gain, loss, n)"
      using rsi_seed_take [of "nat p" k src] seed p by simp
    have "\<not> int (length (take k src)) \<le> p" using k False by simp
    then show ?thesis
      using assms False p seed t loop scan_causal [of "rsi_loop src p s" s "length src" out _ k "rsi_loop (take k src) p s"]
      by (auto simp: rsi_indicator_def s_def Let_def min.commute split: if_splits)
  qed
qed

lemma stochastic_indicator_causal:
  assumes "stochastic_indicator n high low cls kp ks dp = Some outs"
  shows "stochastic_indicator n (take k high) (take k low) (take k cls) kp ks dp
    = Some (map (map_prod id (take k)) outs)"
proof (cases "kp \<le> 0 \<or> ks \<le> 0 \<or> dp \<le> 0")
  case False
  then obtain hh ll raw where h: "rolling_max high kp = Some hh" "rolling_min low kp = Some ll"
    "each_bar (stochastic_raw hh ll cls) (length high) = Some raw"
    "outs = [(n, compute_sma raw ks), (n @ ''_d'', compute_sma (compute_sma raw ks) dp), (n @ ''_raw'', raw)]"
    using assms by (auto simp: stochastic_indicator_def Let_def split: bind_splits)
  have "each_bar (stochastic_raw (take k hh) (take k ll) (take k cls)) (length (take k high)) = Some (take k raw)"
    using h(3) by (rule each_bar_take) (simp add: stochastic_raw_def cong: if_cong)
  then show ?thesis using False h by (simp add: stochastic_indicator_def helpers_take)
qed (use assms in \<open>auto simp: stochastic_indicator_def min.commute\<close>)

lemma cci_indicator_causal:
  assumes "cci_indicator high low cls p = Some out"
  shows "cci_indicator (take k high) (take k low) (take k cls) p = Some (take k out)"
proof (cases "p \<le> 0")
  case False
  then obtain tp where t: "each_bar (typical_price high low cls) (length high) = Some tp"
    "each_bar (cci_at tp (compute_sma tp p) p) (length high) = Some out"
    using assms by (auto simp: cci_indicator_def split: bind_splits)
  have tp: "each_bar (typical_price (take k high) (take k low) (take k cls)) (length (take k high)) = Some (take k tp)"
    using t(1) by (rule each_bar_take) (simp add: typical_price_def cong: if_cong)
  have dev: "mean_deviation (take k tp) p m i = mean_deviation tp p m i" if "i < k" for m i
    unfolding mean_deviation_def using that False
    by (intro foldl_cong) (auto simp: rd_take intro!: bind_option_cong split: option.split)
  have "each_bar (cci_at (take k tp) (take k (compute_sma tp p)) p) (length (take k high)) = Some (take k out)"
    using t(2) by (rule each_bar_take) (simp add: cci_at_def dev cong: if_cong)
  then show ?thesis using False tp by (simp add: cci_indicator_def helpers_take)
qed (use assms in \<open>auto simp: cci_indicator_def min.commute\<close>)

lemma obv_indicator_causal:
  assumes "obv_indicator cls vol = Some out"
  shows "obv_indicator (take k cls) (take k vol) = Some (take k out)"
proof -
  have "obv_loop (take k cls) (take k vol) o1 s i = obv_loop cls vol o1 s i" if "i < k" for o1 s i
    using that rd_take [of 0 k vol] by (simp add: obv_loop_def cong: if_cong)
  with assms show ?thesis
    using scan_causal [of "obv_loop cls vol" "()" "length cls" _ _ k "obv_loop (take k cls) (take k vol)"]
    by (fastforce simp: obv_indicator_def min.commute)
qed

lemma atr_indicator_causal:
  assumes "atr_indicator high low cls p = Some out"
  shows "atr_indicator (take k high) (take k low) (take k cls) p = Some (take k out)"
proof -
  obtain tr where tr: "each_bar (atr_range high low cls) (length high) = Some tr" "out = compute_rma tr p"
    using assms by (auto simp: atr_indicator_def)
  have "each_bar (atr_range (take k high) (take k low) (take k cls)) (length (take k high)) = Some (take k tr)"
    using tr(1) by (rule each_bar_take) (simp add: atr_range_def cong: if_cong)
  then show ?thesis using tr(2) by (simp add: atr_indicator_def helpers_take)
qed

lemma donchian_indicator_causal:
  assumes "donchian_indicator n high low p = Some outs"
  shows "donchian_indicator n (take k high) (take k low) p = Some (map (map_prod id (take k)) outs)"
proof -
  obtain up lo mid where d: "rolling_max high p = Some up" "rolling_min low p = Some lo"
    "each_bar (donchian_mid up lo) (length up) = Some mid"
    "outs = [(n, mid), (n @ ''_upper'', up), (n @ ''_lower'', lo)]"
    using assms by (auto simp: donchian_indicator_def split: bind_splits)
  have "each_bar (donchian_mid (take k up) (take k lo)) (length (take k up)) = Some (take k mid)"
    using d(3) by (rule each_bar_take) (simp add: donchian_mid_def cong: if_cong)
  then show ?thesis using d by (simp add: donchian_indicator_def helpers_take)
qed

lemma scan_bars_take:
  assumes "scan (\<lambda>_ s i. map_option (\<lambda>v. (v, s)) (f i)) () n = Some (out, s')" "\<And>i. i < k \<Longrightarrow> f' i = f i"
  shows "scan (\<lambda>_ s i. map_option (\<lambda>v. (v, s)) (f' i)) () (min n k) = Some (take k out, ())"
  using scan_causal [OF assms(1), where k = k and f' = "\<lambda>_ s i. map_option (\<lambda>v. (v, s)) (f' i)"] assms(2)
  by (simp add: min.commute)

lemma adx_indicator_causal:
  assumes "adx_indicator n high low cls p = Some outs"
  shows "adx_indicator n (take k high) (take k low) (take k cls) p = Some (map (map_prod id (take k)) outs)"
proof (cases "p \<le> 0")
  case False
  let ?r = "\<lambda>bars f. compute_rma (map f bars) p"
  obtain bars u idx w where
    b: "scan (\<lambda>_ s i. map_option (\<lambda>v. (v, s)) (adx_bar high low cls i)) () (length high) = Some (bars, u)" and
    x: "scan (\<lambda>_ s i. map_option (\<lambda>v. (v, s)) (adx_index (?r bars fst) (?r bars (fst \<circ> snd)) (?r bars (snd \<circ> snd)) i))
          () (length high) = Some (idx, w)" and
    o: "outs = [(n, compute_rma (map fst idx) p), (n @ ''_plus_di'', map (fst \<circ> snd) idx),
               (n @ ''_minus_di'', map (snd \<circ> snd) idx)]"
    using assms False by (auto simp: adx_indicator_def Let_def split: bind_splits prod.splits)
  have b': "scan (\<lambda>_ s i. map_option (\<lambda>v. (v, s)) (adx_bar (take k high) (take k low) (take k cls) i)) ()
      (min (length high) k) = Some (take k bars, ())"
    using b by (rule scan_bars_take) (simp add: adx_bar_def cong: if_cong)
  have x': "scan (\<lambda>_ s i. map_option (\<lambda>v. (v, s)) (adx_index (take k (?r bars fst)) (take k (?r bars (fst \<circ> snd)))
      (take k (?r bars (snd \<circ> snd))) i)) () (min (length high) k) = Some (take k idx, ())"
    using x by (rule scan_bars_take) (simp add: adx_index_def cong: if_cong)
  show ?thesis using False b' x' o
    by (simp add: adx_indicator_def Let_def take_map [symmetric] helpers_take)
qed (use assms in \<open>auto simp: adx_indicator_def min.commute\<close>)

section \<open>The library\<close>

lemma library_causal:
  assumes "0 < k"
  shows "causal_indicator k n (indicator_of sp)"
proof -
  have "spec_compute sp n (upto_bar k m) = Some (truncated k r)" if "spec_compute sp n m = Some r" for m r
    using that assms
    by (cases sp)
       (auto simp: input_upto truncated_def helpers_take threshold_indicator_causal sma_indicator_causal
        wma_indicator_causal vwma_indicator_causal macd_indicator_causal cross_indicator_causal
        rsi_indicator_causal stochastic_indicator_causal cci_indicator_causal adx_indicator_causal
        obv_indicator_causal atr_indicator_causal donchian_indicator_causal)
  then show ?thesis by (simp add: causal_indicator_def indicator_of_def)
qed

lemma library_names_outputs: "names_outputs n (indicator_of sp)"
proof -
  have "distinct (map fst (named_outputs n r)) \<and> fst ` set (named_outputs n r)
      = set (output_names n (indicator_of sp))" if "spec_compute sp n m = Some r" for m r
    using that
    by (cases sp) (auto simp: named_outputs_def output_names_def indicator_of_def macd_indicator_def
        stochastic_indicator_def adx_indicator_def donchian_indicator_def Let_def
        split: bind_splits if_splits prod.splits)
  moreover have "n \<in> set (output_names n (indicator_of sp))"
    by (cases sp) (auto simp: output_names_def indicator_of_def)
  ultimately show ?thesis by (simp add: names_outputs_def) (simp add: indicator_of_def)
qed

section \<open>The resolution does not look ahead\<close>

text \<open>\<open>dataLen\<close> of truncated data, as when all columns have the same length.\<close>

definition length_truncates :: "(series_map \<Rightarrow> nat) \<Rightarrow> nat \<Rightarrow> bool" where
  "length_truncates len k \<longleftrightarrow> (\<forall>m. len (upto_bar k m) = min k (len m))"

lemma upto_bar_None [simp]: "upto_bar k m x = None \<longleftrightarrow> m x = None"
  by (simp add: upto_bar_def)

lemma upto_bar_at: "upto_bar k m x = map_option (take k) (m x)"
  by (simp add: upto_bar_def)

lemma upto_bar_upd: "upto_bar k (m(x \<mapsto> c)) = (upto_bar k m)(x \<mapsto> take k c)"
  by (auto simp: upto_bar_def)

lemma available_upto:
  "available (\<lambda>n d. map_option (take k) (seen n d)) level (upto_bar k data) n d
     = map_option (take k) (available seen level data n d)"
  by (simp add: available_def upto_bar_def split: option.split)

lemma gather_inputs_upto:
  assumes "length_truncates len k"
  shows "gather_inputs len (\<lambda>n d. map_option (take k) (seen n d)) level (upto_bar k data) n ind
    = upto_bar k (gather_inputs len seen level data n ind)"
proof
  fix d
  have "len (upto_bar k data) = min k (len data)" using assms by (simp add: length_truncates_def)
  then show "gather_inputs len (\<lambda>n d. map_option (take k) (seen n d)) level (upto_bar k data) n ind d
      = upto_bar k (gather_inputs len seen level data n ind) d"
    unfolding upto_bar_at [of k "gather_inputs len seen level data n ind"]
    by (simp add: gather_inputs_at available_upto split: option.split)
qed

definition truncated_results :: "nat \<Rightarrow> (string \<times> computed option) list \<Rightarrow> (string \<times> computed option) list" where
  "truncated_results k = map (map_prod id (map_option (truncated k)))"

lemma level_results_upto:
  assumes "length_truncates len k" "\<forall>(n, ind) \<in> set reg. causal_indicator k n ind"
    and "panicked (level_results len seen reg data level) = []"
  shows "level_results len (\<lambda>n d. map_option (take k) (seen n d)) reg (upto_bar k data) level
    = truncated_results k (level_results len seen reg data level)"
proof -
  have "map_prod id (map_option (truncated k)) (case map_of reg n of None \<Rightarrow> (n, None)
        | Some ind \<Rightarrow> (n, in_compute ind n (gather_inputs len seen level data n ind)))
    = (case map_of reg n of None \<Rightarrow> (n, None)
        | Some ind \<Rightarrow> (n, in_compute ind n (upto_bar k (gather_inputs len seen level data n ind))))"
    if n: "n \<in> set level" for n
  proof (cases "map_of reg n")
    case (Some ind)
    then have "causal_indicator k n ind" using assms(2) map_of_SomeD by fastforce
    moreover obtain r where "in_compute ind n (gather_inputs len seen level data n ind) = Some r"
      using assms(3) n Some by (force simp: panicked_def level_results_def filter_empty_conv)
    ultimately show ?thesis using Some by (simp add: causal_indicator_def)
  qed simp
  then show ?thesis
    unfolding level_results_def truncated_results_def map_map comp_def gather_inputs_upto [OF assms(1)]
    by (intro map_cong) auto
qed

lemma sort_key_map: "(\<And>x. f (g x) = f x) \<Longrightarrow> sort_key f (map g xs) = map g (sort_key f xs)"
proof (induction xs)
  case (Cons x xs)
  have "insort_key f (g x) (map g ys) = map g (insort_key f x ys)" for ys
    using Cons.prems by (induction ys) auto
  then show ?case using Cons by simp
qed simp

lemma merge_upto:
  "merge_multi (truncated_results k rs) (merge_single (truncated_results k rs) (upto_bar k data))
     = upto_bar k (merge_multi rs (merge_single rs data))"
proof -
  have s: "merge_single (truncated_results k rs) (upto_bar k m) = upto_bar k (merge_single rs m)" for m
    by (induction rs arbitrary: m)
       (auto simp: merge_single_def truncated_results_def truncated_def upto_bar_upd [symmetric]
        split: option.split computed.split)
  have f: "foldl (\<lambda>m (x, c). m(x \<mapsto> c)) (upto_bar k m) (map (map_prod id (take k)) xs)
      = upto_bar k (foldl (\<lambda>m (x, c). m(x \<mapsto> c)) m xs)" for m xs
    by (induction xs arbitrary: m) (auto simp: upto_bar_upd [symmetric])
  have "merge_multi (truncated_results k rs) (upto_bar k m) = upto_bar k (merge_multi rs m)" for m
    by (induction rs arbitrary: m)
       (auto simp: merge_multi_def truncated_results_def truncated_def sort_key_map f
        split: option.split computed.split)
  then show ?thesis by (simp add: s)
qed

lemma panicked_truncated: "panicked (truncated_results k rs) = panicked rs"
  by (induction rs) (auto simp: panicked_def truncated_results_def)

lemma run_levels_upto:
  assumes "length_truncates len k" "\<forall>(n, ind) \<in> set reg. causal_indicator k n ind"
    and "run_levels j len seen reg g q cnt data = Inr data'"
  shows "run_levels j len (\<lambda>j n d. map_option (take k) (seen j n d)) reg g q cnt (upto_bar k data)
    = Inr (upto_bar k data')"
  using assms(3)
proof (induction j arbitrary: g q cnt data)
  case (0 g q cnt data)
  then show ?case by (simp add: run_levels.simps split: if_splits)
next
  case (Suc j g q cnt data)
  show ?case
  proof (cases "q = []")
    case True
    then show ?thesis using Suc.prems by (simp add: run_levels_Nil split: if_splits)
  next
    case False
    obtain g' q' where r: "release_level (sort q) g = (g', q')" by fastforce
    let ?rs = "level_results len (seen (Suc j)) reg data (sort q)"
    have p: "panicked ?rs = []"
      and run: "run_levels j len seen reg g' q' (cnt + length q) (merge_multi ?rs (merge_single ?rs data)) = Inr data'"
      using Suc.prems unfolding run_levels_step [OF False r] Let_def by (auto split: if_splits)
    show ?thesis
      unfolding run_levels_step [OF False r] level_results_upto [OF assms(1,2) p]
      using Suc.IH [OF run] p by (simp add: Let_def merge_upto panicked_truncated)
  qed
qed

lemma resolve_upto:
  assumes "length_truncates len k" "\<forall>(n, ind) \<in> set reg. causal_indicator k n ind"
    and "resolve_indicators len seen reg data = Inr data'"
  shows "resolve_indicators len (\<lambda>j n d. map_option (take k) (seen j n d)) reg (upto_bar k data)
    = Inr (upto_bar k data')"
proof -
  have v: "validate_outputs reg (upto_bar k data) = validate_outputs reg data"
    by (simp add: validate_outputs_def)
  have a: "add_deps reg (upto_bar k data) n ds g = add_deps reg data n ds g" for n ds g
    by (induction ds arbitrary: g) auto
  have b: "build_graph reg (upto_bar k data) r g = build_graph reg data r g" for r g
    by (induction r arbitrary: g) (auto simp: a split: sum.split)
  show ?thesis using assms(3) run_levels_upto [OF assms(1,2)]
    by (auto simp: resolve_indicators_def v b split: sum.splits)
qed

end
