(* ===== verification/Bt_Indicator_Props.thy ===== *)
theory Bt_Indicator_Props
  imports Bt_Indicator_Causal
begin

text \<open>
  The properties of the indicators: the resolution ends and reports cycles, its result does not
  depend on the order of a map or on the interleaving of goroutines, it solves the equations of
  the indicators and it does not look ahead.
\<close>

section \<open>An example\<close>

text \<open>The indicators the golden cross registers, with short periods.\<close>

definition ex_reg :: registered where
  "ex_reg = [(''sma_fast'', indicator_of (SMA ''close'' 2)), (''sma_slow'', indicator_of (SMA ''close'' 3)),
     (''buy_signal'', indicator_of (Cross ''sma_fast'' ''sma_slow'' True))]"

definition ex_raw :: series_map where
  "ex_raw = [''close'' \<mapsto> [FFin 4, FFin 3, FFin 2, FFin 3, FFin 5]]"

definition column_length :: "string \<Rightarrow> series_map \<Rightarrow> nat" where
  "column_length name m = (case m name of Some col \<Rightarrow> length col | None \<Rightarrow> 0)"

definition ex_resolved :: "(string \<Rightarrow> string \<Rightarrow> f64 list option) \<Rightarrow> registered \<Rightarrow> resolve_error + series_map" where
  "ex_resolved seen reg = resolve_indicators (column_length ''close'') (\<lambda>_. seen) reg ex_raw"

lemma ex_buy_signal:
  "case ex_resolved (\<lambda>_ _. None) ex_reg of Inl _ \<Rightarrow> False | Inr d \<Rightarrow> d ''buy_signal'' = Some [0, 0, 0, 0, 1]"
  by code_simp

lemma ex_distinct: "distinct (map fst ex_reg)"
  by code_simp

lemma ex_library: "\<forall>(n, ind) \<in> set ex_reg. \<exists>sp. ind = indicator_of sp"
  by (auto simp: ex_reg_def)

section \<open>The properties\<close>



text \<open>
  C24. The resolution always ends within its levels. It reports a cycle only when some indicators
  wait for each other, and it gives no result when some do.
\<close>

theorem resolve_reports_cycles:
  assumes "distinct (map fst reg)"
  shows "resolve_indicators len seen reg data \<noteq> Inl LevelsExhausted
    \<and> (\<forall>a b. resolve_indicators len seen reg data = Inl (DependencyCycle a b)
         \<longrightarrow> a < b \<and> (\<exists>S. deadlocked reg S))
    \<and> ((\<exists>S. deadlocked reg S) \<longrightarrow> (\<forall>data'. resolve_indicators len seen reg data \<noteq> Inr data'))"
proof (cases "validate_outputs reg data")
  case (Inl e)
  have "claim_outputs n xs o1 = Inl e1 \<Longrightarrow> \<exists>a b c. e1 = OutputConflict a b c" for n xs and o1 :: "string \<Rightarrow> string option" and e1
    by (induction xs arbitrary: o1) (auto split: option.splits)
  then have "claim_all r o1 = Inl e1 \<Longrightarrow> \<exists>a b c. e1 = OutputConflict a b c" for r o1 e1
    by (induction r arbitrary: o1) (auto split: sum.splits)
  then have "\<exists>a b c. e = OutputConflict a b c" using Inl by (simp add: validate_outputs_def)
  then show ?thesis using Inl by (auto simp: resolve_indicators_def)
next
  case (Inr owners)
  show ?thesis
  proof (cases "build_graph reg data reg empty_graph")
    case b: (Inl e)
    then show ?thesis using Inr build_graph_Inl [OF b] by (auto simp: resolve_indicators_def)
  next
    case b: (Inr g)
    have "card (reg_names reg - {}) \<le> length reg" by (simp add: card_image_le [THEN order_trans] card_length)
    note e = run_levels_end [OF level_inv_start [OF b assms] assms this, of len seen data]
    show ?thesis using e by (simp add: resolve_indicators_def Inr b)
  qed
qed

definition ex_cycle :: registered where
  "ex_cycle = [(''a'', indicator_of (EMA ''b'' 2)), (''b'', indicator_of (EMA ''a'' 2)),
     (''c'', indicator_of (EMA ''close'' 2))]"

theorem resolve_reports_cycles_witness:
  "ex_resolved (\<lambda>_ _. None) ex_cycle = Inl (DependencyCycle 1 3)
    \<and> (\<forall>data. ex_resolved (\<lambda>_ _. None) ex_cycle \<noteq> Inr data)"
proof -
  have "deadlocked ex_cycle {''a'', ''b''}"
    by (auto simp: deadlocked_def depends_def ex_cycle_def indicator_of_def)
  moreover have "distinct (map fst ex_cycle)" by code_simp
  moreover have "case ex_resolved (\<lambda>_ _. None) ex_cycle of Inl (DependencyCycle a b) \<Rightarrow> a = 1 \<and> b = 3 | _ \<Rightarrow> False"
    by code_simp
  ultimately show ?thesis
    using resolve_reports_cycles [of ex_cycle "column_length ''close''" "\<lambda>_ _ _. None" ex_raw]
    by (auto simp: ex_resolved_def split: sum.splits resolve_error.splits)
qed



text \<open>
  C19. Preparing the data does not look ahead: for a registry of indicators of the library, what
  the resolution computes from data that ends after \<open>k\<close> bars is the first \<open>k\<close> bars of what it
  computes from all data, under any two interleavings of the goroutines.
\<close>

theorem preparation_causal:
  assumes "distinct (map fst reg)" "\<forall>(n, ind) \<in> set reg. \<exists>sp. ind = indicator_of sp"
    and "0 < k" "length_truncates len k"
    and "resolve_indicators len seen reg data = Inr data'"
  shows "resolve_indicators len seen' reg (upto_bar k data) = Inr (upto_bar k data')"
proof -
  have "\<forall>(n, ind) \<in> set reg. causal_indicator k n ind"
    using assms(2) library_causal [OF assms(3)] by fastforce
  from resolve_upto [OF assms(4) this assms(5)] show ?thesis
    using resolve_any_schedule [OF assms(1) refl, of len "\<lambda>j n d. map_option (take k) (seen j n d)"
        "upto_bar k data" seen'] by auto
qed

lemma column_length_truncates: "length_truncates (column_length name) k"
  by (simp add: length_truncates_def column_length_def upto_bar_def min.commute split: option.split)

theorem preparation_causal_witness:
  "\<exists>data. resolve_indicators (column_length ''close'') (\<lambda>_ _ _. Some [])
       ex_reg (upto_bar 4 ex_raw) = Inr (upto_bar 4 data)
     \<and> data ''buy_signal'' = Some [0, 0, 0, 0, 1]"
proof -
  obtain data where d: "ex_resolved (\<lambda>_ _. None) ex_reg = Inr data" "data ''buy_signal'' = Some [0, 0, 0, 0, 1]"
    using ex_buy_signal by (auto split: sum.splits)
  then show ?thesis
    using preparation_causal [OF ex_distinct ex_library, of 4 "column_length ''close''"] column_length_truncates
    by (auto simp: ex_resolved_def)
qed

end
