(* ===== verification/Bt_Engine_Props.thy ===== *)
theory Bt_Engine_Props
  imports Bt_Engine_Laws Bt_Replay_Props
begin

text \<open>
  What a whole backtest promises, whatever the strategy: its books agree with its trades, no leg is
  lost or changed after it is closed, scheduled actions run once, expired legs are closed.
\<close>

section \<open>The books of a backtest\<close>

text \<open>
  C5. At every bar of a backtest of a strategy that acts through the commands of its context, the
  positions and entries of the broker are exactly what its trades add up to, the trades are
  numbered from 1, and every spread that was ever opened is in exactly one of the lists of open and
  of closed spreads, in the second only if all its legs are closed.
\<close>

theorem replay_books:
  assumes "acts_by_commands ev on_bar"
    and "en = rp_engine (replay_bars ev pricing refs on_bar pd (start_replay cfg policy s) n)"
  shows "br_positions (en_broker en) = replay_positions (br_trades (en_broker en))
    \<and> br_entries (en_broker en) = replay_entries (br_trades (en_broker en))
    \<and> map t_id (br_trades (en_broker en)) = map int [1..<Suc (length (br_trades (en_broker en)))]
    \<and> distinct (all_spreads (en_spreads en))
    \<and> set (all_spreads (en_spreads en)) = {1..<st_next (en_spreads en)}
    \<and> (\<forall>sid \<in> set (st_closed (en_spreads en)). \<exists>sp. st_map (en_spreads en) sid = Some sp \<and> fully_closed sp)"
proof -
  have r: "runs ev (rp_engine (start_replay cfg policy s)) en"
    unfolding assms(2) by (rule runs_replay_bars [OF assms(1)])
  have b: "reachable (tc_fold (ev_case ev)) cfg (en_broker en)"
    by (rule books.run_keeps [OF r]) (simp add: start_replay_engine reachable_new)
  have "tracker_ok (en_spreads en)"
    using spreads.run_rel [OF r] tracker_ok_new by (simp add: start_replay_engine sound_step_def)
  note t = tracker_ok_books [OF this]
  show ?thesis
    using replay.reachable_invariant [OF b] numbering.reachable_invariant [OF b] t
    by (simp add: log_replays_def trades_numbered_def)
qed

section \<open>Closed legs are final\<close>

text \<open>
  C14. From one bar of a backtest to any later bar, a leg keeps its place in its spread and its
  entry (side, quantity, price, commission, time, notes), and a leg that is closed does not change
  at all: it is never closed again, reopened or dropped.
\<close>

theorem closed_legs_final:
  assumes "acts_by_commands ev on_bar" "n \<le> k"
    and "run = (\<lambda>j. en_spreads (rp_engine (replay_bars ev pricing refs on_bar pd (start_replay cfg policy s) j)))"
    and "leg_at (run n) sid i = Some l"
  shows "\<exists>l'. leg_at (run k) sid i = Some l' \<and> leg_entry l' = leg_entry l \<and> (lg_closed l \<longrightarrow> l' = l)"
proof -
  let ?rp = "start_replay cfg policy s"
  have "[0..<k] = [0..<n] @ [n..<k]" using assms(2) by (metis le0 le_add_diff_inverse upt_add_eq_append)
  then have "replay_bars ev pricing refs on_bar pd ?rp k
      = foldl (replay_bar ev pricing refs on_bar pd) (replay_bars ev pricing refs on_bar pd ?rp n) [n..<k]"
    by (simp add: replay_bars_def)
  moreover have "runs ev (rp_engine rp) (rp_engine (foldl (replay_bar ev pricing refs on_bar pd) rp xs))" for rp xs
  proof (induction xs arbitrary: rp)
    case (Cons x xs)
    then show ?case using runs_then [OF runs_replay_bar [OF assms(1)] Cons.IH] by simp
  qed simp
  ultimately have "runs ev (rp_engine (replay_bars ev pricing refs on_bar pd ?rp n))
      (rp_engine (replay_bars ev pricing refs on_bar pd ?rp k))" by simp
  then have "sound_step (run n) (run k)" unfolding assms(3) by (rule spreads.run_rel)
  moreover have "sound_step new_spread_tracker (run n)"
    using spreads.run_rel [OF runs_replay_bars [OF assms(1), of ?rp]] unfolding assms(3)
    by (simp add: start_replay_engine)
  ultimately have "keeps_legs (run n) (run k)" using tracker_ok_new by (simp add: sound_step_def)
  then show ?thesis using assms(4) by (auto simp: keeps_legs_def keeps_leg_def)
qed

section \<open>Scheduled actions\<close>

lemma commands_clock [simp]:
  "en_bar (adjust amount en) = en_bar en" "en_time (adjust amount en) = en_time en"
  "en_bar (open_leg_cash ev en l) = en_bar en" "en_time (open_leg_cash ev en l) = en_time en"
  "en_bar (close_leg_cash ev l price en) = en_bar en" "en_time (close_leg_cash ev l price en) = en_time en"
  by (simp_all add: adjust_def open_leg_cash_def close_leg_cash_def Let_def)

lemma open_cash_clock [simp]: "en_bar (open_cash ev ls en) = en_bar en" "en_time (open_cash ev ls en) = en_time en"
  unfolding open_cash_def by (induction ls arbitrary: en) auto

lemma open_spread_clock [simp]:
  "en_bar (snd (open_spread ev legs tag ref en)) = en_bar en"
  "en_time (snd (open_spread ev legs tag ref en)) = en_time en"
  "en_bar (snd (open_spread_in_group ev legs tag ref gid en)) = en_bar en"
  "en_time (snd (open_spread_in_group ev legs tag ref gid en)) = en_time en"
  by (simp_all add: open_spread_def open_spread_in_group_def Let_def case_prod_unfold)

lemma close_spread_leg_clock [simp]:
  "en_bar (snd (close_spread_leg ev sid i price reason data en)) = en_bar en"
  "en_time (snd (close_spread_leg ev sid i price reason data en)) = en_time en"
  by (auto simp: close_spread_leg_def Let_def case_prod_unfold split: option.split)

lemma close_scheduled_clock [simp]:
  "en_bar (close_scheduled_leg ev m pricing a i en l) = en_bar en"
  "en_time (close_scheduled_leg ev m pricing a i en l) = en_time en"
  "en_bar (close_scheduled_nth ev m pricing a en k) = en_bar en"
  "en_time (close_scheduled_nth ev m pricing a en k) = en_time en"
  by (auto simp: close_scheduled_leg_def close_scheduled_nth_def Let_def case_prod_unfold split: option.split)

lemma close_scheduled_all_clock [simp]:
  "en_bar (foldl (close_scheduled_nth ev m pricing a) en ks) = en_bar en"
  "en_time (foldl (close_scheduled_nth ev m pricing a) en ks) = en_time en"
  by (induction ks arbitrary: en) auto

lemma run_action_clock:
  "en_bar (fst (run_action ev m pricing a st)) = en_bar (fst st)"
  "en_time (fst (run_action ev m pricing a st)) = en_time (fst st)"
  by (auto simp: run_action_def open_scheduled_def Let_def case_prod_unfold
      split: action_type.split option.split sum.split)

lemma process_actions_filter:
  fixes en :: engine
  assumes "fires = (\<lambda>a. action_due (en_bar en) (en_time en) a \<and> triggered_by_bar a opn high low)"
  shows "process_actions ev m pricing (opn, high, low) as rest (en, vl)
    = (let (en', vl') = foldl (\<lambda>st a. run_action ev m pricing a st) (en, vl) (filter fires as)
       in (en'\<lparr>en_actions := rest @ filter (\<lambda>a. \<not> fires a) as\<rparr>, vl'))"
  using assms
proof (induction as arbitrary: rest en vl)
  case (Cons a as)
  show ?case
  proof (cases "fires a")
    case True
    obtain en' vl' where r: "run_action ev m pricing a (en, vl) = (en', vl')" by fastforce
    have "fires = (\<lambda>a. action_due (en_bar en') (en_time en') a \<and> triggered_by_bar a opn high low)"
      using run_action_clock [of ev m pricing a "(en, vl)"] r Cons.prems by simp
    from Cons.IH [OF this] show ?thesis using True r Cons.prems by simp
  next
    case False
    then have "process_actions ev m pricing (opn, high, low) (a # as) rest (en, vl)
        = process_actions ev m pricing (opn, high, low) as (rest @ [a]) (en, vl)"
      using Cons.prems by auto
    then show ?thesis using Cons.IH [OF Cons.prems, of "rest @ [a]"] False by simp
  qed
qed simp

text \<open>
  C28. The actions scheduled for a bar are settled exactly: those that are due and whose price the
  bar reaches run once each, in the order in which they were scheduled, and the others, in the same
  order, are what remains scheduled. Which ones run is decided by the bar alone, not by what the
  earlier ones did.
\<close>

theorem scheduled_actions_settle:
  "process_actions ev m pricing (opn, high, low) as [] (en, vl)
    = (let fires = (\<lambda>a. action_due (en_bar en) (en_time en) a \<and> triggered_by_bar a opn high low);
           (en', vl') = foldl (\<lambda>st a. run_action ev m pricing a st) (en, vl) (filter fires as)
       in (en'\<lparr>en_actions := filter (\<lambda>a. \<not> fires a) as\<rparr>, vl'))"
  using process_actions_filter [OF refl, where rest = "[]"] by (simp add: Let_def)

section \<open>Expired legs are closed\<close>

definition leg_done :: "engine \<Rightarrow> int \<Rightarrow> nat \<Rightarrow> bool" where
  "leg_done en sid i = (case leg_at (en_spreads en) sid i of None \<Rightarrow> True | Some l \<Rightarrow> \<not> leg_expired (en_time en) l)"

definition expired_spreads :: "engine \<Rightarrow> int set" where
  "expired_spreads en = {sid. \<exists>sp. st_map (en_spreads en) sid = Some sp
     \<and> (\<exists>l \<in> set (sp_legs sp). leg_expired (en_time en) l)}"

lemma leg_done_iff:
  "leg_done en sid i \<longleftrightarrow> (\<forall>sp. st_map (en_spreads en) sid = Some sp \<longrightarrow> i < length (sp_legs sp) \<longrightarrow>
     \<not> leg_expired (en_time en) (sp_legs sp ! i))"
  by (auto simp: leg_done_def leg_at_def split: option.split)

lemma expired_spreads_alt: "expired_spreads en = {sid. \<exists>i. \<not> leg_done en sid i}"
  by (auto simp: expired_spreads_def leg_done_iff in_set_conv_nth) (metis nth_mem)

lemma close_spread_leg_effect:
  assumes "st_map (en_spreads en) sid = Some sp" "i < length (sp_legs sp)" "\<not> lg_closed (sp_legs sp ! i)"
  shows "\<exists>l'. lg_closed l' \<and> st_map (en_spreads (snd (close_spread_leg ev sid (int i) price reason data en)))
    = (st_map (en_spreads en))(sid \<mapsto> sp\<lparr>sp_legs := (sp_legs sp)[i := l']\<rparr>)"
  using assms
  by (auto simp: close_spread_leg_def close_leg_full_def Let_def case_prod_unfold close_leg_def intro!: exI)

lemma force_close_leg_effect:
  assumes "st_map (en_spreads (fst st)) sid = Some sp" "i < length (sp_legs sp)"
  obtains l' where "st_map (en_spreads (fst (force_close_leg ev m pricing sid st i)))
      = (st_map (en_spreads (fst st)))(sid \<mapsto> sp\<lparr>sp_legs := (sp_legs sp)[i := l']\<rparr>)"
    "l' = sp_legs sp ! i \<or> lg_closed l'" "\<not> leg_expired (en_time (fst st)) l'"
proof (cases "leg_expired (en_time (fst st)) (sp_legs sp ! i)")
  case True
  then have open_leg: "\<not> lg_closed (sp_legs sp ! i)" by (simp add: leg_expired_def)
  note e = close_spread_leg_effect [OF assms this]
  show thesis
  proof (rule ccontr)
    assume n: "\<not> thesis"
    obtain price reason data where "fst (force_close_leg ev m pricing sid st i)
        = snd (close_spread_leg ev sid (int i) price reason data (fst st))"
      using assms True by (auto simp: force_close_leg_def Let_def case_prod_unfold)
    then show False using e [of ev price reason data] n that by (auto simp: leg_expired_def)
  qed
next
  case False
  then have "fst (force_close_leg ev m pricing sid st i) = fst st"
    using assms by (simp add: force_close_leg_def Let_def case_prod_unfold)
  then show thesis using that [of "sp_legs sp ! i"] False assms by (simp add: fun_upd_idem)
qed

lemma force_close_leg_time [simp]:
  "en_time (fst (force_close_leg ev m pricing sid st i)) = en_time (fst st)"
  by (auto simp: force_close_leg_def Let_def case_prod_unfold split: option.split)

abbreviation leg_count :: "engine \<Rightarrow> int \<Rightarrow> nat option" where
  "leg_count en sid \<equiv> map_option (\<lambda>sp. length (sp_legs sp)) (st_map (en_spreads en) sid)"

text \<open>A part of the pass: the legs that are done stay done, and it adds no leg.\<close>

definition settles_legs :: "engine \<Rightarrow> engine \<Rightarrow> bool" where
  "settles_legs en en' \<longleftrightarrow> en_time en' = en_time en \<and> (\<forall>n. leg_count en' n = leg_count en n)
     \<and> (\<forall>n j. leg_done en n j \<longrightarrow> leg_done en' n j)"

lemma settles_legs_refl [simp]: "settles_legs en en"
  by (simp add: settles_legs_def)

lemma settles_legs_trans: "settles_legs en en' \<Longrightarrow> settles_legs en' en'' \<Longrightarrow> settles_legs en en''"
  by (simp add: settles_legs_def)

lemma settles_legs_foldl:
  assumes "\<And>st x. x \<in> set xs \<Longrightarrow> settles_legs en (fst st) \<Longrightarrow> settles_legs (fst st) (fst (f st x))"
  shows "settles_legs en (fst st) \<Longrightarrow> settles_legs en (fst (foldl f st xs))"
  using assms
proof (induction xs arbitrary: st)
  case (Cons x xs)
  have "settles_legs en (fst (f st x))"
    using settles_legs_trans [OF Cons.prems(1) Cons.prems(2)] Cons.prems(1) by simp
  then show ?case using Cons.IH [of "f st x"] Cons.prems(2) by simp
qed simp

lemma force_close_leg_settles:
  assumes "st_map (en_spreads (fst st)) sid = Some sp" "i < length (sp_legs sp)"
  shows "settles_legs (fst st) (fst (force_close_leg ev m pricing sid st i))
    \<and> leg_done (fst (force_close_leg ev m pricing sid st i)) sid i"
  by (rule force_close_leg_effect [OF assms, of ev m pricing])
    (use assms in \<open>auto simp: settles_legs_def leg_done_iff nth_list_update leg_expired_def fun_eq_iff\<close>)

lemma settles_legs_spread:
  assumes "settles_legs en en'" "st_map (en_spreads en) sid = Some sp"
  obtains sp' where "st_map (en_spreads en') sid = Some sp'" "length (sp_legs sp') = length (sp_legs sp)"
proof -
  have "leg_count en' sid = Some (length (sp_legs sp))" using assms unfolding settles_legs_def by simp
  then show thesis using that by (cases "st_map (en_spreads en') sid") auto
qed

lemma force_close_spread_settles:
  "settles_legs (fst st) (fst (force_close_spread ev m pricing sid st))
    \<and> (\<forall>i. leg_done (fst (force_close_spread ev m pricing sid st)) sid i)"
proof (cases "st_map (en_spreads (fst st)) sid")
  case None
  then show ?thesis by (simp add: force_close_spread_def leg_done_iff)
next
  case (Some sp)
  let ?f = "force_close_leg ev m pricing sid"
  have "settles_legs (fst st) (fst (foldl ?f st [0..<k])) \<and> (\<forall>i < k. leg_done (fst (foldl ?f st [0..<k])) sid i)"
    if "k \<le> length (sp_legs sp)" for k
    using that
  proof (induction k)
    case (Suc k)
    let ?st = "foldl ?f st [0..<k]"
    have IH: "settles_legs (fst st) (fst ?st)" "\<forall>i < k. leg_done (fst ?st) sid i" using Suc by simp_all
    obtain sp' where sp': "st_map (en_spreads (fst ?st)) sid = Some sp'" "length (sp_legs sp') = length (sp_legs sp)"
      by (rule settles_legs_spread [OF IH(1) Some])
    then have "settles_legs (fst ?st) (fst (?f ?st k))" "leg_done (fst (?f ?st k)) sid k"
      using force_close_leg_settles [OF sp'(1), of k] Suc.prems by auto
    then show ?case using IH settles_legs_trans by (auto simp: settles_legs_def less_Suc_eq)
  qed simp
  from this [OF order_refl]
  have f: "settles_legs (fst st) (fst (foldl ?f st [0..<length (sp_legs sp)]))"
    "\<forall>i < length (sp_legs sp). leg_done (fst (foldl ?f st [0..<length (sp_legs sp)])) sid i" by blast+
  obtain sp' where "st_map (en_spreads (fst (foldl ?f st [0..<length (sp_legs sp)]))) sid = Some sp'"
    "length (sp_legs sp') = length (sp_legs sp)"
    by (rule settles_legs_spread [OF f(1) Some])
  then have "leg_done (fst (foldl ?f st [0..<length (sp_legs sp)])) sid i" for i
    using f(2) by (cases "i < length (sp_legs sp)") (auto simp: leg_done_iff)
  then show ?thesis using Some f(1) by (simp add: force_close_spread_def)
qed

lemma force_close_spread_idle:
  assumes "\<And>i. leg_done (fst st) sid i"
  shows "force_close_spread ev m pricing sid st = st"
proof (cases "st_map (en_spreads (fst st)) sid")
  case (Some sp)
  have "foldl (force_close_leg ev m pricing sid) st [0..<k] = st" if "k \<le> length (sp_legs sp)" for k
    using that
  proof (induction k)
    case (Suc k)
    then have "\<not> leg_expired (en_time (fst st)) (sp_legs sp ! k)"
      using assms [of k] Some by (simp add: leg_done_iff)
    then show ?case using Suc Some by (cases st) (simp add: force_close_leg_def)
  qed simp
  then show ?thesis using Some by (simp add: force_close_spread_def)
qed (simp add: force_close_spread_def)

lemma force_close_nth_settles: "settles_legs (fst st) (fst (force_close_nth ev m pricing st k))"
  using force_close_spread_settles by (simp add: force_close_nth_def Let_def)

lemma force_close_prefix:
  assumes "\<And>j. j < k \<Longrightarrow> (\<forall>i. leg_done (fst st) (st_open (en_spreads (fst st)) ! j) i)"
    and "k \<le> length (st_open (en_spreads (fst st)))"
  shows "foldl (force_close_nth ev m pricing) st [0..<k] = st"
  using assms
proof (induction k)
  case (Suc k)
  then have "force_close_spread ev m pricing (st_open (en_spreads (fst st)) ! k) st = st"
    by (intro force_close_spread_idle) simp
  then show ?case using Suc by (simp add: force_close_nth_def Let_def nth_append)
qed simp

lemma expired_spreads_open:
  assumes "tracker_ok (en_spreads en)" "sid \<in> expired_spreads en"
  shows "sid \<in> set (st_open (en_spreads en))"
proof -
  obtain sp l where sp: "st_map (en_spreads en) sid = Some sp" "l \<in> set (sp_legs sp)" "\<not> lg_closed l"
    using assms(2) by (auto simp: expired_spreads_def leg_expired_def)
  then have "\<not> fully_closed sp" by (auto simp: fully_closed_def list_all_iff)
  moreover have "sid \<in> set (all_spreads (en_spreads en))"
    using sp(1) assms(1) by (auto simp: tracker_ok_def dom_def set_eq_iff)
  ultimately show ?thesis using assms(1) sp(1)
    by (auto simp: all_spreads_def dest: tracker_ok_fully_closed)
qed

lemma force_close_expired_first:
  assumes "k < length (st_open (en_spreads (fst st)))" "sid = st_open (en_spreads (fst st)) ! k"
    and "\<And>j. j < k \<Longrightarrow> st_open (en_spreads (fst st)) ! j \<notin> expired_spreads (fst st)"
  shows "settles_legs (fst st) (fst (force_close_expired ev m pricing st))
    \<and> (\<forall>i. leg_done (fst (force_close_expired ev m pricing st)) sid i)"
proof -
  let ?n = "length (st_open (en_spreads (fst st)))" and ?f = "force_close_nth ev m pricing"
  have "[0..<?n] = [0..<k] @ k # [Suc k..<?n]"
    using assms(1) upt_add_eq_append [of 0 k "?n - k"] by (simp add: upt_conv_Cons)
  moreover have "foldl ?f st [0..<k] = st"
    using assms(1,3) by (intro force_close_prefix) (auto simp: expired_spreads_alt)
  ultimately have e: "force_close_expired ev m pricing st = foldl ?f (?f st k) [Suc k..<?n]"
    by (simp add: force_close_expired_def numeral_2_eq_2)
  have k: "settles_legs (fst st) (fst (?f st k))" "\<forall>i. leg_done (fst (?f st k)) sid i"
    using force_close_spread_settles [of st ev m pricing sid] assms(1,2)
    by (simp_all add: force_close_nth_def Let_def nth_append)
  have "settles_legs (fst (?f st k)) (fst (foldl ?f (?f st k) [Suc k..<?n]))"
    by (intro settles_legs_foldl force_close_nth_settles) simp
  then show ?thesis using k settles_legs_trans unfolding e by (auto simp: settles_legs_def)
qed

text \<open>
  C27. Expired legs get closed: as long as some leg has expired and is open, every pass of
  \<open>forceCloseExpiredOptionLegs\<close> leaves strictly fewer spreads with such legs, at an unchanged time.
  So after as many bars as there are open spreads every leg that expired before is closed, although
  a single pass can skip spreads.
\<close>

theorem expired_legs_close:
  assumes "tracker_ok (en_spreads en)" "expired_spreads en \<noteq> {}"
    and "force_close_expired ev m pricing (en, vl) = (en', vl')"
  shows "expired_spreads en' \<subset> expired_spreads en \<and> en_time en' = en_time en"
proof -
  define opened where "opened = st_open (en_spreads en)"
  obtain sid where "sid \<in> expired_spreads en" using assms(2) by blast
  then have "\<exists>k. k < length opened \<and> opened ! k \<in> expired_spreads en"
    using expired_spreads_open [OF assms(1)] by (metis in_set_conv_nth opened_def)
  then obtain k where k: "k < length opened \<and> opened ! k \<in> expired_spreads en"
    "\<And>j. j < k \<Longrightarrow> \<not> (j < length opened \<and> opened ! j \<in> expired_spreads en)"
    using exists_least_iff [of "\<lambda>k. k < length opened \<and> opened ! k \<in> expired_spreads en"] by blast
  have "settles_legs en en'" "\<forall>i. leg_done en' (opened ! k) i"
    using force_close_expired_first [of k "(en, vl)" "opened ! k" ev m pricing] k assms(3)
    by (auto simp: opened_def)
  then have "expired_spreads en' \<subseteq> expired_spreads en" "opened ! k \<notin> expired_spreads en'" "en_time en' = en_time en"
    unfolding settles_legs_def expired_spreads_alt by blast+
  then show ?thesis using k(1) by blast
qed

text \<open>
  A pass does not close everything: of three expired spreads of one leg each it skips the second,
  because closing the first shifts the slice the loop ranges over.
\<close>

lemma force_close_single:
  assumes "st_map (en_spreads (fst st)) sid = Some sp" "sp_legs sp = [l]" "leg_expired (en_time (fst st)) l"
  shows "\<exists>l'. lg_closed l' \<and> en_time (fst (force_close_spread ev m pricing sid st)) = en_time (fst st)
    \<and> en_spreads (fst (force_close_spread ev m pricing sid st))
      = archive_if_closed sid (set_legs sid sp [l'] (en_spreads (fst st)))"
proof -
  have "\<not> lg_closed l" using assms(3) by (simp add: leg_expired_def)
  then show ?thesis using assms
    by (auto simp: force_close_spread_def force_close_leg_def close_spread_leg_def close_leg_full_def
        close_leg_def Let_def case_prod_unfold intro!: exI)
qed

lemma one_pass_skips:
  assumes "st_open (en_spreads en) = [a, b, c]" "st_spare (en_spreads en) = []" "distinct [a, b, c]"
    and "\<And>sid. sid \<in> {a, b, c} \<Longrightarrow> \<exists>sp l. st_map (en_spreads en) sid = Some sp \<and> sp_legs sp = [l] \<and> leg_expired (en_time en) l"
  shows "st_open (en_spreads (fst (force_close_expired ev m pricing (en, vl)))) = [b]"
proof -
  let ?f = "force_close_nth ev m pricing"
  obtain pa la pc lc where sp: "st_map (en_spreads en) a = Some pa" "sp_legs pa = [la]" "leg_expired (en_time en) la"
    "st_map (en_spreads en) c = Some pc" "sp_legs pc = [lc]" "leg_expired (en_time en) lc"
    using assms(4) [of a] assms(4) [of c] by auto
  obtain l1 where 1: "lg_closed l1" "en_time (fst (?f (en, vl) 0)) = en_time en"
    "en_spreads (fst (?f (en, vl) 0)) = archive_if_closed a (set_legs a pa [l1] (en_spreads en))"
    using force_close_single [of "(en, vl)" a pa la ev m pricing] sp assms(1)
    by (auto simp: force_close_nth_def Let_def)
  then have e1: "st_open (en_spreads (fst (?f (en, vl) 0))) = [b, c]" "st_spare (en_spreads (fst (?f (en, vl) 0))) = [c]"
    "st_map (en_spreads (fst (?f (en, vl) 0))) c = Some pc"
    using assms(1-3) sp by (auto simp: archive_if_closed_def fully_closed_def)
  let ?s = "?f (en, vl) 0"
  obtain l2 where 2: "lg_closed l2" "en_spreads (fst (?f ?s 1)) = archive_if_closed c (set_legs c pc [l2] (en_spreads (fst ?s)))"
    using force_close_single [of ?s c pc lc ev m pricing] sp e1 1(2)
    by (auto simp: force_close_nth_def Let_def)
  then have e2: "st_open (en_spreads (fst (?f ?s 1))) = [b]" "st_spare (en_spreads (fst (?f ?s 1))) = [c, c]"
    "st_map (en_spreads (fst (?f ?s 1))) c = Some (pc\<lparr>sp_legs := [l2]\<rparr>)"
    using e1 assms(3) by (auto simp: archive_if_closed_def fully_closed_def)
  have "leg_done (fst (?f ?s 1)) c i" for i
    using e2(3) 2(1) by (auto simp: leg_done_iff leg_expired_def less_Suc_eq_0_disj nth_Cons')
  then have "?f (?f ?s 1) 2 = ?f ?s 1"
    using force_close_spread_idle e2(1,2) by (simp add: force_close_nth_def Let_def)
  moreover have "[0..<3] = [0, 1, 2 :: nat]" by (simp add: upt_rec)
  ultimately show ?thesis using e2(1) assms(1) by (simp add: force_close_expired_def numeral_2_eq_2)
qed

section \<open>The equity of a group\<close>

text \<open>What a group has seen: its baseline and the equities observed since.\<close>

definition observed :: "f64 \<Rightarrow> f64 list \<Rightarrow> equity_state" where
  "observed initial es = foldl (\<lambda>s e. observe initial e s) new_equity_state es"

definition extremes :: "f64 \<Rightarrow> f64 list \<Rightarrow> equity_state \<Rightarrow> bool" where
  "extremes b es s \<longleftrightarrow> eq_init s \<and> eq_high s \<in> set (b # es) \<and> eq_low s \<in> set (b # es)
     \<and> (\<forall>e \<in> set (b # es). e \<le> eq_high s \<and> eq_low s \<le> e) \<and> eq_peak s = eq_high s \<and> 0 \<le> eq_drawdown s"

lemma observe_fields:
  assumes "eq_init s" "eq_peak s = eq_high s"
  shows "eq_init (observe initial e s)" "eq_high (observe initial e s) = (if eq_high s < e then e else eq_high s)"
    "eq_low (observe initial e s) = (if e < eq_low s then e else eq_low s)"
    "eq_peak (observe initial e s) = (if eq_high s < e then e else eq_high s)"
    "eq_drawdown (observe initial e s) = eq_drawdown s \<or> eq_drawdown s < eq_drawdown (observe initial e s)"
  using assms by (auto simp: observe_def Let_def)

lemma observe_extremes:
  assumes "extremes b es s" "\<not> is_nan e" "\<forall>x \<in> set (b # es). \<not> is_nan x"
  shows "extremes b (es @ [e]) (observe initial e s)"
proof -
  note f = observe_fields [of s initial e]
  have s: "eq_init s" "eq_peak s = eq_high s" "\<not> is_nan (eq_high s)" "\<not> is_nan (eq_low s)"
    using assms unfolding extremes_def by blast+
  have "x \<le> eq_high (observe initial e s)" if "x \<in> set (b # es @ [e])" for x
  proof (cases "eq_high s < e")
    case True
    then have "x \<le> e" using that assms unfolding extremes_def
      by (auto intro: f64_le_refl f64_less_imp_le [OF f64_le_less_trans])
    then show ?thesis using True f(2) s by simp
  next
    case False
    then have "e \<le> eq_high s" using f64_not_less assms(2) s(3) by blast
    then show ?thesis using False f(2) s that assms(1) by (auto simp: extremes_def)
  qed
  moreover have "eq_low (observe initial e s) \<le> x" if "x \<in> set (b # es @ [e])" for x
  proof (cases "e < eq_low s")
    case True
    then have "e \<le> x" using that assms unfolding extremes_def
      by (auto intro: f64_le_refl f64_less_imp_le [OF f64_less_le_trans])
    then show ?thesis using True f(3) s by simp
  next
    case False
    then have "eq_low s \<le> e" using f64_not_less assms(2) s(4) by blast
    then show ?thesis using False f(3) s that assms(1) by (auto simp: extremes_def)
  qed
  moreover have "0 \<le> eq_drawdown (observe initial e s)"
    using f(5) [OF s(1,2)] assms(1) unfolding extremes_def
    by (auto intro: f64_less_imp_le [OF f64_le_less_trans])
  ultimately show ?thesis using f(1-4) [OF s(1,2)] assms(1) by (auto simp: extremes_def)
qed

lemma observe_first:
  "observe initial e new_equity_state = observe initial e
     (let b = equity_baseline initial e in \<lparr>eq_init = True, eq_peak = b, eq_high = b, eq_low = b, eq_drawdown = 0\<rparr>)"
  by (simp add: observe_def new_equity_state_def Let_def)

lemma observed_snoc: "observed initial (es @ [e]) = observe initial e (observed initial es)"
  by (simp add: observed_def)

text \<open>
  C37. The equity of a group: after the equities \<open>e\<close>, and so on to the last of \<open>es\<close>, none of them
  NaN, were observed, the recorded highest and lowest equity are the largest and the smallest of
  them and of the baseline (the initial amount, or the first equity when that amount is zero or not
  finite), the peak is the highest, and the recorded drawdown is not negative.
\<close>

theorem group_equity_extremes:
  assumes "\<forall>x \<in> set (e # es). \<not> is_nan x" "b = equity_baseline initial e"
    and "s = observed initial (e # es)"
  shows "eq_high s \<in> set (b # e # es) \<and> eq_low s \<in> set (b # e # es)
    \<and> (\<forall>x \<in> set (b # e # es). x \<le> eq_high s \<and> eq_low s \<le> x) \<and> eq_peak s = eq_high s
    \<and> 0 \<le> eq_drawdown s \<and> equity_snapshot [gid \<mapsto> s] gid = Some (eq_high s, eq_low s, eq_drawdown s)"
proof -
  have b: "\<not> is_nan b" using assms(1,2) by (simp add: equity_baseline_def)
  have "extremes b (e # es) (observed initial (e # es))" if "\<forall>x \<in> set (e # es). \<not> is_nan x" for es
    using that
  proof (induction es rule: rev_induct)
    case Nil
    have "extremes b [] \<lparr>eq_init = True, eq_peak = b, eq_high = b, eq_low = b, eq_drawdown = 0\<rparr>"
      using b by (simp add: extremes_def f64_le_refl zero_f64_def)
    from observe_extremes [OF this, of e initial] Nil b show ?case
      by (simp add: observed_def observe_first assms(2) Let_def)
  next
    case (snoc x es)
    then show ?case using observe_extremes [of b "e # es" "observed initial (e # es)" x initial] b
      observed_snoc [of initial "e # es" x] by simp
  qed
  from this [OF assms(1)] show ?thesis
    unfolding assms(3) extremes_def by (simp add: equity_snapshot_def)
qed

theorem group_equity_extremes_witness:
  "eq_high (observed 0 [FFin 100, FFin 80, FFin 120]) \<in> {FFin 100, FFin 80, FFin 120}
    \<and> FFin 120 \<le> eq_high (observed 0 [FFin 100, FFin 80, FFin 120])"
proof -
  have "\<forall>x \<in> set [FFin 100, FFin 80, FFin 120]. \<not> is_nan x" "FFin 100 = equity_baseline 0 (FFin 100)" by code_simp+
  from group_equity_extremes [OF this refl] show ?thesis by simp
qed

section \<open>Examples\<close>

text \<open>
  Three spreads of one leg each that expired at time 5, and the state of the engine at time 9. The
  quantity of the leg is zero so that the examples evaluate without rounding.
\<close>

definition ex_contract :: contract where
  "ex_contract = \<lparr>oc_symbol = ''C'', oc_underlying = ''BTC'', oc_market = ''deribit'',
     oc_underlying_market = [], oc_type = OptCall, oc_strike = FFin 10, oc_expiration = 5,
     oc_delta = FNaN, oc_bid = FFin 3, oc_ask = FFin 4, oc_mark = FFin 3, oc_iv = 1,
     oc_underlying_price = FFin 12, oc_volume = 1\<rparr>"

definition ex_leg :: leg where
  "ex_leg = \<lparr>lg_contract = ex_contract, lg_side = Buy, lg_qty = 0, lg_entry_price = FFin 4,
     lg_entry_commission = 0, lg_entry_time = 0, lg_entry_data = [], lg_closed = False,
     lg_close_price = 0, lg_close_commission = 0, lg_close_time = 0, lg_close_reason = [], lg_close_data = []\<rparr>"

definition ex_free :: config where
  "ex_free = ex_costs\<lparr>c_commission := CommissionNone\<rparr>"

definition ex_one :: "spread_tracker \<Rightarrow> spread_tracker" where
  "ex_one st = snd (open_full [ex_leg] 0 0 [] [] 0 st)"

definition ex_engine :: engine where
  "ex_engine = \<lparr>en_broker = new_broker ex_free, en_spreads = ex_one (ex_one (ex_one new_spread_tracker)),
     en_groups = new_group_tracker, en_actions = [], en_bar = 1, en_time = 9\<rparr>"

definition ex_pass :: "valued_engine" where
  "ex_pass = force_close_expired ex_plain (\<lambda>_. None) default_spread_pricing (ex_engine, new_valuation [])"

lemma ex_engine_ok: "tracker_ok (en_spreads ex_engine)"
  unfolding ex_engine_def ex_one_def by (simp add: tracker_ok_open tracker_ok_new)

lemma ex_expired: "expired_spreads ex_engine \<noteq> {}"
proof -
  have "\<exists>sp. st_map (en_spreads ex_engine) 1 = Some sp \<and> (\<exists>l \<in> set (sp_legs sp). leg_expired (en_time ex_engine) l)"
    by (simp add: ex_engine_def ex_one_def open_full_def new_spread_tracker_def Let_def leg_expired_def
        ex_leg_def ex_contract_def zero_time_def)
  then show ?thesis unfolding expired_spreads_def by blast
qed

theorem expired_legs_close_witness:
  "expired_spreads (fst ex_pass) \<subset> expired_spreads ex_engine"
proof -
  have "force_close_expired ex_plain (\<lambda>_. None) default_spread_pricing (ex_engine, new_valuation [])
      = (fst ex_pass, snd ex_pass)" by (simp add: ex_pass_def)
  from expired_legs_close [OF ex_engine_ok ex_expired this] show ?thesis by simp
qed

text \<open>A strategy that opens a spread at the first bar and closes its leg at once.\<close>

definition ex_opener :: "nat strategy" where
  "ex_opener v s en =
     (Suc s, if 0 < s then en
             else en\<lparr>en_spreads := snd (close_leg_full 1 0 (FFin 3) 0 0 [] []
                     (en_spreads (en\<lparr>en_spreads := ex_one (en_spreads en)\<rparr>)))\<rparr>)"

lemma ex_opener_acts: "acts_by_commands ex_plain ex_opener"
proof -
  have "runs ex_plain en (snd (ex_opener v s en))" for v s en
  proof (cases "0 < s")
    case False
    have "runs ex_plain en (en\<lparr>en_spreads := ex_one (en_spreads en)\<rparr>)" unfolding ex_one_def by (rule runs_open)
    from runs_then [OF this runs_close_leg] False show ?thesis by (simp add: ex_opener_def)
  qed (simp add: ex_opener_def)
  then show ?thesis by (simp add: acts_by_commands_def)
qed

abbreviation ex_trip :: "nat \<Rightarrow> nat replay" where
  "ex_trip n \<equiv> replay_bars ex_plain default_spread_pricing (\<lambda>_. []) ex_opener (ex_prepared 0)
     (start_replay ex_free [] 0) n"

lemma ex_trip_spreads: "st_closed (en_spreads (rp_engine (ex_trip 1))) = [1]"
  by code_simp

lemma ex_trip_leg: "map_option (\<lambda>l. (lg_closed l, lg_close_price l)) (leg_at (en_spreads (rp_engine (ex_trip 1))) 1 0)
    = Some (True, FFin 3)"
  by code_simp

theorem replay_books_witness:
  "\<exists>sp. st_map (en_spreads (rp_engine (ex_trip 1))) 1 = Some sp \<and> fully_closed sp"
  using replay_books [OF ex_opener_acts refl, of default_spread_pricing "\<lambda>_. []" "ex_prepared 0" ex_free "[]" 0 1]
    ex_trip_spreads by simp

theorem closed_legs_final_witness:
  "\<exists>l. leg_at (en_spreads (rp_engine (ex_trip 3))) 1 0 = Some l \<and> lg_closed l \<and> lg_close_price l = FFin 3"
proof -
  obtain l where l: "leg_at (en_spreads (rp_engine (ex_trip 1))) 1 0 = Some l" "lg_closed l" "lg_close_price l = FFin 3"
    using ex_trip_leg by (auto simp: map_option_eq_Some)
  have "(1 :: nat) \<le> 3" by simp
  from closed_legs_final [OF ex_opener_acts this refl l(1)] l(2,3) show ?thesis by auto
qed

end
