(* ===== verification/Bt_Result.thy ===== *)
theory Bt_Result
  imports Bt_Replay Bt_Prepare Go_Math "HOL-Library.AList"
begin

text \<open>
  The report of a backtest: \<open>internal/backtest/result.go\<close> (the data), \<open>result_stats.go\<close>
  (performance, drawdown, round trips) and \<open>result_stats_spread.go\<close> (spreads and their groups).
  \<open>math.Pow\<close> is the argument \<open>pow\<close>. A time is its instant in nanoseconds. The fields of
  \<open>Result\<close> that callers fill in after a replay (the names of the units and of the capital mode)
  are left out.
\<close>

section \<open>Lengths of time\<close>

definition days_per_year :: f64 where "days_per_year = FFin 365"

definition hours_per_year :: f64 where "hours_per_year = FFin 8760"

definition duration_hours :: "int list \<Rightarrow> int \<Rightarrow> int \<Rightarrow> f64" where
  "duration_hours ts start stop =
     (if start < 0 \<or> stop < 0 \<or> int (length ts) \<le> start \<or> int (length ts) \<le> stop \<or> stop < start then 0
      else hours (time_sub (ts ! nat stop) (ts ! nat start)))"

text \<open>\<open>inferBarsPerYear\<close>: the year over the median time between two bars.\<close>

definition bar_hours :: "int list \<Rightarrow> f64 list" where
  "bar_hours ts = filter (\<lambda>h. 0 < h) (map2 (\<lambda>t u. hours (time_sub u t)) (butlast ts) (tl ts))"

definition infer_bars_per_year :: "int list \<Rightarrow> f64" where
  "infer_bars_per_year ts =
     (let ds = sort_floats (bar_hours ts); n = length ds; mid = n div 2
      in if length ts < 2 \<or> ds = [] then days_per_year
         else hours_per_year /
                (if even n then (ds ! (mid - 1) + ds ! mid) / FFin 2 else ds ! mid))"

section \<open>Returns\<close>

definition bar_return :: "f64 \<times> f64 \<Rightarrow> f64" where
  "bar_return p = (case p of (prev, eq) \<Rightarrow> (eq - prev) / prev)"

text \<open>The pairs of neighbouring values whose first one is not zero.\<close>

definition return_pairs :: "f64 list \<Rightarrow> (f64 \<times> f64) list" where
  "return_pairs es = filter (\<lambda>(prev, eq). \<not> feq prev 0) (zip (butlast es) (tl es))"

definition compute_return_series :: "f64 list \<Rightarrow> f64 list" where
  "compute_return_series es = map bar_return (return_pairs es)"

definition mean_std :: "f64 list \<Rightarrow> f64 \<times> f64" where
  "mean_std xs =
     (let n = length xs; mean = float_sum xs / f64_of_nat n
      in if n = 0 then (0, 0)
         else if n < 2 then (mean, 0)
         else (mean, math_sqrt (float_sum (map (\<lambda>v. (v - mean) * (v - mean)) xs) / f64_of_nat (n - 1))))"

definition sharpe_from_returns :: "f64 list \<Rightarrow> int list \<Rightarrow> f64" where
  "sharpe_from_returns rs ts =
     (let (mean, sd) = mean_std rs
      in if rs = [] \<or> feq sd 0 then 0 else (mean / sd) * math_sqrt (infer_bars_per_year ts))"

definition compute_sharpe :: "f64 list \<Rightarrow> int list \<Rightarrow> f64" where
  "compute_sharpe es ts = sharpe_from_returns (compute_return_series es) ts"

definition compute_annualized_volatility :: "f64 list \<Rightarrow> int list \<Rightarrow> f64" where
  "compute_annualized_volatility es ts =
     (let rs = compute_return_series es; sd = snd (mean_std rs)
      in if rs = [] \<or> feq sd 0 then 0 else sd * math_sqrt (infer_bars_per_year ts))"

definition compute_calmar :: "f64 \<Rightarrow> f64 \<Rightarrow> f64" where
  "compute_calmar annual drawdown =
     (if is_nan annual \<or> is_nan drawdown then FNaN
      else if feq drawdown 0
      then (if 0 < annual then FInf False else if annual < 0 then FInf True else 0)
      else annual / drawdown)"

section \<open>The largest drawdown\<close>

text \<open>
  The loop of \<open>ComputeMaxDrawdown\<close>: the peak so far, where the current fall began, and the
  largest drawdown with its first and its last bar.
\<close>

record drawdown =
  dd_peak :: f64
  dd_start :: int
  dd_max :: f64
  dd_from :: int
  dd_to :: int

definition drawdown_step :: "drawdown \<Rightarrow> int \<times> f64 \<Rightarrow> drawdown" where
  "drawdown_step d p =
     (case p of (i, eq) \<Rightarrow>
        let d = (if dd_peak d < eq then d\<lparr>dd_peak := eq, dd_start := i\<rparr> else d);
            fall = (dd_peak d - eq) / dd_peak d
        in if dd_peak d \<le> 0 \<or> \<not> dd_max d < fall then d
           else d\<lparr>dd_max := fall, dd_from := dd_start d, dd_to := i\<rparr>)"

definition indexed :: "'a list \<Rightarrow> (int \<times> 'a) list" where
  "indexed xs = zip (map int [0..<length xs]) xs"

definition start_drawdown :: "f64 list \<Rightarrow> f64 \<Rightarrow> drawdown" where
  "start_drawdown es capital =
     \<lparr>dd_peak = (if capital \<le> 0 then hd es else capital), dd_start = 0, dd_max = 0, dd_from = 0, dd_to = 0\<rparr>"

definition compute_max_drawdown :: "f64 list \<Rightarrow> f64 \<Rightarrow> f64 \<times> int \<times> int" where
  "compute_max_drawdown es capital =
     (if es = [] then (0, 0, 0)
      else let d = foldl drawdown_step (start_drawdown es capital) (indexed es)
           in (dd_max d, dd_from d, dd_to d))"

section \<open>Performance\<close>

record performance =
  pf_initial :: f64
  pf_final :: f64
  pf_return :: f64
  pf_annual :: f64
  pf_volatility :: f64
  pf_sharpe :: f64
  pf_calmar :: f64
  pf_drawdown :: f64
  pf_from :: int
  pf_to :: int

text \<open>\<open>performanceValueValid\<close> is \<^const>\<open>is_finite\<close>.\<close>

definition sanitize_performance_series :: "f64 list \<Rightarrow> int list \<Rightarrow> f64 list \<times> int list" where
  "sanitize_performance_series curve ts =
     (let ps = filter (\<lambda>(v, t). is_finite v) (zip curve ts) in (map fst ps, map snd ps))"

definition annualized_return :: "(f64 \<Rightarrow> f64 \<Rightarrow> f64) \<Rightarrow> int list \<Rightarrow> f64 \<Rightarrow> f64 \<Rightarrow> f64" where
  "annualized_return pow ts initial final =
     (let years = hours (time_sub (last ts) (hd ts)) / hours_per_year
      in if 1 < length ts \<and> 0 < years \<and> 0 < final \<and> 0 < initial
         then pow (final / initial) (1 / years) - 1 else 0)"

definition compute_performance_snapshot ::
  "(f64 \<Rightarrow> f64 \<Rightarrow> f64) \<Rightarrow> f64 list \<Rightarrow> int list \<Rightarrow> f64 \<Rightarrow> performance option" where
  "compute_performance_snapshot pow curve ts initial =
     (let (vs, us) = sanitize_performance_series curve ts;
          initial = (if \<not> is_finite initial \<or> feq initial 0 then hd vs else initial);
          final = last vs;
          annual = annualized_return pow us initial final;
          (dd, from, stop) = compute_max_drawdown vs initial
      in if vs = [] then None
         else Some \<lparr>pf_initial = initial, pf_final = final,
                    pf_return = (if feq initial 0 then 0 else (final - initial) / initial),
                    pf_annual = annual, pf_volatility = compute_annualized_volatility vs us,
                    pf_sharpe = compute_sharpe vs us, pf_calmar = compute_calmar annual dd,
                    pf_drawdown = dd, pf_from = from, pf_to = stop\<rparr>)"

definition is_usd_like_unit :: "text_case \<Rightarrow> string \<Rightarrow> bool" where
  "is_usd_like_unit tc unit =
     (upper tc (trim_space unit) \<in> {[], ''USD'', ''USDT'', ''USDC'', ''BUSD'', ''FDUSD''})"

text \<open>The account is in a quote currency, or has no unit.\<close>

definition quote_account :: "text_case \<Rightarrow> string \<Rightarrow> bool" where
  "quote_account tc unit = (is_usd_like_unit tc unit \<or> trim_space unit = [])"

text \<open>A positive finite close.\<close>

definition close_usable :: "f64 \<Rightarrow> bool" where
  "close_usable c = (is_finite c \<and> \<not> c \<le> 0)"

definition build_asset_basis_curve ::
  "text_case \<Rightarrow> f64 list \<Rightarrow> int list \<Rightarrow> f64 list \<Rightarrow> f64 \<Rightarrow> string \<Rightarrow> f64 list \<times> int list \<times> f64" where
  "build_asset_basis_curve tc es ts cs capital unit =
     (let rows = filter (\<lambda>(eq, t, c). close_usable c \<and> is_finite eq) (zip es (zip ts cs));
          initial = foldl (\<lambda>init (eq, t, c).
            if feq init 0 then (if quote_account tc unit then capital / c else capital) else init) 0 rows
      in (map (\<lambda>(eq, t, c). if quote_account tc unit then eq / c else eq) rows,
          map (\<lambda>(eq, t, c). t) rows, initial))"

definition build_quote_basis_curve ::
  "text_case \<Rightarrow> f64 list \<Rightarrow> int list \<Rightarrow> f64 list \<Rightarrow> f64 \<Rightarrow> string \<Rightarrow> f64 list \<times> int list \<times> f64" where
  "build_quote_basis_curve tc es ts cs capital unit =
     (let n = min (length es) (min (length ts) (length cs));
          rows = filter (\<lambda>(eq, t, c). is_finite eq \<and> (quote_account tc unit \<or> close_usable c))
                   (zip es (zip ts cs))
      in if n = 0 then ([], [], 0)
         else (map (\<lambda>(eq, t, c). if quote_account tc unit then eq else eq * c) rows,
               map (\<lambda>(eq, t, c). t) rows,
               case rows of
                 (eq, t, c) # _ \<Rightarrow> if quote_account tc unit then capital else capital * c
               | [] \<Rightarrow> capital))"

definition build_buy_hold_quote_curve ::
  "text_case \<Rightarrow> int list \<Rightarrow> f64 list \<Rightarrow> f64 \<Rightarrow> string \<Rightarrow> f64 list \<times> int list \<times> f64" where
  "build_buy_hold_quote_curve tc ts cs capital unit =
     (let rows = filter (\<lambda>(t, c). close_usable c) (zip ts cs)
      in case rows of
           [] \<Rightarrow> ([], [], 0)
         | (t0, entry) # _ \<Rightarrow>
             let initial = (if quote_account tc unit then capital else capital * entry)
             in if \<not> is_finite initial \<or> initial \<le> 0 then ([], [], 0)
                else (map (\<lambda>(t, c). initial * (c / entry)) rows, map fst rows, initial))"

section \<open>Round trips\<close>

record open_entry =
  oe_side :: side
  oe_qty :: f64
  oe_price :: f64
  oe_commission :: f64

type_synonym open_entries = "(entry_key \<times> open_entry) list"

definition closing_qty :: "open_entry \<Rightarrow> trade \<Rightarrow> f64" where
  "closing_qty e t = (if oe_qty e < t_qty t then oe_qty e else t_qty t)"

definition entry_share :: "open_entry \<Rightarrow> f64 \<Rightarrow> f64" where
  "entry_share e close = (if 0 < oe_qty e then oe_commission e * (close / oe_qty e) else 0)"

definition close_share :: "trade \<Rightarrow> f64 \<Rightarrow> f64" where
  "close_share t close =
     (if 0 < t_qty t \<and> close < t_qty t then t_commission t * (close / t_qty t) else t_commission t)"

definition round_trip_pnl :: "open_entry \<Rightarrow> trade \<Rightarrow> f64" where
  "round_trip_pnl e t =
     (let close = closing_qty e t
      in (if oe_side e = Buy then close * (t_price t - oe_price e) else close * (oe_price e - t_price t))
           - (close_share t close + entry_share e close))"

text \<open>What a closing trade leaves of the entry.\<close>

definition entry_after_close :: "open_entry \<Rightarrow> trade \<Rightarrow> open_entry option" where
  "entry_after_close e t =
     (let close = closing_qty e t; remaining = oe_qty e - close; excess = t_qty t - close
      in if 0 < remaining
         then Some (e\<lparr>oe_qty := remaining, oe_commission := oe_commission e - entry_share e close\<rparr>)
         else if 0 < excess
         then Some \<lparr>oe_side = t_side t, oe_qty = excess, oe_price = t_price t,
                    oe_commission = t_commission t - close_share t close\<rparr>
         else None)"

definition entry_after_add :: "open_entry \<Rightarrow> trade \<Rightarrow> open_entry" where
  "entry_after_add e t =
     (let total = oe_qty e + t_qty t
      in e\<lparr>oe_price := (if 0 < total then (oe_price e * oe_qty e + t_price t * t_qty t) / total
                        else oe_price e),
           oe_commission := oe_commission e + t_commission t, oe_qty := total\<rparr>)"

definition entry_of :: "trade \<Rightarrow> open_entry" where
  "entry_of t = \<lparr>oe_side = t_side t, oe_qty = t_qty t, oe_price = t_price t, oe_commission = t_commission t\<rparr>"

definition round_trip_step :: "open_entries \<times> f64 list \<Rightarrow> trade \<Rightarrow> open_entries \<times> f64 list" where
  "round_trip_step st t =
     (case st of (pending, pnls) \<Rightarrow>
        let key = (t_sec t, t_entry t)
        in if t_qty t \<le> 0 then st
           else (case map_of pending key of
                   None \<Rightarrow> (AList.update key (entry_of t) pending, pnls)
                 | Some e \<Rightarrow>
                     if oe_side e \<noteq> t_side t
                     then ((case entry_after_close e t of
                              Some e' \<Rightarrow> AList.update key e' pending
                            | None \<Rightarrow> AList.delete key pending),
                           pnls @ [round_trip_pnl e t])
                     else (AList.update key (entry_after_add e t) pending, pnls)))"

definition round_trips :: "trade list \<Rightarrow> open_entries \<times> f64 list" where
  "round_trips ts = foldl round_trip_step ([], []) ts"

definition compute_trade_pnl :: "trade list \<Rightarrow> f64 list" where
  "compute_trade_pnl ts = snd (round_trips ts)"

section \<open>Overview of the trades\<close>

record trade_overview =
  to_fills :: nat
  to_trips :: nat
  to_long :: nat
  to_short :: nat
  to_notional :: f64
  to_profit :: f64
  to_loss :: f64
  to_net :: f64
  to_avg_pnl :: f64
  to_avg_commission :: f64

definition compute_trade_overview :: "trade list \<Rightarrow> trade_overview" where
  "compute_trade_overview ts =
     (let pnls = compute_trade_pnl ts; net = float_sum pnls
      in \<lparr>to_fills = length ts, to_trips = length pnls,
          to_long = length (filter (\<lambda>t. t_side t = Buy) ts),
          to_short = length (filter (\<lambda>t. t_side t \<noteq> Buy) ts),
          to_notional = float_sum (map (\<lambda>t. math_abs (t_qty t * t_price t)) ts),
          to_profit = float_sum (filter (\<lambda>p. 0 < p) pnls),
          to_loss = float_sum (map uminus (filter (\<lambda>p. p < 0) pnls)),
          to_net = net,
          to_avg_pnl = (if pnls = [] then 0 else net / f64_of_nat (length pnls)),
          to_avg_commission = (if ts = [] then 0 else float_sum (map t_commission ts) / f64_of_nat (length ts))\<rparr>)"

section \<open>Analysis of the equity curve\<close>

record equity_analysis =
  ea_peak :: f64
  ea_peak_time :: int
  ea_lowest :: f64
  ea_lowest_time :: int
  ea_best :: f64
  ea_worst :: f64
  ea_volatility :: f64
  ea_positive :: nat
  ea_negative :: nat
  ea_flat :: nat
  ea_drawdown_bars :: int
  ea_drawdown_hours :: f64

text \<open>The loop over the bars also keeps the bar of the peak and where the current fall began.\<close>

record analysis_loop =
  al_analysis :: equity_analysis
  al_peak_bar :: int
  al_fall :: "int option"

definition longest_fall :: "int list \<Rightarrow> int option \<Rightarrow> int \<Rightarrow> equity_analysis \<Rightarrow> equity_analysis" where
  "longest_fall ts fall stop a =
     (case fall of
        None \<Rightarrow> a
      | Some start \<Rightarrow>
          if ea_drawdown_bars a < stop - start
          then a\<lparr>ea_drawdown_bars := stop - start, ea_drawdown_hours := duration_hours ts start stop\<rparr>
          else a)"

definition analysis_step :: "int list \<Rightarrow> analysis_loop \<Rightarrow> int \<times> f64 \<Rightarrow> analysis_loop" where
  "analysis_step ts l p =
     (case p of (i, eq) \<Rightarrow>
        let now = (\<lambda>old. if i < int (length ts) then ts ! nat i else old);
            l = (if ea_peak (al_analysis l) < eq
                 then let a = longest_fall ts (al_fall l) i (al_analysis l)
                      in \<lparr>al_analysis = a\<lparr>ea_peak := eq, ea_peak_time := now (ea_peak_time a)\<rparr>,
                          al_peak_bar = i, al_fall = None\<rparr>
                 else l);
            a = al_analysis l;
            l = (if eq < ea_lowest a
                 then l\<lparr>al_analysis := a\<lparr>ea_lowest := eq, ea_lowest_time := now (ea_lowest_time a)\<rparr>\<rparr>
                 else l)
        in if eq < ea_peak (al_analysis l) \<and> al_fall l = None
           then l\<lparr>al_fall := Some (al_peak_bar l)\<rparr> else l)"

definition extremes_step :: "equity_analysis \<Rightarrow> f64 \<Rightarrow> equity_analysis" where
  "extremes_step a ret =
     (let a = (if ea_best a < ret then a\<lparr>ea_best := ret\<rparr> else a);
          a = (if ret < ea_worst a then a\<lparr>ea_worst := ret\<rparr> else a)
      in if 0 < ret then a\<lparr>ea_positive := ea_positive a + 1\<rparr>
         else if ret < 0 then a\<lparr>ea_negative := ea_negative a + 1\<rparr>
         else a\<lparr>ea_flat := ea_flat a + 1\<rparr>)"

definition start_analysis :: "f64 \<Rightarrow> int list \<Rightarrow> equity_analysis" where
  "start_analysis e ts =
     (let t = (if ts = [] then zero_time else hd ts)
      in \<lparr>ea_peak = e, ea_peak_time = t, ea_lowest = e, ea_lowest_time = t,
          ea_best = FInf True, ea_worst = FInf False, ea_volatility = 0, ea_positive = 0,
          ea_negative = 0, ea_flat = 0, ea_drawdown_bars = 0, ea_drawdown_hours = 0\<rparr>)"

definition compute_equity_analysis :: "f64 list \<Rightarrow> int list \<Rightarrow> equity_analysis option" where
  "compute_equity_analysis es ts =
     (if es = [] then None
      else let l = foldl (analysis_step ts)
                     \<lparr>al_analysis = start_analysis (hd es) ts, al_peak_bar = 0, al_fall = None\<rparr> (indexed es);
               a = longest_fall ts (al_fall l) (int (length es) - 1) (al_analysis l);
               rs = compute_return_series es
           in Some (if rs = [] then a\<lparr>ea_best := 0, ea_worst := 0\<rparr>
                    else (foldl extremes_step a rs)\<lparr>ea_volatility := snd (mean_std rs)\<rparr>))"

section \<open>Spreads and groups\<close>

record spread_summary =
  ss_total :: nat
  ss_closed :: nat
  ss_open :: nat
  ss_pnl :: f64
  ss_winning :: nat
  ss_losing :: nat
  ss_win_rate :: f64

text \<open>The spreads the tracker lists.\<close>

definition listed_spreads :: "spread_tracker \<Rightarrow> spread list" where
  "listed_spreads st = List.map_filter (st_map st) (all_spreads st)"

definition compute_spread_summary :: "text_case \<Rightarrow> spread_tracker \<Rightarrow> spread_summary option" where
  "compute_spread_summary tc st =
     (let sps = listed_spreads st; closed = filter fully_closed sps; pnls = map (spread_realized_pnl tc) closed;
          wins = length (filter (\<lambda>p. 0 < p) pnls)
      in if sps = [] then None
         else Some \<lparr>ss_total = length sps, ss_closed = length closed,
                    ss_open = length (filter (\<lambda>sp. \<not> fully_closed sp) sps), ss_pnl = float_sum pnls,
                    ss_winning = wins, ss_losing = length (filter (\<lambda>p. p < 0) pnls),
                    ss_win_rate = (if closed = [] then 0 else f64_of_nat wins / f64_of_nat (length closed))\<rparr>)"

text \<open>\<open>ParseFloat\<close> and \<open>time.Parse\<close> in the format of RFC 3339; \<open>None\<close> is an error.\<close>

record custom_parser =
  cp_float :: "string \<Rightarrow> f64 option"
  cp_time :: "string \<Rightarrow> int option"

definition trade_custom_data_float :: "custom_parser \<Rightarrow> custom_data \<Rightarrow> string \<Rightarrow> f64 option" where
  "trade_custom_data_float cp items key =
     (case map_of items key of
        None \<Rightarrow> None
      | Some v \<Rightarrow>
          (case cp_float cp (trim_space v) of
             None \<Rightarrow> None
           | Some x \<Rightarrow> if is_finite x then Some x else None))"

definition trade_custom_data_time :: "custom_parser \<Rightarrow> custom_data \<Rightarrow> string \<Rightarrow> int option" where
  "trade_custom_data_time cp items key =
     (case map_of items key of None \<Rightarrow> None | Some v \<Rightarrow> cp_time cp (trim_space v))"

definition latest :: "int option \<Rightarrow> int \<Rightarrow> int option" where
  "latest best t = (case best of None \<Rightarrow> Some t | Some u \<Rightarrow> if u < t then Some t else best)"

definition latest_spread_close_time :: "spread \<Rightarrow> int option" where
  "latest_spread_close_time sp = foldl latest None (map lg_close_time (filter lg_closed (sp_legs sp)))"

definition latest_spread_close_trigger_time :: "custom_parser \<Rightarrow> spread \<Rightarrow> int option" where
  "latest_spread_close_trigger_time cp sp =
     foldl latest None
       (List.map_filter (\<lambda>l. trade_custom_data_time cp (lg_close_data l) ''close_trigger_time'') (sp_legs sp))"

text \<open>The different notes of the legs, in the order of their first leg.\<close>

definition spread_close_notes :: "spread \<Rightarrow> string list" where
  "spread_close_notes sp =
     foldl (\<lambda>ns l. let n = trim_space (lg_close_reason l)
                   in if n = [] \<or> n \<in> set ns then ns else ns @ [n]) [] (sp_legs sp)"

fun join_notes :: "string list \<Rightarrow> string" where
  "join_notes [] = []"
| "join_notes [n] = n"
| "join_notes (n # ns) = n @ '' | '' @ join_notes ns"

definition spread_close_note :: "spread \<Rightarrow> string" where
  "spread_close_note sp = join_notes (spread_close_notes sp)"

definition spread_net_premium :: "spread \<Rightarrow> f64" where
  "spread_net_premium sp =
     foldl (\<lambda>total l. let amount = lg_qty l * lg_entry_price l
                      in if lg_side l = Sell then total + amount else total - amount) 0 (sp_legs sp)"

record leg_report =
  lr_symbol :: string
  lr_side :: string
  lr_type :: option_type
  lr_strike :: f64
  lr_expiration :: int
  lr_entry_delta :: "f64 option"
  lr_delta :: f64
  lr_qty :: f64
  lr_entry_price :: f64
  lr_entry_commission :: f64
  lr_entry_time :: int
  lr_closed :: bool
  lr_close_price :: f64
  lr_close_commission :: f64
  lr_close_trigger :: "int option"
  lr_close_time :: "int option"
  lr_close_delta :: "f64 option"
  lr_close_reason :: string
  lr_pnl :: f64

definition leg_report_of :: "text_case \<Rightarrow> custom_parser \<Rightarrow> leg \<Rightarrow> leg_report" where
  "leg_report_of tc cp l =
     (let c = lg_contract l
      in \<lparr>lr_symbol = oc_symbol c, lr_side = side_string (lg_side l), lr_type = oc_type c,
          lr_strike = oc_strike c, lr_expiration = oc_expiration c,
          lr_entry_delta = trade_custom_data_float cp (lg_entry_data l) ''entry_delta'',
          lr_delta = oc_delta c, lr_qty = lg_qty l, lr_entry_price = lg_entry_price l,
          lr_entry_commission = lg_entry_commission l, lr_entry_time = lg_entry_time l,
          lr_closed = lg_closed l,
          lr_close_price = (if lg_closed l then lg_close_price l else 0),
          lr_close_commission = (if lg_closed l then lg_close_commission l else 0),
          lr_close_trigger = (if lg_closed l
                              then trade_custom_data_time cp (lg_close_data l) ''close_trigger_time'' else None),
          lr_close_time = (if lg_closed l then Some (lg_close_time l) else None),
          lr_close_delta = (if lg_closed l
                            then trade_custom_data_float cp (lg_close_data l) ''close_delta'' else None),
          lr_close_reason = lg_close_reason l, lr_pnl = leg_realized_pnl tc l\<rparr>)"

record spread_report =
  spr_id :: int
  spr_tag :: string
  spr_note :: string
  spr_status :: string
  spr_open_time :: int
  spr_trigger_time :: "int option"
  spr_close_time :: "int option"
  spr_days :: f64
  spr_premium :: f64
  spr_pnl :: f64
  spr_group :: int
  spr_legs :: "leg_report list"

definition spread_report_of :: "text_case \<Rightarrow> custom_parser \<Rightarrow> int \<Rightarrow> spread \<Rightarrow> spread_report" where
  "spread_report_of tc cp stop sp =
     (let closed = latest_spread_close_time sp;
          reference = (case closed of Some t \<Rightarrow> t | None \<Rightarrow> stop)
      in \<lparr>spr_id = sp_id sp, spr_tag = sp_tag sp, spr_note = spread_close_note sp,
          spr_status = (if fully_closed sp then ''closed'' else ''open''),
          spr_open_time = sp_open_time sp, spr_trigger_time = latest_spread_close_trigger_time cp sp,
          spr_close_time = closed,
          spr_days = hours (time_sub reference (sp_open_time sp)) / FFin 24,
          spr_premium = spread_net_premium sp, spr_pnl = spread_realized_pnl tc sp,
          spr_group = sp_group sp, spr_legs = map (leg_report_of tc cp) (sp_legs sp)\<rparr>)"

definition build_spread_position_reports ::
  "text_case \<Rightarrow> custom_parser \<Rightarrow> spread_tracker \<Rightarrow> int \<Rightarrow> spread_report list" where
  "build_spread_position_reports tc cp st stop = map (spread_report_of tc cp stop) (listed_spreads st)"

record group_report =
  gr_id :: int
  gr_tag :: string
  gr_spreads :: "int list"
  gr_init :: f64
  gr_high :: f64
  gr_low :: f64
  gr_drawdown :: f64
  gr_decay :: f64
  gr_rolls :: int
  gr_pnl :: f64
  gr_status :: string
  gr_open_time :: int
  gr_close_time :: "int option"

text \<open>The latest closing time of the spreads of a group, and whether all of them are closed.\<close>

definition group_report_of ::
  "text_case \<Rightarrow> spread_tracker \<Rightarrow> spread_group \<Rightarrow> group_report" where
  "group_report_of tc st g =
     (let sps = List.map_filter (st_map st) (sg_spreads g);
          latest_close = foldl (\<lambda>best t. if best < t then t else best) zero_time
            (concat (map (\<lambda>sp. map lg_close_time (filter lg_closed (sp_legs sp))) sps));
          done = (list_all fully_closed sps \<and> latest_close \<noteq> zero_time)
      in \<lparr>gr_id = sg_id g, gr_tag = sg_tag g, gr_spreads = sg_spreads g, gr_init = sg_init g,
          gr_high = 0, gr_low = 0, gr_drawdown = 0, gr_decay = sg_decay g, gr_rolls = sg_rolls g,
          gr_pnl = float_sum (map (spread_realized_pnl tc) sps),
          gr_status = (if sg_closed g \<or> done then ''closed'' else ''open''),
          gr_open_time = sg_open_time g,
          gr_close_time = (if done then Some latest_close else None)\<rparr>)"

definition build_spread_group_reports ::
  "text_case \<Rightarrow> group_tracker \<Rightarrow> spread_tracker \<Rightarrow> group_report list" where
  "build_spread_group_reports tc gt st =
     map (group_report_of tc st)
       (filter (\<lambda>g. sg_spreads g \<noteq> []) (List.map_filter (gt_map gt) (gt_groups gt)))"

text \<open>\<open>applySpreadGroupEquityStats\<close>.\<close>

definition apply_group_equity :: "equity_states \<Rightarrow> group_report \<Rightarrow> group_report" where
  "apply_group_equity states r =
     (case equity_snapshot states (gr_id r) of
        None \<Rightarrow> r
      | Some (high, low, dd) \<Rightarrow> r\<lparr>gr_high := high, gr_low := low, gr_drawdown := dd\<rparr>)"

section \<open>The series of the report\<close>

record report_column =
  rc_source :: string
  rc_label :: string
  rc_decimals :: int
  rc_overlay :: bool

definition normalize_column :: "report_column \<Rightarrow> report_column" where
  "normalize_column c =
     (let source = trim_space (rc_source c); label = trim_space (rc_label c)
      in \<lparr>rc_source = source, rc_label = (if label = [] then source else label),
          rc_decimals = max 0 (rc_decimals c), rc_overlay = rc_overlay c\<rparr>)"

definition normalize_report_columns :: "report_column list \<Rightarrow> series_map \<Rightarrow> report_column list" where
  "normalize_report_columns cs series =
     map normalize_column
       (filter (\<lambda>c. trim_space (rc_source c) \<noteq> [] \<and> series (trim_space (rc_source c)) \<noteq> None) cs)"

definition factor_series_key :: "factor_ref \<Rightarrow> string \<Rightarrow> string" where
  "factor_series_key r name = ''factor.'' @ fr_name r @ ''.'' @ fr_interval r @ ''.'' @ name"

text \<open>
  The columns of a factor under their own names, where these are free, and under the key of the
  factor. A factor with a column that is named like such a key is left out: there the order in
  which the map of columns is visited decides.
\<close>

definition merge_factor :: "nat \<Rightarrow> series_map \<Rightarrow> factor_ref \<times> series_map \<times> int list option \<Rightarrow> series_map" where
  "merge_factor n m f =
     (case f of (r, cols, mp) \<Rightarrow>
        let aligned = (\<lambda>col. case mp of None \<Rightarrow> col | Some mp \<Rightarrow> align_column col mp n)
        in (\<lambda>k. case Option.bind (strip_prefix (factor_series_key r []) k) cols of
                  Some col \<Rightarrow> Some (aligned col)
                | None \<Rightarrow> (case m k of Some col \<Rightarrow> Some col | None \<Rightarrow> map_option aligned (cols k))))"

definition build_report_series ::
  "factor_ref list \<Rightarrow> prepared \<Rightarrow> series_map" where
  "build_report_series factors pd =
     foldl (merge_factor (length (pd_times pd))) (hd (pd_columns pd))
       (zip factors (zip (pd_factor_columns pd) (pd_factor_aligns pd)))"

definition merge_report_series :: "series_map \<Rightarrow> series_map \<Rightarrow> series_map" where
  "merge_report_series base extra = base ++ extra"

section \<open>The result\<close>

record trade_stats =
  ts_fills :: nat
  ts_closed :: nat
  ts_open :: nat
  ts_winning :: nat
  ts_losing :: nat
  ts_win_rate :: f64
  ts_profit_factor :: f64
  ts_avg_win :: f64
  ts_avg_loss :: f64

text \<open>\<open>applyRoundTripStats\<close> on the round trips and the open entries of the trades.\<close>

definition profit_factor :: "f64 \<Rightarrow> f64 \<Rightarrow> nat \<Rightarrow> f64" where
  "profit_factor wins losses n =
     (if 0 < losses then wins / losses else if 0 < wins then FInf False else if 0 < n then 1 else 0)"

definition apply_trade_summary :: "trade list \<Rightarrow> trade_stats" where
  "apply_trade_summary ts =
     (let (pending, pnls) = round_trips ts;
          wins = filter (\<lambda>p. 0 < p) pnls; losses = filter (\<lambda>p. p < 0) pnls;
          gross_wins = float_sum wins; gross_losses = float_sum (map uminus losses)
      in \<lparr>ts_fills = length ts, ts_closed = length pnls, ts_open = length pending,
          ts_winning = length wins, ts_losing = length losses,
          ts_win_rate = (if pnls = [] then 0 else f64_of_nat (length wins) / f64_of_nat (length pnls)),
          ts_profit_factor = profit_factor gross_wins gross_losses (length pnls),
          ts_avg_win = (if wins = [] then 0 else gross_wins / f64_of_nat (length wins)),
          ts_avg_loss = (if losses = [] then 0 else gross_losses / f64_of_nat (length losses))\<rparr>)"

record report =
  rt_bars :: nat
  rt_start :: int
  rt_end :: int
  rt_capital :: f64
  rt_final :: f64
  rt_unit :: string
  rt_trades :: "trade list"
  rt_equity :: "f64 list"
  rt_times :: "int list"
  rt_series :: series_map
  rt_columns :: "report_column list"
  rt_stats :: trade_stats
  rt_fees :: f64
  rt_overview :: trade_overview
  rt_analysis :: "equity_analysis option"
  rt_account :: "performance option"
  rt_asset :: "performance option"
  rt_quote :: "performance option"
  rt_buy_hold :: "performance option"
  rt_spread_summary :: "spread_summary option"
  rt_spreads :: "spread_report list"
  rt_groups :: "group_report list"
  rt_warnings :: "warning list"

text \<open>\<open>ApplyDerivedPerformance\<close>: the performance of a curve, when the curve is not empty.\<close>

definition curve_performance ::
  "(f64 \<Rightarrow> f64 \<Rightarrow> f64) \<Rightarrow> f64 list \<times> int list \<times> f64 \<Rightarrow> performance option" where
  "curve_performance pow c =
     (case c of (vs, ts, initial) \<Rightarrow>
        if vs = [] then None else compute_performance_snapshot pow vs ts initial)"

definition apply_derived_performance ::
  "text_case \<Rightarrow> (f64 \<Rightarrow> f64 \<Rightarrow> f64) \<Rightarrow> report \<Rightarrow> report" where
  "apply_derived_performance tc pow r =
     (let acc = compute_performance_snapshot pow (rt_equity r) (rt_times r) (rt_capital r);
          cs = (case rt_series r ''close'' of Some cs \<Rightarrow> cs | None \<Rightarrow> []);
          perf = (\<lambda>c. if cs = [] then None else curve_performance pow c)
      in r\<lparr>rt_account := acc,
           rt_final := (case acc of Some p \<Rightarrow> pf_final p | None \<Rightarrow> rt_final r),
           rt_asset := perf (build_asset_basis_curve tc (rt_equity r) (rt_times r) cs (rt_capital r) (rt_unit r)),
           rt_quote := perf (build_quote_basis_curve tc (rt_equity r) (rt_times r) cs (rt_capital r) (rt_unit r)),
           rt_buy_hold := perf (build_buy_hold_quote_curve tc (rt_times r) cs (rt_capital r) (rt_unit r))\<rparr>)"

text \<open>
  \<open>computeResult\<close>. The performance of the account is \<open>rt_account\<close>, from which the result copies
  its own fields of the same names.
\<close>

definition compute_result ::
  "text_case \<Rightarrow> (f64 \<Rightarrow> f64 \<Rightarrow> f64) \<Rightarrow> trade list \<Rightarrow> f64 list \<Rightarrow> int list \<Rightarrow> config \<Rightarrow> series_map
     \<Rightarrow> report_column list \<Rightarrow> report" where
  "compute_result tc pow trades es ts cfg series cols =
     apply_derived_performance tc pow
       \<lparr>rt_bars = length es, rt_start = (if es = [] then zero_time else hd ts),
        rt_end = (if es = [] then zero_time else ts ! (length es - 1)),
        rt_capital = c_capital cfg, rt_final = (if es = [] then 0 else last es),
        rt_unit = trim_space (c_unit cfg), rt_trades = trades, rt_equity = es, rt_times = ts,
        rt_series = series, rt_columns = normalize_report_columns cols series,
        rt_stats = apply_trade_summary trades, rt_fees = float_sum (map t_commission trades),
        rt_overview = compute_trade_overview trades, rt_analysis = compute_equity_analysis es ts,
        rt_account = None, rt_asset = None, rt_quote = None, rt_buy_hold = None,
        rt_spread_summary = None, rt_spreads = [], rt_groups = [], rt_warnings = []\<rparr>"

text \<open>The end of \<open>Replay\<close>: the report of the state after the last bar.\<close>

definition report_of ::
  "environment \<Rightarrow> custom_parser \<Rightarrow> (f64 \<Rightarrow> f64 \<Rightarrow> f64) \<Rightarrow> config \<Rightarrow> prepared \<Rightarrow> series_map
     \<Rightarrow> report_column list \<Rightarrow> 's replay \<Rightarrow> report" where
  "report_of ev cp pow cfg pd series cols rp =
     (let tc = ev_case ev; en = rp_engine rp; st = en_spreads en;
          r = compute_result tc pow (br_trades (en_broker en)) (rp_equity rp) (pd_times pd) cfg series cols
      in r\<lparr>rt_spread_summary := compute_spread_summary tc st,
           rt_spreads := build_spread_position_reports tc cp st (rt_end r),
           rt_fees := rt_fees r + total_spread_fees st,
           rt_groups := map (apply_group_equity (rp_groups rp)) (build_spread_group_reports tc (en_groups en) st),
           rt_warnings := vl_warns (rp_valuation rp)\<rparr>)"

end
