(* ===== verification/Bt_Result_Props.thy ===== *)
theory Bt_Result_Props
  imports Bt_Result Bt_Engine_Props
begin

text \<open>
  What the report of a backtest says of the backtest: the open entries of the statistics are the
  entries of the broker, the counts add up, the drawdown is the largest fall from a peak.
\<close>

section \<open>Positive quantities\<close>

definition pos_qty :: "f64 \<Rightarrow> bool" where
  "pos_qty q = (wf_f64 q \<and> 0 < q)"

lemma pos_qty_cases:
  assumes "pos_qty q"
  obtains "q = FInf False" | r where "q = FFin r" "0 < r" "rnd r = FFin r"
  using assms by (cases q) (auto simp: pos_qty_def zero_f64_def fval_def dest: wf_FFinD)

lemma pos_qty_sum: "pos_qty x \<Longrightarrow> pos_qty y \<Longrightarrow> pos_qty (x + y)"
proof -
  assume x: "pos_qty x" and y: "pos_qty y"
  have n: "\<not> is_nan (x + y)"
    using x y rnd_notnan by (auto elim!: pos_qty_cases simp: radd_def) (auto simp: is_nan_def)
  have "FZero False \<le> y" using y by (auto simp: pos_qty_def zero_f64_def intro: f64_less_imp_le)
  then have "x \<le> x + y" using x n by (intro f64_add_mono) (auto simp: pos_qty_def)
  then show "pos_qty (x + y)"
    using x f64_less_le_trans by (auto simp: pos_qty_def)
qed

text \<open>A quantity with the sign of a side.\<close>

definition signed :: "side \<Rightarrow> f64 \<Rightarrow> f64" where
  "signed s q = (if s = Sell then - q else q)"

lemma radd_minus: "0 < p \<Longrightarrow> 0 < q \<Longrightarrow> radd (- p) (- q) = - radd p q"
  using rnd_minus [of "p + q"] by (simp add: radd_def)

lemma signed_plus: "pos_qty x \<Longrightarrow> pos_qty y \<Longrightarrow> signed s x + signed s y = signed s (x + y)"
  by (auto elim!: pos_qty_cases simp: signed_def radd_minus)

lemma signed_sign:
  assumes "pos_qty q"
  shows "0 < signed s q \<longleftrightarrow> s \<noteq> Sell" "signed s q < 0 \<longleftrightarrow> s = Sell" "\<not> feq (signed s q) 0"
    "go_abs (signed s q) = q"
  using assms by (auto elim!: pos_qty_cases simp: signed_def zero_f64_def fval_def feq_def go_abs_def)

section \<open>Open entries\<close>

definition open_signed :: "open_entry \<Rightarrow> f64" where
  "open_signed e = signed (oe_side e) (oe_qty e)"

definition proper_entry :: "open_entry \<Rightarrow> bool" where
  "proper_entry e = (pos_qty (oe_qty e) \<and> oe_side e \<in> {Buy, Sell})"

text \<open>A fill with a side and a quantity that is a positive float.\<close>

definition proper_fill :: "trade \<Rightarrow> bool" where
  "proper_fill t = (pos_qty (t_qty t) \<and> t_side t \<in> {Buy, Sell})"

lemma signed_fill: "t_side t \<in> {Buy, Sell} \<Longrightarrow> signed_qty t = signed (t_side t) (t_qty t)"
  by (auto simp: signed_qty_def signed_def)

lemma fill_opens:
  assumes "proper_fill t" "feq (p_qty p) 0"
  shows "p_qty (update_position p t) = open_signed (entry_of t)"
  using assms signed_fill [of t]
  by (simp add: proper_fill_def update_position_def open_position_def open_signed_def entry_of_def Let_def)

lemma flat_is_flat [simp]: "feq (p_qty (flat r)) 0"
  by (simp add: flat_def feq_def zero_f64_def fval_def)

lemma fill_adds:
  assumes "proper_fill t" "proper_entry e" "oe_side e = t_side t" "p_qty p = open_signed e"
  shows "p_qty (update_position p t) = open_signed (entry_after_add e t)"
proof -
  note f = assms(1) [unfolded proper_fill_def] and e = assms(2) [unfolded proper_entry_def]
  have "update_position p t = add_position p t (signed_qty t)"
    using f e assms(3,4) signed_fill [of t] signed_sign [of "oe_qty e" "oe_side e"] signed_sign [of "t_qty t" "oe_side e"]
    by (auto simp: update_position_def open_signed_def Let_def)
  then show ?thesis
    using f e assms(3,4) signed_fill [of t] signed_plus [of "oe_qty e" "t_qty t" "oe_side e"]
    by (simp add: add_position_def open_signed_def entry_after_add_def Let_def)
qed

lemma fill_closes:
  assumes "proper_fill t" "proper_entry e" "oe_side e \<noteq> t_side t" "p_qty p = open_signed e"
  shows "p_qty (update_position p t) = (case entry_after_close e t of Some e' \<Rightarrow> open_signed e' | None \<Rightarrow> 0)"
proof -
  have f: "pos_qty (t_qty t)" "t_side t \<in> {Buy, Sell}" and e: "pos_qty (oe_qty e)" "oe_side e \<in> {Buy, Sell}"
    using assms(1,2) by (simp_all add: proper_fill_def proper_entry_def)
  note se = signed_sign [OF e(1), of "oe_side e"] and sf = signed_sign [OF f(1), of "t_side t"]
  have p: "p_qty p = signed (oe_side e) (oe_qty e)" and g: "signed_qty t = signed (t_side t) (t_qty t)"
    using assms(4) signed_fill f(2) by (simp_all add: open_signed_def)
  have "update_position p t = reduce_position p t (signed_qty t)"
    using e(2) f(2) assms(3) se(3) unfolding update_position_def Let_def p g se(1,2) sf(1,2) by auto
  moreover have "oe_side e \<noteq> Sell \<longleftrightarrow> oe_side e = Buy" "t_side t \<noteq> Sell \<longleftrightarrow> t_side t = Buy"
    using e(2) f(2) by auto
  ultimately show ?thesis
    unfolding reduce_position_def Let_def p g se sf closing_qty_def [symmetric]
    by (simp add: open_signed_def entry_after_close_def signed_def Let_def)
qed

lemma proper_after_close:
  assumes "proper_fill t" "entry_after_close e t = Some e'" "proper_entry e"
  shows "proper_entry e'"
  using assms wf_minus
  by (auto simp: proper_fill_def proper_entry_def entry_after_close_def pos_qty_def Let_def split: if_splits)

lemma proper_after_add: "proper_fill t \<Longrightarrow> proper_entry e \<Longrightarrow> proper_entry (entry_after_add e t)"
  by (simp add: proper_fill_def proper_entry_def entry_after_add_def pos_qty_sum Let_def)

lemma proper_entry_of: "proper_fill t \<Longrightarrow> proper_entry (entry_of t)"
  by (simp add: proper_fill_def proper_entry_def entry_of_def)

lemma open_not_flat: "proper_entry e \<Longrightarrow> \<not> feq (open_signed e) 0"
  by (auto simp: proper_entry_def open_signed_def signed_sign)

lemma fill_positive: "proper_fill t \<Longrightarrow> \<not> t_qty t \<le> 0"
  by (auto elim!: pos_qty_cases simp: proper_fill_def zero_f64_def fval_def)

text \<open>
  The open entries of the statistics mirror the entries of the broker, under every key that has
  an entry name.
\<close>

definition mirrors :: "open_entries \<Rightarrow> (entry_key \<Rightarrow> position option) \<Rightarrow> bool" where
  "mirrors pending es \<longleftrightarrow>
     distinct (map fst pending)
     \<and> (\<forall>k e. map_of pending k = Some e \<longrightarrow> proper_entry e)
     \<and> (\<forall>r n. n \<noteq> [] \<longrightarrow> map_option open_signed (map_of pending (r, n)) = map_option p_qty (es (r, n)))"

lemma mirrors_upd:
  assumes "mirrors pending es" "proper_entry e" "snd k \<noteq> [] \<Longrightarrow> p_qty p = open_signed e"
  shows "mirrors (AList.update k e pending) (if snd k = [] then es else es(k \<mapsto> p))"
  using assms by (cases k) (auto simp: mirrors_def update_conv' distinct_update split: if_splits)

lemma mirrors_del:
  assumes "mirrors pending es"
  shows "mirrors (AList.delete k pending) (if snd k = [] then es else es(k := None))"
  using assms by (cases k) (auto simp: mirrors_def delete_conv' distinct_delete split: if_splits)

lemma mirrors_step:
  assumes "mirrors pending es" "proper_fill t"
  shows "mirrors (fst (round_trip_step (pending, pnls) t)) (entries_update es t)"
proof -
  let ?k = "(t_sec t, t_entry t)"
  define p where "p = update_position (case es ?k of None \<Rightarrow> flat (t_sec t) | Some p \<Rightarrow> p) t"
  have es': "entries_update es t = (if snd ?k = [] then es else es(?k := (if feq (p_qty p) 0 then None else Some p)))"
    by (simp add: entries_update_def p_def Let_def)
  have m: "map_option open_signed (map_of pending ?k) = map_option p_qty (es ?k)" if "snd ?k \<noteq> []"
    using assms(1) that by (simp add: mirrors_def)
  have keep: "mirrors (AList.update ?k e pending) (entries_update es t)"
    if "proper_entry e" "snd ?k \<noteq> [] \<Longrightarrow> p_qty p = open_signed e" for e
    using mirrors_upd [OF assms(1), of e ?k p] that open_not_flat [OF that(1)] unfolding es' by auto
  show ?thesis
  proof (cases "map_of pending ?k")
    case None
    have "p_qty p = open_signed (entry_of t)" if "snd ?k \<noteq> []"
      using m [OF that] None fill_opens [OF assms(2), of "flat (t_sec t)"] by (simp add: p_def)
    then show ?thesis
      using keep [OF proper_entry_of [OF assms(2)]] None fill_positive [OF assms(2)]
      by (simp add: round_trip_step_def Let_def)
  next
    case (Some e)
    then have e: "proper_entry e" using assms(1) by (auto simp: mirrors_def)
    have old: "\<exists>q. es ?k = Some q \<and> p_qty q = open_signed e" if "snd ?k \<noteq> []"
      using m [OF that] Some by (cases "es ?k") auto
    show ?thesis
    proof (cases "oe_side e = t_side t")
      case True
      have "p_qty p = open_signed (entry_after_add e t)" if "snd ?k \<noteq> []"
        using old [OF that] fill_adds [OF assms(2) e True] by (auto simp: p_def)
      then show ?thesis
        using keep [OF proper_after_add [OF assms(2) e]] Some True fill_positive [OF assms(2)]
        by (simp add: round_trip_step_def Let_def)
    next
      case False
      have q: "p_qty p = (case entry_after_close e t of Some e' \<Rightarrow> open_signed e' | None \<Rightarrow> 0)"
        if "snd ?k \<noteq> []"
        using old [OF that] fill_closes [OF assms(2) e False] by (auto simp: p_def)
      show ?thesis
      proof (cases "entry_after_close e t")
        case None
        have "feq (p_qty p) 0" if "snd ?k \<noteq> []"
          using q [OF that] None by (simp add: feq_def zero_f64_def fval_def)
        then have "mirrors (AList.delete ?k pending) (entries_update es t)"
          using mirrors_del [OF assms(1), of ?k] unfolding es' by (auto split: if_splits)
        then show ?thesis
          using Some False None fill_positive [OF assms(2)] by (simp add: round_trip_step_def Let_def)
      next
        case (Some e')
        have "p_qty p = open_signed e'" if "snd ?k \<noteq> []" using q [OF that] Some by simp
        then show ?thesis
          using keep [OF proper_after_close [OF assms(2) Some e]] \<open>map_of pending ?k = Some e\<close> False Some
            fill_positive [OF assms(2)]
          by (simp add: round_trip_step_def Let_def)
      qed
    qed
  qed
qed

lemma mirrors_trades:
  assumes "\<forall>t \<in> set ts. proper_fill t"
  shows "mirrors (fst (round_trips ts)) (replay_entries ts)"
  using assms
proof (induction ts rule: rev_induct)
  case Nil
  then show ?case by (simp add: round_trips_def replay_entries_def mirrors_def)
next
  case (snoc t ts)
  then have "mirrors (fst (round_trips ts)) (replay_entries ts)" "proper_fill t" by simp_all
  from mirrors_step [OF this, of "snd (round_trips ts)"] show ?case
    by (simp add: round_trips_def replay_entries_def)
qed

text \<open>The keys of the open entries are keys of trades.\<close>

lemma round_trip_keys:
  "fst ` set (fst (round_trips ts)) \<subseteq> (\<lambda>t. (t_sec t, t_entry t)) ` set ts"
proof (induction ts rule: rev_induct)
  case Nil
  then show ?case by (simp add: round_trips_def)
next
  case (snoc t ts)
  have "fst ` set (fst (round_trip_step st t)) \<subseteq> insert (t_sec t, t_entry t) (fst ` set (fst st))" for st
    by (cases st)
      (auto simp: round_trip_step_def Let_def update_conv' delete_conv'
        simp flip: dom_map_of_conv_image_fst split: option.splits if_splits)
  from this [of "round_trips ts"] snoc show ?case by (auto simp: round_trips_def)
qed

lemma replay_entries_named: "replay_entries ts (r, []) = None"
proof (induction ts rule: rev_induct)
  case Nil
  then show ?case by (simp add: replay_entries_def)
next
  case (snoc t ts)
  then show ?case by (auto simp: replay_entries_def entries_update_def Let_def)
qed

lemma open_count:
  assumes "\<forall>t \<in> set ts. proper_fill t" "\<forall>t \<in> set ts. t_entry t \<noteq> []"
  shows "length (fst (round_trips ts)) = card (dom (replay_entries ts))"
proof -
  note m = mirrors_trades [OF assms(1)]
  have "k \<in> dom (map_of (fst (round_trips ts))) \<longleftrightarrow> k \<in> dom (replay_entries ts)" for k
  proof (cases "snd k = []")
    case True
    then obtain r where k: "k = (r, [])" by (cases k) auto
    have "k \<notin> fst ` set (fst (round_trips ts))"
    proof
      assume "k \<in> fst ` set (fst (round_trips ts))"
      then have "k \<in> (\<lambda>t. (t_sec t, t_entry t)) ` set ts" using round_trip_keys by blast
      then show False using assms(2) k by auto
    qed
    then show ?thesis using replay_entries_named [of ts r] k by (auto simp flip: dom_map_of_conv_image_fst)
  next
    case False
    then have "map_option open_signed (map_of (fst (round_trips ts)) k) = map_option p_qty (replay_entries ts k)"
      using m by (cases k) (simp add: mirrors_def)
    then show ?thesis
      by (cases "map_of (fst (round_trips ts)) k"; cases "replay_entries ts k") auto
  qed
  then have "dom (map_of (fst (round_trips ts))) = dom (replay_entries ts)" by blast
  moreover have "length (fst (round_trips ts)) = card (fst ` set (fst (round_trips ts)))"
    using m distinct_card [of "map fst (fst (round_trips ts))"] by (simp add: mirrors_def)
  ultimately show ?thesis by (simp add: dom_map_of_conv_image_fst)
qed

text \<open>
  Where all fills of a security carry the same entry name, also the empty one, its open entry is
  the position of the security.
\<close>

definition tied :: "open_entry option \<Rightarrow> f64 \<Rightarrow> bool" where
  "tied eo q = (case eo of None \<Rightarrow> feq q 0 | Some e \<Rightarrow> proper_entry e \<and> q = open_signed e)"

lemma tied_step:
  assumes "tied (map_of pending (t_sec t, t_entry t)) (p_qty p)" "proper_fill t" "distinct (map fst pending)"
  shows "tied (map_of (fst (round_trip_step (pending, pnls) t)) (t_sec t, t_entry t)) (p_qty (update_position p t))"
proof (cases "map_of pending (t_sec t, t_entry t)")
  case None
  then show ?thesis
    using assms fill_opens [of t p] proper_entry_of [of t] fill_positive [of t]
    by (simp add: tied_def round_trip_step_def update_conv' Let_def)
next
  case (Some e)
  then have e: "proper_entry e" "p_qty p = open_signed e" using assms(1) by (simp_all add: tied_def)
  show ?thesis
  proof (cases "oe_side e = t_side t")
    case True
    then show ?thesis
      using Some e fill_adds [OF assms(2) e(1) True e(2)] proper_after_add [OF assms(2) e(1)]
        fill_positive [OF assms(2)]
      by (simp add: tied_def round_trip_step_def update_conv' Let_def)
  next
    case False
    have "feq 0 (0 :: f64)" by (simp add: feq_def zero_f64_def fval_def)
    then show ?thesis
      using Some False fill_closes [OF assms(2) e(1) False e(2)] proper_after_close [OF assms(2) _ e(1)]
        fill_positive [OF assms(2)]
      by (simp add: tied_def round_trip_step_def update_conv' delete_conv' Let_def split: option.splits)
  qed
qed

lemma round_trip_step_other:
  "k \<noteq> (t_sec t, t_entry t) \<Longrightarrow> map_of (fst (round_trip_step st t)) k = map_of (fst st) k"
  by (cases st) (auto simp: round_trip_step_def update_conv' delete_conv' Let_def split: option.splits)

lemma position_tied:
  assumes "\<forall>t \<in> set ts. proper_fill t" "\<forall>t \<in> set ts. t_sec t = r \<longrightarrow> t_entry t = n"
  shows "tied (map_of (fst (round_trips ts)) (r, n)) (p_qty (tracker_get (replay_positions ts) r))"
  using assms
proof (induction ts rule: rev_induct)
  case Nil
  then show ?case
    by (simp add: round_trips_def replay_positions_def tracker_get_def new_tracker_def tied_def)
next
  case (snoc t ts)
  let ?pos = "tracker_get (replay_positions ts) r"
  have ih: "tied (map_of (fst (round_trips ts)) (r, n)) (p_qty ?pos)" and t: "proper_fill t"
    using snoc by simp_all
  have d: "distinct (map fst (fst (round_trips ts)))"
    using mirrors_trades [of ts] snoc.prems(1) by (simp add: mirrors_def)
  have run: "round_trips (ts @ [t]) = round_trip_step (round_trips ts) t"
    "replay_positions (ts @ [t]) = tracker_update (replay_positions ts) t"
    by (simp_all add: round_trips_def replay_positions_def)
  show ?case
  proof (cases "t_sec t = r")
    case True
    then have n: "t_entry t = n" using snoc.prems(2) by simp
    have "tracker_get (replay_positions (ts @ [t])) r = update_position ?pos t"
      using True by (cases "replay_positions ts r") (simp_all add: run tracker_update_def tracker_get_def Let_def)
    moreover have "tied (map_of (fst (round_trip_step (fst (round_trips ts), snd (round_trips ts)) t)) (t_sec t, t_entry t))
        (p_qty (update_position ?pos t))"
      by (rule tied_step [OF _ t d]) (use ih True n in simp)
    ultimately show ?thesis using True n by (simp add: run)
  next
    case False
    then show ?thesis
      using ih by (simp add: run round_trip_step_other tracker_update_def tracker_get_def Let_def)
  qed
qed

section \<open>Counts\<close>

lemma length_update: "length (AList.update k v al) = (if map_of al k = None then Suc (length al) else length al)"
  by (induction al) auto

lemma length_delete: "map_of al k \<noteq> None \<Longrightarrow> length (AList.delete k al) < length al"
proof (induction al)
  case (Cons p al)
  then show ?case
    using length_delete_le [of k al] by (cases p; cases "fst p = k") (auto simp: less_Suc_eq_le)
qed simp

lemma round_trip_step_counts:
  "length (snd (round_trip_step st t)) + length (fst (round_trip_step st t)) \<le> Suc (length (snd st) + length (fst st))"
proof (cases st)
  case (Pair pending pnls)
  let ?k = "(t_sec t, t_entry t)"
  show ?thesis
  proof (cases "map_of pending ?k")
    case None
    then show ?thesis by (simp add: Pair round_trip_step_def Let_def length_update)
  next
    case (Some e)
    then have "length (AList.delete ?k pending) < length pending" by (simp add: length_delete)
    then show ?thesis
      using Some by (simp add: Pair round_trip_step_def Let_def length_update split: option.split)
  qed
qed

lemma round_trip_counts: "length (snd (round_trips ts)) + length (fst (round_trips ts)) \<le> length ts"
proof (induction ts rule: rev_induct)
  case Nil
  then show ?case by (simp add: round_trips_def)
next
  case (snoc t ts)
  then show ?case using round_trip_step_counts [of "round_trips ts" t] by (simp add: round_trips_def)
qed

lemma filter_sign_counts:
  "length (filter (\<lambda>p. 0 < p) xs) + length (filter (\<lambda>p. p < 0) xs) \<le> length (xs :: f64 list)"
  by (induction xs) (auto dest: f64_less_le_trans f64_less_imp_le)

lemma ratio_le_one:
  assumes "(0 :: f64) < y" "x \<le> y"
  shows "\<not> 1 < x / y"
proof (cases "\<exists>p q. x = FFin p \<and> y = FFin q")
  case True
  then obtain p q where pq: "x = FFin p" "y = FFin q" "0 < q" "p \<le> q"
    using assms by (auto simp: zero_f64_def fval_def)
  have one: "rnd 1 = FFin 1" by code_simp
  show ?thesis
  proof (cases "p / q = 0")
    case True
    moreover have "rnd 0 = FZero False" by code_simp
    ultimately show ?thesis by (simp only: pq divide_f64.simps one_f64_def) (simp add: fval_def)
  next
    case False
    have "p / q \<le> 1" using pq by simp
    then have "rnd (p / q) \<le> rnd 1" using False by (intro rnd_mono) auto
    then show ?thesis
      using f64_not_less [of 1 "rnd (p / q)"] rnd_notnan [of "p / q"] one
      by (simp add: pq one_f64_def is_nan_def)
  qed
next
  case False
  then show ?thesis
    using assms by (cases x; cases y) (auto simp: zero_f64_def one_f64_def fval_def fneg_sign_def)
qed

section \<open>The largest drawdown\<close>

text \<open>The peak of the curve up to a bar, from the first peak on, and the fall of that bar from it.\<close>

definition first_peak :: "f64 list \<Rightarrow> f64 \<Rightarrow> f64" where
  "first_peak es capital = (if capital \<le> 0 then hd es else capital)"

definition peak_upto :: "f64 \<Rightarrow> f64 list \<Rightarrow> nat \<Rightarrow> f64" where
  "peak_upto p es j = foldl (\<lambda>p eq. if p < eq then eq else p) p (take (Suc j) es)"

definition fall_at :: "f64 \<Rightarrow> f64 list \<Rightarrow> nat \<Rightarrow> f64" where
  "fall_at p es j = (peak_upto p es j - es ! j) / peak_upto p es j"

definition counts_at :: "f64 \<Rightarrow> f64 list \<Rightarrow> nat \<Rightarrow> bool" where
  "counts_at p es j \<longleftrightarrow> j < length es \<and> \<not> peak_upto p es j \<le> 0"

text \<open>The drawdown found is one of the falls, the first of the largest ones, or nothing fell.\<close>

definition largest_fall :: "f64 \<Rightarrow> f64 list \<Rightarrow> f64 \<Rightarrow> int \<Rightarrow> int \<Rightarrow> bool" where
  "largest_fall p es dd from stop \<longleftrightarrow>
     (\<forall>j. counts_at p es j \<longrightarrow> \<not> dd < fall_at p es j)
     \<and> (dd = 0 \<and> from = 0 \<and> stop = 0
        \<or> 0 \<le> from \<and> from \<le> stop \<and> counts_at p es (nat stop) \<and> 0 < dd \<and> dd = fall_at p es (nat stop)
          \<and> (\<forall>j < nat stop. counts_at p es j \<longrightarrow> \<not> dd \<le> fall_at p es j)
          \<and> (peak_upto p es (nat stop) = es ! nat from \<or> from = 0 \<and> peak_upto p es (nat stop) = p))"

definition drawdown_inv :: "f64 \<Rightarrow> f64 list \<Rightarrow> drawdown \<Rightarrow> bool" where
  "drawdown_inv p es d \<longleftrightarrow>
     dd_peak d = foldl (\<lambda>p eq. if p < eq then eq else p) p es
     \<and> 0 \<le> dd_start d \<and> dd_start d \<le> int (length es)
     \<and> (dd_start d = 0 \<and> dd_peak d = p \<or> dd_start d < int (length es) \<and> dd_peak d = es ! nat (dd_start d))
     \<and> largest_fall p es (dd_max d) (dd_from d) (dd_to d)"

lemma indexed_snoc: "indexed (xs @ [x]) = indexed xs @ [(int (length xs), x)]"
  by (simp add: indexed_def)

lemma peak_upto_snoc: "j < length es \<Longrightarrow> peak_upto p (es @ [x]) j = peak_upto p es j"
  by (simp add: peak_upto_def)

lemma fall_at_snoc: "j < length es \<Longrightarrow> fall_at p (es @ [x]) j = fall_at p es j"
  by (simp add: fall_at_def peak_upto_snoc nth_append)

lemma counts_at_snoc: "j < length es \<Longrightarrow> counts_at p (es @ [x]) j = counts_at p es j"
  by (simp add: counts_at_def peak_upto_snoc)

lemma f64_less_trans: "x < y \<Longrightarrow> y < z \<Longrightarrow> x < (z :: f64)"
  by (blast intro: f64_less_le_trans f64_less_imp_le)

lemma largest_fall_same:
  assumes "largest_fall p es dd from stop"
    and "counts_at p (es @ [x]) (length es) \<Longrightarrow> \<not> dd < fall_at p (es @ [x]) (length es)"
  shows "largest_fall p (es @ [x]) dd from stop"
proof -
  have all: "\<not> dd < fall_at p (es @ [x]) j" if "counts_at p (es @ [x]) j" for j
  proof (cases "j < length es")
    case True
    then have "counts_at p es j" using that by (simp add: counts_at_snoc)
    then show ?thesis using assms(1) True by (simp add: largest_fall_def fall_at_snoc)
  next
    case False
    then have "j = length es" using that by (simp add: counts_at_def)
    then show ?thesis using assms(2) that by simp
  qed
  have small: "nat stop < length es" "nat from \<le> nat stop" if "counts_at p es (nat stop)" "from \<le> stop"
    using that by (auto simp: counts_at_def)
  show ?thesis
    using assms(1) all small
    by (auto simp: largest_fall_def counts_at_snoc fall_at_snoc peak_upto_snoc nth_append)
qed

lemma largest_fall_new:
  assumes "largest_fall p es dd from stop" "counts_at p (es @ [x]) (length es)"
    and "dd < fall_at p (es @ [x]) (length es)"
    and "0 \<le> start" "start \<le> int (length es)"
    and "peak_upto p (es @ [x]) (length es) = (es @ [x]) ! nat start
       \<or> start = 0 \<and> peak_upto p (es @ [x]) (length es) = p"
  shows "largest_fall p (es @ [x]) (fall_at p (es @ [x]) (length es)) start (int (length es))"
proof -
  let ?f = "fall_at p (es @ [x]) (length es)"
  have pos: "0 < ?f" using assms(1,3) by (auto simp: largest_fall_def dest: f64_less_trans)
  have old: "\<not> ?f \<le> fall_at p (es @ [x]) j" if "j < length es" "counts_at p (es @ [x]) j" for j
  proof
    assume "?f \<le> fall_at p (es @ [x]) j"
    with assms(3) have "dd < fall_at p es j" using that by (simp add: fall_at_snoc f64_less_le_trans)
    then show False using assms(1) that by (auto simp: largest_fall_def counts_at_snoc)
  qed
  have "\<not> ?f < fall_at p (es @ [x]) j" if "counts_at p (es @ [x]) j" for j
    using old [of j] that f64_less_imp_le by (cases "j = length es") (auto simp: counts_at_def)
  with pos old assms(2,4-6) show ?thesis by (auto simp: largest_fall_def)
qed

lemma drawdown_inv_step:
  assumes "drawdown_inv p es d"
  shows "drawdown_inv p (es @ [x]) (drawdown_step d (int (length es), x))"
proof -
  define d1 where "d1 = (if dd_peak d < x then d\<lparr>dd_peak := x, dd_start := int (length es)\<rparr> else d)"
  have peak: "dd_peak d1 = peak_upto p (es @ [x]) (length es)"
    "dd_peak d1 = foldl (\<lambda>p eq. if p < eq then eq else p) p (es @ [x])"
    using assms by (simp_all add: d1_def drawdown_inv_def peak_upto_def)
  have start: "0 \<le> dd_start d1" "dd_start d1 \<le> int (length es)"
    "dd_start d1 = 0 \<and> dd_peak d1 = p \<or> dd_peak d1 = (es @ [x]) ! nat (dd_start d1)"
    using assms by (auto simp: d1_def drawdown_inv_def nth_append)
  have rest: "dd_max d1 = dd_max d" "dd_from d1 = dd_from d" "dd_to d1 = dd_to d"
    by (simp_all add: d1_def)
  let ?f = "fall_at p (es @ [x]) (length es)"
  have f: "(dd_peak d1 - x) / dd_peak d1 = ?f" by (simp add: fall_at_def peak)
  have c: "counts_at p (es @ [x]) (length es) \<longleftrightarrow> \<not> dd_peak d1 \<le> 0" by (simp add: counts_at_def peak)
  have step: "drawdown_step d (int (length es), x)
      = (if dd_peak d1 \<le> 0 \<or> \<not> dd_max d < ?f then d1
         else d1\<lparr>dd_max := ?f, dd_from := dd_start d1, dd_to := int (length es)\<rparr>)"
    by (simp add: drawdown_step_def Let_def f [symmetric] rest flip: d1_def)
  have lf: "largest_fall p es (dd_max d) (dd_from d) (dd_to d)" using assms by (simp add: drawdown_inv_def)
  show ?thesis
  proof (cases "dd_peak d1 \<le> 0 \<or> \<not> dd_max d < ?f")
    case True
    then have "largest_fall p (es @ [x]) (dd_max d) (dd_from d) (dd_to d)"
      using c by (intro largest_fall_same [OF lf]) auto
    then show ?thesis using True start rest peak(2) by (auto simp: step drawdown_inv_def)
  next
    case False
    then have "largest_fall p (es @ [x]) ?f (dd_start d1) (int (length es))"
      using c start peak by (intro largest_fall_new [OF lf]) auto
    then show ?thesis using False start peak(2) by (auto simp: step drawdown_inv_def)
  qed
qed

lemma drawdown_inv_run:
  "drawdown_inv p es (foldl drawdown_step \<lparr>dd_peak = p, dd_start = 0, dd_max = 0, dd_from = 0, dd_to = 0\<rparr> (indexed es))"
proof (induction es rule: rev_induct)
  case Nil
  then show ?case by (simp add: drawdown_inv_def largest_fall_def indexed_def counts_at_def)
next
  case (snoc x es)
  from drawdown_inv_step [OF this] show ?case by (simp add: indexed_snoc)
qed

text \<open>A value that is not negative falls by at most the whole peak.\<close>

lemma fall_le_one:
  assumes "wf_f64 p" "0 < p" "0 \<le> eq"
  shows "\<not> 1 < (p - eq) / p"
proof (cases "is_nan (p - eq)")
  case True
  then have "p - eq = FNaN" by (simp add: is_nan_def)
  then show ?thesis by (simp add: one_f64_def)
next
  case False
  then have "p - eq \<le> p"
    using assms by (intro f64_sub_mono [of p False]) (auto simp: zero_f64_def)
  then show ?thesis by (rule ratio_le_one [OF assms(2)])
qed

section \<open>The report of a backtest\<close>

lemma report_stats [simp]:
  "rt_stats (report_of ev cp pow cfg pd series cols rp) = apply_trade_summary (br_trades (en_broker (rp_engine rp)))"
  "rt_overview (report_of ev cp pow cfg pd series cols rp) = compute_trade_overview (br_trades (en_broker (rp_engine rp)))"
  "rt_analysis (report_of ev cp pow cfg pd series cols rp) = compute_equity_analysis (rp_equity rp) (pd_times pd)"
  "rt_spread_summary (report_of ev cp pow cfg pd series cols rp)
     = compute_spread_summary (ev_case ev) (en_spreads (rp_engine rp))"
  by (simp_all add: report_of_def compute_result_def apply_derived_performance_def Let_def)

text \<open>
  C6. The open entries a report counts are the entries the broker holds. In a backtest of a strategy
  that acts through the commands of its context, whose fills are sales and purchases of positive
  quantities, matching the trades into round trips leaves, for every entry with a name, exactly
  the signed quantity the broker has under it; and for a security whose fills carry no name the
  signed quantity of its position. When all fills are named, the number of open entries in the
  report is the number of entries of the broker.
\<close>

theorem report_open_entries:
  assumes "acts_by_commands ev on_bar"
    and "rp = replay_bars ev pricing refs on_bar pd (start_replay cfg policy s) n"
    and "b = en_broker (rp_engine rp)" and "\<forall>t \<in> set (br_trades b). proper_fill t"
    and "open_at = map_of (fst (round_trips (br_trades b)))"
  shows "(\<forall>r e. e \<noteq> [] \<longrightarrow> map_option open_signed (open_at (r, e)) = map_option p_qty (br_entries b (r, e)))
    \<and> (\<forall>r. (\<forall>t \<in> set (br_trades b). t_sec t = r \<longrightarrow> t_entry t = [])
         \<longrightarrow> tied (open_at (r, [])) (p_qty (tracker_get (br_positions b) r)))
    \<and> ((\<forall>t \<in> set (br_trades b). t_entry t \<noteq> [])
         \<longrightarrow> ts_open (rt_stats (report_of ev cp pow cfg pd series cols rp)) = card (dom (br_entries b)))"
proof -
  have r: "runs ev (rp_engine (start_replay cfg policy s)) (rp_engine rp)"
    unfolding assms(2) by (rule runs_replay_bars [OF assms(1)])
  have "reachable (tc_fold (ev_case ev)) cfg b"
    unfolding assms(3) by (rule books.run_keeps [OF r]) (simp add: start_replay_engine reachable_new)
  then have log: "br_positions b = replay_positions (br_trades b)" "br_entries b = replay_entries (br_trades b)"
    using replay.reachable_invariant by (auto simp: log_replays_def)
  have "ts_open (apply_trade_summary (br_trades b)) = length (fst (round_trips (br_trades b)))"
    by (simp add: apply_trade_summary_def Let_def split: prod.split)
  then have "ts_open (rt_stats (report_of ev cp pow cfg pd series cols rp)) = length (fst (round_trips (br_trades b)))"
    by (simp add: assms(3))
  then show ?thesis
    using mirrors_trades [OF assms(4)] open_count [OF assms(4)] position_tied [OF assms(4)]
    by (simp add: assms(5) log mirrors_def)
qed

lemma trade_counts:
  "ts_closed (apply_trade_summary ts) + ts_open (apply_trade_summary ts) \<le> ts_fills (apply_trade_summary ts)"
  "ts_winning (apply_trade_summary ts) + ts_losing (apply_trade_summary ts) \<le> ts_closed (apply_trade_summary ts)"
  "to_fills (compute_trade_overview ts) = ts_fills (apply_trade_summary ts)"
  "to_trips (compute_trade_overview ts) = ts_closed (apply_trade_summary ts)"
  "to_long (compute_trade_overview ts) + to_short (compute_trade_overview ts) = to_fills (compute_trade_overview ts)"
  using round_trip_counts [of ts] filter_sign_counts [of "snd (round_trips ts)"]
    sum_length_filter_compl [of "\<lambda>t. t_side t = Buy" ts]
  by (simp_all add: apply_trade_summary_def compute_trade_overview_def compute_trade_pnl_def Let_def
      case_prod_beta)

lemma spread_counts:
  assumes "compute_spread_summary tc st = Some ss"
  shows "ss_open ss + ss_closed ss = ss_total ss" "ss_winning ss + ss_losing ss \<le> ss_closed ss"
proof -
  let ?closed = "filter fully_closed (listed_spreads st)"
  show "ss_open ss + ss_closed ss = ss_total ss"
    using assms sum_length_filter_compl [of fully_closed "listed_spreads st"]
    by (auto simp: compute_spread_summary_def Let_def split: if_splits)
  show "ss_winning ss + ss_losing ss \<le> ss_closed ss"
    using assms filter_sign_counts [of "map (spread_realized_pnl tc) ?closed"]
    by (auto simp: compute_spread_summary_def Let_def split: if_splits)
qed

lemma longest_fall_counts [simp]:
  "ea_positive (longest_fall ts fall stop a) = ea_positive a"
  "ea_negative (longest_fall ts fall stop a) = ea_negative a"
  "ea_flat (longest_fall ts fall stop a) = ea_flat a"
  by (simp_all add: longest_fall_def split: option.split)

lemma analysis_step_counts:
  "ea_positive (al_analysis (analysis_step ts l p)) = ea_positive (al_analysis l)"
  "ea_negative (al_analysis (analysis_step ts l p)) = ea_negative (al_analysis l)"
  "ea_flat (al_analysis (analysis_step ts l p)) = ea_flat (al_analysis l)"
  by (cases p; simp add: analysis_step_def Let_def)+

lemma analysis_loop_counts:
  "ea_positive (al_analysis (foldl (analysis_step ts) l ps)) = ea_positive (al_analysis l)"
  "ea_negative (al_analysis (foldl (analysis_step ts) l ps)) = ea_negative (al_analysis l)"
  "ea_flat (al_analysis (foldl (analysis_step ts) l ps)) = ea_flat (al_analysis l)"
  by (induction ps arbitrary: l) (simp_all add: analysis_step_counts)

lemma extremes_counts:
  "ea_positive (foldl extremes_step a rs) + ea_negative (foldl extremes_step a rs) + ea_flat (foldl extremes_step a rs)
     = ea_positive a + ea_negative a + ea_flat a + length rs"
  by (induction rs arbitrary: a) (simp_all add: extremes_step_def Let_def)

lemma analysis_counts:
  assumes "compute_equity_analysis es ts = Some a"
  shows "ea_positive a + ea_negative a + ea_flat a = length (return_pairs es)"
  using assms
  by (auto simp: compute_equity_analysis_def Let_def start_analysis_def analysis_loop_counts extremes_counts
      compute_return_series_def split: if_splits)

text \<open>
  The counts of a report add up. No fill is counted twice: the round trips and the open entries
  together are at most the fills, and winners and losers together at most the round trips. The
  overview counts the same fills and round trips, every fill as long or short. The spreads are open
  or closed, and every return of a bar is positive, negative or flat.
\<close>

theorem report_counts:
  "let r = report_of ev cp pow cfg pd series cols rp; s = rt_stats r; v = rt_overview r
   in ts_closed s + ts_open s \<le> ts_fills s \<and> ts_winning s + ts_losing s \<le> ts_closed s
    \<and> to_fills v = ts_fills s \<and> to_trips v = ts_closed s \<and> to_long v + to_short v = to_fills v
    \<and> (case rt_spread_summary r of None \<Rightarrow> True | Some ss \<Rightarrow>
         ss_open ss + ss_closed ss = ss_total ss \<and> ss_winning ss + ss_losing ss \<le> ss_closed ss)
    \<and> (case rt_analysis r of None \<Rightarrow> True | Some a \<Rightarrow>
         ea_positive a + ea_negative a + ea_flat a = length (return_pairs (rp_equity rp)))"
  unfolding Let_def
  by (auto simp: trade_counts spread_counts analysis_counts split: option.split)

text \<open>
  C18. The maximum drawdown of a curve is its largest fall from a peak. No bar lies further below the
  peak of the curve up to it, as a fraction of that peak, than the drawdown that is reported; when
  it is not zero it is the fall of the bar reported as its end, the first one with so large a fall,
  and the bar reported as its start holds the peak, or is 0 when the peak is the initial capital.
  A curve of floats that never goes below zero has a drawdown of at most 1.
\<close>

theorem max_drawdown_largest_fall:
  assumes "es \<noteq> []" "compute_max_drawdown es capital = (dd, from, stop)"
  shows "largest_fall (first_peak es capital) es dd from stop
    \<and> ((\<forall>x \<in> set (capital # es). wf_f64 x) \<and> (\<forall>x \<in> set es. 0 \<le> x) \<longrightarrow> \<not> 1 < dd)"
proof -
  let ?p = "first_peak es capital"
  have lf: "largest_fall ?p es dd from stop"
    using drawdown_inv_run [of ?p es] assms
    by (simp add: drawdown_inv_def compute_max_drawdown_def start_drawdown_def first_peak_def Let_def)
  moreover have "\<not> 1 < dd" if wf: "\<forall>x \<in> set (capital # es). wf_f64 x" and pos: "\<forall>x \<in> set es. 0 \<le> x"
  proof (cases "dd = 0")
    case True
    then show ?thesis by (simp add: zero_f64_def one_f64_def fval_def)
  next
    case False
    let ?j = "nat stop"
    have j: "counts_at ?p es ?j" "dd = fall_at ?p es ?j" "0 < dd"
      using lf False by (auto simp: largest_fall_def)
    have peak: "wf_f64 (foldl (\<lambda>p eq. if p < eq then eq else p) p xs)"
      if "wf_f64 p" "\<forall>x \<in> set xs. wf_f64 x" for p :: f64 and xs
      using that by (induction xs arbitrary: p) auto
    have "wf_f64 ?p" using wf assms(1) by (cases es) (auto simp: first_peak_def)
    then have w: "wf_f64 (peak_upto ?p es ?j)"
      unfolding peak_upto_def using wf by (intro peak) (auto dest: in_set_takeD)
    have e: "0 \<le> es ! ?j" using j(1) pos by (auto simp: counts_at_def)
    show ?thesis
    proof (cases "is_nan (peak_upto ?p es ?j)")
      case True
      then have "dd = FNaN" using j(2) by (simp add: fall_at_def is_nan_def minus_f64_def)
      then show ?thesis by (simp add: one_f64_def)
    next
      case False
      then have "0 < peak_upto ?p es ?j"
        using j(1) f64_not_less [of 0 "peak_upto ?p es ?j"]
        by (cases "peak_upto ?p es ?j") (auto simp: counts_at_def is_nan_def zero_f64_def fval_def)
      from fall_le_one [OF w this e] show ?thesis by (simp add: j(2) fall_at_def)
    qed
  qed
  ultimately show ?thesis by blast
qed

section \<open>Examples\<close>

abbreviation ex_broker_after :: broker where
  "ex_broker_after \<equiv> en_broker (rp_engine (ex_run 0 2))"

lemma ex_run_trades:
  "map (\<lambda>t. (t_qty t, t_side t, t_entry t)) (br_trades ex_broker_after) = [(FFin 25, Buy, [])]"
  by code_simp

lemma ex_run_position: "p_qty (tracker_get (br_positions ex_broker_after) ex_spot) = FFin 25"
  by code_simp

theorem report_open_entries_witness:
  "map_option open_signed (map_of (fst (round_trips (br_trades ex_broker_after))) (ex_spot, []))
     = Some (p_qty (tracker_get (br_positions ex_broker_after) ex_spot))"
proof -
  have w: "wf_f64 (FFin 25)" by code_simp
  have t: "(t_qty t, t_side t, t_entry t) = (FFin 25, Buy, [])" if "t \<in> set (br_trades ex_broker_after)" for t
    using ex_run_trades that by (auto simp: map_eq_Cons_conv)
  have p: "\<forall>t \<in> set (br_trades ex_broker_after). proper_fill t"
    using t w by (auto simp: proper_fill_def pos_qty_def zero_f64_def fval_def)
  have n: "\<forall>t \<in> set (br_trades ex_broker_after). t_sec t = ex_spot \<longrightarrow> t_entry t = []"
    using t by auto
  have "tied (map_of (fst (round_trips (br_trades ex_broker_after))) (ex_spot, []))
      (p_qty (tracker_get (br_positions ex_broker_after) ex_spot))"
    using conjunct1 [OF conjunct2 [OF report_open_entries [OF golden_cross_acts refl refl p refl]]] n by blast
  moreover have "\<not> feq (FFin 25) 0" by (simp add: feq_def zero_f64_def fval_def)
  ultimately show ?thesis
    unfolding ex_run_position by (auto simp: tied_def split: option.splits)
qed

lemma ex_drawdown:
  "compute_max_drawdown [FFin 100, FFin 120, FFin 90, FFin 130] (FFin 100) = (FFin (1 / 4), 1, 2)"
  "list_all wf_f64 [FFin 100, FFin 120, FFin 90, FFin 130]"
  by code_simp+

theorem max_drawdown_largest_fall_witness:
  "largest_fall (FFin 100) [FFin 100, FFin 120, FFin 90, FFin 130] (FFin (1 / 4)) 1 2
     \<and> \<not> 1 < FFin (1 / 4)"
  using max_drawdown_largest_fall [OF _ ex_drawdown(1)] ex_drawdown(2)
  by (simp add: first_peak_def zero_f64_def fval_def)

end
