(* ===== verification/Spec2Isabelle.thy ===== *)
theory Spec2Isabelle
  imports Dsl_Parser_Props Dsl_Roundtrip Dsl_Bridge_Props Dsl_Plan_Props Bt_Broker_Log Bt_Rolling_Props Bt_Indicator_Props Bt_Replay_Props Bt_Engine_Props Bt_Result_Props
begin

text \<open>
  A verification development for Toktik, a Go system that backtests trading strategies written
  in its own scripting language (DSL). The theories below this root model the two halves of its
  core, the language and the backtest, and the bridge that joins them; every definition is a
  translation of the Go code named in the text of its theory.

  \<^bold>\<open>How the parts interact.\<close>
  A script is scanned (\<open>pkg/dsl/lexer\<close>), parsed (\<open>pkg/dsl/parser\<close>) and analysed
  (\<open>pkg/dsl/analysis\<close>): the analysis finds the data the script will ask for, and the bridge
  (\<open>pkg/dsl/bridge\<close>) registers it as dependencies of the backtest. The preparer
  (\<open>internal/backtest/preparer.go\<close>) loads and aligns the data sets (\<open>datafeed.go\<close>) and resolves
  the indicators (\<open>indicator*.go\<close>). The replayer (\<open>replayer.go\<close>) then goes through the bars: the
  broker (\<open>broker.go\<close>) fills what is pending, scheduled actions and option legs settle
  (\<open>options.go\<close>, \<open>valuation_runtime.go\<close>, \<open>spread_group*.go\<close>), and the strategy is called with a
  context (\<open>context.go\<close>, \<open>order_builder.go\<close>). For a script that strategy is the interpreter
  (\<open>pkg/dsl/runtime\<close>), which reads the bar and places its orders through the bridge. At the end the
  result (\<open>result*.go\<close>) is computed from the trades and the equity curve.

  \<^bold>\<open>The base of the models.\<close>
  \<^item> \<open>Go_Prelude\<close>: collections of facts and generic lemmas.
  \<^item> \<open>Go_Strings\<close>, \<open>Go_Strconv\<close>, \<open>Go_Format\<close>, \<open>Go_Format_Short\<close>: byte strings, UTF-8, the parts of
    \<open>strings\<close>, \<open>strconv\<close> and \<open>fmt\<close> that the program calls.
  \<^item> \<open>Go_Float64\<close>, \<open>Go_Math\<close>: \<open>float64\<close> as binary64 with rounding to nearest even, NaN, infinities and
    signed zero. All prices, quantities and indicators are of this type, so every theorem speaks
    of the rounded arithmetic that the program performs. A map that Go ranges over appears with the
    order of the range as a parameter.

  \<^bold>\<open>The language.\<close>
  \<^item> \<open>Dsl_Token\<close>, \<open>Dsl_Lexer\<close>, \<open>Dsl_Lexer_Laws\<close>: the scanner is total (its recursion has a measure) and
    refines a lexical specification that accounts for every rune; exactly one end token.
  \<^item> \<open>Dsl_Ast\<close>, \<open>Dsl_Parser\<close>: the recursive-descent parser with fuel, because one of its loops can
    fail to end. \<open>Dsl_Parser_Laws\<close> and \<open>Dsl_Parser_Fuel\<close> hold what every method keeps and how much
    fuel it needs, \<open>Dsl_Parser_Props\<close> the results: a fuel linear in the number of tokens is enough for
    every source without a malformed tuple bracket, and no fuel is enough for a statement at one;
    \<open>Dsl_Roundtrip\<close>: parsing a printed expression gives it back.
  \<^item> \<open>Dsl_Value\<close>, \<open>Dsl_Interp\<close>, \<open>Dsl_Exec\<close>: values, scopes, series and the store of the interpreter, and
    its statements and expressions as mutually recursive functions with fuel for the depth of the
    recursion. Arrays live in a store because scripts share and update them.
    \<open>Dsl_Exec_Laws\<close>: every method is a sequence of micro steps, so that an invariant is checked
    on the micro steps only. \<open>Dsl_Exec_Total\<close>, \<open>Dsl_Exec_Returns\<close>, \<open>Dsl_Exec_Fuel\<close>: the fuel
    \<open>bar_fuel\<close>, computed from the execution budget and the size of the program, is enough, and more
    of it changes nothing.
  \<^item> \<open>Dsl_Builtins*\<close>, \<open>Dsl_Runtime\<close>: the native functions and their registration;
    \<open>Dsl_Session*\<close>: the states of an interpreter over a whole backtest and what holds in all of them.
  \<^item> \<open>Dsl_Analysis\<close>, \<open>Dsl_Requests\<close>, \<open>Dsl_Remote\<close>, \<open>Dsl_Plan\<close>, \<open>Dsl_Plan_Props\<close>: the static analysis,
    the dependency plan and what they promise to the running script.
  \<^item> \<open>Dsl_Bridge\<close>, \<open>Dsl_Bridge_Props\<close>: the step of a script at a bar of the replay, and a backtest
    of a script as a whole.

  \<^bold>\<open>The backtest.\<close>
  \<^item> \<open>Bt_Position\<close>, \<open>Bt_Broker\<close>: orders, trades, positions, the pending queue and every method of
    the broker; \<open>Bt_Position_Laws\<close>, \<open>Bt_Broker_Laws\<close>, \<open>Bt_Broker_Queue\<close>, \<open>Bt_Broker_Log\<close>,
    \<open>Bt_Broker_Props\<close>: the arithmetic of a fill under rounding, the queue, the trade log, prices.
  \<^item> \<open>Bt_Align\<close>, \<open>Bt_Prepare\<close>, \<open>Bt_Align_Props\<close>: data sets, alignment, loading and the warm-up; what
    a bar reads has closed by then.
  \<^item> \<open>Bt_Rolling\<close>, \<open>Bt_Indicator_Lib\<close>, \<open>Bt_Indicators\<close>, \<open>Bt_Indicators_Data\<close>: the vectorised helpers, the
    indicators and the levelled resolution of their dependency graph. The number of levels is bounded
    by the number of indicators, and the theorem on cycles says that this bound is never the reason for
    stopping. \<open>Bt_Rolling_Laws\<close>, \<open>Bt_Rolling_Props\<close>, \<open>Bt_Indicators_Laws\<close>, \<open>Bt_Indicators_Props\<close>,
    \<open>Bt_Indicator_Causal\<close>, \<open>Bt_Indicator_Props\<close>: causality, windows, order independence.
  \<^item> \<open>Bt_Option\<close>, \<open>Bt_Spread\<close>, \<open>Bt_Context\<close>, \<open>Bt_Replay\<close>, \<open>Bt_Strategy\<close>: option legs, the tracker of
    spreads with its shared backing array, the groups, the commands of a strategy, the replay and
    two strategies; \<open>Bt_Spread_Laws\<close>, \<open>Bt_Engine_Laws\<close>, \<open>Bt_Engine_Props\<close>, \<open>Bt_Replay_Props\<close>: elementary
    steps of the engine and what they keep, and that a replay does not look ahead.
  \<^item> \<open>Bt_Result\<close>, \<open>Bt_Result_Props\<close>: the statistics of a result.

  \<^bold>\<open>Bounds.\<close>
  Integers that the code keeps in an \<open>int\<close> and that count things are \<open>int\<close> or \<open>nat\<close>; times and durations
  are 64-bit where an overflow can happen. Slices have no largest length: a length or capacity that
  Go cannot allocate, for instance an astronomically large period of a rolling indicator, is outside
  the model.

  \<^bold>\<open>Not modelled.\<close>
  The option functions of the language (\<open>builtins_options.go\<close>, \<open>options_adapter.go\<close>) and the
  mode of \<open>request.security\<close> that evaluates an expression on another security (\<open>EvalSpecialForm\<close> of
  \<open>remote_request.go\<close>): statements about every script are statements about scripts that use neither.
  The catalogue of scripts, the exports of a result, batches of backtests, and everything outside the
  core: importers of market data, repositories over SQL, caches, the HTTP services, third-party
  clients, commands and user interfaces. They are input and output around the core.
\<close>

end
